(* ===== verification/Prelude.thy ===== *)
theory Prelude
  imports Main "HOL-Library.List_Lexorder" "HOL-Library.Product_Lexorder"
begin

text \<open>
  The shared vocabulary of the development: Python text, instants, raised exceptions as values,
  and SQLite tables as lists of rows.

  \<^item> A Python \<open>str\<close> is the list of its code points (\<open>pystr\<close>), surrogates included; a literal of
    the source is \<open>lit ''...''\<close>. Python compares strings by code point and SQLite's BINARY
    collation compares their UTF-8 bytes, which is the same order: the lexicographic order of
    \<open>List_Lexorder\<close>.
  \<^item> An aware UTC \<open>datetime\<close> is an \<open>instant\<close>, its microseconds since the epoch. A TEXT column that
    the code parses again is an \<open>iso\<close>: what \<open>datetime.fromisoformat\<close> makes of it.
  \<^item> A raised exception is the left summand of \<open>err + 'a\<close>. A store operation that raises has been
    rolled back by \<open>Store.connection\<close>, so no store is returned with it.
  \<^item> A table is the list of its rows in rowid order; \<open>SELECT ... WHERE key = ?\<close> is \<open>List.find\<close>,
    \<open>UPDATE\<close> is \<open>update_where\<close>, \<open>DELETE\<close> is \<open>delete_where\<close>, the cursor's \<open>rowcount\<close> is
    \<open>count_where\<close>.
\<close>

named_theorems table_simps \<open>rewrite rules for tables as lists of rows\<close>
named_theorems res_splits \<open>case rules for operations that may raise\<close>

section \<open>Text and instants\<close>

type_synonym pystr = "nat list"
type_synonym bytes = "nat list"
type_synonym instant = int

definition lit :: "string \<Rightarrow> pystr" where
  "lit s = map of_char s"

lemma lit_eq_iff [simp]: "lit s = lit t \<longleftrightarrow> s = t"
proof -
  have "inj (of_char :: char \<Rightarrow> nat)"
    by (rule injI) simp
  then show ?thesis
    unfolding lit_def by (simp add: inj_map_eq_map)
qed

lemma length_lit [simp]: "length (lit s) = length s"
  by (simp add: lit_def)

lemma lit_eq_Nil_iff [simp]: "lit s = [] \<longleftrightarrow> s = []" "[] = lit s \<longleftrightarrow> s = []"
  by (simp_all add: lit_def)

lemma lit_append: "lit s @ lit t = lit (s @ t)"
  by (simp add: lit_def)

datatype iso = Aware instant | Naive int | NotIso

text \<open>
  \<open>iso_epoch\<close> is the SQL function \<open>aware_iso_epoch\<close>: NULL for text that does not parse or that
  has no offset. \<open>sql_le\<close> is SQL's \<open><=\<close> in a WHERE clause: NULL on either side is not true.
\<close>

fun iso_epoch :: "iso \<Rightarrow> instant option" where
  "iso_epoch (Aware t) = Some t"
| "iso_epoch (Naive t) = None"
| "iso_epoch NotIso = None"

fun sql_le :: "instant option \<Rightarrow> instant option \<Rightarrow> bool" where
  "sql_le (Some a) (Some b) = (a \<le> b)"
| "sql_le _ _ = False"

definition seconds :: "int \<Rightarrow> int" where
  "seconds n = n * 1000000"

text \<open>\<open>int((b - a).total_seconds())\<close> truncates towards zero.\<close>

definition whole_seconds :: "int \<Rightarrow> int" where
  "whole_seconds us = (if us < 0 then - ((- us) div 1000000) else us div 1000000)"

lemma whole_seconds_nonneg [simp]: "0 \<le> us \<Longrightarrow> 0 \<le> whole_seconds us"
  by (simp add: whole_seconds_def)

lemma whole_seconds_nonpos [simp]: "us \<le> 0 \<Longrightarrow> whole_seconds us \<le> 0"
  by (auto simp: whole_seconds_def pos_imp_zdiv_nonneg_iff)

lemma whole_seconds_seconds [simp]: "whole_seconds (seconds n) = n"
  by (auto simp: whole_seconds_def seconds_def)

lemma seconds_whole_seconds_le: "0 \<le> us \<Longrightarrow> seconds (whole_seconds us) \<le> us"
  by (simp add: whole_seconds_def seconds_def)

lemma length_dropWhile_less [termination_simp]: "length (dropWhile P xs) < Suc (length xs)"
  using length_dropWhile_le [of P xs] by simp

lemma length_tl_dropWhile_less [termination_simp]:
  "length (dropWhile P xs) - Suc 0 < Suc (length xs)"
  using length_dropWhile_le [of P xs] by simp

section \<open>Exceptions as values\<close>

datatype err =
    ValueError string
  | RuntimeError string
  | KeyError
  | IntegrityError string
  | AssertionError string
  | UnicodeError
  | TypeError
  | RuleValidationError string
  | AutomationFanoutLimit string
  | AutomationRuleNotFound
  | AutomationRuleStale
  | AutomationRuleLimitExceeded
  | AutomationRuleSystemProtected
  | MailboxIdentityChanged
  | ConnectQueueFull
  | SendError string
  | StoredBodyInvalid string
  | PermissionError string
  | AutomationSourceChanged string
  | AutomationCalendarWriteStateChanged
  | GmailLabelStoreError string

fun is_ok :: "'e + 'a \<Rightarrow> bool" where
  "is_ok (Inl _) = False"
| "is_ok (Inr _) = True"

lemma is_ok_iff: "is_ok r \<longleftrightarrow> (\<exists>x. r = Inr x)"
  by (cases r) auto

lemma is_ok_pair: "is_ok r \<Longrightarrow> \<exists>a b. r = Inr (a, b)"
  by (cases r) auto

text \<open>
  \<open>andThen\<close> runs the rest of a function after a call that may raise; \<open>require\<close> is
  \<open>if not condition: raise\<close>. A function that succeeds passed every guard, which is what their
  rewrite rules say.
\<close>

definition andThen :: "'e + 'a \<Rightarrow> ('a \<Rightarrow> 'e + 'b) \<Rightarrow> 'e + 'b" where
  "andThen r f = (case r of Inl e \<Rightarrow> Inl e | Inr x \<Rightarrow> f x)"

definition require :: "bool \<Rightarrow> 'e \<Rightarrow> 'e + unit" where
  "require b e = (if b then Inr () else Inl e)"

fun the_row :: "'e \<Rightarrow> 'a option \<Rightarrow> 'e + 'a" where
  "the_row e None = Inl e"
| "the_row e (Some x) = Inr x"

text \<open>A SQL CHECK passes on NULL.\<close>

fun opt_all :: "('a \<Rightarrow> bool) \<Rightarrow> 'a option \<Rightarrow> bool" where
  "opt_all P None = True"
| "opt_all P (Some x) = P x"

lemma opt_all_iff: "opt_all P x \<longleftrightarrow> (\<forall>y. x = Some y \<longrightarrow> P y)"
  by (cases x) auto

lemma andThen_simps [simp]: "andThen (Inl e) f = Inl e" "andThen (Inr x) f = f x"
  by (simp_all add: andThen_def)

lemma andThen_Inr [res_splits]: "andThen r f = Inr y \<longleftrightarrow> (\<exists>x. r = Inr x \<and> f x = Inr y)"
  by (cases r) auto

lemma require_Inr [res_splits]: "require b e = Inr u \<longleftrightarrow> b"
  by (auto simp: require_def)

lemma require_simps [simp]: "require True e = Inr ()" "require False e = Inl e"
  by (simp_all add: require_def)

lemma the_row_Inr [res_splits]: "the_row e x = Inr y \<longleftrightarrow> x = Some y"
  by (cases x) auto

lemma if_Inl_Inr [res_splits]: "(if b then Inl e else r) = Inr y \<longleftrightarrow> \<not> b \<and> r = Inr y"
  by simp

lemma map_sum_fst_Inr: "map_sum id fst r = Inr x \<longleftrightarrow> (\<exists>y. r = Inr (x, y))"
  by (cases r) auto

section \<open>Tables as lists of rows\<close>

definition update_where :: "('r \<Rightarrow> bool) \<Rightarrow> ('r \<Rightarrow> 'r) \<Rightarrow> 'r list \<Rightarrow> 'r list" where
  "update_where P f rows = map (\<lambda>r. if P r then f r else r) rows"

definition delete_where :: "('r \<Rightarrow> bool) \<Rightarrow> 'r list \<Rightarrow> 'r list" where
  "delete_where P rows = filter (\<lambda>r. \<not> P r) rows"

definition count_where :: "('r \<Rightarrow> bool) \<Rightarrow> 'r list \<Rightarrow> nat" where
  "count_where P rows = length (filter P rows)"

definition exists_where :: "('r \<Rightarrow> bool) \<Rightarrow> 'r list \<Rightarrow> bool" where
  "exists_where P rows = list_ex P rows"

lemma exists_where_iff: "exists_where P rows \<longleftrightarrow> (\<exists>r\<in>set rows. P r)"
  by (simp add: exists_where_def list_ex_iff)

lemma update_where_Nil [table_simps]: "update_where P f [] = []"
  by (simp add: update_where_def)

lemma update_where_Cons [table_simps]:
  "update_where P f (r # rows) = (if P r then f r else r) # update_where P f rows"
  by (simp add: update_where_def)

lemma length_update_where [simp]: "length (update_where P f rows) = length rows"
  by (simp add: update_where_def)

lemma set_update_where: "set (update_where P f rows) = (\<lambda>r. if P r then f r else r) ` set rows"
  by (simp add: update_where_def)

lemma update_where_mem: "r \<in> set rows \<Longrightarrow> P r \<Longrightarrow> f r \<in> set (update_where P f rows)"
  by (auto simp: set_update_where image_iff)

lemma update_where_other: "r \<in> set rows \<Longrightarrow> \<not> P r \<Longrightarrow> r \<in> set (update_where P f rows)"
  by (auto simp: set_update_where image_iff)

lemma set_delete_where: "set (delete_where P rows) = {r \<in> set rows. \<not> P r}"
  by (simp add: delete_where_def)

lemma map_update_where:
  "(\<And>r. P r \<Longrightarrow> g (f r) = g r) \<Longrightarrow> map g (update_where P f rows) = map g rows"
  by (simp add: update_where_def)

lemma distinct_delete_where: "distinct (map k rows) \<Longrightarrow> distinct (map k (delete_where P rows))"
  by (simp add: delete_where_def distinct_map_filter)

lemma distinct_key_eq:
  "distinct (map k rows) \<Longrightarrow> r \<in> set rows \<Longrightarrow> r' \<in> set rows \<Longrightarrow> k r = k r' \<Longrightarrow> r = r'"
  by (metis distinct_map inj_onD)

lemma count_where_zero_iff: "count_where P rows = 0 \<longleftrightarrow> (\<forall>r\<in>set rows. \<not> P r)"
  by (simp add: count_where_def filter_empty_conv)

lemma count_where_key_le_1:
  assumes "distinct (map k rows)" and "\<And>r. P r \<Longrightarrow> k r = a"
  shows "count_where P rows \<le> 1"
proof -
  have "distinct (map k (filter P rows))"
    using assms(1) by (simp add: distinct_map_filter)
  moreover have "set (map k (filter P rows)) \<subseteq> {a}"
    using assms(2) by auto
  ultimately have "length (map k (filter P rows)) \<le> card {a}"
    by (metis card_mono distinct_card finite.emptyI finite.insertI)
  then show ?thesis
    by (simp add: count_where_def)
qed

lemma count_where_key_1_iff:
  assumes "distinct (map k rows)" and "\<And>r. P r \<Longrightarrow> k r = a"
  shows "count_where P rows = 1 \<longleftrightarrow> (\<exists>r\<in>set rows. P r)"
  using count_where_key_le_1 [OF assms] count_where_zero_iff [of P rows]
  by (metis One_nat_def le_SucE le_zero_eq zero_neq_one)

lemma find_append_rows:
  "List.find P (xs @ ys) = (case List.find P xs of None \<Rightarrow> List.find P ys | Some x \<Rightarrow> Some x)"
  by (induction xs) auto

lemma find_key_update:
  "(\<And>r. P r \<Longrightarrow> k (f r) = k r) \<Longrightarrow>
     List.find (\<lambda>r. k r = a) (update_where P f rows)
     = map_option (\<lambda>r. if P r then f r else r) (List.find (\<lambda>r. k r = a) rows)"
  by (induction rows) (auto simp: update_where_def)

lemma find_key_delete:
  "List.find (\<lambda>r. k r = a) (delete_where (\<lambda>r. k r = b) rows)
     = (if a = b then None else List.find (\<lambda>r. k r = a) rows)"
  by (induction rows) (auto simp: delete_where_def)

lemma find_key_Some: "List.find (\<lambda>r. k r = a) rows = Some r \<Longrightarrow> r \<in> set rows \<and> k r = a"
  by (auto simp: find_Some_iff)

lemma find_key_None: "List.find (\<lambda>r. k r = a) rows = None \<longleftrightarrow> a \<notin> k ` set rows"
  by (auto simp: find_None_iff)

lemma find_key_insert:
  "k row \<notin> k ` set rows \<Longrightarrow>
     List.find (\<lambda>r. k r = a) (rows @ [row]) = (if a = k row then Some row else List.find (\<lambda>r. k r = a) rows)"
  by (induction rows) auto

lemma find_key_distinct:
  "distinct (map k rows) \<Longrightarrow> r \<in> set rows \<Longrightarrow> List.find (\<lambda>x. k x = k r) rows = Some r"
  by (induction rows) auto

text \<open>
  An \<open>UPDATE\<close> or \<open>INSERT\<close> on a table with CHECK constraints aborts when a row it writes fails
  them, or, for an insert, when its primary key is taken.
\<close>

definition checked_update ::
  "('r \<Rightarrow> bool) \<Rightarrow> string \<Rightarrow> ('r \<Rightarrow> bool) \<Rightarrow> ('r \<Rightarrow> 'r) \<Rightarrow> 'r list \<Rightarrow> err + 'r list" where
  "checked_update check msg P f rows =
     (if exists_where (\<lambda>r. P r \<and> \<not> check (f r)) rows then Inl (IntegrityError msg)
      else Inr (update_where P f rows))"

definition checked_insert ::
  "('r \<Rightarrow> bool) \<Rightarrow> ('r \<Rightarrow> 'k) \<Rightarrow> string \<Rightarrow> 'r \<Rightarrow> 'r list \<Rightarrow> err + 'r list" where
  "checked_insert check key msg row rows =
     (if \<not> check row \<or> key row \<in> set (map key rows) then Inl (IntegrityError msg)
      else Inr (rows @ [row]))"

lemma checked_update_Inr [res_splits]:
  "checked_update check msg P f rows = Inr rows' \<longleftrightarrow>
     rows' = update_where P f rows \<and> (\<forall>r\<in>set rows. P r \<longrightarrow> check (f r))"
  by (auto simp: checked_update_def exists_where_iff)

lemma checked_insert_Inr [res_splits]:
  "checked_insert check key msg row rows = Inr rows' \<longleftrightarrow>
     rows' = rows @ [row] \<and> check row \<and> key row \<notin> key ` set rows"
  by (auto simp: checked_insert_def)

lemma checked_update_all:
  "checked_update check msg P f rows = Inr rows' \<Longrightarrow> list_all check rows \<Longrightarrow> list_all check rows'"
  by (auto simp: checked_update_Inr set_update_where list_all_iff)

lemma update_where_none: "count_where P rows = 0 \<Longrightarrow> update_where P f rows = rows"
  by (auto simp: update_where_def count_where_zero_iff intro: map_idI)

end
