(* ===== verification/Text.thy ===== *)
theory Text
  imports Prelude
begin

text \<open>
  Bounds on text that arrives from outside: \<open>text.py\<close> and the \<open>_require_*\<close> validators at the
  head of \<open>db.py\<close>, over UTF-8 written out. Encoding fails on an unpaired surrogate, as
  \<open>str.encode\<close> does; \<open>utf8_decode_ignore\<close> is \<open>bytes.decode("utf-8", errors="ignore")\<close>, which
  drops every byte that is not part of a well-formed sequence. The last section shows that the
  byte-bounded diagnostics of the queue (\<open>value.encode()[:n].decode(errors="ignore")\<close>) are a
  prefix of the text that fits the bound.
\<close>

section \<open>UTF-8\<close>

definition surrogate :: "nat \<Rightarrow> bool" where
  "surrogate c \<longleftrightarrow> 55296 \<le> c \<and> c < 57344"

definition utf8_char :: "nat \<Rightarrow> bytes option" where
  "utf8_char c =
     (if c < 128 then Some [c]
      else if c < 2048 then Some [192 + c div 64, 128 + c mod 64]
      else if surrogate c then None
      else if c < 65536 then Some [224 + c div 4096, 128 + c div 64 mod 64, 128 + c mod 64]
      else if c < 1114112 then
        Some [240 + c div 262144, 128 + c div 4096 mod 64, 128 + c div 64 mod 64, 128 + c mod 64]
      else None)"

fun utf8_encode :: "pystr \<Rightarrow> bytes option" where
  "utf8_encode [] = Some []"
| "utf8_encode (c # s) =
     (case utf8_char c of None \<Rightarrow> None
      | Some bs \<Rightarrow> (case utf8_encode s of None \<Rightarrow> None | Some rest \<Rightarrow> Some (bs @ rest)))"

definition utf8_size :: "pystr \<Rightarrow> nat option" where
  "utf8_size value = map_option length (utf8_encode value)"

definition within_utf8_bytes :: "pystr \<Rightarrow> nat \<Rightarrow> bool" where
  "within_utf8_bytes value maximum =
     (case utf8_size value of None \<Rightarrow> False | Some n \<Rightarrow> n \<le> maximum)"

definition continuation :: "nat \<Rightarrow> bool" where
  "continuation b \<longleftrightarrow> 128 \<le> b \<and> b < 192"

text \<open>A well-formed sequence led by \<open>b\<close>: its code point and how many further bytes it uses.\<close>

definition utf8_sequence :: "nat \<Rightarrow> bytes \<Rightarrow> (nat \<times> nat) option" where
  "utf8_sequence b bs =
     (if b < 128 then Some (b, 0)
      else if 194 \<le> b \<and> b < 224 then
        (case bs of
           c1 # _ \<Rightarrow> if continuation c1 then Some ((b - 192) * 64 + (c1 - 128), 1) else None
         | _ \<Rightarrow> None)
      else if 224 \<le> b \<and> b < 240 then
        (case bs of
           c1 # c2 # _ \<Rightarrow>
             (let v = (b - 224) * 4096 + (c1 - 128) * 64 + (c2 - 128) in
              if continuation c1 \<and> continuation c2 \<and> 2048 \<le> v \<and> \<not> surrogate v
              then Some (v, 2) else None)
         | _ \<Rightarrow> None)
      else if 240 \<le> b \<and> b < 245 then
        (case bs of
           c1 # c2 # c3 # _ \<Rightarrow>
             (let v = (b - 240) * 262144 + (c1 - 128) * 4096 + (c2 - 128) * 64 + (c3 - 128) in
              if continuation c1 \<and> continuation c2 \<and> continuation c3 \<and> 65536 \<le> v \<and> v < 1114112
              then Some (v, 3) else None)
         | _ \<Rightarrow> None)
      else None)"

fun utf8_decode_ignore :: "bytes \<Rightarrow> pystr" where
  "utf8_decode_ignore [] = []"
| "utf8_decode_ignore (b # bs) =
     (case utf8_sequence b bs of
        None \<Rightarrow> utf8_decode_ignore bs
      | Some (c, n) \<Rightarrow> c # utf8_decode_ignore (drop n bs))"

text \<open>\<open>value.encode("utf-8")[:n].decode("utf-8", errors="ignore")\<close>\<close>

definition utf8_truncate :: "nat \<Rightarrow> pystr \<Rightarrow> err + pystr" where
  "utf8_truncate n value =
     (case utf8_encode value of
        None \<Rightarrow> Inl UnicodeError
      | Some bs \<Rightarrow> Inr (utf8_decode_ignore (take n bs)))"

section \<open>Validators\<close>

definition is_hex :: "nat \<Rightarrow> bool" where
  "is_hex c \<longleftrightarrow> (48 \<le> c \<and> c \<le> 57) \<or> (97 \<le> c \<and> c \<le> 102)"

definition has_control_character :: "pystr \<Rightarrow> bool" where
  "has_control_character value = list_ex (\<lambda>c. c < 32 \<or> (127 \<le> c \<and> c < 160)) value"

definition require_bounded_text :: "pystr \<Rightarrow> nat \<Rightarrow> err + pystr" where
  "require_bounded_text value maximum_bytes =
     (if value = [] \<or> \<not> within_utf8_bytes value maximum_bytes \<or> has_control_character value
      then Inl (ValueError ''is invalid'') else Inr value)"

definition require_mailbox_identity_key :: "pystr \<Rightarrow> err + pystr" where
  "require_mailbox_identity_key value =
     (if length value \<noteq> 64 \<or> list_ex (\<lambda>c. \<not> is_hex c) value
      then Inl (ValueError ''mailbox identity key must be a lower-case SHA-256 digest'')
      else Inr value)"

definition SQLITE_MAX_INTEGER :: int where
  "SQLITE_MAX_INTEGER = 2 ^ 63 - 1"

definition require_revision :: "int \<Rightarrow> err + int" where
  "require_revision value =
     (if 0 \<le> value \<and> value \<le> SQLITE_MAX_INTEGER then Inr value
      else Inl (ValueError ''revision must be a non-negative SQLite integer''))"

text \<open>
  \<open>str(uuid.UUID(value)) == value\<close> leaves the canonical 8-4-4-4-12 form in lower-case
  hexadecimal; \<open>version == 4\<close> fixes the version nibble and the RFC 4122 variant bits.
\<close>

definition uuid_dash_positions :: "nat list" where
  "uuid_dash_positions = [8, 13, 18, 23]"

definition valid_uuid_v4 :: "pystr \<Rightarrow> bool" where
  "valid_uuid_v4 value \<longleftrightarrow>
     length value = 36 \<and>
     list_all (\<lambda>i. if i \<in> set uuid_dash_positions then value ! i = 45 else is_hex (value ! i)) [0..<36] \<and>
     value ! 14 = 52 \<and> value ! 19 \<in> {56, 57, 97, 98}"

lemma valid_uuid_v4_length: "valid_uuid_v4 value \<Longrightarrow> length value = 36"
  by (simp add: valid_uuid_v4_def)

section \<open>Facts about UTF-8\<close>

lemma utf8_char_length: "utf8_char c = Some bs \<Longrightarrow> 0 < length bs \<and> length bs \<le> 4"
  by (auto simp: utf8_char_def split: if_splits)

lemma div_mod_64_bounds:
  fixes c :: nat
  shows "continuation (128 + c mod 64)" "128 + c mod 64 - 128 = c mod 64"
  by (simp_all add: continuation_def)

lemma rebuild_2: "(c div 64) * 64 + c mod 64 = (c::nat)"
  by simp

lemma rebuild_3: "(c div 4096) * 4096 + (c div 64 mod 64) * 64 + c mod 64 = (c::nat)"
proof -
  have "c div 64 = (c div 64 div 64) * 64 + c div 64 mod 64" by simp
  moreover have "c div 64 div 64 = c div 4096" by (simp flip: div_mult2_eq)
  ultimately have "c div 64 = (c div 4096) * 64 + c div 64 mod 64" by simp
  then have "(c div 64) * 64 = (c div 4096) * 4096 + (c div 64 mod 64) * 64" by simp
  then show ?thesis using rebuild_2 [of c] by linarith
qed

lemma rebuild_4:
  "(c div 262144) * 262144 + (c div 4096 mod 64) * 4096 + (c div 64 mod 64) * 64 + c mod 64 = (c::nat)"
proof -
  have "c div 4096 = (c div 4096 div 64) * 64 + c div 4096 mod 64" by simp
  moreover have "c div 4096 div 64 = c div 262144" by (simp flip: div_mult2_eq)
  ultimately have "c div 4096 = (c div 262144) * 64 + c div 4096 mod 64" by simp
  then have "(c div 4096) * 4096 = (c div 262144) * 262144 + (c div 4096 mod 64) * 4096" by simp
  then show ?thesis using rebuild_3 [of c] by linarith
qed

lemma utf8_sequence_char:
  assumes "utf8_char c = Some bs"
  shows "utf8_sequence (hd bs) (tl bs @ rest) = Some (c, length bs - 1)"
proof -
  consider "c < 128" | "128 \<le> c" "c < 2048" | "2048 \<le> c" "c < 65536" "\<not> surrogate c"
    | "65536 \<le> c" "c < 1114112"
    using assms by (auto simp: utf8_char_def surrogate_def not_less split: if_splits)
  then show ?thesis
  proof cases
    case 1
    with assms show ?thesis by (auto simp: utf8_char_def utf8_sequence_def)
  next
    case 2
    then have "2 \<le> c div 64" "c div 64 < 32" by auto
    with 2 assms show ?thesis
      by (auto simp: utf8_char_def utf8_sequence_def div_mod_64_bounds rebuild_2)
  next
    case 3
    then have "c div 4096 < 16" by auto
    with 3 assms show ?thesis
      by (auto simp: utf8_char_def utf8_sequence_def div_mod_64_bounds rebuild_3)
  next
    case 4
    then have "c div 262144 < 5" by auto
    with 4 assms show ?thesis
      by (auto simp: utf8_char_def utf8_sequence_def div_mod_64_bounds rebuild_4 surrogate_def)
  qed
qed

lemma utf8_decode_char:
  assumes "utf8_char c = Some bs"
  shows "utf8_decode_ignore (bs @ rest) = c # utf8_decode_ignore rest"
proof -
  from utf8_char_length [OF assms] obtain b bs' where bs: "bs = b # bs'"
    by (cases bs) auto
  with utf8_sequence_char [OF assms, of rest] show ?thesis by simp
qed

lemma utf8_decode_continuations:
  "list_all continuation bs \<Longrightarrow> utf8_decode_ignore bs = []"
  by (induction bs) (auto simp: utf8_sequence_def continuation_def)

lemma utf8_char_tl_continuations:
  "utf8_char c = Some bs \<Longrightarrow> list_all continuation (tl bs)"
  by (auto simp: utf8_char_def continuation_def split: if_splits)

lemma utf8_char_hd:
  assumes "utf8_char c = Some bs"
  shows "length bs = (if hd bs < 128 then 1 else if hd bs < 224 then 2 else if hd bs < 240 then 3 else 4)
    \<and> \<not> (128 \<le> hd bs \<and> hd bs < 192)"
  using assms by (auto simp: utf8_char_def surrogate_def split: if_splits)

lemma utf8_sequence_short:
  assumes "utf8_char c = Some (b # bs)" and "n < length bs"
  shows "utf8_sequence b (take n bs) = None"
proof -
  from utf8_char_hd [OF assms(1)] assms(2)
  have "utf8_sequence b ys = None" if "length ys < length bs" for ys
    using that by (cases ys rule: remdups_adj.cases)
      (auto simp: utf8_sequence_def split: if_splits list.splits)
  then show ?thesis using assms(2) by simp
qed

lemma utf8_decode_cut:
  assumes "utf8_char c = Some bs" and "n < length bs"
  shows "utf8_decode_ignore (take n bs) = []"
proof (cases n)
  case 0
  then show ?thesis by simp
next
  case (Suc m)
  with assms(2) obtain b bs' where bs: "bs = b # bs'" by (cases bs) auto
  from assms bs Suc have "utf8_sequence b (take m bs') = None"
    by (intro utf8_sequence_short [of c]) auto
  moreover have "list_all continuation (take m bs')"
    using utf8_char_tl_continuations [OF assms(1)] bs
    by (auto simp: list_all_iff dest: in_set_takeD)
  ultimately show ?thesis
    using bs Suc by (simp add: utf8_decode_continuations)
qed

lemma utf8_encode_append:
  "utf8_encode s = Some bs \<Longrightarrow> utf8_encode t = Some cs \<Longrightarrow> utf8_encode (s @ t) = Some (bs @ cs)"
  by (induction s arbitrary: bs) (auto split: option.splits)

lemma utf8_decode_encode: "utf8_encode s = Some bs \<Longrightarrow> utf8_decode_ignore bs = s"
  by (induction s arbitrary: bs) (auto simp: utf8_decode_char split: option.splits)

lemma utf8_decode_take_prefix:
  "utf8_encode s = Some bs \<Longrightarrow>
     \<exists>k. utf8_decode_ignore (take n bs) = take k s \<and>
       (\<exists>cs. utf8_encode (take k s) = Some cs \<and> length cs \<le> n)"
proof (induction s arbitrary: bs n)
  case Nil
  then show ?case by simp
next
  case (Cons c s)
  from Cons.prems obtain cb sb where c: "utf8_char c = Some cb" and s: "utf8_encode s = Some sb"
    and bs: "bs = cb @ sb" by (auto split: option.splits)
  show ?case
  proof (cases "n < length cb")
    case True
    then have "utf8_decode_ignore (take n bs) = take 0 (c # s)"
      using bs utf8_decode_cut [OF c] by simp
    then show ?thesis by (metis le0 list.size(3) take0 utf8_encode.simps(1))
  next
    case False
    from Cons.IH [OF s, of "n - length cb"] obtain k cs where
      k: "utf8_decode_ignore (take (n - length cb) sb) = take k s"
      and cs: "utf8_encode (take k s) = Some cs" "length cs \<le> n - length cb" by blast
    have "utf8_decode_ignore (take n bs) = take (Suc k) (c # s)"
      using False bs k by (simp add: utf8_decode_char [OF c])
    moreover have "utf8_encode (take (Suc k) (c # s)) = Some (cb @ cs)"
      using c cs by simp
    moreover have "length (cb @ cs) \<le> n" using False cs by simp
    ultimately show ?thesis by blast
  qed
qed

text \<open>
  The byte-bounded truncation never raises on encodable text; its result is a prefix of the
  text, encodes to at most \<open>n\<close> bytes, and is the whole text when that already fits.
\<close>

theorem utf8_truncate_bounded:
  assumes "utf8_size value = Some m"
  shows "\<exists>k. utf8_truncate n value = Inr (take k value) \<and> within_utf8_bytes (take k value) n
    \<and> (m \<le> n \<longrightarrow> take k value = value)"
proof -
  from assms obtain bs where bs: "utf8_encode value = Some bs" and m: "length bs = m"
    by (auto simp: utf8_size_def)
  from utf8_decode_take_prefix [OF bs, of n] obtain k cs where
    k: "utf8_decode_ignore (take n bs) = take k value"
    and cs: "utf8_encode (take k value) = Some cs" "length cs \<le> n" by blast
  have "m \<le> n \<longrightarrow> take k value = value"
    using k m utf8_decode_encode [OF bs] by (metis take_all)
  with bs k cs show ?thesis
    by (auto simp: utf8_truncate_def within_utf8_bytes_def utf8_size_def intro!: exI [of _ k])
qed

theorem utf8_truncate_bounded_witness:
  "utf8_size [97, 8364, 128512] = Some 8
   \<and> (\<exists>k. utf8_truncate 5 [97, 8364, 128512] = Inr (take k [97, 8364, 128512])
        \<and> within_utf8_bytes (take k [97, 8364, 128512]) 5)"
proof -
  have h: "utf8_size [97, 8364, 128512] = Some 8"
    by (simp add: utf8_size_def utf8_char_def surrogate_def)
  show ?thesis using h utf8_truncate_bounded [OF h, of 5] by blast
qed

end
