(* ===== verification/Addresses.thy ===== *)
theory Addresses
  imports Text
begin

text \<open>
  Mail addresses and message identities: \<open>normalize_address\<close>, \<open>normalize_validated_address\<close> and
  the exact-sender selector of \<open>config.py\<close>, and the pure part of \<open>mailbox.py\<close> (recipients,
  RFC 5322 message ids and reply headers, reads through several copies, local message ids).

  \<open>pyenv\<close> bundles what Python takes from the Unicode database and from header parsers that are
  not in the repository: \<open>str.casefold\<close>, \<open>str.isspace\<close>, \<open>str.islower\<close>,
  \<open>str.isalnum\<close>, \<open>str.isprintable\<close>, the address part of
  \<open>email.utils.parseaddr\<close> and of \<open>getaddresses\<close>, the IDNA codec and \<open>hashlib.sha256(...)\<close> in hexadecimal.
  Every definition that uses one of them takes the environment as an argument, and no theorem
  assumes more of it than it says.
\<close>

record pyenv =
  casefold :: "pystr \<Rightarrow> pystr"
  isspace :: "nat \<Rightarrow> bool"
  islower :: "nat \<Rightarrow> bool"
  isalnum :: "nat \<Rightarrow> bool"
  isprintable :: "nat \<Rightarrow> bool"
  parseaddr :: "pystr \<Rightarrow> pystr"
  getaddresses :: "pystr \<Rightarrow> pystr list"
  idna :: "pystr \<Rightarrow> pystr option"
  sha256 :: "bytes \<Rightarrow> pystr"

section \<open>Operations of Python strings\<close>

definition strip :: "pyenv \<Rightarrow> pystr \<Rightarrow> pystr" where
  "strip env s = rev (dropWhile (isspace env) (rev (dropWhile (isspace env) s)))"

definition startswith :: "pystr \<Rightarrow> pystr \<Rightarrow> bool" where
  "startswith s p \<longleftrightarrow> take (length p) s = p"

definition endswith :: "pystr \<Rightarrow> pystr \<Rightarrow> bool" where
  "endswith s p \<longleftrightarrow> startswith (rev s) (rev p)"

text \<open>\<open>needle in s\<close>\<close>

fun contains :: "pystr \<Rightarrow> pystr \<Rightarrow> bool" where
  "contains s needle =
     (startswith s needle \<or> (case s of [] \<Rightarrow> False | _ # s' \<Rightarrow> contains s' needle))"

declare contains.simps [simp del]

text \<open>\<open>s.rsplit(c, 1)[-1]\<close> and what \<open>s.rpartition(c)\<close> leaves before the last \<open>c\<close>\<close>

definition after_last :: "nat \<Rightarrow> pystr \<Rightarrow> pystr" where
  "after_last c s = rev (takeWhile (\<lambda>x. x \<noteq> c) (rev s))"

definition before_last :: "nat \<Rightarrow> pystr \<Rightarrow> pystr" where
  "before_last c s = rev (tl (dropWhile (\<lambda>x. x \<noteq> c) (rev s)))"

fun split_on :: "nat \<Rightarrow> pystr \<Rightarrow> pystr list" where
  "split_on c [] = [[]]"
| "split_on c (x # s) =
     (if x = c then [] # split_on c s
      else (case split_on c s of [] \<Rightarrow> [[x]] | w # ws \<Rightarrow> (x # w) # ws))"

text \<open>\<open>s.split()\<close>: the maximal runs of characters that are not white space\<close>

fun split_space :: "pyenv \<Rightarrow> pystr \<Rightarrow> pystr list" where
  "split_space env [] = []"
| "split_space env (c # s) =
     (if isspace env c then split_space env s
      else (c # takeWhile (\<lambda>x. \<not> isspace env x) s)
           # split_space env (dropWhile (\<lambda>x. \<not> isspace env x) s))"

text \<open>\<open>dict.fromkeys(xs)\<close> as a sequence: the distinct elements, in order of first occurrence\<close>

definition dict_fromkeys :: "'a list \<Rightarrow> 'a list" where
  "dict_fromkeys xs = rev (remdups (rev xs))"

lemma distinct_dict_fromkeys [simp]: "distinct (dict_fromkeys xs)"
  by (simp add: dict_fromkeys_def)

lemma set_dict_fromkeys [simp]: "set (dict_fromkeys xs) = set xs"
  by (simp add: dict_fromkeys_def)

lemma length_dict_fromkeys: "length (dict_fromkeys xs) \<le> length xs"
  using length_remdups_leq [of "rev xs"] by (simp add: dict_fromkeys_def)

lemma dict_fromkeys_distinct: "distinct xs \<Longrightarrow> dict_fromkeys xs = xs"
  by (simp add: dict_fromkeys_def distinct_remdups_id)

lemma after_last_absent: "c \<notin> set (after_last c s)"
  by (auto simp: after_last_def dest: set_takeWhileD)

lemma partition_at_last:
  assumes "c \<in> set s"
  shows "s = before_last c s @ c # after_last c s"
proof -
  let ?r = "dropWhile (\<lambda>x. x \<noteq> c) (rev s)"
  have "?r \<noteq> []" using assms by (simp add: dropWhile_eq_Nil_conv)
  then have r: "?r = c # tl ?r"
    using hd_dropWhile [of "\<lambda>x. x \<noteq> c" "rev s"] by (cases ?r) auto
  have "rev s = takeWhile (\<lambda>x. x \<noteq> c) (rev s) @ ?r" by simp
  then have "rev s = takeWhile (\<lambda>x. x \<noteq> c) (rev s) @ c # tl ?r" using r by metis
  then have "s = rev (takeWhile (\<lambda>x. x \<noteq> c) (rev s) @ c # tl ?r)" by (metis rev_rev_ident)
  then show ?thesis by (simp add: after_last_def before_last_def)
qed

lemma dropWhile_none: "\<forall>c\<in>set s. \<not> P c \<Longrightarrow> dropWhile P s = s"
  by (cases s) auto

lemma strip_no_space: "\<forall>c\<in>set s. \<not> isspace env c \<Longrightarrow> strip env s = s"
  by (simp add: strip_def dropWhile_none)

section \<open>Addresses (config.py)\<close>

definition is_alnum :: "nat \<Rightarrow> bool" where
  "is_alnum c \<longleftrightarrow> (48 \<le> c \<and> c \<le> 57) \<or> (65 \<le> c \<and> c \<le> 90) \<or> (97 \<le> c \<and> c \<le> 122)"

definition domain_label_re :: "pystr \<Rightarrow> bool" where
  "domain_label_re s \<longleftrightarrow> s \<noteq> [] \<and> length s \<le> 63 \<and> is_alnum (hd s) \<and> is_alnum (last s)
     \<and> list_all (\<lambda>c. is_alnum c \<or> c = 45) s"

definition valid_domain :: "pyenv \<Rightarrow> pystr \<Rightarrow> bool" where
  "valid_domain env domain =
     (case idna env domain of
        None \<Rightarrow> False
      | Some ascii_domain \<Rightarrow>
          length ascii_domain \<le> 253 \<and> list_all domain_label_re (split_on 46 ascii_domain))"

definition normalize_address :: "pyenv \<Rightarrow> pystr \<Rightarrow> pystr" where
  "normalize_address env value = casefold env (strip env (parseaddr env value))"

definition normalize_validated_address :: "pyenv \<Rightarrow> pystr \<Rightarrow> err + pystr" where
  "normalize_validated_address env value =
     (let email = normalize_address env value;
          local = before_last 64 email;
          domain = after_last 64 email in
      if 64 \<notin> set email \<or> local = [] \<or> domain = [] \<or> 64 \<in> set local
         \<or> startswith local [46] \<or> endswith local [46] \<or> contains local [46, 46]
         \<or> \<not> valid_domain env domain
         \<or> list_ex (\<lambda>c. isspace env c \<or> \<not> isprintable env c) email
      then Inl (ValueError ''email address is invalid'')
      else Inr email)"

definition MAX_ADMISSION_SELECTOR_BYTES :: nat where
  "MAX_ADMISSION_SELECTOR_BYTES = 512"

definition exact_sender_selector_id :: "pyenv \<Rightarrow> pystr \<Rightarrow> err + pystr" where
  "exact_sender_selector_id env value =
     (case normalize_validated_address env value of
        Inl e \<Rightarrow> Inl e
      | Inr email \<Rightarrow>
          (let selector_id = lit ''sender:'' @ email in
           if \<not> within_utf8_bytes selector_id MAX_ADMISSION_SELECTOR_BYTES
           then Inl (ValueError ''sender email creates an admission selector over 512 UTF-8 bytes'')
           else Inr selector_id))"

section \<open>Recipients and message ids (mailbox.py)\<close>

definition MAX_RECIPIENT_ADDRESS_BYTES :: nat where
  "MAX_RECIPIENT_ADDRESS_BYTES = 512"

definition recipient_addresses :: "pyenv \<Rightarrow> pystr \<Rightarrow> pystr list" where
  "recipient_addresses env value =
     (if strip env value = [] then []
      else dict_fromkeys
        (filter (\<lambda>candidate. 64 \<in> set candidate \<and> \<not> list_ex (isspace env) candidate
                   \<and> within_utf8_bytes candidate MAX_RECIPIENT_ADDRESS_BYTES)
          (map (\<lambda>address. casefold env (strip env address)) (getaddresses env value))))"

definition MAX_MESSAGE_ID_CHARS :: nat where "MAX_MESSAGE_ID_CHARS = 998"
definition MAX_IDS_PER_REPLY_HEADER :: nat where "MAX_IDS_PER_REPLY_HEADER = 64"

text \<open>\<open>text.partition("@")\<close> splits at the first \<open>@\<close>.\<close>

definition normalize_message_id :: "pyenv \<Rightarrow> pystr \<Rightarrow> pystr option" where
  "normalize_message_id env value =
     (let stripped = strip env value;
          text = (if startswith stripped [60] \<and> endswith stripped [62]
                  then strip env (butlast (tl stripped)) else stripped);
          left = takeWhile (\<lambda>c. c \<noteq> 64) text;
          right = tl (dropWhile (\<lambda>c. c \<noteq> 64) text) in
      if MAX_MESSAGE_ID_CHARS < length text \<or> 64 \<notin> set text \<or> left = [] \<or> right = []
         \<or> 64 \<in> set right
         \<or> list_ex (\<lambda>c. \<not> isprintable env c \<or> isspace env c \<or> c = 60 \<or> c = 62) text
      then None else Some text)"

text \<open>The regular expression \<open><([^<>\s]+)>\<close> under \<open>findall\<close>.\<close>

definition id_char :: "pyenv \<Rightarrow> nat \<Rightarrow> bool" where
  "id_char env c \<longleftrightarrow> c \<noteq> 60 \<and> c \<noteq> 62 \<and> \<not> isspace env c"

fun bracketed_ids :: "pyenv \<Rightarrow> pystr \<Rightarrow> pystr list" where
  "bracketed_ids env [] = []"
| "bracketed_ids env (c # s) =
     (if c = 60 \<and> takeWhile (id_char env) s \<noteq> [] \<and> dropWhile (id_char env) s \<noteq> []
         \<and> hd (dropWhile (id_char env) s) = 62
      then takeWhile (id_char env) s # bracketed_ids env (tl (dropWhile (id_char env) s))
      else bracketed_ids env s)"

definition message_id_list :: "pyenv \<Rightarrow> pystr \<Rightarrow> nat option \<Rightarrow> pystr list" where
  "message_id_list env value limit =
     (let bracketed = bracketed_ids env value;
          found = (if bracketed \<noteq> [] then bracketed else split_space env value);
          ids = dict_fromkeys (List.map_filter (normalize_message_id env) found) in
      case limit of None \<Rightarrow> ids | Some n \<Rightarrow> take n ids)"

definition reply_ids_from_headers :: "pyenv \<Rightarrow> pystr option \<Rightarrow> pystr option \<Rightarrow> pystr list" where
  "reply_ids_from_headers env in_reply_to references =
     (let header_text = (\<lambda>v. case v of None \<Rightarrow> [] | Some t \<Rightarrow> t);
          parents = message_id_list env (header_text in_reply_to) (Some MAX_IDS_PER_REPLY_HEADER);
          history = message_id_list env (header_text references) (Some MAX_IDS_PER_REPLY_HEADER) in
      dict_fromkeys (parents @ history))"

text \<open>
  \<open>read_through_sources\<close>: \<open>read\<close> either serves a copy, reports that copy unavailable (the only
  exception the loop catches) or raises something else.
\<close>

datatype 'a read_result = Served 'a | CopyUnavailable string | ReadRaised err

fun read_through_sources ::
  "pystr list \<Rightarrow> (pystr \<Rightarrow> 'a read_result) \<Rightarrow> string option \<Rightarrow> (pystr \<times> 'a) read_result" where
  "read_through_sources [] read prev =
     (case prev of
        None \<Rightarrow> CopyUnavailable ''The message has no source to read''
      | Some exc \<Rightarrow> CopyUnavailable exc)"
| "read_through_sources (i # ids) read prev =
     (case read i of
        Served x \<Rightarrow> Served (i, x)
      | CopyUnavailable exc \<Rightarrow> read_through_sources ids read (Some exc)
      | ReadRaised e \<Rightarrow> ReadRaised e)"

definition folder_scope_key :: "pystr list \<Rightarrow> pystr" where
  "folder_scope_key folders =
     (case sort (remdups folders) of
        [] \<Rightarrow> []
      | f # fs \<Rightarrow> fold (\<lambda>g acc. acc @ [43] @ g) fs f)"

fun join_nul :: "pystr list \<Rightarrow> pystr" where
  "join_nul [] = []"
| "join_nul [x] = x"
| "join_nul (x # y # ys) = x @ [0] @ join_nul (y # ys)"

definition scoped_message_id ::
  "pyenv \<Rightarrow> pystr \<Rightarrow> pystr \<Rightarrow> pystr \<Rightarrow> pystr option \<Rightarrow> err + pystr" where
  "scoped_message_id env provider account_id provider_message_id mailbox_identity_key =
     (if provider = [] \<or> account_id = [] \<or> provider_message_id = []
      then Inl (ValueError ''Mailbox message identity must be complete'')
      else if mailbox_identity_key = None \<and> provider = lit ''gmail''
              \<and> account_id = lit ''gmail-default''
      then Inr provider_message_id
      else
        (let identity =
           (case mailbox_identity_key of
              Some key \<Rightarrow> [provider, account_id, key, provider_message_id]
            | None \<Rightarrow> [provider, account_id, provider_message_id]) in
         case utf8_encode (join_nul identity) of
           None \<Rightarrow> Inl UnicodeError
         | Some encoded \<Rightarrow> Inr (lit ''mail-'' @ sha256 env encoded)))"

section \<open>Properties\<close>

lemma normalize_message_id_chars:
  assumes "normalize_message_id env value = Some text"
  shows "\<forall>c\<in>set text. isprintable env c \<and> \<not> isspace env c \<and> c \<noteq> 60 \<and> c \<noteq> 62"
    and "length text \<le> MAX_MESSAGE_ID_CHARS" and "64 \<in> set text"
    and "takeWhile (\<lambda>c. c \<noteq> 64) text \<noteq> []" and "tl (dropWhile (\<lambda>c. c \<noteq> 64) text) \<noteq> []"
    and "64 \<notin> set (tl (dropWhile (\<lambda>c. c \<noteq> 64) text))"
  using assms by (auto simp: normalize_message_id_def Let_def list_ex_iff split: if_splits)

lemma normalize_message_id_fixed:
  assumes "\<forall>c\<in>set text. isprintable env c \<and> \<not> isspace env c \<and> c \<noteq> 60 \<and> c \<noteq> 62"
    and "length text \<le> MAX_MESSAGE_ID_CHARS" and "64 \<in> set text"
    and "takeWhile (\<lambda>c. c \<noteq> 64) text \<noteq> []" and "tl (dropWhile (\<lambda>c. c \<noteq> 64) text) \<noteq> []"
    and "64 \<notin> set (tl (dropWhile (\<lambda>c. c \<noteq> 64) text))"
  shows "normalize_message_id env text = Some text"
proof -
  have s: "strip env text = text" using assms(1) by (simp add: strip_no_space)
  have "text \<noteq> []" using assms(3) by auto
  then have "\<not> startswith text [60]"
    using assms(1) by (cases "text") (auto simp: startswith_def)
  with s assms show ?thesis
    by (auto simp: normalize_message_id_def Let_def list_ex_iff)
qed

lemma set_message_id_list:
  "m \<in> set (message_id_list env value limit) \<Longrightarrow> \<exists>v. normalize_message_id env v = Some m"
proof -
  let ?found = "if bracketed_ids env value \<noteq> [] then bracketed_ids env value else split_space env value"
  assume "m \<in> set (message_id_list env value limit)"
  then have "m \<in> set (List.map_filter (normalize_message_id env) ?found)"
    by (auto simp: message_id_list_def Let_def split: option.splits dest!: in_set_takeD)
  then show ?thesis by (auto simp: map_filter_def)
qed

lemma length_message_id_list: "length (message_id_list env value (Some n)) \<le> n"
  by (simp add: message_id_list_def Let_def)

text \<open>
  Normalising a message id is idempotent: an accepted id is already in normal form, so two
  headers that spell one id differently meet in the same thread component.
\<close>

theorem normalize_message_id_idempotent:
  assumes "normalize_message_id env value = Some text"
  shows "normalize_message_id env text = Some text"
  using normalize_message_id_chars [OF assms] by (intro normalize_message_id_fixed) auto

definition ascii_env :: pyenv where
  "ascii_env = \<lparr>casefold = map (\<lambda>c. if 65 \<le> c \<and> c \<le> 90 then c + 32 else c),
     isspace = (\<lambda>c. c = 32 \<or> (9 \<le> c \<and> c \<le> 13)), islower = (\<lambda>c. 97 \<le> c \<and> c \<le> 122),
     isalnum = (\<lambda>c. 48 \<le> c \<and> c \<le> 57 \<or> 65 \<le> c \<and> c \<le> 90 \<or> 97 \<le> c \<and> c \<le> 122), isprintable = (\<lambda>c. 32 \<le> c \<and> c < 127),
     parseaddr = id, getaddresses = split_on 44, idna = Some, sha256 = id\<rparr>"

lemmas ascii_simps = ascii_env_def lit_def strip_def startswith_def endswith_def

theorem normalize_message_id_idempotent_witness:
  "normalize_message_id ascii_env (lit '' <a@b> '') = Some (lit ''a@b'')
   \<and> normalize_message_id ascii_env (lit ''a@b'') = Some (lit ''a@b'')"
proof -
  have h: "normalize_message_id ascii_env (lit '' <a@b> '') = Some (lit ''a@b'')"
    by (simp add: normalize_message_id_def MAX_MESSAGE_ID_CHARS_def ascii_simps)
  show ?thesis using h normalize_message_id_idempotent [OF h] by simp
qed

text \<open>
  The parent ids of a message are distinct, at most 128 (64 per header), and every one of
  them is a normal form of at most 998 characters with exactly one \<open>@\<close> between non-empty sides.
\<close>

theorem reply_ids_bounded_normal:
  "distinct (reply_ids_from_headers env in_reply_to references)
   \<and> length (reply_ids_from_headers env in_reply_to references) \<le> 2 * MAX_IDS_PER_REPLY_HEADER
   \<and> list_all (\<lambda>m. normalize_message_id env m = Some m \<and> length m \<le> MAX_MESSAGE_ID_CHARS)
       (reply_ids_from_headers env in_reply_to references)"
proof -
  let ?ids = "\<lambda>h. message_id_list env (case h of None \<Rightarrow> [] | Some t \<Rightarrow> t) (Some MAX_IDS_PER_REPLY_HEADER)"
  have r: "reply_ids_from_headers env in_reply_to references
      = dict_fromkeys (?ids in_reply_to @ ?ids references)"
    by (simp add: reply_ids_from_headers_def Let_def)
  have "length (?ids in_reply_to @ ?ids references) \<le> 2 * MAX_IDS_PER_REPLY_HEADER"
    using length_message_id_list [of env _ MAX_IDS_PER_REPLY_HEADER]
    by (simp add: add_mono mult_2)
  then have "length (reply_ids_from_headers env in_reply_to references) \<le> 2 * MAX_IDS_PER_REPLY_HEADER"
    unfolding r using length_dict_fromkeys le_trans by blast
  moreover have "normalize_message_id env m = Some m \<and> length m \<le> MAX_MESSAGE_ID_CHARS"
    if "m \<in> set (reply_ids_from_headers env in_reply_to references)" for m
  proof -
    from that obtain v where "normalize_message_id env v = Some m"
      unfolding r by (auto dest: set_message_id_list)
    then show ?thesis
      using normalize_message_id_fixed normalize_message_id_chars by metis
  qed
  ultimately show ?thesis unfolding list_all_iff by (simp add: r)
qed

lemma read_through_sources_served:
  "read_through_sources ids read prev = Served (i, x) \<longleftrightarrow>
     (\<exists>before after. ids = before @ i # after \<and> read i = Served x
        \<and> (\<forall>j\<in>set before. \<exists>exc. read j = CopyUnavailable exc))"
proof (induction ids arbitrary: prev)
  case Nil
  then show ?case by (simp split: option.splits)
next
  case (Cons j ids)
  show ?case
  proof (cases "read j")
    case (Served y)
    then show ?thesis
      by (auto simp: Cons_eq_append_conv)
  next
    case (CopyUnavailable exc)
    then have "(\<exists>before after. j # ids = before @ i # after \<and> read i = Served x
          \<and> (\<forall>j\<in>set before. \<exists>exc. read j = CopyUnavailable exc)) \<longleftrightarrow>
        (\<exists>before after. ids = before @ i # after \<and> read i = Served x
          \<and> (\<forall>j\<in>set before. \<exists>exc. read j = CopyUnavailable exc))" (is "?L \<longleftrightarrow> ?R")
    proof (intro iffI)
      assume ?L
      then show ?R using CopyUnavailable by (auto simp: Cons_eq_append_conv)
    next
      assume ?R
      then obtain before after where "ids = before @ i # after" "read i = Served x"
        "\<forall>j\<in>set before. \<exists>exc. read j = CopyUnavailable exc" by blast
      then have "j # ids = (j # before) @ i # after"
        "\<forall>j\<in>set (j # before). \<exists>exc. read j = CopyUnavailable exc"
        using CopyUnavailable by auto
      then show ?L using \<open>read i = Served x\<close> by blast
    qed
    then show ?thesis
      using Cons.IH [of "Some exc"] CopyUnavailable by simp
  next
    case (ReadRaised e)
    then show ?thesis by (auto simp: Cons_eq_append_conv)
  qed
qed

text \<open>
  A logical message is read through its copies in order: the result is served by \<open>i\<close> exactly
  when \<open>i\<close> serves it and every copy before the first occurrence tried is gone, and the message
  counts as unavailable only when every copy is.
\<close>

theorem read_through_sources_correct:
  "(read_through_sources ids read None = Served (i, x) \<longleftrightarrow>
      (\<exists>before after. ids = before @ i # after \<and> read i = Served x
        \<and> (\<forall>j\<in>set before. \<exists>exc. read j = CopyUnavailable exc)))
   \<and> ((\<exists>exc. read_through_sources ids read None = CopyUnavailable exc) \<longleftrightarrow>
      (\<forall>j\<in>set ids. \<exists>exc. read j = CopyUnavailable exc))"
proof -
  have "(\<exists>exc. read_through_sources ids read prev = CopyUnavailable exc) \<longleftrightarrow>
      (\<forall>j\<in>set ids. \<exists>exc. read j = CopyUnavailable exc)" for prev
  proof (induction ids arbitrary: prev)
    case Nil
    show ?case by (cases prev) auto
  next
    case (Cons j ids)
    then show ?case by (cases "read j") auto
  qed
  then show ?thesis by (intro conjI read_through_sources_served)
qed

theorem read_through_sources_correct_witness:
  "(read_through_sources [lit ''a'', lit ''b'']
      (\<lambda>j. if j = lit ''b'' then Served (7::nat) else CopyUnavailable ''gone'') None
      = Served (lit ''b'', 7))
   \<and> (\<exists>before after. [lit ''a'', lit ''b''] = before @ lit ''b'' # after)"
proof -
  let ?read = "\<lambda>j. if j = lit ''b'' then Served (7::nat) else CopyUnavailable ''gone''"
  have h: "read_through_sources [lit ''a'', lit ''b''] ?read None = Served (lit ''b'', 7)"
    by simp
  then show ?thesis
    using read_through_sources_correct [of "[lit ''a'', lit ''b'']" ?read "lit ''b''" 7] by blast
qed

lemma utf8_encode_inj: "utf8_encode s = Some bs \<Longrightarrow> utf8_encode t = Some bs \<Longrightarrow> s = t"
  using utf8_decode_encode by metis

lemma append_sep_eq:
  "c \<notin> set a \<Longrightarrow> c \<notin> set b \<Longrightarrow> a @ c # u = b @ c # v \<Longrightarrow> a = b \<and> u = v"
proof (induction a arbitrary: b)
  case Nil
  then show ?case by (cases b) auto
next
  case (Cons x a)
  then show ?case by (cases b) auto
qed

lemma join_nul_inj:
  "\<forall>w\<in>set xs \<union> set ys. 0 \<notin> set w \<Longrightarrow> xs \<noteq> [] \<Longrightarrow> ys \<noteq> [] \<Longrightarrow> join_nul xs = join_nul ys \<Longrightarrow> xs = ys"
proof (induction xs arbitrary: ys rule: join_nul.induct)
  case (2 x)
  then show ?case by (cases ys rule: join_nul.cases) auto
next
  case (3 x x' xs)
  from "3.prems" have x: "0 \<notin> set x" by simp
  consider y where "ys = [y]" | y y' zs where "ys = y # y' # zs"
    using "3.prems"(3) by (cases ys rule: join_nul.cases) auto
  then show ?case
  proof cases
    case 1
    then have "0 \<in> set y" using "3.prems"(4) by (metis append_Cons in_set_conv_decomp join_nul.simps(2,3))
    then show ?thesis using 1 "3.prems"(1) by auto
  next
    case 2
    then have "0 \<notin> set y" using "3.prems"(1) by simp
    with x have "x = y \<and> join_nul (x' # xs) = join_nul (y' # zs)"
      using append_sep_eq [of 0 x y] "3.prems"(4) 2 by simp
    then show ?thesis using "3.IH" [of "y' # zs"] "3.prems"(1) 2 by simp
  qed
qed simp



end
