(* ===== verification/Glob.thy ===== *)
theory Glob
  imports Addresses
begin

text \<open>
  \<open>fnmatch.fnmatchcase\<close> of the standard library, which \<open>automation/rules.py\<close> matches attachment
  names with: the pattern is cut into tokens and matched against the whole name. A bracket
  expression is closed by the first \<open>]\<close> after an optional \<open>!\<close> and an optional \<open>]\<close>; without one
  the \<open>[\<close> is a literal. In its body \<open>x-y\<close> is a range, an empty range is dropped, and a body that
  starts with \<open>!\<close>, before or after that, is negated.
\<close>

datatype class_item = Single nat | Range nat nat

datatype glob_token = Star | AnyChar | Literal nat | Class bool "class_item list"

fun class_items :: "pystr \<Rightarrow> class_item list" where
  "class_items (x # h # y # r) =
     (if h = 45 then Range x y # class_items r else Single x # class_items (h # y # r))"
| "class_items (x # r) = Single x # class_items r"
| "class_items [] = []"

fun nonempty_item :: "class_item \<Rightarrow> bool" where
  "nonempty_item (Single c) = True"
| "nonempty_item (Range a b) = (a \<le> b)"

fun negate_bang :: "class_item list \<Rightarrow> bool \<times> class_item list" where
  "negate_bang (Single c # items) = (if c = 33 then (True, items) else (False, Single c # items))"
| "negate_bang (Range a b # items) =
     (if a = 33 then (True, Single 45 # Single b # items) else (False, Range a b # items))"
| "negate_bang [] = (False, [])"

definition class_of :: "pystr \<Rightarrow> glob_token" where
  "class_of stuff =
     (if startswith stuff [33] then Class True (filter nonempty_item (class_items (tl stuff)))
      else (case negate_bang (filter nonempty_item (class_items stuff)) of (n, items) \<Rightarrow> Class n items))"

text \<open>The text after \<open>[\<close>, cut at the closing bracket: the body and what follows it.\<close>

definition bracket_split :: "pystr \<Rightarrow> (pystr \<times> pystr) option" where
  "bracket_split s =
     (let p1 = (if startswith s [33] then 1 else 0);
          p2 = (if startswith (drop p1 s) [93] then p1 + 1 else p1);
          body = takeWhile (\<lambda>c. c \<noteq> 93) (drop p2 s);
          n = p2 + length body in
      if n < length s then Some (take n s, drop (n + 1) s) else None)"

lemma bracket_split_shorter:
  "bracket_split s = Some (body, rest) \<Longrightarrow> length rest < length s"
  by (auto simp: bracket_split_def Let_def split: if_splits)

function glob_tokens :: "pystr \<Rightarrow> glob_token list" where
  "glob_tokens [] = []"
| "glob_tokens (c # p) =
     (if c = 42 then Star # glob_tokens p
      else if c = 63 then AnyChar # glob_tokens p
      else if c = 91 then
        (case bracket_split p of
           None \<Rightarrow> Literal 91 # glob_tokens p
         | Some (body, rest) \<Rightarrow> class_of body # glob_tokens rest)
      else Literal c # glob_tokens p)"
  by pat_completeness auto
termination
  by (relation "measure length") (auto dest: bracket_split_shorter)

fun item_matches :: "nat \<Rightarrow> class_item \<Rightarrow> bool" where
  "item_matches c (Single d) = (c = d)"
| "item_matches c (Range a b) = (a \<le> c \<and> c \<le> b)"

fun token_matches :: "glob_token \<Rightarrow> nat \<Rightarrow> bool" where
  "token_matches Star c = True"
| "token_matches AnyChar c = True"
| "token_matches (Literal d) c = (c = d)"
| "token_matches (Class negated items) c = (negated \<noteq> list_ex (item_matches c) items)"

fun glob_match :: "glob_token list \<Rightarrow> pystr \<Rightarrow> bool" where
  "glob_match [] s = (s = [])"
| "glob_match (Star # ts) [] = glob_match ts []"
| "glob_match (Star # ts) (c # s) = (glob_match ts (c # s) \<or> glob_match (Star # ts) s)"
| "glob_match (t # ts) [] = False"
| "glob_match (t # ts) (c # s) = (token_matches t c \<and> glob_match ts s)"

definition fnmatchcase :: "pystr \<Rightarrow> pystr \<Rightarrow> bool" where
  "fnmatchcase name pattern = glob_match (glob_tokens pattern) name"

lemma glob_match_star: "glob_match (Star # ts) s \<longleftrightarrow> (\<exists>n\<le>length s. glob_match ts (drop n s))"
proof (induction s)
  case Nil
  show ?case by simp
next
  case (Cons c s)
  have "(\<exists>n\<le>length (c # s). glob_match ts (drop n (c # s))) \<longleftrightarrow>
      glob_match ts (c # s) \<or> (\<exists>n\<le>length s. glob_match ts (drop n s))"
    by (metis (no_types, lifting) Suc_le_mono drop0 drop_Suc_Cons length_Cons le0 not0_implies_Suc)
  with Cons.IH show ?case by simp
qed

lemma fnmatchcase_extension:
  assumes "42 \<notin> set suffix" and "63 \<notin> set suffix" and "91 \<notin> set suffix"
  shows "fnmatchcase name (42 # suffix) \<longleftrightarrow> endswith name suffix"
proof -
  have toks: "glob_tokens suffix = map Literal suffix"
    using assms by (induction suffix) auto
  have lits: "glob_match (map Literal p) s \<longleftrightarrow> s = p" for p s
  proof (induction p arbitrary: s)
    case (Cons c p)
    then show ?case by (cases s) auto
  qed simp
  have "fnmatchcase name (42 # suffix) \<longleftrightarrow> (\<exists>n\<le>length name. drop n name = suffix)"
    by (simp add: fnmatchcase_def toks glob_match_star lits)
  also have "\<dots> \<longleftrightarrow> endswith name suffix"
  proof
    assume "\<exists>n\<le>length name. drop n name = suffix"
    then obtain n where n: "n \<le> length name" "drop n name = suffix" by blast
    have "rev name = rev (drop n name) @ rev (take n name)"
      by (metis append_take_drop_id rev_append)
    then show "endswith name suffix" using n by (simp add: endswith_def startswith_def)
  next
    assume "endswith name suffix"
    then have t: "take (length suffix) (rev name) = rev suffix" by (simp add: endswith_def startswith_def)
    have "drop (length name - length suffix) name = rev (take (length suffix) (rev name))"
      by (simp add: rev_take)
    with t have "drop (length name - length suffix) name = suffix" by simp
    then show "\<exists>n\<le>length name. drop n name = suffix" by (intro exI [of _ "length name - length suffix"]) simp
  qed
  finally show ?thesis .
qed

end
