(* ===== verification/Json.thy ===== *)
theory Json
  imports Addresses
begin

text \<open>
  Decoded JSON values as Python holds them: a \<open>dict\<close> is the association list of its items in
  insertion order, with distinct keys; \<open>bool\<close> is apart from \<open>int\<close>, as \<open>isinstance(x, bool)\<close>
  tells them apart; a \<open>float\<close> is carried by its text, since no code here computes with one.
\<close>

datatype json =
    JNull
  | JBool bool
  | JInt int
  | JFloat pystr
  | JStr pystr
  | JList "json list"
  | JObj "(pystr \<times> json) list"

fun dict_get :: "pystr \<Rightarrow> (pystr \<times> json) list \<Rightarrow> json option" where
  "dict_get k [] = None"
| "dict_get k ((k', v) # items) = (if k = k' then Some v else dict_get k items)"

text \<open>\<open>{**d, k: v}\<close>: the value of an existing key is replaced in place, a new key is appended.\<close>

fun dict_put :: "pystr \<Rightarrow> json \<Rightarrow> (pystr \<times> json) list \<Rightarrow> (pystr \<times> json) list" where
  "dict_put k v [] = [(k, v)]"
| "dict_put k v ((k', v') # items) =
     (if k = k' then (k', v) # items else (k', v') # dict_put k v items)"

lemma dict_get_put [simp]:
  "dict_get j (dict_put k v items) = (if j = k then Some v else dict_get j items)"
  by (induction items) auto

lemma dict_get_map_of: "dict_get k items = map_of items k"
  by (induction items) auto

lemma keys_dict_put:
  "map fst (dict_put k v items) =
     (if k \<in> set (map fst items) then map fst items else map fst items @ [k])"
proof (induction items)
  case (Cons a items)
  then show ?case by (cases a) simp
qed simp

lemma distinct_dict_put: "distinct (map fst items) \<Longrightarrow> distinct (map fst (dict_put k v items))"
  by (simp add: keys_dict_put)

lemma dict_put_again: "dict_put k w (dict_put k v items) = dict_put k w items"
  by (induction items) auto

lemma dict_put_same: "dict_get k items = Some v \<Longrightarrow> dict_put k v items = items"
  by (induction items) auto

lemma size_dict_get: "dict_get k items = Some v \<Longrightarrow> size v < Suc (size_list (size_prod size size) items)"
  by (induction items) (auto split: if_splits)

definition opt_json :: "pystr option \<Rightarrow> json" where
  "opt_json x = (case x of None \<Rightarrow> JNull | Some s \<Rightarrow> JStr s)"

section \<open>Printing\<close>

text \<open>
  \<open>json.dumps(value, separators=(",", ":"), ensure_ascii=..., sort_keys=...)\<close>: the short escapes,
  \<open>\u\<close> escapes for other control characters, and, with \<open>ensure_ascii\<close>, for everything beyond
  ASCII, as a surrogate pair above the basic plane.
\<close>

definition hex_digit :: "nat \<Rightarrow> nat" where
  "hex_digit n = (if n < 10 then 48 + n else 87 + n)"

definition hex4 :: "nat \<Rightarrow> pystr" where
  "hex4 c = [92, 117] @ map hex_digit [c div 4096 mod 16, c div 256 mod 16, c div 16 mod 16, c mod 16]"

definition escape_char :: "bool \<Rightarrow> nat \<Rightarrow> pystr" where
  "escape_char ascii c =
     (if c = 34 then [92, 34] else if c = 92 then [92, 92]
      else if c = 10 then [92, 110] else if c = 13 then [92, 114] else if c = 9 then [92, 116]
      else if c = 12 then [92, 102] else if c = 8 then [92, 98]
      else if c < 32 then hex4 c
      else if ascii \<and> 127 \<le> c then
        (if c < 65536 then hex4 c
         else hex4 (55296 + (c - 65536) div 1024) @ hex4 (56320 + (c - 65536) mod 1024))
      else [c])"

definition dumps_str :: "bool \<Rightarrow> pystr \<Rightarrow> pystr" where
  "dumps_str ascii s = 34 # concat (map (escape_char ascii) s) @ [34]"

fun nat_digits :: "nat \<Rightarrow> pystr" where
  "nat_digits n = (if n < 10 then [48 + n] else nat_digits (n div 10) @ [48 + n mod 10])"

declare nat_digits.simps [simp del]

definition int_digits :: "int \<Rightarrow> pystr" where
  "int_digits i = (if i < 0 then 45 # nat_digits (nat (- i)) else nat_digits (nat i))"

definition comma_join :: "pystr list \<Rightarrow> pystr" where
  "comma_join ps = (case ps of [] \<Rightarrow> [] | p # ps' \<Rightarrow> p @ concat (map (Cons 44) ps'))"

text \<open>\<open>sorted_keys\<close> orders the items of every object by key.\<close>

fun dumps :: "bool \<Rightarrow> bool \<Rightarrow> json \<Rightarrow> pystr" where
  "dumps ascii sorted_keys JNull = lit ''null''"
| "dumps ascii sorted_keys (JBool b) = (if b then lit ''true'' else lit ''false'')"
| "dumps ascii sorted_keys (JInt i) = int_digits i"
| "dumps ascii sorted_keys (JFloat t) = t"
| "dumps ascii sorted_keys (JStr s) = dumps_str ascii s"
| "dumps ascii sorted_keys (JList xs) = lit ''['' @ comma_join (map (dumps ascii sorted_keys) xs) @ lit '']''"
| "dumps ascii sorted_keys (JObj items) =
     (let printed = map (\<lambda>(k, v). (k, dumps ascii sorted_keys v)) items;
          ordered = (if sorted_keys then sort_key fst printed else printed) in
      lit ''{'' @ comma_join (map (\<lambda>(k, t). dumps_str ascii k @ [58] @ t) ordered) @ lit ''}'')"

text \<open>\<open>json.dumps(...).encode("utf-8")\<close>\<close>

definition dumps_utf8 :: "bool \<Rightarrow> bool \<Rightarrow> json \<Rightarrow> err + bytes" where
  "dumps_utf8 ascii sorted_keys v =
     (case utf8_encode (dumps ascii sorted_keys v) of None \<Rightarrow> Inl UnicodeError | Some bs \<Rightarrow> Inr bs)"

end
