(* ===== verification/Rules.thy ===== *)
theory Rules
  imports Glob Json
begin

text \<open>
  The rule definitions and the pure matcher of \<open>automation/rules.py\<close>. The classes of the source
  are records of the same fields; the \<open>model_validator\<close> methods and the \<open>Field\<close> constraints are
  the \<open>validate_*\<close> functions, with the source's order of checks. How pydantic turns a decoded JSON
  object into a \<open>RuleDefinition\<close> (types, missing and unknown members) is the parameter \<open>shape\<close> of
  \<open>parse_rule_definition\<close>. Operands keep their Python type, and an operation Python refuses on that
  type is \<open>TypeError\<close>, so that "a validated rule never raises while matching" is a theorem.
\<close>

section \<open>Definitions of rules\<close>

datatype condition_field =
    F_sender | F_sender_name | F_subject | F_category | F_priority | F_action_required
  | F_media_type | F_filename | F_byte_size | F_count

datatype condition_op =
    Op_equals | Op_domain_equals | Op_contains | Op_starts_with | Op_in | Op_glob | Op_lte | Op_gte

datatype operand = VStr pystr | VInt int | VBool bool | VList "pystr list"

definition MAX_AUTOMATION_RULES :: nat where "MAX_AUTOMATION_RULES = 100"
definition MAX_AUTOMATION_ATTACHMENTS :: nat where "MAX_AUTOMATION_ATTACHMENTS = 1000"
definition MAX_AUTOMATION_FIRES_PER_MESSAGE :: nat where "MAX_AUTOMATION_FIRES_PER_MESSAGE = 1000"
definition MAX_RULE_DEFINITION_BYTES :: nat where "MAX_RULE_DEFINITION_BYTES = 16 * 1024"
definition MAX_CONDITIONS :: nat where "MAX_CONDITIONS = 8"
definition MAX_PARAMETERS :: nat where "MAX_PARAMETERS = 16"

definition CATEGORIES :: "pystr list" where
  "CATEGORIES = map lit [''invoice'', ''scheduling'', ''customer_request'', ''automated_notice'',
     ''informational'', ''other'']"

definition PRIORITIES :: "pystr list" where
  "PRIORITIES = map lit [''urgent'', ''high'', ''normal'', ''low'']"

fun ALLOWED_OPS :: "condition_field \<Rightarrow> condition_op list" where
  "ALLOWED_OPS F_sender = [Op_equals, Op_domain_equals]"
| "ALLOWED_OPS F_sender_name = [Op_equals, Op_contains]"
| "ALLOWED_OPS F_subject = [Op_contains, Op_starts_with]"
| "ALLOWED_OPS F_category = [Op_equals, Op_in]"
| "ALLOWED_OPS F_priority = [Op_equals, Op_in]"
| "ALLOWED_OPS F_action_required = [Op_equals]"
| "ALLOWED_OPS F_media_type = [Op_equals]"
| "ALLOWED_OPS F_filename = [Op_glob]"
| "ALLOWED_OPS F_byte_size = [Op_lte]"
| "ALLOWED_OPS F_count = [Op_gte, Op_lte]"

fun attachment_field :: "condition_field \<Rightarrow> bool" where
  "attachment_field F_media_type = True"
| "attachment_field F_filename = True"
| "attachment_field F_byte_size = True"
| "attachment_field _ = False"

record condition =
  cond_field :: condition_field
  cond_op :: condition_op
  cond_value :: operand

record scope =
  scope_provider :: "pystr option"
  scope_account_id :: "pystr option"

record connect_invoke_action =
  capability_id :: pystr
  capability_version :: pystr
  provider_app_id :: pystr
  provider_version :: pystr
  provider_instance_id :: pystr
  parameters :: "(pystr \<times> operand) list"

record rule_definition =
  rule_name :: pystr
  rule_scope :: scope
  conditions :: "condition list"
  rule_action :: connect_invoke_action
  confirm_each :: bool

section \<open>Validation\<close>

definition lower_alnum :: "nat \<Rightarrow> bool" where
  "lower_alnum c \<longleftrightarrow> (48 \<le> c \<and> c \<le> 57) \<or> (97 \<le> c \<and> c \<le> 122)"

definition digit :: "nat \<Rightarrow> bool" where
  "digit c \<longleftrightarrow> 48 \<le> c \<and> c \<le> 57"

definition identifier_pattern :: "pystr \<Rightarrow> bool" where
  "identifier_pattern s \<longleftrightarrow>
     list_all (\<lambda>w. w \<noteq> [] \<and> list_all lower_alnum w) (concat (map (split_on 45) (split_on 46 s)))"

definition capability_version_pattern :: "pystr \<Rightarrow> bool" where
  "capability_version_pattern s \<longleftrightarrow>
     (let ws = split_on 46 s in length ws = 2 \<and> list_all (\<lambda>w. w \<noteq> [] \<and> list_all digit w) ws)"

definition app_version_pattern :: "pystr \<Rightarrow> bool" where
  "app_version_pattern s \<longleftrightarrow>
     (let core = takeWhile (\<lambda>c. c \<noteq> 45 \<and> c \<noteq> 43) s;
          suffix = dropWhile (\<lambda>c. c \<noteq> 45 \<and> c \<noteq> 43) s;
          ws = split_on 46 core in
      length ws = 3 \<and> list_all (\<lambda>w. w \<noteq> [] \<and> list_all digit w) ws
      \<and> (suffix = [] \<or> (tl suffix \<noteq> [] \<and> list_all (\<lambda>c. is_alnum c \<or> c = 46 \<or> c = 45) (tl suffix))))"

definition media_type_char :: "nat \<Rightarrow> bool" where
  "media_type_char c \<longleftrightarrow> lower_alnum c \<or> c \<in> {33, 35, 36, 38, 94, 95, 46, 43, 45}"

definition media_type_pattern :: "pystr \<Rightarrow> bool" where
  "media_type_pattern s \<longleftrightarrow>
     (let ws = split_on 47 s in
      length ws = 2 \<and> list_all (\<lambda>w. w \<noteq> [] \<and> list_all media_type_char w) ws)"

definition domain_pattern :: "pystr \<Rightarrow> bool" where
  "domain_pattern s \<longleftrightarrow>
     (let ws = split_on 46 s in
      2 \<le> length ws \<and>
      list_all (\<lambda>w. w \<noteq> [] \<and> length w \<le> 63 \<and> lower_alnum (hd w) \<and> lower_alnum (last w)
         \<and> list_all (\<lambda>c. lower_alnum c \<or> c = 45) w) ws)"

text \<open>\<open>Condition._validate_operand\<close>, branch by branch.\<close>

fun validate_sender :: "pyenv \<Rightarrow> condition_op \<Rightarrow> operand \<Rightarrow> err + unit" where
  "validate_sender env op (VStr value) =
     (if value = [] then Inl (ValueError ''sender value must be text'')
      else if op = Op_equals then
        (if 320 < length value then Inl (ValueError ''sender must be a normalized address'')
         else (case normalize_validated_address env value of
                 Inl e \<Rightarrow> Inl e
               | Inr a \<Rightarrow> if a \<noteq> value then Inl (ValueError ''sender must be a normalized address'')
                          else Inr ()))
      else if 253 < length value \<or> \<not> domain_pattern value
      then Inl (ValueError ''sender domain must be a lower-case DNS domain'') else Inr ())"
| "validate_sender env op _ = Inl (ValueError ''sender value must be text'')"

fun validate_folded_text :: "pyenv \<Rightarrow> nat \<Rightarrow> operand \<Rightarrow> err + unit" where
  "validate_folded_text env limit (VStr value) =
     (if \<not> (1 \<le> length value \<and> length value \<le> limit)
      then Inl (ValueError ''value must be 1..limit characters'')
      else if value \<noteq> casefold env value then Inl (ValueError ''value must be case-folded'')
      else Inr ())"
| "validate_folded_text env limit _ = Inl (ValueError ''value must be 1..limit characters'')"

definition validate_closed :: "pystr list \<Rightarrow> condition_op \<Rightarrow> operand \<Rightarrow> err + unit" where
  "validate_closed allowed op value =
     (if op = Op_in then
        (case value of
           VList values \<Rightarrow>
             if \<not> (1 \<le> length values \<and> length values \<le> length allowed) \<or> \<not> distinct values
             then Inl (ValueError ''list must contain distinct closed values'')
             else if list_ex (\<lambda>item. item \<notin> set allowed) values
             then Inl (ValueError ''value is outside the closed set'') else Inr ()
         | _ \<Rightarrow> Inl (ValueError ''in takes a list''))
      else
        (case value of
           VList _ \<Rightarrow> Inl (ValueError ''equals takes one value'')
         | VStr item \<Rightarrow> if item \<notin> set allowed
                        then Inl (ValueError ''value is outside the closed set'') else Inr ()
         | _ \<Rightarrow> Inl (ValueError ''value is outside the closed set'')))"

fun validate_filename_glob :: "pyenv \<Rightarrow> operand \<Rightarrow> err + unit" where
  "validate_filename_glob env (VStr value) =
     (if \<not> (1 \<le> length value \<and> length value \<le> 512)
      then Inl (ValueError ''attachment.filename glob must be 1..512 characters'')
      else if 47 \<in> set value \<or> 92 \<in> set value \<or> value \<noteq> casefold env value
      then Inl (ValueError ''attachment.filename glob must be case-folded with no separators'')
      else Inr ())"
| "validate_filename_glob env _ =
     Inl (ValueError ''attachment.filename glob must be 1..512 characters'')"

fun validate_int_between :: "int \<Rightarrow> string \<Rightarrow> operand \<Rightarrow> err + unit" where
  "validate_int_between hi msg (VInt v) =
     (if 0 \<le> v \<and> v \<le> hi then Inr () else Inl (ValueError msg))"
| "validate_int_between hi msg _ = Inl (ValueError msg)"

definition validate_operand :: "pyenv \<Rightarrow> condition \<Rightarrow> err + unit" where
  "validate_operand env c =
     (if cond_op c \<notin> set (ALLOWED_OPS (cond_field c))
      then Inl (ValueError ''op is not permitted for field'')
      else (case cond_field c of
          F_sender \<Rightarrow> validate_sender env (cond_op c) (cond_value c)
        | F_sender_name \<Rightarrow> validate_folded_text env 320 (cond_value c)
        | F_subject \<Rightarrow> validate_folded_text env 4096 (cond_value c)
        | F_category \<Rightarrow> validate_closed CATEGORIES (cond_op c) (cond_value c)
        | F_priority \<Rightarrow> validate_closed PRIORITIES (cond_op c) (cond_value c)
        | F_action_required \<Rightarrow>
            (case cond_value c of VBool _ \<Rightarrow> Inr ()
             | _ \<Rightarrow> Inl (ValueError ''action_required value must be a boolean''))
        | F_media_type \<Rightarrow>
            (case cond_value c of
               VStr value \<Rightarrow> if 127 < length value \<or> \<not> media_type_pattern value
                 then Inl (ValueError ''attachment.media_type must be a lower-case media type'')
                 else Inr ()
             | _ \<Rightarrow> Inl (ValueError ''attachment.media_type must be a lower-case media type''))
        | F_filename \<Rightarrow> validate_filename_glob env (cond_value c)
        | F_byte_size \<Rightarrow>
            validate_int_between 104857600 ''attachment.byte_size must be 0..104857600'' (cond_value c)
        | F_count \<Rightarrow> validate_int_between 64 ''attachment.count must be 0..64'' (cond_value c)))"

definition validate_scope :: "pyenv \<Rightarrow> scope \<Rightarrow> err + unit" where
  "validate_scope env s =
     (if (case scope_provider s of None \<Rightarrow> False | Some p \<Rightarrow> \<not> (identifier_pattern p \<and> length p \<le> 100))
      then Inl (ValueError ''invalid value at scope.provider'')
      else (case scope_account_id s of
          None \<Rightarrow> Inr ()
        | Some account_id \<Rightarrow>
            if \<not> (1 \<le> length account_id \<and> length account_id \<le> 128)
            then Inl (ValueError ''invalid value at scope.account_id'')
            else if scope_provider s = None
            then Inl (ValueError ''account_id requires provider'')
            else if account_id \<noteq> strip env account_id
            then Inl (ValueError ''account_id must be trimmed'')
            else Inr ()))"

fun validate_parameter_value :: "operand \<Rightarrow> bool" where
  "validate_parameter_value (VStr s) = (length s \<le> 1000)"
| "validate_parameter_value (VInt i) = (- 9007199254740991 \<le> i \<and> i \<le> 9007199254740991)"
| "validate_parameter_value (VBool b) = True"
| "validate_parameter_value (VList xs) = False"

definition validate_action :: "connect_invoke_action \<Rightarrow> err + unit" where
  "validate_action a =
     (if \<not> (identifier_pattern (capability_id a) \<and> length (capability_id a) \<le> 100)
         \<or> \<not> (capability_version_pattern (capability_version a) \<and> length (capability_version a) \<le> 16)
         \<or> \<not> (identifier_pattern (provider_app_id a) \<and> length (provider_app_id a) \<le> 100)
         \<or> \<not> (app_version_pattern (provider_version a) \<and> length (provider_version a) \<le> 128)
      then Inl (ValueError ''invalid value at action'')
      else if \<not> valid_uuid_v4 (provider_instance_id a)
      then Inl (ValueError ''provider.instance_id must be a lower-case UUIDv4'')
      else if MAX_PARAMETERS < length (parameters a)
         \<or> list_ex (\<lambda>(k, v). \<not> (identifier_pattern k \<and> length k \<le> 100)
                             \<or> \<not> validate_parameter_value v) (parameters a)
      then Inl (ValueError ''invalid value at action.parameters'')
      else Inr ())"

fun validate_conditions :: "pyenv \<Rightarrow> condition list \<Rightarrow> err + unit" where
  "validate_conditions env [] = Inr ()"
| "validate_conditions env (c # cs) =
     (case validate_operand env c of Inl e \<Rightarrow> Inl e | Inr _ \<Rightarrow> validate_conditions env cs)"

text \<open>The fields of \<open>RuleDefinition\<close> in order, then \<open>_validate_definition\<close>.\<close>

definition validate_rule_definition :: "pyenv \<Rightarrow> rule_definition \<Rightarrow> err + unit" where
  "validate_rule_definition env d =
     (if \<not> (1 \<le> length (rule_name d) \<and> length (rule_name d) \<le> 80)
      then Inl (ValueError ''invalid value at name'')
      else (case validate_scope env (rule_scope d) of Inl e \<Rightarrow> Inl e | Inr _ \<Rightarrow>
        if \<not> (1 \<le> length (conditions d) \<and> length (conditions d) \<le> MAX_CONDITIONS)
        then Inl (ValueError ''invalid value at conditions'')
        else (case validate_conditions env (conditions d) of Inl e \<Rightarrow> Inl e | Inr _ \<Rightarrow>
          (case validate_action (rule_action d) of Inl e \<Rightarrow> Inl e | Inr _ \<Rightarrow>
            if list_ex (\<lambda>c. \<not> isprintable env c) (rule_name d)
            then Inl (ValueError ''name must contain only printable characters'')
            else if \<not> list_ex (\<lambda>c. cond_field c = F_media_type) (conditions d)
            then Inl (ValueError ''connect.invoke needs an attachment.media_type condition'')
            else Inr ()))))"

definition bounded_reason :: "err \<Rightarrow> string" where
  "bounded_reason e = take 128 (case e of ValueError m \<Rightarrow> m | _ \<Rightarrow> ''invalid value'')"

definition parse_rule_definition ::
  "pyenv \<Rightarrow> (json \<Rightarrow> rule_definition option) \<Rightarrow> json \<Rightarrow> err + rule_definition" where
  "parse_rule_definition env shape value =
     (case value of
        JObj _ \<Rightarrow>
          (case shape value of
             None \<Rightarrow> Inl (RuleValidationError ''invalid value'')
           | Some d \<Rightarrow> (case validate_rule_definition env d of
                 Inl e \<Rightarrow> Inl (RuleValidationError (bounded_reason e))
               | Inr _ \<Rightarrow> Inr d))
      | _ \<Rightarrow> Inl (RuleValidationError ''definition must be a JSON object''))"

definition prepare_condition :: "pyenv \<Rightarrow> json \<Rightarrow> json" where
  "prepare_condition env condition =
     (case condition of
        JObj items \<Rightarrow>
          (case (dict_get (lit ''field'') items, dict_get (lit ''value'') items) of
             (Some field, Some (JStr value)) \<Rightarrow>
               if field = JStr (lit ''subject'')
               then JObj (dict_put (lit ''value'') (JStr (casefold env value)) items)
               else condition
           | _ \<Rightarrow> condition)
      | _ \<Rightarrow> condition)"

definition prepare_rule_value :: "pyenv \<Rightarrow> json \<Rightarrow> json" where
  "prepare_rule_value env value =
     (case value of
        JObj items \<Rightarrow>
          (case dict_get (lit ''conditions'') items of
             Some (JList cs) \<Rightarrow>
               JObj (dict_put (lit ''conditions'') (JList (map (prepare_condition env) cs)) items)
           | _ \<Rightarrow> value)
      | _ \<Rightarrow> value)"

definition prepare_rule_definition ::
  "pyenv \<Rightarrow> (json \<Rightarrow> rule_definition option) \<Rightarrow> json \<Rightarrow> err + rule_definition" where
  "prepare_rule_definition env shape value =
     parse_rule_definition env shape (prepare_rule_value env value)"

text \<open>
  The JSON document of a definition, as \<open>model_dump(mode="json", exclude_defaults=False)\<close> lists the
  fields of these classes.
\<close>

fun field_text :: "condition_field \<Rightarrow> pystr" where
  "field_text F_sender = lit ''sender''"
| "field_text F_sender_name = lit ''sender_name''"
| "field_text F_subject = lit ''subject''"
| "field_text F_category = lit ''category''"
| "field_text F_priority = lit ''priority''"
| "field_text F_action_required = lit ''action_required''"
| "field_text F_media_type = lit ''attachment.media_type''"
| "field_text F_filename = lit ''attachment.filename''"
| "field_text F_byte_size = lit ''attachment.byte_size''"
| "field_text F_count = lit ''attachment.count''"

fun op_text :: "condition_op \<Rightarrow> pystr" where
  "op_text Op_equals = lit ''equals''"
| "op_text Op_domain_equals = lit ''domain_equals''"
| "op_text Op_contains = lit ''contains''"
| "op_text Op_starts_with = lit ''starts_with''"
| "op_text Op_in = lit ''in''"
| "op_text Op_glob = lit ''glob''"
| "op_text Op_lte = lit ''lte''"
| "op_text Op_gte = lit ''gte''"

fun operand_json :: "operand \<Rightarrow> json" where
  "operand_json (VStr s) = JStr s"
| "operand_json (VInt i) = JInt i"
| "operand_json (VBool b) = JBool b"
| "operand_json (VList xs) = JList (map JStr xs)"

definition condition_json :: "condition \<Rightarrow> json" where
  "condition_json c = JObj [(lit ''field'', JStr (field_text (cond_field c))),
     (lit ''op'', JStr (op_text (cond_op c))), (lit ''value'', operand_json (cond_value c))]"

definition action_json :: "connect_invoke_action \<Rightarrow> json" where
  "action_json a = JObj [(lit ''kind'', JStr (lit ''connect.invoke'')),
     (lit ''capability'', JObj [(lit ''id'', JStr (capability_id a)), (lit ''version'', JStr (capability_version a))]),
     (lit ''provider'', JObj [(lit ''app_id'', JStr (provider_app_id a)), (lit ''version'', JStr (provider_version a)),
        (lit ''instance_id'', JStr (provider_instance_id a))]),
     (lit ''parameters'', JObj (map (\<lambda>(k, v). (k, operand_json v)) (parameters a)))]"

definition model_dump :: "rule_definition \<Rightarrow> json" where
  "model_dump d = JObj [(lit ''name'', JStr (rule_name d)),
     (lit ''scope'', JObj [(lit ''provider'', opt_json (scope_provider (rule_scope d))),
        (lit ''account_id'', opt_json (scope_account_id (rule_scope d)))]),
     (lit ''trigger'', JObj [(lit ''source_kind'', JStr (lit ''mail.message''))]),
     (lit ''conditions'', JList (map condition_json (conditions d))),
     (lit ''action'', action_json (rule_action d)), (lit ''confirm_each'', JBool (confirm_each d))]"

definition canonical_rule_definition :: "rule_definition \<Rightarrow> err + bytes" where
  "canonical_rule_definition d =
     andThen (dumps_utf8 False True (model_dump d)) (\<lambda>raw.
     andThen (require (length raw \<le> MAX_RULE_DEFINITION_BYTES)
         (RuleValidationError ''canonical definition exceeds 16384 bytes'')) (\<lambda>_.
     Inr raw))"

end
