(* ===== verification/Rule_Match.thy ===== *)
theory Rule_Match
  imports Rules "HOL-Library.Multiset"
begin

text \<open>
  \<open>match_rules\<close> of \<open>automation/rules.py\<close>: one pass over the enabled rules and the attachments of
  an analysed message. The loop with its fan-out bounds is shown equal to a declarative list of
  matches; a validated rule never raises a type error; the result does not depend on the order
  the attachments were stored in.
\<close>

section \<open>The matcher\<close>

record attachment_descriptor =
  part_id :: pystr
  attachment_id :: "pystr option"
  filename :: pystr
  media_type :: pystr
  byte_size :: int
  position :: int
  byte_size_known :: bool
  source_provider_message_id :: "pystr option"

record match_rule =
  mr_rule_id :: pystr
  mr_version :: int
  mr_scope_mailbox_identity_key :: "pystr option"
  mr_definition :: rule_definition

record matched_fire =
  mf_rule_id :: pystr
  mf_rule_version :: int
  mf_part_id :: pystr
  mf_action :: connect_invoke_action
  mf_confirm_each :: bool

text \<open>What \<open>match_rules\<close> is told about the message; \<open>msg_result\<close> is the analysis dictionary.\<close>

record message_facts =
  msg_provider :: pystr
  msg_account_id :: pystr
  msg_mailbox_identity_key :: pystr
  msg_sender :: pystr
  msg_sender_name :: "pystr option"
  msg_subject :: pystr
  msg_result :: "condition_field \<Rightarrow> operand option"

text \<open>Python's \<open>==\<close>, \<open>in\<close> and order on operands; \<open>True\<close> and \<open>False\<close> are the integers 1 and 0.\<close>

fun operand_int :: "operand \<Rightarrow> int option" where
  "operand_int (VInt i) = Some i"
| "operand_int (VBool b) = Some (if b then 1 else 0)"
| "operand_int _ = None"

fun py_eq :: "operand \<Rightarrow> operand \<Rightarrow> bool" where
  "py_eq (VStr a) (VStr b) = (a = b)"
| "py_eq (VList a) (VList b) = (a = b)"
| "py_eq (VStr a) _ = False"
| "py_eq (VList a) _ = False"
| "py_eq a (VStr b) = False"
| "py_eq a (VList b) = False"
| "py_eq a b = (operand_int a = operand_int b)"

fun str_in :: "operand \<Rightarrow> pystr \<Rightarrow> err + bool" where
  "str_in (VStr needle) s = Inr (contains s needle)"
| "str_in _ s = Inl TypeError"

fun str_startswith :: "pystr \<Rightarrow> operand \<Rightarrow> err + bool" where
  "str_startswith s (VStr p) = Inr (startswith s p)"
| "str_startswith s _ = Inl TypeError"

fun py_in :: "operand \<Rightarrow> operand \<Rightarrow> err + bool" where
  "py_in candidate (VList xs) = Inr (list_ex (\<lambda>x. py_eq candidate (VStr x)) xs)"
| "py_in (VStr c) (VStr s) = Inr (contains s c)"
| "py_in _ _ = Inl TypeError"

fun int_le :: "int option \<Rightarrow> int option \<Rightarrow> err + bool" where
  "int_le (Some a) (Some b) = Inr (a \<le> b)"
| "int_le _ _ = Inl TypeError"

definition message_condition ::
  "pyenv \<Rightarrow> message_facts \<Rightarrow> nat \<Rightarrow> condition \<Rightarrow> err + bool" where
  "message_condition env m attachment_count c =
     (let value = cond_value c in
      case cond_field c of
        F_sender \<Rightarrow>
          if cond_op c = Op_equals then Inr (py_eq (VStr (msg_sender m)) value)
          else Inr (py_eq (VStr (casefold env (after_last 64 (msg_sender m)))) value)
      | F_sender_name \<Rightarrow>
          (let candidate = casefold env (case msg_sender_name m of None \<Rightarrow> [] | Some n \<Rightarrow> n) in
           if cond_op c = Op_equals then Inr (py_eq (VStr candidate) value)
           else str_in value candidate)
      | F_subject \<Rightarrow>
          (let candidate = casefold env (msg_subject m) in
           if cond_op c = Op_starts_with then str_startswith candidate value
           else str_in value candidate)
      | F_count \<Rightarrow>
          if cond_op c = Op_gte then int_le (operand_int value) (Some (int attachment_count))
          else int_le (Some (int attachment_count)) (operand_int value)
      | F_media_type \<Rightarrow> Inl (AssertionError ''not a message condition'')
      | F_filename \<Rightarrow> Inl (AssertionError ''not a message condition'')
      | F_byte_size \<Rightarrow> Inl (AssertionError ''not a message condition'')
      | _ \<Rightarrow>
          (case msg_result m (cond_field c) of
             None \<Rightarrow> Inl KeyError
           | Some candidate \<Rightarrow>
               if cond_op c = Op_in then py_in candidate value else Inr (py_eq candidate value)))"

definition final_name :: "pyenv \<Rightarrow> pystr \<Rightarrow> pystr" where
  "final_name env name = casefold env (after_last 47 (map (\<lambda>c. if c = 92 then 47 else c) name))"

definition attachment_condition ::
  "pyenv \<Rightarrow> attachment_descriptor \<Rightarrow> condition \<Rightarrow> err + bool" where
  "attachment_condition env a c =
     (case cond_field c of
        F_media_type \<Rightarrow> Inr (py_eq (VStr (media_type a)) (cond_value c))
      | F_filename \<Rightarrow>
          (case cond_value c of
             VStr pattern \<Rightarrow> Inr (fnmatchcase (final_name env (filename a)) pattern)
           | _ \<Rightarrow> Inl TypeError)
      | F_byte_size \<Rightarrow>
          if byte_size_known a then int_le (Some (byte_size a)) (operand_int (cond_value c))
          else Inr False
      | _ \<Rightarrow> Inl (AssertionError ''not an attachment condition''))"

text \<open>\<open>all(f(x) for x in xs)\<close>: stops at the first false or raising element.\<close>

fun all_res :: "('a \<Rightarrow> err + bool) \<Rightarrow> 'a list \<Rightarrow> err + bool" where
  "all_res f [] = Inr True"
| "all_res f (x # xs) =
     (case f x of Inl e \<Rightarrow> Inl e | Inr b \<Rightarrow> if b then all_res f xs else Inr False)"

definition message_conditions :: "rule_definition \<Rightarrow> condition list" where
  "message_conditions d = filter (\<lambda>c. \<not> attachment_field (cond_field c)) (conditions d)"

definition attachment_conditions :: "rule_definition \<Rightarrow> condition list" where
  "attachment_conditions d = filter (\<lambda>c. attachment_field (cond_field c)) (conditions d)"

definition rule_in_scope :: "message_facts \<Rightarrow> match_rule \<Rightarrow> bool" where
  "rule_in_scope m r =
     (let s = rule_scope (mr_definition r) in
      \<not> (scope_provider s \<noteq> None \<and> scope_provider s \<noteq> Some (msg_provider m)) \<and>
      (scope_account_id s = None
       \<or> scope_account_id s = Some (msg_account_id m)
         \<and> mr_scope_mailbox_identity_key r = Some (msg_mailbox_identity_key m)))"

definition matched_fire_of :: "match_rule \<Rightarrow> attachment_descriptor \<Rightarrow> matched_fire" where
  "matched_fire_of r a =
     \<lparr>mf_rule_id = mr_rule_id r, mf_rule_version = mr_version r, mf_part_id = part_id a,
      mf_action = rule_action (mr_definition r), mf_confirm_each = confirm_each (mr_definition r)\<rparr>"

fun match_attachments ::
  "pyenv \<Rightarrow> match_rule \<Rightarrow> attachment_descriptor list \<Rightarrow> matched_fire list \<Rightarrow> err + matched_fire list" where
  "match_attachments env r [] matched = Inr matched"
| "match_attachments env r (a # as) matched =
     (case all_res (attachment_condition env a) (attachment_conditions (mr_definition r)) of
        Inl e \<Rightarrow> Inl e
      | Inr ok \<Rightarrow>
          if \<not> ok then match_attachments env r as matched
          else if MAX_AUTOMATION_FIRES_PER_MESSAGE \<le> length matched
          then Inl (AutomationFanoutLimit ''automation fire limit exceeded'')
          else match_attachments env r as (matched @ [matched_fire_of r a]))"

fun match_rule_loop ::
  "pyenv \<Rightarrow> message_facts \<Rightarrow> attachment_descriptor list \<Rightarrow> match_rule list \<Rightarrow> matched_fire list
     \<Rightarrow> err + matched_fire list" where
  "match_rule_loop env m ordered [] matched = Inr matched"
| "match_rule_loop env m ordered (r # rs) matched =
     (if \<not> rule_in_scope m r then match_rule_loop env m ordered rs matched
      else (case all_res (message_condition env m (length ordered))
                   (message_conditions (mr_definition r)) of
          Inl e \<Rightarrow> Inl e
        | Inr ok \<Rightarrow>
            if \<not> ok then match_rule_loop env m ordered rs matched
            else (case match_attachments env r ordered matched of
                Inl e \<Rightarrow> Inl e
              | Inr matched' \<Rightarrow> match_rule_loop env m ordered rs matched')))"

definition order_attachments :: "attachment_descriptor list \<Rightarrow> attachment_descriptor list" where
  "order_attachments as = sort_key (\<lambda>a. (position a, part_id a)) as"

definition match_rules ::
  "pyenv \<Rightarrow> match_rule list \<Rightarrow> message_facts \<Rightarrow> attachment_descriptor list \<Rightarrow> err + matched_fire list" where
  "match_rules env rules m attachments =
     (if MAX_AUTOMATION_ATTACHMENTS < length attachments
      then Inl (AutomationFanoutLimit ''automation attachment limit exceeded'')
      else match_rule_loop env m (order_attachments attachments) rules [])"

section \<open>The declarative meaning of a match\<close>

definition attachment_matches :: "pyenv \<Rightarrow> match_rule \<Rightarrow> attachment_descriptor \<Rightarrow> bool" where
  "attachment_matches env r a \<longleftrightarrow>
     (\<forall>c\<in>set (attachment_conditions (mr_definition r)). attachment_condition env a c = Inr True)"

definition message_matches :: "pyenv \<Rightarrow> message_facts \<Rightarrow> nat \<Rightarrow> match_rule \<Rightarrow> bool" where
  "message_matches env m n r \<longleftrightarrow> rule_in_scope m r \<and>
     (\<forall>c\<in>set (message_conditions (mr_definition r)). message_condition env m n c = Inr True)"

definition rule_fires ::
  "pyenv \<Rightarrow> message_facts \<Rightarrow> attachment_descriptor list \<Rightarrow> match_rule \<Rightarrow> matched_fire list" where
  "rule_fires env m ordered r =
     (if message_matches env m (length ordered) r
      then map (matched_fire_of r) (filter (attachment_matches env r) ordered) else [])"

definition expected_fires ::
  "pyenv \<Rightarrow> match_rule list \<Rightarrow> message_facts \<Rightarrow> attachment_descriptor list \<Rightarrow> matched_fire list" where
  "expected_fires env rules m attachments =
     concat (map (rule_fires env m (order_attachments attachments)) rules)"

text \<open>
  The rules the store hands to the matcher have passed validation; the analysis carries the
  closed fields.
\<close>

definition valid_rule :: "pyenv \<Rightarrow> match_rule \<Rightarrow> bool" where
  "valid_rule env r \<longleftrightarrow> validate_rule_definition env (mr_definition r) = Inr ()"

definition result_complete :: "message_facts \<Rightarrow> bool" where
  "result_complete m \<longleftrightarrow>
     (\<exists>c p a. msg_result m F_category = Some c \<and> msg_result m F_priority = Some p
        \<and> msg_result m F_action_required = Some a)"

lemma validate_conditions_all:
  "validate_conditions env cs = Inr () \<Longrightarrow> c \<in> set cs \<Longrightarrow> validate_operand env c = Inr ()"
  by (induction cs) (auto split: sum.splits)

lemma valid_rule_condition:
  "valid_rule env r \<Longrightarrow> c \<in> set (conditions (mr_definition r)) \<Longrightarrow> validate_operand env c = Inr ()"
  by (auto simp: valid_rule_def validate_rule_definition_def
      intro: validate_conditions_all split: if_splits sum.splits)

lemma validate_folded_text_str: "validate_folded_text env n v = Inr () \<Longrightarrow> \<exists>s. v = VStr s"
  by (cases v) auto

lemma validate_closed_in: "validate_closed allowed Op_in v = Inr () \<Longrightarrow> \<exists>xs. v = VList xs"
  by (cases v) (auto simp: validate_closed_def)

lemma validate_int_between_int: "validate_int_between hi msg v = Inr () \<Longrightarrow> \<exists>i. v = VInt i \<and> 0 \<le> i \<and> i \<le> hi"
  by (cases v) (auto split: if_splits)

lemma validate_filename_glob_str: "validate_filename_glob env v = Inr () \<Longrightarrow> \<exists>s. v = VStr s"
  by (cases v) auto

lemmas validated_shapes = validate_folded_text_str validate_closed_in validate_int_between_int
  validate_filename_glob_str

lemma message_condition_total:
  assumes "validate_operand env c = Inr ()" and "\<not> attachment_field (cond_field c)"
    and "result_complete m"
  shows "\<exists>b. message_condition env m n c = Inr b"
  using assms
  by (cases "cond_field c")
    (auto simp: validate_operand_def message_condition_def Let_def result_complete_def
      split: if_splits dest!: validated_shapes)

lemma attachment_condition_total:
  assumes "validate_operand env c = Inr ()" and "attachment_field (cond_field c)"
  shows "\<exists>b. attachment_condition env a c = Inr b"
  using assms
  by (cases "cond_field c")
    (auto simp: validate_operand_def attachment_condition_def split: if_splits dest!: validated_shapes)

lemma all_res_total:
  assumes "\<forall>x\<in>set xs. \<exists>b. f x = Inr b"
  shows "all_res f xs = Inr (\<forall>x\<in>set xs. f x = Inr True)"
  using assms by (induction xs) auto

lemma valid_rule_attachment_loop:
  assumes "valid_rule env r"
  shows "all_res (attachment_condition env a) (attachment_conditions (mr_definition r))
    = Inr (attachment_matches env r a)"
  using assms unfolding attachment_matches_def
  by (intro all_res_total)
    (auto simp: attachment_conditions_def intro!: attachment_condition_total valid_rule_condition)

lemma match_attachments_eq:
  assumes "valid_rule env r" and "length matched \<le> MAX_AUTOMATION_FIRES_PER_MESSAGE"
  shows "match_attachments env r as matched =
    (let out = matched @ map (matched_fire_of r) (filter (attachment_matches env r) as) in
     if length out \<le> MAX_AUTOMATION_FIRES_PER_MESSAGE then Inr out
     else Inl (AutomationFanoutLimit ''automation fire limit exceeded''))"
  using assms(2)
  by (induction as arbitrary: matched) (auto simp: valid_rule_attachment_loop [OF assms(1)] Let_def)

lemma match_rule_loop_eq:
  assumes "\<forall>r\<in>set rules. valid_rule env r" and "result_complete m"
    and "length matched \<le> MAX_AUTOMATION_FIRES_PER_MESSAGE"
  shows "match_rule_loop env m ordered rules matched =
    (let out = matched @ concat (map (rule_fires env m ordered) rules) in
     if length out \<le> MAX_AUTOMATION_FIRES_PER_MESSAGE then Inr out
     else Inl (AutomationFanoutLimit ''automation fire limit exceeded''))"
  using assms(1,3)
proof (induction rules arbitrary: matched)
  case (Cons r rules)
  let ?mc = "message_conditions (mr_definition r)"
  have msg: "all_res (message_condition env m (length ordered)) ?mc
      = Inr (\<forall>c\<in>set ?mc. message_condition env m (length ordered) c = Inr True)"
    using Cons.prems(1) assms(2)
    by (intro all_res_total)
      (auto simp: message_conditions_def intro!: message_condition_total valid_rule_condition)
  show ?case
  proof (cases "message_matches env m (length ordered) r")
    case True
    then show ?thesis
      using Cons msg by (auto simp: message_matches_def rule_fires_def match_attachments_eq Let_def)
  next
    case False
    then show ?thesis
      using Cons msg by (auto simp: message_matches_def rule_fires_def Let_def)
  qed
qed simp

text \<open>
  C33: On validated rules and a complete analysis the matcher computes exactly the declarative
  list of matches, rule by rule in the given order and attachment by attachment in
  \<open>(position, part_id)\<close> order, or fails as a whole with the fan-out error when there are more
  than 1000 attachments or more than 1000 matches. No type, key or assertion error is possible.
\<close>

theorem match_rules_equiv:
  assumes "\<forall>r\<in>set rules. valid_rule env r" and "result_complete m"
  shows "match_rules env rules m attachments =
    (if length attachments \<le> MAX_AUTOMATION_ATTACHMENTS
        \<and> length (expected_fires env rules m attachments) \<le> MAX_AUTOMATION_FIRES_PER_MESSAGE
     then Inr (expected_fires env rules m attachments)
     else Inl (AutomationFanoutLimit
       (if MAX_AUTOMATION_ATTACHMENTS < length attachments
        then ''automation attachment limit exceeded'' else ''automation fire limit exceeded'')))"
  using match_rule_loop_eq [OF assms, of "[]"]
  by (auto simp: match_rules_def expected_fires_def Let_def not_le)

lemma order_attachments_unique:
  assumes "mset as = mset bs" and "distinct (map (\<lambda>a. (position a, part_id a)) as)"
  shows "order_attachments as = order_attachments bs"
proof -
  let ?k = "\<lambda>a::attachment_descriptor. (position a, part_id a)"
  have "mset as = mset (sort_key ?k bs)" using assms(1) by simp
  moreover have "inj_on ?k (set as)" using assms(2) by (simp add: distinct_map)
  moreover have "sorted (map ?k (sort_key ?k bs))" by simp
  ultimately show ?thesis
    unfolding order_attachments_def by (rule sort_key_inj_key_eq)
qed

text \<open>
  Matching is deterministic in the sense the code promises: the stored order of the
  attachments does not matter. Two orders of the same attachments, whose \<open>(position, part_id)\<close>
  keys are distinct, give the same result, errors included, for any rules.
\<close>

theorem match_rules_order_independent:
  assumes "mset as = mset bs" and "distinct (map (\<lambda>a. (position a, part_id a)) as)"
  shows "match_rules env rules m as = match_rules env rules m bs"
  using order_attachments_unique [OF assms] mset_eq_length [OF assms(1)]
  by (simp add: match_rules_def)

definition sample_attachment :: "int \<Rightarrow> pystr \<Rightarrow> attachment_descriptor" where
  "sample_attachment n name =
     \<lparr>part_id = [48 + nat n], attachment_id = None, filename = name,
      media_type = lit ''a/b'', byte_size = 5, position = n, byte_size_known = True,
      source_provider_message_id = None\<rparr>"

definition sample_rule :: match_rule where
  "sample_rule =
     \<lparr>mr_rule_id = lit ''r'', mr_version = 1, mr_scope_mailbox_identity_key = None,
      mr_definition =
        \<lparr>rule_name = lit ''r'', rule_scope = \<lparr>scope_provider = None, scope_account_id = None\<rparr>,
         conditions =
           [\<lparr>cond_field = F_media_type, cond_op = Op_equals, cond_value = VStr (lit ''a/b'')\<rparr>,
            \<lparr>cond_field = F_filename, cond_op = Op_glob, cond_value = VStr (lit ''*.p'')\<rparr>],
         rule_action =
           \<lparr>capability_id = lit ''c'', capability_version = lit ''1.0'', provider_app_id = lit ''p'',
            provider_version = lit ''1.0.0'',
            provider_instance_id = lit ''00000000-0000-4000-8000-000000000000'', parameters = []\<rparr>,
         confirm_each = False\<rparr>\<rparr>"

definition sample_message :: message_facts where
  "sample_message =
     \<lparr>msg_provider = lit ''gmail'', msg_account_id = lit ''x'', msg_mailbox_identity_key = [],
      msg_sender = lit ''a@b'', msg_sender_name = None, msg_subject = [],
      msg_result = (\<lambda>f. Some (VStr (lit ''other'')))\<rparr>"

lemma upt_36: "[0..<36] = [0,1,2,3,4,5,6,7,8,9,10,11,12,13,14,15,16,17,18,19,20,21,22,23,24,25,26,27,28,29,30,31,32,33,34,35]"
  by (simp add: upt_rec numeral_eq_Suc)

lemma sample_uuid: "valid_uuid_v4 (lit ''00000000-0000-4000-8000-000000000000'')"
  by (simp add: valid_uuid_v4_def lit_def uuid_dash_positions_def is_hex_def upt_36)

lemma sample_rule_valid: "valid_rule ascii_env sample_rule"
  using sample_uuid
  by (simp add: valid_rule_def sample_rule_def validate_rule_definition_def validate_scope_def
      MAX_CONDITIONS_def MAX_PARAMETERS_def validate_operand_def validate_action_def
      media_type_pattern_def media_type_char_def lower_alnum_def identifier_pattern_def
      capability_version_pattern_def app_version_pattern_def digit_def Let_def ascii_env_def
      lit_def [of "''a/b''"] lit_def [of "''*.p''"] lit_def [of "''r''"] lit_def [of "''c''"]
      lit_def [of "''p''"] lit_def [of "''1.0''"] lit_def [of "''1.0.0''"])

theorem match_rules_equiv_witness:
  "\<exists>fires. match_rules ascii_env [sample_rule] sample_message
      [sample_attachment 1 (lit ''x.p''), sample_attachment 0 (lit ''y.q'')] = Inr fires
    \<and> fires = expected_fires ascii_env [sample_rule] sample_message
      [sample_attachment 1 (lit ''x.p''), sample_attachment 0 (lit ''y.q'')]
    \<and> map mf_part_id fires = [[49]]"
proof -
  let ?as = "[sample_attachment 1 (lit ''x.p''), sample_attachment 0 (lit ''y.q'')]"
  have v: "\<forall>r\<in>set [sample_rule]. valid_rule ascii_env r" by (simp add: sample_rule_valid)
  have c: "result_complete sample_message" by (simp add: result_complete_def sample_message_def)
  have parts: "map mf_part_id (expected_fires ascii_env [sample_rule] sample_message ?as) = [[49]]"
    by (simp add: expected_fires_def rule_fires_def message_matches_def rule_in_scope_def
        message_conditions_def attachment_matches_def attachment_conditions_def sample_rule_def
        sample_attachment_def attachment_condition_def order_attachments_def matched_fire_of_def
        fnmatchcase_def final_name_def after_last_def ascii_env_def lit_def Let_def)
  then have "length (expected_fires ascii_env [sample_rule] sample_message ?as) = 1"
    by (metis One_nat_def length_map list.size(3) list.size(4) add.commute plus_1_eq_Suc)
  with parts match_rules_equiv [OF v c, of ?as] show ?thesis
    by (simp add: MAX_AUTOMATION_ATTACHMENTS_def MAX_AUTOMATION_FIRES_PER_MESSAGE_def)
qed

theorem match_rules_order_independent_witness:
  "match_rules ascii_env [sample_rule] sample_message
      [sample_attachment 0 (lit ''y.q''), sample_attachment 1 (lit ''x.p'')]
   = match_rules ascii_env [sample_rule] sample_message
      [sample_attachment 1 (lit ''x.p''), sample_attachment 0 (lit ''y.q'')]"
  by (rule match_rules_order_independent) (simp_all add: sample_attachment_def)

end
