(* ===== verification/Admission.thy ===== *)
theory Admission
  imports Addresses "HOL-Library.Multiset"
begin

text \<open>
  Who is admitted: vendor attribution (\<open>thread_state.py\<close>) and the one admission decision for
  mailbox metadata (\<open>match_mailbox_admission\<close> of \<open>service.py\<close>), with the selector ids of
  \<open>config.py\<close> and the folder mapping of \<open>gmail.py\<close>. A message body is fetched only after this
  decision, so its soundness is the privacy boundary of the program.
\<close>

section \<open>Vendor attribution (thread\_state.py)\<close>

datatype match_kind = Exact | Domain

record vendor_match =
  vm_vendor_id :: pystr
  vm_display_name :: pystr
  vm_kind :: match_kind
  vm_address :: pystr

record vendor_index =
  addresses :: "pystr \<rightharpoonup> pystr \<times> pystr"
  domains :: "pystr \<rightharpoonup> pystr \<times> pystr"
  identities :: "pystr set"
  vendor_ids :: "pystr set"

definition mk_match :: "pystr \<times> pystr \<Rightarrow> match_kind \<Rightarrow> pystr \<Rightarrow> vendor_match" where
  "mk_match v kind address =
     \<lparr>vm_vendor_id = fst v, vm_display_name = snd v, vm_kind = kind, vm_address = address\<rparr>"

definition vendor_of :: "vendor_index \<Rightarrow> pystr \<Rightarrow> vendor_match option" where
  "vendor_of idx address =
     (if address \<in> identities idx then None
      else (case addresses idx address of
          Some exact \<Rightarrow> Some (mk_match exact Exact address)
        | None \<Rightarrow>
            (case domains idx (after_last 64 address) of
               Some domain \<Rightarrow> Some (mk_match domain Domain address)
             | None \<Rightarrow> None)))"

fun first_of_kind :: "match_kind \<Rightarrow> vendor_match option list \<Rightarrow> vendor_match option" where
  "first_of_kind kind [] = None"
| "first_of_kind kind (m # ms) =
     (case m of
        Some v \<Rightarrow> if vm_kind v = kind then Some v else first_of_kind kind ms
      | None \<Rightarrow> first_of_kind kind ms)"

definition attribute ::
  "vendor_index \<Rightarrow> pystr \<Rightarrow> bool \<Rightarrow> pystr list \<Rightarrow> pystr list \<Rightarrow> vendor_match option" where
  "attribute idx sender outbound to cc =
     (if \<not> outbound then vendor_of idx sender
      else
        (let matches = map (vendor_of idx) (to @ cc) in
         case first_of_kind Exact matches of
           Some v \<Rightarrow> Some v
         | None \<Rightarrow> first_of_kind Domain matches))"

text \<open>The rows \<open>vendor_index(db)\<close> reads: \<open>vendors\<close>, \<open>vendor_addresses\<close>, account addresses, and
  \<open>vendor_domains\<close>, which may not exist yet.\<close>

record vendor_row =
  v_vendor_id :: pystr
  v_display_name :: pystr

record vendor_tables =
  t_vendors :: "vendor_row list"
  t_vendor_addresses :: "(pystr \<times> pystr) list"
  t_account_addresses :: "pystr option list"
  t_vendor_domains :: "(pystr \<times> pystr) list option"

definition vendor_join :: "vendor_row list \<Rightarrow> (pystr \<times> pystr) list \<Rightarrow> (pystr \<times> pystr \<times> pystr) list" where
  "vendor_join vendors rows =
     [(key, vid, v_display_name v). (key, vid) \<leftarrow> rows, v \<leftarrow> vendors, v_vendor_id v = vid]"

text \<open>A dict comprehension keeps the last row of a key.\<close>

definition dict_of :: "(pystr \<times> 'v) list \<Rightarrow> pystr \<rightharpoonup> 'v" where
  "dict_of rows = map_of (rev rows)"

definition load_vendor_index :: "vendor_tables \<Rightarrow> vendor_index" where
  "load_vendor_index t =
     \<lparr>addresses = dict_of (vendor_join (t_vendors t) (t_vendor_addresses t)),
      domains = (case t_vendor_domains t of
                   None \<Rightarrow> Map.empty
                 | Some rows \<Rightarrow> dict_of (vendor_join (t_vendors t) rows)),
      identities = set (List.map_filter id (t_account_addresses t)),
      vendor_ids = set (map v_vendor_id (t_vendors t))\<rparr>"

section \<open>Selectors (config.py) and folders (gmail.py, service.py)\<close>

datatype admission_kind =
    Exact_sender | Vendor_address | Vendor_domain | Sent_to_vendor | Thread_follow | Gmail_user_label

fun thread_admission_selector_prefix :: "admission_kind \<Rightarrow> string option" where
  "thread_admission_selector_prefix Vendor_address = Some ''vendor-address:''"
| "thread_admission_selector_prefix Vendor_domain = Some ''vendor-address:''"
| "thread_admission_selector_prefix Sent_to_vendor = Some ''vendor-recipient:''"
| "thread_admission_selector_prefix Thread_follow = Some ''thread:''"
| "thread_admission_selector_prefix _ = None"

definition thread_capture_selector_id :: "pyenv \<Rightarrow> admission_kind \<Rightarrow> pystr \<Rightarrow> err + pystr" where
  "thread_capture_selector_id env kind value =
     (case thread_admission_selector_prefix kind of
        None \<Rightarrow> Inl (ValueError ''unsupported thread admission selector'')
      | Some prefix \<Rightarrow>
          if value = [] then Inl (ValueError ''unsupported thread admission selector'')
          else (case utf8_encode value of
              None \<Rightarrow> Inl UnicodeError
            | Some encoded \<Rightarrow> Inr (lit prefix @ sha256 env encoded)))"

definition MAX_SENDER_NAME_BYTES :: nat where "MAX_SENDER_NAME_BYTES = 1024"

definition admission_sender_display_name :: "pystr option \<Rightarrow> pystr option" where
  "admission_sender_display_name value =
     (case value of
        None \<Rightarrow> None
      | Some name \<Rightarrow>
          (case utf8_encode name of
             None \<Rightarrow> None
           | Some encoded \<Rightarrow>
               if length encoded \<le> MAX_SENDER_NAME_BYTES then Some name
               else Some (utf8_decode_ignore (take MAX_SENDER_NAME_BYTES encoded))))"

datatype location = Inbox | Sent

definition MESSAGE_LOCATIONS :: "location set" where
  "MESSAGE_LOCATIONS = {Inbox, Sent}"

definition locations_from_labels :: "pystr set \<Rightarrow> location set" where
  "locations_from_labels labels =
     (if lit ''INBOX'' \<in> labels then {Inbox} else {}) \<union> (if lit ''SENT'' \<in> labels then {Sent} else {})"

definition folders_in_scope :: "bool \<Rightarrow> location set" where
  "folders_in_scope gated_allowed = (if gated_allowed then MESSAGE_LOCATIONS else {Inbox})"

definition scope_complete :: "location set \<Rightarrow> bool" where
  "scope_complete folders \<longleftrightarrow> folders = MESSAGE_LOCATIONS"

record message_metadata =
  md_message_id :: pystr
  md_thread_id :: "pystr option"
  md_sender :: pystr
  md_sender_name :: "pystr option"
  md_subject :: pystr
  md_received_at :: iso
  md_labels :: "pystr set"
  md_rfc_message_id :: "pystr option"
  md_reply_ids :: "pystr list"
  md_to :: "pystr list"
  md_cc :: "pystr list"
  md_locations :: "location set"

definition admitted_locations :: "message_metadata \<Rightarrow> location set \<Rightarrow> location set" where
  "admitted_locations md folders =
     (let locations = (if md_locations md \<noteq> {} then md_locations md
                       else locations_from_labels (md_labels md)) in
      locations \<inter> folders)"

text \<open>
  Where a stale cursor's recovery starts. \<open>astimezone\<close> reads a naive \<open>last_success\<close> as local
  time, which is the parameter \<open>local\<close>.
\<close>

definition recovery_since :: "(int \<Rightarrow> instant) \<Rightarrow> iso \<Rightarrow> instant \<Rightarrow> err + instant" where
  "recovery_since local last_success retention_cutoff =
     (case last_success of
        NotIso \<Rightarrow> Inl (ValueError ''Invalid isoformat string'')
      | Aware t \<Rightarrow> Inr (max (t - seconds (5 * 60)) retention_cutoff)
      | Naive t \<Rightarrow> Inr (max (local t - seconds (5 * 60)) retention_cutoff))"

section \<open>The admission decision (service.py)\<close>

record label_selector =
  ls_selector_id :: pystr
  ls_provider :: pystr
  ls_account_id :: pystr
  ls_mailbox_identity_key :: pystr
  ls_label_id :: pystr
  ls_selected_display_name :: pystr

record admission_decision =
  ad_kind :: admission_kind
  ad_selector_id :: pystr
  ad_display_name :: "pystr option"
  ad_mailbox_identity_key :: pystr
  ad_admitted_at :: instant

record admission_context =
  ac_provider :: pystr
  ac_account_id :: pystr
  ac_mailbox_identity_key :: pystr
  ac_exact_senders :: "pystr \<rightharpoonup> pystr option"
  ac_label_selectors :: "label_selector list"
  ac_admitted_at :: instant
  ac_folders :: "location set"
  ac_vendor_index :: "vendor_index option"
  ac_followed_thread :: "(pystr \<times> pystr) option"
  ac_followed_thread_lookup :: "(pystr \<times> pystr) option option"
  ac_gated_allowed :: bool

definition decide ::
  "admission_context \<Rightarrow> admission_kind \<Rightarrow> pystr option \<Rightarrow> err + pystr \<Rightarrow> err + admission_decision option" where
  "decide ctx kind name selector =
     (case selector of
        Inl e \<Rightarrow> Inl e
      | Inr selector_id \<Rightarrow>
          Inr (Some \<lparr>ad_kind = kind, ad_selector_id = selector_id, ad_display_name = name,
                ad_mailbox_identity_key = ac_mailbox_identity_key ctx,
                ad_admitted_at = ac_admitted_at ctx\<rparr>))"

definition label_matches :: "admission_context \<Rightarrow> message_metadata \<Rightarrow> label_selector list" where
  "label_matches ctx md =
     sort_key ls_selector_id
       (filter (\<lambda>s. ls_provider s = ac_provider ctx \<and> ls_account_id s = ac_account_id ctx
                  \<and> ls_mailbox_identity_key s = ac_mailbox_identity_key ctx
                  \<and> ls_label_id s \<in> md_labels md)
         (ac_label_selectors ctx))"

definition match_label_admission ::
  "admission_context \<Rightarrow> message_metadata \<Rightarrow> err + admission_decision option" where
  "match_label_admission ctx md =
     (if ac_provider ctx \<noteq> lit ''gmail'' then Inr None
      else (case label_matches ctx md of
          [] \<Rightarrow> Inr None
        | winner # _ \<Rightarrow>
            decide ctx Gmail_user_label (Some (ls_selected_display_name winner))
              (Inr (ls_selector_id winner))))"

definition vendor_kind :: "bool \<Rightarrow> vendor_match \<Rightarrow> admission_kind" where
  "vendor_kind outbound v =
     (if outbound then Sent_to_vendor
      else if vm_kind v = Exact then Vendor_address else Vendor_domain)"

definition match_mailbox_admission ::
  "pyenv \<Rightarrow> admission_context \<Rightarrow> message_metadata \<Rightarrow> err + admission_decision option" where
  "match_mailbox_admission env ctx md =
     (if admitted_locations md (ac_folders ctx) = {} then Inr None
      else (case ac_exact_senders ctx (md_sender md) of
        Some name \<Rightarrow>
          decide ctx Exact_sender (admission_sender_display_name name)
            (exact_sender_selector_id env (md_sender md))
      | None \<Rightarrow>
          if ac_gated_allowed ctx then
            (let outbound = (Sent \<in> admitted_locations md (ac_folders ctx));
                 found = (case ac_vendor_index ctx of
                            None \<Rightarrow> None
                          | Some idx \<Rightarrow> attribute idx (md_sender md) outbound (md_to md) (md_cc md)) in
             case found of
               Some v \<Rightarrow>
                 decide ctx (vendor_kind outbound v) (Some (vm_display_name v))
                   (thread_capture_selector_id env (vendor_kind outbound v) (vm_address v))
             | None \<Rightarrow>
                 (case (case ac_followed_thread_lookup ctx of
                          Some looked_up \<Rightarrow> looked_up | None \<Rightarrow> ac_followed_thread ctx) of
                    Some (key, name) \<Rightarrow>
                      decide ctx Thread_follow (Some name)
                        (thread_capture_selector_id env Thread_follow key)
                  | None \<Rightarrow> match_label_admission ctx md))
          else match_label_admission ctx md))"

section \<open>The vendor directory as an interface\<close>

text \<open>
  What admission relies on: a lookup answers for the address it was asked about and never for
  the mailbox owner's own addresses.
\<close>

locale vendor_directory =
  fixes lookup :: "pystr \<Rightarrow> vendor_match option" and own :: "pystr set"
  assumes lookup_address: "lookup a = Some v \<Longrightarrow> vm_address v = a"
    and lookup_own: "a \<in> own \<Longrightarrow> lookup a = None"
begin

lemma first_of_kind_Some:
  "first_of_kind k (map lookup rs) = Some v \<Longrightarrow>
     vm_kind v = k \<and> vm_address v \<in> set rs - own \<and> lookup (vm_address v) = Some v"
proof (induction rs)
  case (Cons r rs)
  show ?case
  proof (cases "lookup r")
    case None
    with Cons show ?thesis by auto
  next
    case (Some w)
    then have "r \<notin> own" "vm_address w = r" using lookup_own lookup_address by auto
    with Some Cons show ?thesis by (auto split: if_splits)
  qed
qed simp

lemma first_of_kind_None:
  "first_of_kind k (map lookup rs) = None \<longleftrightarrow> (\<forall>r\<in>set rs. \<forall>v. lookup r = Some v \<longrightarrow> vm_kind v \<noteq> k)"
  by (induction rs) (auto split: option.splits)

lemma no_match_iff:
  "first_of_kind Exact (map lookup rs) = None \<and> first_of_kind Domain (map lookup rs) = None
     \<longleftrightarrow> (\<forall>r\<in>set rs. lookup r = None)"
proof (intro iffI ballI)
  fix r
  assume "first_of_kind Exact (map lookup rs) = None \<and> first_of_kind Domain (map lookup rs) = None"
    and "r \<in> set rs"
  then have "vm_kind v \<noteq> Exact \<and> vm_kind v \<noteq> Domain" if "lookup r = Some v" for v
    using that by (auto simp: first_of_kind_None)
  then show "lookup r = None" by (cases "lookup r") (use match_kind.exhaust in blast)+
qed (simp add: first_of_kind_None)

lemma first_of_kind_first:
  "first_of_kind k (map lookup rs) = Some v \<Longrightarrow>
     \<exists>before after. rs = before @ vm_address v # after
       \<and> (\<forall>r\<in>set before. \<forall>w. lookup r = Some w \<longrightarrow> vm_kind w \<noteq> k)"
proof (induction rs)
  case (Cons r rs)
  show ?case
  proof (cases "\<exists>w. lookup r = Some w \<and> vm_kind w = k")
    case True
    then have "vm_address v = r" using Cons.prems lookup_address by auto
    then show ?thesis by (metis append_Nil empty_iff list.set(1))
  next
    case False
    with Cons.prems have "first_of_kind k (map lookup rs) = Some v" by (auto split: option.splits if_splits)
    from Cons.IH [OF this] obtain before after where "rs = before @ vm_address v # after"
      "\<forall>r\<in>set before. \<forall>w. lookup r = Some w \<longrightarrow> vm_kind w \<noteq> k" by blast
    with False have "r # rs = (r # before) @ vm_address v # after"
      "\<forall>r\<in>set (r # before). \<forall>w. lookup r = Some w \<longrightarrow> vm_kind w \<noteq> k" by auto
    then show ?thesis by blast
  qed
qed simp

end

lemma vendor_of_address: "vendor_of idx a = Some v \<Longrightarrow> vm_address v = a"
  by (auto simp: vendor_of_def mk_match_def split: if_splits option.splits)

lemma vendor_of_own: "a \<in> identities idx \<Longrightarrow> vendor_of idx a = None"
  by (simp add: vendor_of_def)

interpretation vd: vendor_directory "vendor_of idx" "identities idx" for idx
  by unfold_locales (auto simp: vendor_of_address vendor_of_own)

section \<open>Properties\<close>

text \<open>
  An outbound message is attributed to the first recipient, To before Cc, that is exactly a
  vendor address, and only when no recipient is one to the first whose domain is a vendor's;
  the mailbox owner's own address never counts, and there is no attribution exactly when no
  recipient matches.
\<close>

theorem attribute_outbound:
  "(\<forall>v. attribute idx sender True to cc = Some v \<longrightarrow>
      vm_address v \<in> set (to @ cc) - identities idx \<and> vendor_of idx (vm_address v) = Some v
      \<and> (\<exists>before after. to @ cc = before @ vm_address v # after
           \<and> (\<forall>r\<in>set before. \<forall>w. vendor_of idx r = Some w \<longrightarrow> vm_kind w \<noteq> vm_kind v))
      \<and> (vm_kind v = Domain \<longrightarrow> (\<forall>r\<in>set (to @ cc). \<forall>w. vendor_of idx r = Some w \<longrightarrow> vm_kind w = Domain)))
   \<and> (attribute idx sender True to cc = None \<longleftrightarrow> (\<forall>r\<in>set (to @ cc). vendor_of idx r = None))"
proof (intro conjI allI impI)
  fix v assume a: "attribute idx sender True to cc = Some v"
  define rs where "rs = to @ cc"
  from a consider "first_of_kind Exact (map (vendor_of idx) rs) = Some v"
    | "first_of_kind Exact (map (vendor_of idx) rs) = None"
      "first_of_kind Domain (map (vendor_of idx) rs) = Some v"
    by (auto simp: attribute_def rs_def Let_def split: option.splits)
  then have "first_of_kind (vm_kind v) (map (vendor_of idx) rs) = Some v
    \<and> (vm_kind v = Domain \<longrightarrow> first_of_kind Exact (map (vendor_of idx) rs) = None)"
  proof cases
    case 1
    then have "vm_kind v = Exact" using vd.first_of_kind_Some by blast
    with 1 show ?thesis by simp
  next
    case 2
    then have "vm_kind v = Domain" using vd.first_of_kind_Some by blast
    with 2 show ?thesis by simp
  qed
  then have f: "first_of_kind (vm_kind v) (map (vendor_of idx) (to @ cc)) = Some v"
    and none: "vm_kind v = Domain \<longrightarrow> first_of_kind Exact (map (vendor_of idx) (to @ cc)) = None"
    unfolding rs_def by blast+
  show "vm_address v \<in> set (to @ cc) - identities idx" "vendor_of idx (vm_address v) = Some v"
    using vd.first_of_kind_Some [OF f] by blast+
  show "\<exists>before after. to @ cc = before @ vm_address v # after
      \<and> (\<forall>r\<in>set before. \<forall>w. vendor_of idx r = Some w \<longrightarrow> vm_kind w \<noteq> vm_kind v)"
    by (rule vd.first_of_kind_first [OF f])
  show "\<forall>r\<in>set (to @ cc). \<forall>w. vendor_of idx r = Some w \<longrightarrow> vm_kind w = Domain" if "vm_kind v = Domain"
    using none that unfolding vd.first_of_kind_None by (metis match_kind.exhaust)
next
  have "attribute idx sender True to cc = None \<longleftrightarrow>
      first_of_kind Exact (map (vendor_of idx) (to @ cc)) = None
      \<and> first_of_kind Domain (map (vendor_of idx) (to @ cc)) = None"
    by (auto simp: attribute_def Let_def split: option.splits)
  then show "attribute idx sender True to cc = None \<longleftrightarrow> (\<forall>r\<in>set (to @ cc). vendor_of idx r = None)"
    using vd.no_match_iff [of idx "to @ cc"] by blast
qed

definition sample_index :: vendor_index where
  "sample_index = \<lparr>addresses = [lit ''v@x'' \<mapsto> (lit ''1'', lit ''V'')],
     domains = [lit ''y'' \<mapsto> (lit ''2'', lit ''W'')], identities = {lit ''me@y''}, vendor_ids = {}\<rparr>"

theorem attribute_outbound_witness:
  "attribute sample_index [] True [lit ''me@y'', lit ''b@y''] [lit ''v@x'']
     = Some (mk_match (lit ''1'', lit ''V'') Exact (lit ''v@x''))
   \<and> lit ''v@x'' \<in> set ([lit ''me@y'', lit ''b@y''] @ [lit ''v@x'']) - identities sample_index"
proof -
  have h: "attribute sample_index [] True [lit ''me@y'', lit ''b@y''] [lit ''v@x'']
      = Some (mk_match (lit ''1'', lit ''V'') Exact (lit ''v@x''))"
    by (simp add: attribute_def vendor_of_def sample_index_def mk_match_def after_last_def lit_def)
  show ?thesis
    using h attribute_outbound [of sample_index "[]" "[lit ''me@y'', lit ''b@y'']" "[lit ''v@x'']"]
    by (auto simp: mk_match_def)
qed

lemma decide_Some:
  "decide ctx kind name selector = Inr (Some d) \<longleftrightarrow>
     (\<exists>sid. selector = Inr sid \<and> d = \<lparr>ad_kind = kind, ad_selector_id = sid, ad_display_name = name,
        ad_mailbox_identity_key = ac_mailbox_identity_key ctx, ad_admitted_at = ac_admitted_at ctx\<rparr>)"
  by (auto simp: decide_def split: sum.splits)

lemma match_label_admission_Some:
  assumes "match_label_admission ctx md = Inr (Some d)"
  shows "ac_provider ctx = lit ''gmail'' \<and> ad_kind d = Gmail_user_label \<and>
    ad_mailbox_identity_key d = ac_mailbox_identity_key ctx \<and>
    (\<exists>s\<in>set (ac_label_selectors ctx). ls_selector_id s = ad_selector_id d
       \<and> ls_provider s = ac_provider ctx \<and> ls_account_id s = ac_account_id ctx
       \<and> ls_mailbox_identity_key s = ac_mailbox_identity_key ctx \<and> ls_label_id s \<in> md_labels md)"
proof -
  from assms obtain w ws where g: "ac_provider ctx = lit ''gmail''" and w: "label_matches ctx md = w # ws"
    and d: "decide ctx Gmail_user_label (Some (ls_selected_display_name w)) (Inr (ls_selector_id w)) = Inr (Some d)"
    by (auto simp: match_label_admission_def split: if_splits list.splits)
  have "w \<in> set (label_matches ctx md)" using w by simp
  with g d show ?thesis by (auto simp: decide_Some label_matches_def)
qed


definition sample_context :: admission_context where
  "sample_context = \<lparr>ac_provider = lit ''imap'', ac_account_id = lit ''a'',
     ac_mailbox_identity_key = lit ''k'', ac_exact_senders = [lit ''a@b.c'' \<mapsto> None],
     ac_label_selectors = [], ac_admitted_at = 0, ac_folders = {Inbox}, ac_vendor_index = None,
     ac_followed_thread = None, ac_followed_thread_lookup = None, ac_gated_allowed = False\<rparr>"

definition sample_metadata :: "pystr \<Rightarrow> location set \<Rightarrow> message_metadata" where
  "sample_metadata sender locs = \<lparr>md_message_id = lit ''m'', md_thread_id = None, md_sender = sender,
     md_sender_name = None, md_subject = [], md_received_at = Aware 0, md_labels = {},
     md_rfc_message_id = None, md_reply_ids = [], md_to = [], md_cc = [], md_locations = locs\<rparr>"

lemma sample_address: "exact_sender_selector_id ascii_env (lit ''a@b.c'') = Inr (lit ''sender:a@b.c'')"
  by (simp add: exact_sender_selector_id_def normalize_validated_address_def normalize_address_def
      ascii_env_def lit_def strip_def before_last_def after_last_def startswith_def endswith_def
      contains.simps valid_domain_def domain_label_re_def is_alnum_def within_utf8_bytes_def
      utf8_size_def utf8_char_def MAX_ADMISSION_SELECTOR_BYTES_def Let_def)


text \<open>
  Without the paid gated class, and outside Gmail labels, the allowlist is exact: in the
  scope the program uses, a message is admitted if and only if its sender is on the allowlist
  (and has a valid selector) and the message is in the inbox; mail that is only in Sent, and mail
  from anyone else, is never admitted, whatever vendors or threads are followed.
\<close>

theorem admission_ungated_exact:
  assumes "\<not> ac_gated_allowed ctx" and "ac_folders ctx = folders_in_scope (ac_gated_allowed ctx)"
    and "ac_label_selectors ctx = []"
  shows "(\<exists>d. match_mailbox_admission env ctx md = Inr (Some d)) \<longleftrightarrow>
    Inbox \<in> admitted_locations md MESSAGE_LOCATIONS
    \<and> md_sender md \<in> dom (ac_exact_senders ctx)
    \<and> is_ok (exact_sender_selector_id env (md_sender md))"
proof -
  have "admitted_locations md (ac_folders ctx) = {} \<longleftrightarrow> Inbox \<notin> admitted_locations md MESSAGE_LOCATIONS"
    using assms(1,2) by (auto simp: admitted_locations_def folders_in_scope_def MESSAGE_LOCATIONS_def Let_def)
  moreover have "match_label_admission ctx md = Inr None"
    using assms(3) by (simp add: match_label_admission_def label_matches_def)
  ultimately show ?thesis
    using assms(1) unfolding match_mailbox_admission_def
    by (auto simp: decide_def is_ok_iff split: option.splits sum.splits)
qed

theorem admission_ungated_exact_witness:
  "\<not> (\<exists>d. match_mailbox_admission ascii_env sample_context (sample_metadata (lit ''a@b.c'') {Sent})
        = Inr (Some d))"
proof -
  have a: "\<not> ac_gated_allowed sample_context"
    "ac_folders sample_context = folders_in_scope (ac_gated_allowed sample_context)"
    "ac_label_selectors sample_context = []"
    by (simp_all add: sample_context_def folders_in_scope_def)
  show ?thesis
    unfolding admission_ungated_exact [OF a]
    by (simp add: admitted_locations_def sample_metadata_def)
qed

lemma decide_selectors [simp]:
  "decide (ctx\<lparr>ac_label_selectors := sels\<rparr>) kind name selector = decide ctx kind name selector"
  by (simp add: decide_def split: sum.splits)

text \<open>
  The winning label grant is deterministic: any two orders of the same selectors, which have
  distinct ids, give the same decision.
\<close>

theorem admission_selector_order:
  assumes "mset (ac_label_selectors ctx) = mset sels" and "distinct (map ls_selector_id sels)"
  shows "match_mailbox_admission env ctx md = match_mailbox_admission env (ctx\<lparr>ac_label_selectors := sels\<rparr>) md"
proof -
  let ?P = "\<lambda>s. ls_provider s = ac_provider ctx \<and> ls_account_id s = ac_account_id ctx
    \<and> ls_mailbox_identity_key s = ac_mailbox_identity_key ctx \<and> ls_label_id s \<in> md_labels md"
  have "sort_key ls_selector_id (filter ?P sels) = sort_key ls_selector_id (filter ?P (ac_label_selectors ctx))"
  proof (rule sort_key_inj_key_eq)
    show "mset (filter ?P sels) = mset (sort_key ls_selector_id (filter ?P (ac_label_selectors ctx)))"
      using assms(1) by simp
    show "inj_on ls_selector_id (set (filter ?P sels))"
      using assms(2) by (auto simp: distinct_map intro: inj_on_subset)
  qed simp
  then have "label_matches ctx md = label_matches (ctx\<lparr>ac_label_selectors := sels\<rparr>) md"
    by (simp add: label_matches_def)
  then have "match_label_admission ctx md = match_label_admission (ctx\<lparr>ac_label_selectors := sels\<rparr>) md"
    by (simp add: match_label_admission_def split: list.splits)
  then show ?thesis
    by (simp add: match_mailbox_admission_def Let_def split: option.splits)
qed

definition sample_selector :: "pystr \<Rightarrow> label_selector" where
  "sample_selector i = \<lparr>ls_selector_id = i, ls_provider = lit ''gmail'', ls_account_id = lit ''a'',
     ls_mailbox_identity_key = lit ''k'', ls_label_id = lit ''L'', ls_selected_display_name = i\<rparr>"

theorem admission_selector_order_witness:
  "match_mailbox_admission ascii_env
     (sample_context\<lparr>ac_label_selectors := [sample_selector [1], sample_selector [2]]\<rparr>)
     (sample_metadata (lit ''z@b.c'') {Inbox})
   = match_mailbox_admission ascii_env
     (sample_context\<lparr>ac_label_selectors := [sample_selector [1], sample_selector [2]],
        ac_label_selectors := [sample_selector [2], sample_selector [1]]\<rparr>)
     (sample_metadata (lit ''z@b.c'') {Inbox})"
  by (rule admission_selector_order) (simp_all add: sample_selector_def)

end
