(* ===== verification/Interfaces.thy ===== *)
theory Interfaces
  imports Prelude
begin

text \<open>
  Interfaces that several components share, as locales over a state and its operations.

  \<^item> \<open>once_guard\<close>: an external effect that a durable record blocks from happening again until it
    is released, in the states that satisfy an invariant.
  \<^item> \<open>once_log\<close>: the same for steps that perform several effects, with the log of all effects.
  \<^item> \<open>versioned\<close>: optimistic concurrency, an operation that names the version it expects.
\<close>

section \<open>Effects that happen at most once between releases\<close>

text \<open>
  \<open>attempt s e = Some k\<close>: running \<open>e\<close> in \<open>s\<close> performs the effect named \<open>k\<close>. \<open>releases s e k\<close>:
  running \<open>e\<close> in \<open>s\<close> gives \<open>k\<close> back.
\<close>

locale once_guard =
  fixes exec :: "'s \<Rightarrow> 'e \<Rightarrow> 's"
    and attempt :: "'s \<Rightarrow> 'e \<Rightarrow> 'k option"
    and releases :: "'s \<Rightarrow> 'e \<Rightarrow> 'k \<Rightarrow> bool"
    and blocked :: "'s \<Rightarrow> 'k \<Rightarrow> bool"
    and invar :: "'s \<Rightarrow> bool"
  assumes exec_invar: "invar s \<Longrightarrow> invar (exec s e)"
    and attempt_unblocked: "invar s \<Longrightarrow> attempt s e = Some k \<Longrightarrow> \<not> blocked s k"
    and attempt_blocks: "invar s \<Longrightarrow> attempt s e = Some k \<Longrightarrow> blocked (exec s e) k"
    and stays_blocked: "invar s \<Longrightarrow> blocked s k \<Longrightarrow> \<not> releases s e k \<Longrightarrow> blocked (exec s e) k"
begin

lemma run_invar: "invar s \<Longrightarrow> invar (foldl exec s es)"
  by (induction es arbitrary: s) (auto intro: exec_invar)

lemma run_stays_blocked:
  assumes "invar s" and "blocked s k"
    and "\<And>before e after. es = before @ e # after \<Longrightarrow> \<not> releases (foldl exec s before) e k"
  shows "blocked (foldl exec s es) k"
  using assms
proof (induction es arbitrary: s)
  case Nil
  then show ?case by simp
next
  case (Cons e es)
  have "\<not> releases s e k" using Cons.prems(3) [of "[]" e es] by simp
  then have b: "blocked (exec s e) k" using Cons.prems(1,2) stays_blocked by blast
  have "\<not> releases (foldl exec (exec s e) before) f k" if "es = before @ f # after" for before f after
    using Cons.prems(3) [of "e # before" f after] that by simp
  then show ?case using Cons.IH [OF exec_invar [OF Cons.prems(1)] b] by simp
qed

theorem once_between_releases:
  assumes "invar s" and "attempt (foldl exec s pre) e = Some k"
    and "attempt (foldl exec s (pre @ e # mid)) f = Some k"
  shows "\<exists>before g after. mid = before @ g # after \<and> releases (foldl exec s (pre @ e # before)) g k"
proof (rule ccontr)
  assume none: "\<not> ?thesis"
  have i: "invar (foldl exec s es)" for es using run_invar [OF assms(1)] .
  have b: "blocked (foldl exec s (pre @ [e])) k"
    using attempt_blocks [OF i assms(2)] by simp
  have "\<not> releases (foldl exec (foldl exec s (pre @ [e])) before) g k" if "mid = before @ g # after" for before g after
  proof -
    have "foldl exec (foldl exec s (pre @ [e])) before = foldl exec s (pre @ e # before)"
      by simp
    with none that show ?thesis by metis
  qed
  then have "blocked (foldl exec (foldl exec s (pre @ [e])) mid) k" using run_stays_blocked [OF i b] by blast
  moreover have "foldl exec (foldl exec s (pre @ [e])) mid = foldl exec s (pre @ e # mid)"
    by simp
  ultimately show False using attempt_unblocked [OF i assms(3)] by simp
qed

end

section \<open>The log of effects\<close>

fun effect_trace :: "('s \<Rightarrow> 'e \<Rightarrow> 's) \<Rightarrow> ('s \<Rightarrow> 'e \<Rightarrow> 'k list) \<Rightarrow> 's \<Rightarrow> 'e list \<Rightarrow> 'k list" where
  "effect_trace exec effects s [] = []"
| "effect_trace exec effects s (e # es) = effects s e @ effect_trace exec effects (exec s e) es"

lemma map_effect_trace:
  "map f (effect_trace exec effects s es) = effect_trace exec (\<lambda>s e. map f (effects s e)) s es"
  by (induction es arbitrary: s) auto

lemma effect_trace_append:
  "effect_trace exec effects s (es @ fs) = effect_trace exec effects s es @ effect_trace exec effects (foldl exec s es) fs"
  by (induction es arbitrary: s) auto

text \<open>\<open>allowed e\<close>: running \<open>e\<close> gives nothing back.\<close>

locale once_log =
  fixes exec :: "'s \<Rightarrow> 'e \<Rightarrow> 's"
    and effects :: "'s \<Rightarrow> 'e \<Rightarrow> 'k list"
    and allowed :: "'e \<Rightarrow> bool"
    and blocked :: "'s \<Rightarrow> 'k \<Rightarrow> bool"
    and invar :: "'s \<Rightarrow> bool"
  assumes exec_invar: "invar s \<Longrightarrow> invar (exec s e)"
    and effects_distinct: "invar s \<Longrightarrow> distinct (effects s e)"
    and effects_unblocked: "invar s \<Longrightarrow> k \<in> set (effects s e) \<Longrightarrow> \<not> blocked s k"
    and effects_block: "invar s \<Longrightarrow> k \<in> set (effects s e) \<Longrightarrow> blocked (exec s e) k"
    and stays_blocked: "invar s \<Longrightarrow> allowed e \<Longrightarrow> blocked s k \<Longrightarrow> blocked (exec s e) k"
begin

lemma run_stays_blocked:
  "invar s \<Longrightarrow> list_all allowed es \<Longrightarrow> blocked s k \<Longrightarrow> blocked (foldl exec s es) k"
  by (induction es arbitrary: s) (auto intro: exec_invar stays_blocked)

lemma trace_unblocked:
  assumes "invar s" and "list_all allowed es" and "k \<in> set (effect_trace exec effects s es)"
  shows "\<not> blocked s k"
  using assms
proof (induction es arbitrary: s)
  case (Cons e es)
  then show ?case
    using effects_unblocked [of s k e] Cons.IH [OF exec_invar [of s e]] stays_blocked [of s e k] by auto
qed simp

theorem trace_distinct:
  assumes "invar s" and "list_all allowed es"
  shows "distinct (effect_trace exec effects s es)"
  using assms
proof (induction es arbitrary: s)
  case (Cons e es)
  have i: "invar (exec s e)" using exec_invar Cons.prems(1) .
  have "\<not> blocked (exec s e) k" if "k \<in> set (effect_trace exec effects (exec s e) es)" for k
    using trace_unblocked [OF i _ that] Cons.prems(2) by simp
  moreover have "blocked (exec s e) k" if "k \<in> set (effects s e)" for k
    using effects_block [OF Cons.prems(1) that] .
  ultimately show ?case
    using Cons.IH [OF i] Cons.prems effects_distinct by auto
qed simp

end

section \<open>Optimistic concurrency\<close>

text \<open>
  An operation names the record it changes and the version it read. The provider promises that
  it succeeds only at that version, that success moves the version up, and that no operation
  ever moves a version down. The client learns that a version is spent once: of all the
  operations that read one version, at most one succeeds, in whatever order they run. A run
  (\<open>foldl (committed exec)\<close>) keeps the state of an operation that raises, as the rolled-back
  transaction does.
\<close>

definition committed :: "('s \<Rightarrow> 'op \<Rightarrow> 'e + 's) \<Rightarrow> 's \<Rightarrow> 'op \<Rightarrow> 's" where
  "committed exec s op = (case exec s op of Inl _ \<Rightarrow> s | Inr s' \<Rightarrow> s')"

lemma committed_Inr: "exec s op = Inr s' \<Longrightarrow> committed exec s op = s'"
  by (simp add: committed_def)

lemma committed_Inl: "exec s op = Inl e \<Longrightarrow> committed exec s op = s"
  by (simp add: committed_def)

locale versioned =
  fixes version :: "'s \<Rightarrow> 'k \<Rightarrow> int option"
    and exec :: "'s \<Rightarrow> 'op \<Rightarrow> 'e + 's"
    and target :: "'op \<Rightarrow> 'k"
    and expected :: "'op \<Rightarrow> int option"
    and invar :: "'s \<Rightarrow> bool"
  assumes exec_invar: "invar s \<Longrightarrow> exec s op = Inr s' \<Longrightarrow> invar s'"
    and exec_expected:
      "invar s \<Longrightarrow> exec s op = Inr s' \<Longrightarrow> expected op = Some v \<Longrightarrow> version s (target op) = Some v"
    and exec_bumps:
      "invar s \<Longrightarrow> exec s op = Inr s' \<Longrightarrow> expected op = Some v \<Longrightarrow>
         \<exists>w > v. version s' (target op) = Some w"
    and exec_monotone:
      "invar s \<Longrightarrow> exec s op = Inr s' \<Longrightarrow> version s k = Some v \<Longrightarrow> \<exists>w \<ge> v. version s' k = Some w"
begin

lemma step_invar: "invar s \<Longrightarrow> invar (committed exec s op)"
  by (auto simp: committed_def intro: exec_invar split: sum.splits)

lemma run_invar: "invar s \<Longrightarrow> invar (foldl (committed exec) s ops)"
  by (induction ops arbitrary: s) (auto intro: step_invar)

lemma step_monotone: "invar s \<Longrightarrow> version s k = Some v \<Longrightarrow> \<exists>w \<ge> v. version (committed exec s op) k = Some w"
  by (auto simp: committed_def intro: exec_monotone split: sum.splits)

lemma run_monotone: "invar s \<Longrightarrow> version s k = Some v \<Longrightarrow> \<exists>w \<ge> v. version (foldl (committed exec) s ops) k = Some w"
proof (induction ops arbitrary: s v)
  case (Cons op ops)
  from step_monotone [OF Cons.prems] obtain w where w: "v \<le> w" "version (committed exec s op) k = Some w" by blast
  from Cons.IH [OF step_invar [OF Cons.prems(1)] w(2)] obtain u where "w \<le> u" "version (foldl (committed exec) (committed exec s op) ops) k = Some u"
    by blast
  with w(1) show ?case by (auto intro: exI [of _ u])
qed simp

theorem version_spent_once:
  assumes "invar s" and "exec s op1 = Inr s'" and "expected op1 = Some v"
    and "expected op2 = Some v" and "target op2 = target op1"
  shows "\<not> is_ok (exec (foldl (committed exec) s' ops) op2)"
proof
  assume "is_ok (exec (foldl (committed exec) s' ops) op2)"
  then obtain s'' where ok: "exec (foldl (committed exec) s' ops) op2 = Inr s''" by (auto simp: is_ok_iff)
  have inv: "invar s'" using exec_invar [OF assms(1,2)] .
  from exec_bumps [OF assms(1-3)] obtain w where w: "v < w" "version s' (target op1) = Some w" by blast
  from run_monotone [OF inv w(2)] obtain u where "w \<le> u" "version (foldl (committed exec) s' ops) (target op1) = Some u" by blast
  moreover have "version (foldl (committed exec) s' ops) (target op1) = Some v"
    using exec_expected [OF run_invar [OF inv] ok assms(4)] assms(5) by simp
  ultimately show False using w(1) by simp
qed

end

end
