(* ===== verification/Outbound.thy ===== *)
theory Outbound
  imports Addresses Interfaces
begin

text \<open>
  The monthly reminder that the program sends by Gmail: \<open>previous_month_email\<close> of \<open>outbound.py\<close>,
  the \<open>outbound_sends\<close> and \<open>outbound_reservations\<close> tables of \<open>db.py\<close> with every operation on
  them, and the commands \<open>_send_hours\<close> and \<open>_outbound_resolve\<close> of \<open>cli.py\<close>. Gmail itself (the
  token and the send call) is an input of the command. The property to establish is that a month
  is mailed at most once unless an operator confirms that it was not.
\<close>

section \<open>The message of a month (outbound.py)\<close>

fun show_nat :: "nat \<Rightarrow> pystr" where
  "show_nat n = (if n < 10 then [48 + n] else show_nat (n div 10) @ [48 + n mod 10])"

declare show_nat.simps [simp del]

definition two_digits :: "nat \<Rightarrow> pystr" where
  "two_digits n = [48 + n div 10, 48 + n mod 10]"

definition MONTHS :: "string list" where
  "MONTHS = [''January'', ''February'', ''March'', ''April'', ''May'', ''June'', ''July'',
     ''August'', ''September'', ''October'', ''November'', ''December'']"

record monthly_email =
  period_key :: pystr
  me_subject :: pystr
  me_body :: pystr

text \<open>Only the year and the month of \<open>today\<close> are read; \<open>date\<close> refuses year 0.\<close>

definition previous_month :: "nat \<Rightarrow> nat \<Rightarrow> nat \<times> nat" where
  "previous_month year month = (if 1 < month then (year, month - 1) else (year - 1, 12))"

definition newline :: pystr where "newline = [10]"

definition previous_month_email :: "nat \<Rightarrow> nat \<Rightarrow> err + monthly_email" where
  "previous_month_email year month =
     (case previous_month year month of (py, pm) \<Rightarrow>
      if py < 1 then Inl (ValueError ''year 0 is out of range'')
      else
        (let period_label = lit (MONTHS ! (pm - 1)) @ [32] @ show_nat py in
         Inr \<lparr>period_key = show_nat py @ [45] @ two_digits pm,
              me_subject = lit ''Firefly Hours for '' @ period_label,
              me_body =
                lit ''Hi Maria,'' @ newline @ newline @
                lit ''I hope you're doing well. When you have a chance, could you please send me '' @
                lit ''the Firefly hours for '' @ period_label @
                lit ''? Once I receive them, I'll prepare '' @
                lit ''your invoice.'' @ newline @ newline @
                lit ''Thank you,'' @ newline @
                lit ''Juan Canfield'' @ newline @
                lit ''Effingham Office Maids'' @ newline\<rparr>))"

section \<open>The two tables (db.py)\<close>

record outbound_send =
  os_dedupe_key :: pystr
  os_recipient :: pystr
  os_subject :: pystr
  os_gmail_message_id :: pystr
  os_sent_at :: instant

datatype reservation_status = Reserved | Ambiguous

record outbound_reservation =
  or_dedupe_key :: pystr
  or_recipient :: pystr
  or_subject :: pystr
  or_status :: reservation_status
  or_reserved_at :: instant
  or_updated_at :: instant
  or_last_error :: "pystr option"

record outbound_store =
  outbound_sends :: "outbound_send list"
  outbound_reservations :: "outbound_reservation list"

datatype send_status = Status_sent | Status_reservation reservation_status

definition find_send :: "outbound_store \<Rightarrow> pystr \<Rightarrow> outbound_send option" where
  "find_send st key = List.find (\<lambda>r. os_dedupe_key r = key) (outbound_sends st)"

definition find_reservation :: "outbound_store \<Rightarrow> pystr \<Rightarrow> outbound_reservation option" where
  "find_reservation st key = List.find (\<lambda>r. or_dedupe_key r = key) (outbound_reservations st)"

definition outbound_status :: "outbound_store \<Rightarrow> pystr \<Rightarrow> send_status option" where
  "outbound_status st key =
     (case find_send st key of
        Some _ \<Rightarrow> Some Status_sent
      | None \<Rightarrow> (case find_reservation st key of
            Some r \<Rightarrow> Some (Status_reservation (or_status r))
          | None \<Rightarrow> None))"

definition outbound_was_sent :: "outbound_store \<Rightarrow> pystr \<Rightarrow> bool" where
  "outbound_was_sent st key \<longleftrightarrow> outbound_status st key = Some Status_sent"

text \<open>The columns of \<open>outbound_details\<close>, NULL where the branch of the union has none.\<close>

record outbound_detail =
  od_dedupe_key :: pystr
  od_recipient :: pystr
  od_subject :: pystr
  od_status :: send_status
  od_gmail_message_id :: "pystr option"
  od_reserved_at :: "instant option"
  od_updated_at :: instant
  od_last_error :: "pystr option"

definition outbound_details :: "outbound_store \<Rightarrow> pystr \<Rightarrow> outbound_detail option" where
  "outbound_details st key =
     (case find_send st key of
        Some r \<Rightarrow> Some
          \<lparr>od_dedupe_key = os_dedupe_key r, od_recipient = os_recipient r, od_subject = os_subject r,
           od_status = Status_sent, od_gmail_message_id = Some (os_gmail_message_id r),
           od_reserved_at = None, od_updated_at = os_sent_at r, od_last_error = None\<rparr>
      | None \<Rightarrow>
          (case find_reservation st key of
             Some r \<Rightarrow> Some
               \<lparr>od_dedupe_key = or_dedupe_key r, od_recipient = or_recipient r,
                od_subject = or_subject r, od_status = Status_reservation (or_status r),
                od_gmail_message_id = None, od_reserved_at = Some (or_reserved_at r),
                od_updated_at = or_updated_at r, od_last_error = or_last_error r\<rparr>
           | None \<Rightarrow> None))"

definition reserve_outbound ::
  "instant \<Rightarrow> outbound_store \<Rightarrow> pystr \<Rightarrow> pystr \<Rightarrow> pystr \<Rightarrow> outbound_store \<times> bool" where
  "reserve_outbound now st key recipient subject =
     (if find_send st key \<noteq> None then (st, False)
      else if find_reservation st key \<noteq> None then (st, False)
      else (st\<lparr>outbound_reservations := outbound_reservations st @
                 [\<lparr>or_dedupe_key = key, or_recipient = recipient, or_subject = subject,
                   or_status = Reserved, or_reserved_at = now, or_updated_at = now,
                   or_last_error = None\<rparr>]\<rparr>, True))"

definition mark_outbound_ambiguous ::
  "instant \<Rightarrow> outbound_store \<Rightarrow> pystr \<Rightarrow> pystr \<Rightarrow> err + outbound_store" where
  "mark_outbound_ambiguous now st key error =
     (let P = (\<lambda>r. or_dedupe_key r = key \<and> or_status r = Reserved) in
      if count_where P (outbound_reservations st) \<noteq> 1
      then Inl (RuntimeError ''Outbound reservation is not in the reserved state'')
      else Inr (st\<lparr>outbound_reservations :=
             update_where P (\<lambda>r. r\<lparr>or_status := Ambiguous, or_updated_at := now,
                                   or_last_error := Some (take 500 error)\<rparr>)
               (outbound_reservations st)\<rparr>))"

definition insert_send :: "outbound_send \<Rightarrow> outbound_store \<Rightarrow> err + outbound_store" where
  "insert_send row st =
     (if find_send st (os_dedupe_key row) \<noteq> None
      then Inl (IntegrityError ''UNIQUE constraint failed: outbound_sends.dedupe_key'')
      else Inr (st\<lparr>outbound_sends := outbound_sends st @ [row]\<rparr>))"

definition delete_reservation :: "pystr \<Rightarrow> outbound_store \<Rightarrow> outbound_store" where
  "delete_reservation key st =
     st\<lparr>outbound_reservations := delete_where (\<lambda>r. or_dedupe_key r = key) (outbound_reservations st)\<rparr>"

definition reconcile_outbound_sent ::
  "pyenv \<Rightarrow> instant \<Rightarrow> outbound_store \<Rightarrow> pystr \<Rightarrow> pystr \<Rightarrow> err + outbound_store" where
  "reconcile_outbound_sent env now st key gmail_message_id =
     (let message_id = strip env gmail_message_id in
      if message_id = [] then Inl (RuntimeError ''A non-empty Gmail message ID is required'')
      else (case find_send st key of
        Some completed \<Rightarrow>
          if os_gmail_message_id completed = message_id then Inr st
          else Inl (RuntimeError ''Completed outbound send has a different Gmail message ID'')
      | None \<Rightarrow>
          (case find_reservation st key of
             None \<Rightarrow> Inl (RuntimeError ''Outbound send has no unresolved reservation'')
           | Some reservation \<Rightarrow>
               (case insert_send
                       \<lparr>os_dedupe_key = key, os_recipient = or_recipient reservation,
                        os_subject = or_subject reservation, os_gmail_message_id = message_id,
                        os_sent_at = now\<rparr> st of
                  Inl e \<Rightarrow> Inl e
                | Inr st' \<Rightarrow> Inr (delete_reservation key st')))))"

definition release_outbound :: "outbound_store \<Rightarrow> pystr \<Rightarrow> err + outbound_store" where
  "release_outbound st key =
     (if find_send st key \<noteq> None
      then Inl (RuntimeError ''Cannot release a completed outbound send'')
      else if count_where (\<lambda>r. or_dedupe_key r = key) (outbound_reservations st) \<noteq> 1
      then Inl (RuntimeError ''Outbound send has no unresolved reservation'')
      else Inr (delete_reservation key st))"

definition record_outbound ::
  "instant \<Rightarrow> outbound_store \<Rightarrow> pystr \<Rightarrow> pystr \<Rightarrow> pystr \<Rightarrow> pystr \<Rightarrow> err + outbound_store" where
  "record_outbound now st key recipient subject gmail_message_id =
     (case find_reservation st key of
        None \<Rightarrow> Inl (RuntimeError ''Outbound send has no matching active reservation'')
      | Some r \<Rightarrow>
          if or_status r \<noteq> Reserved \<or> or_recipient r \<noteq> recipient \<or> or_subject r \<noteq> subject
          then Inl (RuntimeError ''Outbound send has no matching active reservation'')
          else (case insert_send
                  \<lparr>os_dedupe_key = key, os_recipient = recipient, os_subject = subject,
                   os_gmail_message_id = gmail_message_id, os_sent_at = now\<rparr> st of
              Inl e \<Rightarrow> Inl e
            | Inr st' \<Rightarrow> Inr (delete_reservation key st')))"

section \<open>The commands (cli.py)\<close>

text \<open>
  What \<open>_send_hours\<close> meets outside: the configured recipient, the date, whether the send token
  loads, and what Gmail answers to the send. An exception is carried by its type name, which is
  all the handler reads of it.
\<close>

record send_input =
  si_recipient :: "pystr option"
  si_test_to :: "pystr option"
  si_dry_run :: bool
  si_year :: nat
  si_month :: nat
  si_now :: instant
  si_token :: "err + unit"
  si_gmail :: "(pystr \<times> err) + pystr"

datatype send_output = Dry_run | Already_sent | Sent_ok

definition dedupe_key_of :: "monthly_email \<Rightarrow> pystr" where
  "dedupe_key_of content = lit ''monthly-hours:'' @ period_key content"

definition err_type_name :: "err \<Rightarrow> pystr" where
  "err_type_name e = (case e of IntegrityError _ \<Rightarrow> lit ''IntegrityError'' | _ \<Rightarrow> lit ''RuntimeError'')"

text \<open>
  The part of \<open>_send_hours\<close> under the lock for a production send: the store after the command,
  whether Gmail was called, and the command's result or exception.
\<close>

definition send_reserved ::
  "send_input \<Rightarrow> outbound_store \<Rightarrow> pystr \<Rightarrow> pystr \<Rightarrow> pystr \<Rightarrow> outbound_store \<times> bool \<times> (err + send_output)" where
  "send_reserved i st key recipient subject =
     (let fail = (\<lambda>st' name e.
            (case mark_outbound_ambiguous (si_now i) st' key name of
               Inl e' \<Rightarrow> (st', True, Inl e')
             | Inr st'' \<Rightarrow> (st'', True, Inl e))) in
      case si_gmail i of
        Inl (name, e) \<Rightarrow> fail st name e
      | Inr message_id \<Rightarrow>
          (case record_outbound (si_now i) st key recipient subject message_id of
             Inl e \<Rightarrow> fail st (err_type_name e) e
           | Inr st' \<Rightarrow> (st', True, Inr Sent_ok)))"

definition send_production ::
  "send_input \<Rightarrow> outbound_store \<Rightarrow> pystr \<Rightarrow> pystr \<Rightarrow> pystr \<Rightarrow> outbound_store \<times> bool \<times> (err + send_output)" where
  "send_production i st key recipient subject =
     (case outbound_status st key of
        Some Status_sent \<Rightarrow> (st, False, Inr Already_sent)
      | Some (Status_reservation _) \<Rightarrow>
          (st, False, Inl (SendError ''requires manual reconciliation''))
      | None \<Rightarrow>
          (case si_token i of
             Inl e \<Rightarrow> (st, False, Inl e)
           | Inr _ \<Rightarrow>
               (case reserve_outbound (si_now i) st key recipient subject of
                  (st', False) \<Rightarrow>
                    (if outbound_status st' key = Some Status_sent then (st', False, Inr Already_sent)
                     else (st', False, Inl (SendError ''requires manual reconciliation'')))
                | (st', True) \<Rightarrow> send_reserved i st' key recipient subject)))"

definition send_test :: "send_input \<Rightarrow> outbound_store \<Rightarrow> outbound_store \<times> bool \<times> (err + send_output)" where
  "send_test i st =
     (case si_token i of
        Inl e \<Rightarrow> (st, False, Inl e)
      | Inr _ \<Rightarrow> (case si_gmail i of
            Inl (_, e) \<Rightarrow> (st, True, Inl e)
          | Inr _ \<Rightarrow> (st, True, Inr Sent_ok)))"

text \<open>\<open>test_to or recipient\<close>: an empty \<open>test_to\<close> is no test.\<close>

definition is_test :: "send_input \<Rightarrow> bool" where
  "is_test i \<longleftrightarrow> (case si_test_to i of None \<Rightarrow> False | Some t \<Rightarrow> t \<noteq> [])"

definition send_hours :: "send_input \<Rightarrow> outbound_store \<Rightarrow> outbound_store \<times> bool \<times> (err + send_output)" where
  "send_hours i st =
     (let recipient = (if is_test i then si_test_to i else si_recipient i) in
      case recipient of
        None \<Rightarrow> (st, False, Inl (ValueError ''monthly_hours_recipient must be configured''))
      | Some r \<Rightarrow>
          if r = [] \<or> 64 \<notin> set r
          then (st, False, Inl (ValueError ''monthly_hours_recipient must be configured''))
          else (case previous_month_email (si_year i) (si_month i) of
              Inl e \<Rightarrow> (st, False, Inl e)
            | Inr content \<Rightarrow>
                if si_dry_run i then (st, False, Inr Dry_run)
                else if is_test i then send_test i st
                else send_production i st (dedupe_key_of content) r (me_subject content)))"

text \<open>\<open>_outbound_resolve\<close>: confirm a Gmail id, or confirm that nothing was sent.\<close>

definition outbound_resolve ::
  "pyenv \<Rightarrow> instant \<Rightarrow> outbound_store \<Rightarrow> pystr \<Rightarrow> pystr option \<Rightarrow> bool \<Rightarrow> err + outbound_store" where
  "outbound_resolve env now st key confirm_sent confirm_unsent =
     (if (confirm_sent \<noteq> None) = confirm_unsent
      then Inl (RuntimeError ''Exactly one outbound resolution confirmation is required'')
      else (case confirm_sent of
          Some i \<Rightarrow> reconcile_outbound_sent env now st key (strip env i)
        | None \<Rightarrow> release_outbound st key))"

section \<open>Histories of commands\<close>

datatype outbound_event =
    Ev_send send_input
  | Ev_resolve instant pystr "pystr option" bool

definition content_key :: "send_input \<Rightarrow> pystr" where
  "content_key i =
     (case previous_month_email (si_year i) (si_month i) of
        Inl _ \<Rightarrow> [] | Inr content \<Rightarrow> dedupe_key_of content)"

fun outbound_exec :: "pyenv \<Rightarrow> outbound_store \<Rightarrow> outbound_event \<Rightarrow> outbound_store" where
  "outbound_exec env st (Ev_send i) = fst (send_hours i st)"
| "outbound_exec env st (Ev_resolve now key confirm_sent confirm_unsent) =
     (case outbound_resolve env now st key confirm_sent confirm_unsent of
        Inl _ \<Rightarrow> st | Inr st' \<Rightarrow> st')"

text \<open>The key of a production send that reached Gmail.\<close>

fun outbound_attempt :: "outbound_store \<Rightarrow> outbound_event \<Rightarrow> pystr option" where
  "outbound_attempt st (Ev_send i) =
     (if \<not> is_test i \<and> fst (snd (send_hours i st)) then Some (content_key i) else None)"
| "outbound_attempt st (Ev_resolve now key confirm_sent confirm_unsent) = None"

fun outbound_releases :: "outbound_store \<Rightarrow> outbound_event \<Rightarrow> pystr \<Rightarrow> bool" where
  "outbound_releases st (Ev_send i) k = False"
| "outbound_releases st (Ev_resolve now key confirm_sent confirm_unsent) k =
     (k = key \<and> confirm_sent = None \<and> confirm_unsent \<and> is_ok (release_outbound st key))"

definition outbound_blocked :: "outbound_store \<Rightarrow> pystr \<Rightarrow> bool" where
  "outbound_blocked st key \<longleftrightarrow> outbound_status st key \<noteq> None"

lemma outbound_status_cong:
  "find_send st' k = find_send st k \<Longrightarrow> find_reservation st' k = find_reservation st k
   \<Longrightarrow> outbound_status st' k = outbound_status st k"
  unfolding outbound_status_def by (rule arg_cong2 [where f = "\<lambda>a b. case a of
      Some _ \<Rightarrow> Some Status_sent | None \<Rightarrow> (case b of Some r \<Rightarrow> Some (Status_reservation (or_status r)) | None \<Rightarrow> None)"])

lemma outbound_blocked_iff:
  "outbound_blocked st k \<longleftrightarrow> find_send st k \<noteq> None \<or> find_reservation st k \<noteq> None"
  by (auto simp: outbound_blocked_def outbound_status_def split: option.splits)

lemma find_send_add [simp]:
  "find_send (st\<lparr>outbound_sends := outbound_sends st @ [row]\<rparr>) k =
     (case find_send st k of None \<Rightarrow> if os_dedupe_key row = k then Some row else None | Some r \<Rightarrow> Some r)"
  by (simp add: find_send_def find_append_rows split: option.splits)

lemma find_send_reservations [simp]:
  "find_send (st\<lparr>outbound_reservations := rs\<rparr>) k = find_send st k"
  by (simp add: find_send_def)

lemma find_reservation_sends [simp]:
  "find_reservation (st\<lparr>outbound_sends := rs\<rparr>) k = find_reservation st k"
  by (simp add: find_reservation_def)

lemma find_send_delete [simp]: "find_send (delete_reservation j st) k = find_send st k"
  by (simp add: find_send_def delete_reservation_def)

lemma find_reservation_delete [simp]:
  "find_reservation (delete_reservation j st) k = (if k = j then None else find_reservation st k)"
  by (simp add: find_reservation_def delete_reservation_def find_key_delete)

lemma insert_send_find:
  assumes "insert_send row st = Inr st'"
  shows "find_send st' k = (if k = os_dedupe_key row then Some row else find_send st k)"
    and "find_reservation st' k = find_reservation st k"
  using assms by (auto simp: insert_send_def split: if_splits option.splits)

lemma insert_send_outcome:
  "(\<exists>st'. insert_send row st = Inr st') \<longleftrightarrow> find_send st (os_dedupe_key row) = None"
  by (auto simp: insert_send_def)

lemma reserve_outbound_refused:
  "outbound_blocked st key \<Longrightarrow> reserve_outbound now st key recipient subject = (st, False)"
  by (auto simp: reserve_outbound_def outbound_blocked_iff)

lemma reserve_outbound_ok:
  assumes "\<not> outbound_blocked st key" "reserve_outbound now st key recipient subject = (st', ok)"
  shows "ok" and "find_send st' k = find_send st k"
    and "find_reservation st' k = (if k = key
      then Some \<lparr>or_dedupe_key = key, or_recipient = recipient, or_subject = subject,
        or_status = Reserved, or_reserved_at = now, or_updated_at = now, or_last_error = None\<rparr>
      else find_reservation st k)"
    and "count_where (\<lambda>r. or_dedupe_key r = key \<and> or_status r = Reserved) (outbound_reservations st') = 1"
proof -
  have free: "find_send st key = None" "find_reservation st key = None"
    using assms(1) by (auto simp: outbound_blocked_iff)
  have none: "filter (\<lambda>r. or_dedupe_key r = key \<and> or_status r = Reserved) (outbound_reservations st) = []"
    using free(2) by (auto simp: find_reservation_def find_None_iff filter_empty_conv)
  show ok "find_send st' k = find_send st k"
    using assms(2) free by (auto simp: reserve_outbound_def)
  show "find_reservation st' k = (if k = key
      then Some \<lparr>or_dedupe_key = key, or_recipient = recipient, or_subject = subject,
        or_status = Reserved, or_reserved_at = now, or_updated_at = now, or_last_error = None\<rparr>
      else find_reservation st k)"
    using assms(2) free by (auto simp: reserve_outbound_def find_reservation_def find_append_rows
        split: option.splits)
  show "count_where (\<lambda>r. or_dedupe_key r = key \<and> or_status r = Reserved) (outbound_reservations st') = 1"
    using assms(2) free none by (auto simp: reserve_outbound_def count_where_def)
qed

lemma mark_outbound_ambiguous_find:
  assumes "mark_outbound_ambiguous now st key error = Inr st'"
  shows "find_send st' k = find_send st k"
    and "find_reservation st' k = map_option
      (\<lambda>r. if or_dedupe_key r = key \<and> or_status r = Reserved
           then r\<lparr>or_status := Ambiguous, or_updated_at := now, or_last_error := Some (take 500 error)\<rparr>
           else r) (find_reservation st k)"
  using assms
  by (auto simp: mark_outbound_ambiguous_def find_reservation_def Let_def find_key_update
      split: if_splits)

lemma send_reserved_outcome:
  assumes free: "\<not> outbound_blocked st0 key"
    and res: "reserve_outbound now st0 key recipient subject = (st, ok)"
    and out: "send_reserved i st key recipient subject = (st', called, r)"
  shows "called \<and> (\<forall>k. k \<noteq> key \<longrightarrow> outbound_status st' k = outbound_status st0 k) \<and>
    (r = Inr Sent_ok \<and> outbound_status st' key = Some Status_sent
     \<or> (\<exists>e. r = Inl e) \<and> outbound_status st' key = Some (Status_reservation Ambiguous))"
proof -
  note rc = reserve_outbound_ok [OF free res]
  obtain w where w: "find_reservation st key = Some w" "or_status w = Reserved"
    "or_recipient w = recipient" "or_subject w = subject" "find_send st key = None"
    using rc(2,3) [of key] free by (auto simp: outbound_blocked_iff)
  have wk: "or_dedupe_key w = key" using w(1) by (auto simp: find_reservation_def dest: find_key_Some)
  have other: "outbound_status st k = outbound_status st0 k" if "k \<noteq> key" for k
    unfolding outbound_status_def rc(2) [of k] rc(3) [of k] using that by simp
  show ?thesis
  proof (cases "si_gmail i")
    case (Inl a)
    obtain name e where a: "a = (name, e)" by (cases a)
    have "\<exists>st''. mark_outbound_ambiguous (si_now i) st key name = Inr st''"
      using rc(4) by (simp add: mark_outbound_ambiguous_def Let_def)
    then obtain st'' where m: "mark_outbound_ambiguous (si_now i) st key name = Inr st''" by blast
    note f = mark_outbound_ambiguous_find [OF m]
    have st': "st' = st'' \<and> called \<and> r = Inl e"
      using out Inl a m by (simp add: send_reserved_def Let_def)
    have keys: "find_reservation st k = Some r' \<Longrightarrow> or_dedupe_key r' = k" for k r'
      by (auto simp: find_reservation_def dest: find_key_Some)
    have "outbound_status st'' k = outbound_status st k" if "k \<noteq> key" for k
      using f [of k] keys [of k] that by (auto simp: outbound_status_def split: option.splits)
    then show ?thesis
      using st' other f [of key] w wk by (simp add: outbound_status_def)
  next
    case (Inr message_id)
    from w obtain st'' where ins: "insert_send \<lparr>os_dedupe_key = key, os_recipient = recipient,
        os_subject = subject, os_gmail_message_id = message_id, os_sent_at = si_now i\<rparr> st = Inr st''"
      using insert_send_outcome by fastforce
    note f = insert_send_find [OF ins]
    have "record_outbound (si_now i) st key recipient subject message_id = Inr (delete_reservation key st'')"
      using w ins by (simp add: record_outbound_def)
    then have "st' = delete_reservation key st'' \<and> called \<and> r = Inr Sent_ok"
      using out Inr by (simp add: send_reserved_def Let_def)
    moreover have "outbound_status (delete_reservation key st'') k = outbound_status st k" if "k \<noteq> key" for k
      using that by (intro outbound_status_cong) (simp_all add: f)
    moreover have "outbound_status (delete_reservation key st'') key = Some Status_sent"
      by (simp add: outbound_status_def f)
    ultimately show ?thesis using other by simp
  qed
qed

lemma send_production_cases:
  assumes "send_production i st key recipient subject = (st', called, r)"
  shows "(called \<longrightarrow> \<not> outbound_blocked st key \<and> outbound_blocked st' key
      \<and> (r = Inr Sent_ok \<and> outbound_status st' key = Some Status_sent
         \<or> (\<exists>e. r = Inl e) \<and> outbound_status st' key = Some (Status_reservation Ambiguous)))
    \<and> (\<not> called \<longrightarrow> st' = st) \<and> (\<forall>k. k \<noteq> key \<longrightarrow> outbound_status st' k = outbound_status st k)"
proof (cases "outbound_status st key = None \<and> is_ok (si_token i)")
  case False
  then show ?thesis
    using assms by (auto simp: send_production_def outbound_blocked_def
        split: option.splits send_status.splits sum.splits)
next
  case True
  obtain st1 ok where r: "reserve_outbound (si_now i) st key recipient subject = (st1, ok)"
    by (cases "reserve_outbound (si_now i) st key recipient subject")
  have free: "\<not> outbound_blocked st key" using True by (simp add: outbound_blocked_def)
  have ok: "ok = True" using reserve_outbound_ok(1) [OF free r] by simp
  have "send_reserved i st1 key recipient subject = (st', called, r)"
    using assms True r ok by (auto simp: send_production_def is_ok_iff)
  from send_reserved_outcome [OF free r this] free True show ?thesis
    by (auto simp: outbound_blocked_def)
qed

lemma send_hours_cases:
  assumes "send_hours i st = (st', called, r)" and "\<not> is_test i"
  shows "(called \<longrightarrow> \<not> outbound_blocked st (content_key i) \<and> outbound_blocked st' (content_key i)
      \<and> (r = Inr Sent_ok \<and> outbound_status st' (content_key i) = Some Status_sent
         \<or> (\<exists>e. r = Inl e) \<and> outbound_status st' (content_key i) = Some (Status_reservation Ambiguous)))
    \<and> (\<not> called \<longrightarrow> st' = st)
    \<and> (\<forall>k. k \<noteq> content_key i \<longrightarrow> outbound_status st' k = outbound_status st k)"
  using assms
  by (auto simp: send_hours_def content_key_def Let_def split: option.splits if_splits sum.splits
      dest!: send_production_cases)

lemma send_hours_test: "is_test i \<Longrightarrow> fst (send_hours i st) = st"
  by (auto simp: send_hours_def send_test_def Let_def split: option.splits sum.splits)

lemma outbound_resolve_status:
  assumes "outbound_resolve env now st key confirm_sent confirm_unsent = Inr st'"
  shows "(\<forall>k. k \<noteq> key \<longrightarrow> outbound_status st' k = outbound_status st k)
    \<and> (confirm_sent \<noteq> None \<longrightarrow> outbound_status st' key = Some Status_sent)
    \<and> (confirm_sent = None \<longrightarrow> confirm_unsent \<and> release_outbound st key = Inr st' \<and> outbound_status st' key = None)"
proof (cases confirm_sent)
  case None
  then have r: "release_outbound st key = Inr st'" "confirm_unsent"
    using assms by (auto simp: outbound_resolve_def split: if_splits)
  then have "st' = delete_reservation key st" "find_send st key = None"
    by (auto simp: release_outbound_def split: if_splits)
  moreover have "outbound_status (delete_reservation key st) k = outbound_status st k" if "k \<noteq> key" for k
    using that by (intro outbound_status_cong) simp_all
  moreover have "outbound_status (delete_reservation key st) key = None" if "find_send st key = None"
    using that by (simp add: outbound_status_def)
  ultimately show ?thesis using None r by simp
next
  case (Some i)
  then have "reconcile_outbound_sent env now st key (strip env i) = Inr st'"
    using assms by (auto simp: outbound_resolve_def split: if_splits)
  then consider "st' = st" "find_send st key \<noteq> None"
    | row st1 where "insert_send row st = Inr st1" "os_dedupe_key row = key" "st' = delete_reservation key st1"
    by (auto simp: reconcile_outbound_sent_def Let_def split: if_splits option.splits sum.splits)
  then show ?thesis
  proof cases
    case 1
    then show ?thesis using Some by (auto simp: outbound_status_def)
  next
    case 2
    note f = insert_send_find [OF 2(1)]
    have "outbound_status st' k = outbound_status st k" if "k \<noteq> key" for k
      using that 2 by (intro outbound_status_cong) (simp_all add: f)
    then show ?thesis using Some 2 f(1) [of key] by (simp add: outbound_status_def)
  qed
qed

interpretation og: once_guard "outbound_exec env" outbound_attempt outbound_releases outbound_blocked
  "\<lambda>_. True" for env
proof (rule once_guard.intro)
  fix s e k
  assume a: "outbound_attempt s e = Some k"
  then obtain i where e: "e = Ev_send i" "\<not> is_test i" "k = content_key i" "fst (snd (send_hours i s))"
    by (cases e) (auto split: if_splits)
  obtain s' r where "send_hours i s = (s', True, r)"
    using e(4) by (cases "send_hours i s") auto
  with send_hours_cases [OF this e(2)] e
  show "\<not> outbound_blocked s k" "outbound_blocked (outbound_exec env s e) k"
    by auto
next
  fix s e k
  assume b: "outbound_blocked s k" and n: "\<not> outbound_releases s e k"
  show "outbound_blocked (outbound_exec env s e) k"
  proof (cases e)
    case (Ev_send i)
    obtain s' c r where h: "send_hours i s = (s', c, r)" by (cases "send_hours i s") auto
    show ?thesis
      using b send_hours_test [of i s] send_hours_cases [OF h] Ev_send h
      by (cases "is_test i"; cases c; cases "k = content_key i") (auto simp: outbound_blocked_def)
  next
    case (Ev_resolve now key cs cu)
    show ?thesis
    proof (cases "outbound_resolve env now s key cs cu")
      case (Inr s')
      then show ?thesis
        using outbound_resolve_status [OF Inr] b n Ev_resolve
        by (cases "k = key"; cases cs) (auto simp: outbound_blocked_def)
    qed (use b Ev_resolve in simp)
  qed
qed

section \<open>The period key of a month\<close>

definition digits_value :: "nat list \<Rightarrow> nat" where
  "digits_value ds = foldl (\<lambda>a d. 10 * a + (d - 48)) 0 ds"

lemma digits_value_snoc: "digits_value (ds @ [d]) = 10 * digits_value ds + (d - 48)"
  by (simp add: digits_value_def)

lemma digits_value_show_nat: "digits_value (show_nat n) = n"
proof (induction n rule: show_nat.induct)
  case (1 n)
  show ?case
  proof (cases "n < 10")
    case True
    then show ?thesis by (subst show_nat.simps) (simp add: digits_value_def)
  next
    case False
    then show ?thesis using 1 by (subst show_nat.simps) (simp add: digits_value_snoc)
  qed
qed

lemma show_nat_inj [simp]: "show_nat m = show_nat n \<longleftrightarrow> m = n"
  by (metis digits_value_show_nat)

lemma two_digits_inj: "two_digits m = two_digits n \<Longrightarrow> m = n"
proof -
  assume "two_digits m = two_digits n"
  then have "m div 10 = n div 10" "m mod 10 = n mod 10" by (simp_all add: two_digits_def)
  then show "m = n" by (metis div_mult_mod_eq)
qed

lemma length_two_digits [simp]: "length (two_digits n) = 2"
  by (simp add: two_digits_def)

lemma previous_month_inj:
  assumes "previous_month y m = previous_month y' m'" and "m \<in> {1..12}" and "m' \<in> {1..12}"
    and "1 \<le> y" and "1 \<le> y'"
  shows "(y, m) = (y', m')"
  using assms by (auto simp: previous_month_def split: if_splits)

section \<open>The invariant of the two tables\<close>

text \<open>What the schema and the operations keep: one row per key in each table, never both.\<close>

definition outbound_invar :: "outbound_store \<Rightarrow> bool" where
  "outbound_invar st \<longleftrightarrow>
     distinct (map os_dedupe_key (outbound_sends st))
     \<and> distinct (map or_dedupe_key (outbound_reservations st))
     \<and> (\<forall>a\<in>set (outbound_sends st). \<forall>b\<in>set (outbound_reservations st).
           os_dedupe_key a \<noteq> or_dedupe_key b)"

lemma outbound_invarI_reservations:
  "outbound_invar st \<Longrightarrow> map or_dedupe_key rs = map or_dedupe_key (outbound_reservations st)
   \<Longrightarrow> outbound_invar (st\<lparr>outbound_reservations := rs\<rparr>)"
  by (simp add: outbound_invar_def) (metis image_iff image_set)

lemma reserve_outbound_invar:
  "outbound_invar st \<Longrightarrow> outbound_invar (fst (reserve_outbound now st key recipient subject))"
  by (auto simp: outbound_invar_def reserve_outbound_def find_send_def find_reservation_def
      find_key_None)

lemma mark_outbound_ambiguous_invar:
  "outbound_invar st \<Longrightarrow> mark_outbound_ambiguous now st key e = Inr st' \<Longrightarrow> outbound_invar st'"
  by (auto simp: mark_outbound_ambiguous_def Let_def map_update_where
      intro!: outbound_invarI_reservations split: if_splits)

lemma record_send_invar:
  "outbound_invar st \<Longrightarrow> insert_send row st = Inr st' \<Longrightarrow>
     outbound_invar (delete_reservation (os_dedupe_key row) st')"
  by (auto simp: outbound_invar_def insert_send_def delete_reservation_def find_send_def
      set_delete_where distinct_delete_where find_key_None split: if_splits)

lemma release_outbound_invar:
  "outbound_invar st \<Longrightarrow> release_outbound st key = Inr st' \<Longrightarrow> outbound_invar st'"
  by (auto simp: outbound_invar_def release_outbound_def delete_reservation_def set_delete_where
      distinct_delete_where split: if_splits)

lemma record_outbound_invar:
  "outbound_invar st \<Longrightarrow> record_outbound now st key recipient subject gid = Inr st' \<Longrightarrow> outbound_invar st'"
  by (auto simp: record_outbound_def split: option.splits if_splits sum.splits
      dest: record_send_invar)

lemma reconcile_outbound_sent_invar:
  "outbound_invar st \<Longrightarrow> reconcile_outbound_sent env now st key gid = Inr st' \<Longrightarrow> outbound_invar st'"
  by (auto simp: reconcile_outbound_sent_def Let_def split: option.splits if_splits sum.splits
      dest: record_send_invar)

lemma send_reserved_invar:
  "outbound_invar st \<Longrightarrow> outbound_invar (fst (send_reserved i st key recipient subject))"
  by (auto simp: send_reserved_def Let_def split: sum.splits prod.splits
      dest: record_outbound_invar mark_outbound_ambiguous_invar)

lemma send_production_invar:
  assumes "outbound_invar st"
  shows "outbound_invar (fst (send_production i st key recipient subject))"
  using assms reserve_outbound_invar [OF assms, of "si_now i" key recipient subject]
  by (auto simp: send_production_def send_reserved_invar split: option.splits send_status.splits
      sum.splits prod.splits bool.splits)

lemma send_hours_invar: "outbound_invar st \<Longrightarrow> outbound_invar (fst (send_hours i st))"
  by (auto simp: send_hours_def send_test_def Let_def send_production_invar
      split: option.splits sum.splits prod.splits)

section \<open>Properties\<close>

text \<open>The two outbound tables keep their invariant under every command, whatever Gmail
  answers: keys are unique in each table, and a month that is recorded as sent has no reservation.\<close>

theorem outbound_invar_preserved:
  "outbound_invar st \<Longrightarrow> outbound_invar (outbound_exec env st ev)"
  by (cases ev) (auto simp: send_hours_invar outbound_resolve_def split: sum.splits if_splits
      option.splits dest: reconcile_outbound_sent_invar release_outbound_invar)

definition example_send :: "(pystr \<times> err) + pystr \<Rightarrow> send_input" where
  "example_send answer = \<lparr>si_recipient = Some (lit ''m@x.org''), si_test_to = None, si_dry_run = False,
     si_year = 2025, si_month = 2, si_now = 5, si_token = Inr (), si_gmail = answer\<rparr>"

definition no_outbound :: outbound_store where
  "no_outbound = \<lparr>outbound_sends = [], outbound_reservations = []\<rparr>"

lemmas outbound_eval = example_send_def no_outbound_def send_hours_def send_production_def
  send_reserved_def record_outbound_def reserve_outbound_def mark_outbound_ambiguous_def
  outbound_status_def find_send_def find_reservation_def insert_send_def delete_reservation_def
  is_test_def outbound_resolve_def release_outbound_def content_key_def lit_def count_where_def
  update_where_def delete_where_def

lemma example_month: "\<exists>c. previous_month_email 2025 2 = Inr c"
  by (simp add: previous_month_email_def previous_month_def)

theorem outbound_invar_preserved_witness:
  "outbound_invar no_outbound \<and>
   outbound_invar (outbound_exec ascii_env no_outbound (Ev_send (example_send (Inr [97]))))"
proof -
  have "outbound_invar no_outbound" by (simp add: outbound_invar_def no_outbound_def)
  then show ?thesis using outbound_invar_preserved by blast
qed

text \<open>C27: in any history of commands, a month is mailed twice only if the operator released its
  key in between: two production sends of one key that both reached Gmail have a successful
  confirm-unsent resolution of that key between them.\<close>

theorem mailed_once_between_releases:
  assumes "outbound_attempt (foldl (outbound_exec env) st pre) e = Some k"
    and "outbound_attempt (foldl (outbound_exec env) st (pre @ e # mid)) f = Some k"
  shows "\<exists>before g after. mid = before @ g # after
     \<and> outbound_releases (foldl (outbound_exec env) st (pre @ e # before)) g k"
  by (rule og.once_between_releases [OF TrueI assms])

definition example_history :: "outbound_event list" where
  "example_history = [Ev_resolve 7 (content_key (example_send (Inr [97]))) None True]"

theorem mailed_once_between_releases_witness:
  "\<exists>before g after. example_history = before @ g # after
     \<and> outbound_releases (foldl (outbound_exec ascii_env) no_outbound
          ([] @ Ev_send (example_send (Inl ([97], SendError ''timeout''))) # before)) g
          (content_key (example_send (Inr [97])))"
proof -
  obtain c where c: "previous_month_email 2025 2 = Inr c" using example_month by blast
  show ?thesis
  proof (rule mailed_once_between_releases)
    show "outbound_attempt (foldl (outbound_exec ascii_env) no_outbound [])
      (Ev_send (example_send (Inl ([97], SendError ''timeout'')))) = Some (content_key (example_send (Inr [97])))"
      by (simp add: outbound_eval c example_history_def)
    show "outbound_attempt (foldl (outbound_exec ascii_env) no_outbound
      ([] @ Ev_send (example_send (Inl ([97], SendError ''timeout''))) # example_history))
      (Ev_send (example_send (Inr [97]))) = Some (content_key (example_send (Inr [97])))"
      by (simp add: outbound_eval c example_history_def)
  qed
qed

text \<open>Once a production send has called Gmail, the month is never free again by itself: the
  key was free before, and afterwards it is recorded as sent exactly when the command succeeds,
  and left ambiguous, for an operator to settle, when Gmail or the recording failed.\<close>

theorem send_hours_outcome:
  assumes "send_hours i st = (st', True, r)" and "\<not> is_test i"
  shows "outbound_status st (content_key i) = None
    \<and> (if is_ok r then r = Inr Sent_ok \<and> outbound_status st' (content_key i) = Some Status_sent
       else outbound_status st' (content_key i) = Some (Status_reservation Ambiguous))
    \<and> (\<forall>k. k \<noteq> content_key i \<longrightarrow> outbound_status st' k = outbound_status st k)"
  using send_hours_cases [OF assms] by (auto simp: outbound_blocked_def)

definition send_again :: "outbound_store \<times> bool \<times> (err + send_output)" where
  "send_again = send_hours (example_send (Inr [97])) no_outbound"

theorem send_hours_outcome_witness:
  "fst (snd send_again) \<and> outbound_status (fst send_again) (content_key (example_send (Inr [97]))) = Some Status_sent"
proof -
  obtain c where m: "previous_month_email 2025 2 = Inr c" using example_month by blast
  have c: "fst (snd send_again)" and ok: "is_ok (snd (snd send_again))" and t: "\<not> is_test (example_send (Inr [97]))"
    by (simp_all add: outbound_eval send_again_def m)
  obtain st' r where s: "send_again = (st', True, r)" using c by (metis (full_types) prod.collapse)
  show ?thesis
    using send_hours_outcome [OF s [unfolded send_again_def] t] ok unfolding s by auto
qed

text \<open>The dedupe key identifies the month: two dates in different months never share one.\<close>

theorem dedupe_key_identifies_month:
  assumes "previous_month_email y m = Inr c" and "previous_month_email y' m' = Inr c'"
    and "dedupe_key_of c = dedupe_key_of c'" and "m \<in> {1..12}" and "m' \<in> {1..12}"
  shows "(y, m) = (y', m')"
proof -
  obtain p q where p: "previous_month y m = (p, q)" by (cases "previous_month y m")
  obtain p' q' where p': "previous_month y' m' = (p', q')" by (cases "previous_month y' m'")
  have "show_nat p @ [45] @ two_digits q = show_nat p' @ [45] @ two_digits q'"
    using assms(1-3) p p' by (auto simp: previous_month_email_def dedupe_key_of_def Let_def split: if_splits)
  then have "show_nat p @ [45] = show_nat p' @ [45] \<and> two_digits q = two_digits q'"
    by (simp flip: append_assoc)
  then have "p = p'" "q = q'" by (auto dest: two_digits_inj)
  then have "previous_month y m = previous_month y' m'" using p p' by simp
  moreover have "1 \<le> y" "1 \<le> y'"
    using assms(1,2) by (auto simp: previous_month_email_def previous_month_def split: if_splits prod.splits)
  ultimately show ?thesis using previous_month_inj assms(4,5) by blast
qed

theorem dedupe_key_identifies_month_witness:
  "is_ok (previous_month_email 2025 1) \<and> map_sum id dedupe_key_of (previous_month_email 2025 1) = Inr (lit ''monthly-hours:2024-12'')
   \<and> map_sum id dedupe_key_of (previous_month_email 2025 1) \<noteq> map_sum id dedupe_key_of (previous_month_email 2026 1)"
proof -
  obtain c d where c: "previous_month_email 2025 1 = Inr c" "previous_month_email 2026 1 = Inr d"
    by (simp add: previous_month_email_def previous_month_def)
  have "dedupe_key_of c \<noteq> dedupe_key_of d"
    using dedupe_key_identifies_month [OF c] by auto
  moreover have "map_sum id dedupe_key_of (previous_month_email 2025 1) = Inr (lit ''monthly-hours:2024-12'')"
    by code_simp
  ultimately show ?thesis using c by simp
qed

end
