(* ===== verification/Connect_Store.thy ===== *)
theory Connect_Store
  imports Addresses Interfaces
begin

text \<open>
  The tables of \<open>db.py\<close> behind Connect jobs and automation fires: \<open>connect_attachment_jobs\<close>,
  \<open>connect_job_dispatch\<close>, \<open>automation_fires\<close>, their attempts, confirmations and source
  identities, the messages and attachments they belong to and the pending removals that withhold
  them; their CHECK constraints and delete triggers; and the eligibility rule of \<open>removal.py\<close>.

  Timestamps that only order rows are \<open>instant\<close>s: the program writes them with
  \<open>isoformat()\<close> in UTC, whose text order is the order of time. Columns the code parses again are
  \<open>iso\<close>. A trigger's \<open>strftime('now')\<close> is the argument \<open>clock\<close>.
\<close>

section \<open>Rows\<close>

datatype job_status = Requested | Accepted | Processing | Completed | Failed

datatype dispatch_state = Waiting | Dispatching | Reconciling | Provider_owned | Terminal

datatype fire_state =
    Pending_dispatch | Entitlement_paused | Awaiting_confirmation | Submitted
  | Fire_completed | Fire_failed | Declined | Manual_review | Source_unavailable

record connect_job =
  cj_job_id :: pystr
  cj_message_id :: pystr
  cj_part_id :: pystr
  cj_protocol_version :: nat
  cj_capability_id :: pystr
  cj_capability_version :: pystr
  cj_provider_app_id :: "pystr option"
  cj_provider_app_version :: "pystr option"
  cj_provider_instance_id :: "pystr option"
  cj_invocation_fingerprint :: pystr
  cj_input_artifact_id :: pystr
  cj_input_media_type :: pystr
  cj_input_byte_size :: int
  cj_input_sha256 :: pystr
  cj_input_display_name :: "pystr option"
  cj_source_app_id :: "pystr option"
  cj_request_json :: "bytes option"
  cj_status :: job_status
  cj_output_artifact_id :: "pystr option"
  cj_output_media_type :: "pystr option"
  cj_output_byte_size :: "int option"
  cj_output_sha256 :: "pystr option"
  cj_summary_version :: "pystr option"
  cj_summary_text :: "pystr option"
  cj_warnings_json :: "pystr option"
  cj_result_json :: "bytes option"
  cj_result_metadata_json :: "bytes option"
  cj_error_code :: "pystr option"
  cj_error_message :: "pystr option"
  cj_error_retryable :: "bool option"
  cj_created_at :: instant
  cj_updated_at :: instant

record connect_dispatch =
  cd_job_id :: pystr
  cd_state :: dispatch_state
  cd_attempt_count :: nat
  cd_reconciliation_failure_count :: nat
  cd_next_attempt_at :: "iso option"
  cd_admission_deadline :: iso
  cd_submission_possible :: bool
  cd_source_available :: bool
  cd_capability_external_effects :: bool
  cd_capability_confirmation_required :: bool
  cd_capability_authority_known :: bool
  cd_capability_produces_json :: pystr
  cd_required_manifest_features_json :: pystr
  cd_selection_json :: "pystr option"
  cd_interactive_authorized_at :: "instant option"
  cd_automation_paused_at :: "iso option"
  cd_highest_provider_state :: job_status
  cd_last_error_code :: "pystr option"
  cd_last_error_message :: "pystr option"
  cd_created_at :: instant
  cd_updated_at :: instant

record automation_fire =
  af_fire_id :: pystr
  af_event_id :: pystr
  af_rule_id :: pystr
  af_rule_version :: int
  af_message_id :: pystr
  af_part_id :: pystr
  af_state :: fire_state
  af_state_version :: int
  af_reason :: "pystr option"
  af_current_attempt_no :: int
  af_job_id :: "pystr option"
  af_prepared_identity_sha256 :: "pystr option"
  af_prepared_identity_json :: "bytes option"
  af_confirmed :: bool
  af_pending_since :: "iso option"
  af_authorized_pending_seconds :: int
  af_created_at :: instant
  af_updated_at :: instant

record fire_attempt =
  at_fire_id :: pystr
  at_attempt_no :: int
  at_dispatch_request_id :: pystr
  at_job_id :: "pystr option"
  at_created_at :: instant

record fire_confirmation =
  fc_fire_id :: pystr
  fc_prepared_identity_sha256 :: pystr
  fc_confirmed_at :: instant

record fire_source_identity =
  fs_fire_id :: pystr
  fs_message_id :: pystr
  fs_part_id :: pystr
  fs_provider :: pystr
  fs_account_id :: pystr
  fs_mailbox_identity_key :: pystr

text \<open>The columns of \<open>messages\<close> that these operations read.\<close>

record message_row =
  mg_message_id :: "pystr option"
  mg_provider :: pystr
  mg_account_id :: pystr
  mg_mailbox_identity_key :: "pystr option"
  mg_provider_message_id :: pystr

datatype removal_kind = Remove_delete | Remove_clear | Remove_unfollow
datatype removal_state = Removal_pending | Removal_completed

record removal_intent =
  ri_intent_id :: pystr
  ri_kind :: removal_kind
  ri_provider :: pystr
  ri_account_id :: pystr
  ri_mailbox_identity_key :: "pystr option"
  ri_state :: removal_state

record source_identity =
  si_provider :: pystr
  si_account_id :: pystr
  si_mailbox_identity_key :: "pystr option"
  si_provider_message_id :: pystr

record removal_target =
  rt_intent_id :: pystr
  rt_message_id :: pystr
  rt_provider :: pystr
  rt_account_id :: pystr
  rt_stored_identity_key :: "pystr option"
  rt_provider_message_id :: pystr
  rt_source_identities :: "source_identity list"
  rt_state :: removal_state

record removal_tables =
  rm_intents :: "removal_intent list"
  rm_targets :: "removal_target list"

text \<open>\<open>st_removal = None\<close> is a database without the removal schema.\<close>

record store =
  st_jobs :: "connect_job list"
  st_dispatch :: "connect_dispatch list"
  st_fires :: "automation_fire list"
  st_attempts :: "fire_attempt list"
  st_confirmations :: "fire_confirmation list"
  st_fire_sources :: "fire_source_identity list"
  st_messages :: "message_row list"
  st_attachments :: "(pystr \<times> pystr) list"
  st_removal :: "removal_tables option"

definition active_status :: "job_status \<Rightarrow> bool" where
  "active_status s \<longleftrightarrow> s \<in> {Requested, Accepted, Processing}"

definition in_flight :: "dispatch_state \<Rightarrow> bool" where
  "in_flight s \<longleftrightarrow> s \<in> {Dispatching, Reconciling, Provider_owned}"

definition linked_state :: "fire_state \<Rightarrow> bool" where
  "linked_state s \<longleftrightarrow> s \<in> {Submitted, Entitlement_paused}"

section \<open>CHECK constraints\<close>

definition no_outcome :: "connect_job \<Rightarrow> bool" where
  "no_outcome j \<longleftrightarrow> cj_output_artifact_id j = None \<and> cj_output_media_type j = None
     \<and> cj_output_byte_size j = None \<and> cj_output_sha256 j = None \<and> cj_summary_version j = None
     \<and> cj_summary_text j = None \<and> cj_warnings_json j = None \<and> cj_result_json j = None
     \<and> cj_result_metadata_json j = None"

definition no_error :: "connect_job \<Rightarrow> bool" where
  "no_error j \<longleftrightarrow> cj_error_code j = None \<and> cj_error_message j = None \<and> cj_error_retryable j = None"

definition v1_outcome :: "connect_job \<Rightarrow> bool" where
  "v1_outcome j \<longleftrightarrow> cj_output_artifact_id j \<noteq> None \<and> cj_output_media_type j \<noteq> None
     \<and> cj_output_byte_size j \<noteq> None \<and> cj_output_sha256 j \<noteq> None \<and> cj_summary_version j \<noteq> None
     \<and> (case cj_summary_text j of None \<Rightarrow> False | Some t \<Rightarrow> t \<noteq> []) \<and> cj_warnings_json j \<noteq> None
     \<and> cj_result_json j = None \<and> cj_result_metadata_json j = None"

definition v2_outcome :: "connect_job \<Rightarrow> bool" where
  "v2_outcome j \<longleftrightarrow> cj_output_artifact_id j = None \<and> cj_output_media_type j = None
     \<and> cj_output_byte_size j = None \<and> cj_output_sha256 j = None \<and> cj_summary_version j = None
     \<and> cj_summary_text j = None \<and> cj_warnings_json j = None
     \<and> cj_result_json j \<noteq> None \<and> cj_result_metadata_json j \<noteq> None"

definition connect_job_check :: "connect_job \<Rightarrow> bool" where
  "connect_job_check j \<longleftrightarrow>
     cj_protocol_version j \<in> {1, 2}
     \<and> (cj_protocol_version j = 1 \<and> cj_invocation_fingerprint j = lit ''v1''
        \<or> cj_protocol_version j = 2 \<and> length (cj_invocation_fingerprint j) = 64)
     \<and> (cj_protocol_version j = 1 \<and> 0 < cj_input_byte_size j
        \<or> cj_protocol_version j = 2 \<and> 0 \<le> cj_input_byte_size j)
     \<and> length (cj_input_sha256 j) = 64
     \<and> opt_all (\<lambda>r. 1 \<le> length r \<and> length r \<le> 131072) (cj_request_json j)
     \<and> opt_all (\<lambda>n. 0 < n) (cj_output_byte_size j)
     \<and> opt_all (\<lambda>s. length s = 64) (cj_output_sha256 j)
     \<and> opt_all (\<lambda>r. 1 \<le> length r \<and> length r \<le> 25165824) (cj_result_json j)
     \<and> opt_all (\<lambda>r. 1 \<le> length r \<and> length r \<le> 65536) (cj_result_metadata_json j)
     \<and> (cj_protocol_version j = 1
        \<or> cj_provider_app_id j \<noteq> None \<and> cj_provider_app_version j \<noteq> None
          \<and> cj_provider_instance_id j \<noteq> None
          \<and> (case cj_input_display_name j of None \<Rightarrow> False | Some n \<Rightarrow> n \<noteq> [])
          \<and> (case cj_source_app_id j of None \<Rightarrow> False | Some n \<Rightarrow> n \<noteq> []) \<and> cj_request_json j \<noteq> None)
     \<and> (case cj_status j of
          Completed \<Rightarrow> no_error j \<and> (if cj_protocol_version j = 1 then v1_outcome j else v2_outcome j)
        | Failed \<Rightarrow> cj_error_code j \<noteq> None \<and> cj_error_message j \<noteq> None \<and> cj_error_retryable j \<noteq> None
            \<and> no_outcome j
        | _ \<Rightarrow> no_outcome j \<and> no_error j)"

definition connect_dispatch_check :: "connect_dispatch \<Rightarrow> bool" where
  "connect_dispatch_check d \<longleftrightarrow>
     2 \<le> length (cd_capability_produces_json d) \<and> length (cd_capability_produces_json d) \<le> 4096
     \<and> 2 \<le> length (cd_required_manifest_features_json d)
     \<and> length (cd_required_manifest_features_json d) \<le> 256
     \<and> opt_all (\<lambda>s. 2 \<le> length s \<and> length s \<le> 65536) (cd_selection_json d)
     \<and> active_status (cd_highest_provider_state d)"

definition MAX_AUTOMATION_PREPARED_IDENTITY_BYTES :: nat where
  "MAX_AUTOMATION_PREPARED_IDENTITY_BYTES = 32 * 1024"

definition automation_fire_check :: "automation_fire \<Rightarrow> bool" where
  "automation_fire_check f \<longleftrightarrow>
     length (af_fire_id f) = 36 \<and> length (af_event_id f) = 64 \<and> length (af_rule_id f) = 36
     \<and> 1 \<le> af_rule_version f \<and> af_message_id f \<noteq> [] \<and> 1 \<le> af_state_version f
     \<and> opt_all (\<lambda>r. r \<noteq> [] \<and> length r \<le> 128) (af_reason f)
     \<and> af_current_attempt_no f \<in> {1, 2}
     \<and> opt_all (\<lambda>j. length j = 36) (af_job_id f)
     \<and> opt_all (\<lambda>s. length s = 64) (af_prepared_identity_sha256 f)
     \<and> opt_all (\<lambda>b. 2 \<le> length b \<and> length b \<le> MAX_AUTOMATION_PREPARED_IDENTITY_BYTES) (af_prepared_identity_json f)
     \<and> 0 \<le> af_authorized_pending_seconds f
     \<and> (af_prepared_identity_sha256 f = None \<longleftrightarrow> af_prepared_identity_json f = None)
     \<and> (af_state f = Submitted \<longrightarrow> af_job_id f \<noteq> None)"

section \<open>Eligibility of a message (removal.py)\<close>

definition target_covers :: "removal_intent \<Rightarrow> removal_target \<Rightarrow> message_row \<Rightarrow> bool" where
  "target_covers i t m \<longleftrightarrow>
     rt_provider t = mg_provider m \<and> rt_account_id t = mg_account_id m \<and>
     (mg_message_id m = Some (rt_message_id t) \<and> rt_stored_identity_key t = mg_mailbox_identity_key m
        \<and> rt_provider_message_id t = mg_provider_message_id m
      \<or> rt_provider_message_id t = mg_provider_message_id m
        \<and> ri_mailbox_identity_key i = mg_mailbox_identity_key m
      \<or> list_ex (\<lambda>s. si_provider s = mg_provider m \<and> si_account_id s = mg_account_id m
                   \<and> si_mailbox_identity_key s = mg_mailbox_identity_key m
                   \<and> si_provider_message_id s = mg_provider_message_id m) (rt_source_identities t))"

text \<open>\<open>available_sql\<close>; \<open>include_unfollow\<close> is the policy, true for \<open>CONTENT\<close>.\<close>

definition available :: "bool \<Rightarrow> removal_tables \<Rightarrow> message_row \<Rightarrow> bool" where
  "available include_unfollow rm m \<longleftrightarrow>
     \<not> list_ex (\<lambda>t. rt_state t = Removal_pending \<and>
         list_ex (\<lambda>i. ri_intent_id i = rt_intent_id t \<and> ri_state i = Removal_pending
             \<and> (include_unfollow \<or> ri_kind i \<in> {Remove_delete, Remove_clear})
             \<and> target_covers i t m) (rm_intents rm)) (rm_targets rm)"

record binding =
  b_provider :: pystr
  b_account_id :: pystr
  b_mailbox_identity_key :: pystr

definition live_rows :: "store \<Rightarrow> pystr \<Rightarrow> binding \<Rightarrow> message_row list" where
  "live_rows st message_id b =
     filter (\<lambda>m. mg_message_id m = Some message_id \<and> mg_provider m = b_provider b
       \<and> mg_account_id m = b_account_id b
       \<and> mg_mailbox_identity_key m = Some (b_mailbox_identity_key b)) (st_messages st)"

definition frozen_rows :: "store \<Rightarrow> removal_tables \<Rightarrow> pystr \<Rightarrow> binding \<Rightarrow> message_row list" where
  "frozen_rows st rm message_id b =
     (if live_rows st message_id b \<noteq> [] then []
      else [\<lparr>mg_message_id = Some (rt_message_id t), mg_provider = rt_provider t,
             mg_account_id = rt_account_id t, mg_mailbox_identity_key = rt_stored_identity_key t,
             mg_provider_message_id = rt_provider_message_id t\<rparr>.
           t \<leftarrow> rm_targets rm, i \<leftarrow> rm_intents rm,
           ri_intent_id i = rt_intent_id t \<and> rt_message_id t = message_id
           \<and> rt_provider t = b_provider b \<and> rt_account_id t = b_account_id b
           \<and> ri_mailbox_identity_key i = Some (b_mailbox_identity_key b)])"

definition retained_available :: "bool \<Rightarrow> store \<Rightarrow> removal_tables \<Rightarrow> pystr \<Rightarrow> binding \<Rightarrow> bool" where
  "retained_available include_unfollow st rm message_id b \<longleftrightarrow>
     list_all (available include_unfollow rm) (live_rows st message_id b @ frozen_rows st rm message_id b)"

definition message_available :: "bool \<Rightarrow> store \<Rightarrow> pystr \<Rightarrow> bool \<Rightarrow> binding list \<Rightarrow> bool" where
  "message_available include_unfollow st message_id require_source retained_bindings =
     (if (case st_removal st of
            None \<Rightarrow> False
          | Some rm \<Rightarrow>
              list_ex (\<lambda>b. \<not> retained_available include_unfollow st rm message_id b) retained_bindings)
      then False
      else (case List.find (\<lambda>m. mg_message_id m = Some message_id) (st_messages st) of
          Some m \<Rightarrow>
            if retained_bindings = [] \<or>
               list_ex (\<lambda>b. mg_provider m = b_provider b \<and> mg_account_id m = b_account_id b
                  \<and> mg_mailbox_identity_key m = Some (b_mailbox_identity_key b)) retained_bindings
            then (case st_removal st of None \<Rightarrow> True | Some rm \<Rightarrow> available include_unfollow rm m)
            else \<not> require_source
        | None \<Rightarrow> \<not> require_source))"

text \<open>\<open>removal.CONTENT.message_available(db, message_id)\<close>, the form the queue uses.\<close>

definition content_available :: "store \<Rightarrow> pystr \<Rightarrow> bool" where
  "content_available st message_id = message_available True st message_id True []"

definition find_job :: "store \<Rightarrow> pystr \<Rightarrow> connect_job option" where
  "find_job st job_id = List.find (\<lambda>j. cj_job_id j = job_id) (st_jobs st)"

definition find_dispatch :: "store \<Rightarrow> pystr \<Rightarrow> connect_dispatch option" where
  "find_dispatch st job_id = List.find (\<lambda>d. cd_job_id d = job_id) (st_dispatch st)"

definition find_fire :: "store \<Rightarrow> pystr \<Rightarrow> automation_fire option" where
  "find_fire st fire_id = List.find (\<lambda>f. af_fire_id f = fire_id) (st_fires st)"

definition connect_source_available :: "store \<Rightarrow> connect_job \<Rightarrow> bool" where
  "connect_source_available st job =
     message_available True st (cj_message_id job) False
       [\<lparr>b_provider = fs_provider s, b_account_id = fs_account_id s,
         b_mailbox_identity_key = fs_mailbox_identity_key s\<rparr>.
        s \<leftarrow> st_fire_sources st, f \<leftarrow> st_fires st,
        af_fire_id f = fs_fire_id s \<and> af_job_id f = Some (cj_job_id job)
        \<and> fs_message_id s = cj_message_id job \<and> fs_part_id s = cj_part_id job]"

definition read_connect_job :: "store \<Rightarrow> pystr \<Rightarrow> bool \<Rightarrow> connect_job option" where
  "read_connect_job st job_id source_start =
     (case find_job st job_id of
        None \<Rightarrow> None
      | Some job \<Rightarrow> if source_start \<and> \<not> connect_source_available st job then None else Some job)"

text \<open>\<open>connect_dispatch\<close>: the row, with \<open>source_available\<close> narrowed by eligibility.\<close>

definition dispatch_view :: "store \<Rightarrow> pystr \<Rightarrow> connect_dispatch \<Rightarrow> connect_dispatch" where
  "dispatch_view st message_id d =
     d\<lparr>cd_source_available := cd_source_available d \<and> content_available st message_id\<rparr>"

definition read_connect_dispatch :: "store \<Rightarrow> pystr \<Rightarrow> err + connect_dispatch option" where
  "read_connect_dispatch st job_id =
     (case find_dispatch st job_id of
        None \<Rightarrow> Inr None
      | Some d \<Rightarrow>
          (case find_job st job_id of
             None \<Rightarrow> Inl (RuntimeError ''Connect dispatch is missing its job'')
           | Some j \<Rightarrow> Inr (Some (dispatch_view st (cj_message_id j) d))))"

section \<open>Triggers\<close>

text \<open>
  \<open>connect_jobs_delete_linked_automation_fires\<close> settles the fires that wait for a deleted job;
  \<open>connect_jobs_delete_dispatch\<close> removes its dispatch row.
\<close>

definition settled_by_delete :: "instant \<Rightarrow> connect_job \<Rightarrow> automation_fire \<Rightarrow> automation_fire" where
  "settled_by_delete clock j f =
     f\<lparr>af_state := (case cj_status j of Completed \<Rightarrow> Fire_completed | Failed \<Rightarrow> Fire_failed
                      | _ \<Rightarrow> Source_unavailable),
       af_state_version := af_state_version f + 1,
       af_reason := Some (case cj_status j of
            Completed \<Rightarrow> lit ''connect_completed''
          | Failed \<Rightarrow> take 128 (case cj_error_code j of None \<Rightarrow> lit ''connect_failed'' | Some c \<Rightarrow> c)
          | _ \<Rightarrow> lit ''job_removed''),
       af_job_id := (if cj_status j \<in> {Completed, Failed} then Some (cj_job_id j) else None),
       af_pending_since := None, af_updated_at := clock\<rparr>"

definition delete_connect_job :: "instant \<Rightarrow> connect_job \<Rightarrow> store \<Rightarrow> err + store" where
  "delete_connect_job clock j st =
     andThen (checked_update automation_fire_check ''CHECK constraint failed: automation_fires''
         (\<lambda>f. af_job_id f = Some (cj_job_id j) \<and> linked_state (af_state f))
         (settled_by_delete clock j) (st_fires st))
       (\<lambda>fires. Inr (st\<lparr>st_jobs := delete_where (\<lambda>r. cj_job_id r = cj_job_id j) (st_jobs st),
          st_dispatch := delete_where (\<lambda>d. cd_job_id d = cj_job_id j) (st_dispatch st),
          st_fires := fires\<rparr>))"

fun delete_connect_jobs :: "instant \<Rightarrow> connect_job list \<Rightarrow> store \<Rightarrow> err + store" where
  "delete_connect_jobs clock [] st = Inr st"
| "delete_connect_jobs clock (j # js) st =
     andThen (delete_connect_job clock j st) (delete_connect_jobs clock js)"

definition delete_jobs_where :: "instant \<Rightarrow> (connect_job \<Rightarrow> bool) \<Rightarrow> store \<Rightarrow> err + store" where
  "delete_jobs_where clock P st = delete_connect_jobs clock (filter P (st_jobs st)) st"

section \<open>Updates of one table\<close>

definition update_fires ::
  "(automation_fire \<Rightarrow> bool) \<Rightarrow> (automation_fire \<Rightarrow> automation_fire) \<Rightarrow> store \<Rightarrow> err + store" where
  "update_fires P f st =
     andThen (checked_update automation_fire_check ''CHECK constraint failed: automation_fires'' P f (st_fires st))
       (\<lambda>rows. Inr (st\<lparr>st_fires := rows\<rparr>))"

definition update_jobs ::
  "(connect_job \<Rightarrow> bool) \<Rightarrow> (connect_job \<Rightarrow> connect_job) \<Rightarrow> store \<Rightarrow> err + store" where
  "update_jobs P f st =
     andThen (checked_update connect_job_check ''CHECK constraint failed: connect_attachment_jobs'' P f (st_jobs st))
       (\<lambda>rows. Inr (st\<lparr>st_jobs := rows\<rparr>))"

definition update_dispatch ::
  "(connect_dispatch \<Rightarrow> bool) \<Rightarrow> (connect_dispatch \<Rightarrow> connect_dispatch) \<Rightarrow> store \<Rightarrow> err + store" where
  "update_dispatch P f st =
     andThen (checked_update connect_dispatch_check ''CHECK constraint failed: connect_job_dispatch'' P f (st_dispatch st))
       (\<lambda>rows. Inr (st\<lparr>st_dispatch := rows\<rparr>))"

definition fire_attempt_check :: "fire_attempt \<Rightarrow> bool" where
  "fire_attempt_check a \<longleftrightarrow> length (at_fire_id a) = 36 \<and> at_attempt_no a \<in> {1, 2}
     \<and> length (at_dispatch_request_id a) = 36 \<and> opt_all (\<lambda>j. length j = 36) (at_job_id a)"

definition update_attempts ::
  "(fire_attempt \<Rightarrow> bool) \<Rightarrow> (fire_attempt \<Rightarrow> fire_attempt) \<Rightarrow> store \<Rightarrow> err + store" where
  "update_attempts P f st =
     andThen (checked_update fire_attempt_check ''CHECK constraint failed: automation_fire_attempts'' P f (st_attempts st))
       (\<lambda>rows. Inr (st\<lparr>st_attempts := rows\<rparr>))"

text \<open>\<open>datetime.fromisoformat\<close> and the check for a timezone that follows it.\<close>

fun parse_iso :: "iso \<Rightarrow> err + iso" where
  "parse_iso NotIso = Inl (ValueError ''Invalid isoformat string'')"
| "parse_iso t = Inr t"

fun with_zone :: "string \<Rightarrow> iso \<Rightarrow> err + instant" where
  "with_zone msg (Aware t) = Inr t"
| "with_zone msg t = Inl (RuntimeError msg)"

section \<open>Operations shared by the queue and the fires\<close>

definition resume_automation_dispatch :: "instant \<Rightarrow> pystr \<Rightarrow> store \<Rightarrow> err + store" where
  "resume_automation_dispatch now job_id st =
     andThen (the_row (RuntimeError ''Automation entitlement resume lost its Connect job'')
         (find_dispatch st job_id)) (\<lambda>d.
     (case cd_automation_paused_at d of
        None \<Rightarrow> Inr st
      | Some paused_at_value \<Rightarrow>
          andThen (parse_iso (cd_admission_deadline d)) (\<lambda>deadline_iso.
          andThen (parse_iso paused_at_value) (\<lambda>paused_iso.
          andThen (with_zone ''Connect admission deadline is missing its timezone'' deadline_iso) (\<lambda>deadline.
          andThen (with_zone ''Automation entitlement pause is missing its timezone'' paused_iso) (\<lambda>paused_at.
          (let paused_seconds = max 0 (whole_seconds (now - paused_at));
               P = (\<lambda>r. cd_job_id r = job_id \<and> cd_automation_paused_at r = Some paused_at_value) in
           andThen (require (count_where P (st_dispatch st) = 1)
               (RuntimeError ''Automation entitlement resume lost its pause interval'')) (\<lambda>_.
           update_dispatch P
             (\<lambda>r. r\<lparr>cd_admission_deadline := Aware (deadline + seconds paused_seconds),
                    cd_automation_paused_at := None, cd_updated_at := now\<rparr>) st))))))))"

definition pause_linked_automation_fires :: "instant \<Rightarrow> pystr \<Rightarrow> store \<Rightarrow> err + store" where
  "pause_linked_automation_fires now job_id st =
     update_fires (\<lambda>f. af_job_id f = Some job_id \<and> af_state f = Submitted)
       (\<lambda>f. f\<lparr>af_state := Entitlement_paused, af_state_version := af_state_version f + 1,
             af_reason := Some (lit ''entitlement_inactive''), af_pending_since := None,
             af_updated_at := now\<rparr>) st"

definition has_attempt :: "store \<Rightarrow> pystr \<Rightarrow> bool" where
  "has_attempt st job_id = exists_where (\<lambda>a. at_dispatch_request_id a = job_id) (st_attempts st)"

definition connect_job_requires_automation_entitlement :: "store \<Rightarrow> pystr \<Rightarrow> bool" where
  "connect_job_requires_automation_entitlement st job_id \<longleftrightarrow>
     has_attempt st job_id \<and>
     exists_where (\<lambda>d. cd_job_id d = job_id \<and> cd_interactive_authorized_at d = None) (st_dispatch st)"

section \<open>The source of a job goes away\<close>

text \<open>
  \<open>_AUTOMATION_SOURCE_BINDING_SQL\<close>: an attempt whose request may have reached the provider is
  bound to its job, and its fire becomes submitted, before the source disappears.
\<close>

definition provider_admitted :: "store \<Rightarrow> pystr \<Rightarrow> bool" where
  "provider_admitted st request_id \<longleftrightarrow>
     exists_where (\<lambda>j. cj_job_id j = request_id \<and> cj_protocol_version j = 2
       \<and> exists_where (\<lambda>d. cd_job_id d = cj_job_id j \<and> cd_capability_authority_known d
           \<and> \<not> (cd_state d = Waiting \<and> \<not> cd_submission_possible d)) (st_dispatch st)) (st_jobs st)"

definition bindable_state :: "fire_state \<Rightarrow> bool" where
  "bindable_state s \<longleftrightarrow> s \<in> {Pending_dispatch, Entitlement_paused}"

definition bound_attempt_job :: "store \<Rightarrow> automation_fire \<Rightarrow> pystr option" where
  "bound_attempt_job st f =
     (case List.find (\<lambda>a. at_fire_id a = af_fire_id f \<and> at_attempt_no a = af_current_attempt_no f)
        (st_attempts st) of
        None \<Rightarrow> None | Some a \<Rightarrow> at_job_id a)"

definition automation_source_binding :: "instant \<Rightarrow> pystr \<Rightarrow> store \<Rightarrow> err + store" where
  "automation_source_binding clock message_id st =
     andThen (update_attempts
         (\<lambda>a. at_job_id a = None
            \<and> exists_where (\<lambda>f. af_fire_id f = at_fire_id a \<and> af_message_id f = message_id
                 \<and> bindable_state (af_state f)) (st_fires st)
            \<and> provider_admitted st (at_dispatch_request_id a))
         (\<lambda>a. a\<lparr>at_job_id := Some (at_dispatch_request_id a)\<rparr>) st) (\<lambda>st.
     update_fires
       (\<lambda>f. af_message_id f = message_id \<and> bindable_state (af_state f) \<and> af_job_id f = None
          \<and> bound_attempt_job st f \<noteq> None)
       (\<lambda>f. f\<lparr>af_state := Submitted, af_state_version := af_state_version f + 1,
             af_reason := Some (lit ''source_removed_after_provider_admission''),
             af_job_id := bound_attempt_job st f, af_pending_since := None,
             af_updated_at := clock\<rparr>) st)"

text \<open>\<open>_CONNECT_SOURCE_INVALIDATION_SQL\<close>\<close>

definition kept_for_interactive_fire :: "store \<Rightarrow> connect_job \<Rightarrow> bool" where
  "kept_for_interactive_fire st j \<longleftrightarrow>
     exists_where (\<lambda>f. af_job_id f = Some (cj_job_id j) \<and> af_state f = Entitlement_paused) (st_fires st)
     \<and> (\<not> has_attempt st (cj_job_id j)
        \<or> exists_where (\<lambda>d. cd_job_id d = cj_job_id j \<and> cd_interactive_authorized_at d \<noteq> None)
            (st_dispatch st))"

definition has_linked_fire :: "store \<Rightarrow> pystr \<Rightarrow> bool" where
  "has_linked_fire st job_id =
     exists_where (\<lambda>f. af_job_id f = Some job_id \<and> linked_state (af_state f)) (st_fires st)"

definition CERTIFICATE_CAPABILITY_ID :: pystr where
  "CERTIFICATE_CAPABILITY_ID = lit ''certificate.extract''"

definition invalidated_job :: "store \<Rightarrow> pystr \<Rightarrow> connect_job \<Rightarrow> bool" where
  "invalidated_job st message_id j \<longleftrightarrow> cj_message_id j = message_id \<and>
     (cj_protocol_version j = 1
      \<or> \<not> active_status (cj_status j) \<and> \<not> kept_for_interactive_fire st j
        \<and> \<not> (cj_capability_id j = CERTIFICATE_CAPABILITY_ID \<and> has_linked_fire st (cj_job_id j))
      \<or> exists_where (\<lambda>d. cd_job_id d = cj_job_id j \<and> cd_state d = Waiting \<and> \<not> cd_submission_possible d)
          (st_dispatch st))"

definition connect_source_invalidation :: "instant \<Rightarrow> pystr \<Rightarrow> store \<Rightarrow> err + store" where
  "connect_source_invalidation clock message_id st =
     andThen (delete_jobs_where clock (invalidated_job st message_id) st) (\<lambda>st.
     update_dispatch
       (\<lambda>d. exists_where (\<lambda>j. cj_job_id j = cd_job_id d \<and> cj_message_id j = message_id) (st_jobs st))
       (\<lambda>d. d\<lparr>cd_source_available := False, cd_updated_at := clock\<rparr>) st)"

definition connect_source_unavailable :: "instant \<Rightarrow> pystr \<Rightarrow> store \<Rightarrow> err + store" where
  "connect_source_unavailable clock message_id st =
     andThen (automation_source_binding clock message_id st)
       (connect_source_invalidation clock message_id)"

text \<open>\<open>messages_delete_pending_automation_fires\<close>, before the message row goes.\<close>

definition dropped_fire :: "pystr \<Rightarrow> automation_fire \<Rightarrow> bool" where
  "dropped_fire message_id f \<longleftrightarrow> af_message_id f = message_id \<and>
     (af_state f \<in> {Pending_dispatch, Awaiting_confirmation}
      \<or> af_state f = Entitlement_paused \<and> af_job_id f = None)"

definition messages_delete_pending_automation_fires :: "instant \<Rightarrow> pystr \<Rightarrow> store \<Rightarrow> err + store" where
  "messages_delete_pending_automation_fires clock message_id st =
     andThen (automation_source_binding clock message_id st) (\<lambda>st.
     (let ids = map af_fire_id (filter (dropped_fire message_id) (st_fires st)) in
      Inr (st\<lparr>st_confirmations := delete_where (\<lambda>c. fc_fire_id c \<in> set ids) (st_confirmations st),
             st_attempts := delete_where (\<lambda>a. at_fire_id a \<in> set ids) (st_attempts st),
             st_fire_sources := delete_where (\<lambda>s. fs_fire_id s \<in> set ids) (st_fire_sources st),
             st_fires := delete_where (dropped_fire message_id) (st_fires st)\<rparr>)))"

end
