(* ===== verification/Fires.thy ===== *)
theory Fires
  imports Connect_Store
begin

text \<open>
  Automation fires: one row per rule version and attachment that matched, and the state machine
  that takes it from dispatch to a terminal state (the \<open>*_automation_fire\<close> operations of
  \<open>Store\<close> in \<open>db.py\<close>). Every write names the state and the version it read.
\<close>

section \<open>The transition table\<close>

definition AUTOMATION_FIRE_TRANSITIONS :: "(fire_state \<times> fire_state) list" where
  "AUTOMATION_FIRE_TRANSITIONS =
     [(Pending_dispatch, Entitlement_paused),
      (Pending_dispatch, Awaiting_confirmation),
      (Pending_dispatch, Submitted),
      (Pending_dispatch, Manual_review),
      (Pending_dispatch, Source_unavailable),
      (Entitlement_paused, Pending_dispatch),
      (Entitlement_paused, Submitted),
      (Entitlement_paused, Fire_completed),
      (Entitlement_paused, Fire_failed),
      (Entitlement_paused, Manual_review),
      (Entitlement_paused, Source_unavailable),
      (Awaiting_confirmation, Pending_dispatch),
      (Awaiting_confirmation, Declined),
      (Awaiting_confirmation, Manual_review),
      (Awaiting_confirmation, Source_unavailable),
      (Submitted, Fire_completed),
      (Submitted, Fire_failed),
      (Submitted, Entitlement_paused),
      (Submitted, Pending_dispatch),
      (Submitted, Manual_review),
      (Submitted, Source_unavailable)]"

definition AUTOMATION_FIRE_TERMINAL_STATES :: "fire_state set" where
  "AUTOMATION_FIRE_TERMINAL_STATES =
     {Fire_completed, Fire_failed, Declined, Manual_review, Source_unavailable}"

definition AUTOMATION_FIRE_MAX_ATTEMPTS :: int where
  "AUTOMATION_FIRE_MAX_ATTEMPTS = 2"

section \<open>Failures that may be retried\<close>

datatype retry_kind = Admission_deadline | Resource_busy

fun retry_kind_text :: "retry_kind \<Rightarrow> pystr" where
  "retry_kind_text Admission_deadline = lit ''admission_deadline''"
| "retry_kind_text Resource_busy = lit ''resource_busy''"

definition failure_retry_kind_of_code :: "pystr option \<Rightarrow> retry_kind option" where
  "failure_retry_kind_of_code code =
     (if code = Some (lit ''connect_queue_deadline_exceeded'') then Some Admission_deadline
      else if code = Some (lit ''PROVIDER_RESOURCE_BUSY'') then Some Resource_busy
      else None)"

definition automation_fire_retry_row ::
  "store \<Rightarrow> pystr \<Rightarrow> (automation_fire \<times> connect_job \<times> connect_dispatch) option" where
  "automation_fire_retry_row st fire_id =
     (case find_fire st fire_id of
        None \<Rightarrow> None
      | Some f \<Rightarrow>
          (case af_job_id f of
             None \<Rightarrow> None
           | Some job_id \<Rightarrow>
               (case (find_job st job_id, find_dispatch st job_id) of
                  (Some j, Some d) \<Rightarrow> Some (f, j, d)
                | _ \<Rightarrow> None)))"

definition automation_failure_retry_kind ::
  "(automation_fire \<times> connect_job \<times> connect_dispatch) option \<Rightarrow> retry_kind option" where
  "automation_failure_retry_kind row =
     (case row of
        None \<Rightarrow> None
      | Some (f, j, d) \<Rightarrow>
          if cj_status j \<noteq> Failed then None
          else (case failure_retry_kind_of_code (cj_error_code j) of
              Some Admission_deadline \<Rightarrow>
                if cd_highest_provider_state d = Requested then Some Admission_deadline else None
            | Some Resource_busy \<Rightarrow>
                if cj_error_retryable j = Some True \<and> cd_capability_authority_known d
                   \<and> \<not> cd_capability_external_effects d
                then Some Resource_busy else None
            | None \<Rightarrow> None))"

definition automation_fire_retry_kind :: "store \<Rightarrow> pystr \<Rightarrow> retry_kind option" where
  "automation_fire_retry_kind st fire_id =
     automation_failure_retry_kind (automation_fire_retry_row st fire_id)"

section \<open>Operations\<close>

definition touch_automation_fire ::
  "pystr \<Rightarrow> fire_state \<Rightarrow> int \<Rightarrow> instant \<Rightarrow> store \<Rightarrow> err + store \<times> bool" where
  "touch_automation_fire fire_id expected_state expected_version now st =
     andThen (require (1 \<le> expected_version \<and> expected_version \<le> 2 ^ 63 - 1)
         (ValueError ''Automation fire version is invalid'')) (\<lambda>_.
     (let P = (\<lambda>f. af_fire_id f = fire_id \<and> af_state f = expected_state
                 \<and> af_state_version f = expected_version) in
      andThen (update_fires P (\<lambda>f. f\<lparr>af_updated_at := now\<rparr>) st) (\<lambda>st'.
      Inr (st', count_where P (st_fires st) = 1))))"

definition automation_pending_seconds :: "automation_fire \<Rightarrow> instant \<Rightarrow> err + int" where
  "automation_pending_seconds f now =
     (if af_state f \<noteq> Pending_dispatch then Inr (af_authorized_pending_seconds f)
      else (case af_pending_since f of
          None \<Rightarrow> Inr (af_authorized_pending_seconds f)
        | Some since \<Rightarrow>
            andThen (parse_iso since) (\<lambda>t.
            andThen (with_zone ''Automation pending time is missing its timezone'' t) (\<lambda>started_at.
            Inr (af_authorized_pending_seconds f + max 0 (whole_seconds (now - started_at)))))))"

text \<open>
  The arguments of \<open>transition_automation_fire\<close>; the prepared identity is the text that
  \<open>json.dumps\<close> gives for it.
\<close>

record fire_transition =
  ft_fire_id :: pystr
  ft_expected_state :: fire_state
  ft_expected_version :: int
  ft_next_state :: fire_state
  ft_reason :: "pystr option"
  ft_job_id :: "pystr option"
  ft_prepared :: "pystr option"
  ft_confirmed :: "bool option"

definition prepare_identity :: "pyenv \<Rightarrow> pystr option \<Rightarrow> err + (bytes \<times> pystr) option" where
  "prepare_identity env prepared =
     (case prepared of
        None \<Rightarrow> Inr None
      | Some dumped \<Rightarrow>
          andThen (the_row UnicodeError (utf8_encode dumped)) (\<lambda>prepared_json.
          andThen (require (2 \<le> length prepared_json
                \<and> length prepared_json \<le> MAX_AUTOMATION_PREPARED_IDENTITY_BYTES)
              (ValueError ''Automation prepared identity is invalid'')) (\<lambda>_.
          Inr (Some (prepared_json, sha256 env prepared_json)))))"

definition check_transition_arguments :: "fire_transition \<Rightarrow> err + unit" where
  "check_transition_arguments t =
     andThen (require ((ft_expected_state t, ft_next_state t) \<in> set AUTOMATION_FIRE_TRANSITIONS)
         (ValueError ''Invalid automation fire transition'')) (\<lambda>_.
     andThen (require (1 \<le> ft_expected_version t) (ValueError ''Automation fire version is invalid'')) (\<lambda>_.
     andThen (require (case ft_reason t of None \<Rightarrow> True
                | Some r \<Rightarrow> r \<noteq> [] \<and> within_utf8_bytes r 128)
         (ValueError ''Automation fire reason is invalid'')) (\<lambda>_.
     require (case ft_job_id t of None \<Rightarrow> True | Some j \<Rightarrow> valid_uuid_v4 j)
       (ValueError ''Automation fire job identity is invalid''))))"

text \<open>Entering \<open>entitlement_paused\<close> with a job stops the job's admission clock.\<close>

definition pause_dispatch_for_fire :: "instant \<Rightarrow> fire_state \<Rightarrow> pystr option \<Rightarrow> store \<Rightarrow> err + store" where
  "pause_dispatch_for_fire now next_state next_job_id st =
     (case next_job_id of
        Some job_id \<Rightarrow>
          if next_state = Entitlement_paused then
            andThen (require (find_dispatch st job_id \<noteq> None)
                (RuntimeError ''Automation entitlement pause lost its Connect job'')) (\<lambda>_.
            if connect_job_requires_automation_entitlement st job_id
            then update_dispatch (\<lambda>d. cd_job_id d = job_id)
                   (\<lambda>d. d\<lparr>cd_automation_paused_at :=
                          (case cd_automation_paused_at d of None \<Rightarrow> Some (Aware now) | Some p \<Rightarrow> Some p)\<rparr>) st
            else Inr st)
          else Inr st
      | None \<Rightarrow> Inr st)"

text \<open>Entering \<open>submitted\<close> restarts the clock and binds the current attempt to the job.\<close>

definition bind_attempt :: "pystr \<Rightarrow> int \<Rightarrow> pystr \<Rightarrow> store \<Rightarrow> err + store" where
  "bind_attempt fire_id attempt_no job_id st =
     (let P = (\<lambda>a. at_fire_id a = fire_id \<and> at_attempt_no a = attempt_no \<and> at_job_id a = None) in
      andThen (update_attempts P (\<lambda>a. a\<lparr>at_job_id := Some job_id\<rparr>) st) (\<lambda>st'.
      andThen (require (count_where P (st_attempts st) = 1
            \<or> (case List.find (\<lambda>a. at_fire_id a = fire_id \<and> at_attempt_no a = attempt_no) (st_attempts st') of
                  None \<Rightarrow> False | Some bound \<Rightarrow> at_job_id bound = Some job_id))
          (RuntimeError ''Automation fire attempt job binding conflicted'')) (\<lambda>_.
      Inr st')))"

definition submit_dispatch_for_fire ::
  "instant \<Rightarrow> automation_fire \<Rightarrow> fire_state \<Rightarrow> pystr option \<Rightarrow> store \<Rightarrow> err + store" where
  "submit_dispatch_for_fire now current next_state next_job_id st =
     (case next_job_id of
        Some job_id \<Rightarrow>
          if next_state = Submitted then
            andThen (resume_automation_dispatch now job_id st)
              (bind_attempt (af_fire_id current) (af_current_attempt_no current) job_id)
          else Inr st
      | None \<Rightarrow> Inr st)"

definition discard_settled_job :: "instant \<Rightarrow> fire_state \<Rightarrow> pystr option \<Rightarrow> store \<Rightarrow> err + store" where
  "discard_settled_job clock next_state next_job_id st =
     (case next_job_id of
        Some job_id \<Rightarrow>
          if next_state \<in> {Fire_completed, Fire_failed} then
            delete_jobs_where clock
              (\<lambda>j. cj_job_id j = job_id \<and> cj_status j \<in> {Completed, Failed}
                 \<and> exists_where (\<lambda>d. cd_job_id d = cj_job_id j \<and> \<not> cd_source_available d) (st_dispatch st)
                 \<and> \<not> has_linked_fire st job_id) st
          else Inr st
      | None \<Rightarrow> Inr st)"

definition transition_automation_fire ::
  "pyenv \<Rightarrow> instant \<Rightarrow> instant \<Rightarrow> fire_transition \<Rightarrow> store \<Rightarrow> err + store \<times> automation_fire" where
  "transition_automation_fire env clock now t st =
     andThen (check_transition_arguments t) (\<lambda>_.
     andThen (prepare_identity env (ft_prepared t)) (\<lambda>prepared.
     andThen (the_row KeyError (find_fire st (ft_fire_id t))) (\<lambda>current.
     andThen (require (af_state current = ft_expected_state t
            \<and> af_state_version current = ft_expected_version t)
         (RuntimeError ''Automation fire transition lost its expected-state race'')) (\<lambda>_.
     andThen (if af_state current = Pending_dispatch \<and> ft_next_state t = Entitlement_paused
              then Inr (af_authorized_pending_seconds current)
              else automation_pending_seconds current now) (\<lambda>accumulated.
     (let next_job_id = (case ft_job_id t of None \<Rightarrow> af_job_id current | Some j \<Rightarrow> Some j);
          next_json = (case prepared of None \<Rightarrow> af_prepared_identity_json current | Some p \<Rightarrow> Some (fst p));
          next_sha256 = (case prepared of None \<Rightarrow> af_prepared_identity_sha256 current | Some p \<Rightarrow> Some (snd p));
          next_confirmed = (case ft_confirmed t of None \<Rightarrow> af_confirmed current | Some c \<Rightarrow> c);
          P = (\<lambda>f. af_fire_id f = ft_fire_id t \<and> af_state f = ft_expected_state t
                 \<and> af_state_version f = ft_expected_version t) in
      andThen (require (ft_next_state t = Submitted \<longrightarrow> next_job_id \<noteq> None)
          (ValueError ''Submitted automation fire requires a Connect job'')) (\<lambda>_.
      andThen (require (ft_next_state t = Awaiting_confirmation \<longrightarrow> next_json \<noteq> None)
          (ValueError ''Confirmation requires a prepared invocation identity'')) (\<lambda>_.
      andThen (pause_dispatch_for_fire now (ft_next_state t) next_job_id st) (\<lambda>st.
      andThen (submit_dispatch_for_fire now current (ft_next_state t) next_job_id st) (\<lambda>st.
      andThen (require (count_where P (st_fires st) = 1)
          (RuntimeError ''Automation fire transition lost its expected-state race'')) (\<lambda>_.
      andThen (update_fires P
          (\<lambda>f. f\<lparr>af_state := ft_next_state t, af_state_version := af_state_version f + 1,
                af_reason := ft_reason t, af_job_id := next_job_id,
                af_prepared_identity_sha256 := next_sha256, af_prepared_identity_json := next_json,
                af_confirmed := next_confirmed,
                af_pending_since := (if ft_next_state t = Pending_dispatch then Some (Aware now) else None),
                af_authorized_pending_seconds := accumulated, af_updated_at := now\<rparr>) st) (\<lambda>st.
      andThen (discard_settled_job clock (ft_next_state t) next_job_id st) (\<lambda>st.
      andThen (the_row (RuntimeError ''Automation fire disappeared after transition'')
          (find_fire st (ft_fire_id t))) (\<lambda>updated.
      Inr (st, updated)))))))))))))))"

definition fire_confirmation_check :: "fire_confirmation \<Rightarrow> bool" where
  "fire_confirmation_check c \<longleftrightarrow> length (fc_fire_id c) = 36 \<and> length (fc_prepared_identity_sha256 c) = 64"

definition insert_confirmation :: "fire_confirmation \<Rightarrow> store \<Rightarrow> err + store" where
  "insert_confirmation c st =
     andThen (checked_insert fire_confirmation_check fc_fire_id
         ''UNIQUE constraint failed: automation_fire_confirmations.fire_id'' c (st_confirmations st))
       (\<lambda>rows. Inr (st\<lparr>st_confirmations := rows\<rparr>))"

definition decide_automation_fire ::
  "instant \<Rightarrow> pystr \<Rightarrow> int \<Rightarrow> pystr \<Rightarrow> bool \<Rightarrow> store \<Rightarrow> err + store \<times> automation_fire" where
  "decide_automation_fire now fire_id expected_version prepared_identity_sha256 confirmed st =
     andThen (require (length prepared_identity_sha256 = 64 \<and> list_all is_hex prepared_identity_sha256)
         (ValueError ''Automation confirmation identity is invalid'')) (\<lambda>_.
     andThen (the_row KeyError (find_fire st fire_id)) (\<lambda>current.
     andThen (require (af_state current = Awaiting_confirmation
            \<and> af_state_version current = expected_version
            \<and> af_prepared_identity_sha256 current = Some prepared_identity_sha256)
         (RuntimeError ''Automation confirmation lost its expected-state race'')) (\<lambda>_.
     andThen (if confirmed
              then insert_confirmation \<lparr>fc_fire_id = fire_id,
                     fc_prepared_identity_sha256 = prepared_identity_sha256, fc_confirmed_at = now\<rparr> st
              else Inr st) (\<lambda>st.
     (let P = (\<lambda>f. af_fire_id f = fire_id \<and> af_state f = Awaiting_confirmation
                 \<and> af_state_version f = expected_version) in
      andThen (require (count_where P (st_fires st) = 1)
          (RuntimeError ''Automation confirmation lost its expected-state race'')) (\<lambda>_.
      andThen (update_fires P
          (\<lambda>f. f\<lparr>af_state := (if confirmed then Pending_dispatch else Declined),
                af_state_version := af_state_version f + 1,
                af_reason := (if confirmed then None else Some (lit ''declined_by_user'')),
                af_confirmed := confirmed,
                af_pending_since := (if confirmed then Some (Aware now) else None),
                af_updated_at := now\<rparr>) st) (\<lambda>st.
      andThen (the_row (RuntimeError ''Automation fire disappeared after confirmation'')
          (find_fire st fire_id)) (\<lambda>updated.
      Inr (st, updated)))))))))"

definition automation_confirmation_matches :: "store \<Rightarrow> automation_fire \<Rightarrow> bool" where
  "automation_confirmation_matches st f =
     (case af_prepared_identity_sha256 f of
        None \<Rightarrow> False
      | Some sha \<Rightarrow> af_confirmed f \<and>
          exists_where (\<lambda>c. fc_fire_id c = af_fire_id f \<and> fc_prepared_identity_sha256 c = sha)
            (st_confirmations st))"

definition automation_fires_linked_to_job :: "store \<Rightarrow> pystr \<Rightarrow> automation_fire list" where
  "automation_fires_linked_to_job st job_id =
     sort_key (\<lambda>f. (af_created_at f, af_fire_id f))
       (filter (\<lambda>f. af_job_id f = Some job_id \<and> linked_state (af_state f)) (st_fires st))"

definition pause_interactive_job_automation_fires :: "instant \<Rightarrow> pystr \<Rightarrow> store \<Rightarrow> err + store \<times> nat" where
  "pause_interactive_job_automation_fires now job_id st =
     (case (find_job st job_id, find_dispatch st job_id) of
        (Some j, Some d) \<Rightarrow>
          andThen (require (active_status (cj_status j))
              (RuntimeError ''Only active Connect jobs can pause joined automation fires'')) (\<lambda>_.
          andThen (require (\<not> (has_attempt st job_id \<and> cd_interactive_authorized_at d = None))
              (RuntimeError ''Automation-origin jobs require durable interactive authority'')) (\<lambda>_.
          andThen (pause_linked_automation_fires now job_id st) (\<lambda>st'.
          Inr (st', count_where (\<lambda>f. af_job_id f = Some job_id \<and> af_state f = Submitted) (st_fires st)))))
      | _ \<Rightarrow> Inl (RuntimeError ''Only active Connect jobs can pause joined automation fires''))"

definition authorize_connect_job_interactively :: "instant \<Rightarrow> pystr \<Rightarrow> store \<Rightarrow> err + store \<times> connect_job" where
  "authorize_connect_job_interactively now job_id st =
     (case (find_job st job_id, find_dispatch st job_id) of
        (Some j, Some d) \<Rightarrow>
          andThen (require (cj_protocol_version j = 2)
              (RuntimeError ''Only persisted Connect v2 jobs can be authorized interactively'')) (\<lambda>_.
          if cj_status j \<in> {Completed, Failed} then Inr (st, j)
          else
            andThen (update_dispatch (\<lambda>r. cd_job_id r = job_id)
                (\<lambda>r. r\<lparr>cd_interactive_authorized_at :=
                       (case cd_interactive_authorized_at r of None \<Rightarrow> Some now | Some t \<Rightarrow> Some t)\<rparr>) st) (\<lambda>st.
            andThen (resume_automation_dispatch now job_id st) (\<lambda>st.
            andThen (the_row (RuntimeError ''Connect v2 job disappeared after interactive authorization'')
                (find_job st job_id)) (\<lambda>updated.
            Inr (st, updated)))))
      | _ \<Rightarrow> Inl (RuntimeError ''Only persisted Connect v2 jobs can be authorized interactively''))"

definition fire_needs_settlement :: "store \<Rightarrow> automation_fire \<Rightarrow> bool" where
  "fire_needs_settlement st f =
     (case af_job_id f of
        None \<Rightarrow> False
      | Some job_id \<Rightarrow>
          linked_state (af_state f) \<and>
          (case find_job st job_id of
             None \<Rightarrow> True
           | Some j \<Rightarrow>
               cj_status j \<in> {Completed, Failed} \<and>
               (if af_state f = Entitlement_paused then
                  (if automation_failure_retry_kind (automation_fire_retry_row st (af_fire_id f)) \<noteq> None
                   then AUTOMATION_FIRE_MAX_ATTEMPTS \<le> af_current_attempt_no f
                   else \<not> ((case find_dispatch st job_id of None \<Rightarrow> False
                              | Some d \<Rightarrow> cd_interactive_authorized_at d \<noteq> None)
                            \<or> \<not> has_attempt st job_id))
                else True)))"

definition automation_fire_settlement_due :: "store \<Rightarrow> bool" where
  "automation_fire_settlement_due st = exists_where (fire_needs_settlement st) (st_fires st)"

definition resume_automation_fire_job ::
  "instant \<Rightarrow> pystr \<Rightarrow> int \<Rightarrow> store \<Rightarrow> err + store \<times> automation_fire" where
  "resume_automation_fire_job now fire_id expected_version st =
     andThen (the_row KeyError (find_fire st fire_id)) (\<lambda>current.
     andThen (require (af_state current = Entitlement_paused \<and> af_state_version current = expected_version)
         (RuntimeError ''Automation entitlement resume lost its expected-state race'')) (\<lambda>_.
     andThen (the_row (RuntimeError ''Automation entitlement resume lost its expected-state race'')
         (af_job_id current)) (\<lambda>job_id.
     andThen (resume_automation_dispatch now job_id st) (\<lambda>st.
     (let P = (\<lambda>f. af_fire_id f = fire_id \<and> af_state f = Entitlement_paused
                 \<and> af_state_version f = expected_version) in
      andThen (require (count_where P (st_fires st) = 1)
          (RuntimeError ''Automation entitlement resume lost its expected-state race'')) (\<lambda>_.
      andThen (update_fires P
          (\<lambda>f. f\<lparr>af_state := Submitted, af_state_version := af_state_version f + 1,
                af_reason := None, af_updated_at := now\<rparr>) st) (\<lambda>st.
      andThen (the_row (RuntimeError ''Automation fire disappeared after entitlement resume'')
          (find_fire st fire_id)) (\<lambda>updated.
      Inr (st, updated)))))))))"

text \<open>\<open>fresh\<close> is the identity that \<open>uuid.uuid4()\<close> returned.\<close>

definition insert_attempt :: "fire_attempt \<Rightarrow> store \<Rightarrow> err + store" where
  "insert_attempt a st =
     andThen (require (find_fire st (at_fire_id a) \<noteq> None)
         (IntegrityError ''automation fire attempt source is invalid'')) (\<lambda>_.
     andThen (require (at_dispatch_request_id a \<notin> set (map at_dispatch_request_id (st_attempts st)))
         (IntegrityError ''UNIQUE constraint failed: automation_fire_attempts.dispatch_request_id'')) (\<lambda>_.
     andThen (checked_insert fire_attempt_check (\<lambda>a. (at_fire_id a, at_attempt_no a))
         ''UNIQUE constraint failed: automation_fire_attempts'' a (st_attempts st)) (\<lambda>rows.
     Inr (st\<lparr>st_attempts := rows\<rparr>))))"

definition retry_automation_fire_after_failure ::
  "instant \<Rightarrow> pystr \<Rightarrow> pystr \<Rightarrow> int \<Rightarrow> store \<Rightarrow> err + store \<times> automation_fire" where
  "retry_automation_fire_after_failure now fresh fire_id expected_version st =
     andThen (the_row KeyError (automation_fire_retry_row st fire_id)) (\<lambda>row.
     (let current = fst row in
      andThen (the_row (RuntimeError ''Automation retry lacks authoritative recovery proof'')
          (automation_failure_retry_kind (Some row))) (\<lambda>kind.
      andThen (require (af_state current = Submitted \<and> af_state_version current = expected_version
             \<and> af_current_attempt_no current = 1)
          (RuntimeError ''Automation retry lacks authoritative recovery proof'')) (\<lambda>_.
      andThen (insert_attempt \<lparr>at_fire_id = fire_id, at_attempt_no = 2,
          at_dispatch_request_id = fresh, at_job_id = None, at_created_at = now\<rparr> st) (\<lambda>st.
      (let P = (\<lambda>f. af_fire_id f = fire_id \<and> af_state f = Submitted
                  \<and> af_state_version f = expected_version) in
       andThen (require (count_where P (st_fires st) = 1)
           (RuntimeError ''Automation retry lost its expected-state race'')) (\<lambda>_.
       andThen (update_fires P
           (\<lambda>f. f\<lparr>af_state := Pending_dispatch, af_state_version := af_state_version f + 1,
                 af_reason := Some (lit ''first_'' @ retry_kind_text kind),
                 af_current_attempt_no := 2, af_job_id := None, af_confirmed := False,
                 af_prepared_identity_sha256 := None, af_prepared_identity_json := None,
                 af_pending_since := Some (Aware now), af_authorized_pending_seconds := 0,
                 af_updated_at := now\<rparr>) st) (\<lambda>st.
       (let st = st\<lparr>st_confirmations := delete_where (\<lambda>c. fc_fire_id c = fire_id) (st_confirmations st)\<rparr> in
        andThen (the_row (RuntimeError ''Automation fire disappeared after retry'')
            (find_fire st fire_id)) (\<lambda>updated.
        Inr (st, updated)))))))))))"

section \<open>How a fire may evolve\<close>

text \<open>
  \<open>fire_le f f'\<close>: a fire keeps its identity, moves only along the transition table, never goes
  back in version or attempt, and changes its state only together with its version.
\<close>

definition fire_le :: "automation_fire \<Rightarrow> automation_fire \<Rightarrow> bool" where
  "fire_le f f' \<longleftrightarrow>
     af_fire_id f' = af_fire_id f \<and> af_event_id f' = af_event_id f \<and> af_rule_id f' = af_rule_id f
     \<and> af_rule_version f' = af_rule_version f \<and> af_message_id f' = af_message_id f
     \<and> af_part_id f' = af_part_id f
     \<and> af_state_version f \<le> af_state_version f'
     \<and> (af_state_version f' = af_state_version f \<longrightarrow> af_state f' = af_state f)
     \<and> (af_state f, af_state f') \<in> (set AUTOMATION_FIRE_TRANSITIONS)\<^sup>*
     \<and> af_current_attempt_no f \<le> af_current_attempt_no f'"

definition fires_ok :: "store \<Rightarrow> bool" where
  "fires_ok st \<longleftrightarrow>
     distinct (map af_fire_id (st_fires st)) \<and> list_all automation_fire_check (st_fires st)
     \<and> distinct (map (\<lambda>a. (at_fire_id a, at_attempt_no a)) (st_attempts st))
     \<and> distinct (map at_dispatch_request_id (st_attempts st))
     \<and> list_all fire_attempt_check (st_attempts st)
     \<and> distinct (map fc_fire_id (st_confirmations st))
     \<and> list_all fire_confirmation_check (st_confirmations st)"

definition fires_rel :: "store \<Rightarrow> store \<Rightarrow> bool" where
  "fires_rel st st' \<longleftrightarrow> list_all2 fire_le (st_fires st) (st_fires st') \<and> (fires_ok st \<longrightarrow> fires_ok st')"

lemma fire_le_refl [simp]: "fire_le f f"
  by (simp add: fire_le_def)

lemma fire_le_trans: "fire_le f g \<Longrightarrow> fire_le g h \<Longrightarrow> fire_le f h"
  by (auto simp: fire_le_def)

lemma fires_rel_refl [simp]: "fires_rel st st"
  by (simp add: fires_rel_def list_all2_refl)

lemma fires_rel_trans: "fires_rel a b \<Longrightarrow> fires_rel b c \<Longrightarrow> fires_rel a c"
  unfolding fires_rel_def using list_all2_trans [of fire_le fire_le fire_le] fire_le_trans by metis

lemma fire_le_moves:
  "(af_state f, af_state f') \<in> set AUTOMATION_FIRE_TRANSITIONS \<Longrightarrow> af_fire_id f' = af_fire_id f
   \<Longrightarrow> af_event_id f' = af_event_id f \<Longrightarrow> af_rule_id f' = af_rule_id f
   \<Longrightarrow> af_rule_version f' = af_rule_version f \<Longrightarrow> af_message_id f' = af_message_id f
   \<Longrightarrow> af_part_id f' = af_part_id f
   \<Longrightarrow> af_state_version f' = af_state_version f + 1
   \<Longrightarrow> af_current_attempt_no f \<le> af_current_attempt_no f' \<Longrightarrow> fire_le f f'"
  by (auto simp: fire_le_def)

lemma list_all2_update:
  "(\<And>f. f \<in> set rows \<Longrightarrow> P f \<Longrightarrow> R f (g f)) \<Longrightarrow> (\<And>f. R f f) \<Longrightarrow> list_all2 R rows (update_where P g rows)"
  by (induction rows) (auto simp: update_where_def)

lemma update_fires_rel:
  assumes "update_fires P g st = Inr st'"
    and le: "\<And>f. f \<in> set (st_fires st) \<Longrightarrow> P f \<Longrightarrow> fire_le f (g f)"
  shows "fires_rel st st'"
proof -
  have st': "st' = st\<lparr>st_fires := update_where P g (st_fires st)\<rparr>"
    and check: "\<forall>f\<in>set (st_fires st). P f \<longrightarrow> automation_fire_check (g f)"
    using assms(1) by (auto simp: update_fires_def res_splits)
  have ids: "map af_fire_id (update_where P g (st_fires st)) = map af_fire_id (st_fires st)"
    using le by (auto simp: update_where_def fire_le_def)
  have "list_all2 fire_le (st_fires st) (update_where P g (st_fires st))"
    using le by (intro list_all2_update) auto
  moreover have "list_all automation_fire_check (st_fires st) \<Longrightarrow>
      list_all automation_fire_check (update_where P g (st_fires st))"
    using check by (auto simp: list_all_iff set_update_where)
  ultimately show ?thesis
    by (simp add: fires_rel_def fires_ok_def st' ids del: map_map)
qed

lemma fires_rel_same:
  "st_fires st' = st_fires st \<Longrightarrow> st_attempts st' = st_attempts st
   \<Longrightarrow> st_confirmations st' = st_confirmations st \<Longrightarrow> fires_rel st st'"
  by (simp add: fires_rel_def fires_ok_def list_all2_refl)

lemma update_dispatch_frame:
  assumes "update_dispatch P g st = Inr st'"
  shows "st_fires st' = st_fires st" "st_attempts st' = st_attempts st"
    "st_confirmations st' = st_confirmations st" "st_jobs st' = st_jobs st"
    "st_dispatch st' = update_where P g (st_dispatch st)"
  using assms by (auto simp: update_dispatch_def res_splits)

lemma update_fires_frame:
  assumes "update_fires P g st = Inr st'"
  shows "st_fires st' = update_where P g (st_fires st)" "st_attempts st' = st_attempts st"
    "st_confirmations st' = st_confirmations st" "st_jobs st' = st_jobs st"
    "st_dispatch st' = st_dispatch st"
  using assms by (auto simp: update_fires_def res_splits)

lemma update_attempts_frame:
  assumes "update_attempts P g st = Inr st'"
  shows "st_fires st' = st_fires st" "st_attempts st' = update_where P g (st_attempts st)"
    "st_confirmations st' = st_confirmations st" "st_jobs st' = st_jobs st"
    "st_dispatch st' = st_dispatch st"
  using assms by (auto simp: update_attempts_def res_splits)

lemma resume_automation_dispatch_frame:
  assumes "resume_automation_dispatch now job_id st = Inr st'"
  shows "st_fires st' = st_fires st" "st_attempts st' = st_attempts st"
    "st_confirmations st' = st_confirmations st" "st_jobs st' = st_jobs st"
  using assms
  by (auto simp: resume_automation_dispatch_def res_splits Let_def update_dispatch_frame
      split: option.splits)

lemma pause_dispatch_for_fire_frame:
  assumes "pause_dispatch_for_fire now s jid st = Inr st'"
  shows "st_fires st' = st_fires st" "st_attempts st' = st_attempts st"
    "st_confirmations st' = st_confirmations st" "st_jobs st' = st_jobs st"
  using assms
  by (auto simp: pause_dispatch_for_fire_def res_splits update_dispatch_frame
      split: option.splits if_splits)

lemma update_attempts_rel:
  assumes "update_attempts P (\<lambda>a. a\<lparr>at_job_id := j a\<rparr>) st = Inr st'"
  shows "fires_rel st st'"
proof -
  have "list_all fire_attempt_check (st_attempts st) \<Longrightarrow> list_all fire_attempt_check (st_attempts st')"
    using assms by (auto simp: update_attempts_def res_splits list_all_iff set_update_where)
  moreover have "map (\<lambda>a. (at_fire_id a, at_attempt_no a)) (st_attempts st') = map (\<lambda>a. (at_fire_id a, at_attempt_no a)) (st_attempts st)"
    "map at_dispatch_request_id (st_attempts st') = map at_dispatch_request_id (st_attempts st)"
    unfolding update_attempts_frame [OF assms] by (rule map_update_where; simp)+
  ultimately show ?thesis
    by (simp add: fires_rel_def fires_ok_def update_attempts_frame(1,3) [OF assms] list_all2_refl del: map_map)
qed

lemma bind_attempt_rel: "bind_attempt fire_id n job_id st = Inr st' \<Longrightarrow> fires_rel st st' \<and> st_fires st' = st_fires st"
  by (auto simp: bind_attempt_def res_splits Let_def update_attempts_frame intro: update_attempts_rel)

lemma pause_linked_rel:
  "pause_linked_automation_fires now job_id st = Inr st' \<Longrightarrow> fires_rel st st'"
  unfolding pause_linked_automation_fires_def
  by (erule update_fires_rel) (auto intro!: fire_le_moves simp: AUTOMATION_FIRE_TRANSITIONS_def)

lemma settled_by_delete_le:
  "linked_state (af_state f) \<Longrightarrow> fire_le f (settled_by_delete clock j f)"
  by (rule fire_le_moves) (auto simp: settled_by_delete_def linked_state_def AUTOMATION_FIRE_TRANSITIONS_def
      split: job_status.splits)

lemma delete_connect_job_eq:
  "delete_connect_job clock j st =
     andThen (update_fires (\<lambda>f. af_job_id f = Some (cj_job_id j) \<and> linked_state (af_state f))
         (settled_by_delete clock j) st)
       (\<lambda>st'. Inr (st'\<lparr>st_jobs := delete_where (\<lambda>r. cj_job_id r = cj_job_id j) (st_jobs st),
          st_dispatch := delete_where (\<lambda>d. cd_job_id d = cj_job_id j) (st_dispatch st)\<rparr>))"
  by (auto simp: delete_connect_job_def update_fires_def checked_update_def)

lemma delete_connect_job_rel: 
  assumes "delete_connect_job clock j st = Inr st'"
  shows "fires_rel st st'"
proof -
  obtain st1 where u: "update_fires (\<lambda>f. af_job_id f = Some (cj_job_id j) \<and> linked_state (af_state f))
      (settled_by_delete clock j) st = Inr st1"
    and st': "st' = st1\<lparr>st_jobs := delete_where (\<lambda>r. cj_job_id r = cj_job_id j) (st_jobs st),
          st_dispatch := delete_where (\<lambda>d. cd_job_id d = cj_job_id j) (st_dispatch st)\<rparr>"
    using assms by (auto simp: delete_connect_job_eq res_splits)
  have "fires_rel st st1" using u by (rule update_fires_rel) (auto intro: settled_by_delete_le)
  moreover have "fires_rel st1 st'" using st' by (intro fires_rel_same) simp_all
  ultimately show ?thesis by (rule fires_rel_trans)
qed

lemma delete_connect_jobs_rel: "delete_connect_jobs clock js st = Inr st' \<Longrightarrow> fires_rel st st'"
  by (induction js arbitrary: st) (auto simp: res_splits intro: fires_rel_trans delete_connect_job_rel)

lemma delete_jobs_where_rel: "delete_jobs_where clock P st = Inr st' \<Longrightarrow> fires_rel st st'"
  by (auto simp: delete_jobs_where_def intro: delete_connect_jobs_rel)

lemma source_binding_rel:
  assumes "automation_source_binding clock mid st = Inr st'"
  shows "fires_rel st st'"
proof -
  obtain st1 where a: "update_attempts (\<lambda>a. at_job_id a = None
            \<and> exists_where (\<lambda>f. af_fire_id f = at_fire_id a \<and> af_message_id f = mid
                 \<and> bindable_state (af_state f)) (st_fires st)
            \<and> provider_admitted st (at_dispatch_request_id a))
         (\<lambda>a. a\<lparr>at_job_id := Some (at_dispatch_request_id a)\<rparr>) st = Inr st1"
    and u: "update_fires (\<lambda>f. af_message_id f = mid \<and> bindable_state (af_state f) \<and> af_job_id f = None
          \<and> bound_attempt_job st1 f \<noteq> None)
       (\<lambda>f. f\<lparr>af_state := Submitted, af_state_version := af_state_version f + 1,
             af_reason := Some (lit ''source_removed_after_provider_admission''),
             af_job_id := bound_attempt_job st1 f, af_pending_since := None,
             af_updated_at := clock\<rparr>) st1 = Inr st'"
    using assms by (auto simp: automation_source_binding_def res_splits)
  have "fires_rel st1 st'" using u
    by (rule update_fires_rel) (auto intro!: fire_le_moves simp: AUTOMATION_FIRE_TRANSITIONS_def bindable_state_def)
  with update_attempts_rel [OF a] show ?thesis by (rule fires_rel_trans)
qed

lemma source_unavailable_rel:
  assumes "connect_source_unavailable clock mid st = Inr st'"
  shows "fires_rel st st'"
proof -
  obtain st1 st2 P g where "automation_source_binding clock mid st = Inr st1"
    "delete_jobs_where clock (invalidated_job st1 mid) st1 = Inr st2"
    "update_dispatch P g st2 = Inr st'"
    using assms by (auto simp: connect_source_unavailable_def connect_source_invalidation_def res_splits)
  then show ?thesis
    by (meson fires_rel_trans source_binding_rel delete_jobs_where_rel fires_rel_same update_dispatch_frame)
qed

text \<open>A successful transition, stage by stage.\<close>

lemma transition_stages:
  assumes "transition_automation_fire env clock now t st = Inr (st', f')"
  obtains f nj js sh cf acc st1 st2 st3 where
    "(ft_expected_state t, ft_next_state t) \<in> set AUTOMATION_FIRE_TRANSITIONS"
    "find_fire st (ft_fire_id t) = Some f" "af_state f = ft_expected_state t"
    "af_state_version f = ft_expected_version t"
    "pause_dispatch_for_fire now (ft_next_state t) nj st = Inr st1"
    "submit_dispatch_for_fire now f (ft_next_state t) nj st1 = Inr st2"
    "update_fires (\<lambda>f. af_fire_id f = ft_fire_id t \<and> af_state f = ft_expected_state t
                 \<and> af_state_version f = ft_expected_version t)
          (\<lambda>f. f\<lparr>af_state := ft_next_state t, af_state_version := af_state_version f + 1,
                af_reason := ft_reason t, af_job_id := nj,
                af_prepared_identity_sha256 := sh, af_prepared_identity_json := js,
                af_confirmed := cf,
                af_pending_since := (if ft_next_state t = Pending_dispatch then Some (Aware now) else None),
                af_authorized_pending_seconds := acc, af_updated_at := now\<rparr>) st2 = Inr st3"
    "discard_settled_job clock (ft_next_state t) nj st3 = Inr st'"
    "find_fire st' (ft_fire_id t) = Some f'"
  using assms
  by (auto simp: transition_automation_fire_def res_splits Let_def check_transition_arguments_def)

lemma submit_dispatch_for_fire_rel:
  assumes "submit_dispatch_for_fire now f s nj st = Inr st'"
  shows "fires_rel st st'" "st_fires st' = st_fires st" "st_confirmations st' = st_confirmations st"
proof -
  consider "st' = st" | job_id st1 where "resume_automation_dispatch now job_id st = Inr st1"
      "bind_attempt (af_fire_id f) (af_current_attempt_no f) job_id st1 = Inr st'"
    using assms by (auto simp: submit_dispatch_for_fire_def res_splits split: option.splits if_splits)
  then have "fires_rel st st' \<and> st_fires st' = st_fires st \<and> st_confirmations st' = st_confirmations st"
  proof cases
    case 2
    note r = resume_automation_dispatch_frame [OF 2(1)] and b = bind_attempt_rel [OF 2(2)]
    have "st_confirmations st' = st_confirmations st1"
      using 2(2) by (auto simp: bind_attempt_def res_splits Let_def update_attempts_frame)
    with r b fires_rel_same [OF r(1-3)] fires_rel_trans show ?thesis by metis
  qed simp
  then show "fires_rel st st'" "st_fires st' = st_fires st" "st_confirmations st' = st_confirmations st"
    by simp_all
qed

lemma discard_settled_job_rel:
  "discard_settled_job clock s nj st = Inr st' \<Longrightarrow> fires_rel st st'"
  by (auto simp: discard_settled_job_def split: option.splits if_splits intro: delete_jobs_where_rel)

lemma transition_automation_fire_rel:
  assumes "transition_automation_fire env clock now t st = Inr (st', f')"
  shows "fires_rel st st'"
  using assms
proof (rule transition_stages)
  fix f nj js sh cf acc st1 st2 st3
  assume args: "(ft_expected_state t, ft_next_state t) \<in> set AUTOMATION_FIRE_TRANSITIONS"
    and p: "pause_dispatch_for_fire now (ft_next_state t) nj st = Inr st1"
    and s: "submit_dispatch_for_fire now f (ft_next_state t) nj st1 = Inr st2"
    and u: "update_fires (\<lambda>f. af_fire_id f = ft_fire_id t \<and> af_state f = ft_expected_state t
                 \<and> af_state_version f = ft_expected_version t)
          (\<lambda>f. f\<lparr>af_state := ft_next_state t, af_state_version := af_state_version f + 1,
                af_reason := ft_reason t, af_job_id := nj,
                af_prepared_identity_sha256 := sh, af_prepared_identity_json := js,
                af_confirmed := cf,
                af_pending_since := (if ft_next_state t = Pending_dispatch then Some (Aware now) else None),
                af_authorized_pending_seconds := acc, af_updated_at := now\<rparr>) st2 = Inr st3"
    and d: "discard_settled_job clock (ft_next_state t) nj st3 = Inr st'"
  have "fires_rel st st1" using pause_dispatch_for_fire_frame [OF p] by (intro fires_rel_same)
  moreover have "fires_rel st2 st3"
    using u by (rule update_fires_rel) (use args in \<open>auto intro!: fire_le_moves\<close>)
  ultimately show "fires_rel st st'"
    using submit_dispatch_for_fire_rel(1) [OF s] discard_settled_job_rel [OF d] by (meson fires_rel_trans)
qed

lemma insert_confirmation_rel:
  assumes "insert_confirmation c st = Inr st'"
  shows "fires_rel st st'"
  using assms by (auto simp: insert_confirmation_def res_splits fires_rel_def fires_ok_def list_all2_refl)

lemma decide_automation_fire_rel:
  assumes "decide_automation_fire now fid v sha confirmed st = Inr (st', f')"
  shows "fires_rel st st'"
proof -
  from assms obtain st1 r c w p where
    c: "(if confirmed then insert_confirmation \<lparr>fc_fire_id = fid, fc_prepared_identity_sha256 = sha,
           fc_confirmed_at = now\<rparr> st else Inr st) = Inr st1"
    and u: "update_fires (\<lambda>f. af_fire_id f = fid \<and> af_state f = Awaiting_confirmation \<and> af_state_version f = v)
          (\<lambda>f. f\<lparr>af_state := (if confirmed then Pending_dispatch else Declined),
                af_state_version := af_state_version f + 1, af_reason := r, af_confirmed := w,
                af_pending_since := p, af_updated_at := now\<rparr>) st1 = Inr st'"
    by (auto simp: decide_automation_fire_def res_splits Let_def)
  have "fires_rel st st1" using c insert_confirmation_rel by (auto split: if_splits)
  moreover have "fires_rel st1 st'"
    using u by (rule update_fires_rel) (auto intro!: fire_le_moves simp: AUTOMATION_FIRE_TRANSITIONS_def)
  ultimately show ?thesis by (rule fires_rel_trans)
qed

lemma pause_interactive_rel:
  "pause_interactive_job_automation_fires now job_id st = Inr (st', n) \<Longrightarrow> fires_rel st st'"
  by (auto simp: pause_interactive_job_automation_fires_def res_splits split: option.splits
      intro: pause_linked_rel)

lemma authorize_connect_job_frame:
  assumes "authorize_connect_job_interactively now job_id st = Inr (st', j)"
  shows "st_fires st' = st_fires st" "st_attempts st' = st_attempts st"
    "st_confirmations st' = st_confirmations st"
  using assms
  by (auto simp: authorize_connect_job_interactively_def res_splits update_dispatch_frame
      resume_automation_dispatch_frame split: option.splits if_splits)

lemma resume_automation_fire_rel:
  assumes "resume_automation_fire_job now fid v st = Inr (st', f')"
  shows "fires_rel st st'"
proof -
  from assms obtain job_id st1 where r: "resume_automation_dispatch now job_id st = Inr st1"
    and u: "update_fires (\<lambda>f. af_fire_id f = fid \<and> af_state f = Entitlement_paused \<and> af_state_version f = v)
          (\<lambda>f. f\<lparr>af_state := Submitted, af_state_version := af_state_version f + 1,
                af_reason := None, af_updated_at := now\<rparr>) st1 = Inr st'"
    by (auto simp: resume_automation_fire_job_def res_splits Let_def)
  have "fires_rel st st1" using resume_automation_dispatch_frame [OF r] by (intro fires_rel_same)
  moreover have "fires_rel st1 st'"
    using u by (rule update_fires_rel) (auto intro!: fire_le_moves simp: AUTOMATION_FIRE_TRANSITIONS_def)
  ultimately show ?thesis by (rule fires_rel_trans)
qed

lemma insert_attempt_rel:
  assumes "insert_attempt a st = Inr st'"
  shows "fires_rel st st'"
  using assms by (auto simp: insert_attempt_def res_splits fires_rel_def fires_ok_def list_all2_refl image_iff)

lemma fires_ok_attempt_bound: "fires_ok st \<Longrightarrow> f \<in> set (st_fires st) \<Longrightarrow> af_current_attempt_no f \<le> 2"
  by (auto simp: fires_ok_def list_all_iff automation_fire_check_def)

lemma fires_ok_confirmations:
  "fires_ok st \<Longrightarrow> fires_ok (st\<lparr>st_confirmations := delete_where P (st_confirmations st)\<rparr>)"
  by (auto simp: fires_ok_def distinct_delete_where list_all_iff set_delete_where)

lemma retry_automation_fire_rel:
  assumes "retry_automation_fire_after_failure now fresh fid v st = Inr (st', f')" and ok: "fires_ok st"
  shows "fires_rel st st'"
proof -
  from assms(1) obtain kind st1 st2 where
    a: "insert_attempt \<lparr>at_fire_id = fid, at_attempt_no = 2, at_dispatch_request_id = fresh,
          at_job_id = None, at_created_at = now\<rparr> st = Inr st1"
    and u: "update_fires (\<lambda>f. af_fire_id f = fid \<and> af_state f = Submitted \<and> af_state_version f = v)
           (\<lambda>f. f\<lparr>af_state := Pending_dispatch, af_state_version := af_state_version f + 1,
                 af_reason := Some (lit ''first_'' @ retry_kind_text kind),
                 af_current_attempt_no := 2, af_job_id := None, af_confirmed := False,
                 af_prepared_identity_sha256 := None, af_prepared_identity_json := None,
                 af_pending_since := Some (Aware now), af_authorized_pending_seconds := 0,
                 af_updated_at := now\<rparr>) st1 = Inr st2"
    and st': "st' = st2\<lparr>st_confirmations := delete_where (\<lambda>c. fc_fire_id c = fid) (st_confirmations st2)\<rparr>"
    by (auto simp: retry_automation_fire_after_failure_def res_splits Let_def)
  have 1: "fires_rel st st1" using a by (rule insert_attempt_rel)
  then have ok1: "fires_ok st1" using ok by (simp add: fires_rel_def)
  have 2: "fires_rel st1 st2"
    using u by (rule update_fires_rel)
      (auto intro!: fire_le_moves fires_ok_attempt_bound [OF ok1] simp: AUTOMATION_FIRE_TRANSITIONS_def)
  have "fires_rel st2 st'"
    using st' fires_ok_confirmations by (auto simp: fires_rel_def list_all2_refl)
  with 1 2 show ?thesis by (meson fires_rel_trans)
qed

section \<open>Histories of operations\<close>

datatype fire_op =
    Op_touch pystr fire_state int instant
  | Op_transition instant instant fire_transition
  | Op_decide instant pystr int pystr bool
  | Op_pause_interactive instant pystr
  | Op_authorize instant pystr
  | Op_resume instant pystr int
  | Op_retry instant pystr pystr int
  | Op_source_unavailable instant pystr

fun fire_exec :: "pyenv \<Rightarrow> store \<Rightarrow> fire_op \<Rightarrow> err + store" where
  "fire_exec env st (Op_touch fid s v now) = map_sum id fst (touch_automation_fire fid s v now st)"
| "fire_exec env st (Op_transition clock now t) = map_sum id fst (transition_automation_fire env clock now t st)"
| "fire_exec env st (Op_decide now fid v sha c) = map_sum id fst (decide_automation_fire now fid v sha c st)"
| "fire_exec env st (Op_pause_interactive now job_id) = map_sum id fst (pause_interactive_job_automation_fires now job_id st)"
| "fire_exec env st (Op_authorize now job_id) = map_sum id fst (authorize_connect_job_interactively now job_id st)"
| "fire_exec env st (Op_resume now fid v) = map_sum id fst (resume_automation_fire_job now fid v st)"
| "fire_exec env st (Op_retry now fresh fid v) = map_sum id fst (retry_automation_fire_after_failure now fresh fid v st)"
| "fire_exec env st (Op_source_unavailable clock mid) = connect_source_unavailable clock mid st"

lemma fire_exec_rel:
  assumes "fire_exec env st op = Inr st'" and "fires_ok st"
  shows "fires_rel st st'"
proof (cases op)
  case (Op_touch fid s v now)
  then show ?thesis
    using assms(1) by (auto simp: map_sum_fst_Inr touch_automation_fire_def res_splits Let_def fire_le_def
        intro: update_fires_rel)
qed (use assms in \<open>auto simp: map_sum_fst_Inr intro: transition_automation_fire_rel
  decide_automation_fire_rel pause_interactive_rel resume_automation_fire_rel retry_automation_fire_rel
  source_unavailable_rel fires_rel_same authorize_connect_job_frame\<close>)

lemma run_fires_rel:
  "fires_ok st \<Longrightarrow> fires_rel st (foldl (committed (fire_exec env)) st ops)"
proof (induction ops arbitrary: st)
  case (Cons op ops)
  have "fires_rel st (committed (fire_exec env) st op)"
    using Cons.prems by (auto simp: committed_def intro: fire_exec_rel split: sum.splits)
  moreover from this have "fires_ok (committed (fire_exec env) st op)"
    using Cons.prems by (simp add: fires_rel_def)
  ultimately show ?case using Cons.IH fires_rel_trans by fastforce
qed simp

lemma list_all2_find_fire:
  "list_all2 fire_le fs fs' \<Longrightarrow>
     rel_option fire_le (List.find (\<lambda>f. af_fire_id f = k) fs) (List.find (\<lambda>f. af_fire_id f = k) fs')"
  by (induction rule: list_all2_induct) (auto simp: fire_le_def)

lemma find_fire_rel:
  "fires_rel st st' \<Longrightarrow> find_fire st k = Some f \<Longrightarrow> \<exists>f'. find_fire st' k = Some f' \<and> fire_le f f'"
  using list_all2_find_fire [of "st_fires st" "st_fires st'" k]
  by (auto simp: fires_rel_def find_fire_def option_rel_Some1)

definition fire_version :: "store \<Rightarrow> pystr \<Rightarrow> int option" where
  "fire_version st k = map_option af_state_version (find_fire st k)"

fun fire_target :: "fire_op \<Rightarrow> pystr" where
  "fire_target (Op_transition clock now t) = ft_fire_id t"
| "fire_target (Op_decide now fid v sha c) = fid"
| "fire_target (Op_resume now fid v) = fid"
| "fire_target (Op_retry now fresh fid v) = fid"
| "fire_target _ = []"

fun fire_expected :: "fire_op \<Rightarrow> int option" where
  "fire_expected (Op_transition clock now t) = Some (ft_expected_version t)"
| "fire_expected (Op_decide now fid v sha c) = Some v"
| "fire_expected (Op_resume now fid v) = Some v"
| "fire_expected (Op_retry now fresh fid v) = Some v"
| "fire_expected _ = None"

lemma update_fires_find:
  assumes "update_fires P g st = Inr st'" and "find_fire st k = Some f" and "P f"
    and "\<And>x. P x \<Longrightarrow> af_fire_id (g x) = af_fire_id x"
  shows "find_fire st' k = Some (g f)"
  using assms unfolding find_fire_def by (simp add: update_fires_frame find_key_update)

lemma find_fire_cong: "st_fires st = st_fires st' \<Longrightarrow> find_fire st k = find_fire st' k"
  by (simp add: find_fire_def)

lemma find_fire_id: "find_fire st k = Some f \<Longrightarrow> af_fire_id f = k"
  by (auto simp: find_fire_def dest: find_key_Some)

text \<open>What a successful transition did to its fire, up to the settled job it may discard.\<close>

lemma transition_automation_fire_steps:
  assumes "transition_automation_fire env clock now t st = Inr (st', f')"
  shows "\<exists>f g st2. find_fire st (ft_fire_id t) = Some f \<and> af_state f = ft_expected_state t
    \<and> af_state_version f = ft_expected_version t
    \<and> find_fire st2 (ft_fire_id t) = Some g \<and> af_state g = ft_next_state t
    \<and> af_state_version g = ft_expected_version t + 1
    \<and> fires_rel st2 st' \<and> find_fire st' (ft_fire_id t) = Some f'"
  using assms
proof (rule transition_stages)
  fix f nj js sh cf acc st1 st2 st3
  assume f: "find_fire st (ft_fire_id t) = Some f" "af_state f = ft_expected_state t"
       "af_state_version f = ft_expected_version t"
    and p: "pause_dispatch_for_fire now (ft_next_state t) nj st = Inr st1"
    and s: "submit_dispatch_for_fire now f (ft_next_state t) nj st1 = Inr st2"
    and u: "update_fires (\<lambda>f. af_fire_id f = ft_fire_id t \<and> af_state f = ft_expected_state t
                 \<and> af_state_version f = ft_expected_version t)
          (\<lambda>f. f\<lparr>af_state := ft_next_state t, af_state_version := af_state_version f + 1,
                af_reason := ft_reason t, af_job_id := nj,
                af_prepared_identity_sha256 := sh, af_prepared_identity_json := js,
                af_confirmed := cf,
                af_pending_since := (if ft_next_state t = Pending_dispatch then Some (Aware now) else None),
                af_authorized_pending_seconds := acc, af_updated_at := now\<rparr>) st2 = Inr st3"
    and d: "discard_settled_job clock (ft_next_state t) nj st3 = Inr st'"
    and r: "find_fire st' (ft_fire_id t) = Some f'"
  have "find_fire st2 (ft_fire_id t) = Some f"
    using f(1) pause_dispatch_for_fire_frame(1) [OF p] submit_dispatch_for_fire_rel(2) [OF s] find_fire_cong by metis
  from update_fires_find [OF u this] f find_fire_id [OF f(1)]
  have "\<exists>g. find_fire st3 (ft_fire_id t) = Some g \<and> af_state g = ft_next_state t
       \<and> af_state_version g = ft_expected_version t + 1" by simp
  with f r discard_settled_job_rel [OF d] show ?thesis by blast
qed

lemma decide_automation_fire_steps:
  assumes "decide_automation_fire now fid v sha confirmed st = Inr (st', f')"
  shows "\<exists>f. find_fire st fid = Some f \<and> af_state f = Awaiting_confirmation \<and> af_state_version f = v
      \<and> af_prepared_identity_sha256 f = Some sha
      \<and> find_fire st' fid = Some f' \<and> af_state_version f' = v + 1
      \<and> af_state f' = (if confirmed then Pending_dispatch else Declined)
      \<and> af_confirmed f' = confirmed \<and> af_prepared_identity_sha256 f' = Some sha"
proof -
  from assms obtain f st1 where
    f: "find_fire st fid = Some f" "af_state f = Awaiting_confirmation" "af_state_version f = v"
       "af_prepared_identity_sha256 f = Some sha"
    and c: "(if confirmed then insert_confirmation \<lparr>fc_fire_id = fid, fc_prepared_identity_sha256 = sha,
           fc_confirmed_at = now\<rparr> st else Inr st) = Inr st1"
    and u: "update_fires (\<lambda>f. af_fire_id f = fid \<and> af_state f = Awaiting_confirmation \<and> af_state_version f = v)
          (\<lambda>f. f\<lparr>af_state := (if confirmed then Pending_dispatch else Declined),
                af_state_version := af_state_version f + 1,
                af_reason := (if confirmed then None else Some (lit ''declined_by_user'')),
                af_confirmed := confirmed,
                af_pending_since := (if confirmed then Some (Aware now) else None),
                af_updated_at := now\<rparr>) st1 = Inr st'"
    and r: "find_fire st' fid = Some f'"
    by (auto simp: decide_automation_fire_def res_splits Let_def)
  have "st_fires st1 = st_fires st" using c by (auto simp: insert_confirmation_def res_splits split: if_splits)
  then have "find_fire st1 fid = Some f" using f(1) find_fire_cong by metis
  from update_fires_find [OF u this] f find_fire_id [OF f(1)] r show ?thesis by auto
qed

lemma resume_automation_fire_steps:
  assumes "resume_automation_fire_job now fid v st = Inr (st', f')"
  shows "\<exists>f. find_fire st fid = Some f \<and> af_state_version f = v
      \<and> find_fire st' fid = Some f' \<and> af_state_version f' = v + 1 \<and> af_state f' = Submitted"
proof -
  from assms obtain f job_id st1 where
    f: "find_fire st fid = Some f" "af_state f = Entitlement_paused" "af_state_version f = v"
    and r: "resume_automation_dispatch now job_id st = Inr st1"
    and u: "update_fires (\<lambda>f. af_fire_id f = fid \<and> af_state f = Entitlement_paused \<and> af_state_version f = v)
          (\<lambda>f. f\<lparr>af_state := Submitted, af_state_version := af_state_version f + 1,
                af_reason := None, af_updated_at := now\<rparr>) st1 = Inr st'"
    and f': "find_fire st' fid = Some f'"
    by (auto simp: resume_automation_fire_job_def res_splits Let_def)
  have "find_fire st1 fid = Some f" using f(1) resume_automation_dispatch_frame(1) [OF r] find_fire_cong by metis
  from update_fires_find [OF u this] f find_fire_id [OF f(1)] f' show ?thesis by auto
qed

lemma retry_automation_fire_steps:
  assumes "retry_automation_fire_after_failure now fresh fid v st = Inr (st', f')"
  shows "\<exists>f j d kind. automation_fire_retry_row st fid = Some (f, j, d)
      \<and> automation_failure_retry_kind (Some (f, j, d)) = Some kind
      \<and> find_fire st fid = Some f \<and> af_state f = Submitted \<and> af_state_version f = v
      \<and> af_current_attempt_no f = 1
      \<and> find_fire st' fid = Some f' \<and> af_state_version f' = v + 1 \<and> af_state f' = Pending_dispatch
      \<and> af_current_attempt_no f' = 2 \<and> \<not> af_confirmed f' \<and> af_job_id f' = None
      \<and> fresh \<notin> at_dispatch_request_id ` set (st_attempts st)"
proof -
  from assms obtain f j d kind st1 st2 where
    row: "automation_fire_retry_row st fid = Some (f, j, d)"
    and k: "automation_failure_retry_kind (Some (f, j, d)) = Some kind"
    and f: "af_state f = Submitted" "af_state_version f = v" "af_current_attempt_no f = 1"
    and a: "insert_attempt \<lparr>at_fire_id = fid, at_attempt_no = 2, at_dispatch_request_id = fresh,
          at_job_id = None, at_created_at = now\<rparr> st = Inr st1"
    and u: "update_fires (\<lambda>f. af_fire_id f = fid \<and> af_state f = Submitted \<and> af_state_version f = v)
           (\<lambda>f. f\<lparr>af_state := Pending_dispatch, af_state_version := af_state_version f + 1,
                 af_reason := Some (lit ''first_'' @ retry_kind_text kind),
                 af_current_attempt_no := 2, af_job_id := None, af_confirmed := False,
                 af_prepared_identity_sha256 := None, af_prepared_identity_json := None,
                 af_pending_since := Some (Aware now), af_authorized_pending_seconds := 0,
                 af_updated_at := now\<rparr>) st1 = Inr st2"
    and f': "find_fire st' fid = Some f'" "st_fires st' = st_fires st2"
    by (fastforce simp: retry_automation_fire_after_failure_def res_splits Let_def)
  have ff: "find_fire st fid = Some f"
    using row by (auto simp: automation_fire_retry_row_def split: option.splits)
  have "st_fires st1 = st_fires st" and fr: "fresh \<notin> at_dispatch_request_id ` set (st_attempts st)"
    using a by (auto simp: insert_attempt_def res_splits)
  then have "find_fire st1 fid = Some f" using ff find_fire_cong by metis
  from update_fires_find [OF u this] f find_fire_id [OF ff] f' find_fire_cong [of st' st2]
  show ?thesis using row k ff fr by auto
qed

interpretation fv: versioned fire_version "fire_exec env" fire_target fire_expected fires_ok
  for env
proof
  fix s op s' v
  assume inv: "fires_ok s" and ex: "fire_exec env s op = Inr s'" and e: "fire_expected op = Some v"
  show "fire_version s (fire_target op) = Some v"
    using ex e
    by (cases op) (auto simp: map_sum_fst_Inr fire_version_def dest!: transition_automation_fire_steps
        dest: decide_automation_fire_steps resume_automation_fire_steps retry_automation_fire_steps)
next
  fix s op s' v
  assume inv: "fires_ok s" and ex: "fire_exec env s op = Inr s'" and e: "fire_expected op = Some v"
  show "\<exists>w>v. fire_version s' (fire_target op) = Some w"
  proof (cases op)
    case (Op_transition clock now t)
    with ex obtain f' where "transition_automation_fire env clock now t s = Inr (s', f')"
      by (auto simp: map_sum_fst_Inr)
    then obtain s2 g where "fires_rel s2 s'" "find_fire s2 (ft_fire_id t) = Some g"
      "af_state_version g = ft_expected_version t + 1"
      by (auto dest!: transition_automation_fire_steps)
    with find_fire_rel [of s2 s'] e Op_transition show ?thesis
      by (fastforce simp: fire_version_def fire_le_def)
  qed (use ex e in \<open>auto simp: map_sum_fst_Inr fire_version_def
    dest: decide_automation_fire_steps resume_automation_fire_steps retry_automation_fire_steps\<close>)
next
  fix s op s' k v
  assume "fires_ok s" "fire_exec env s op = Inr s'" "fire_version s k = Some v"
  then show "\<exists>w\<ge>v. fire_version s' k = Some w"
    using find_fire_rel [OF fire_exec_rel] by (fastforce simp: fire_version_def fire_le_def)
next
  fix s op s'
  assume "fires_ok s" "fire_exec env s op = Inr s'"
  then show "fires_ok s'" using fire_exec_rel fires_rel_def by blast
qed

section \<open>Where confirmations come from\<close>

lemma delete_connect_jobs_confirmations:
  "delete_connect_jobs clock js st = Inr st' \<Longrightarrow>
     st_confirmations st' = st_confirmations st \<and> st_attempts st' = st_attempts st"
  by (induction js arbitrary: st) (auto simp: res_splits delete_connect_job_def)

lemma transition_confirmations:
  assumes "transition_automation_fire env clock now t st = Inr (st', f')"
  shows "st_confirmations st' = st_confirmations st"
  using assms
proof (rule transition_stages)
  fix f nj js sh cf acc st1 st2 st3
  assume "pause_dispatch_for_fire now (ft_next_state t) nj st = Inr st1"
    and "submit_dispatch_for_fire now f (ft_next_state t) nj st1 = Inr st2"
    and "update_fires (\<lambda>f. af_fire_id f = ft_fire_id t \<and> af_state f = ft_expected_state t
                 \<and> af_state_version f = ft_expected_version t)
          (\<lambda>f. f\<lparr>af_state := ft_next_state t, af_state_version := af_state_version f + 1,
                af_reason := ft_reason t, af_job_id := nj,
                af_prepared_identity_sha256 := sh, af_prepared_identity_json := js,
                af_confirmed := cf,
                af_pending_since := (if ft_next_state t = Pending_dispatch then Some (Aware now) else None),
                af_authorized_pending_seconds := acc, af_updated_at := now\<rparr>) st2 = Inr st3"
    and d: "discard_settled_job clock (ft_next_state t) nj st3 = Inr st'"
  note pause_dispatch_for_fire_frame(3) [OF this(1)] submit_dispatch_for_fire_rel(3) [OF this(2)]
    update_fires_frame(3) [OF this(3)]
  moreover have "st_confirmations st' = st_confirmations st3"
    using d by (auto simp: discard_settled_job_def delete_jobs_where_def
        dest: delete_connect_jobs_confirmations split: option.splits if_splits)
  ultimately show ?thesis by simp
qed

lemma fire_exec_confirmations:
  assumes "fire_exec env st op = Inr st'" and "c \<in> set (st_confirmations st')"
    and new: "c \<notin> set (st_confirmations st)"
  shows "\<exists>now v f. op = Op_decide now (fc_fire_id c) v (fc_prepared_identity_sha256 c) True
    \<and> find_fire st (fc_fire_id c) = Some f \<and> af_state f = Awaiting_confirmation
    \<and> af_prepared_identity_sha256 f = Some (fc_prepared_identity_sha256 c)"
proof (cases op)
  case (Op_transition clock now t)
  with assms transition_confirmations show ?thesis by (auto simp: map_sum_fst_Inr)
next
  case (Op_decide now fid v sha c')
  then obtain f' where d: "decide_automation_fire now fid v sha c' st = Inr (st', f')"
    using assms(1) by (auto simp: map_sum_fst_Inr)
  from decide_automation_fire_steps [OF d] obtain f where
    "find_fire st fid = Some f" "af_state f = Awaiting_confirmation" "af_prepared_identity_sha256 f = Some sha"
    by auto
  moreover have "c' \<and> fc_fire_id c = fid \<and> fc_prepared_identity_sha256 c = sha"
    using d assms(2) new
    by (auto simp: decide_automation_fire_def insert_confirmation_def res_splits Let_def update_fires_frame
        split: if_splits)
  ultimately show ?thesis using Op_decide by auto
next
  case (Op_retry now fresh fid v)
  with assms show ?thesis
    by (auto simp: map_sum_fst_Inr retry_automation_fire_after_failure_def insert_attempt_def
        res_splits Let_def set_delete_where update_fires_frame)
qed (use assms in \<open>auto simp: map_sum_fst_Inr touch_automation_fire_def
    pause_interactive_job_automation_fires_def pause_linked_automation_fires_def
    resume_automation_fire_job_def connect_source_unavailable_def automation_source_binding_def
    connect_source_invalidation_def delete_jobs_where_def res_splits Let_def update_fires_frame
    update_dispatch_frame update_attempts_frame resume_automation_dispatch_frame
    authorize_connect_job_frame
    dest!: delete_connect_jobs_confirmations split: option.splits\<close>)

lemma run_confirmations:
  assumes "c \<in> set (st_confirmations (foldl (committed (fire_exec env)) st ops))"
    and "c \<notin> set (st_confirmations st)"
  shows "\<exists>pre now v post f. ops = pre @ Op_decide now (fc_fire_id c) v (fc_prepared_identity_sha256 c) True # post
    \<and> find_fire (foldl (committed (fire_exec env)) st pre) (fc_fire_id c) = Some f
    \<and> af_state f = Awaiting_confirmation
    \<and> af_prepared_identity_sha256 f = Some (fc_prepared_identity_sha256 c)"
  using assms
proof (induction ops rule: rev_induct)
  case (snoc op ops)
  let ?s = "foldl (committed (fire_exec env)) st ops"
  show ?case
  proof (cases "c \<in> set (st_confirmations ?s)")
    case True
    from snoc.IH [OF this snoc.prems(2)] obtain pre now v post f where
      "ops = pre @ Op_decide now (fc_fire_id c) v (fc_prepared_identity_sha256 c) True # post"
      "find_fire (foldl (committed (fire_exec env)) st pre) (fc_fire_id c) = Some f"
      "af_state f = Awaiting_confirmation" "af_prepared_identity_sha256 f = Some (fc_prepared_identity_sha256 c)"
      by blast
    then show ?thesis by (intro exI [of _ pre] exI [of _ now] exI [of _ v] exI [of _ "post @ [op]"] exI [of _ f]) simp
  next
    case False
    then obtain s' where ex: "fire_exec env ?s op = Inr s'" "c \<in> set (st_confirmations s')"
      using snoc.prems(1) by (cases "fire_exec env ?s op") (auto simp: committed_Inl committed_Inr)
    from fire_exec_confirmations [OF ex False] obtain now v f where
      "op = Op_decide now (fc_fire_id c) v (fc_prepared_identity_sha256 c) True"
      "find_fire ?s (fc_fire_id c) = Some f" "af_state f = Awaiting_confirmation"
      "af_prepared_identity_sha256 f = Some (fc_prepared_identity_sha256 c)" by blast
    then show ?thesis by (intro exI [of _ ops] exI [of _ now] exI [of _ v] exI [of _ "[]"] exI [of _ f]) simp
  qed
qed simp

section \<open>What removal of the source keeps\<close>

lemma delete_connect_jobs_rows:
  "delete_connect_jobs clock js st = Inr st' \<Longrightarrow>
     set (st_jobs st') = {j \<in> set (st_jobs st). cj_job_id j \<notin> cj_job_id ` set js}
     \<and> set (st_dispatch st') = {d \<in> set (st_dispatch st). cd_job_id d \<notin> cj_job_id ` set js}
     \<and> {f \<in> set (st_fires st). \<forall>j\<in>set js. af_job_id f \<noteq> Some (cj_job_id j)} \<subseteq> set (st_fires st')"
proof (induction js arbitrary: st)
  case (Cons j js)
  then obtain st1 where d: "delete_connect_job clock j st = Inr st1" and r: "delete_connect_jobs clock js st1 = Inr st'"
    by (auto simp: res_splits)
  have "set (st_jobs st1) = {r \<in> set (st_jobs st). cj_job_id r \<noteq> cj_job_id j}"
    "set (st_dispatch st1) = {r \<in> set (st_dispatch st). cd_job_id r \<noteq> cj_job_id j}"
    "{f \<in> set (st_fires st). af_job_id f \<noteq> Some (cj_job_id j)} \<subseteq> set (st_fires st1)"
    using d by (auto simp: delete_connect_job_def res_splits set_delete_where set_update_where image_iff)
  with Cons.IH [OF r] show ?case by auto
qed auto

lemma source_binding_submits:
  assumes b: "automation_source_binding clock mid st = Inr st'" and ok: "fires_ok st"
    and f: "f \<in> set (st_fires st)" "af_message_id f = mid" "bindable_state (af_state f)" "af_job_id f = None"
    and a: "a \<in> set (st_attempts st)" "at_fire_id a = af_fire_id f" "at_attempt_no a = af_current_attempt_no f"
      "at_job_id a = None"
    and adm: "provider_admitted st (at_dispatch_request_id a)"
  shows "\<exists>f'\<in>set (st_fires st'). af_fire_id f' = af_fire_id f \<and> af_state f' = Submitted
     \<and> af_job_id f' = Some (at_dispatch_request_id a)"
    and "st_jobs st' = st_jobs st" and "st_dispatch st' = st_dispatch st"
proof -
  let ?P = "\<lambda>a. at_job_id a = None
            \<and> exists_where (\<lambda>f. af_fire_id f = at_fire_id a \<and> af_message_id f = mid
                 \<and> bindable_state (af_state f)) (st_fires st)
            \<and> provider_admitted st (at_dispatch_request_id a)"
  let ?g = "\<lambda>a::fire_attempt. a\<lparr>at_job_id := Some (at_dispatch_request_id a)\<rparr>"
  obtain st1 where a1: "update_attempts ?P ?g st = Inr st1"
    and u: "update_fires (\<lambda>f. af_message_id f = mid \<and> bindable_state (af_state f) \<and> af_job_id f = None
          \<and> bound_attempt_job st1 f \<noteq> None)
       (\<lambda>f. f\<lparr>af_state := Submitted, af_state_version := af_state_version f + 1,
             af_reason := Some (lit ''source_removed_after_provider_admission''),
             af_job_id := bound_attempt_job st1 f, af_pending_since := None,
             af_updated_at := clock\<rparr>) st1 = Inr st'"
    using b by (auto simp: automation_source_binding_def res_splits)
  note fr = update_attempts_frame [OF a1] and fr2 = update_fires_frame [OF u]
  show "st_jobs st' = st_jobs st" "st_dispatch st' = st_dispatch st" using fr fr2 by simp_all
  have "?P a" using f a adm by (auto simp: exists_where_iff)
  then have ga: "?g a \<in> set (st_attempts st1)"
    unfolding fr using a(1) by (intro update_where_mem)
  have "distinct (map (\<lambda>a. (at_fire_id a, at_attempt_no a)) (st_attempts st1))"
    using update_attempts_rel [OF a1] ok by (simp add: fires_rel_def fires_ok_def)
  from find_key_distinct [OF this ga] a(2,3)
  have "bound_attempt_job st1 f = Some (at_dispatch_request_id a)"
    by (simp add: bound_attempt_job_def)
  moreover from this have "f\<lparr>af_state := Submitted, af_state_version := af_state_version f + 1,
             af_reason := Some (lit ''source_removed_after_provider_admission''),
             af_job_id := bound_attempt_job st1 f, af_pending_since := None,
             af_updated_at := clock\<rparr> \<in> set (st_fires st')"
    unfolding fr2 by (intro update_where_mem) (simp_all add: f fr(1))
  ultimately show "\<exists>f'\<in>set (st_fires st'). af_fire_id f' = af_fire_id f \<and> af_state f' = Submitted
     \<and> af_job_id f' = Some (at_dispatch_request_id a)"
    by (auto elim!: rev_bexI)
qed

section \<open>Properties\<close>

lemma terminal_closed:
  "(s, s') \<in> (set AUTOMATION_FIRE_TRANSITIONS)\<^sup>* \<Longrightarrow> s \<in> AUTOMATION_FIRE_TERMINAL_STATES \<Longrightarrow> s' = s"
  by (induction rule: rtrancl_induct)
    (auto simp: AUTOMATION_FIRE_TRANSITIONS_def AUTOMATION_FIRE_TERMINAL_STATES_def)

definition an_id :: "nat \<Rightarrow> pystr" where
  "an_id c = replicate 36 c"

definition sample_fire :: "fire_state \<Rightarrow> pystr option \<Rightarrow> automation_fire" where
  "sample_fire s j = \<lparr>af_fire_id = an_id 97, af_event_id = replicate 64 97, af_rule_id = an_id 98,
     af_rule_version = 1, af_message_id = [109], af_part_id = [112], af_state = s, af_state_version = 1,
     af_reason = None, af_current_attempt_no = 1, af_job_id = j,
     af_prepared_identity_sha256 = Some (replicate 64 97), af_prepared_identity_json = Some [123, 125],
     af_confirmed = False, af_pending_since = None, af_authorized_pending_seconds = 0,
     af_created_at = 0, af_updated_at = 0\<rparr>"

definition sample_job :: "job_status \<Rightarrow> pystr option \<Rightarrow> connect_job" where
  "sample_job s code = \<lparr>cj_job_id = an_id 106, cj_message_id = [109], cj_part_id = [112],
     cj_protocol_version = 2, cj_capability_id = [99], cj_capability_version = [49],
     cj_provider_app_id = Some [120], cj_provider_app_version = Some [49], cj_provider_instance_id = Some [121],
     cj_invocation_fingerprint = replicate 64 102, cj_input_artifact_id = [105], cj_input_media_type = [116],
     cj_input_byte_size = 4, cj_input_sha256 = replicate 64 48, cj_input_display_name = Some [110],
     cj_source_app_id = Some [115], cj_request_json = Some [123, 125], cj_status = s,
     cj_output_artifact_id = None, cj_output_media_type = None, cj_output_byte_size = None,
     cj_output_sha256 = None, cj_summary_version = None, cj_summary_text = None, cj_warnings_json = None,
     cj_result_json = None, cj_result_metadata_json = None, cj_error_code = code,
     cj_error_message = map_option (\<lambda>_. [101]) code, cj_error_retryable = map_option (\<lambda>_. False) code,
     cj_created_at = 0, cj_updated_at = 0\<rparr>"

definition sample_dispatch :: "dispatch_state \<Rightarrow> iso option \<Rightarrow> connect_dispatch" where
  "sample_dispatch s paused = \<lparr>cd_job_id = an_id 106, cd_state = s, cd_attempt_count = 0,
     cd_reconciliation_failure_count = 0, cd_next_attempt_at = None, cd_admission_deadline = Aware (seconds 100),
     cd_submission_possible = (s \<noteq> Waiting), cd_source_available = True, cd_capability_external_effects = False,
     cd_capability_confirmation_required = False, cd_capability_authority_known = True,
     cd_capability_produces_json = [91, 93], cd_required_manifest_features_json = [91, 93],
     cd_selection_json = None, cd_interactive_authorized_at = None, cd_automation_paused_at = paused,
     cd_highest_provider_state = Requested, cd_last_error_code = None, cd_last_error_message = None,
     cd_created_at = 0, cd_updated_at = 0\<rparr>"

definition sample_attempt :: fire_attempt where
  "sample_attempt = \<lparr>at_fire_id = an_id 97, at_attempt_no = 1, at_dispatch_request_id = an_id 106,
     at_job_id = None, at_created_at = 0\<rparr>"

definition sample_store ::
  "automation_fire list \<Rightarrow> connect_job list \<Rightarrow> connect_dispatch list \<Rightarrow> store" where
  "sample_store fires jobs ds = \<lparr>st_jobs = jobs, st_dispatch = ds, st_fires = fires,
     st_attempts = [sample_attempt], st_confirmations = [], st_fire_sources = [], st_messages = [],
     st_attachments = [], st_removal = None\<rparr>"

lemmas sample_defs = sample_store_def sample_fire_def sample_job_def sample_dispatch_def sample_attempt_def

lemma sample_fires_ok: "s = Submitted \<longrightarrow> j \<noteq> None \<Longrightarrow> opt_all (\<lambda>x. length x = 36) j \<Longrightarrow>
    fires_ok (sample_store [sample_fire s j] jobs ds)"
  by (simp add: fires_ok_def sample_defs automation_fire_check_def fire_attempt_check_def an_id_def
      MAX_AUTOMATION_PREPARED_IDENTITY_BYTES_def)



text \<open>a terminal fire stays in its terminal state for ever, whatever is run afterwards.\<close>

theorem fire_terminal_absorbing:
  assumes "fires_ok st" and "find_fire st k = Some f" and "af_state f \<in> AUTOMATION_FIRE_TERMINAL_STATES"
  shows "\<exists>f'. find_fire (foldl (committed (fire_exec env)) st ops) k = Some f' \<and> af_state f' = af_state f"
  using find_fire_rel [OF run_fires_rel [OF assms(1)] assms(2)] terminal_closed assms(3)
  by (fastforce simp: fire_le_def)

theorem fire_terminal_absorbing_witness:
  "\<exists>f'. find_fire (foldl (committed (fire_exec ascii_env)) (sample_store [sample_fire Declined None] [] [])
      [Op_resume 5 (an_id 97) 1]) (an_id 97) = Some f' \<and> af_state f' = Declined"
proof -
  have s: "af_state (sample_fire Declined None) = Declined"
    by (simp add: sample_fire_def)
  have f: "find_fire (sample_store [sample_fire Declined None] [] []) (an_id 97) = Some (sample_fire Declined None)"
    by (simp add: find_fire_def sample_defs)
  have ok: "fires_ok (sample_store [sample_fire Declined None] [] [])"
    by (simp add: sample_fires_ok)
  from fire_terminal_absorbing [OF ok f, of ascii_env "[Op_resume 5 (an_id 97) 1]"] show ?thesis
    by (simp only: s AUTOMATION_FIRE_TERMINAL_STATES_def insert_iff simp_thms)
qed

text \<open>C30: optimistic concurrency: once an operation that read version \<open>v\<close> of a fire has succeeded,
  no other operation that read \<open>v\<close> of that fire can succeed, whatever runs in between.\<close>

theorem fire_version_spent_once:
  assumes "fires_ok st" and "fire_exec env st op1 = Inr st'" and "fire_expected op1 = Some v"
    and "fire_expected op2 = Some v" and "fire_target op2 = fire_target op1"
  shows "\<not> is_ok (fire_exec env (foldl (committed (fire_exec env)) st' ops) op2)"
  by (rule fv.version_spent_once [OF assms])

theorem fire_version_spent_once_witness:
  "\<exists>st'. fire_exec ascii_env (sample_store [sample_fire Awaiting_confirmation None] [] [])
       (Op_decide 5 (an_id 97) 1 (replicate 64 97) True) = Inr st'
   \<and> \<not> is_ok (fire_exec ascii_env (foldl (committed (fire_exec ascii_env)) st' [])
         (Op_decide 6 (an_id 97) 1 (replicate 64 97) False))"
proof -
  have "is_ok (fire_exec ascii_env (sample_store [sample_fire Awaiting_confirmation None] [] [])
       (Op_decide 5 (an_id 97) 1 (replicate 64 97) True))"
    by code_simp
  then obtain st' where s: "fire_exec ascii_env (sample_store [sample_fire Awaiting_confirmation None] [] [])
       (Op_decide 5 (an_id 97) 1 (replicate 64 97) True) = Inr st'" by (auto simp only: is_ok_iff)
  show ?thesis
    using fire_version_spent_once [OF _ s, of 1 "Op_decide 6 (an_id 97) 1 (replicate 64 97) False" "[]"] s
    by (simp add: sample_fires_ok)
qed

text \<open>C34: a fire is dispatched a second time only when the first job is proved harmless: it failed at
  the queue's admission deadline without ever being accepted, or the provider reported a retryable
  busy resource for a capability known to have no external effects. The second attempt has a new
  request id and asks for confirmation again.\<close>

theorem retry_only_after_safe_failure:
  assumes "retry_automation_fire_after_failure now fresh fid v st = Inr (st', f')"
  shows "\<exists>f j d job_id. find_fire st fid = Some f \<and> af_job_id f = Some job_id
    \<and> find_job st job_id = Some j \<and> find_dispatch st job_id = Some d \<and> cj_status j = Failed
    \<and> (cj_error_code j = Some (lit ''connect_queue_deadline_exceeded'') \<and> cd_highest_provider_state d = Requested
       \<or> cj_error_code j = Some (lit ''PROVIDER_RESOURCE_BUSY'') \<and> cj_error_retryable j = Some True
         \<and> cd_capability_authority_known d \<and> \<not> cd_capability_external_effects d)
    \<and> fresh \<notin> at_dispatch_request_id ` set (st_attempts st)
    \<and> find_fire st' fid = Some f' \<and> af_current_attempt_no f' = 2 \<and> \<not> af_confirmed f'"
proof -
  from retry_automation_fire_steps [OF assms] obtain f j d kind where
    r: "automation_fire_retry_row st fid = Some (f, j, d)"
    "automation_failure_retry_kind (Some (f, j, d)) = Some kind" "find_fire st fid = Some f"
    "find_fire st' fid = Some f'" "af_current_attempt_no f' = 2" "\<not> af_confirmed f'"
    "fresh \<notin> at_dispatch_request_id ` set (st_attempts st)" by blast
  obtain job_id where "af_job_id f = Some job_id" "find_job st job_id = Some j" "find_dispatch st job_id = Some d"
    using r(1,3) by (auto simp: automation_fire_retry_row_def split: option.splits)
  moreover have "cj_status j = Failed
    \<and> (cj_error_code j = Some (lit ''connect_queue_deadline_exceeded'') \<and> cd_highest_provider_state d = Requested
       \<or> cj_error_code j = Some (lit ''PROVIDER_RESOURCE_BUSY'') \<and> cj_error_retryable j = Some True
         \<and> cd_capability_authority_known d \<and> \<not> cd_capability_external_effects d)"
    using r(2) by (auto simp: automation_failure_retry_kind_def failure_retry_kind_of_code_def
        split: if_splits option.splits retry_kind.splits)
  ultimately show ?thesis using r by blast
qed

definition failed_store :: store where
  "failed_store = sample_store [sample_fire Submitted (Some (an_id 106))]
     [sample_job Failed (Some (lit ''connect_queue_deadline_exceeded''))] [sample_dispatch Terminal None]"

definition retried :: "err + store \<times> automation_fire" where
  "retried = retry_automation_fire_after_failure 5 (an_id 100) (an_id 97) 1 failed_store"

theorem retry_only_after_safe_failure_witness:
  "is_ok retried \<and> (\<exists>f j. find_fire failed_store (an_id 97) = Some f \<and> find_job failed_store (an_id 106) = Some j
     \<and> cj_status j = Failed)"
proof -
  have ok: "is_ok retried" by code_simp
  obtain st' f' where "retried = Inr (st', f')" using is_ok_pair [OF ok] by blast
  then have r: "retry_automation_fire_after_failure 5 (an_id 100) (an_id 97) 1 failed_store = Inr (st', f')"
    by (simp add: retried_def)
  have "find_fire failed_store (an_id 97) = Some (sample_fire Submitted (Some (an_id 106)))"
    by (simp add: failed_store_def find_fire_def sample_defs)
  with retry_only_after_safe_failure [OF r] ok show ?thesis by (auto simp: sample_fire_def)
qed

text \<open>a fire is retried at most once: after one retry has succeeded, no later retry of that fire
  succeeds, whatever runs in between and whatever version it names.\<close>

theorem retry_at_most_once:
  assumes "fires_ok st" and "retry_automation_fire_after_failure now fresh fid v st = Inr (st', f')"
  shows "\<not> is_ok (retry_automation_fire_after_failure now2 fresh2 fid v2 (foldl (committed (fire_exec env)) st' ops))"
proof
  assume "is_ok (retry_automation_fire_after_failure now2 fresh2 fid v2 (foldl (committed (fire_exec env)) st' ops))"
  then obtain st2 f2 where "retry_automation_fire_after_failure now2 fresh2 fid v2
      (foldl (committed (fire_exec env)) st' ops) = Inr (st2, f2)"
    by (auto simp: is_ok_iff)
  from retry_automation_fire_steps [OF this] obtain f where
    f: "find_fire (foldl (committed (fire_exec env)) st' ops) fid = Some f" "af_current_attempt_no f = 1" by blast
  have ok: "fires_ok st'" using retry_automation_fire_rel [OF assms(2,1)] assms(1) by (simp add: fires_rel_def)
  have "find_fire st' fid = Some f' \<and> af_current_attempt_no f' = 2"
    using retry_automation_fire_steps [OF assms(2)] by blast
  with find_fire_rel [OF run_fires_rel [OF ok, of env ops]] f show False by (fastforce simp: fire_le_def)
qed

theorem retry_at_most_once_witness:
  "\<exists>st' f'. retried = Inr (st', f') \<and>
     \<not> is_ok (retry_automation_fire_after_failure 9 (an_id 101) (an_id 97) 2 (foldl (committed (fire_exec ascii_env)) st' []))"
proof -
  have "is_ok retried" by code_simp
  then obtain st' f' where r: "retried = Inr (st', f')" using is_ok_pair by blast
  have "fires_ok failed_store" unfolding failed_store_def by (rule sample_fires_ok) (simp_all add: an_id_def)
  from retry_at_most_once [OF this r [unfolded retried_def]] r show ?thesis by blast
qed

text \<open>C36: a confirmation is authentic: if a fire matches a confirmation that was not there at the
  start, then a user's decision in between confirmed that fire with exactly that prepared
  identity, while the fire was waiting for it.\<close>

theorem confirmation_authentic:
  assumes "automation_confirmation_matches (foldl (committed (fire_exec env)) st ops) f"
    and "\<forall>c\<in>set (st_confirmations st). fc_fire_id c \<noteq> af_fire_id f"
  shows "\<exists>pre now v sha post g. af_prepared_identity_sha256 f = Some sha
    \<and> ops = pre @ Op_decide now (af_fire_id f) v sha True # post
    \<and> find_fire (foldl (committed (fire_exec env)) st pre) (af_fire_id f) = Some g
    \<and> af_state g = Awaiting_confirmation \<and> af_prepared_identity_sha256 g = Some sha"
proof -
  from assms(1) obtain sha c where sha: "af_prepared_identity_sha256 f = Some sha"
    and c: "c \<in> set (st_confirmations (foldl (committed (fire_exec env)) st ops))"
      "fc_fire_id c = af_fire_id f" "fc_prepared_identity_sha256 c = sha"
    by (auto simp: automation_confirmation_matches_def exists_where_iff split: option.splits)
  from run_confirmations [OF c(1)] assms(2) c sha show ?thesis by auto
qed

definition decided_ops :: "fire_op list" where
  "decided_ops = [Op_decide 5 (an_id 97) 1 (replicate 64 97) True]"

definition waiting_store :: store where
  "waiting_store = sample_store [sample_fire Awaiting_confirmation None] [] []"

definition decided_store :: store where
  "decided_store = foldl (committed (fire_exec ascii_env)) waiting_store decided_ops"

theorem confirmation_authentic_witness:
  "automation_confirmation_matches decided_store ((sample_fire Awaiting_confirmation None)\<lparr>af_confirmed := True\<rparr>)
   \<and> (\<exists>pre now v post. decided_ops = pre @ Op_decide now (an_id 97) v (replicate 64 97) True # post)"
proof -
  let ?f = "(sample_fire Awaiting_confirmation None)\<lparr>af_confirmed := True\<rparr>"
  have m: "automation_confirmation_matches decided_store ?f" by code_simp
  have "\<forall>c\<in>set (st_confirmations waiting_store). fc_fire_id c \<noteq> af_fire_id ?f"
    by (simp add: waiting_store_def sample_store_def)
  from confirmation_authentic [OF m [unfolded decided_store_def] this]
  show ?thesis using m by (auto simp: sample_fire_def)
qed


definition admitted_store :: store where
  "admitted_store = sample_store [sample_fire Pending_dispatch None] [sample_job Processing None]
     [sample_dispatch Provider_owned None]"

definition removed_store :: "err + store" where
  "removed_store = connect_source_unavailable 9 [109] admitted_store"


text \<open>C39: resuming a paused job gives back the time it was paused, to the second below: the new
  deadline leaves at most the time that was left when the pause began, and less than one second
  less than it.\<close>

theorem resume_restores_remaining_time:
  assumes "distinct (map cd_job_id (st_dispatch st))" and "list_all connect_dispatch_check (st_dispatch st)"
    and "find_dispatch st job_id = Some d" and "cd_automation_paused_at d = Some (Aware paused)"
    and "cd_admission_deadline d = Aware deadline" and "paused \<le> now"
  shows "\<exists>st' d' deadline'. resume_automation_dispatch now job_id st = Inr st'
    \<and> find_dispatch st' job_id = Some d' \<and> cd_automation_paused_at d' = None
    \<and> cd_admission_deadline d' = Aware deadline'
    \<and> deadline' - now \<le> deadline - paused \<and> deadline - paused < deadline' - now + seconds 1"
proof -
  let ?P = "\<lambda>r. cd_job_id r = job_id \<and> cd_automation_paused_at r = Some (Aware paused)"
  let ?new = "deadline + seconds (max 0 (whole_seconds (now - paused)))"
  let ?g = "\<lambda>r::connect_dispatch. r\<lparr>cd_admission_deadline := Aware ?new, cd_automation_paused_at := None, cd_updated_at := now\<rparr>"
  have d: "d \<in> set (st_dispatch st)" "cd_job_id d = job_id"
    using assms(3) by (auto simp: find_dispatch_def dest: find_key_Some)
  have one: "count_where ?P (st_dispatch st) = 1"
    using count_where_key_1_iff [OF assms(1), of ?P job_id] d assms(4) by auto
  have chk: "\<not> exists_where (\<lambda>r. ?P r \<and> \<not> connect_dispatch_check (?g r)) (st_dispatch st)"
    using assms(2) by (auto simp: exists_where_iff list_all_iff connect_dispatch_check_def)
  have "resume_automation_dispatch now job_id st = Inr (st\<lparr>st_dispatch := update_where ?P ?g (st_dispatch st)\<rparr>)"
    using assms(3-5) one chk by (simp add: resume_automation_dispatch_def update_dispatch_def checked_update_def Let_def)
  moreover have "find_dispatch (st\<lparr>st_dispatch := update_where ?P ?g (st_dispatch st)\<rparr>) job_id = Some (?g d)"
    using assms(3,4) d(2) by (simp add: find_dispatch_def find_key_update)
  moreover have "?new - now \<le> deadline - paused \<and> deadline - paused < ?new - now + seconds 1"
    using assms(6) by (auto simp: whole_seconds_def seconds_def)
  ultimately show ?thesis by auto
qed

theorem resume_restores_remaining_time_witness:
  "\<exists>st' d' deadline'. resume_automation_dispatch (seconds 50) (an_id 106)
      (sample_store [] [] [sample_dispatch Waiting (Some (Aware (seconds 20)))]) = Inr st'
    \<and> find_dispatch st' (an_id 106) = Some d' \<and> cd_automation_paused_at d' = None
    \<and> cd_admission_deadline d' = Aware deadline'
    \<and> deadline' - seconds 50 \<le> seconds 100 - seconds 20
    \<and> seconds 100 - seconds 20 < deadline' - seconds 50 + seconds 1"
  by (rule resume_restores_remaining_time [where d = "sample_dispatch Waiting (Some (Aware (seconds 20)))"])
    (simp_all add: sample_defs find_dispatch_def connect_dispatch_check_def active_status_def, simp add: seconds_def)

end
