(* ===== verification/Connect_Queue.thy ===== *)
theory Connect_Queue
  imports Fires
begin

text \<open>
  The Connect queue of \<open>db.py\<close>: one lane per provider instance, in which jobs wait, are
  dispatched one at a time, reconciled and settled. Creation, claiming, deferral, expiry, reset
  for resubmission and the provider's transitions are modelled with every branch. What the
  provider returned and what the \<open>connect\<close> package computes from a request (the invocation
  fingerprint, the encodings of features, selection and results) are arguments.
\<close>

section \<open>Lanes\<close>

definition CONNECT_QUEUE_MAX_JOBS :: nat where "CONNECT_QUEUE_MAX_JOBS = 25"

definition CONNECT_QUEUE_ADMISSION_WINDOW :: int where
  "CONNECT_QUEUE_ADMISSION_WINDOW = seconds (2 * 60 * 60)"

type_synonym lane = "pystr option \<times> pystr option"

definition lane_of :: "connect_job \<Rightarrow> lane" where
  "lane_of j = (cj_provider_app_id j, cj_provider_instance_id j)"

definition queued :: "connect_job \<Rightarrow> connect_dispatch \<Rightarrow> bool" where
  "queued j d \<longleftrightarrow> cj_job_id j = cd_job_id d \<and> cj_protocol_version j = 2 \<and> active_status (cj_status j)
     \<and> cd_state d \<noteq> Terminal \<and> (cd_automation_paused_at d = None \<or> in_flight (cd_state d))"

definition queue_rows :: "store \<Rightarrow> (connect_job \<times> connect_dispatch) list" where
  "queue_rows st = [(j, d). j \<leftarrow> st_jobs st, d \<leftarrow> st_dispatch st, queued j d]"

fun dispatch_rank :: "dispatch_state \<Rightarrow> nat" where
  "dispatch_rank Dispatching = 0"
| "dispatch_rank Reconciling = 1"
| "dispatch_rank Provider_owned = 1"
| "dispatch_rank _ = 2"

definition lane_key :: "connect_job \<times> connect_dispatch \<Rightarrow> nat \<times> instant \<times> pystr" where
  "lane_key r = (dispatch_rank (cd_state (snd r)), cj_created_at (fst r), cj_job_id (fst r))"

definition lane_order :: "store \<Rightarrow> lane \<Rightarrow> (connect_job \<times> connect_dispatch) list" where
  "lane_order st l = sort_key lane_key (filter (\<lambda>r. lane_of (fst r) = l) (queue_rows st))"

definition lane_head :: "store \<Rightarrow> lane \<Rightarrow> (connect_job \<times> connect_dispatch) option" where
  "lane_head st l = (case lane_order st l of [] \<Rightarrow> None | r # _ \<Rightarrow> Some r)"

definition lane_heads :: "store \<Rightarrow> (connect_job \<times> connect_dispatch) list" where
  "lane_heads st = filter (\<lambda>r. lane_head st (lane_of (fst r)) = Some r) (queue_rows st)"

definition connect_queue_ahead :: "store \<Rightarrow> pystr \<Rightarrow> nat" where
  "connect_queue_ahead st job_id =
     (case List.find (\<lambda>r. cj_job_id (fst r) = job_id) (queue_rows st) of
        None \<Rightarrow> 0
      | Some r \<Rightarrow>
          length (takeWhile (\<lambda>r'. cj_job_id (fst r') \<noteq> job_id) (lane_order st (lane_of (fst r)))))"

section \<open>Wake-ups\<close>

definition unsubmitted :: "connect_job \<Rightarrow> connect_dispatch \<Rightarrow> bool" where
  "unsubmitted j d \<longleftrightarrow> cj_job_id j = cd_job_id d \<and> cj_protocol_version j = 2 \<and> cj_status j = Requested
     \<and> cd_state d = Waiting \<and> \<not> cd_submission_possible d \<and> cd_automation_paused_at d = None"

definition unsubmitted_rows :: "store \<Rightarrow> (connect_job \<times> connect_dispatch) list" where
  "unsubmitted_rows st = [(j, d). j \<leftarrow> st_jobs st, d \<leftarrow> st_dispatch st, unsubmitted j d]"

fun map_res :: "('a \<Rightarrow> err + 'b) \<Rightarrow> 'a list \<Rightarrow> err + 'b list" where
  "map_res f [] = Inr []"
| "map_res f (x # xs) = andThen (f x) (\<lambda>y. andThen (map_res f xs) (\<lambda>ys. Inr (y # ys)))"

definition head_wakeup :: "instant \<Rightarrow> connect_job \<times> connect_dispatch \<Rightarrow> err + pystr \<times> instant" where
  "head_wakeup now r =
     (case cd_next_attempt_at (snd r) of
        None \<Rightarrow> Inr (cj_job_id (fst r), now)
      | Some value \<Rightarrow>
          if cd_state (snd r) = Dispatching then Inr (cj_job_id (fst r), now)
          else andThen (parse_iso value) (\<lambda>t.
               andThen (with_zone ''Connect queue wakeup time is missing its timezone'' t) (\<lambda>candidate.
               Inr (cj_job_id (fst r), candidate))))"

definition deadline_wakeup :: "connect_job \<times> connect_dispatch \<Rightarrow> err + pystr \<times> instant" where
  "deadline_wakeup r =
     andThen (parse_iso (cd_admission_deadline (snd r))) (\<lambda>t.
     andThen (with_zone ''Connect queue deadline is missing its timezone'' t) (\<lambda>candidate.
     Inr (cj_job_id (fst r), candidate)))"

definition connect_queue_wakeups :: "instant \<Rightarrow> store \<Rightarrow> err + (pystr \<times> instant) list" where
  "connect_queue_wakeups now st =
     andThen (map_res (head_wakeup now) (lane_heads st)) (\<lambda>heads.
     andThen (map_res deadline_wakeup (unsubmitted_rows st)) (\<lambda>deadlines.
     Inr (heads @ deadlines)))"

section \<open>Expiry\<close>

definition expirable :: "instant \<Rightarrow> connect_job \<times> connect_dispatch \<Rightarrow> bool" where
  "expirable now r \<longleftrightarrow> sql_le (iso_epoch (cd_admission_deadline (snd r))) (Some now)"

definition deadline_key :: "connect_job \<times> connect_dispatch \<Rightarrow> instant \<times> pystr" where
  "deadline_key r = (case iso_epoch (cd_admission_deadline (snd r)) of Some t \<Rightarrow> t | None \<Rightarrow> 0,
     cd_job_id (snd r))"

definition expired_job_row :: "instant \<Rightarrow> connect_job \<Rightarrow> connect_job" where
  "expired_job_row now j =
     j\<lparr>cj_status := Failed, cj_error_code := Some (lit ''connect_queue_deadline_exceeded''),
       cj_error_message := Some (lit ''The provider queue admission deadline expired.''),
       cj_error_retryable := Some False, cj_updated_at := now\<rparr>"

definition expired_dispatch_row :: "instant \<Rightarrow> connect_dispatch \<Rightarrow> connect_dispatch" where
  "expired_dispatch_row now d =
     d\<lparr>cd_state := Terminal, cd_next_attempt_at := None, cd_updated_at := now\<rparr>"

definition expire_job :: "instant \<Rightarrow> pystr \<Rightarrow> store \<Rightarrow> err + store" where
  "expire_job now job_id st =
     andThen (update_jobs (\<lambda>j. cj_job_id j = job_id \<and> cj_status j = Requested) (expired_job_row now) st) (\<lambda>st.
     update_dispatch (\<lambda>d. cd_job_id d = job_id \<and> cd_state d = Waiting \<and> \<not> cd_submission_possible d)
       (expired_dispatch_row now) st)"

fun expire_jobs :: "instant \<Rightarrow> pystr list \<Rightarrow> store \<Rightarrow> err + store" where
  "expire_jobs now [] st = Inr st"
| "expire_jobs now (i # is) st = andThen (expire_job now i st) (expire_jobs now is)"

definition expired_ids :: "instant \<Rightarrow> store \<Rightarrow> pystr list" where
  "expired_ids now st =
     map (\<lambda>r. cd_job_id (snd r)) (sort_key deadline_key (filter (expirable now) (unsubmitted_rows st)))"

definition expire_waiting_connect_jobs :: "instant \<Rightarrow> store \<Rightarrow> err + store \<times> pystr list" where
  "expire_waiting_connect_jobs now st =
     andThen (expire_jobs now (expired_ids now st) st) (\<lambda>st'. Inr (st', expired_ids now st))"

section \<open>Claiming\<close>

definition attempt_due :: "instant \<Rightarrow> connect_dispatch \<Rightarrow> bool" where
  "attempt_due now d \<longleftrightarrow>
     (case cd_next_attempt_at d of None \<Rightarrow> True | Some t \<Rightarrow> sql_le (iso_epoch t) (Some now))"

definition due_connect_lane_heads :: "instant \<Rightarrow> nat \<Rightarrow> store \<Rightarrow> err + store \<times> connect_job list" where
  "due_connect_lane_heads now limit st =
     andThen (require (1 \<le> limit \<and> limit \<le> CONNECT_QUEUE_MAX_JOBS)
         (ValueError ''Connect queue pump limit must be between 1 and 25'')) (\<lambda>_.
     andThen (expire_waiting_connect_jobs now st) (\<lambda>(st, _).
     Inr (st, take limit (sort_key (\<lambda>j. (cj_created_at j, cj_job_id j))
       (map fst (filter (\<lambda>r. cd_state (snd r) = Dispatching \<or> attempt_due now (snd r)) (lane_heads st)))))))"

definition claimed_dispatch :: "instant \<Rightarrow> connect_dispatch \<Rightarrow> connect_dispatch" where
  "claimed_dispatch now d =
     d\<lparr>cd_state := (case cd_state d of Dispatching \<Rightarrow> Reconciling | Waiting \<Rightarrow> Dispatching | s \<Rightarrow> s),
       cd_attempt_count := cd_attempt_count d + (if cd_state d = Waiting then 1 else 0),
       cd_submission_possible :=
         (if cd_state d \<in> {Waiting, Dispatching} then True else cd_submission_possible d),
       cd_next_attempt_at := None, cd_updated_at := now\<rparr>"

definition claim_connect_lane_head ::
  "instant \<Rightarrow> pystr \<Rightarrow> pystr \<Rightarrow> pystr option \<Rightarrow> store
     \<Rightarrow> err + store \<times> (connect_job \<times> connect_dispatch) option" where
  "claim_connect_lane_head now app instance_id expected_job_id st =
     andThen (expire_waiting_connect_jobs now st) (\<lambda>(st, _).
     (case lane_head st (Some app, Some instance_id) of
        None \<Rightarrow> Inr (st, None)
      | Some (j, d) \<Rightarrow>
          let eligible = content_available st (cj_message_id j) in
          if (case expected_job_id of None \<Rightarrow> False | Some e \<Rightarrow> cj_job_id j \<noteq> e) then Inr (st, None)
          else if cd_state d \<noteq> Dispatching \<and> \<not> attempt_due now d then Inr (st, None)
          else if \<not> eligible \<and> cd_state d = Waiting \<and> \<not> cd_submission_possible d then Inr (st, None)
          else
            andThen (update_dispatch (\<lambda>r. cd_job_id r = cj_job_id j) (claimed_dispatch now) st) (\<lambda>st.
            andThen (the_row (RuntimeError ''Claimed Connect job is missing dispatch state'')
                (find_dispatch st (cj_job_id j))) (\<lambda>dispatch_row.
            andThen (the_row (RuntimeError ''Claimed Connect job is missing dispatch state'')
                (find_job st (cj_job_id j))) (\<lambda>job_row.
            Inr (st, Some (job_row,
              dispatch_row\<lparr>cd_source_available := cd_source_available dispatch_row \<and> eligible\<rparr>)))))))"

section \<open>Deferral\<close>

definition MAX_CONNECT_DISPATCH_ERROR_CODE_BYTES :: nat where
  "MAX_CONNECT_DISPATCH_ERROR_CODE_BYTES = 128"
definition MAX_CONNECT_DISPATCH_ERROR_MESSAGE_BYTES :: nat where
  "MAX_CONNECT_DISPATCH_ERROR_MESSAGE_BYTES = 1024"

record deferral =
  df_job_id :: pystr
  df_expected :: dispatch_state
  df_next :: dispatch_state
  df_error_code :: pystr
  df_error_message :: pystr
  df_delay_seconds :: int
  df_pause_deadline :: bool
  df_pause_fires :: bool

definition deferred_attempt :: "instant \<Rightarrow> deferral \<Rightarrow> connect_dispatch \<Rightarrow> err + instant" where
  "deferred_attempt now a d =
     (let next_attempt_at = now + seconds (df_delay_seconds a) in
      if df_next a = Waiting then
        andThen (parse_iso (cd_admission_deadline d)) (\<lambda>t.
        andThen (with_zone ''Connect admission deadline must include a timezone'' t) (\<lambda>deadline.
        Inr (if deadline < next_attempt_at then deadline else next_attempt_at)))
      else Inr next_attempt_at)"

definition deferred_dispatch ::
  "instant \<Rightarrow> deferral \<Rightarrow> pystr \<Rightarrow> pystr \<Rightarrow> instant \<Rightarrow> connect_dispatch \<Rightarrow> connect_dispatch" where
  "deferred_dispatch now a code message next_attempt_at d =
     d\<lparr>cd_state := df_next a,
       cd_reconciliation_failure_count := cd_reconciliation_failure_count d
         + (if df_next a \<in> {Reconciling, Provider_owned} then 1 else 0),
       cd_next_attempt_at := Some (Aware next_attempt_at),
       cd_submission_possible := (df_next a \<noteq> Waiting),
       cd_automation_paused_at :=
         (if df_pause_deadline a
          then (case cd_automation_paused_at d of None \<Rightarrow> Some (Aware now) | Some p \<Rightarrow> Some p)
          else cd_automation_paused_at d),
       cd_last_error_code := Some code, cd_last_error_message := Some message, cd_updated_at := now\<rparr>"

definition defer_connect_job :: "instant \<Rightarrow> deferral \<Rightarrow> store \<Rightarrow> err + store \<times> connect_dispatch" where
  "defer_connect_job now a st =
     andThen (require (in_flight (df_expected a)) (ValueError ''Connect retry expected state is invalid'')) (\<lambda>_.
     andThen (require (df_next a \<in> {Waiting, Reconciling, Provider_owned})
         (ValueError ''Connect retry next state is invalid'')) (\<lambda>_.
     andThen (require (0 \<le> df_delay_seconds a \<and> df_delay_seconds a \<le> 30)
         (ValueError ''Connect retry delay must be between 0 and 30 seconds'')) (\<lambda>_.
     andThen (require (df_pause_fires a \<longrightarrow> df_pause_deadline a)
         (ValueError ''Linked automation fires require a paused dispatch deadline'')) (\<lambda>_.
     andThen (utf8_truncate MAX_CONNECT_DISPATCH_ERROR_CODE_BYTES (df_error_code a)) (\<lambda>code.
     andThen (utf8_truncate MAX_CONNECT_DISPATCH_ERROR_MESSAGE_BYTES (df_error_message a)) (\<lambda>message.
     andThen (require (code \<noteq> [] \<and> message \<noteq> [])
         (ValueError ''Connect retry diagnostics cannot be empty'')) (\<lambda>_.
     andThen (the_row (RuntimeError ''Connect retry lost its expected dispatch-state race'')
         (find_job st (df_job_id a))) (\<lambda>j.
     andThen (the_row (RuntimeError ''Connect retry lost its expected dispatch-state race'')
         (find_dispatch st (df_job_id a))) (\<lambda>d.
     andThen (require (cd_state d = df_expected a)
         (RuntimeError ''Connect retry lost its expected dispatch-state race'')) (\<lambda>_.
     andThen (require (active_status (cj_status j)) (RuntimeError ''Only active Connect jobs can be deferred'')) (\<lambda>_.
     andThen (require (df_next a = Waiting \<longrightarrow> cj_status j = Requested \<and> cd_highest_provider_state d = Requested)
         (RuntimeError ''Provider-owned Connect work cannot return to waiting'')) (\<lambda>_.
     andThen (require (df_next a = Provider_owned \<longrightarrow> cj_status j \<noteq> Requested)
         (RuntimeError ''Requested Connect work cannot become provider-owned'')) (\<lambda>_.
     andThen (deferred_attempt now a d) (\<lambda>next_attempt_at.
     (let P = (\<lambda>r. cd_job_id r = df_job_id a \<and> cd_state r = df_expected a) in
      andThen (require (count_where P (st_dispatch st) = 1)
          (RuntimeError ''Connect retry lost its expected dispatch-state race'')) (\<lambda>_.
      andThen (update_dispatch P (deferred_dispatch now a code message next_attempt_at) st) (\<lambda>st.
      andThen (if df_pause_fires a then pause_linked_automation_fires now (df_job_id a) st else Inr st) (\<lambda>st.
      andThen (if df_next a = Waiting then map_sum id fst (expire_waiting_connect_jobs now st) else Inr st) (\<lambda>st.
      andThen (the_row (RuntimeError ''Deferred Connect job is missing dispatch state'')
          (find_dispatch st (df_job_id a))) (\<lambda>updated.
      Inr (st, updated)))))))))))))))))))))"

section \<open>Creation\<close>

text \<open>
  The arguments of \<open>create_connect_job\<close>; features, selection and produced media types are carried
  by their encodings, \<open>[]\<close> (the text) standing for an empty list. \<open>fingerprint\<close> is the answer of
  \<open>_validate_v2_request_record\<close> and \<open>produces\<close> that of \<open>_encode_connect_capability_produces\<close>; the
  features and the selection have passed the checks of the \<open>connect\<close> package.
\<close>

record new_job =
  nj_job_id :: pystr
  nj_message_id :: pystr
  nj_part_id :: pystr
  nj_protocol_version :: nat
  nj_capability_id :: pystr
  nj_capability_version :: pystr
  nj_provider_app_id :: pystr
  nj_provider_app_version :: "pystr option"
  nj_provider_instance_id :: pystr
  nj_input_artifact_id :: pystr
  nj_input_media_type :: pystr
  nj_input_byte_size :: int
  nj_input_sha256 :: pystr
  nj_input_display_name :: "pystr option"
  nj_source_app_id :: "pystr option"
  nj_request_json :: "bytes option"
  nj_has_features :: bool
  nj_features_json :: pystr
  nj_selection_json :: "pystr option"
  nj_has_produces :: bool
  nj_external_effects :: bool
  nj_confirmation_required :: bool

definition present :: "pystr option \<Rightarrow> bool" where
  "present x \<longleftrightarrow> x \<noteq> None \<and> x \<noteq> Some []"

text \<open>The fingerprint and the \<open>produces\<close> column of the row to insert.\<close>

definition check_new_job :: "err + pystr \<Rightarrow> err + pystr \<Rightarrow> new_job \<Rightarrow> err + pystr \<times> pystr" where
  "check_new_job fingerprint produces n =
     andThen (require (nj_protocol_version n \<in> {1, 2}) (ValueError ''Connect protocol version is unsupported'')) (\<lambda>_.
     if nj_protocol_version n = 1 then
       andThen (require (nj_request_json n = None \<and> \<not> nj_has_features n \<and> nj_selection_json n = None
              \<and> \<not> nj_has_produces n \<and> \<not> nj_external_effects n \<and> \<not> nj_confirmation_required n)
           (ValueError ''Connect v1 jobs cannot store a v2 request'')) (\<lambda>_.
       Inr (lit ''v1'', lit ''[]''))
     else
       andThen (require (present (nj_provider_app_version n) \<and> present (nj_input_display_name n)
              \<and> present (nj_source_app_id n) \<and> nj_request_json n \<noteq> None)
           (ValueError ''Connect v2 job provenance is incomplete'')) (\<lambda>_.
       andThen produces (\<lambda>produces_json.
       andThen fingerprint (\<lambda>invocation_fingerprint.
       Inr (invocation_fingerprint, produces_json)))))"

definition new_job_row :: "instant \<Rightarrow> pystr \<Rightarrow> new_job \<Rightarrow> connect_job" where
  "new_job_row now invocation_fingerprint n =
     \<lparr>cj_job_id = nj_job_id n, cj_message_id = nj_message_id n, cj_part_id = nj_part_id n,
      cj_protocol_version = nj_protocol_version n, cj_capability_id = nj_capability_id n,
      cj_capability_version = nj_capability_version n, cj_provider_app_id = Some (nj_provider_app_id n),
      cj_provider_app_version = nj_provider_app_version n,
      cj_provider_instance_id = Some (nj_provider_instance_id n),
      cj_invocation_fingerprint = invocation_fingerprint,
      cj_input_artifact_id = nj_input_artifact_id n, cj_input_media_type = nj_input_media_type n,
      cj_input_byte_size = nj_input_byte_size n, cj_input_sha256 = nj_input_sha256 n,
      cj_input_display_name = nj_input_display_name n, cj_source_app_id = nj_source_app_id n,
      cj_request_json = nj_request_json n, cj_status = Requested,
      cj_output_artifact_id = None, cj_output_media_type = None, cj_output_byte_size = None,
      cj_output_sha256 = None, cj_summary_version = None, cj_summary_text = None,
      cj_warnings_json = None, cj_result_json = None, cj_result_metadata_json = None,
      cj_error_code = None, cj_error_message = None, cj_error_retryable = None,
      cj_created_at = now, cj_updated_at = now\<rparr>"

definition new_dispatch_row :: "instant \<Rightarrow> pystr \<Rightarrow> new_job \<Rightarrow> connect_dispatch" where
  "new_dispatch_row now produces_json n =
     \<lparr>cd_job_id = nj_job_id n, cd_state = Waiting, cd_attempt_count = 0,
      cd_reconciliation_failure_count = 0, cd_next_attempt_at = None,
      cd_admission_deadline = Aware (now + CONNECT_QUEUE_ADMISSION_WINDOW),
      cd_submission_possible = False, cd_source_available = True,
      cd_capability_external_effects = nj_external_effects n,
      cd_capability_confirmation_required = nj_confirmation_required n,
      cd_capability_authority_known = True, cd_capability_produces_json = produces_json,
      cd_required_manifest_features_json = nj_features_json n, cd_selection_json = nj_selection_json n,
      cd_interactive_authorized_at = None, cd_automation_paused_at = None,
      cd_highest_provider_state = Requested, cd_last_error_code = None, cd_last_error_message = None,
      cd_created_at = now, cd_updated_at = now\<rparr>"

text \<open>The two partial unique indexes over active jobs.\<close>

definition active_conflict :: "connect_job \<Rightarrow> connect_job \<Rightarrow> bool" where
  "active_conflict j r \<longleftrightarrow> active_status (cj_status r) \<and> cj_message_id r = cj_message_id j
     \<and> cj_part_id r = cj_part_id j \<and> cj_invocation_fingerprint r = cj_invocation_fingerprint j
     \<and> cj_protocol_version r = cj_protocol_version j
     \<and> (cj_protocol_version j = 2
        \<or> cj_capability_id r = cj_capability_id j \<and> cj_capability_version r = cj_capability_version j)"

definition insert_job :: "connect_job \<Rightarrow> store \<Rightarrow> err + store" where
  "insert_job j st =
     andThen (require (\<not> exists_where (active_conflict j) (st_jobs st))
         (IntegrityError ''UNIQUE constraint failed: connect_attachment_jobs'')) (\<lambda>_.
     andThen (checked_insert connect_job_check cj_job_id
         ''UNIQUE constraint failed: connect_attachment_jobs.job_id'' j (st_jobs st)) (\<lambda>rows.
     Inr (st\<lparr>st_jobs := rows\<rparr>)))"

definition insert_dispatch :: "connect_dispatch \<Rightarrow> store \<Rightarrow> err + store" where
  "insert_dispatch d st =
     andThen (checked_insert connect_dispatch_check cd_job_id
         ''UNIQUE constraint failed: connect_job_dispatch.job_id'' d (st_dispatch st)) (\<lambda>rows.
     Inr (st\<lparr>st_dispatch := rows\<rparr>))"

definition lane_size :: "store \<Rightarrow> lane \<Rightarrow> nat" where
  "lane_size st l = length (filter (\<lambda>r. lane_of (fst r) = l) (queue_rows st))"

definition joinable_jobs :: "store \<Rightarrow> new_job \<Rightarrow> pystr \<Rightarrow> connect_job list" where
  "joinable_jobs st n invocation_fingerprint =
     sort_key (\<lambda>j. (cj_created_at j, cj_job_id j))
       (filter (\<lambda>j. cj_message_id j = nj_message_id n \<and> cj_part_id j = nj_part_id n
          \<and> cj_protocol_version j = 2 \<and> cj_invocation_fingerprint j = invocation_fingerprint
          \<and> active_status (cj_status j)) (st_jobs st))"

definition create_connect_job ::
  "instant \<Rightarrow> err + pystr \<Rightarrow> err + pystr \<Rightarrow> new_job \<Rightarrow> store \<Rightarrow> err + store \<times> connect_job" where
  "create_connect_job now fingerprint produces n st =
     andThen (check_new_job fingerprint produces n) (\<lambda>(invocation_fingerprint, produces_json).
     andThen (require (content_available st (nj_message_id n)) KeyError) (\<lambda>_.
     andThen (require ((nj_message_id n, nj_part_id n) \<in> set (st_attachments st)) KeyError) (\<lambda>_.
     if nj_protocol_version n = 2 then
       andThen (expire_waiting_connect_jobs now st) (\<lambda>(st, _).
       (case joinable_jobs st n invocation_fingerprint of
          existing # _ \<Rightarrow>
            if cj_job_id existing = nj_job_id n
            then Inl (IntegrityError ''Connect job identity already exists'')
            else Inr (st, existing)
        | [] \<Rightarrow>
            andThen (require (lane_size st (Some (nj_provider_app_id n), Some (nj_provider_instance_id n))
                < CONNECT_QUEUE_MAX_JOBS) ConnectQueueFull) (\<lambda>_.
            andThen (insert_job (new_job_row now invocation_fingerprint n) st) (\<lambda>st.
            andThen (insert_dispatch (new_dispatch_row now produces_json n) st) (\<lambda>st.
            andThen (the_row (RuntimeError ''Connect job was not readable after creation'')
                (find_job st (nj_job_id n))) (\<lambda>row.
            Inr (st, row)))))))
     else
       andThen (insert_job (new_job_row now invocation_fingerprint n) st) (\<lambda>st.
       andThen (the_row (RuntimeError ''Connect job was not readable after creation'')
           (find_job st (nj_job_id n))) (\<lambda>row.
       Inr (st, row))))))"

section \<open>Reset for resubmission\<close>

definition reset_job_row :: "instant \<Rightarrow> connect_job \<Rightarrow> connect_job" where
  "reset_job_row now j =
     j\<lparr>cj_status := Requested, cj_output_artifact_id := None, cj_output_media_type := None,
       cj_output_byte_size := None, cj_output_sha256 := None, cj_summary_version := None,
       cj_summary_text := None, cj_warnings_json := None, cj_result_json := None,
       cj_result_metadata_json := None, cj_error_code := None, cj_error_message := None,
       cj_error_retryable := None, cj_updated_at := now\<rparr>"

definition reset_connect_job_for_resubmission ::
  "instant \<Rightarrow> pystr \<Rightarrow> job_status \<Rightarrow> pystr \<Rightarrow> pystr \<Rightarrow> store \<Rightarrow> err + store \<times> connect_job" where
  "reset_connect_job_for_resubmission now job_id expected_state app instance_id st =
     andThen (require (active_status expected_state)
         (ValueError ''Only active Connect jobs can be reset for resubmission'')) (\<lambda>_.
     andThen (the_row (RuntimeError ''Connect job resubmission lost its expected-state race'')
         (find_job st job_id)) (\<lambda>current.
     andThen (require (cj_status current = expected_state)
         (RuntimeError ''Connect job resubmission lost its expected-state race'')) (\<lambda>_.
     andThen (require (content_available st (cj_message_id current)) KeyError) (\<lambda>_.
     andThen (if cj_protocol_version current = 2 then
          andThen (the_row (RuntimeError ''Connect job resubmission is missing dispatch state'')
              (find_dispatch st job_id)) (\<lambda>d.
          andThen (require (cd_highest_provider_state d = Requested)
              (RuntimeError ''Connect job cannot be resubmitted after authoritative provider acceptance'')) (\<lambda>_.
          require (cd_state d \<in> {Waiting, Dispatching, Reconciling})
            (RuntimeError ''Connect job resubmission has incompatible dispatch state'')))
        else Inr ()) (\<lambda>_.
     (let P = (\<lambda>j. cj_job_id j = job_id \<and> cj_status j = expected_state
                 \<and> cj_provider_app_id j = Some app \<and> cj_provider_instance_id j = Some instance_id);
          Q = (\<lambda>d. cd_job_id d = job_id \<and> cd_highest_provider_state d = Requested
                 \<and> cd_state d \<in> {Waiting, Dispatching, Reconciling}) in
      andThen (require (count_where P (st_jobs st) = 1)
          (RuntimeError ''Connect job resubmission lost its expected-state race'')) (\<lambda>_.
      andThen (update_jobs P (reset_job_row now) st) (\<lambda>st.
      andThen (if cj_protocol_version current = 2 then
           andThen (require (count_where Q (st_dispatch st) = 1)
               (RuntimeError ''Connect job resubmission lost its dispatch-state race'')) (\<lambda>_.
           update_dispatch Q (\<lambda>d. d\<lparr>cd_state := Waiting, cd_submission_possible := False,
              cd_next_attempt_at := None, cd_updated_at := now\<rparr>) st)
         else Inr st) (\<lambda>st.
      andThen (the_row (RuntimeError ''Connect job was not readable after resubmission reset'')
          (find_job st job_id)) (\<lambda>row.
      Inr (st, row)))))))))))"

section \<open>Transitions reported by the provider\<close>

fun allowed_next :: "job_status \<Rightarrow> job_status list" where
  "allowed_next Requested = [Accepted, Processing, Completed, Failed]"
| "allowed_next Accepted = [Processing, Completed, Failed]"
| "allowed_next Processing = [Completed, Failed]"
| "allowed_next _ = []"

datatype certificate_outcome = Certificate_valid | Certificate_conflict | Certificate_invalid

record v1_output =
  vo_artifact_id :: "pystr option"
  vo_media_type :: "pystr option"
  vo_byte_size :: "int option"
  vo_sha256 :: "pystr option"
  vo_summary_version :: "pystr option"
  vo_text :: "pystr option"
  vo_warnings_json :: pystr

record job_error =
  je_code :: "pystr option"
  je_message :: "pystr option"
  je_retryable :: bool

text \<open>
  What came with a \<open>completed\<close> report: the fields of a version 1 output, or the two encodings of a
  version 2 result (\<open>_encode_generic_result\<close>) with the verdict on it as a certificate
  (\<open>_validate_certificate_record\<close> and \<open>_persist_certificate_projection\<close>). \<open>jr_v1_valid\<close> is the
  answer of \<open>completed_connect_warnings\<close> on the finished row.
\<close>

record job_result =
  jr_v1 :: "err + v1_output"
  jr_v1_valid :: "connect_job \<Rightarrow> bool"
  jr_v2 :: "err + bytes \<times> bytes"
  jr_certificate :: certificate_outcome

record job_transition =
  jt_job_id :: pystr
  jt_expected :: job_status
  jt_next :: job_status
  jt_app :: pystr
  jt_instance :: pystr
  jt_result :: "job_result option"
  jt_error :: "job_error option"

definition check_job_transition :: "job_transition \<Rightarrow> err + unit" where
  "check_job_transition t =
     andThen (require (jt_next t \<in> set (allowed_next (jt_expected t)))
         (ValueError ''Invalid Connect job transition'')) (\<lambda>_.
     if jt_next t = Completed then
       require (jt_result t \<noteq> None \<and> jt_error t = None)
         (ValueError ''Completed Connect jobs require only a result'')
     else if jt_next t = Failed then
       require (jt_error t \<noteq> None \<and> jt_result t = None)
         (ValueError ''Failed Connect jobs require only an error'')
     else require (jt_result t = None \<and> jt_error t = None)
         (ValueError ''Active Connect jobs cannot contain terminal data''))"

text \<open>The row after the transition, its twelve outcome columns from the report.\<close>

definition transition_base :: "instant \<Rightarrow> job_transition \<Rightarrow> connect_job \<Rightarrow> connect_job" where
  "transition_base now t j =
     (reset_job_row now j)\<lparr>cj_provider_app_id := Some (jt_app t),
        cj_provider_instance_id := Some (jt_instance t), cj_status := jt_next t\<rparr>"

definition transition_row :: "instant \<Rightarrow> job_transition \<Rightarrow> connect_job \<Rightarrow> err + connect_job" where
  "transition_row now t j =
     (case (jt_result t, jt_error t) of
        (Some res, _) \<Rightarrow>
          if cj_protocol_version j = 1 then
            andThen (jr_v1 res) (\<lambda>out.
            (let row = (transition_base now t j)\<lparr>cj_output_artifact_id := vo_artifact_id out,
                    cj_output_media_type := vo_media_type out, cj_output_byte_size := vo_byte_size out,
                    cj_output_sha256 := vo_sha256 out, cj_summary_version := vo_summary_version out,
                    cj_summary_text := vo_text out, cj_warnings_json := Some (vo_warnings_json out)\<rparr> in
             andThen (require (jr_v1_valid res row) (ValueError ''Completed Connect job result failed validation'')) (\<lambda>_.
             Inr row)))
          else
            andThen (jr_v2 res) (\<lambda>(result_json, metadata_json).
            Inr ((transition_base now t j)\<lparr>cj_result_json := Some result_json,
                   cj_result_metadata_json := Some metadata_json\<rparr>))
      | (None, Some e) \<Rightarrow>
          Inr ((transition_base now t j)\<lparr>cj_error_code := je_code e, cj_error_message := je_message e,
                 cj_error_retryable := Some (je_retryable e)\<rparr>)
      | (None, None) \<Rightarrow> Inr (transition_base now t j))"

definition certificate_job :: "connect_job \<Rightarrow> bool" where
  "certificate_job j \<longleftrightarrow> cj_protocol_version j = 2 \<and> cj_capability_id j = CERTIFICATE_CAPABILITY_ID"

definition certificate_verdict :: "job_transition \<Rightarrow> connect_job \<Rightarrow> certificate_outcome option" where
  "certificate_verdict t j =
     (case jt_result t of
        Some res \<Rightarrow> if certificate_job j then Some (jr_certificate res) else None
      | None \<Rightarrow> None)"

definition deferred_interactive_fire :: "store \<Rightarrow> pystr \<Rightarrow> bool" where
  "deferred_interactive_fire st job_id \<longleftrightarrow>
     exists_where (\<lambda>f. af_job_id f = Some job_id \<and> af_state f = Entitlement_paused) (st_fires st)
     \<and> (exists_where (\<lambda>d. cd_job_id d = job_id \<and> cd_interactive_authorized_at d \<noteq> None) (st_dispatch st)
        \<or> \<not> has_attempt st job_id)"

definition discard_terminal :: "store \<Rightarrow> job_transition \<Rightarrow> connect_job \<Rightarrow> connect_dispatch option \<Rightarrow> bool" where
  "discard_terminal st t j dispatch_before =
     (case dispatch_before of
        None \<Rightarrow> False
      | Some d \<Rightarrow> jt_next t \<in> {Completed, Failed} \<and> \<not> certificate_job j \<and> \<not> cd_source_available d
          \<and> (\<not> deferred_interactive_fire st (cj_job_id j) \<or> \<not> connect_source_available st j))"

definition settle_fires :: "instant \<Rightarrow> fire_state \<Rightarrow> pystr \<Rightarrow> pystr \<Rightarrow> store \<Rightarrow> err + store" where
  "settle_fires now s reason job_id st =
     update_fires (\<lambda>f. af_job_id f = Some job_id \<and> linked_state (af_state f))
       (\<lambda>f. f\<lparr>af_state := s, af_state_version := af_state_version f + 1, af_reason := Some reason,
             af_pending_since := None, af_updated_at := now\<rparr>) st"

definition discard_reason :: "job_transition \<Rightarrow> pystr" where
  "discard_reason t =
     (if jt_next t = Completed then lit ''connect_completed''
      else take 128 (case jt_error t of
          None \<Rightarrow> lit ''connect_failed''
        | Some e \<Rightarrow> (case je_code e of None \<Rightarrow> lit ''connect_failed''
            | Some c \<Rightarrow> if c = [] then lit ''connect_failed'' else c)))"

definition transition_dispatch :: "instant \<Rightarrow> job_status \<Rightarrow> connect_dispatch \<Rightarrow> connect_dispatch" where
  "transition_dispatch now next d =
     d\<lparr>cd_state := (if next \<in> {Accepted, Processing} then Provider_owned else Terminal),
       cd_submission_possible :=
         (if next \<in> {Accepted, Processing, Completed} then True else cd_submission_possible d),
       cd_highest_provider_state :=
         (if next = Processing then Processing
          else if next = Accepted \<and> cd_highest_provider_state d = Requested then Accepted
          else cd_highest_provider_state d),
       cd_reconciliation_failure_count :=
         (if next \<in> {Accepted, Processing} then 0 else cd_reconciliation_failure_count d),
       cd_last_error_code := (if next \<in> {Accepted, Processing} then None else cd_last_error_code d),
       cd_last_error_message := (if next \<in> {Accepted, Processing} then None else cd_last_error_message d),
       cd_next_attempt_at := None, cd_updated_at := now\<rparr>"

fun certificate_failure_reason :: "certificate_outcome \<Rightarrow> pystr option" where
  "certificate_failure_reason Certificate_valid = None"
| "certificate_failure_reason Certificate_conflict = Some (lit ''CERTIFICATE_RESULT_CONFLICT'')"
| "certificate_failure_reason Certificate_invalid = Some (lit ''CERTIFICATE_RESULT_INVALID'')"

definition discard_settled_source_less_certificate_job ::
  "instant \<Rightarrow> instant \<Rightarrow> pystr option \<Rightarrow> pystr \<Rightarrow> store \<Rightarrow> err + store \<times> bool" where
  "discard_settled_source_less_certificate_job clock now failure_reason job_id st =
     (case find_dispatch st job_id of
        None \<Rightarrow> Inr (st, False)
      | Some d \<Rightarrow>
          if cd_source_available d then Inr (st, False)
          else if has_linked_fire st job_id then Inr (st, False)
          else
            (let P = (\<lambda>j. cj_job_id j = job_id \<and> cj_status j = Completed) in
             andThen (require (count_where P (st_jobs st) = 1)
                 (RuntimeError ''Settled source-less certificate job was not discarded'')) (\<lambda>_.
             andThen (delete_jobs_where clock P st) (\<lambda>st.
             (case failure_reason of
                None \<Rightarrow> Inr (st, True)
              | Some reason \<Rightarrow>
                  andThen (update_fires (\<lambda>f. af_job_id f = Some job_id)
                      (\<lambda>f. f\<lparr>af_state := Fire_failed, af_reason := Some reason,
                            af_pending_since := None, af_updated_at := now\<rparr>) st) (\<lambda>st.
                  Inr (st, True)))))))"

definition settle_certificate ::
  "instant \<Rightarrow> instant \<Rightarrow> certificate_outcome option \<Rightarrow> pystr \<Rightarrow> store \<Rightarrow> err + store \<times> bool" where
  "settle_certificate clock now verdict job_id st =
     (case verdict of
        None \<Rightarrow> Inr (st, False)
      | Some v \<Rightarrow>
          andThen (case certificate_failure_reason v of
               None \<Rightarrow> settle_fires now Fire_completed (lit ''connect_completed'') job_id st
             | Some reason \<Rightarrow> settle_fires now Fire_failed reason job_id st)
            (discard_settled_source_less_certificate_job clock now (certificate_failure_reason v) job_id))"

definition is_reported_job :: "job_transition \<Rightarrow> connect_job \<Rightarrow> bool" where
  "is_reported_job t j \<longleftrightarrow> cj_job_id j = jt_job_id t \<and> cj_status j = jt_expected t"

text \<open>A finished job without a source is discarded with its result, its fires settled.\<close>

definition discard_reported :: "instant \<Rightarrow> instant \<Rightarrow> job_transition \<Rightarrow> store \<Rightarrow> err + store" where
  "discard_reported clock now t st =
     andThen (settle_fires now (if jt_next t = Completed then Fire_completed else Fire_failed)
         (discard_reason t) (jt_job_id t) st) (\<lambda>st.
     andThen (require (count_where (is_reported_job t) (st_jobs st) = 1)
         (RuntimeError ''Connect job transition lost its expected-state race'')) (\<lambda>_.
     delete_jobs_where clock (is_reported_job t) st))"

definition keep_reported :: "instant \<Rightarrow> job_transition \<Rightarrow> connect_job \<Rightarrow> connect_job \<Rightarrow> store \<Rightarrow> err + store" where
  "keep_reported now t current row st =
     andThen (require (count_where (is_reported_job t) (st_jobs st) = 1)
         (RuntimeError ''Connect job transition lost its expected-state race'')) (\<lambda>_.
     andThen (update_jobs (is_reported_job t) (\<lambda>_. row) st) (\<lambda>st.
     if cj_protocol_version current = 2
     then update_dispatch (\<lambda>d. cd_job_id d = jt_job_id t) (transition_dispatch now (jt_next t)) st
     else Inr st))"

definition reported_dispatch :: "store \<Rightarrow> connect_job \<Rightarrow> err + connect_dispatch option" where
  "reported_dispatch st current =
     (if cj_protocol_version current = 2
      then andThen (the_row (RuntimeError ''Connect job transition is missing dispatch state'')
             (find_dispatch st (cj_job_id current))) (\<lambda>d. Inr (Some d))
      else Inr None)"

definition transition_connect_job ::
  "instant \<Rightarrow> instant \<Rightarrow> job_transition \<Rightarrow> store \<Rightarrow> err + store \<times> connect_job" where
  "transition_connect_job clock now t st =
     andThen (check_job_transition t) (\<lambda>_.
     andThen (the_row (RuntimeError ''Connect job transition lost its expected-state race'')
         (find_job st (jt_job_id t))) (\<lambda>current.
     andThen (require (cj_status current = jt_expected t)
         (RuntimeError ''Connect job transition lost its expected-state race'')) (\<lambda>_.
     andThen (require (cj_protocol_version current = 2 \<longrightarrow>
            cj_provider_app_id current = Some (jt_app t) \<and> cj_provider_instance_id current = Some (jt_instance t))
         (ValueError ''Connect v2 provider provenance cannot change'')) (\<lambda>_.
     andThen (reported_dispatch st current) (\<lambda>dispatch_before.
     andThen (transition_row now t current) (\<lambda>terminal_job.
     (let discard = discard_terminal st t current dispatch_before in
      andThen (if discard then discard_reported clock now t st
               else keep_reported now t current terminal_job st) (\<lambda>st.
      andThen (settle_certificate clock now (certificate_verdict t current) (jt_job_id t) st) (\<lambda>(st, gone).
      if discard \<or> gone then Inr (st, terminal_job)
      else andThen (the_row (RuntimeError ''Connect job was not readable after transition'')
             (find_job st (jt_job_id t))) (\<lambda>row. Inr (st, row)))))))))))"

end
