(* ===== verification/Queue_Proofs.thy ===== *)
theory Queue_Proofs
  imports Connect_Queue
begin

text \<open>
  Correctness of the Connect queue: in every lane at most one job is in flight, two dispatches of
  a lane are separated by a settlement of the first, work the provider accepted is never
  dispatched again, and expiry fails exactly the jobs that were never submitted and whose
  admission deadline has passed.
\<close>

section \<open>The view of one job\<close>

definition queue_keys :: "store \<Rightarrow> bool" where
  "queue_keys st \<longleftrightarrow> distinct (map cj_job_id (st_jobs st)) \<and> distinct (map cd_job_id (st_dispatch st))"

definition flight :: "store \<Rightarrow> lane \<Rightarrow> pystr \<Rightarrow> bool" where
  "flight st l k \<longleftrightarrow> (case (find_job st k, find_dispatch st k) of
     (Some j, Some d) \<Rightarrow> lane_of j = l \<and> in_flight (cd_state d) | _ \<Rightarrow> False)"

text \<open>A dispatch that is in flight belongs to an active version 2 job.\<close>

definition queue_ok :: "store \<Rightarrow> bool" where
  "queue_ok st \<longleftrightarrow> queue_keys st \<and>
     (\<forall>k d. find_dispatch st k = Some d \<longrightarrow> in_flight (cd_state d) \<longrightarrow>
        (\<exists>j. find_job st k = Some j \<and> cj_protocol_version j = 2 \<and> active_status (cj_status j)))"

definition single_flight :: "store \<Rightarrow> bool" where
  "single_flight st \<longleftrightarrow> (\<forall>l a b. flight st l a \<longrightarrow> flight st l b \<longrightarrow> a = b)"

lemma queue_okD:
  "queue_ok st \<Longrightarrow> find_dispatch st k = Some d \<Longrightarrow> in_flight (cd_state d) \<Longrightarrow>
     \<exists>j. find_job st k = Some j \<and> cj_protocol_version j = 2 \<and> active_status (cj_status j)"
  by (simp add: queue_ok_def)

lemma flight_iff:
  "flight st l k \<longleftrightarrow> (\<exists>j d. find_job st k = Some j \<and> find_dispatch st k = Some d
     \<and> lane_of j = l \<and> in_flight (cd_state d))"
  by (auto simp: flight_def split: option.splits)

lemma find_job_Some: "find_job st k = Some j \<Longrightarrow> j \<in> set (st_jobs st) \<and> cj_job_id j = k"
  by (auto simp: find_job_def dest: find_key_Some)

lemma find_dispatch_Some: "find_dispatch st k = Some d \<Longrightarrow> d \<in> set (st_dispatch st) \<and> cd_job_id d = k"
  by (auto simp: find_dispatch_def dest: find_key_Some)

lemma find_job_mem: "queue_keys st \<Longrightarrow> j \<in> set (st_jobs st) \<Longrightarrow> find_job st (cj_job_id j) = Some j"
  by (simp add: queue_keys_def find_job_def find_key_distinct)

lemma find_dispatch_mem: "queue_keys st \<Longrightarrow> d \<in> set (st_dispatch st) \<Longrightarrow> find_dispatch st (cd_job_id d) = Some d"
  by (simp add: queue_keys_def find_dispatch_def find_key_distinct)

section \<open>Effects of the table updates\<close>

lemma update_dispatch_effect:
  assumes "update_dispatch P g st = Inr st'" and "\<And>d. cd_job_id (g d) = cd_job_id d"
  shows "find_dispatch st' k = map_option (\<lambda>d. if P d then g d else d) (find_dispatch st k)"
    and "find_job st' k = find_job st k" and "queue_keys st' \<longleftrightarrow> queue_keys st"
  using assms(2)
  by (simp_all add: find_dispatch_def find_job_def queue_keys_def update_dispatch_frame [OF assms(1)]
      find_key_update map_update_where)

lemma update_jobs_frame:
  assumes "update_jobs P g st = Inr st'"
  shows "st_fires st' = st_fires st" "st_attempts st' = st_attempts st"
    "st_confirmations st' = st_confirmations st" "st_jobs st' = update_where P g (st_jobs st)"
    "st_dispatch st' = st_dispatch st" "\<forall>j\<in>set (st_jobs st). P j \<longrightarrow> connect_job_check (g j)"
  using assms by (auto simp: update_jobs_def res_splits)

lemma update_jobs_effect:
  assumes "update_jobs P g st = Inr st'" and "\<And>j. P j \<Longrightarrow> cj_job_id (g j) = cj_job_id j"
  shows "find_job st' k = map_option (\<lambda>j. if P j then g j else j) (find_job st k)"
    and "find_dispatch st' k = find_dispatch st k" and "queue_keys st' \<longleftrightarrow> queue_keys st"
  using assms(2)
  by (simp_all add: find_dispatch_def find_job_def queue_keys_def update_jobs_frame [OF assms(1)]
      find_key_update map_update_where)

lemma find_frame:
  "st_jobs st' = st_jobs st \<Longrightarrow> find_job st' k = find_job st k"
  "st_dispatch st' = st_dispatch st \<Longrightarrow> find_dispatch st' k = find_dispatch st k"
  by (simp_all add: find_job_def find_dispatch_def)

lemma update_fires_effect:
  assumes "update_fires P g st = Inr st'"
  shows "find_job st' k = find_job st k" "find_dispatch st' k = find_dispatch st k"
    "queue_keys st' \<longleftrightarrow> queue_keys st"
  by (simp_all add: find_job_def find_dispatch_def queue_keys_def update_fires_frame [OF assms])

lemma delete_connect_jobs_effect:
  assumes "delete_connect_jobs clock js st = Inr st'"
  shows "find_job st' k = (if k \<in> cj_job_id ` set js then None else find_job st k)
    \<and> find_dispatch st' k = (if k \<in> cj_job_id ` set js then None else find_dispatch st k)
    \<and> (queue_keys st \<longrightarrow> queue_keys st')"
  using assms
proof (induction js arbitrary: st)
  case (Cons j js)
  then obtain st1 where d: "delete_connect_job clock j st = Inr st1" and r: "delete_connect_jobs clock js st1 = Inr st'"
    by (auto simp: res_splits)
  have "find_job st1 k = (if k = cj_job_id j then None else find_job st k)"
    "find_dispatch st1 k = (if k = cj_job_id j then None else find_dispatch st k)"
    "queue_keys st \<Longrightarrow> queue_keys st1"
    using d by (auto simp: delete_connect_job_def res_splits find_job_def find_dispatch_def find_key_delete
        queue_keys_def distinct_delete_where)
  with Cons.IH [OF r] show ?case by auto
qed simp

section \<open>Expiry\<close>

lemma expired_row_simps [simp]:
  "cj_job_id (expired_job_row now j) = cj_job_id j" "cj_status (expired_job_row now j) = Failed"
  "lane_of (expired_job_row now j) = lane_of j"
  "cj_protocol_version (expired_job_row now j) = cj_protocol_version j"
  "cd_job_id (expired_dispatch_row now d) = cd_job_id d" "cd_state (expired_dispatch_row now d) = Terminal"
  by (simp_all add: expired_job_row_def expired_dispatch_row_def lane_of_def)

lemma expire_job_effect:
  assumes "expire_job now i st = Inr st'"
  shows "find_job st' k = map_option (\<lambda>j. if k = i \<and> cj_status j = Requested
      then expired_job_row now j else j) (find_job st k)"
    and "find_dispatch st' k = map_option (\<lambda>d. if k = i \<and> cd_state d = Waiting \<and> \<not> cd_submission_possible d
      then expired_dispatch_row now d else d) (find_dispatch st k)"
    and "queue_keys st' \<longleftrightarrow> queue_keys st"
proof -
  obtain st1 where u: "update_jobs (\<lambda>j. cj_job_id j = i \<and> cj_status j = Requested) (expired_job_row now) st = Inr st1"
    and v: "update_dispatch (\<lambda>d. cd_job_id d = i \<and> cd_state d = Waiting \<and> \<not> cd_submission_possible d)
       (expired_dispatch_row now) st1 = Inr st'"
    using assms by (auto simp: expire_job_def res_splits)
  note U = update_jobs_effect [OF u expired_row_simps(1)] and V = update_dispatch_effect [OF v expired_row_simps(5)]
  show "find_job st' k = map_option (\<lambda>j. if k = i \<and> cj_status j = Requested
      then expired_job_row now j else j) (find_job st k)"
    unfolding V(2) U(1) using find_job_Some [of st k] by (cases "find_job st k") auto
  show "find_dispatch st' k = map_option (\<lambda>d. if k = i \<and> cd_state d = Waiting \<and> \<not> cd_submission_possible d
      then expired_dispatch_row now d else d) (find_dispatch st k)"
    unfolding V(1) U(2) using find_dispatch_Some [of st k] by (cases "find_dispatch st k") auto
  show "queue_keys st' \<longleftrightarrow> queue_keys st" using U(3) V(3) by simp
qed

text \<open>Expiring a list of jobs whose dispatch waits unsubmitted touches only those jobs.\<close>

definition expired_view :: "instant \<Rightarrow> pystr set \<Rightarrow> store \<Rightarrow> store \<Rightarrow> bool" where
  "expired_view now ids st st' \<longleftrightarrow> (\<forall>k.
     find_job st' k = map_option (\<lambda>j. if k \<in> ids \<and> cj_status j = Requested then expired_job_row now j else j) (find_job st k)
     \<and> find_dispatch st' k = map_option (\<lambda>d. if k \<in> ids \<and> cd_state d = Waiting \<and> \<not> cd_submission_possible d
         then expired_dispatch_row now d else d) (find_dispatch st k))
     \<and> (queue_keys st' \<longleftrightarrow> queue_keys st)"

lemma expire_jobs_view: "expire_jobs now is st = Inr st' \<Longrightarrow> expired_view now (set is) st st'"
proof (induction "is" arbitrary: st)
  case Nil
  then show ?case by (simp add: expired_view_def option.map_ident)
next
  case (Cons i ids)
  then obtain st1 where e: "expire_job now i st = Inr st1" and r: "expire_jobs now ids st1 = Inr st'"
    by (auto simp: res_splits)
  note E = expire_job_effect [OF e] and R = Cons.IH [OF r]
  have "find_job st' k = map_option (\<lambda>j. if k \<in> set (i # ids) \<and> cj_status j = Requested then expired_job_row now j else j) (find_job st k)
    \<and> find_dispatch st' k = map_option (\<lambda>d. if k \<in> set (i # ids) \<and> cd_state d = Waiting \<and> \<not> cd_submission_possible d
         then expired_dispatch_row now d else d) (find_dispatch st k)" for k
    using R E(1) [of k] E(2) [of k] unfolding expired_view_def
    by (cases "find_job st k"; cases "find_dispatch st k") auto
  with R E(3) show ?case by (simp add: expired_view_def)
qed

lemma unsubmitted_rows_iff:
  "(j, d) \<in> set (unsubmitted_rows st) \<longleftrightarrow> j \<in> set (st_jobs st) \<and> d \<in> set (st_dispatch st) \<and> unsubmitted j d"
  by (auto simp: unsubmitted_rows_def)

lemma expired_ids_iff:
  assumes "queue_keys st"
  shows "k \<in> set (expired_ids now st) \<longleftrightarrow>
    (\<exists>j d. find_job st k = Some j \<and> find_dispatch st k = Some d \<and> unsubmitted j d \<and> expirable now (j, d))"
proof
  assume "k \<in> set (expired_ids now st)"
  then obtain j d where r: "j \<in> set (st_jobs st)" "d \<in> set (st_dispatch st)" "unsubmitted j d" "expirable now (j, d)" "k = cd_job_id d"
    by (auto simp: expired_ids_def unsubmitted_rows_iff)
  then have "cj_job_id j = k" by (simp add: unsubmitted_def)
  with r find_job_mem [OF assms r(1)] find_dispatch_mem [OF assms r(2)]
  show "\<exists>j d. find_job st k = Some j \<and> find_dispatch st k = Some d \<and> unsubmitted j d \<and> expirable now (j, d)" by auto
next
  assume "\<exists>j d. find_job st k = Some j \<and> find_dispatch st k = Some d \<and> unsubmitted j d \<and> expirable now (j, d)"
  then obtain j d where r: "find_job st k = Some j" "find_dispatch st k = Some d" "unsubmitted j d" "expirable now (j, d)"
    by blast
  from find_job_Some [OF r(1)] find_dispatch_Some [OF r(2)] r(3,4)
  have "(j, d) \<in> set (filter (expirable now) (unsubmitted_rows st))" "cd_job_id d = k"
    by (auto simp: unsubmitted_rows_iff)
  then show "k \<in> set (expired_ids now st)" by (force simp: expired_ids_def image_iff)
qed

lemma expire_waiting_view:
  "expire_waiting_connect_jobs now st = Inr (st', ids) \<Longrightarrow>
     expired_view now (set (expired_ids now st)) st st' \<and> ids = expired_ids now st"
  by (auto simp: expire_waiting_connect_jobs_def res_splits intro: expire_jobs_view)

lemma in_flight_simps [simp]:
  "\<not> in_flight Waiting" "\<not> in_flight Terminal" "in_flight Dispatching" "in_flight Reconciling" "in_flight Provider_owned"
  by (simp_all add: in_flight_def)

lemma in_flight_rank: "in_flight s \<longleftrightarrow> dispatch_rank s < 2"
  by (cases s) auto

text \<open>Expiry neither adds nor ends a flight.\<close>

lemma expired_view_flight: "expired_view now ids st st' \<Longrightarrow> flight st' l k \<longleftrightarrow> flight st l k"
  by (cases "find_job st k"; cases "find_dispatch st k") (auto simp: flight_iff expired_view_def)

lemma expire_waiting_queue_ok:
  assumes "expire_waiting_connect_jobs now st = Inr (st', ids)" and ok: "queue_ok st"
  shows "queue_ok st'"
proof -
  let ?E = "set (expired_ids now st)"
  have v: "expired_view now ?E st st'" using expire_waiting_view [OF assms(1)] by simp
  have keys: "queue_keys st" using ok by (simp add: queue_ok_def)
  have "\<exists>j. find_job st' k = Some j \<and> cj_protocol_version j = 2 \<and> active_status (cj_status j)"
    if d': "find_dispatch st' k = Some d'" "in_flight (cd_state d')" for k d'
  proof -
    obtain d where d: "find_dispatch st k = Some d" "in_flight (cd_state d)"
      using v d' by (cases "find_dispatch st k") (auto simp: expired_view_def split: if_splits)
    then obtain j where j: "find_job st k = Some j" "cj_protocol_version j = 2" "active_status (cj_status j)"
      using ok by (auto simp: queue_ok_def)
    have "k \<notin> ?E" using expired_ids_iff [OF keys, of k now] d by (auto simp: unsubmitted_def)
    then show ?thesis using v j by (simp add: expired_view_def)
  qed
  moreover have "queue_keys st'" using v keys by (simp add: expired_view_def)
  ultimately show ?thesis by (simp add: queue_ok_def)
qed

definition queue_inv :: "store \<Rightarrow> bool" where
  "queue_inv st \<longleftrightarrow> queue_ok st \<and> single_flight st"

lemma expire_waiting_inv:
  "expire_waiting_connect_jobs now st = Inr (st', ids) \<Longrightarrow> queue_inv st \<Longrightarrow> queue_inv st'"
  using expire_waiting_view [of now st st' ids] expired_view_flight
  by (auto simp: queue_inv_def single_flight_def intro: expire_waiting_queue_ok)

section \<open>The head of a lane\<close>

lemma queue_rows_iff:
  "(j, d) \<in> set (queue_rows st) \<longleftrightarrow> j \<in> set (st_jobs st) \<and> d \<in> set (st_dispatch st) \<and> queued j d"
  by (auto simp: queue_rows_def)

lemma lane_head_least:
  assumes "lane_head st l = Some (j, d)"
  shows "j \<in> set (st_jobs st)" "d \<in> set (st_dispatch st)" "queued j d" "lane_of j = l"
    and "\<And>j' d'. j' \<in> set (st_jobs st) \<Longrightarrow> d' \<in> set (st_dispatch st) \<Longrightarrow> queued j' d' \<Longrightarrow> lane_of j' = l
       \<Longrightarrow> lane_key (j, d) \<le> lane_key (j', d')"
proof -
  obtain rest where o: "lane_order st l = (j, d) # rest"
    using assms by (auto simp: lane_head_def split: list.splits)
  have set: "set (lane_order st l) = {r \<in> set (queue_rows st). lane_of (fst r) = l}"
    by (simp add: lane_order_def)
  then have "(j, d) \<in> set (queue_rows st) \<and> lane_of j = l" using o by force
  then show "j \<in> set (st_jobs st)" "d \<in> set (st_dispatch st)" "queued j d" "lane_of j = l"
    by (simp_all add: queue_rows_iff)
  have "sorted (map lane_key (lane_order st l))" by (simp add: lane_order_def)
  then have least: "\<forall>r\<in>set (lane_order st l). lane_key (j, d) \<le> lane_key r" using o by auto
  show "lane_key (j, d) \<le> lane_key (j', d')"
    if "j' \<in> set (st_jobs st)" "d' \<in> set (st_dispatch st)" "queued j' d'" "lane_of j' = l" for j' d'
  proof -
    have "(j', d') \<in> set (lane_order st l)" unfolding set using that by (simp add: queue_rows_iff)
    then show ?thesis using least by blast
  qed
qed

text \<open>A job in flight outranks every waiting job of its lane.\<close>

lemma waiting_head_no_flight:
  assumes "queue_ok st" and h: "lane_head st l = Some (j, d)" and "cd_state d = Waiting"
  shows "\<not> flight st l k"
proof
  assume "flight st l k"
  then obtain j' d' where f: "find_job st k = Some j'" "find_dispatch st k = Some d'" "lane_of j' = l"
    "in_flight (cd_state d')" by (auto simp: flight_iff)
  then have a: "cj_protocol_version j' = 2" "active_status (cj_status j')"
    using queue_okD [OF assms(1) f(2,4)] f(1) by auto
  have m: "j' \<in> set (st_jobs st)" "cj_job_id j' = k" "d' \<in> set (st_dispatch st)" "cd_job_id d' = k"
    using find_job_Some [OF f(1)] find_dispatch_Some [OF f(2)] by auto
  then have "queued j' d'" using a f(4) by (auto simp: queued_def in_flight_def)
  then have "lane_key (j, d) \<le> lane_key (j', d')" using lane_head_least(5) [OF h m(1,3) _ f(3)] by blast
  with assms(3) f(4) show False by (auto simp: lane_key_def in_flight_rank)
qed

lemma claimed_dispatch_simps [simp]:
  "cd_job_id (claimed_dispatch now d) = cd_job_id d"
  "in_flight (cd_state d) \<Longrightarrow> in_flight (cd_state (claimed_dispatch now d))"
  "cd_state d = Waiting \<Longrightarrow> cd_state (claimed_dispatch now d) = Dispatching"
  by (auto simp: claimed_dispatch_def in_flight_def)

lemma claim_effect:
  assumes "claim_connect_lane_head now app inst expected st = Inr (st', res)"
  obtains st1 ids where "expire_waiting_connect_jobs now st = Inr (st1, ids)" "st' = st1" "res = None"
  | st1 ids j d where "expire_waiting_connect_jobs now st = Inr (st1, ids)"
      "lane_head st1 (Some app, Some inst) = Some (j, d)"
      "update_dispatch (\<lambda>r. cd_job_id r = cj_job_id j) (claimed_dispatch now) st1 = Inr st'"
      "\<exists>jr dr x. res = Some (jr, dr) \<and> find_job st' (cj_job_id j) = Some jr
        \<and> find_dispatch st' (cj_job_id j) = Some x \<and> cd_state dr = cd_state x"
      "cd_state d \<noteq> Dispatching \<Longrightarrow> attempt_due now d"
      "cd_state d = Waiting \<Longrightarrow> \<not> cd_submission_possible d \<Longrightarrow> content_available st1 (cj_message_id j)"
      "\<forall>e. expected = Some e \<longrightarrow> cj_job_id j = e"
proof -
  note that1 = that(1) and that2 = that(2)
  obtain st1 ids where e: "expire_waiting_connect_jobs now st = Inr (st1, ids)"
    using assms by (auto simp: claim_connect_lane_head_def res_splits)
  show thesis
  proof (cases "lane_head st1 (Some app, Some inst)")
    case None
    with assms e that1 show ?thesis by (auto simp: claim_connect_lane_head_def)
  next
    case (Some r)
    obtain j d where r: "r = (j, d)" by (cases r)
    have "(st' = st1 \<and> res = None)
      \<or> update_dispatch (\<lambda>r. cd_job_id r = cj_job_id j) (claimed_dispatch now) st1 = Inr st'
        \<and> (\<exists>jr dr x. res = Some (jr, dr) \<and> find_job st' (cj_job_id j) = Some jr
        \<and> find_dispatch st' (cj_job_id j) = Some x \<and> cd_state dr = cd_state x)
        \<and> (cd_state d \<noteq> Dispatching \<longrightarrow> attempt_due now d)
        \<and> (cd_state d = Waiting \<longrightarrow> \<not> cd_submission_possible d \<longrightarrow> content_available st1 (cj_message_id j))
        \<and> (\<forall>e. expected = Some e \<longrightarrow> cj_job_id j = e)"
      using assms e Some r
      by (auto simp: claim_connect_lane_head_def res_splits Let_def split: option.splits if_splits)
    with that1 [OF e] that2 [OF e Some [unfolded r]] show ?thesis by blast
  qed
qed

lemma claim_inv:
  assumes "claim_connect_lane_head now app inst expected st = Inr (st', res)" and inv: "queue_inv st"
  shows "queue_inv st'"
  using assms(1)
proof (cases rule: claim_effect)
  case 1
  then show ?thesis using expire_waiting_inv inv by blast
next
  case (2 st1 ids j d)
  have i1: "queue_ok st1" "single_flight st1" using expire_waiting_inv [OF 2(1) inv] by (auto simp: queue_inv_def)
  note U = update_dispatch_effect [OF 2(3) claimed_dispatch_simps(1)]
  have keys: "queue_keys st1" using i1 by (simp add: queue_ok_def)
  have h: "find_job st1 (cj_job_id j) = Some j" "find_dispatch st1 (cj_job_id j) = Some d" "queued j d"
    using lane_head_least(1-3) [OF 2(2)] find_job_mem [OF keys, of j] find_dispatch_mem [OF keys, of d] by (auto simp: queued_def)
  have fl: "flight st' l k \<longleftrightarrow> (if k = cj_job_id j then lane_of j = l else flight st1 l k)" for l k
  proof (cases "k = cj_job_id j")
    case True
    then show ?thesis using h by (auto simp: flight_iff U queued_def claimed_dispatch_def split: dispatch_state.splits)
  next
    case False
    then show ?thesis using find_dispatch_Some [of st1 k] by (auto simp: flight_iff U)
  qed
  have "single_flight st'"
  proof (cases "cd_state d = Waiting")
    case True
    have "lane_of j = (Some app, Some inst)" using lane_head_least(4) [OF 2(2)] .
    with waiting_head_no_flight [OF i1(1) 2(2) True] i1(2) show ?thesis
      by (auto simp: single_flight_def fl split: if_splits)
  next
    case False
    then have "flight st1 (lane_of j) (cj_job_id j)"
      using h by (cases "cd_state d") (auto simp: flight_iff queued_def)
    with i1(2) show ?thesis by (auto simp: single_flight_def fl split: if_splits)
  qed
  moreover have "queue_ok st'"
    unfolding queue_ok_def U(3)
  proof (intro conjI allI impI)
    show "queue_keys st1" by (rule keys)
    fix k d'
    assume d': "find_dispatch st' k = Some d'" "in_flight (cd_state d')"
    show "\<exists>j. find_job st' k = Some j \<and> cj_protocol_version j = 2 \<and> active_status (cj_status j)"
    proof (cases "k = cj_job_id j")
      case True
      then show ?thesis using h by (auto simp: U queued_def)
    next
      case False
      then have "find_dispatch st1 k = Some d'"
        using d'(1) find_dispatch_Some [of st1 k] by (cases "find_dispatch st1 k") (auto simp: U)
      then show ?thesis using d'(2) i1(1) by (auto simp: queue_ok_def U)
    qed
  qed
  ultimately show ?thesis by (simp add: queue_inv_def)
qed

section \<open>Operations on one job\<close>

text \<open>An operation on job \<open>i\<close> that starts no flight keeps the invariant.\<close>

definition only_job :: "pystr \<Rightarrow> store \<Rightarrow> store \<Rightarrow> bool" where
  "only_job i st st' \<longleftrightarrow> (queue_keys st \<longrightarrow> queue_keys st') \<and>
     (\<forall>k. k \<noteq> i \<longrightarrow> find_job st' k = find_job st k \<and> find_dispatch st' k = find_dispatch st k)"

lemma only_job_refl [simp]: "only_job i st st"
  by (simp add: only_job_def)

lemma only_job_trans: "only_job i a b \<Longrightarrow> only_job i b c \<Longrightarrow> only_job i a c"
  by (simp add: only_job_def)

lemma only_job_flight: "only_job i st st' \<Longrightarrow> k \<noteq> i \<Longrightarrow> flight st' l k \<longleftrightarrow> flight st l k"
  by (simp add: only_job_def flight_def)

lemma only_job_inv:
  assumes o: "only_job i st st'" and inv: "queue_inv st"
    and no_start: "\<And>l. flight st' l i \<Longrightarrow> flight st l i"
    and active: "\<And>d. find_dispatch st' i = Some d \<Longrightarrow> in_flight (cd_state d) \<Longrightarrow>
       \<exists>j. find_job st' i = Some j \<and> cj_protocol_version j = 2 \<and> active_status (cj_status j)"
  shows "queue_inv st'"
proof -
  have "flight st' l k \<Longrightarrow> flight st l k" for l k
    using only_job_flight [OF o] no_start by (cases "k = i") auto
  then have "single_flight st'" using inv unfolding queue_inv_def single_flight_def by blast
  moreover have "queue_ok st'"
    unfolding queue_ok_def
  proof (intro conjI allI impI)
    show "queue_keys st'" using o inv by (simp add: only_job_def queue_inv_def queue_ok_def)
    fix k d
    assume d: "find_dispatch st' k = Some d" "in_flight (cd_state d)"
    show "\<exists>j. find_job st' k = Some j \<and> cj_protocol_version j = 2 \<and> active_status (cj_status j)"
      using active d queue_okD [of st k d] inv o by (cases "k = i") (auto simp: only_job_def queue_inv_def)
  qed
  ultimately show ?thesis by (simp add: queue_inv_def)
qed

lemma update_dispatch_only_job:
  assumes "update_dispatch P g st = Inr st'" and "\<And>d. cd_job_id (g d) = cd_job_id d"
    and "\<And>d. P d \<Longrightarrow> cd_job_id d = i"
  shows "only_job i st st'"
  unfolding only_job_def
proof (intro conjI impI allI)
  note U = update_dispatch_effect [OF assms(1,2)]
  show "queue_keys st \<Longrightarrow> queue_keys st'" by (simp add: U(3))
  fix k assume k: "k \<noteq> i"
  show "find_job st' k = find_job st k" by (rule U(2))
  show "find_dispatch st' k = find_dispatch st k"
    using k find_dispatch_Some [of st k] assms(3) by (cases "find_dispatch st k") (auto simp: U(1))
qed

lemma update_jobs_only_job:
  assumes "update_jobs P g st = Inr st'" and "\<And>j. P j \<Longrightarrow> cj_job_id (g j) = cj_job_id j"
    and "\<And>j. P j \<Longrightarrow> cj_job_id j = i"
  shows "only_job i st st'"
  unfolding only_job_def
proof (intro conjI impI allI)
  note U = update_jobs_effect [OF assms(1,2)]
  show "queue_keys st \<Longrightarrow> queue_keys st'" by (simp add: U(3))
  fix k assume k: "k \<noteq> i"
  show "find_dispatch st' k = find_dispatch st k" by (rule U(2))
  show "find_job st' k = find_job st k"
    using k find_job_Some [of st k] assms(3) by (cases "find_job st k") (auto simp: U(1))
qed

lemma queue_inv_same:
  assumes "queue_keys st' \<longleftrightarrow> queue_keys st" "\<And>k. find_job st' k = find_job st k"
    "\<And>k. find_dispatch st' k = find_dispatch st k"
  shows "queue_inv st' \<longleftrightarrow> queue_inv st"
  by (simp add: queue_inv_def queue_ok_def single_flight_def flight_def assms)

lemma update_fires_only_job: "update_fires P g st = Inr st' \<Longrightarrow> only_job i st st'"
  by (simp add: only_job_def update_fires_effect)

lemma deferred_dispatch_simps [simp]:
  "cd_job_id (deferred_dispatch now a c m t d) = cd_job_id d"
  "cd_state (deferred_dispatch now a c m t d) = df_next a"
  "cd_highest_provider_state (deferred_dispatch now a c m t d) = cd_highest_provider_state d"
  "cd_attempt_count (deferred_dispatch now a c m t d) = cd_attempt_count d"
  by (simp_all add: deferred_dispatch_def)

text \<open>A successful deferral, stage by stage.\<close>

lemma defer_stages:
  assumes "defer_connect_job now a st = Inr (st', d')"
  obtains j d code message t st1 st2 where
    "in_flight (df_expected a)" "df_next a \<in> {Waiting, Reconciling, Provider_owned}"
    "find_job st (df_job_id a) = Some j" "find_dispatch st (df_job_id a) = Some d"
    "cd_state d = df_expected a" "active_status (cj_status j)"
    "df_next a = Waiting \<Longrightarrow> cd_highest_provider_state d = Requested"
    "update_dispatch (\<lambda>r. cd_job_id r = df_job_id a \<and> cd_state r = df_expected a)
        (deferred_dispatch now a code message t) st = Inr st1"
    "(if df_pause_fires a then pause_linked_automation_fires now (df_job_id a) st1 else Inr st1) = Inr st2"
    "(if df_next a = Waiting then map_sum id fst (expire_waiting_connect_jobs now st2) else Inr st2) = Inr st'"
  using assms by (auto simp: defer_connect_job_def res_splits Let_def)

lemma defer_inv:
  assumes "defer_connect_job now a st = Inr (st', d')" and inv: "queue_inv st"
  shows "queue_inv st'"
  using assms(1)
proof (rule defer_stages)
  fix j d code message t st1 st2
  assume e: "in_flight (df_expected a)"
    and j: "find_job st (df_job_id a) = Some j" and d: "find_dispatch st (df_job_id a) = Some d"
    and s: "cd_state d = df_expected a" "active_status (cj_status j)"
    and u: "update_dispatch (\<lambda>r. cd_job_id r = df_job_id a \<and> cd_state r = df_expected a)
        (deferred_dispatch now a code message t) st = Inr st1"
    and p: "(if df_pause_fires a then pause_linked_automation_fires now (df_job_id a) st1 else Inr st1) = Inr st2"
    and x: "(if df_next a = Waiting then map_sum id fst (expire_waiting_connect_jobs now st2) else Inr st2) = Inr st'"
  note U = update_dispatch_effect [OF u deferred_dispatch_simps(1)]
  have "cj_protocol_version j = 2"
    using queue_okD [OF _ d] inv j e s by (auto simp: queue_inv_def)
  then have "queue_inv st1"
    using update_dispatch_only_job [OF u] j d s e
    by (intro only_job_inv [OF _ inv]) (auto simp: flight_iff U)
  moreover have "queue_inv st2 \<longleftrightarrow> queue_inv st1"
    using p by (intro queue_inv_same)
      (auto simp: pause_linked_automation_fires_def update_fires_effect split: if_splits)
  ultimately have "queue_inv st2" by simp
  then show ?thesis using x expire_waiting_inv by (auto simp: map_sum_fst_Inr split: if_splits)
qed

lemma reset_job_row_simps [simp]:
  "cj_job_id (reset_job_row now j) = cj_job_id j" "cj_status (reset_job_row now j) = Requested"
  "lane_of (reset_job_row now j) = lane_of j"
  "cj_protocol_version (reset_job_row now j) = cj_protocol_version j"
  by (simp_all add: reset_job_row_def lane_of_def)

lemma reset_stages:
  assumes "reset_connect_job_for_resubmission now i s app inst st = Inr (st', row)"
  obtains j st1 where "find_job st i = Some j" "cj_status j = s" "active_status s"
    "update_jobs (\<lambda>j. cj_job_id j = i \<and> cj_status j = s \<and> cj_provider_app_id j = Some app
        \<and> cj_provider_instance_id j = Some inst) (reset_job_row now) st = Inr st1"
    "if cj_protocol_version j = 2 then
       (\<exists>d. find_dispatch st i = Some d \<and> cd_highest_provider_state d = Requested
          \<and> cd_state d \<in> {Waiting, Dispatching, Reconciling})
       \<and> update_dispatch (\<lambda>d. cd_job_id d = i \<and> cd_highest_provider_state d = Requested
           \<and> cd_state d \<in> {Waiting, Dispatching, Reconciling})
         (\<lambda>d. d\<lparr>cd_state := Waiting, cd_submission_possible := False, cd_next_attempt_at := None,
              cd_updated_at := now\<rparr>) st1 = Inr st'
     else st' = st1"
  using assms
  by (auto simp: reset_connect_job_for_resubmission_def res_splits Let_def split: if_splits)

lemma reset_inv:
  assumes "reset_connect_job_for_resubmission now i s app inst st = Inr (st', row)" and inv: "queue_inv st"
  shows "queue_inv st' \<and> only_job i st st' \<and> (\<forall>l. \<not> flight st' l i)"
  using assms(1)
proof (rule reset_stages)
  let ?g = "\<lambda>d::connect_dispatch. d\<lparr>cd_state := Waiting, cd_submission_possible := False, cd_next_attempt_at := None,
              cd_updated_at := now\<rparr>"
  let ?Q = "\<lambda>d::connect_dispatch. cd_job_id d = i \<and> cd_highest_provider_state d = Requested
           \<and> cd_state d \<in> {Waiting, Dispatching, Reconciling}"
  fix j st1
  assume j: "find_job st i = Some j" "cj_status j = s" "active_status s"
    and u: "update_jobs (\<lambda>j. cj_job_id j = i \<and> cj_status j = s \<and> cj_provider_app_id j = Some app
        \<and> cj_provider_instance_id j = Some inst) (reset_job_row now) st = Inr st1"
    and v: "if cj_protocol_version j = 2 then
       (\<exists>d. find_dispatch st i = Some d \<and> cd_highest_provider_state d = Requested
          \<and> cd_state d \<in> {Waiting, Dispatching, Reconciling})
       \<and> update_dispatch ?Q ?g st1 = Inr st'
     else st' = st1"
  note U = update_jobs_effect [OF u reset_job_row_simps(1)]
  have o1: "only_job i st st1" using u by (rule update_jobs_only_job) auto
  have both: "(\<forall>l. \<not> flight st' l i) \<and> only_job i st st'"
  proof (cases "cj_protocol_version j = 2")
    case True
    with v obtain d where d: "find_dispatch st i = Some d" "cd_highest_provider_state d = Requested"
        "cd_state d \<in> {Waiting, Dispatching, Reconciling}" and w: "update_dispatch ?Q ?g st1 = Inr st'"
      by auto
    have "find_dispatch st' i = Some (?g d)"
      using update_dispatch_effect(1) [OF w, of i] d find_dispatch_Some [OF d(1)] by (simp add: U(2))
    moreover have "only_job i st1 st'" using w by (rule update_dispatch_only_job) auto
    ultimately show ?thesis using o1 only_job_trans by (auto simp: flight_iff)
  next
    case False
    then have "st' = st1" using v by simp
    moreover have "\<not> in_flight (cd_state d)" if "find_dispatch st i = Some d" for d
      using queue_okD [OF _ that] inv j(1) False by (auto simp: queue_inv_def)
    ultimately show ?thesis using o1 by (auto simp: flight_iff U(2))
  qed
  then have none: "\<not> flight st' l i" and o: "only_job i st st'" for l by blast+
  have "\<exists>x. find_job st' i = Some x"
    using v U(1) [of i] j(1) update_dispatch_effect(2) [of ?Q ?g st1 st' i] by (auto split: if_splits)
  then have nf: "\<not> in_flight (cd_state d)" if "find_dispatch st' i = Some d" for d
    using none [of "lane_of (the (find_job st' i))"] that by (auto simp: flight_iff)
  have "queue_inv st'"
  proof (rule only_job_inv [OF o inv])
    show "flight st l i" if "flight st' l i" for l using that none by simp
    show "\<exists>j. find_job st' i = Some j \<and> cj_protocol_version j = 2 \<and> active_status (cj_status j)"
      if "find_dispatch st' i = Some d" "in_flight (cd_state d)" for d using that nf by simp
  qed
  then show ?thesis using none o by simp
qed

lemma insert_job_effect:
  assumes "insert_job j st = Inr st'"
  shows "only_job (cj_job_id j) st st'" "find_job st (cj_job_id j) = None"
    "find_job st' (cj_job_id j) = Some j" "find_dispatch st' k = find_dispatch st k"
proof -
  have st': "st' = st\<lparr>st_jobs := st_jobs st @ [j]\<rparr>" and new: "cj_job_id j \<notin> cj_job_id ` set (st_jobs st)"
    using assms by (auto simp: insert_job_def res_splits)
  show "only_job (cj_job_id j) st st'" "find_job st' (cj_job_id j) = Some j" "find_dispatch st' k = find_dispatch st k"
    using new by (simp_all add: st' only_job_def find_job_def find_dispatch_def find_key_insert queue_keys_def)
  show "find_job st (cj_job_id j) = None" using new by (simp add: find_job_def find_key_None)
qed

lemma insert_dispatch_effect:
  assumes "insert_dispatch d st = Inr st'"
  shows "only_job (cd_job_id d) st st'" "find_dispatch st' (cd_job_id d) = Some d" "find_job st' k = find_job st k"
proof -
  have st': "st' = st\<lparr>st_dispatch := st_dispatch st @ [d]\<rparr>" and new: "cd_job_id d \<notin> cd_job_id ` set (st_dispatch st)"
    using assms by (auto simp: insert_dispatch_def res_splits)
  show "only_job (cd_job_id d) st st'" "find_dispatch st' (cd_job_id d) = Some d" "find_job st' k = find_job st k"
    using new by (simp_all add: st' only_job_def find_job_def find_dispatch_def find_key_insert queue_keys_def)
qed

lemma new_row_simps [simp]:
  "cj_job_id (new_job_row now fp n) = nj_job_id n" "cd_job_id (new_dispatch_row now pr n) = nj_job_id n"
  "cd_state (new_dispatch_row now pr n) = Waiting" "cj_status (new_job_row now fp n) = Requested"
  "lane_of (new_job_row now fp n) = (Some (nj_provider_app_id n), Some (nj_provider_instance_id n))"
  by (simp_all add: new_job_row_def new_dispatch_row_def lane_of_def)

text \<open>Creation joins an active job, adds a waiting one, or adds a version 1 job.\<close>

lemma create_stages:
  assumes "create_connect_job now fp pr n st = Inr (st', row)"
  obtains (join) ids where "nj_protocol_version n = 2" "expire_waiting_connect_jobs now st = Inr (st', ids)"
      "\<exists>f. row \<in> set (joinable_jobs st' n f)" "cj_job_id row \<noteq> nj_job_id n"
  | (add) st1 ids st2 f p where "nj_protocol_version n = 2" "expire_waiting_connect_jobs now st = Inr (st1, ids)"
      "joinable_jobs st1 n f = []"
      "lane_size st1 (Some (nj_provider_app_id n), Some (nj_provider_instance_id n)) < CONNECT_QUEUE_MAX_JOBS"
      "insert_job (new_job_row now f n) st1 = Inr st2" "insert_dispatch (new_dispatch_row now p n) st2 = Inr st'"
      "find_job st' (nj_job_id n) = Some row"
  | (v1) f where "nj_protocol_version n \<noteq> 2" "insert_job (new_job_row now f n) st = Inr st'"
proof -
  obtain f p where c: "check_new_job fp pr n = Inr (f, p)"
    using assms by (auto simp: create_connect_job_def res_splits)
  show thesis
  proof (cases "nj_protocol_version n = 2")
    case True
    then obtain st1 ids where e: "expire_waiting_connect_jobs now st = Inr (st1, ids)"
      using assms c by (auto simp: create_connect_job_def res_splits)
    show ?thesis
    proof (cases "joinable_jobs st1 n f")
      case Nil
      then show ?thesis using assms c e True add [OF True e Nil]
        by (auto simp: create_connect_job_def res_splits)
    next
      case (Cons x xs)
      then have "st' = st1 \<and> row = x \<and> cj_job_id x \<noteq> nj_job_id n"
        using assms c e True by (auto simp: create_connect_job_def res_splits split: if_splits)
      then show ?thesis using join [OF True, of ids] e Cons by (metis list.set_intros(1))
    qed
  next
    case False
    then show ?thesis using assms c v1 by (auto simp: create_connect_job_def res_splits)
  qed
qed

lemma create_inv:
  assumes "create_connect_job now fp pr n st = Inr (st', row)" and inv: "queue_inv st"
  shows "queue_inv st'"
  using assms(1)
proof (cases rule: create_stages)
  case (join ids)
  then show ?thesis using expire_waiting_inv inv by blast
next
  case (add st1 ids st2 f p)
  note I = insert_job_effect [OF add(5), simplified] and D = insert_dispatch_effect [OF add(6), simplified]
  have i1: "queue_inv st1" using expire_waiting_inv [OF add(2) inv] .
  have "only_job (nj_job_id n) st1 st'" using only_job_trans I(1) D(1) by blast
  then show ?thesis using D(2) by (intro only_job_inv [OF _ i1]) (auto simp: flight_iff)
next
  case (v1 f)
  note I = insert_job_effect [OF v1(2), simplified]
  have "\<not> in_flight (cd_state d)" if "find_dispatch st (nj_job_id n) = Some d" for d
    using queue_okD [OF _ that] inv I(2) by (auto simp: queue_inv_def)
  then show ?thesis by (intro only_job_inv [OF I(1) inv]) (auto simp: flight_iff I(4))
qed

section \<open>Transitions\<close>

lemma settle_fires_effect:
  assumes "settle_fires now s r i st = Inr st'"
  shows "find_job st' k = find_job st k" "find_dispatch st' k = find_dispatch st k"
    "queue_keys st' \<longleftrightarrow> queue_keys st"
  using assms by (auto simp: settle_fires_def update_fires_effect)

lemma delete_jobs_where_effect:
  assumes "delete_jobs_where clock P st = Inr st'" and "\<And>j. P j \<Longrightarrow> cj_job_id j = i"
  shows "only_job i st st' \<and> (find_job st' i = find_job st i \<and> find_dispatch st' i = find_dispatch st i
     \<or> find_job st' i = None \<and> find_dispatch st' i = None)"
proof -
  have "k \<notin> cj_job_id ` set (filter P (st_jobs st))" if "k \<noteq> i" for k using assms(2) that by auto
  then show ?thesis
    using delete_connect_jobs_effect [OF assms(1) [unfolded delete_jobs_where_def]] by (auto simp: only_job_def)
qed

lemma settle_certificate_effect:
  assumes "settle_certificate clock now verdict i st = Inr (st', gone)"
  shows "only_job i st st' \<and> (find_job st' i = find_job st i \<and> find_dispatch st' i = find_dispatch st i
     \<or> find_job st' i = None \<and> find_dispatch st' i = None)"
proof (cases verdict)
  case None
  then show ?thesis using assms by (simp add: settle_certificate_def)
next
  case (Some v)
  then obtain s r st1 where f: "settle_fires now s r i st = Inr st1"
    and d: "discard_settled_source_less_certificate_job clock now (certificate_failure_reason v) i st1 = Inr (st', gone)"
    using assms by (auto simp: settle_certificate_def res_splits split: option.splits)
  note F = settle_fires_effect [OF f]
  have "only_job i st1 st' \<and> (find_job st' i = find_job st1 i \<and> find_dispatch st' i = find_dispatch st1 i
     \<or> find_job st' i = None \<and> find_dispatch st' i = None)"
  proof -
    consider "st' = st1"
      | st2 where "delete_jobs_where clock (\<lambda>j. cj_job_id j = i \<and> cj_status j = Completed) st1 = Inr st2"
          "st' = st2 \<or> (\<exists>P g. update_fires P g st2 = Inr st')"
      using d by (auto simp: discard_settled_source_less_certificate_job_def res_splits Let_def
          split: option.splits if_splits)
    then show ?thesis
    proof cases
      case (2 st2)
      then have "find_job st' k = find_job st2 k" "find_dispatch st' k = find_dispatch st2 k"
        "queue_keys st' \<longleftrightarrow> queue_keys st2" for k using update_fires_effect by auto
      then show ?thesis using delete_jobs_where_effect [OF 2(1), of i] by (simp add: only_job_def)
    qed simp
  qed
  then show ?thesis by (simp add: F only_job_def)
qed

lemma transition_row_simps:
  assumes "transition_row now t j = Inr row"
  shows "cj_job_id row = cj_job_id j" "cj_status row = jt_next t"
    "cj_protocol_version row = cj_protocol_version j"
    "lane_of row = (Some (jt_app t), Some (jt_instance t))"
  using assms
  by (auto simp: transition_row_def transition_base_def reset_job_row_def lane_of_def res_splits Let_def
      split: option.splits if_splits)

lemma transition_dispatch_simps [simp]:
  "cd_job_id (transition_dispatch now s d) = cd_job_id d"
  "cd_state (transition_dispatch now s d) = (if s \<in> {Accepted, Processing} then Provider_owned else Terminal)"
  "cd_attempt_count (transition_dispatch now s d) = cd_attempt_count d"
  by (simp_all add: transition_dispatch_def)

text \<open>What a reported transition does to its job: it is gone, or it has the new status and dispatch.\<close>

lemma transition_effect:
  assumes "transition_connect_job clock now t st = Inr (st', r)"
  obtains j where "find_job st (jt_job_id t) = Some j" "cj_status j = jt_expected t"
    "jt_next t \<in> set (allowed_next (jt_expected t))"
    "only_job (jt_job_id t) st st'"
    "find_job st' (jt_job_id t) = None \<and> find_dispatch st' (jt_job_id t) = None \<and> jt_next t \<in> {Completed, Failed}
     \<or> (\<exists>row. find_job st' (jt_job_id t) = Some row \<and> cj_status row = jt_next t
          \<and> cj_protocol_version row = cj_protocol_version j
          \<and> (if cj_protocol_version j = 2
             then lane_of row = lane_of j \<and> (\<exists>d. find_dispatch st (jt_job_id t) = Some d
                 \<and> find_dispatch st' (jt_job_id t) = Some (transition_dispatch now (jt_next t) d))
             else find_dispatch st' (jt_job_id t) = find_dispatch st (jt_job_id t)))"
proof -
  let ?i = "jt_job_id t"
  obtain j db row st2 st3 g where chk: "check_job_transition t = Inr ()"
    and j: "find_job st ?i = Some j" "cj_status j = jt_expected t" and row: "transition_row now t j = Inr row"
    and prov: "cj_protocol_version j = 2 \<longrightarrow> lane_of j = (Some (jt_app t), Some (jt_instance t))"
    and db: "reported_dispatch st j = Inr db"
    and body: "(if discard_terminal st t j db then discard_reported clock now t st
               else keep_reported now t j row st) = Inr st2"
    and c3: "settle_certificate clock now (certificate_verdict t j) ?i st2 = Inr (st3, g)"
    and fin: "(if discard_terminal st t j db \<or> g then Inr (st3, row)
      else andThen (the_row (RuntimeError ''Connect job was not readable after transition'') (find_job st3 ?i))
        (\<lambda>row. Inr (st3, row))) = Inr (st', r)"
    using assms by (auto simp: transition_connect_job_def res_splits Let_def lane_of_def
        simp del: if_Inl_Inr)
  have "st3 = st'" using fin by (auto simp: res_splits split: if_splits)
  with c3 have c: "settle_certificate clock now (certificate_verdict t j) ?i st2 = Inr (st', g)" by simp
  have al: "jt_next t \<in> set (allowed_next (jt_expected t))" and res: "jt_result t \<noteq> None \<Longrightarrow> jt_next t = Completed"
    using chk by (auto simp: check_job_transition_def res_splits split: if_splits)
  have jid: "cj_job_id j = ?i" "j \<in> set (st_jobs st)" using find_job_Some [OF j(1)] by auto
  note C = settle_certificate_effect [OF c]
  show thesis
  proof (cases "discard_terminal st t j db")
    case True
    with body obtain s x st1 where f: "settle_fires now s x ?i st = Inr st1"
      and d: "delete_jobs_where clock (is_reported_job t) st1 = Inr st2"
      by (auto simp: discard_reported_def res_splits)
    note F = settle_fires_effect [OF f]
    have "j \<in> set (filter (is_reported_job t) (st_jobs st1))"
      using find_job_Some [of st1 ?i j] F(1) [of ?i] j by (auto simp: is_reported_job_def)
    then have "?i \<in> cj_job_id ` set (filter (is_reported_job t) (st_jobs st1))" using jid by (metis image_eqI)
    then have gone: "find_job st2 ?i = None" "find_dispatch st2 ?i = None"
      using delete_connect_jobs_effect [OF d [unfolded delete_jobs_where_def], of ?i] by simp_all
    have "only_job ?i st1 st2"
      using delete_jobs_where_effect [OF d, of ?i] by (simp add: is_reported_job_def)
    then have "only_job ?i st st'" using C F by (simp add: only_job_def)
    moreover have "jt_next t \<in> {Completed, Failed}" using True by (auto simp: discard_terminal_def split: option.splits)
    moreover have "find_job st' ?i = None \<and> find_dispatch st' ?i = None" using C gone by auto
    ultimately show ?thesis using that [OF j al] by blast
  next
    case False
    with body obtain st1 where u: "update_jobs (is_reported_job t) (\<lambda>_. row) st = Inr st1"
      and v: "(if cj_protocol_version j = 2
             then update_dispatch (\<lambda>d. cd_job_id d = ?i) (transition_dispatch now (jt_next t)) st1 else Inr st1) = Inr st2"
      by (auto simp: keep_reported_def res_splits)
    note R = transition_row_simps [OF row]
    have keep: "is_reported_job t x \<Longrightarrow> cj_job_id row = cj_job_id x" for x
      using R(1) jid by (simp add: is_reported_job_def)
    have U: "only_job ?i st st1" "find_job st1 ?i = Some row" "find_dispatch st1 k = find_dispatch st k" for k
      using update_jobs_effect(1,2) [OF u keep] update_jobs_only_job [OF u keep] j jid
      by (auto simp: is_reported_job_def)
    have V: "only_job ?i st1 st2 \<and> find_job st2 ?i = Some row \<and>
        (if cj_protocol_version j = 2 then \<exists>d. find_dispatch st ?i = Some d
           \<and> find_dispatch st2 ?i = Some (transition_dispatch now (jt_next t) d)
         else find_dispatch st2 ?i = find_dispatch st ?i)"
    proof (cases "cj_protocol_version j = 2")
      case True
      then have w: "update_dispatch (\<lambda>d. cd_job_id d = ?i) (transition_dispatch now (jt_next t)) st1 = Inr st2"
        using v by simp
      obtain d where d: "find_dispatch st ?i = Some d"
        using db True jid by (auto simp: reported_dispatch_def res_splits)
      note W = update_dispatch_effect [OF w transition_dispatch_simps(1)]
      have "only_job ?i st1 st2" by (rule update_dispatch_only_job [OF w]) simp_all
      then show ?thesis using True d U(2,3) find_dispatch_Some [OF d] by (simp add: W)
    qed (use v U in simp)
    have o: "only_job ?i st st'" using U(1) V C only_job_trans by blast
    show ?thesis
    proof (cases "certificate_verdict t j")
      case None
      then have "st' = st2" using c by (simp add: settle_certificate_def)
      with that [OF j al o] V R prov show ?thesis by (simp split: if_splits)
    next
      case (Some w)
      then have "jt_next t \<in> {Completed, Failed}"
        using res by (simp add: certificate_verdict_def split: option.splits)
      with C that [OF j al o] V R prov show ?thesis by (auto split: if_splits)
    qed
  qed
qed

section \<open>Histories of queue operations\<close>

datatype queue_op =
    Q_expire instant
  | Q_due instant nat
  | Q_claim instant pystr pystr "pystr option"
  | Q_defer instant deferral
  | Q_create instant "err + pystr" "err + pystr" new_job
  | Q_reset instant pystr job_status pystr pystr
  | Q_report instant instant job_transition

fun queue_exec :: "store \<Rightarrow> queue_op \<Rightarrow> err + store" where
  "queue_exec st (Q_expire now) = map_sum id fst (expire_waiting_connect_jobs now st)"
| "queue_exec st (Q_due now limit) = map_sum id fst (due_connect_lane_heads now limit st)"
| "queue_exec st (Q_claim now app inst e) = map_sum id fst (claim_connect_lane_head now app inst e st)"
| "queue_exec st (Q_defer now a) = map_sum id fst (defer_connect_job now a st)"
| "queue_exec st (Q_create now fp pr n) = map_sum id fst (create_connect_job now fp pr n st)"
| "queue_exec st (Q_reset now i s app inst) = map_sum id fst (reset_connect_job_for_resubmission now i s app inst st)"
| "queue_exec st (Q_report clock now t) = map_sum id fst (transition_connect_job clock now t st)"

text \<open>
  A provider accepts only a job that was dispatched to it: a report of acceptance is \<open>driven\<close> when
  its job is in flight. A history skips reports that are not.
\<close>

fun driven :: "store \<Rightarrow> queue_op \<Rightarrow> bool" where
  "driven st (Q_report clock now t) =
     (jt_next t \<in> {Accepted, Processing} \<longrightarrow>
       (case find_dispatch st (jt_job_id t) of None \<Rightarrow> True | Some d \<Rightarrow> in_flight (cd_state d)))"
| "driven st _ = True"

definition queue_step :: "store \<Rightarrow> queue_op \<Rightarrow> store" where
  "queue_step st op = (if driven st op then committed queue_exec st op else st)"

fun queue_attempt :: "store \<Rightarrow> queue_op \<Rightarrow> lane option" where
  "queue_attempt st (Q_claim now app inst e) =
     (case claim_connect_lane_head now app inst e st of
        Inr (_, Some (_, d)) \<Rightarrow> if cd_state d = Dispatching then Some (Some app, Some inst) else None
      | _ \<Rightarrow> None)"
| "queue_attempt st _ = None"

definition job_in_lane :: "store \<Rightarrow> pystr \<Rightarrow> lane \<Rightarrow> bool" where
  "job_in_lane st i l = (case find_job st i of None \<Rightarrow> False | Some j \<Rightarrow> lane_of j = l)"

fun queue_releases :: "store \<Rightarrow> queue_op \<Rightarrow> lane \<Rightarrow> bool" where
  "queue_releases st (Q_defer now a) l = (df_next a = Waiting \<and> job_in_lane st (df_job_id a) l)"
| "queue_releases st (Q_reset now i s app inst) l = job_in_lane st i l"
| "queue_releases st (Q_report clock now t) l = (jt_next t \<in> {Completed, Failed} \<and> job_in_lane st (jt_job_id t) l)"
| "queue_releases st _ l = False"

definition lane_busy :: "store \<Rightarrow> lane \<Rightarrow> bool" where
  "lane_busy st l \<longleftrightarrow> (\<exists>k. flight st l k)"

lemma report_inv:
  assumes "transition_connect_job clock now t st = Inr (st', r)" and inv: "queue_inv st"
    and dr: "driven st (Q_report clock now t)"
  shows "queue_inv st'"
  using assms(1)
proof (rule transition_effect)
  fix j
  let ?i = "jt_job_id t"
  assume j: "find_job st ?i = Some j" and o: "only_job ?i st st'"
    and e: "find_job st' ?i = None \<and> find_dispatch st' ?i = None \<and> jt_next t \<in> {Completed, Failed}
     \<or> (\<exists>row. find_job st' ?i = Some row \<and> cj_status row = jt_next t
          \<and> cj_protocol_version row = cj_protocol_version j
          \<and> (if cj_protocol_version j = 2
             then lane_of row = lane_of j \<and> (\<exists>d. find_dispatch st ?i = Some d
                 \<and> find_dispatch st' ?i = Some (transition_dispatch now (jt_next t) d))
             else find_dispatch st' ?i = find_dispatch st ?i))"
  have v1: "\<not> in_flight (cd_state d)" if "cj_protocol_version j \<noteq> 2" "find_dispatch st ?i = Some d" for d
    using queue_okD [OF _ that(2)] inv j that(1) by (auto simp: queue_inv_def)
  show ?thesis
  proof (rule only_job_inv [OF o inv])
    show "flight st l ?i" if "flight st' l ?i" for l
      using that e v1 j dr by (auto simp: flight_iff split: if_splits)
    show "\<exists>j. find_job st' ?i = Some j \<and> cj_protocol_version j = 2 \<and> active_status (cj_status j)"
      if "find_dispatch st' ?i = Some d" "in_flight (cd_state d)" for d
      using that e v1 by (auto simp: active_status_def split: if_splits)
  qed
qed

lemma queue_exec_inv:
  assumes "queue_exec st op = Inr st'" and "queue_inv st" and "driven st op"
  shows "queue_inv st'"
  using assms
  by (cases op) (auto simp: map_sum_fst_Inr due_connect_lane_heads_def res_splits
      intro: expire_waiting_inv claim_inv defer_inv create_inv report_inv dest: reset_inv)

lemma queue_step_inv: "queue_inv st \<Longrightarrow> queue_inv (queue_step st op)"
  by (auto simp: queue_step_def committed_def intro: queue_exec_inv split: sum.splits)

text \<open>Only a settlement of the lane's own job frees the lane.\<close>

lemma only_job_keeps_busy:
  assumes "only_job i st st'" and "flight st l k" and "k = i \<Longrightarrow> flight st' l i"
  shows "lane_busy st' l"
  using assms only_job_flight [OF assms(1), of k l] unfolding lane_busy_def by (cases "k = i") auto

lemma claim_busy:
  assumes "claim_connect_lane_head now app inst e st = Inr (st', res)" and inv: "queue_inv st" and "flight st l k"
  shows "flight st' l k"
  using assms(1)
proof (cases rule: claim_effect)
  case 1
  then show ?thesis using expire_waiting_view expired_view_flight assms(3) by blast
next
  case (2 st1 ids j d)
  have "flight st1 l k" using expire_waiting_view [OF 2(1)] expired_view_flight assms(3) by blast
  then obtain j0 d0 where f: "find_job st1 k = Some j0" "find_dispatch st1 k = Some d0" "lane_of j0 = l"
    "in_flight (cd_state d0)" by (auto simp: flight_iff)
  then show ?thesis
    using update_dispatch_effect(1,2) [OF 2(3) claimed_dispatch_simps(1), of k] by (simp add: flight_def)
qed

lemma defer_busy:
  assumes "defer_connect_job now a st = Inr (st', d')" and "flight st l k"
    and "\<not> (df_next a = Waiting \<and> job_in_lane st (df_job_id a) l)"
  shows "flight st' l k"
  using assms(1)
proof (rule defer_stages)
  fix j d code message t st1 st2
  assume n: "df_next a \<in> {Waiting, Reconciling, Provider_owned}"
    and u: "update_dispatch (\<lambda>r. cd_job_id r = df_job_id a \<and> cd_state r = df_expected a)
        (deferred_dispatch now a code message t) st = Inr st1"
    and p: "(if df_pause_fires a then pause_linked_automation_fires now (df_job_id a) st1 else Inr st1) = Inr st2"
    and x: "(if df_next a = Waiting then map_sum id fst (expire_waiting_connect_jobs now st2) else Inr st2) = Inr st'"
  note U = update_dispatch_effect [OF u deferred_dispatch_simps(1)]
  obtain j0 d0 where f: "find_job st k = Some j0" "find_dispatch st k = Some d0" "lane_of j0 = l"
    "in_flight (cd_state d0)" using assms(2) by (auto simp: flight_iff)
  have "k = df_job_id a \<Longrightarrow> df_next a \<noteq> Waiting" using assms(3) f by (auto simp: job_in_lane_def)
  then have "flight st1 l k"
    using U(1,2) [of k] f n find_dispatch_Some [OF f(2)] by (auto simp: flight_def)
  then have "flight st2 l k"
    using p by (auto simp: pause_linked_automation_fires_def update_fires_effect flight_iff split: if_splits)
  moreover have "st' = st2 \<or> (\<exists>ids. expire_waiting_connect_jobs now st2 = Inr (st', ids))"
    using x by (auto simp: map_sum_fst_Inr split: if_splits)
  ultimately show ?thesis using expire_waiting_view expired_view_flight by blast
qed

lemma create_busy:
  assumes "create_connect_job now fp pr n st = Inr (st', row)" and inv: "queue_inv st" and f: "flight st l k"
  shows "flight st' l k"
  using assms(1)
proof (cases rule: create_stages)
  case (join ids)
  then show ?thesis using expire_waiting_view expired_view_flight f by blast
next
  case (add st1 ids st2 g p)
  have f1: "flight st1 l k" using expire_waiting_view [OF add(2)] expired_view_flight f by blast
  have "only_job (nj_job_id n) st1 st'"
    using insert_job_effect(1) [OF add(5)] insert_dispatch_effect(1) [OF add(6)] only_job_trans by simp
  moreover have "k \<noteq> nj_job_id n" using f1 insert_job_effect(2) [OF add(5)] by (auto simp: flight_iff)
  ultimately show ?thesis using only_job_flight f1 by blast
next
  case (v1 g)
  have "k \<noteq> nj_job_id n" using f insert_job_effect(2) [OF v1(2)] by (auto simp: flight_iff)
  then show ?thesis using only_job_flight insert_job_effect(1) [OF v1(2)] f by simp
qed

lemma report_busy:
  assumes "transition_connect_job clock now t st = Inr (st', r)" and inv: "queue_inv st" and f: "flight st l k"
    and n: "\<not> (jt_next t \<in> {Completed, Failed} \<and> job_in_lane st (jt_job_id t) l)"
  shows "lane_busy st' l"
  using assms(1)
proof (rule transition_effect)
  fix j
  let ?i = "jt_job_id t"
  assume j: "find_job st ?i = Some j" "cj_status j = jt_expected t" "jt_next t \<in> set (allowed_next (jt_expected t))"
    and o: "only_job ?i st st'"
    and e: "find_job st' ?i = None \<and> find_dispatch st' ?i = None \<and> jt_next t \<in> {Completed, Failed}
     \<or> (\<exists>row. find_job st' ?i = Some row \<and> cj_status row = jt_next t
          \<and> cj_protocol_version row = cj_protocol_version j
          \<and> (if cj_protocol_version j = 2
             then lane_of row = lane_of j \<and> (\<exists>d. find_dispatch st ?i = Some d
                 \<and> find_dispatch st' ?i = Some (transition_dispatch now (jt_next t) d))
             else find_dispatch st' ?i = find_dispatch st ?i))"
  show ?thesis
  proof (rule only_job_keeps_busy [OF o f])
    assume k: "k = ?i"
    with f j(1) have lane: "lane_of j = l" "job_in_lane st ?i l" by (auto simp: flight_iff job_in_lane_def)
    then have "jt_next t \<in> {Accepted, Processing}" using n j(3) by (cases "jt_expected t") auto
    moreover have "cj_protocol_version j = 2"
      using f k queue_okD [of st ?i] inv j(1) by (fastforce simp: flight_iff queue_inv_def)
    ultimately show "flight st' l ?i" using e lane by (auto simp: flight_iff)
  qed
qed

lemma dispatch_starts_flight:
  assumes "claim_connect_lane_head now app inst e st = Inr (st', Some (jr, dr))" and inv: "queue_inv st"
    and dr: "cd_state dr = Dispatching"
  shows "(\<forall>k. \<not> flight st (Some app, Some inst) k) \<and> (\<exists>k. flight st' (Some app, Some inst) k)"
  using assms(1)
proof (cases rule: claim_effect)
  case (2 st1 ids j d)
  have i1: "queue_ok st1" using expire_waiting_inv [OF 2(1) inv] by (simp add: queue_inv_def)
  then have keys: "queue_keys st1" by (simp add: queue_ok_def)
  note h = lane_head_least [OF 2(2)]
  have id: "cj_job_id j = cd_job_id d" using h(3) by (simp add: queued_def)
  have fd: "find_dispatch st1 (cj_job_id j) = Some d" "find_job st1 (cj_job_id j) = Some j"
    using find_dispatch_mem [OF keys h(2)] find_job_mem [OF keys h(1)] id by simp_all
  note U = update_dispatch_effect [OF 2(3) claimed_dispatch_simps(1)]
  have fd': "find_dispatch st' (cj_job_id j) = Some (claimed_dispatch now d)" using U(1) fd(1) id by simp
  then have "cd_state (claimed_dispatch now d) = Dispatching" using 2(4) dr by auto
  then have w: "cd_state d = Waiting" by (cases "cd_state d") (auto simp: claimed_dispatch_def)
  have "flight st' (Some app, Some inst) (cj_job_id j)" using fd' fd(2) h(4) w by (simp add: flight_def U(2))
  moreover have "\<not> flight st (Some app, Some inst) k" for k
    using waiting_head_no_flight [OF i1 2(2) w] expire_waiting_view [OF 2(1)] expired_view_flight by blast
  ultimately show ?thesis by blast
qed simp

interpretation lq: once_guard queue_step queue_attempt queue_releases lane_busy queue_inv
proof
  fix s e
  assume "queue_inv s"
  then show "queue_inv (queue_step s e)" by (rule queue_step_inv)
next
  fix s e k
  assume inv: "queue_inv s" and a: "queue_attempt s e = Some k"
  then obtain now app inst x s' j d where e: "e = Q_claim now app inst x" "k = (Some app, Some inst)"
    "claim_connect_lane_head now app inst x s = Inr (s', Some (j, d))" "cd_state d = Dispatching"
    by (cases e) (auto split: sum.splits prod.splits option.splits if_splits)
  have st: "queue_step s e = s'" using e by (simp add: queue_step_def committed_def)
  have "\<not> lane_busy s k \<and> lane_busy s' k"
    using dispatch_starts_flight [OF e(3) inv e(4)] e(2) by (auto simp: lane_busy_def)
  then show "\<not> lane_busy s k" "lane_busy (queue_step s e) k" using st by auto
next
  fix s e k
  assume inv: "queue_inv s" and b: "lane_busy s k" and n: "\<not> queue_releases s e k"
  then obtain i where f: "flight s k i" by (auto simp: lane_busy_def)
  show "lane_busy (queue_step s e) k"
  proof (cases "driven s e \<and> is_ok (queue_exec s e)")
    case True
    then obtain s' where ex: "queue_exec s e = Inr s'" and st: "queue_step s e = s'"
      by (auto simp: is_ok_iff queue_step_def committed_Inr)
    show ?thesis unfolding st
    proof (cases e)
      case (Q_report clock now t)
      then show "lane_busy s' k" using ex n report_busy [OF _ inv f] by (auto simp: map_sum_fst_Inr)
    next
      case (Q_reset now i0 s0 app inst)
      then have "only_job i0 s s'" "i \<noteq> i0"
        using ex n f reset_inv [OF _ inv] by (auto simp: map_sum_fst_Inr job_in_lane_def flight_iff)
      then show "lane_busy s' k" using only_job_flight f unfolding lane_busy_def by blast
    qed (use ex n inv f in \<open>auto simp: map_sum_fst_Inr due_connect_lane_heads_def res_splits lane_busy_def
        intro: claim_busy defer_busy create_busy dest!: expire_waiting_view dest: expired_view_flight\<close>)
  next
    case False
    then show ?thesis using b by (cases "queue_exec s e") (auto simp: queue_step_def committed_Inl)
  qed
qed

section \<open>Work the provider accepted\<close>

definition accepted_dispatch :: "nat \<Rightarrow> connect_dispatch \<Rightarrow> bool" where
  "accepted_dispatch n d \<longleftrightarrow> cd_highest_provider_state d \<noteq> Requested \<and> cd_state d \<noteq> Waiting \<and> cd_attempt_count d = n"

definition gone_or_accepted :: "nat \<Rightarrow> connect_dispatch option \<Rightarrow> bool" where
  "gone_or_accepted n d \<longleftrightarrow> d = None \<or> (\<exists>x. d = Some x \<and> accepted_dispatch n x)"

lemma expire_keeps_accepted:
  assumes "expire_waiting_connect_jobs now st = Inr (st', ids)" and "find_dispatch st k = Some d" "accepted_dispatch n d"
  shows "find_dispatch st' k = Some d"
  using assms expire_waiting_view [OF assms(1)] by (simp add: expired_view_def accepted_dispatch_def)

lemma claim_keeps_accepted:
  assumes "claim_connect_lane_head now app inst e st = Inr (st', res)" and d: "find_dispatch st k = Some d" "accepted_dispatch n d"
  shows "gone_or_accepted n (find_dispatch st' k)"
  using assms(1)
proof (cases rule: claim_effect)
  case 1
  then show ?thesis using expire_keeps_accepted [OF 1(1) d] d(2) by (simp add: gone_or_accepted_def)
next
  case (2 st1 ids j h)
  have "accepted_dispatch n (claimed_dispatch now d)"
    using d(2) by (cases "cd_state d") (auto simp: accepted_dispatch_def claimed_dispatch_def)
  then show ?thesis
    using update_dispatch_effect(1) [OF 2(3) claimed_dispatch_simps(1), of k] expire_keeps_accepted [OF 2(1) d] d(2)
    by (simp add: gone_or_accepted_def)
qed

lemma defer_keeps_accepted:
  assumes "defer_connect_job now a st = Inr (st', d')" and d: "find_dispatch st k = Some d" "accepted_dispatch n d"
  shows "gone_or_accepted n (find_dispatch st' k)"
  using assms(1)
proof (rule defer_stages)
  fix j x code message t st1 st2
  assume x: "find_dispatch st (df_job_id a) = Some x" "df_next a = Waiting \<Longrightarrow> cd_highest_provider_state x = Requested"
    and u: "update_dispatch (\<lambda>r. cd_job_id r = df_job_id a \<and> cd_state r = df_expected a)
        (deferred_dispatch now a code message t) st = Inr st1"
    and p: "(if df_pause_fires a then pause_linked_automation_fires now (df_job_id a) st1 else Inr st1) = Inr st2"
    and e: "(if df_next a = Waiting then map_sum id fst (expire_waiting_connect_jobs now st2) else Inr st2) = Inr st'"
  have "cd_job_id d = df_job_id a \<Longrightarrow> accepted_dispatch n (deferred_dispatch now a code message t d)"
    using x d find_dispatch_Some [OF d(1)] by (auto simp: accepted_dispatch_def)
  then obtain y where y: "find_dispatch st1 k = Some y" "accepted_dispatch n y"
    using update_dispatch_effect(1) [OF u deferred_dispatch_simps(1), of k] d by (auto split: if_splits)
  have y2: "find_dispatch st2 k = Some y"
    using p y(1) by (auto simp: pause_linked_automation_fires_def update_fires_effect split: if_splits)
  moreover have "st' = st2 \<or> (\<exists>ids. expire_waiting_connect_jobs now st2 = Inr (st', ids))"
    using e by (auto simp: map_sum_fst_Inr split: if_splits)
  ultimately show ?thesis using expire_keeps_accepted y(2) by (auto simp: gone_or_accepted_def)
qed

lemma create_keeps_accepted:
  assumes "create_connect_job now fp pr m st = Inr (st', row)" and d: "find_dispatch st k = Some d" "accepted_dispatch n d"
  shows "gone_or_accepted n (find_dispatch st' k)"
  using assms(1)
proof (cases rule: create_stages)
  case (join ids)
  then show ?thesis using expire_keeps_accepted [OF join(2) d] d(2) by (simp add: gone_or_accepted_def)
next
  case (add st1 ids st2 g p)
  have k: "find_dispatch st2 k = Some d"
    using expire_keeps_accepted [OF add(2) d] insert_job_effect(4) [OF add(5)] by simp
  have "find_dispatch st2 (nj_job_id m) = None"
    using add(6) by (auto simp: insert_dispatch_def res_splits find_dispatch_def find_key_None)
  then have "k \<noteq> nj_job_id m" using k by auto
  then have "find_dispatch st' k = Some d"
    using insert_dispatch_effect(1) [OF add(6)] k by (simp add: only_job_def)
  then show ?thesis using d(2) by (simp add: gone_or_accepted_def)
next
  case (v1 g)
  then show ?thesis using insert_job_effect(4) [OF v1(2), of k] d by (simp add: gone_or_accepted_def)
qed

lemma reset_keeps_accepted:
  assumes "reset_connect_job_for_resubmission now i s app inst st = Inr (st', row)"
    and d: "find_dispatch st k = Some d" "accepted_dispatch n d"
  shows "find_dispatch st' k = Some d"
  using assms(1)
proof (rule reset_stages)
  fix j st1
  assume u: "update_jobs (\<lambda>j. cj_job_id j = i \<and> cj_status j = s \<and> cj_provider_app_id j = Some app
        \<and> cj_provider_instance_id j = Some inst) (reset_job_row now) st = Inr st1"
    and v: "if cj_protocol_version j = 2 then
       (\<exists>d. find_dispatch st i = Some d \<and> cd_highest_provider_state d = Requested
          \<and> cd_state d \<in> {Waiting, Dispatching, Reconciling})
       \<and> update_dispatch (\<lambda>d. cd_job_id d = i \<and> cd_highest_provider_state d = Requested
           \<and> cd_state d \<in> {Waiting, Dispatching, Reconciling})
         (\<lambda>d. d\<lparr>cd_state := Waiting, cd_submission_possible := False, cd_next_attempt_at := None,
              cd_updated_at := now\<rparr>) st1 = Inr st'
     else st' = st1"
  have 1: "find_dispatch st1 k = Some d" using update_jobs_effect(2) [OF u reset_job_row_simps(1), of k] d(1) by simp
  show ?thesis
  proof (cases "cj_protocol_version j = 2")
    case True
    with v have w: "update_dispatch (\<lambda>d. cd_job_id d = i \<and> cd_highest_provider_state d = Requested
           \<and> cd_state d \<in> {Waiting, Dispatching, Reconciling})
         (\<lambda>d. d\<lparr>cd_state := Waiting, cd_submission_possible := False, cd_next_attempt_at := None,
              cd_updated_at := now\<rparr>) st1 = Inr st'" by simp
    show ?thesis using update_dispatch_effect(1) [OF w, of k] 1 d(2) by (simp add: accepted_dispatch_def)
  next
    case False
    with v 1 show ?thesis by simp
  qed
qed

lemma report_keeps_accepted:
  assumes "transition_connect_job clock now t st = Inr (st', r)" and d: "find_dispatch st k = Some d" "accepted_dispatch n d"
  shows "gone_or_accepted n (find_dispatch st' k)"
  using assms(1)
proof (rule transition_effect)
  fix j
  let ?i = "jt_job_id t"
  assume o: "only_job ?i st st'"
    and e: "find_job st' ?i = None \<and> find_dispatch st' ?i = None \<and> jt_next t \<in> {Completed, Failed}
     \<or> (\<exists>row. find_job st' ?i = Some row \<and> cj_status row = jt_next t
          \<and> cj_protocol_version row = cj_protocol_version j
          \<and> (if cj_protocol_version j = 2
             then lane_of row = lane_of j \<and> (\<exists>d. find_dispatch st ?i = Some d
                 \<and> find_dispatch st' ?i = Some (transition_dispatch now (jt_next t) d))
             else find_dispatch st' ?i = find_dispatch st ?i))"
  have "accepted_dispatch n (transition_dispatch now (jt_next t) d)"
    using d(2) by (auto simp: accepted_dispatch_def transition_dispatch_def)
  then show ?thesis
    using o e d by (cases "k = ?i") (auto simp: gone_or_accepted_def only_job_def split: if_splits)
qed

lemma queue_step_keeps_accepted:
  assumes "find_dispatch st k = Some d" "accepted_dispatch n d"
  shows "gone_or_accepted n (find_dispatch (queue_step st op) k)"
proof (cases "driven st op \<and> is_ok (queue_exec st op)")
  case True
  then obtain st' where ex: "queue_exec st op = Inr st'" and st: "queue_step st op = st'"
    by (auto simp: is_ok_iff queue_step_def committed_Inr)
  have "find_dispatch st' k = Some d \<Longrightarrow> gone_or_accepted n (find_dispatch st' k)"
    using assms(2) by (simp add: gone_or_accepted_def)
  with ex assms show ?thesis unfolding st
    by (cases op) (auto simp: map_sum_fst_Inr due_connect_lane_heads_def res_splits
        intro: claim_keeps_accepted defer_keeps_accepted create_keeps_accepted report_keeps_accepted
        dest: expire_keeps_accepted reset_keeps_accepted)
next
  case False
  then have "queue_step st op = st" by (cases "queue_exec st op") (auto simp: queue_step_def committed_Inl)
  then show ?thesis using assms by (simp add: gone_or_accepted_def)
qed

section \<open>Properties\<close>


definition queued_store :: store where
  "queued_store = (sample_store [] [sample_job Requested None] [sample_dispatch Waiting None])
     \<lparr>st_messages := [\<lparr>mg_message_id = Some [109], mg_provider = [103], mg_account_id = [97],
        mg_mailbox_identity_key = None, mg_provider_message_id = [112]\<rparr>]\<rparr>"

definition claim_op :: queue_op where
  "claim_op = Q_claim 0 [120] [121] None"

lemma queue_inv_idle:
  assumes "queue_keys st" and "\<forall>d\<in>set (st_dispatch st). \<not> in_flight (cd_state d)"
  shows "queue_inv st"
proof -
  have "\<not> in_flight (cd_state d)" if "find_dispatch st k = Some d" for k d
    using find_dispatch_Some [OF that] assms(2) by blast
  then show ?thesis using assms(1) by (auto simp: queue_inv_def queue_ok_def single_flight_def flight_iff)
qed

lemma queued_store_inv: "queue_inv queued_store"
  by (rule queue_inv_idle) (simp_all add: queue_keys_def queued_store_def sample_defs)


text \<open>C2: two dispatches of one lane are separated by a settlement: between two claims that each sent
  a waiting job of the lane to the provider, the lane's job was deferred to wait again, reset for
  resubmission, or reported completed or failed.\<close>

theorem dispatches_separated:
  assumes "queue_inv st" and "queue_attempt (foldl queue_step st pre) e = Some l"
    and "queue_attempt (foldl queue_step st (pre @ e # mid)) f = Some l"
  shows "\<exists>before g after. mid = before @ g # after
     \<and> queue_releases (foldl queue_step st (pre @ e # before)) g l"
  by (rule lq.once_between_releases [OF assms])

definition defer_op :: queue_op where
  "defer_op = Q_defer 1 \<lparr>df_job_id = an_id 106, df_expected = Dispatching, df_next = Waiting,
     df_error_code = lit ''busy'', df_error_message = lit ''busy'', df_delay_seconds = 0,
     df_pause_deadline = False, df_pause_fires = False\<rparr>"

definition claim_again :: queue_op where
  "claim_again = Q_claim 2 [120] [121] None"

theorem dispatches_separated_witness:
  "\<exists>before g after. [defer_op] = before @ g # after
     \<and> queue_releases (foldl queue_step queued_store ([] @ claim_op # before)) g (Some [120], Some [121])"
proof (rule dispatches_separated [OF queued_store_inv])
  show "queue_attempt (foldl queue_step queued_store []) claim_op = Some (Some [120], Some [121])"
    by code_simp
  have "queue_attempt (foldl queue_step queued_store [claim_op, defer_op]) claim_again = Some (Some [120], Some [121])"
    by code_simp
  then show "queue_attempt (foldl queue_step queued_store ([] @ claim_op # [defer_op])) claim_again = Some (Some [120], Some [121])"
    by simp
qed

text \<open>C29: what the provider accepted is never dispatched again: from then on, in every history, the
  dispatch row is either gone at some point or still accepted, not waiting, and with the same
  number of dispatch attempts.\<close>

theorem accepted_never_redispatched:
  assumes "find_dispatch st k = Some d" and "accepted_dispatch n d"
  shows "(\<exists>pre post. ops = pre @ post \<and> find_dispatch (foldl queue_step st pre) k = None)
    \<or> (\<exists>d'. find_dispatch (foldl queue_step st ops) k = Some d' \<and> accepted_dispatch n d')"
proof (induction ops rule: rev_induct)
  case Nil
  then show ?case using assms by simp
next
  case (snoc op ops)
  let ?s = "foldl queue_step st ops"
  from snoc consider (gone) pre post where "ops = pre @ post" "find_dispatch (foldl queue_step st pre) k = None"
    | (kept) d' where "find_dispatch ?s k = Some d'" "accepted_dispatch n d'" by blast
  then show ?case
  proof cases
    case gone
    then have "ops @ [op] = pre @ (post @ [op])" by simp
    with gone(2) show ?thesis by blast
  next
    case kept
    from queue_step_keeps_accepted [OF this, of op] show ?thesis
      by (auto simp: gone_or_accepted_def intro: exI [of _ "ops @ [op]"] exI [of _ "[]"])
  qed
qed

definition owned_store :: store where
  "owned_store = sample_store [] [sample_job Accepted None]
     [(sample_dispatch Provider_owned None)\<lparr>cd_highest_provider_state := Accepted, cd_attempt_count := 1\<rparr>]"

theorem accepted_never_redispatched_witness:
  "(\<exists>pre post. [claim_op] = pre @ post \<and> find_dispatch (foldl queue_step owned_store pre) (an_id 106) = None)
   \<or> (\<exists>d'. find_dispatch (foldl queue_step owned_store [claim_op]) (an_id 106) = Some d' \<and> accepted_dispatch 1 d')"
proof (rule accepted_never_redispatched)
  show "find_dispatch owned_store (an_id 106) = Some ((sample_dispatch Provider_owned None)\<lparr>cd_highest_provider_state := Accepted, cd_attempt_count := 1\<rparr>)"
    by (simp add: owned_store_def find_dispatch_def sample_defs)
  show "accepted_dispatch 1 ((sample_dispatch Provider_owned None)\<lparr>cd_highest_provider_state := Accepted, cd_attempt_count := 1\<rparr>)"
    by (simp add: accepted_dispatch_def sample_defs)
qed

lemma expired_job_check: "connect_job_check j \<Longrightarrow> cj_status j = Requested \<Longrightarrow> connect_job_check (expired_job_row now j)"
  by (simp add: connect_job_check_def expired_job_row_def no_outcome_def)

lemma expire_jobs_total:
  assumes "list_all connect_job_check (st_jobs st)" and "list_all connect_dispatch_check (st_dispatch st)"
  shows "\<exists>st'. expire_jobs now is st = Inr st'"
  using assms
proof (induction "is" arbitrary: st)
  case (Cons i ids)
  let ?P = "\<lambda>j. cj_job_id j = i \<and> cj_status j = Requested"
  let ?Q = "\<lambda>d. cd_job_id d = i \<and> cd_state d = Waiting \<and> \<not> cd_submission_possible d"
  let ?st = "st\<lparr>st_jobs := update_where ?P (expired_job_row now) (st_jobs st),
    st_dispatch := update_where ?Q (expired_dispatch_row now) (st_dispatch st)\<rparr>"
  have c: "\<forall>j\<in>set (st_jobs st). ?P j \<longrightarrow> connect_job_check (expired_job_row now j)"
    "\<forall>d\<in>set (st_dispatch st). connect_dispatch_check (expired_dispatch_row now d)"
    using Cons.prems expired_job_check by (auto simp: list_all_iff connect_dispatch_check_def expired_dispatch_row_def)
  then have "expire_job now i st = Inr ?st"
    by (auto simp: expire_job_def update_jobs_def update_dispatch_def checked_update_def exists_where_iff)
  moreover have "list_all connect_job_check (st_jobs ?st)" "list_all connect_dispatch_check (st_dispatch ?st)"
    using c Cons.prems by (auto simp: list_all_iff set_update_where)
  ultimately show ?case using Cons.IH [of ?st] by simp
qed simp



text \<open>A lane is served first come, first served: the job a claim sends to the provider was
  created no later than any other waiting job of its lane (ties broken by job id).\<close>

theorem claim_first_come:
  assumes c: "claim_connect_lane_head now app inst e st = Inr (st', Some (j, d))" and inv: "queue_inv st"
    and "cd_state d = Dispatching"
    and q: "j' \<in> set (st_jobs st')" "d' \<in> set (st_dispatch st')" "queued j' d'" "cd_state d' = Waiting"
      "lane_of j' = (Some app, Some inst)"
  shows "(cj_created_at j, cj_job_id j) \<le> (cj_created_at j', cj_job_id j')"
  using c
proof (cases rule: claim_effect)
  case (2 st1 ids h x)
  have i1: "queue_ok st1" using expire_waiting_inv [OF 2(1) inv] by (simp add: queue_inv_def)
  then have keys: "queue_keys st1" by (simp add: queue_ok_def)
  note U = update_dispatch_effect [OF 2(3) claimed_dispatch_simps(1)] and L = lane_head_least [OF 2(2)]
  have jobs: "st_jobs st' = st_jobs st1" using update_dispatch_frame [OF 2(3)] by simp
  have jh: "j = h" using 2(4) U(2) [of "cj_job_id h"] find_job_mem [OF keys L(1)] by auto
  have "find_dispatch st' (cd_job_id d') = Some d'" using find_dispatch_mem [of st' d'] q(2) U(3) keys by simp
  then obtain x' where x': "find_dispatch st1 (cd_job_id d') = Some x'"
    "d' = (if cd_job_id x' = cj_job_id h then claimed_dispatch now x' else x')"
    using U(1) [of "cd_job_id d'"] by (cases "find_dispatch st1 (cd_job_id d')") auto
  have "cd_state (claimed_dispatch now x') \<noteq> Waiting"
    by (cases "cd_state x'") (auto simp: claimed_dispatch_def)
  then have "d' = x'" using x'(2) q(4) by (auto split: if_splits)
  then have "d' \<in> set (st_dispatch st1)" using find_dispatch_Some [OF x'(1)] by simp
  then have le: "lane_key (h, x) \<le> lane_key (j', d')" using L(5) q jobs by simp
  have fx: "find_dispatch st' (cj_job_id h) = Some (claimed_dispatch now x)"
    using U(1) find_dispatch_mem [OF keys L(2)] L(3) by (simp add: queued_def)
  then have "cd_state (claimed_dispatch now x) = Dispatching" using 2(4) assms(3) by auto
  then have "cd_state x = Waiting" by (cases "cd_state x") (auto simp: claimed_dispatch_def)
  with le jh q(4) show ?thesis by (simp add: lane_key_def)
qed simp

definition claimed_once :: "err + store \<times> (connect_job \<times> connect_dispatch) option" where
  "claimed_once = claim_connect_lane_head 0 [120] [121] None
     (queued_store\<lparr>st_jobs := st_jobs queued_store @ [(sample_job Requested None)\<lparr>cj_job_id := an_id 107\<rparr>],
        st_dispatch := st_dispatch queued_store @ [(sample_dispatch Waiting None)\<lparr>cd_job_id := an_id 107\<rparr>]\<rparr>)"

definition claimed_row :: "(connect_job \<times> connect_dispatch) option" where
  "claimed_row = (case claimed_once of Inl _ \<Rightarrow> None | Inr r \<Rightarrow> snd r)"

definition claimed_result :: store where
  "claimed_result = (case claimed_once of Inl _ \<Rightarrow> queued_store | Inr r \<Rightarrow> fst r)"

theorem claim_first_come_witness:
  "\<exists>j. map_option fst claimed_row = Some j \<and>
     (cj_created_at j, cj_job_id j) \<le> (0, an_id 107)"
proof -
  let ?st = "queued_store\<lparr>st_jobs := st_jobs queued_store @ [(sample_job Requested None)\<lparr>cj_job_id := an_id 107\<rparr>],
        st_dispatch := st_dispatch queued_store @ [(sample_dispatch Waiting None)\<lparr>cd_job_id := an_id 107\<rparr>]\<rparr>"
  let ?j = "(sample_job Requested None)\<lparr>cj_job_id := an_id 107\<rparr>"
  let ?d = "(sample_dispatch Waiting None)\<lparr>cd_job_id := an_id 107\<rparr>"
  have ok: "is_ok claimed_once" by code_simp
  have st: "map_option (cd_state \<circ> snd) claimed_row = Some Dispatching" by code_simp
  obtain st' r where cr: "claimed_once = Inr (st', r)" using is_ok_pair [OF ok] by blast
  have rr: "claimed_row = r" "claimed_result = st'" unfolding claimed_row_def claimed_result_def cr by simp_all
  then obtain j d where r: "r = Some (j, d)" "cd_state d = Dispatching" using st by (cases r) auto
  have mem: "?j \<in> set (st_jobs claimed_result)" "?d \<in> set (st_dispatch claimed_result)"
    by code_simp+
  have inv: "queue_inv ?st"
    by (rule queue_inv_idle) (simp_all add: queue_keys_def queued_store_def sample_defs an_id_def)
  have c: "claim_connect_lane_head 0 [120] [121] None ?st = Inr (st', Some (j, d))"
    using cr r(1) by (simp add: claimed_once_def)
  have q: "queued ?j ?d" "cd_state ?d = Waiting" "lane_of ?j = (Some [120], Some [121])"
    by (simp_all add: queued_def lane_of_def sample_defs active_status_def)
  have k: "cj_created_at ?j = 0" "cj_job_id ?j = an_id 107" by (simp_all add: sample_job_def)
  have "(cj_created_at j, cj_job_id j) \<le> (cj_created_at ?j, cj_job_id ?j)"
    using claim_first_come [OF c inv r(2) _ _ q] mem rr(2) by simp
  with rr r k show ?thesis by auto
qed

end
