(* ===== verification/Calendar_Store.thy ===== *)
theory Calendar_Store
  imports Connect_Store Json
begin

text \<open>
  The tables of the scheduling automation (\<open>_AUTOMATION_TABLES_SQL\<close> of \<open>db.py\<close>) and the statements
  its operations share: one run per admitted message, an append-only log of its transitions, the
  extraction and proposal payloads, and the ledger of calendar writes.

  The source of a run is found again through \<open>messages\<close>, \<open>thread_follow\<close>, \<open>mail_accounts\<close> and the
  removal tables, which other components change; they are the record \<open>sources\<close>. Text columns
  cannot hold unpaired surrogates, so \<open>message_source_key\<close>, which encodes them, never fails on a
  stored row; \<open>None\<close> stands for the failure and equals no key.
\<close>

section \<open>Rows\<close>

datatype run_state =
    R_detected | R_extracting | R_ambiguous | R_manual_review | R_proposing | R_awaiting_confirmation | R_declined
  | R_write_authorized | R_writing | R_completed | R_failed | R_unresolved | R_source_unavailable | R_reconciling

record automation_run =
  ar_run_id :: pystr
  ar_provider :: pystr
  ar_account_id :: pystr
  ar_calendar_principal_key :: pystr
  ar_source_message_key :: pystr
  ar_automation_id :: pystr
  ar_automation_version :: int
  ar_extraction_schema_version :: int
  ar_state :: run_state
  ar_state_version :: int
  ar_failure_code :: "pystr option"
  ar_source_content_sha256 :: "pystr option"
  ar_extraction_context_at :: "pystr option"
  ar_extraction_timezone :: "pystr option"
  ar_extraction_body_char_limit :: "int option"
  ar_current_payload_id :: "pystr option"
  ar_current_payload_sha256 :: "pystr option"
  ar_review_notified_at :: "instant option"
  ar_expires_at :: iso
  ar_created_at :: instant
  ar_updated_at :: instant

datatype decision = Confirmed | Declined_by_user

record automation_event =
  ae_event_id :: pystr
  ae_run_id :: pystr
  ae_sequence_no :: int
  ae_previous_state :: "run_state option"
  ae_next_state :: run_state
  ae_state_version :: int
  ae_automation_id :: pystr
  ae_automation_version :: int
  ae_extraction_schema_version :: int
  ae_calendar_principal_key :: pystr
  ae_transition_kind :: run_state
  ae_failure_code :: "pystr option"
  ae_payload_id :: "pystr option"
  ae_payload_sha256 :: "pystr option"
  ae_decision :: "decision option"
  ae_transaction_id :: "pystr option"
  ae_graph_event_id :: "pystr option"
  ae_created_at :: instant

datatype extraction_status = X_reserved | X_accepted | X_rejected

record automation_extraction_payload =
  xp_payload_id :: pystr
  xp_run_id :: pystr
  xp_attempt_no :: int
  xp_request_id :: pystr
  xp_status :: extraction_status
  xp_source_content_sha256 :: pystr
  xp_context_at :: pystr
  xp_timezone :: pystr
  xp_body_char_limit :: int
  xp_organizer_address :: pystr
  xp_failure_count :: int
  xp_next_retry_at :: "iso option"
  xp_last_error_code :: "pystr option"
  xp_result_sha256 :: "pystr option"
  xp_result_json :: "bytes option"
  xp_violations_json :: "bytes option"
  xp_created_at :: instant
  xp_completed_at :: "instant option"

datatype proposal_status = Proposal_accepted | No_suggestions

record automation_proposal_payload =
  pp_payload_id :: pystr
  pp_run_id :: pystr
  pp_proposal_version :: int
  pp_status :: proposal_status
  pp_request_sha256 :: pystr
  pp_proposal_sha256 :: pystr
  pp_subject :: pystr
  pp_attendees_json :: bytes
  pp_start :: "pystr option"
  pp_end :: "pystr option"
  pp_timezone :: "pystr option"
  pp_suggestion_reason :: "pystr option"
  pp_empty_reason :: "pystr option"
  pp_observed_at :: instant
  pp_expires_at :: "iso option"
  pp_created_at :: instant

datatype write_status =
  W_authorized | W_writing | W_unresolved | W_reconciling | W_completed | W_failed | W_cancelled

record automation_calendar_write =
  cw_run_id :: pystr
  cw_transaction_id :: pystr
  cw_proposal_version :: int
  cw_proposal_sha256 :: pystr
  cw_calendar_principal_key :: pystr
  cw_calendar_id :: pystr
  cw_start :: pystr
  cw_end :: pystr
  cw_timezone :: pystr
  cw_status :: write_status
  cw_graph_event_id :: "pystr option"
  cw_failure_code :: "pystr option"
  cw_confirmed_at :: instant
  cw_submitted_at :: "instant option"
  cw_completed_at :: "instant option"
  cw_updated_at :: instant

record run_source_identity =
  rs_run_id :: pystr
  rs_mailbox_identity_key :: pystr

record source_row = message_row +
  sr_logical_of :: "pystr option"
  sr_thread_key :: "pystr option"
  sr_sender :: pystr
  sr_sender_name :: "pystr option"
  sr_subject :: pystr
  sr_received_at :: pystr

record mail_account_row =
  ma_provider :: pystr
  ma_account_id :: pystr
  ma_address :: "pystr option"
  ma_legacy_identity_key :: "pystr option"
  ma_continuity_proven :: bool

record follow_row =
  fo_provider :: pystr
  fo_account_id :: pystr
  fo_mailbox_identity_key :: pystr
  fo_thread_key :: pystr
  fo_followed :: bool

record sources =
  so_messages :: "source_row list"
  so_accounts :: "mail_account_row list"
  so_follows :: "follow_row list"
  so_removal :: "removal_tables option"

record calendar_store =
  cs_runs :: "automation_run list"
  cs_events :: "automation_event list"
  cs_extractions :: "automation_extraction_payload list"
  cs_proposals :: "automation_proposal_payload list"
  cs_writes :: "automation_calendar_write list"
  cs_identities :: "run_source_identity list"
  cs_sources :: sources

section \<open>CHECK constraints\<close>

definition utf8_at_most :: "nat \<Rightarrow> pystr \<Rightarrow> bool" where
  "utf8_at_most n s = within_utf8_bytes s n"

definition automation_run_check :: "automation_run \<Rightarrow> bool" where
  "automation_run_check r \<longleftrightarrow>
     length (ar_run_id r) = 36 \<and> ar_provider r \<noteq> [] \<and> ar_account_id r \<noteq> []
     \<and> length (ar_calendar_principal_key r) = 64 \<and> length (ar_source_message_key r) = 64
     \<and> ar_automation_id r \<noteq> [] \<and> 0 < ar_automation_version r \<and> 0 < ar_extraction_schema_version r
     \<and> 1 \<le> ar_state_version r
     \<and> opt_all (\<lambda>s. length s = 64) (ar_source_content_sha256 r)
     \<and> opt_all (\<lambda>n. 0 < n) (ar_extraction_body_char_limit r)
     \<and> opt_all (\<lambda>s. length s = 36) (ar_current_payload_id r)
     \<and> opt_all (\<lambda>s. length s = 64) (ar_current_payload_sha256 r)
     \<and> (ar_state r = R_detected \<longrightarrow> ar_failure_code r = None)
     \<and> (ar_state r = R_source_unavailable \<longrightarrow> opt_all (\<lambda>c. c = lit ''source_unavailable'') (ar_failure_code r))"

definition automation_event_check :: "automation_event \<Rightarrow> bool" where
  "automation_event_check e \<longleftrightarrow>
     length (ae_event_id e) = 36 \<and> ae_run_id e \<noteq> [] \<and> 0 \<le> ae_sequence_no e \<and> 1 \<le> ae_state_version e
     \<and> ae_automation_id e \<noteq> [] \<and> 0 < ae_automation_version e \<and> 0 < ae_extraction_schema_version e
     \<and> length (ae_calendar_principal_key e) = 64
     \<and> opt_all (\<lambda>s. length s = 36) (ae_payload_id e) \<and> opt_all (\<lambda>s. length s = 64) (ae_payload_sha256 e)
     \<and> opt_all (\<lambda>s. length s = 36) (ae_transaction_id e)
     \<and> opt_all (\<lambda>s. s \<noteq> [] \<and> utf8_at_most 512 s) (ae_graph_event_id e)
     \<and> (ae_next_state e = R_detected \<and> ae_previous_state e = None \<and> ae_sequence_no e = 0
          \<and> ae_state_version e = 1 \<and> ae_transition_kind e = R_detected \<and> ae_failure_code e = None
        \<or> ae_next_state e \<noteq> R_detected \<and> ae_previous_state e \<noteq> None \<and> 1 \<le> ae_sequence_no e
          \<and> ae_state_version e = ae_sequence_no e + 1)"

definition automation_extraction_check :: "automation_extraction_payload \<Rightarrow> bool" where
  "automation_extraction_check p \<longleftrightarrow>
     length (xp_payload_id p) = 36 \<and> xp_run_id p \<noteq> [] \<and> xp_attempt_no p \<in> {1, 2}
     \<and> length (xp_request_id p) = 36 \<and> length (xp_source_content_sha256 p) = 64
     \<and> xp_context_at p \<noteq> [] \<and> xp_timezone p \<noteq> [] \<and> 0 < xp_body_char_limit p
     \<and> xp_organizer_address p \<noteq> [] \<and> length (xp_organizer_address p) \<le> 320 \<and> 0 \<le> xp_failure_count p
     \<and> opt_all (\<lambda>c. 1 \<le> length c \<and> length c \<le> 64) (xp_last_error_code p)
     \<and> opt_all (\<lambda>s. length s = 64) (xp_result_sha256 p)
     \<and> opt_all (\<lambda>b. 1 \<le> length b \<and> length b \<le> 32768) (xp_result_json p)
     \<and> opt_all (\<lambda>b. 2 \<le> length b \<and> length b \<le> 8192) (xp_violations_json p)
     \<and> (case xp_status p of
          X_reserved \<Rightarrow> xp_result_sha256 p = None \<and> xp_result_json p = None \<and> xp_violations_json p = None
            \<and> xp_completed_at p = None
        | X_accepted \<Rightarrow> xp_result_sha256 p \<noteq> None \<and> xp_result_json p \<noteq> None
            \<and> xp_violations_json p = Some (lit ''[]'') \<and> xp_completed_at p \<noteq> None
        | X_rejected \<Rightarrow> xp_result_sha256 p \<noteq> None \<and> xp_result_json p \<noteq> None \<and> xp_violations_json p \<noteq> None
            \<and> xp_violations_json p \<noteq> Some (lit ''[]'') \<and> xp_completed_at p \<noteq> None)"

definition automation_proposal_check :: "automation_proposal_payload \<Rightarrow> bool" where
  "automation_proposal_check p \<longleftrightarrow>
     length (pp_payload_id p) = 36 \<and> pp_run_id p \<noteq> [] \<and> 0 < pp_proposal_version p
     \<and> length (pp_request_sha256 p) = 64 \<and> length (pp_proposal_sha256 p) = 64
     \<and> utf8_at_most 512 (pp_subject p)
     \<and> 2 \<le> length (pp_attendees_json p) \<and> length (pp_attendees_json p) \<le> 32768
     \<and> opt_all (utf8_at_most 64) (pp_start p) \<and> opt_all (utf8_at_most 64) (pp_end p)
     \<and> opt_all (utf8_at_most 128) (pp_timezone p) \<and> opt_all (utf8_at_most 512) (pp_suggestion_reason p)
     \<and> opt_all (utf8_at_most 512) (pp_empty_reason p)
     \<and> (case pp_status p of
          Proposal_accepted \<Rightarrow> pp_start p \<noteq> None \<and> pp_end p \<noteq> None \<and> pp_timezone p \<noteq> None
            \<and> pp_suggestion_reason p \<noteq> None \<and> pp_empty_reason p = None \<and> pp_expires_at p \<noteq> None
        | No_suggestions \<Rightarrow> pp_start p = None \<and> pp_end p = None \<and> pp_timezone p = None
            \<and> pp_suggestion_reason p = None \<and> pp_empty_reason p \<noteq> None \<and> pp_expires_at p = None)"

definition automation_write_check :: "automation_calendar_write \<Rightarrow> bool" where
  "automation_write_check w \<longleftrightarrow>
     cw_run_id w \<noteq> [] \<and> length (cw_transaction_id w) = 36 \<and> 0 < cw_proposal_version w
     \<and> length (cw_proposal_sha256 w) = 64 \<and> length (cw_calendar_principal_key w) = 64
     \<and> cw_calendar_id w = lit ''primary''
     \<and> utf8_at_most 64 (cw_start w) \<and> utf8_at_most 64 (cw_end w) \<and> utf8_at_most 128 (cw_timezone w)
     \<and> opt_all (\<lambda>s. s \<noteq> [] \<and> utf8_at_most 512 s) (cw_graph_event_id w)
     \<and> opt_all (\<lambda>c. 1 \<le> length c \<and> length c \<le> 64) (cw_failure_code w)
     \<and> (if cw_status w = W_completed then cw_graph_event_id w \<noteq> None \<and> cw_completed_at w \<noteq> None
        else cw_graph_event_id w = None \<and> cw_completed_at w = None)"

section \<open>Statements\<close>

definition find_run :: "calendar_store \<Rightarrow> pystr \<Rightarrow> automation_run option" where
  "find_run st run_id = List.find (\<lambda>r. ar_run_id r = run_id) (cs_runs st)"

definition find_write :: "calendar_store \<Rightarrow> pystr \<Rightarrow> automation_calendar_write option" where
  "find_write st run_id = List.find (\<lambda>w. cw_run_id w = run_id) (cs_writes st)"

definition find_extraction :: "calendar_store \<Rightarrow> pystr \<Rightarrow> automation_extraction_payload option" where
  "find_extraction st payload_id = List.find (\<lambda>p. xp_payload_id p = payload_id) (cs_extractions st)"

definition run_events :: "calendar_store \<Rightarrow> pystr \<Rightarrow> automation_event list" where
  "run_events st run_id = filter (\<lambda>e. ae_run_id e = run_id) (cs_events st)"

text \<open>\<open>UPDATE ... WHERE run_id = ? AND state = ? AND state_version = ?\<close> that must change one row.\<close>

definition update_run ::
  "string \<Rightarrow> (automation_run \<Rightarrow> bool) \<Rightarrow> (automation_run \<Rightarrow> automation_run) \<Rightarrow> calendar_store \<Rightarrow> err + calendar_store" where
  "update_run msg P f st =
     andThen (require (count_where P (cs_runs st) = 1) (RuntimeError msg)) (\<lambda>_.
     andThen (checked_update automation_run_check ''automation_runs'' P f (cs_runs st)) (\<lambda>rows.
     Inr (st\<lparr>cs_runs := rows\<rparr>)))"

definition update_write ::
  "string \<Rightarrow> (automation_calendar_write \<Rightarrow> bool) \<Rightarrow> (automation_calendar_write \<Rightarrow> automation_calendar_write)
     \<Rightarrow> calendar_store \<Rightarrow> err + calendar_store" where
  "update_write msg P f st =
     andThen (require (count_where P (cs_writes st) = 1) (RuntimeError msg)) (\<lambda>_.
     andThen (checked_update automation_write_check ''automation_calendar_writes'' P f (cs_writes st)) (\<lambda>rows.
     Inr (st\<lparr>cs_writes := rows\<rparr>)))"

definition update_extraction ::
  "string \<Rightarrow> (automation_extraction_payload \<Rightarrow> bool)
     \<Rightarrow> (automation_extraction_payload \<Rightarrow> automation_extraction_payload) \<Rightarrow> calendar_store \<Rightarrow> err + calendar_store" where
  "update_extraction msg P f st =
     andThen (require (count_where P (cs_extractions st) = 1) (RuntimeError msg)) (\<lambda>_.
     andThen (checked_update automation_extraction_check ''automation_extraction_payloads'' P f (cs_extractions st)) (\<lambda>rows.
     Inr (st\<lparr>cs_extractions := rows\<rparr>)))"

text \<open>\<open>WHERE run_id = ? AND state = ? AND state_version = ?\<close>\<close>

definition run_at :: "pystr \<Rightarrow> run_state \<Rightarrow> int \<Rightarrow> automation_run \<Rightarrow> bool" where
  "run_at run_id s v r \<longleftrightarrow> ar_run_id r = run_id \<and> ar_state r = s \<and> ar_state_version r = v"

record event_note =
  en_payload_id :: "pystr option"
  en_payload_sha256 :: "pystr option"
  en_decision :: "decision option"
  en_transaction_id :: "pystr option"
  en_graph_event_id :: "pystr option"

definition no_note :: event_note where
  "no_note = \<lparr>en_payload_id = None, en_payload_sha256 = None, en_decision = None,
     en_transaction_id = None, en_graph_event_id = None\<rparr>"

definition event_row ::
  "pystr \<Rightarrow> automation_run \<Rightarrow> run_state option \<Rightarrow> run_state \<Rightarrow> int \<Rightarrow> pystr option \<Rightarrow> event_note \<Rightarrow> instant
     \<Rightarrow> automation_event" where
  "event_row event_id row previous next version failure note now =
     \<lparr>ae_event_id = event_id, ae_run_id = ar_run_id row, ae_sequence_no = version - 1,
      ae_previous_state = previous, ae_next_state = next, ae_state_version = version,
      ae_automation_id = ar_automation_id row, ae_automation_version = ar_automation_version row,
      ae_extraction_schema_version = ar_extraction_schema_version row,
      ae_calendar_principal_key = ar_calendar_principal_key row, ae_transition_kind = next,
      ae_failure_code = failure, ae_payload_id = en_payload_id note, ae_payload_sha256 = en_payload_sha256 note,
      ae_decision = en_decision note, ae_transaction_id = en_transaction_id note,
      ae_graph_event_id = en_graph_event_id note, ae_created_at = now\<rparr>"

text \<open>
  The insert fails on a CHECK and on each of its unique keys; every call passes \<open>version - 1\<close> as the
  sequence number and the next state as the kind.
\<close>

definition append_automation_event ::
  "pystr \<Rightarrow> automation_run \<Rightarrow> run_state option \<Rightarrow> run_state \<Rightarrow> int \<Rightarrow> pystr option \<Rightarrow> event_note \<Rightarrow> instant
     \<Rightarrow> calendar_store \<Rightarrow> err + calendar_store" where
  "append_automation_event event_id row previous next version failure note now st =
     (let e = event_row event_id row previous next version failure note now in
      if \<not> automation_event_check e
         \<or> exists_where (\<lambda>x. ae_event_id x = event_id
              \<or> ae_run_id x = ar_run_id row \<and> (ae_sequence_no x = ae_sequence_no e \<or> ae_state_version x = version))
             (cs_events st)
      then Inl (IntegrityError ''automation_events'')
      else Inr (st\<lparr>cs_events := cs_events st @ [e]\<rparr>))"

text \<open>
  The end that the transitions share: the guarded \<open>UPDATE automation_runs\<close>, the event, and the row read back.
\<close>

definition record_transition ::
  "string \<Rightarrow> string \<Rightarrow> (automation_run \<Rightarrow> bool) \<Rightarrow> (automation_run \<Rightarrow> automation_run) \<Rightarrow> pystr \<Rightarrow> automation_run
     \<Rightarrow> run_state \<Rightarrow> run_state \<Rightarrow> int \<Rightarrow> pystr option \<Rightarrow> event_note \<Rightarrow> instant \<Rightarrow> calendar_store
     \<Rightarrow> err + calendar_store \<times> automation_run" where
  "record_transition race unreadable P f event_id row previous next version failure note now st =
     andThen (update_run race P f st) (\<lambda>st.
     andThen (append_automation_event event_id row (Some previous) next version failure note now st) (\<lambda>st.
     andThen (the_row (RuntimeError unreadable) (find_run st (ar_run_id row))) (\<lambda>updated.
     Inr (st, updated))))"

lemma append_automation_event_Inr [res_splits]:
  "append_automation_event event_id row previous next version failure note now st = Inr st' \<longleftrightarrow>
     st' = st\<lparr>cs_events := cs_events st @ [event_row event_id row previous next version failure note now]\<rparr>
     \<and> automation_event_check (event_row event_id row previous next version failure note now)
     \<and> \<not> exists_where (\<lambda>x. ae_event_id x = event_id
           \<or> ae_run_id x = ar_run_id row \<and> (ae_sequence_no x = version - 1 \<or> ae_state_version x = version)) (cs_events st)"
  by (auto simp: append_automation_event_def Let_def event_row_def)

lemma update_run_Inr [res_splits]:
  "update_run msg P f st = Inr st' \<longleftrightarrow>
     count_where P (cs_runs st) = 1 \<and> (\<forall>r\<in>set (cs_runs st). P r \<longrightarrow> automation_run_check (f r))
     \<and> st' = st\<lparr>cs_runs := update_where P f (cs_runs st)\<rparr>"
  by (auto simp: update_run_def res_splits)

lemma update_write_Inr [res_splits]:
  "update_write msg P f st = Inr st' \<longleftrightarrow>
     count_where P (cs_writes st) = 1 \<and> (\<forall>w\<in>set (cs_writes st). P w \<longrightarrow> automation_write_check (f w))
     \<and> st' = st\<lparr>cs_writes := update_where P f (cs_writes st)\<rparr>"
  by (auto simp: update_write_def res_splits)

lemma update_extraction_Inr [res_splits]:
  "update_extraction msg P f st = Inr st' \<longleftrightarrow>
     count_where P (cs_extractions st) = 1
     \<and> (\<forall>p\<in>set (cs_extractions st). P p \<longrightarrow> automation_extraction_check (f p))
     \<and> st' = st\<lparr>cs_extractions := update_where P f (cs_extractions st)\<rparr>"
  by (auto simp: update_extraction_def res_splits)

end
