(* ===== verification/Calendar_Runs.thy ===== *)
theory Calendar_Runs
  imports Calendar_Store
begin

text \<open>
  The scheduling automation of \<open>db.py\<close>: admission of a run, extraction by the model in at most two
  attempts, a proposal with an expiry, the owner's decision, the handoff of the confirmed write and
  its outcome, cancellation when the source goes away, and the purge of expired runs.

  \<open>timeenv\<close> carries \<open>datetime.fromisoformat\<close> (wall clock and offset, in microseconds), \<open>ZoneInfo\<close> and
  the offset of the machine's own zone, which \<open>astimezone\<close> uses for a time without one. Fresh
  \<open>uuid4\<close> texts are arguments.
\<close>

section \<open>Sources of a run\<close>

definition message_source_key :: "pyenv \<Rightarrow> pystr \<Rightarrow> pystr \<Rightarrow> pystr \<Rightarrow> pystr option \<Rightarrow> pystr option" where
  "message_source_key env provider account_id provider_message_id identity =
     map_option (sha256 env)
       (utf8_encode (join_nul (case identity of
          Some key \<Rightarrow> [provider, account_id, key, provider_message_id]
        | None \<Rightarrow> [provider, account_id, provider_message_id])))"

definition run_identity :: "calendar_store \<Rightarrow> pystr \<Rightarrow> pystr option" where
  "run_identity st run_id =
     map_option rs_mailbox_identity_key (List.find (\<lambda>i. rs_run_id i = run_id) (cs_identities st))"

definition automation_message_binding ::
  "pyenv \<Rightarrow> calendar_store \<Rightarrow> automation_run \<Rightarrow> source_row \<Rightarrow> bool" where
  "automation_message_binding env st r m \<longleftrightarrow>
     mg_provider m = ar_provider r \<and> mg_account_id m = ar_account_id r
     \<and> (case run_identity st (ar_run_id r) of
          Some key \<Rightarrow> mg_mailbox_identity_key m = Some key
            \<and> message_source_key env (mg_provider m) (mg_account_id m) (mg_provider_message_id m) (Some key)
              = Some (ar_source_message_key r)
        | None \<Rightarrow> mg_mailbox_identity_key m = None
            \<and> message_source_key env (mg_provider m) (mg_account_id m) (mg_provider_message_id m) None
              = Some (ar_source_message_key r))"

definition calendar_unfollow_lineage :: "automation_event \<Rightarrow> bool" where
  "calendar_unfollow_lineage e \<longleftrightarrow> ae_next_state e = R_source_unavailable
     \<and> ae_transition_kind e = R_source_unavailable \<and> ae_failure_code e = Some (lit ''thread_unfollowed'')"

definition logical_messages :: "sources \<Rightarrow> source_row list" where
  "logical_messages so =
     filter (\<lambda>m. sr_logical_of m = None
       \<and> (case so_removal so of None \<Rightarrow> True | Some rm \<Rightarrow> available False rm (message_row.truncate m)))
       (so_messages so)"

text \<open>The admission that owns the recovery of a coalesced message: the oldest unfollowed alias.\<close>

definition alias_candidates :: "pyenv \<Rightarrow> calendar_store \<Rightarrow> source_row \<Rightarrow> automation_run list" where
  "alias_candidates env st logical =
     sort_key (\<lambda>c. (ar_created_at c, ar_run_id c))
       (filter (\<lambda>c.
          exists_where (\<lambda>s. automation_message_binding env st c s \<and> sr_logical_of s \<noteq> None
             \<and> sr_logical_of s = mg_message_id logical) (so_messages (cs_sources st))
          \<and> exists_where calendar_unfollow_lineage (run_events st (ar_run_id c))) (cs_runs st))"

definition scheduling_source_join ::
  "pyenv \<Rightarrow> calendar_store \<Rightarrow> automation_run \<Rightarrow> (source_row \<times> source_row) list" where
  "scheduling_source_join env st r =
     [(s, l). s \<leftarrow> so_messages (cs_sources st), automation_message_binding env st r s,
        l \<leftarrow> logical_messages (cs_sources st),
        mg_message_id l = (case sr_logical_of s of None \<Rightarrow> mg_message_id s | Some c \<Rightarrow> Some c)
        \<and> (sr_logical_of s = None
           \<or> \<not> exists_where (\<lambda>c. automation_message_binding env st c l) (cs_runs st)
             \<and> (case alias_candidates env st l of [] \<Rightarrow> False | c # _ \<Rightarrow> ar_run_id c = ar_run_id r))]"

text \<open>The live, frozen and recorded sources of \<open>_automation_source_available_sql\<close>, with their binding key.\<close>

definition source_candidates :: "calendar_store \<Rightarrow> removal_tables \<Rightarrow> (message_row \<times> pystr option) list" where
  "source_candidates st rm =
     map (\<lambda>m. (message_row.truncate m, mg_mailbox_identity_key m)) (so_messages (cs_sources st))
     @ [(\<lparr>mg_message_id = Some (rt_message_id t), mg_provider = rt_provider t, mg_account_id = rt_account_id t,
          mg_mailbox_identity_key = rt_stored_identity_key t, mg_provider_message_id = rt_provider_message_id t\<rparr>,
         ri_mailbox_identity_key i).
        t \<leftarrow> rm_targets rm, i \<leftarrow> rm_intents rm, ri_intent_id i = rt_intent_id t]
     @ [(\<lparr>mg_message_id = Some (rt_message_id t), mg_provider = si_provider s, mg_account_id = si_account_id s,
          mg_mailbox_identity_key = si_mailbox_identity_key s, mg_provider_message_id = si_provider_message_id s\<rparr>,
         si_mailbox_identity_key s).
        t \<leftarrow> rm_targets rm, s \<leftarrow> rt_source_identities t]"

definition source_candidate_matches ::
  "pyenv \<Rightarrow> calendar_store \<Rightarrow> automation_run \<Rightarrow> message_row \<times> pystr option \<Rightarrow> bool" where
  "source_candidate_matches env st r = (\<lambda>(m, binding_key).
     mg_provider m = ar_provider r \<and> mg_account_id m = ar_account_id r
     \<and> (case run_identity st (ar_run_id r) of
          Some key \<Rightarrow> binding_key = Some key
            \<and> message_source_key env (mg_provider m) (mg_account_id m) (mg_provider_message_id m) (Some key)
              = Some (ar_source_message_key r)
        | None \<Rightarrow> mg_mailbox_identity_key m = None
            \<and> message_source_key env (mg_provider m) (mg_account_id m) (mg_provider_message_id m) None
              = Some (ar_source_message_key r)))"

definition automation_source_available_row :: "pyenv \<Rightarrow> bool \<Rightarrow> calendar_store \<Rightarrow> automation_run \<Rightarrow> bool" where
  "automation_source_available_row env include_unfollow st r =
     (case so_removal (cs_sources st) of
        None \<Rightarrow> True
      | Some rm \<Rightarrow> \<not> list_ex (\<lambda>c. source_candidate_matches env st r c
            \<and> \<not> available include_unfollow rm (fst c)) (source_candidates st rm))"

text \<open>\<open>_automation_source_available(db, run_id, eligibility=removal.CONTENT)\<close>\<close>

definition automation_source_available :: "pyenv \<Rightarrow> calendar_store \<Rightarrow> pystr \<Rightarrow> bool" where
  "automation_source_available env st run_id =
     (case find_run st run_id of
        None \<Rightarrow> False
      | Some r \<Rightarrow> automation_source_available_row env True st r)"

definition effective_message_identity :: "sources \<Rightarrow> source_row \<Rightarrow> pystr option" where
  "effective_message_identity so m =
     (case mg_mailbox_identity_key m of
        Some key \<Rightarrow> Some key
      | None \<Rightarrow>
          (case List.find (\<lambda>a. ma_provider a = mg_provider m \<and> ma_account_id a = mg_account_id m
                  \<and> ma_continuity_proven a) (so_accounts so) of
             None \<Rightarrow> None
           | Some a \<Rightarrow> ma_legacy_identity_key a))"

definition followed_message :: "sources \<Rightarrow> source_row \<Rightarrow> bool" where
  "followed_message so m \<longleftrightarrow>
     exists_where (\<lambda>f. fo_provider f = mg_provider m \<and> fo_account_id f = mg_account_id m
       \<and> effective_message_identity so m = Some (fo_mailbox_identity_key f)
       \<and> sr_thread_key m = Some (fo_thread_key f) \<and> fo_followed f) (so_follows so)"

definition scheduling_preparation_available :: "pyenv \<Rightarrow> calendar_store \<Rightarrow> automation_run \<Rightarrow> bool" where
  "scheduling_preparation_available env st r \<longleftrightarrow>
     ar_state r \<in> {R_detected, R_extracting}
     \<or> so_removal (cs_sources st) \<noteq> None \<and> ar_state r = R_source_unavailable
       \<and> exists_where (\<lambda>e. ae_state_version e = ar_state_version r \<and> calendar_unfollow_lineage e)
           (run_events st (ar_run_id r))
       \<and> automation_source_available_row env True st r
       \<and> exists_where (\<lambda>(s, m). followed_message (cs_sources st) m) (scheduling_source_join env st r)"

section \<open>Admission\<close>

definition SCHEDULING_AUTOMATION_ID :: pystr where
  "SCHEDULING_AUTOMATION_ID = lit ''email.schedule_event''"

definition SCHEDULING_AUTOMATION_VERSION :: int where "SCHEDULING_AUTOMATION_VERSION = 1"

definition SCHEDULING_EXTRACTION_SCHEMA_VERSION :: int where "SCHEDULING_EXTRACTION_SCHEMA_VERSION = 1"

record admission =
  am_provider :: pystr
  am_account_id :: pystr
  am_calendar_principal_key :: pystr
  am_provider_message_id :: pystr
  am_mailbox_identity_key :: pystr
  am_created_at :: instant
  am_expires_at :: iso

definition admitted_run :: "pystr \<Rightarrow> pystr \<Rightarrow> admission \<Rightarrow> automation_run" where
  "admitted_run run_id key a =
     \<lparr>ar_run_id = run_id, ar_provider = am_provider a, ar_account_id = am_account_id a,
      ar_calendar_principal_key = am_calendar_principal_key a, ar_source_message_key = key,
      ar_automation_id = SCHEDULING_AUTOMATION_ID, ar_automation_version = SCHEDULING_AUTOMATION_VERSION,
      ar_extraction_schema_version = SCHEDULING_EXTRACTION_SCHEMA_VERSION,
      ar_state = R_detected, ar_state_version = 1, ar_failure_code = None, ar_source_content_sha256 = None,
      ar_extraction_context_at = None, ar_extraction_timezone = None, ar_extraction_body_char_limit = None,
      ar_current_payload_id = None, ar_current_payload_sha256 = None, ar_review_notified_at = None,
      ar_expires_at = am_expires_at a, ar_created_at = am_created_at a, ar_updated_at = am_created_at a\<rparr>"

definition same_admission :: "automation_run \<Rightarrow> automation_run \<Rightarrow> bool" where
  "same_admission r r' \<longleftrightarrow> ar_provider r = ar_provider r' \<and> ar_account_id r = ar_account_id r'
     \<and> ar_source_message_key r = ar_source_message_key r' \<and> ar_automation_id r = ar_automation_id r'
     \<and> ar_automation_version r = ar_automation_version r'"

definition admit_scheduling_automation ::
  "pyenv \<Rightarrow> pystr \<Rightarrow> pystr \<Rightarrow> admission \<Rightarrow> calendar_store \<Rightarrow> err + calendar_store" where
  "admit_scheduling_automation env run_id event_id a st =
     andThen (the_row UnicodeError (message_source_key env (am_provider a) (am_account_id a)
         (am_provider_message_id a) (Some (am_mailbox_identity_key a)))) (\<lambda>key.
     (let r = admitted_run run_id key a in
      if exists_where (same_admission r) (cs_runs st) then Inr st
      else
        andThen (checked_insert automation_run_check ar_run_id ''automation_runs'' r (cs_runs st)) (\<lambda>runs.
        andThen (checked_insert (\<lambda>i. rs_run_id i \<noteq> [] \<and> length (rs_mailbox_identity_key i) = 64) rs_run_id
            ''automation_run_source_identities''
            \<lparr>rs_run_id = run_id, rs_mailbox_identity_key = am_mailbox_identity_key a\<rparr> (cs_identities st)) (\<lambda>identities.
        append_automation_event event_id r None R_detected 1 None no_note (am_created_at a)
          (st\<lparr>cs_runs := runs, cs_identities := identities\<rparr>)))))"

section \<open>Extraction\<close>

record extraction_request =
  xr_source_content_sha256 :: pystr
  xr_context_at :: pystr
  xr_timezone :: pystr
  xr_body_char_limit :: int
  xr_organizer_address :: pystr

definition run_extractions :: "calendar_store \<Rightarrow> pystr \<Rightarrow> automation_extraction_payload list" where
  "run_extractions st run_id = sort_key xp_attempt_no (filter (\<lambda>p. xp_run_id p = run_id) (cs_extractions st))"

definition reserved_payload ::
  "pystr \<Rightarrow> pystr \<Rightarrow> pystr \<Rightarrow> int \<Rightarrow> extraction_request \<Rightarrow> instant \<Rightarrow> automation_extraction_payload" where
  "reserved_payload payload_id run_id request_id attempt x now =
     \<lparr>xp_payload_id = payload_id, xp_run_id = run_id, xp_attempt_no = attempt, xp_request_id = request_id,
      xp_status = X_reserved, xp_source_content_sha256 = xr_source_content_sha256 x,
      xp_context_at = xr_context_at x, xp_timezone = xr_timezone x, xp_body_char_limit = xr_body_char_limit x,
      xp_organizer_address = xr_organizer_address x, xp_failure_count = 0, xp_next_retry_at = None,
      xp_last_error_code = None, xp_result_sha256 = None, xp_result_json = None, xp_violations_json = None,
      xp_created_at = now, xp_completed_at = None\<rparr>"

text \<open>Unique in \<open>automation_extraction_payloads\<close>: the id, the request id, and run with attempt.\<close>

definition insert_extraction ::
  "automation_extraction_payload \<Rightarrow> calendar_store \<Rightarrow> err + calendar_store" where
  "insert_extraction p st =
     (if \<not> automation_extraction_check p
         \<or> exists_where (\<lambda>x. xp_payload_id x = xp_payload_id p \<or> xp_request_id x = xp_request_id p
              \<or> xp_run_id x = xp_run_id p \<and> xp_attempt_no x = xp_attempt_no p) (cs_extractions st)
      then Inl (IntegrityError ''automation_extraction_payloads'')
      else Inr (st\<lparr>cs_extractions := cs_extractions st @ [p]\<rparr>))"

definition same_request :: "extraction_request \<Rightarrow> automation_extraction_payload \<Rightarrow> bool" where
  "same_request x p \<longleftrightarrow> xp_source_content_sha256 p = xr_source_content_sha256 x \<and> xp_context_at p = xr_context_at x
     \<and> xp_timezone p = xr_timezone x \<and> xp_body_char_limit p = xr_body_char_limit x
     \<and> xp_organizer_address p = xr_organizer_address x"

definition extracting_run :: "pystr \<Rightarrow> extraction_request \<Rightarrow> int \<Rightarrow> instant \<Rightarrow> automation_run \<Rightarrow> automation_run" where
  "extracting_run payload_id x version now r =
     r\<lparr>ar_state := R_extracting, ar_state_version := version, ar_failure_code := None,
       ar_source_content_sha256 := Some (xr_source_content_sha256 x),
       ar_extraction_context_at := Some (xr_context_at x), ar_extraction_timezone := Some (xr_timezone x),
       ar_extraction_body_char_limit := Some (xr_body_char_limit x),
       ar_current_payload_id := Some payload_id, ar_current_payload_sha256 := None, ar_updated_at := now\<rparr>"

definition check_extraction_request :: "extraction_request \<Rightarrow> err + unit" where
  "check_extraction_request x =
     andThen (require (length (xr_source_content_sha256 x) = 64)
         (ValueError ''source_content_sha256 must be a SHA-256 digest'')) (\<lambda>_.
     require (xr_context_at x \<noteq> [] \<and> xr_timezone x \<noteq> [] \<and> 1 \<le> xr_body_char_limit x
         \<and> xr_organizer_address x \<noteq> [] \<and> length (xr_organizer_address x) \<le> 320)
       (ValueError ''extraction context must be complete''))"

definition reserve_new_extraction ::
  "pystr \<Rightarrow> pystr \<Rightarrow> pystr \<Rightarrow> instant \<Rightarrow> pystr \<Rightarrow> int \<Rightarrow> extraction_request \<Rightarrow> automation_run \<Rightarrow> int
     \<Rightarrow> calendar_store \<Rightarrow> err + calendar_store \<times> automation_extraction_payload" where
  "reserve_new_extraction payload_id request_id event_id now run_id expected x row attempt st =
     (let p = reserved_payload payload_id run_id request_id attempt x now in
      andThen (insert_extraction p st) (\<lambda>st.
      andThen (update_run ''Automation extraction lost its expected-state race''
          (run_at run_id (ar_state row) expected) (extracting_run payload_id x (expected + 1) now) st) (\<lambda>st.
      andThen (append_automation_event event_id row (Some (ar_state row)) R_extracting (expected + 1) None
          (no_note\<lparr>en_payload_id := Some payload_id\<rparr>) now st) (\<lambda>st.
      andThen (the_row (RuntimeError ''Automation extraction reservation was not readable'')
          (find_extraction st payload_id)) (\<lambda>reserved.
      Inr (st, reserved))))))"

definition reserve_automation_extraction ::
  "pyenv \<Rightarrow> pystr \<Rightarrow> pystr \<Rightarrow> pystr \<Rightarrow> instant \<Rightarrow> pystr \<Rightarrow> int \<Rightarrow> extraction_request
     \<Rightarrow> calendar_store \<Rightarrow> err + calendar_store \<times> automation_extraction_payload" where
  "reserve_automation_extraction env payload_id request_id event_id now run_id expected x st =
     andThen (check_extraction_request x) (\<lambda>_.
     andThen (require (automation_source_available env st run_id) KeyError) (\<lambda>_.
     andThen (the_row KeyError (find_run st run_id)) (\<lambda>row.
     andThen (require (scheduling_preparation_available env st row \<and> ar_state_version row = expected)
         (RuntimeError ''Automation extraction lost its expected-state race'')) (\<lambda>_.
     (let repreparing = (ar_state row = R_source_unavailable); rows = run_extractions st run_id in
      andThen (require (repreparing \<or> ar_source_content_sha256 row = None
             \<or> ar_source_content_sha256 row = Some (xr_source_content_sha256 x))
          (AutomationSourceChanged ''Automation source content changed after admission'')) (\<lambda>_.
      andThen (require (rows = [] \<or> xp_organizer_address (hd rows) = xr_organizer_address x)
          (AutomationSourceChanged ''Automation organizer changed or was not pinned after reservation'')) (\<lambda>_.
      if rows \<noteq> [] \<and> xp_status (last rows) = X_reserved then
        andThen (require (same_request x (last rows))
            (AutomationSourceChanged ''Automation source or extraction context changed after reservation'')) (\<lambda>_.
        Inr (st, last rows))
      else
        andThen (require (rows = [] \<or> xp_status (last rows) = X_rejected)
            (RuntimeError ''Automation extraction already has a terminal result'')) (\<lambda>_.
        andThen (require (length rows + 1 \<in> {1, 2})
            (RuntimeError ''Automation extraction retry budget is exhausted'')) (\<lambda>_.
        andThen (require (repreparing \<or> ar_extraction_context_at row = None
               \<or> ar_extraction_context_at row = Some (xr_context_at x)
                 \<and> ar_extraction_timezone row = Some (xr_timezone x)
                 \<and> ar_extraction_body_char_limit row = Some (xr_body_char_limit x))
            (AutomationSourceChanged ''Automation extraction context changed after admission'')) (\<lambda>_.
        reserve_new_extraction payload_id request_id event_id now run_id expected x row (int (length rows) + 1) st))))))))))"

definition AUTOMATION_RETRY_DELAYS_SECONDS :: "int list" where
  "AUTOMATION_RETRY_DELAYS_SECONDS = [60, 300, 900, 3600]"

record extraction_failure =
  xf_payload_id :: pystr
  xf_error_code :: pystr
  xf_retryable :: bool
  xf_retry_after_seconds :: "int option"

definition valid_error_code :: "pyenv \<Rightarrow> pystr \<Rightarrow> bool" where
  "valid_error_code env c \<longleftrightarrow> c \<noteq> [] \<and> length c \<le> 64 \<and> islower env (hd c)
     \<and> (let w = filter (\<lambda>x. x \<noteq> 95) c in w \<noteq> [] \<and> list_all (isalnum env) w) \<and> c = casefold env c"

definition retry_delay :: "int \<Rightarrow> int option \<Rightarrow> int" where
  "retry_delay failure_count retry_after =
     (case retry_after of
        Some s \<Rightarrow> s
      | None \<Rightarrow> AUTOMATION_RETRY_DELAYS_SECONDS
          ! nat (min (failure_count - 1) (int (length AUTOMATION_RETRY_DELAYS_SECONDS) - 1)))"

definition record_automation_extraction_failure ::
  "pyenv \<Rightarrow> pystr \<Rightarrow> instant \<Rightarrow> pystr \<Rightarrow> int \<Rightarrow> extraction_failure \<Rightarrow> calendar_store
     \<Rightarrow> err + calendar_store \<times> automation_run" where
  "record_automation_extraction_failure env event_id now run_id expected x st =
     andThen (require (valid_error_code env (xf_error_code x))
         (ValueError ''automation extraction error code is invalid'')) (\<lambda>_.
     andThen (require (opt_all (\<lambda>s. 1 \<le> s \<and> s \<le> 86400) (xf_retry_after_seconds x))
         (ValueError ''retry_after_seconds must be between 1 and 86400'')) (\<lambda>_.
     andThen (require (xf_retryable x \<or> xf_retry_after_seconds x = None)
         (ValueError ''permanent extraction failures cannot carry a retry delay'')) (\<lambda>_.
     andThen (require (automation_source_available env st run_id) KeyError) (\<lambda>_.
     andThen (the_row (RuntimeError ''Automation extraction failure lost its expected-state race'')
         (find_run st run_id)) (\<lambda>row.
     andThen (the_row (RuntimeError ''Automation extraction failure lost its expected-state race'')
         (find_extraction st (xf_payload_id x))) (\<lambda>payload.
     andThen (require (ar_state row = R_extracting \<and> ar_state_version row = expected
            \<and> ar_current_payload_id row = Some (xf_payload_id x) \<and> xp_run_id payload = run_id
            \<and> xp_status payload = X_reserved)
         (RuntimeError ''Automation extraction failure lost its expected-state race'')) (\<lambda>_.
     (let failures = xp_failure_count payload + 1;
          next = (if xf_retryable x then R_extracting else R_manual_review);
          retry_at = (if xf_retryable x
            then Some (Aware (now + seconds (retry_delay failures (xf_retry_after_seconds x)))) else None);
          failure = Some (lit ''model_'' @ xf_error_code x) in
      andThen (update_extraction ''Automation extraction payload was not reserved''
          (\<lambda>p. xp_payload_id p = xf_payload_id x \<and> xp_run_id p = run_id \<and> xp_status p = X_reserved)
          (\<lambda>p. p\<lparr>xp_failure_count := failures, xp_next_retry_at := retry_at,
                 xp_last_error_code := Some (xf_error_code x)\<rparr>) st) (\<lambda>st.
      record_transition ''Automation extraction failure lost its expected-state race''
        ''Automation extraction failure was not readable''
        (\<lambda>r. run_at run_id R_extracting expected r \<and> ar_current_payload_id r = Some (xf_payload_id x))
        (\<lambda>r. r\<lparr>ar_state := next, ar_state_version := expected + 1, ar_failure_code := failure,
               ar_review_notified_at := None, ar_updated_at := now\<rparr>)
        event_id row R_extracting next (expected + 1) failure
        (no_note\<lparr>en_payload_id := Some (xf_payload_id x)\<rparr>) now st)))))))))"

text \<open>A violation is what \<open>item.get("code", "")\<close> and \<open>item.get("path", "")\<close> give as text.\<close>

definition encoded_automation_violations :: "(pystr \<times> pystr) list \<Rightarrow> err + bytes" where
  "encoded_automation_violations violations =
     andThen (dumps_utf8 True True (JList (map (\<lambda>(code, path).
         JObj [(lit ''code'', JStr (take 64 code)), (lit ''path'', JStr (take 256 path))]) (take 32 violations))))
       (\<lambda>encoded.
     andThen (require (2 \<le> length encoded \<and> length encoded \<le> 8192)
         (ValueError ''automation extraction violations are not bounded'')) (\<lambda>_.
     Inr encoded))"

record extraction_result =
  xs_payload_id :: pystr
  xs_result_sha256 :: pystr
  xs_result_json :: bytes
  xs_violations :: "(pystr \<times> pystr) list"
  xs_accepted_state :: "run_state option"
  xs_accepted_code :: "pystr option"

text \<open>The next state, the failure code and the payload's status.\<close>

definition extraction_outcome ::
  "extraction_result \<Rightarrow> int \<Rightarrow> run_state \<times> pystr option \<times> extraction_status" where
  "extraction_outcome x attempt =
     (case xs_accepted_state x of
        Some s \<Rightarrow> (s, xs_accepted_code x, X_accepted)
      | None \<Rightarrow>
          if attempt = 1 then (R_extracting, Some (lit ''validation_rejected_once''), X_rejected)
          else (R_manual_review, Some (lit ''validation_rejected''), X_rejected))"

definition record_automation_extraction ::
  "pyenv \<Rightarrow> pystr \<Rightarrow> instant \<Rightarrow> pystr \<Rightarrow> int \<Rightarrow> extraction_result \<Rightarrow> calendar_store
     \<Rightarrow> err + calendar_store \<times> automation_run" where
  "record_automation_extraction env event_id now run_id expected x st =
     andThen (require (length (xs_result_sha256 x) = 64 \<and> sha256 env (xs_result_json x) = xs_result_sha256 x
            \<and> 1 \<le> length (xs_result_json x) \<and> length (xs_result_json x) \<le> 32768)
         (ValueError ''automation extraction result is not bounded'')) (\<lambda>_.
     andThen (encoded_automation_violations (xs_violations x)) (\<lambda>violations_json.
     andThen (require ((xs_violations x = []) = (xs_accepted_state x \<noteq> None))
         (ValueError ''accepted extraction state does not match validation outcome'')) (\<lambda>_.
     andThen (require (opt_all (\<lambda>s. s \<in> {R_proposing, R_manual_review, R_ambiguous}) (xs_accepted_state x))
         (ValueError ''accepted extraction state is not supported'')) (\<lambda>_.
     andThen (require (automation_source_available env st run_id) KeyError) (\<lambda>_.
     andThen (the_row KeyError (find_run st run_id)) (\<lambda>row.
     andThen (the_row KeyError (find_extraction st (xs_payload_id x))) (\<lambda>payload.
     andThen (require (ar_state row = R_extracting \<and> ar_state_version row = expected
            \<and> ar_current_payload_id row = Some (xs_payload_id x) \<and> xp_run_id payload = run_id
            \<and> xp_status payload = X_reserved)
         (RuntimeError ''Automation extraction completion lost its expected-state race'')) (\<lambda>_.
     (case extraction_outcome x (xp_attempt_no payload) of (next, failure, status) \<Rightarrow>
      andThen (update_extraction ''Automation extraction payload was not reserved''
          (\<lambda>p. xp_payload_id p = xs_payload_id x \<and> xp_run_id p = run_id \<and> xp_status p = X_reserved)
          (\<lambda>p. p\<lparr>xp_status := status, xp_result_sha256 := Some (xs_result_sha256 x),
                 xp_result_json := Some (xs_result_json x), xp_violations_json := Some violations_json,
                 xp_next_retry_at := None, xp_completed_at := Some now\<rparr>) st) (\<lambda>st.
      record_transition ''Automation extraction completion lost its expected-state race''
        ''Automation extraction result was not readable''
        (\<lambda>r. run_at run_id R_extracting expected r \<and> ar_current_payload_id r = Some (xs_payload_id x))
        (\<lambda>r. r\<lparr>ar_state := next, ar_state_version := expected + 1, ar_failure_code := failure,
               ar_current_payload_sha256 := Some (xs_result_sha256 x), ar_review_notified_at := None,
               ar_updated_at := now\<rparr>)
        event_id row R_extracting next (expected + 1) failure
        (no_note\<lparr>en_payload_id := Some (xs_payload_id x), en_payload_sha256 := Some (xs_result_sha256 x)\<rparr>) now st))))))))))"

definition transition_automation_to_review ::
  "pystr \<Rightarrow> instant \<Rightarrow> pystr \<Rightarrow> int \<Rightarrow> run_state \<Rightarrow> pystr \<Rightarrow> calendar_store \<Rightarrow> err + calendar_store \<times> automation_run" where
  "transition_automation_to_review event_id now run_id expected next failure_code st =
     andThen (require (next \<in> {R_manual_review, R_source_unavailable})
         (ValueError ''automation review transition is not supported'')) (\<lambda>_.
     andThen (the_row KeyError (find_run st run_id)) (\<lambda>row.
     andThen (require (ar_state row \<in> {R_detected, R_extracting, R_proposing} \<and> ar_state_version row = expected)
         (RuntimeError ''Automation review transition lost its expected-state race'')) (\<lambda>_.
     (let st = (if next = R_source_unavailable
          then st\<lparr>cs_extractions := delete_where (\<lambda>p. xp_run_id p = run_id) (cs_extractions st)\<rparr> else st) in
      record_transition ''Automation review transition lost its expected-state race''
        ''Automation review transition was not readable'' (run_at run_id (ar_state row) expected)
        (\<lambda>r. r\<lparr>ar_state := next, ar_state_version := expected + 1, ar_failure_code := Some failure_code,
               ar_review_notified_at := None, ar_updated_at := now\<rparr>)
        event_id row (ar_state row) next (expected + 1) (Some failure_code)
        (no_note\<lparr>en_payload_id := ar_current_payload_id row,
                  en_payload_sha256 := ar_current_payload_sha256 row\<rparr>) now st))))"

end
