(* ===== verification/Calendar_Writes.thy ===== *)
theory Calendar_Writes
  imports Calendar_Runs
begin

text \<open>
  The second half of the scheduling automation: proposals and the owner's decision on them, the
  ledger of calendar writes from authorization to outcome, cancellation of admissions whose source
  is gone, purge of expired runs, and the queries the scheduler polls.
\<close>

record timeenv =
  fromisoformat :: "pystr \<Rightarrow> (int \<times> int option) option"
  zone_offset :: "pystr \<Rightarrow> (instant \<Rightarrow> int) option"
  local_offset :: "int \<Rightarrow> int"

text \<open>\<open>value.astimezone(UTC)\<close>; a time without an offset is in the machine's zone.\<close>

definition as_utc :: "timeenv \<Rightarrow> int \<times> int option \<Rightarrow> instant" where
  "as_utc te = (\<lambda>(wall, offset). wall - (case offset of Some o' \<Rightarrow> o' | None \<Rightarrow> local_offset te wall))"

fun iso_utc :: "timeenv \<Rightarrow> iso \<Rightarrow> instant option" where
  "iso_utc te (Aware t) = Some t"
| "iso_utc te (Naive wall) = Some (as_utc te (wall, None))"
| "iso_utc te NotIso = None"

section \<open>Cancellation\<close>

datatype cause = Cause_source_unavailable | Cause_thread_unfollowed

fun cause_text :: "cause \<Rightarrow> pystr" where
  "cause_text Cause_source_unavailable = lit ''source_unavailable''"
| "cause_text Cause_thread_unfollowed = lit ''thread_unfollowed''"

definition automation_source_loss_requires_review :: "pystr option \<Rightarrow> bool" where
  "automation_source_loss_requires_review cause \<longleftrightarrow> cause \<noteq> Some (lit ''thread_unfollowed'')"

definition CALENDAR_PENDING_STATES :: "run_state set" where
  "CALENDAR_PENDING_STATES = {R_detected, R_extracting, R_proposing, R_awaiting_confirmation}"

definition CALENDAR_REVIEW_STATES :: "run_state set" where
  "CALENDAR_REVIEW_STATES = {R_manual_review, R_ambiguous}"

definition drop_payloads :: "pystr \<Rightarrow> calendar_store \<Rightarrow> calendar_store" where
  "drop_payloads run_id st =
     st\<lparr>cs_extractions := delete_where (\<lambda>p. xp_run_id p = run_id) (cs_extractions st),
        cs_proposals := delete_where (\<lambda>p. pp_run_id p = run_id) (cs_proposals st)\<rparr>"

definition cancelled_run :: "cause \<Rightarrow> int \<Rightarrow> instant \<Rightarrow> automation_run \<Rightarrow> automation_run" where
  "cancelled_run c version now r =
     r\<lparr>ar_state := R_source_unavailable, ar_state_version := version,
       ar_failure_code := Some (lit ''source_unavailable''),
       ar_review_notified_at := (if automation_source_loss_requires_review (Some (cause_text c)) then None else Some now),
       ar_updated_at := now\<rparr>"

text \<open>\<open>row\<close> is the run as the caller selected it, \<open>tx\<close> the transaction id joined to it.\<close>

definition cancel_automation_source ::
  "pystr \<Rightarrow> instant \<Rightarrow> cause \<Rightarrow> automation_run \<Rightarrow> pystr option \<Rightarrow> calendar_store \<Rightarrow> err + calendar_store \<times> bool" where
  "cancel_automation_source event_id now c row tx st =
     (let run_id = ar_run_id row; st = drop_payloads run_id st; s = ar_state row; v = ar_state_version row + 1 in
      if s \<notin> CALENDAR_PENDING_STATES \<union> {R_write_authorized}
         \<and> \<not> (c = Cause_thread_unfollowed \<and> s \<in> CALENDAR_REVIEW_STATES)
      then Inr (st, False)
      else
        andThen (if s = R_write_authorized
            then update_write ''Automation source cleanup lost its write-state race''
              (\<lambda>w. cw_run_id w = run_id \<and> cw_status w = W_authorized)
              (\<lambda>w. w\<lparr>cw_status := W_cancelled, cw_failure_code := Some (cause_text c), cw_updated_at := now\<rparr>) st
            else Inr st) (\<lambda>st.
        andThen (update_run ''Automation source cleanup lost its expected-state race''
            (run_at run_id s (ar_state_version row)) (cancelled_run c v now) st) (\<lambda>st.
        andThen (append_automation_event event_id row (Some s) R_source_unavailable v (Some (cause_text c))
            (no_note\<lparr>en_payload_id := ar_current_payload_id row, en_payload_sha256 := ar_current_payload_sha256 row,
                      en_transaction_id := (if s = R_write_authorized then tx else None)\<rparr>) now st) (\<lambda>st.
        Inr (st, True)))))"

text \<open>
  \<open>fresh\<close> gives the id of the event a cancelled run gets. The rows of a chunk are selected before
  any of its runs is cancelled.
\<close>

fun cancel_rows ::
  "(pystr \<Rightarrow> pystr) \<Rightarrow> instant \<Rightarrow> cause \<Rightarrow> (automation_run \<times> pystr option) list \<Rightarrow> calendar_store
     \<Rightarrow> err + calendar_store \<times> nat" where
  "cancel_rows fresh now c [] st = Inr (st, 0)"
| "cancel_rows fresh now c ((row, tx) # rows) st =
     andThen (cancel_automation_source (fresh (ar_run_id row)) now c row tx st) (\<lambda>(st, done).
     andThen (cancel_rows fresh now c rows st) (\<lambda>(st, n).
     Inr (st, (if done then 1 else 0) + n)))"

definition bound_rows :: "pyenv \<Rightarrow> pystr list \<Rightarrow> calendar_store \<Rightarrow> (automation_run \<times> pystr option) list" where
  "bound_rows env message_ids st =
     sort_key (\<lambda>(r, tx). ar_run_id r)
       [(r, map_option cw_transaction_id (find_write st (ar_run_id r))).
          r \<leftarrow> cs_runs st, m \<leftarrow> so_messages (cs_sources st),
          automation_message_binding env st r m \<and> mg_message_id m \<in> Some ` set message_ids]"

definition AUTOMATION_CLEANUP_CHUNK_SIZE :: nat where "AUTOMATION_CLEANUP_CHUNK_SIZE = 500"

function (sequential) chunks :: "nat \<Rightarrow> 'a list \<Rightarrow> 'a list list" where
  "chunks n [] = []"
| "chunks n xs = take (Suc n) xs # chunks n (drop (Suc n) xs)"
  by pat_completeness auto

termination by (relation "measure (\<lambda>(n, xs). length xs)") auto

fun cancel_chunks ::
  "pyenv \<Rightarrow> (pystr \<Rightarrow> pystr) \<Rightarrow> instant \<Rightarrow> cause \<Rightarrow> pystr list list \<Rightarrow> calendar_store \<Rightarrow> err + calendar_store \<times> nat" where
  "cancel_chunks env fresh now c [] st = Inr (st, 0)"
| "cancel_chunks env fresh now c (ids # rest) st =
     andThen (cancel_rows fresh now c (bound_rows env ids st) st) (\<lambda>(st, n).
     andThen (cancel_chunks env fresh now c rest st) (\<lambda>(st, m).
     Inr (st, n + m)))"

fun sources_unavailable :: "instant \<Rightarrow> pystr list \<Rightarrow> store \<Rightarrow> err + store" where
  "sources_unavailable clock [] conn = Inr conn"
| "sources_unavailable clock (i # ids) conn =
     andThen (connect_source_unavailable clock i conn) (sources_unavailable clock ids)"

text \<open>The Connect tables and the calendar tables of one database, in one transaction.\<close>

definition mark_automation_sources_unavailable ::
  "pyenv \<Rightarrow> instant \<Rightarrow> (pystr \<Rightarrow> pystr) \<Rightarrow> instant \<Rightarrow> cause \<Rightarrow> pystr list \<Rightarrow> store \<times> calendar_store
     \<Rightarrow> err + (store \<times> calendar_store) \<times> nat" where
  "mark_automation_sources_unavailable env clock fresh now c message_ids = (\<lambda>(conn, st).
     andThen (sources_unavailable clock message_ids conn) (\<lambda>conn.
     andThen (cancel_chunks env fresh now c (chunks (AUTOMATION_CLEANUP_CHUNK_SIZE - 1) message_ids) st) (\<lambda>(st, n).
     Inr ((conn, st), n))))"

text \<open>Deleting a run deletes its payloads and its write (triggers); its events go with it.\<close>

definition expired_run :: "instant \<Rightarrow> automation_run \<Rightarrow> bool" where
  "expired_run now r \<longleftrightarrow> ar_state r \<notin> {R_writing, R_reconciling}
     \<and> (case iso_epoch (ar_expires_at r) of None \<Rightarrow> True | Some t \<Rightarrow> t \<le> now)"

definition purge_expired_automation_tombstones :: "instant \<Rightarrow> calendar_store \<Rightarrow> calendar_store" where
  "purge_expired_automation_tombstones now st =
     (let gone = (\<lambda>run_id. run_id \<in> ar_run_id ` set (filter (expired_run now) (cs_runs st))) in
      st\<lparr>cs_runs := delete_where (\<lambda>r. gone (ar_run_id r)) (cs_runs st),
         cs_extractions := delete_where (\<lambda>p. gone (xp_run_id p)) (cs_extractions st),
         cs_proposals := delete_where (\<lambda>p. gone (pp_run_id p)) (cs_proposals st),
         cs_writes := delete_where (\<lambda>w. gone (cw_run_id w)) (cs_writes st),
         cs_events := delete_where (\<lambda>e. gone (ae_run_id e)) (cs_events st)\<rparr>)"

section \<open>Proposals\<close>

definition MAX_AUTOMATION_PROPOSAL_ATTENDEES :: nat where "MAX_AUTOMATION_PROPOSAL_ATTENDEES = 64"

record new_proposal =
  np_extraction_payload_id :: pystr
  np_request_sha256 :: pystr
  np_subject :: pystr
  np_attendees :: "pystr list"
  np_start :: "pystr option"
  np_end :: "pystr option"
  np_timezone :: "pystr option"
  np_suggestion_reason :: "pystr option"
  np_empty_reason :: "pystr option"

definition hex_digest :: "pystr \<Rightarrow> bool" where
  "hex_digest s \<longleftrightarrow> length s = 64 \<and> list_all (\<lambda>c. is_hex c \<or> 65 \<le> c \<and> c \<le> 70) s"

fun normalize_attendees :: "pyenv \<Rightarrow> pystr list \<Rightarrow> err + pystr list" where
  "normalize_attendees env [] = Inr []"
| "normalize_attendees env (a # as) =
     (case normalize_validated_address env a of
        Inl _ \<Rightarrow> Inl (ValueError ''automation proposal content is invalid'')
      | Inr x \<Rightarrow> andThen (normalize_attendees env as) (\<lambda>xs. Inr (x # xs)))"

definition attendees_json :: "pystr list \<Rightarrow> err + bytes" where
  "attendees_json attendees =
     (case dumps_utf8 False False (JList (map JStr attendees)) of
        Inl _ \<Rightarrow> Inl (ValueError ''automation proposal content is invalid'') | Inr b \<Rightarrow> Inr b)"

definition proposal_accepted :: "new_proposal \<Rightarrow> bool" where
  "proposal_accepted p \<longleftrightarrow> np_start p \<noteq> None \<and> np_end p \<noteq> None \<and> np_timezone p \<noteq> None
     \<and> np_suggestion_reason p \<noteq> None \<and> np_suggestion_reason p \<noteq> Some [] \<and> np_empty_reason p = None"

definition proposal_empty :: "new_proposal \<Rightarrow> bool" where
  "proposal_empty p \<longleftrightarrow> np_start p = None \<and> np_end p = None \<and> np_timezone p = None
     \<and> np_suggestion_reason p = None \<and> np_empty_reason p \<noteq> None \<and> np_empty_reason p \<noteq> Some []"

definition check_proposal_content :: "pyenv \<Rightarrow> new_proposal \<Rightarrow> err + pystr list \<times> bytes" where
  "check_proposal_content env p =
     andThen (require (hex_digest (np_request_sha256 p)) (ValueError ''proposal request hash must be a SHA-256 digest'')) (\<lambda>_.
     andThen (require (utf8_size (np_subject p) \<noteq> None) (ValueError ''automation proposal content is invalid'')) (\<lambda>_.
     andThen (normalize_attendees env (np_attendees p)) (\<lambda>attendees.
     andThen (attendees_json attendees) (\<lambda>json.
     andThen (require (within_utf8_bytes (np_subject p) 512 \<and> length attendees \<le> MAX_AUTOMATION_PROPOSAL_ATTENDEES
            \<and> distinct attendees \<and> 2 \<le> length json \<and> length json \<le> 32768)
         (ValueError ''automation proposal content is not bounded'')) (\<lambda>_.
     andThen (require (opt_all (\<lambda>s. within_utf8_bytes s 64) (np_start p) \<and> opt_all (\<lambda>s. within_utf8_bytes s 64) (np_end p)
            \<and> opt_all (\<lambda>s. within_utf8_bytes s 128) (np_timezone p)
            \<and> opt_all (\<lambda>s. within_utf8_bytes s 512) (np_suggestion_reason p)
            \<and> opt_all (\<lambda>s. within_utf8_bytes s 512) (np_empty_reason p))
         (ValueError ''automation proposal content is not bounded'')) (\<lambda>_.
     andThen (require (proposal_accepted p \<noteq> proposal_empty p)
         (ValueError ''automation proposal outcome is incomplete'')) (\<lambda>_.
     Inr (attendees, json))))))))"

text \<open>Start and end are aware, in the future and in order, and are wall times of the named zone.\<close>

definition check_proposal_time :: "timeenv \<Rightarrow> instant \<Rightarrow> pystr \<Rightarrow> pystr \<Rightarrow> pystr \<Rightarrow> err + instant" where
  "check_proposal_time te now start end timezone =
     (case (fromisoformat te start, fromisoformat te end, zone_offset te timezone) of
        (Some (swall, Some soff), Some (ewall, Some eoff), Some zone) \<Rightarrow>
          (let s = swall - soff; e = ewall - eoff in
           if s \<le> now \<or> e \<le> s \<or> s + zone s \<noteq> swall \<or> e + zone e \<noteq> ewall \<or> zone s \<noteq> soff \<or> zone e \<noteq> eoff
           then Inl (ValueError ''automation proposal time is invalid'')
           else Inr s)
      | _ \<Rightarrow> Inl (ValueError ''automation proposal time is invalid''))"

definition calendar_proposal_generation :: "calendar_store \<Rightarrow> pystr \<Rightarrow> int option \<Rightarrow> int" where
  "calendar_proposal_generation st run_id below =
     int (count_where (\<lambda>e. ae_run_id e = run_id \<and> ae_previous_state e = Some R_proposing
        \<and> ae_next_state e \<in> {R_awaiting_confirmation, R_manual_review}
        \<and> opt_all (\<lambda>v. ae_state_version e < v) below) (cs_events st))"

definition prior_proposal_version :: "calendar_store \<Rightarrow> pystr \<Rightarrow> int" where
  "prior_proposal_version st run_id =
     max (foldl max 0 (map pp_proposal_version (filter (\<lambda>p. pp_run_id p = run_id) (cs_proposals st))))
         (case find_write st run_id of None \<Rightarrow> 0 | Some w \<Rightarrow> cw_proposal_version w)"

definition next_proposal_version :: "calendar_store \<Rightarrow> pystr \<Rightarrow> int" where
  "next_proposal_version st run_id =
     max (prior_proposal_version st run_id) (calendar_proposal_generation st run_id None) + 1"

definition proposal_document :: "new_proposal \<Rightarrow> pystr list \<Rightarrow> pystr \<Rightarrow> int \<Rightarrow> json" where
  "proposal_document p attendees key version =
     JObj [(lit ''attendees'', JList (map JStr attendees)), (lit ''calendar'', JStr (lit ''primary'')),
       (lit ''empty_reason'', opt_json (np_empty_reason p)), (lit ''end'', opt_json (np_end p)),
       (lit ''online_meeting'', JBool False), (lit ''principal_key'', JStr key),
       (lit ''start'', opt_json (np_start p)), (lit ''subject'', JStr (np_subject p)),
       (lit ''suggestion_reason'', opt_json (np_suggestion_reason p)),
       (lit ''timezone'', opt_json (np_timezone p)), (lit ''version'', JInt version)]"

definition proposal_row ::
  "pystr \<Rightarrow> pystr \<Rightarrow> new_proposal \<Rightarrow> bytes \<Rightarrow> int \<Rightarrow> pystr \<Rightarrow> instant \<Rightarrow> instant option \<Rightarrow> automation_proposal_payload" where
  "proposal_row payload_id run_id p attendees version digest now expires =
     \<lparr>pp_payload_id = payload_id, pp_run_id = run_id, pp_proposal_version = version,
      pp_status = (if proposal_accepted p then Proposal_accepted else No_suggestions),
      pp_request_sha256 = np_request_sha256 p, pp_proposal_sha256 = digest, pp_subject = np_subject p,
      pp_attendees_json = attendees, pp_start = np_start p, pp_end = np_end p, pp_timezone = np_timezone p,
      pp_suggestion_reason = np_suggestion_reason p, pp_empty_reason = np_empty_reason p, pp_observed_at = now,
      pp_expires_at = map_option Aware expires, pp_created_at = now\<rparr>"

definition insert_proposal :: "automation_proposal_payload \<Rightarrow> calendar_store \<Rightarrow> err + calendar_store" where
  "insert_proposal p st =
     (if \<not> automation_proposal_check p
         \<or> exists_where (\<lambda>x. pp_payload_id x = pp_payload_id p
              \<or> pp_run_id x = pp_run_id p \<and> pp_proposal_version x = pp_proposal_version p) (cs_proposals st)
      then Inl (IntegrityError ''automation_proposal_payloads'')
      else Inr (st\<lparr>cs_proposals := cs_proposals st @ [p]\<rparr>))"

definition calendar_run_live :: "instant \<Rightarrow> automation_run \<Rightarrow> bool" where
  "calendar_run_live now r = (case iso_epoch (ar_expires_at r) of None \<Rightarrow> False | Some t \<Rightarrow> now < t)"

text \<open>The proposal lives for fifteen minutes, not beyond its start and not beyond its run.\<close>

definition proposal_expiry :: "instant \<Rightarrow> instant option \<Rightarrow> automation_run \<Rightarrow> instant option" where
  "proposal_expiry now start row =
     (case (start, iso_epoch (ar_expires_at row)) of
        (Some s, Some t) \<Rightarrow> Some (min (min (now + seconds (15 * 60)) s) t)
      | _ \<Rightarrow> None)"

definition record_automation_proposal ::
  "pyenv \<Rightarrow> timeenv \<Rightarrow> pystr \<Rightarrow> pystr \<Rightarrow> instant \<Rightarrow> pystr \<Rightarrow> int \<Rightarrow> new_proposal \<Rightarrow> calendar_store
     \<Rightarrow> err + calendar_store \<times> automation_run" where
  "record_automation_proposal env te payload_id event_id now run_id expected p st =
     andThen (check_proposal_content env p) (\<lambda>(attendees, json).
     andThen (case (np_start p, np_end p, np_timezone p) of
          (Some s, Some e, Some z) \<Rightarrow>
            if proposal_accepted p then andThen (check_proposal_time te now s e z) (\<lambda>start. Inr (Some start)) else Inr None
        | _ \<Rightarrow> Inr None) (\<lambda>start.
     andThen (require (automation_source_available env st run_id) KeyError) (\<lambda>_.
     andThen (the_row KeyError (case find_run st run_id of
          Some r \<Rightarrow> if calendar_run_live now r then Some r else None | None \<Rightarrow> None)) (\<lambda>row.
     andThen (the_row KeyError (List.find (\<lambda>x. xp_payload_id x = np_extraction_payload_id p \<and> xp_run_id x = run_id)
          (cs_extractions st))) (\<lambda>extraction.
     andThen (require (ar_state row = R_proposing \<and> ar_state_version row = expected \<and> xp_status extraction = X_accepted)
         (RuntimeError ''Automation proposal lost its expected-state race'')) (\<lambda>_.
     (let version = next_proposal_version st run_id;
          next = (if proposal_accepted p then R_awaiting_confirmation else R_manual_review);
          failure = (if proposal_accepted p then None else Some (lit ''proposal_no_suggestions'')) in
      andThen (dumps_utf8 False True (proposal_document p attendees (ar_calendar_principal_key row) version)) (\<lambda>doc.
      (let digest = sha256 env doc in
       andThen (insert_proposal (proposal_row payload_id run_id p json version digest now (proposal_expiry now start row)) st) (\<lambda>st.
       record_transition ''Automation proposal lost its expected-state race'' ''Automation proposal was not readable''
         (run_at run_id R_proposing expected)
         (\<lambda>r. r\<lparr>ar_state := next, ar_state_version := expected + 1, ar_failure_code := failure,
                ar_current_payload_id := Some payload_id, ar_current_payload_sha256 := Some digest,
                ar_review_notified_at := None, ar_updated_at := now\<rparr>)
         event_id row R_proposing next (expected + 1) failure
         (no_note\<lparr>en_payload_id := Some payload_id, en_payload_sha256 := Some digest\<rparr>) now st))))))))))"

section \<open>Decisions\<close>

record write_outcome =
  wo_run_id :: pystr
  wo_state_version :: int
  wo_transaction_id :: "pystr option"
  wo_status :: write_status
  wo_failure_code :: "pystr option"
  wo_graph_event_id :: "pystr option"

definition calendar_write_outcome :: "automation_run \<Rightarrow> automation_calendar_write \<Rightarrow> write_outcome" where
  "calendar_write_outcome r w =
     \<lparr>wo_run_id = ar_run_id r, wo_state_version = ar_state_version r, wo_transaction_id = Some (cw_transaction_id w),
      wo_status = cw_status w, wo_failure_code = cw_failure_code w, wo_graph_event_id = cw_graph_event_id w\<rparr>"

datatype run_or_cancelled = Run automation_run | Cancelled automation_run write_outcome

definition confirmed_then_cancelled :: "automation_event \<Rightarrow> automation_event \<Rightarrow> bool" where
  "confirmed_then_cancelled a c \<longleftrightarrow>
     ae_run_id c = ae_run_id a \<and> ae_state_version c = ae_state_version a + 1
     \<and> ae_transaction_id c \<noteq> None \<and> ae_transaction_id c = ae_transaction_id a
     \<and> ae_decision a = Some Confirmed \<and> ae_previous_state a = Some R_awaiting_confirmation
     \<and> ae_next_state a = R_write_authorized \<and> ae_transition_kind a = R_write_authorized
     \<and> ae_previous_state c = Some R_write_authorized \<and> ae_next_state c = R_source_unavailable
     \<and> ae_transition_kind c = R_source_unavailable
     \<and> ae_failure_code c \<in> {Some (lit ''source_unavailable''), Some (lit ''thread_unfollowed'')}"

definition cancellation_event :: "calendar_store \<Rightarrow> pystr \<Rightarrow> int \<Rightarrow> pystr option \<Rightarrow> automation_event option" where
  "cancellation_event st run_id confirmed_version sha =
     (case [c. a \<leftarrow> cs_events st, ae_run_id a = run_id \<and> ae_state_version a = confirmed_version
               \<and> (sha = None \<or> ae_payload_sha256 a = sha),
             c \<leftarrow> cs_events st, confirmed_then_cancelled a c] of
        [] \<Rightarrow> None | c # _ \<Rightarrow> Some c)"

definition cancelled_projection :: "automation_run \<Rightarrow> automation_event \<Rightarrow> automation_run" where
  "cancelled_projection row c =
     row\<lparr>ar_state := R_source_unavailable, ar_state_version := ae_state_version c,
         ar_failure_code := Some (lit ''source_unavailable''), ar_automation_id := ae_automation_id c,
         ar_automation_version := ae_automation_version c,
         ar_extraction_schema_version := ae_extraction_schema_version c,
         ar_calendar_principal_key := ae_calendar_principal_key c, ar_source_content_sha256 := None,
         ar_extraction_context_at := None, ar_extraction_timezone := None, ar_extraction_body_char_limit := None,
         ar_current_payload_id := ae_payload_id c, ar_current_payload_sha256 := ae_payload_sha256 c,
         ar_review_notified_at :=
           (if automation_source_loss_requires_review (ae_failure_code c) then None else Some (ae_created_at c)),
         ar_updated_at := ae_created_at c\<rparr>"

definition cancelled_outcome :: "automation_run \<Rightarrow> automation_event \<Rightarrow> run_or_cancelled" where
  "cancelled_outcome row c =
     Cancelled (cancelled_projection row c)
       \<lparr>wo_run_id = ar_run_id row, wo_state_version = ae_state_version c, wo_transaction_id = ae_transaction_id c,
        wo_status = W_cancelled, wo_failure_code = ae_failure_code c, wo_graph_event_id = None\<rparr>"

text \<open>\<open>identity\<close> is the proposal's digest and version when the caller passes them.\<close>

definition cancelled_calendar_admission ::
  "calendar_store \<Rightarrow> automation_run \<Rightarrow> int \<Rightarrow> (pystr \<times> int) option \<Rightarrow> err + run_or_cancelled option" where
  "cancelled_calendar_admission st row confirmed_version identity =
     (case cancellation_event st (ar_run_id row) confirmed_version (map_option fst identity) of
        None \<Rightarrow> Inr None
      | Some c \<Rightarrow>
          if opt_all (\<lambda>i. snd i = calendar_proposal_generation st (ar_run_id row) (Some confirmed_version)) identity
          then
            andThen (the_row (RuntimeError ''Cancelled automation admission ledger is inconsistent'')
                (find_write st (ar_run_id row))) (\<lambda>w.
            andThen (require (ae_transaction_id c = Some (cw_transaction_id w) \<longrightarrow>
                  cw_status w = W_cancelled \<and> cw_failure_code w = ae_failure_code c)
                (RuntimeError ''Cancelled automation admission ledger is inconsistent'')) (\<lambda>_.
            Inr (Some (cancelled_outcome row c))))
          else Inr None)"

datatype decision_word = Confirm | Decline

definition decided_run ::
  "run_state \<Rightarrow> int \<Rightarrow> pystr option \<Rightarrow> pystr \<Rightarrow> pystr \<Rightarrow> instant \<Rightarrow> automation_run \<Rightarrow> automation_run" where
  "decided_run next version failure payload_id digest now r =
     r\<lparr>ar_state := next, ar_state_version := version, ar_failure_code := failure,
       ar_current_payload_id := Some payload_id, ar_current_payload_sha256 := Some digest,
       ar_review_notified_at := None, ar_updated_at := now\<rparr>"

text \<open>The update and the event at the end of \<open>decide_automation_proposal\<close>.\<close>

definition finish_decision ::
  "pystr \<Rightarrow> instant \<Rightarrow> automation_run \<Rightarrow> automation_proposal_payload \<Rightarrow> run_state \<Rightarrow> pystr option \<Rightarrow> pystr \<Rightarrow> pystr
     \<Rightarrow> decision option \<Rightarrow> pystr option \<Rightarrow> calendar_store \<Rightarrow> err + calendar_store \<times> run_or_cancelled" where
  "finish_decision event_id now row proposal next failure payload_id digest dec tx st =
     (let v = ar_state_version row; run_id = ar_run_id row in
      andThen (record_transition ''Automation proposal decision lost its expected-state race''
          ''Automation proposal decision was not readable''
          (\<lambda>r. run_at run_id R_awaiting_confirmation v r \<and> ar_current_payload_id r = Some (pp_payload_id proposal)
             \<and> ar_current_payload_sha256 r = Some (pp_proposal_sha256 proposal))
          (decided_run next (v + 1) failure payload_id digest now)
          event_id row R_awaiting_confirmation next (v + 1) failure
          (no_note\<lparr>en_payload_id := Some (pp_payload_id proposal),
                    en_payload_sha256 := Some (pp_proposal_sha256 proposal), en_decision := dec,
                    en_transaction_id := tx\<rparr>) now st) (\<lambda>(st, updated).
      Inr (st, Run updated)))"

definition authorized_write ::
  "pystr \<Rightarrow> automation_run \<Rightarrow> automation_proposal_payload \<Rightarrow> pystr \<Rightarrow> pystr \<Rightarrow> pystr \<Rightarrow> instant \<Rightarrow> automation_calendar_write" where
  "authorized_write tx row proposal start end timezone now =
     \<lparr>cw_run_id = ar_run_id row, cw_transaction_id = tx, cw_proposal_version = pp_proposal_version proposal,
      cw_proposal_sha256 = pp_proposal_sha256 proposal, cw_calendar_principal_key = ar_calendar_principal_key row,
      cw_calendar_id = lit ''primary'', cw_start = start, cw_end = end, cw_timezone = timezone,
      cw_status = W_authorized, cw_graph_event_id = None, cw_failure_code = None, cw_confirmed_at = now,
      cw_submitted_at = None, cw_completed_at = None, cw_updated_at = now\<rparr>"

definition insert_write :: "automation_calendar_write \<Rightarrow> calendar_store \<Rightarrow> err + calendar_store" where
  "insert_write w st =
     (if \<not> automation_write_check w
         \<or> exists_where (\<lambda>x. cw_run_id x = cw_run_id w \<or> cw_transaction_id x = cw_transaction_id w) (cs_writes st)
      then Inl (IntegrityError ''automation_calendar_writes'')
      else Inr (st\<lparr>cs_writes := cs_writes st @ [w]\<rparr>))"

text \<open>The new admission replaces a cancelled one of the run.\<close>

definition replace_cancelled_write ::
  "automation_calendar_write \<Rightarrow> calendar_store \<Rightarrow> err + calendar_store" where
  "replace_cancelled_write w st =
     (let P = (\<lambda>x. cw_run_id x = cw_run_id w \<and> cw_status x = W_cancelled) in
      andThen (case find_write st (cw_run_id w) of
           None \<Rightarrow> Inr st
         | Some _ \<Rightarrow> andThen (require (count_where P (cs_writes st) = 1)
               (RuntimeError ''Cancelled automation admission changed'')) (\<lambda>_.
             Inr (st\<lparr>cs_writes := delete_where P (cs_writes st)\<rparr>)))
        (insert_write w))"

definition confirm_proposal ::
  "timeenv \<Rightarrow> pystr \<Rightarrow> pystr \<Rightarrow> instant \<Rightarrow> bool \<Rightarrow> automation_run \<Rightarrow> automation_proposal_payload \<Rightarrow> calendar_store
     \<Rightarrow> err + calendar_store \<times> run_or_cancelled" where
  "confirm_proposal te tx event_id now write_authorized row proposal st =
     (case (pp_start proposal, pp_end proposal, pp_timezone proposal, pp_expires_at proposal) of
        (Some start, Some end, Some timezone, Some expires) \<Rightarrow>
          andThen (require (start \<noteq> [] \<and> end \<noteq> [] \<and> timezone \<noteq> [])
              (RuntimeError ''Stored automation proposal is incomplete'')) (\<lambda>_.
          (case (fromisoformat te start, iso_utc te expires) of
             (Some s, Some t) \<Rightarrow>
               if \<not> calendar_run_live now row \<or> t \<le> now \<or> as_utc te s \<le> now then
                 (case List.find (\<lambda>x. xp_run_id x = ar_run_id row \<and> xp_status x = X_accepted) (cs_extractions st) of
                    None \<Rightarrow> Inl (RuntimeError ''Accepted automation extraction is unavailable'')
                  | Some x \<Rightarrow>
                      andThen (the_row (RuntimeError ''Accepted automation extraction is unavailable'')
                          (xp_result_sha256 x)) (\<lambda>digest.
                      finish_decision event_id now row proposal R_proposing (Some (lit ''proposal_expired''))
                        (xp_payload_id x) digest None None st))
               else
                 andThen (require write_authorized (PermissionError ''Calendar write authorization is required'')) (\<lambda>_.
                 andThen (replace_cancelled_write (authorized_write tx row proposal start end timezone now) st) (\<lambda>st.
                 finish_decision event_id now row proposal R_write_authorized None (pp_payload_id proposal)
                   (pp_proposal_sha256 proposal) (Some Confirmed) (Some tx) st))
           | _ \<Rightarrow> Inl (RuntimeError ''Stored automation proposal time is invalid'')))
      | _ \<Rightarrow> Inl (RuntimeError ''Stored automation proposal is incomplete''))"

definition replayed_confirmation ::
  "automation_run \<Rightarrow> int \<Rightarrow> pystr \<Rightarrow> automation_calendar_write option \<Rightarrow> err + bool" where
  "replayed_confirmation row version digest existing =
     (case existing of
        None \<Rightarrow> Inr False
      | Some w \<Rightarrow>
          if cw_proposal_version w = version \<and> cw_proposal_sha256 w = digest then
            (if cw_status w = W_cancelled
             then Inl (RuntimeError ''Cancelled automation confirmation identity does not match'') else Inr True)
          else if cw_status w \<noteq> W_cancelled
          then Inl (RuntimeError ''Automation confirmation conflicts with its durable write'') else Inr False)"

text \<open>\<open>tx\<close> is the transaction id that is drawn when the write is authorized.\<close>

definition decide_automation_proposal ::
  "timeenv \<Rightarrow> pystr \<Rightarrow> pystr \<Rightarrow> instant \<Rightarrow> pystr \<Rightarrow> int \<Rightarrow> int \<Rightarrow> pystr \<Rightarrow> decision_word \<Rightarrow> bool \<Rightarrow> calendar_store
     \<Rightarrow> err + calendar_store \<times> run_or_cancelled" where
  "decide_automation_proposal te tx event_id now run_id expected version digest dec write_authorized st =
     andThen (require (1 \<le> expected \<and> 1 \<le> version \<and> length digest = 64)
         (ValueError ''automation proposal identity is invalid'')) (\<lambda>_.
     andThen (the_row KeyError (find_run st run_id)) (\<lambda>row.
     andThen (if dec = Confirm then cancelled_calendar_admission st row (expected + 1) (Some (digest, version))
              else Inr None) (\<lambda>cancelled.
     (case cancelled of
        Some c \<Rightarrow> Inr (st, c)
      | None \<Rightarrow>
          andThen (the_row KeyError (List.find (\<lambda>p. pp_run_id p = run_id \<and> pp_proposal_version p = version
               \<and> pp_proposal_sha256 p = digest) (cs_proposals st))) (\<lambda>proposal.
          andThen (if dec = Confirm then replayed_confirmation row version digest (find_write st run_id)
                   else Inr (ar_state row = R_declined)) (\<lambda>replayed.
          if replayed then Inr (st, Run row)
          else
            andThen (require (ar_state row = R_awaiting_confirmation \<and> ar_state_version row = expected
                   \<and> ar_current_payload_id row = Some (pp_payload_id proposal)
                   \<and> ar_current_payload_sha256 row = Some digest \<and> pp_status proposal = Proposal_accepted)
                (RuntimeError ''Automation proposal decision lost its expected-state race'')) (\<lambda>_.
            (case dec of
               Decline \<Rightarrow> finish_decision event_id now row proposal R_declined None (pp_payload_id proposal) digest
                 (Some Declined_by_user) None st
             | Confirm \<Rightarrow> confirm_proposal te tx event_id now write_authorized row proposal st))))))))"

section \<open>The write and its outcome\<close>

definition begin_automation_calendar_write ::
  "pyenv \<Rightarrow> pystr \<Rightarrow> instant \<Rightarrow> pystr \<Rightarrow> int \<Rightarrow> calendar_store \<Rightarrow> err + calendar_store \<times> run_or_cancelled" where
  "begin_automation_calendar_write env event_id now run_id expected st =
     andThen (require (1 \<le> expected) (ValueError ''Automation write version is invalid'')) (\<lambda>_.
     andThen (the_row KeyError (find_run st run_id)) (\<lambda>row.
     andThen (cancelled_calendar_admission st row expected None) (\<lambda>cancelled.
     (case cancelled of
        Some c \<Rightarrow> Inr (st, c)
      | None \<Rightarrow>
          andThen (the_row KeyError (find_write st run_id)) (\<lambda>w.
          andThen (require (ar_state row = R_write_authorized \<and> ar_state_version row = expected)
              AutomationCalendarWriteStateChanged) (\<lambda>_.
          andThen (require (cw_status w = W_authorized)
              (RuntimeError ''Automation write admission ledger is inconsistent'')) (\<lambda>_.
          if scheduling_source_join env st row = []
             \<or> \<not> exists_where (\<lambda>p. pp_run_id p = run_id \<and> ar_current_payload_id row = Some (pp_payload_id p)
                  \<and> pp_proposal_version p = cw_proposal_version w \<and> pp_proposal_sha256 p = cw_proposal_sha256 w)
                 (cs_proposals st)
          then
            andThen (cancel_automation_source event_id now Cause_source_unavailable row (Some (cw_transaction_id w)) st) (\<lambda>(st, _).
            andThen (cancelled_calendar_admission st row expected None) (\<lambda>cancelled.
            andThen (the_row (RuntimeError ''Automation cancellation was not readable'') cancelled) (\<lambda>c.
            Inr (st, c))))
          else
            andThen (update_write ''Automation write lost its expected-state race''
                (\<lambda>x. cw_run_id x = run_id \<and> cw_status x = W_authorized)
                (\<lambda>x. x\<lparr>cw_status := W_writing, cw_submitted_at := Some now, cw_failure_code := None,
                       cw_updated_at := now\<rparr>) st) (\<lambda>st.
            andThen (record_transition ''Automation write lost its expected-state race''
                ''Automation write transition was not readable'' (run_at run_id R_write_authorized expected)
                (\<lambda>r. r\<lparr>ar_state := R_writing, ar_state_version := expected + 1, ar_failure_code := None,
                       ar_review_notified_at := None, ar_updated_at := now\<rparr>)
                event_id row R_write_authorized R_writing (expected + 1) None
                (no_note\<lparr>en_payload_id := ar_current_payload_id row, en_payload_sha256 := ar_current_payload_sha256 row,
                          en_transaction_id := Some (cw_transaction_id w)\<rparr>) now st) (\<lambda>(st, updated).
            Inr (st, Run updated))))))))))"

fun write_transition_allowed :: "run_state \<Rightarrow> run_state \<Rightarrow> bool" where
  "write_transition_allowed R_writing s = (s \<in> {R_completed, R_failed, R_unresolved})"
| "write_transition_allowed R_unresolved s = (s = R_reconciling)"
| "write_transition_allowed R_reconciling s = (s \<in> {R_completed, R_unresolved})"
| "write_transition_allowed _ s = False"

fun status_of_state :: "run_state \<Rightarrow> write_status" where
  "status_of_state R_write_authorized = W_authorized"
| "status_of_state R_writing = W_writing"
| "status_of_state R_unresolved = W_unresolved"
| "status_of_state R_reconciling = W_reconciling"
| "status_of_state R_completed = W_completed"
| "status_of_state R_failed = W_failed"
| "status_of_state _ = W_cancelled"

text \<open>The failure code that is stored, after the checks on the two optional arguments.\<close>

definition check_write_outcome :: "run_state \<Rightarrow> pystr option \<Rightarrow> pystr option \<Rightarrow> err + pystr option" where
  "check_write_outcome next failure_code graph_event_id =
     (if next = R_completed then
        (case graph_event_id of
           Some g \<Rightarrow> if g \<noteq> [] \<and> within_utf8_bytes g 512 then Inr None else Inl (ValueError ''Graph event identity is invalid'')
         | None \<Rightarrow> Inl (ValueError ''Graph event identity is invalid''))
      else if graph_event_id \<noteq> None
      then Inl (ValueError ''Only completed writes may record a Graph event identity'')
      else if next \<in> {R_failed, R_unresolved} then
        (case failure_code of
           Some c \<Rightarrow> if 1 \<le> length c \<and> length c \<le> 64 then Inr (Some c)
             else Inl (ValueError ''Automation write failure code is invalid'')
         | None \<Rightarrow> Inl (ValueError ''Automation write failure code is invalid''))
      else Inr None)"

definition transition_automation_calendar_write ::
  "pystr \<Rightarrow> instant \<Rightarrow> pystr \<Rightarrow> int \<Rightarrow> run_state \<Rightarrow> pystr option \<Rightarrow> pystr option \<Rightarrow> calendar_store
     \<Rightarrow> err + calendar_store \<times> automation_run" where
  "transition_automation_calendar_write event_id now run_id expected next failure_code graph_event_id st =
     andThen (the_row KeyError (find_run st run_id)) (\<lambda>row.
     andThen (the_row KeyError (find_write st run_id)) (\<lambda>w.
     andThen (require (write_transition_allowed (ar_state row) next \<and> ar_state_version row = expected)
         (RuntimeError ''Automation write transition lost its expected-state race'')) (\<lambda>_.
     andThen (check_write_outcome next failure_code graph_event_id) (\<lambda>failure.
     andThen (update_write ''Automation write transition lost its expected-state race''
         (\<lambda>x. cw_run_id x = run_id \<and> cw_status x = cw_status w)
         (\<lambda>x. x\<lparr>cw_status := status_of_state next, cw_graph_event_id := graph_event_id, cw_failure_code := failure,
                cw_completed_at := (if next = R_completed then Some now else None), cw_updated_at := now\<rparr>) st) (\<lambda>st.
     record_transition ''Automation write transition lost its expected-state race''
       ''Automation write outcome was not readable'' (run_at run_id (ar_state row) expected)
       (\<lambda>r. r\<lparr>ar_state := next, ar_state_version := expected + 1, ar_failure_code := failure,
              ar_review_notified_at := None, ar_updated_at := now\<rparr>)
       event_id row (ar_state row) next (expected + 1) failure
       (no_note\<lparr>en_payload_id := ar_current_payload_id row, en_payload_sha256 := ar_current_payload_sha256 row,
                 en_transaction_id := Some (cw_transaction_id w), en_graph_event_id := graph_event_id\<rparr>) now st)))))"

end
