(* ===== verification/Calendar_Service.thy ===== *)
theory Calendar_Service
  imports Calendar_Writes
begin

text \<open>
  The scheduler of \<open>service.py\<close> over the calendar tables: the queries it polls, the extraction loop
  of \<open>process_scheduling_automations\<close>, \<open>process_scheduling_writes\<close> and \<open>decide_scheduling_proposal\<close>.
  Microsoft Graph and the model are inputs: what each call answers. The calls that create a
  calendar event are kept in the list \<open>calls\<close>, so that theorems can count them.
\<close>

section \<open>Queries\<close>

record calendar_write_work =
  ww_run :: automation_run
  ww_proposal :: "automation_proposal_payload option"
  ww_write :: automation_calendar_write

definition write_pending :: "instant \<Rightarrow> automation_run \<Rightarrow> bool" where
  "write_pending now r \<longleftrightarrow> ar_state r \<in> {R_write_authorized, R_writing, R_unresolved, R_reconciling}
     \<and> (ar_state r \<in> {R_writing, R_reconciling} \<or> calendar_run_live now r)"

definition current_proposal :: "calendar_store \<Rightarrow> automation_run \<Rightarrow> automation_proposal_payload option" where
  "current_proposal st r =
     List.find (\<lambda>p. ar_current_payload_id r = Some (pp_payload_id p) \<and> pp_run_id p = ar_run_id r) (cs_proposals st)"

definition pending_automation_calendar_writes ::
  "nat \<Rightarrow> pystr option \<Rightarrow> instant \<Rightarrow> calendar_store \<Rightarrow> err + calendar_write_work list" where
  "pending_automation_calendar_writes limit run_id now st =
     andThen (require (1 \<le> limit) (ValueError ''limit must be positive'')) (\<lambda>_.
     Inr [\<lparr>ww_run = r, ww_proposal = current_proposal st r, ww_write = w\<rparr>.
        (r, w) \<leftarrow> take limit (sort_key (\<lambda>(r, w). (ar_updated_at r, ar_run_id r))
          [(r, w). r \<leftarrow> cs_runs st, w \<leftarrow> cs_writes st,
             cw_run_id w = ar_run_id r \<and> write_pending now r \<and> opt_all (\<lambda>i. ar_run_id r = i) run_id])])"

record automation_work =
  wk_run :: automation_run
  wk_message_id :: "pystr option"
  wk_provider_message_id :: pystr
  wk_sender :: pystr
  wk_sender_name :: "pystr option"
  wk_subject :: pystr
  wk_received_at :: pystr
  wk_organizer_address :: pystr
  wk_extraction_organizer_address :: "pystr option"
  wk_source_mailbox_identity_key :: "pystr option"

definition after_page :: "(instant \<times> pystr) option \<Rightarrow> automation_run \<Rightarrow> bool" where
  "after_page after r \<longleftrightarrow> opt_all (\<lambda>(at, i). at < ar_created_at r \<or> ar_created_at r = at \<and> i < ar_run_id r) after"

definition account_address :: "sources \<Rightarrow> automation_run \<Rightarrow> pystr option" where
  "account_address so r =
     (case List.find (\<lambda>a. ma_provider a = ar_provider r \<and> ma_account_id a = ar_account_id r) (so_accounts so) of
        None \<Rightarrow> None | Some a \<Rightarrow> ma_address a)"

definition current_extraction :: "calendar_store \<Rightarrow> automation_run \<Rightarrow> automation_extraction_payload option" where
  "current_extraction st r =
     (case ar_current_payload_id r of None \<Rightarrow> None | Some i \<Rightarrow> find_extraction st i)"

definition retry_due :: "instant \<Rightarrow> automation_extraction_payload option \<Rightarrow> bool" where
  "retry_due now p =
     (case p of
        None \<Rightarrow> True
      | Some x \<Rightarrow> (case xp_next_retry_at x of None \<Rightarrow> True | Some t \<Rightarrow> sql_le (iso_epoch t) (Some now)))"

definition recoverable_automation_runs ::
  "pyenv \<Rightarrow> nat \<Rightarrow> (instant \<times> pystr) option \<Rightarrow> instant \<Rightarrow> calendar_store \<Rightarrow> err + automation_work list" where
  "recoverable_automation_runs env limit after now st =
     andThen (require (1 \<le> limit) (ValueError ''limit must be positive'')) (\<lambda>_.
     Inr (take limit (sort_key (\<lambda>k. (ar_created_at (wk_run k), ar_run_id (wk_run k)))
       [\<lparr>wk_run = r, wk_message_id = mg_message_id m, wk_provider_message_id = mg_provider_message_id m,
         wk_sender = sr_sender m, wk_sender_name = sr_sender_name m, wk_subject = sr_subject m,
         wk_received_at = sr_received_at m, wk_organizer_address = address,
         wk_extraction_organizer_address = map_option xp_organizer_address (current_extraction st r),
         wk_source_mailbox_identity_key = run_identity st (ar_run_id r)\<rparr>.
          r \<leftarrow> cs_runs st,
          scheduling_preparation_available env st r \<and> retry_due now (current_extraction st r) \<and> after_page after r,
          (m, l) \<leftarrow> scheduling_source_join env st r,
          address \<leftarrow> (case account_address (cs_sources st) r of None \<Rightarrow> [] | Some a \<Rightarrow> [a])])))"

record proposal_work =
  pw_run :: automation_run
  pw_message_id :: "pystr option"
  pw_subject :: pystr
  pw_organizer_address :: pystr
  pw_extraction_payload :: automation_extraction_payload

definition proposable_automation_runs ::
  "pyenv \<Rightarrow> nat \<Rightarrow> (instant \<times> pystr) option \<Rightarrow> calendar_store \<Rightarrow> err + proposal_work list" where
  "proposable_automation_runs env limit after st =
     andThen (require (1 \<le> limit) (ValueError ''limit must be positive'')) (\<lambda>_.
     Inr (take limit (sort_key (\<lambda>k. (ar_created_at (pw_run k), ar_run_id (pw_run k)))
       [\<lparr>pw_run = r, pw_message_id = mg_message_id m, pw_subject = sr_subject m, pw_organizer_address = address,
         pw_extraction_payload = x\<rparr>.
          r \<leftarrow> cs_runs st, ar_state r = R_proposing \<and> after_page after r,
          (m, l) \<leftarrow> scheduling_source_join env st r,
          address \<leftarrow> (case account_address (cs_sources st) r of None \<Rightarrow> [] | Some a \<Rightarrow> [a]),
          x \<leftarrow> cs_extractions st, xp_run_id x = ar_run_id r \<and> xp_status x = X_accepted])))"

definition automation_proposal :: "pyenv \<Rightarrow> calendar_store \<Rightarrow> pystr \<Rightarrow> automation_proposal_payload option" where
  "automation_proposal env st run_id =
     (if automation_source_available env st run_id
      then (case find_run st run_id of None \<Rightarrow> None | Some r \<Rightarrow> current_proposal st r) else None)"

definition automation_extraction_payloads :: "pyenv \<Rightarrow> calendar_store \<Rightarrow> pystr \<Rightarrow> automation_extraction_payload list" where
  "automation_extraction_payloads env st run_id =
     (if automation_source_available env st run_id then run_extractions st run_id else [])"

text \<open>The run of a message, and the write joined to it when \<open>with_write\<close>.\<close>

definition automation_run_for_message :: "pyenv \<Rightarrow> bool \<Rightarrow> calendar_store \<Rightarrow> pystr \<Rightarrow> automation_run option" where
  "automation_run_for_message env with_write st message_id =
     List.find (\<lambda>r. (with_write \<longrightarrow> find_write st (ar_run_id r) \<noteq> None)
       \<and> exists_where (\<lambda>(s, m). mg_message_id m = Some message_id
           \<and> (case so_removal (cs_sources st) of
                None \<Rightarrow> True | Some rm \<Rightarrow> available False rm (message_row.truncate m))) (scheduling_source_join env st r))
       (cs_runs st)"

definition calendar_write_outcome_for_message :: "pyenv \<Rightarrow> calendar_store \<Rightarrow> pystr \<Rightarrow> write_outcome option" where
  "calendar_write_outcome_for_message env st message_id =
     (case automation_run_for_message env True st message_id of
        None \<Rightarrow> None
      | Some r \<Rightarrow>
          (case find_write st (ar_run_id r) of
             None \<Rightarrow> None
           | Some w \<Rightarrow>
               if cw_status w = W_cancelled \<and> ar_state r \<in> {R_manual_review, R_ambiguous} then None
               else Some (calendar_write_outcome r w)))"

section \<open>The extraction loop\<close>

text \<open>
  The \<open>while\<close> loop of \<open>process_scheduling_automations\<close> on one run, from the fetched source to the
  end of the run's turn. The \<open>n\<close>-th answer of the model is \<open>answers ! n\<close>; ids and clocks of the
  \<open>n\<close>-th turn are \<open>ids n\<close> and \<open>clock n\<close>. The result is the store, how many runs were processed and how
  many need a review. A raised exception that the loop does not catch is \<open>Inl\<close>.
\<close>

datatype intent = New_meeting | Reschedule | Cancellation | Other_intent

datatype model_answer =
    Gateway_error pystr bool "int option"
  | Model_error
  | Extracted pystr bytes "(pystr \<times> pystr) list" intent

fun accepted_extraction_outcome :: "intent \<Rightarrow> run_state \<times> pystr option" where
  "accepted_extraction_outcome New_meeting = (R_proposing, None)"
| "accepted_extraction_outcome Reschedule = (R_manual_review, Some (lit ''reschedule_not_supported''))"
| "accepted_extraction_outcome Cancellation = (R_manual_review, Some (lit ''cancellation_not_supported''))"
| "accepted_extraction_outcome Other_intent = (R_ambiguous, Some (lit ''ambiguous_extraction''))"

record turn_ids =
  ti_payload :: pystr
  ti_request :: pystr
  ti_event :: pystr
  ti_event2 :: pystr
  ti_now :: instant

definition transition_source_problem ::
  "pystr \<Rightarrow> instant \<Rightarrow> pystr \<Rightarrow> run_state \<Rightarrow> pystr \<Rightarrow> calendar_store \<Rightarrow> err + calendar_store" where
  "transition_source_problem event_id now run_id next failure_code st =
     (case find_run st run_id of
        None \<Rightarrow> Inr st
      | Some current \<Rightarrow>
          if ar_state current \<in> {R_detected, R_extracting}
          then map_sum id fst (transition_automation_to_review event_id now run_id (ar_state_version current)
                 next failure_code st)
          else Inr st)"

definition answer_failure :: "model_answer \<Rightarrow> pystr \<Rightarrow> extraction_failure option" where
  "answer_failure a payload_id =
     (case a of
        Gateway_error code retryable after \<Rightarrow>
          Some \<lparr>xf_payload_id = payload_id, xf_error_code = code, xf_retryable = retryable,
                xf_retry_after_seconds = after\<rparr>
      | Model_error \<Rightarrow>
          Some \<lparr>xf_payload_id = payload_id, xf_error_code = lit ''model_unavailable'', xf_retryable = True,
                xf_retry_after_seconds = None\<rparr>
      | Extracted _ _ _ _ \<Rightarrow> None)"

definition answer_result :: "model_answer \<Rightarrow> pystr \<Rightarrow> extraction_result option" where
  "answer_result a payload_id =
     (case a of
        Extracted digest json violations intent \<Rightarrow>
          Some \<lparr>xs_payload_id = payload_id, xs_result_sha256 = digest, xs_result_json = json,
                xs_violations = violations,
                xs_accepted_state = (if violations = [] then Some (fst (accepted_extraction_outcome intent)) else None),
                xs_accepted_code = (if violations = [] then snd (accepted_extraction_outcome intent) else None)\<rparr>
      | _ \<Rightarrow> None)"

datatype turn_result = Turn_over calendar_store nat nat | Turn_again calendar_store automation_run

text \<open>One turn of the loop; \<open>current\<close> is the run as the loop holds it.\<close>

definition extraction_turn ::
  "pyenv \<Rightarrow> extraction_request \<Rightarrow> turn_ids \<Rightarrow> model_answer \<Rightarrow> automation_run \<Rightarrow> calendar_store \<Rightarrow> err + turn_result" where
  "extraction_turn env x t answer current st =
     (let run_id = ar_run_id current in
      case reserve_automation_extraction env (ti_payload t) (ti_request t) (ti_event t) (ti_now t) run_id
          (ar_state_version current) x st of
        Inl KeyError \<Rightarrow> Inr (Turn_over st 0 0)
      | Inl (AutomationSourceChanged _) \<Rightarrow>
          andThen (transition_source_problem (ti_event2 t) (ti_now t) run_id R_manual_review (lit ''source_changed'') st)
            (\<lambda>st. Inr (Turn_over st 1 1))
      | Inl e \<Rightarrow> Inl e
      | Inr (st, reservation) \<Rightarrow>
          (case find_run st run_id of
             None \<Rightarrow> Inl (RuntimeError ''Scheduling extraction reservation was not current'')
           | Some reserved \<Rightarrow>
               if ar_state reserved = R_source_unavailable then Inr (Turn_over st 0 0)
               else if ar_current_payload_id reserved \<noteq> Some (xp_payload_id reservation)
               then Inl (RuntimeError ''Scheduling extraction reservation was not current'')
               else
                 (case answer_failure answer (xp_payload_id reservation) of
                    Some f \<Rightarrow>
                      (case record_automation_extraction_failure env (ti_event2 t) (ti_now t) run_id
                          (ar_state_version reserved) f st of
                         Inl KeyError \<Rightarrow> Inr (Turn_over st 0 0)
                       | Inl e \<Rightarrow> Inl e
                       | Inr (st, failed) \<Rightarrow>
                           if ar_state failed = R_manual_review then Inr (Turn_over st 1 1) else Inr (Turn_over st 0 0))
                  | None \<Rightarrow>
                      (case answer_result answer (xp_payload_id reservation) of
                         None \<Rightarrow> Inr (Turn_over st 0 0)
                       | Some r \<Rightarrow>
                           (case record_automation_extraction env (ti_event2 t) (ti_now t) run_id
                               (ar_state_version reserved) r st of
                              Inl KeyError \<Rightarrow> Inr (Turn_over st 0 0)
                            | Inl e \<Rightarrow> Inl e
                            | Inr (st, current) \<Rightarrow>
                                if ar_state current = R_extracting then Inr (Turn_again st current)
                                else Inr (Turn_over st 1
                                  (if ar_state current \<in> {R_ambiguous, R_manual_review, R_source_unavailable}
                                   then 1 else 0)))))))"

text \<open>\<open>fuel\<close> bounds the turns; \<open>None\<close> is a loop that has not ended yet.\<close>

fun extraction_loop ::
  "nat \<Rightarrow> pyenv \<Rightarrow> extraction_request \<Rightarrow> (nat \<Rightarrow> turn_ids) \<Rightarrow> (nat \<Rightarrow> model_answer) \<Rightarrow> nat \<Rightarrow> automation_run
     \<Rightarrow> calendar_store \<Rightarrow> (err + calendar_store \<times> nat \<times> nat) option" where
  "extraction_loop 0 env x ids answers n current st =
     (if ar_state current \<in> {R_detected, R_extracting} then None else Some (Inr (st, 0, 0)))"
| "extraction_loop (Suc fuel) env x ids answers n current st =
     (if ar_state current \<notin> {R_detected, R_extracting} then Some (Inr (st, 0, 0))
      else (case extraction_turn env x (ids n) (answers n) current st of
          Inl e \<Rightarrow> Some (Inl e)
        | Inr (Turn_over st p r) \<Rightarrow> Some (Inr (st, p, r))
        | Inr (Turn_again st current) \<Rightarrow> extraction_loop fuel env x ids answers (Suc n) current st))"

section \<open>Calendar writes\<close>

datatype create_answer = Created pystr | Create_unauthorized | Create_rejected | Create_error | Create_invalid

datatype find_answer = Found pystr | Not_found | Find_unauthorized | Find_error

text \<open>
  What one pass sees of the outside: whether a run's write authorization can be loaded, and what
  Graph answers. \<open>ev\<close> gives the ids of the events: the first and the second of a run's turn.
\<close>

record graph =
  gr_access :: "automation_run \<Rightarrow> bool"
  gr_create :: "pystr \<Rightarrow> create_answer"
  gr_find :: "pystr \<Rightarrow> find_answer"
  gr_ev :: "pystr \<Rightarrow> pystr \<times> pystr"
  gr_now :: instant

fun created_outcome :: "create_answer \<Rightarrow> run_state \<times> pystr option \<times> pystr option" where
  "created_outcome (Created g) = (R_completed, None, Some g)"
| "created_outcome Create_unauthorized = (R_failed, Some (lit ''write_authorization_rejected''), None)"
| "created_outcome Create_rejected = (R_failed, Some (lit ''write_rejected''), None)"
| "created_outcome Create_error = (R_unresolved, Some (lit ''write_outcome_unknown''), None)"
| "created_outcome Create_invalid = (R_failed, Some (lit ''write_payload_invalid''), None)"

fun found_outcome :: "find_answer \<Rightarrow> run_state \<times> pystr option \<times> pystr option" where
  "found_outcome (Found g) = (R_completed, None, Some g)"
| "found_outcome Not_found = (R_unresolved, Some (lit ''event_not_found''), None)"
| "found_outcome Find_unauthorized = (R_unresolved, Some (lit ''reconciliation_authorization_rejected''), None)"
| "found_outcome Find_error = (R_unresolved, Some (lit ''reconciliation_unavailable''), None)"

fun is_runtime_error :: "err \<Rightarrow> bool" where
  "is_runtime_error (RuntimeError _) = True"
| "is_runtime_error AutomationCalendarWriteStateChanged = True"
| "is_runtime_error _ = False"

text \<open>
  One item of a pass: the new store, the calls \<open>create_calendar_event\<close> it made (run and transaction)
  and the raised exception if there is one. Store operations commit one by one, so the store of the
  last one that succeeded is kept when a later one raises.
\<close>

type_synonym pass_step = "calendar_store \<times> (pystr \<times> pystr) list \<times> err option"

definition finish_write ::
  "graph \<Rightarrow> pystr \<Rightarrow> int \<Rightarrow> run_state \<times> pystr option \<times> pystr option \<Rightarrow> (pystr \<times> pystr) list \<Rightarrow> calendar_store \<Rightarrow> pass_step" where
  "finish_write g run_id version out calls st =
     (case out of (next, failure, event) \<Rightarrow>
        case transition_automation_calendar_write (snd (gr_ev g run_id)) (gr_now g) run_id version next failure event st of
          Inl e \<Rightarrow> (st, calls, Some e)
        | Inr (st', _) \<Rightarrow> (st', calls, None))"

definition interrupted_write :: "graph \<Rightarrow> automation_run \<Rightarrow> calendar_store \<Rightarrow> pass_step" where
  "interrupted_write g current st =
     (case transition_automation_calendar_write (fst (gr_ev g (ar_run_id current))) (gr_now g) (ar_run_id current)
         (ar_state_version current) R_unresolved
         (Some (if ar_state current = R_writing then lit ''write_outcome_unknown'' else lit ''reconciliation_interrupted''))
         None st of
        Inl e \<Rightarrow> if is_runtime_error e then (st, [], None) else (st, [], Some e)
      | Inr (st', _) \<Rightarrow> (st', [], None))"

definition submit_write :: "pyenv \<Rightarrow> graph \<Rightarrow> calendar_write_work \<Rightarrow> automation_run \<Rightarrow> calendar_store \<Rightarrow> pass_step" where
  "submit_write env g work current st =
     (let run_id = ar_run_id current; tx = cw_transaction_id (ww_write work) in
      case begin_automation_calendar_write env (fst (gr_ev g run_id)) (gr_now g) run_id (ar_state_version current) st of
        Inl AutomationCalendarWriteStateChanged \<Rightarrow> (st, [], None)
      | Inl e \<Rightarrow> (st, [], Some e)
      | Inr (st, Cancelled _ _) \<Rightarrow> (st, [], None)
      | Inr (st, Run writing) \<Rightarrow>
          (case ww_proposal work of
             None \<Rightarrow> finish_write g run_id (ar_state_version writing)
               (R_unresolved, Some (lit ''write_payload_unavailable''), None) [] st
           | Some proposal \<Rightarrow> finish_write g run_id (ar_state_version writing) (created_outcome (gr_create g tx))
               [(run_id, tx)] st))"

definition reconcile_write :: "graph \<Rightarrow> calendar_write_work \<Rightarrow> automation_run \<Rightarrow> calendar_store \<Rightarrow> pass_step" where
  "reconcile_write g work current st =
     (let run_id = ar_run_id current in
      case transition_automation_calendar_write (fst (gr_ev g run_id)) (gr_now g) run_id (ar_state_version current)
          R_reconciling None None st of
        Inl e \<Rightarrow> if is_runtime_error e then (st, [], None) else (st, [], Some e)
      | Inr (st, reconciling) \<Rightarrow>
          finish_write g run_id (ar_state_version reconciling)
            (found_outcome (gr_find g (cw_transaction_id (ww_write work)))) [] st)"

definition process_write_item :: "pyenv \<Rightarrow> graph \<Rightarrow> calendar_write_work \<Rightarrow> calendar_store \<Rightarrow> pass_step" where
  "process_write_item env g work st =
     (case find_run st (ar_run_id (ww_run work)) of
        None \<Rightarrow> (st, [], None)
      | Some current \<Rightarrow>
          if ar_state_version current \<noteq> ar_state_version (ww_run work) then (st, [], None)
          else if ar_state current \<in> {R_writing, R_reconciling} then interrupted_write g current st
          else if \<not> gr_access g current then (st, [], None)
          else if ar_state current = R_write_authorized then submit_write env g work current st
          else if ar_state current \<noteq> R_unresolved then (st, [], None)
          else reconcile_write g work current st)"

fun process_write_items :: "pyenv \<Rightarrow> graph \<Rightarrow> calendar_write_work list \<Rightarrow> calendar_store \<Rightarrow> pass_step" where
  "process_write_items env g [] st = (st, [], None)"
| "process_write_items env g (w # ws) st =
     (case process_write_item env g w st of
        (st', calls, Some e) \<Rightarrow> (st', calls, Some e)
      | (st', calls, None) \<Rightarrow>
          (case process_write_items env g ws st' of (st'', calls', e) \<Rightarrow> (st'', calls @ calls', e)))"

definition process_scheduling_writes :: "pyenv \<Rightarrow> graph \<Rightarrow> pystr option \<Rightarrow> nat \<Rightarrow> calendar_store \<Rightarrow> pass_step" where
  "process_scheduling_writes env g run_id limit st =
     (case pending_automation_calendar_writes limit run_id (gr_now g) st of
        Inl e \<Rightarrow> (st, [], Some e)
      | Inr items \<Rightarrow> process_write_items env g items st)"

end
