(* ===== verification/Calendar_Ledger.thy ===== *)
theory Calendar_Ledger
  imports Calendar_Service Interfaces
begin

text \<open>
  The consistency of the scheduling tables. \<open>commits\<close> is what one transition of a run does to the
  store: the run moves along \<open>lifecycle_edge\<close>, its version goes up by one, one event is appended
  and the write of the run follows its state. Every operation either commits once for its run or
  leaves runs, events and writes as they are (\<open>quiet\<close>), so the invariant \<open>ledger_ok\<close> is proved
  for \<open>commits\<close>, \<open>quiet\<close>, admission and purge only.
\<close>

section \<open>The life of a run\<close>

fun lifecycle_edge :: "run_state \<Rightarrow> run_state \<Rightarrow> bool" where
  "lifecycle_edge R_detected s = (s \<in> {R_extracting, R_manual_review, R_source_unavailable})"
| "lifecycle_edge R_extracting s =
     (s \<in> {R_extracting, R_proposing, R_ambiguous, R_manual_review, R_source_unavailable})"
| "lifecycle_edge R_proposing s = (s \<in> {R_awaiting_confirmation, R_manual_review, R_source_unavailable})"
| "lifecycle_edge R_awaiting_confirmation s =
     (s \<in> {R_declined, R_proposing, R_write_authorized, R_source_unavailable})"
| "lifecycle_edge R_write_authorized s = (s \<in> {R_writing, R_source_unavailable})"
| "lifecycle_edge R_writing s = (s \<in> {R_completed, R_failed, R_unresolved})"
| "lifecycle_edge R_unresolved s = (s = R_reconciling)"
| "lifecycle_edge R_reconciling s = (s \<in> {R_completed, R_unresolved})"
| "lifecycle_edge R_manual_review s = (s = R_source_unavailable)"
| "lifecycle_edge R_ambiguous s = (s = R_source_unavailable)"
| "lifecycle_edge R_source_unavailable s = (s = R_extracting)"
| "lifecycle_edge R_declined s = False"
| "lifecycle_edge R_completed s = False"
| "lifecycle_edge R_failed s = False"

definition handed_off :: "run_state \<Rightarrow> bool" where
  "handed_off s \<longleftrightarrow> s \<in> {R_writing, R_unresolved, R_reconciling, R_completed, R_failed}"

definition write_state :: "run_state \<Rightarrow> bool" where
  "write_state s \<longleftrightarrow> s = R_write_authorized \<or> handed_off s"

lemma handed_off_edge: "lifecycle_edge s s' \<Longrightarrow> handed_off s \<Longrightarrow> handed_off s'"
  by (cases s) (auto simp: handed_off_def)

lemma status_of_state_cancelled: "status_of_state s = W_cancelled \<longleftrightarrow> \<not> write_state s"
  by (cases s) (auto simp: write_state_def handed_off_def)

text \<open>The event log of one run, read as a machine: \<open>None\<close> is a log that no run can have written.\<close>

fun replay_event :: "(run_state \<times> int) option option \<Rightarrow> automation_event \<Rightarrow> (run_state \<times> int) option option" where
  "replay_event None e = None"
| "replay_event (Some None) e =
     (if ae_previous_state e = None \<and> ae_next_state e = R_detected \<and> ae_state_version e = 1
      then Some (Some (R_detected, 1)) else None)"
| "replay_event (Some (Some (s, v))) e =
     (if ae_previous_state e = Some s \<and> lifecycle_edge s (ae_next_state e) \<and> ae_state_version e = v + 1
      then Some (Some (ae_next_state e, v + 1)) else None)"

definition replay :: "automation_event list \<Rightarrow> (run_state \<times> int) option option" where
  "replay es = foldl replay_event (Some None) es"

lemma replay_Nil [simp]: "replay [] = Some None"
  by (simp add: replay_def)

lemma replay_snoc [simp]: "replay (es @ [e]) = replay_event (replay es) e"
  by (simp add: replay_def)

section \<open>The invariant\<close>

definition run_proposals :: "calendar_store \<Rightarrow> pystr \<Rightarrow> automation_proposal_payload list" where
  "run_proposals st run_id = filter (\<lambda>p. pp_run_id p = run_id) (cs_proposals st)"

text \<open>An event by which the owner confirmed the write \<open>w\<close>.\<close>

definition confirms :: "automation_calendar_write \<Rightarrow> automation_event \<Rightarrow> bool" where
  "confirms w e \<longleftrightarrow> ae_run_id e = cw_run_id w \<and> ae_decision e = Some Confirmed
     \<and> ae_previous_state e = Some R_awaiting_confirmation \<and> ae_next_state e = R_write_authorized
     \<and> ae_transaction_id e = Some (cw_transaction_id w) \<and> ae_payload_sha256 e = Some (cw_proposal_sha256 w)"

definition generation_event :: "automation_event \<Rightarrow> bool" where
  "generation_event e \<longleftrightarrow> ae_previous_state e = Some R_proposing
     \<and> ae_next_state e \<in> {R_awaiting_confirmation, R_manual_review}"

definition generation :: "automation_event list \<Rightarrow> int" where
  "generation es = int (length (filter generation_event es))"

definition write_ok :: "automation_run \<Rightarrow> automation_event list \<Rightarrow> automation_calendar_write option \<Rightarrow> bool" where
  "write_ok r es wo =
     (case wo of
        None \<Rightarrow> \<not> write_state (ar_state r)
      | Some w \<Rightarrow> cw_status w = status_of_state (ar_state r) \<and> list_ex (confirms w) es
          \<and> cw_proposal_version w \<le> generation es)"

definition run_ok ::
  "automation_run option \<Rightarrow> automation_event list \<Rightarrow> automation_calendar_write option
     \<Rightarrow> automation_proposal_payload list \<Rightarrow> bool" where
  "run_ok ro es wo ps =
     (case ro of
        None \<Rightarrow> es = [] \<and> wo = None \<and> ps = []
      | Some r \<Rightarrow> replay es = Some (Some (ar_state r, ar_state_version r)) \<and> write_ok r es wo
          \<and> list_all (\<lambda>p. pp_proposal_version p \<le> generation es) ps)"

definition extractions_ok :: "calendar_store \<Rightarrow> bool" where
  "extractions_ok st \<longleftrightarrow> distinct (map xp_payload_id (cs_extractions st))
     \<and> distinct (map (\<lambda>p. (xp_run_id p, xp_attempt_no p)) (cs_extractions st))
     \<and> list_all automation_extraction_check (cs_extractions st)"

definition keys_ok :: "calendar_store \<Rightarrow> bool" where
  "keys_ok st \<longleftrightarrow> distinct (map ar_run_id (cs_runs st)) \<and> distinct (map cw_run_id (cs_writes st))
     \<and> distinct (map cw_transaction_id (cs_writes st))
     \<and> list_all automation_run_check (cs_runs st) \<and> list_all automation_write_check (cs_writes st)
     \<and> list_all automation_event_check (cs_events st)"

definition ledger_ok :: "calendar_store \<Rightarrow> bool" where
  "ledger_ok st \<longleftrightarrow> keys_ok st \<and> extractions_ok st
     \<and> (\<forall>i. run_ok (find_run st i) (run_events st i) (find_write st i) (run_proposals st i))"

definition empty_store :: "sources \<Rightarrow> calendar_store" where
  "empty_store so = \<lparr>cs_runs = [], cs_events = [], cs_extractions = [], cs_proposals = [], cs_writes = [],
     cs_identities = [], cs_sources = so\<rparr>"

lemma ledger_ok_empty: "ledger_ok (empty_store so)"
  by (simp add: ledger_ok_def keys_ok_def extractions_ok_def run_ok_def empty_store_def find_run_def run_events_def
      find_write_def run_proposals_def)

lemma ledger_okD:
  assumes "ledger_ok st"
  shows "distinct (map ar_run_id (cs_runs st))" "distinct (map cw_run_id (cs_writes st))"
    "distinct (map cw_transaction_id (cs_writes st))" "extractions_ok st"
    "run_ok (find_run st i) (run_events st i) (find_write st i) (run_proposals st i)"
  using assms by (auto simp: ledger_ok_def keys_ok_def)

section \<open>What one transition does\<close>

definition moves :: "calendar_store \<Rightarrow> calendar_store \<Rightarrow> automation_run \<Rightarrow> automation_run \<Rightarrow> automation_event \<Rightarrow> bool" where
  "moves st st' row row' e \<longleftrightarrow>
     find_run st (ar_run_id row) = Some row \<and> ar_run_id row' = ar_run_id row
     \<and> automation_run_check row'
     \<and> cs_runs st' = update_where (\<lambda>r. ar_run_id r = ar_run_id row) (\<lambda>_. row') (cs_runs st)
     \<and> cs_events st' = cs_events st @ [e] \<and> automation_event_check e \<and> ae_run_id e = ar_run_id row
     \<and> ae_previous_state e = Some (ar_state row) \<and> ae_next_state e = ar_state row'
     \<and> ae_state_version e = ar_state_version row + 1 \<and> ar_state_version row' = ar_state_version row + 1
     \<and> lifecycle_edge (ar_state row) (ar_state row')"

datatype write_effect = Keeps | Follows automation_calendar_write automation_calendar_write | Authorizes automation_calendar_write

definition same_grant :: "automation_calendar_write \<Rightarrow> automation_calendar_write \<Rightarrow> bool" where
  "same_grant w w' \<longleftrightarrow> cw_run_id w' = cw_run_id w \<and> cw_transaction_id w' = cw_transaction_id w
     \<and> cw_proposal_sha256 w' = cw_proposal_sha256 w \<and> cw_proposal_version w' = cw_proposal_version w"

fun writes_after :: "write_effect \<Rightarrow> calendar_store \<Rightarrow> calendar_store \<Rightarrow> automation_run \<Rightarrow> automation_run \<Rightarrow> automation_event \<Rightarrow> bool" where
  "writes_after Keeps st st' row row' e =
     (cs_writes st' = cs_writes st \<and> \<not> write_state (ar_state row) \<and> \<not> write_state (ar_state row'))"
| "writes_after (Follows w w') st st' row row' e =
     (find_write st (ar_run_id row) = Some w \<and> same_grant w w' \<and> automation_write_check w'
      \<and> cw_status w' = status_of_state (ar_state row')
      \<and> cs_writes st' = update_where (\<lambda>x. cw_run_id x = ar_run_id row) (\<lambda>_. w') (cs_writes st))"
| "writes_after (Authorizes w) st st' row row' e =
     (cw_run_id w = ar_run_id row \<and> cw_status w = W_authorized \<and> automation_write_check w
      \<and> ar_state row' = R_write_authorized \<and> confirms w e
      \<and> cw_transaction_id w \<notin> cw_transaction_id ` set (delete_where (\<lambda>x. cw_run_id x = ar_run_id row) (cs_writes st))
      \<and> exists_where (\<lambda>p. pp_run_id p = ar_run_id row \<and> pp_proposal_version p = cw_proposal_version w) (cs_proposals st)
      \<and> cs_writes st' = delete_where (\<lambda>x. cw_run_id x = ar_run_id row) (cs_writes st) @ [w])"

definition proposals_after :: "calendar_store \<Rightarrow> calendar_store \<Rightarrow> pystr \<Rightarrow> automation_event \<Rightarrow> bool" where
  "proposals_after st st' run_id e \<longleftrightarrow>
     cs_proposals st' = cs_proposals st
     \<or> cs_proposals st' = delete_where (\<lambda>p. pp_run_id p = run_id) (cs_proposals st)
     \<or> (\<exists>p. pp_run_id p = run_id \<and> pp_proposal_version p = next_proposal_version st run_id \<and> generation_event e
          \<and> cs_proposals st' = cs_proposals st @ [p])"

definition commits :: "calendar_store \<Rightarrow> calendar_store \<Rightarrow> automation_run \<Rightarrow> automation_run \<Rightarrow> automation_event \<Rightarrow> bool" where
  "commits st st' row row' e \<longleftrightarrow> moves st st' row row' e \<and> (\<exists>eff. writes_after eff st st' row row' e)
     \<and> proposals_after st st' (ar_run_id row) e \<and> (extractions_ok st \<longrightarrow> extractions_ok st')"

definition quiet :: "calendar_store \<Rightarrow> calendar_store \<Rightarrow> bool" where
  "quiet st st' \<longleftrightarrow> cs_runs st' = cs_runs st \<and> cs_events st' = cs_events st \<and> cs_writes st' = cs_writes st
     \<and> (extractions_ok st \<longrightarrow> extractions_ok st')
     \<and> (cs_proposals st' = cs_proposals st
        \<or> (\<exists>i. cs_proposals st' = delete_where (\<lambda>p. pp_run_id p = i) (cs_proposals st)))"

lemma quiet_refl [simp]: "quiet st st"
  by (simp add: quiet_def)

lemma find_run_id: "find_run st i = Some r \<Longrightarrow> ar_run_id r = i \<and> r \<in> set (cs_runs st)"
  by (auto simp: find_run_def dest: find_key_Some)

lemma find_write_id: "find_write st i = Some w \<Longrightarrow> cw_run_id w = i \<and> w \<in> set (cs_writes st)"
  by (auto simp: find_write_def dest: find_key_Some)

lemma moves_find_run:
  assumes "moves st st' row row' e"
  shows "find_run st' i = (if i = ar_run_id row then Some row' else find_run st i)"
proof -
  have "find_run st' i = map_option (\<lambda>r. if ar_run_id r = ar_run_id row then row' else r) (find_run st i)"
    using assms unfolding moves_def find_run_def by (simp add: find_key_update)
  then show ?thesis
    using assms by (cases "find_run st i") (auto simp: moves_def dest: find_run_id)
qed

lemma moves_run_events:
  "moves st st' row row' e \<Longrightarrow> run_events st' i = run_events st i @ (if i = ar_run_id row then [e] else [])"
  by (simp add: moves_def run_events_def)

lemma follows_find_write:
  assumes "writes_after (Follows w w') st st' row row' e"
  shows "find_write st' i = (if i = ar_run_id row then Some w' else find_write st i)"
proof -
  have "cw_run_id w' = ar_run_id row" using assms by (auto simp: same_grant_def dest: find_write_id)
  then have "find_write st' i = map_option (\<lambda>x. if cw_run_id x = ar_run_id row then w' else x) (find_write st i)"
    using assms unfolding find_write_def by (simp add: find_key_update)
  then show ?thesis
    using assms by (cases "find_write st i") (auto dest: find_write_id)
qed

lemma authorizes_find_write:
  assumes "writes_after (Authorizes w) st st' row row' e"
  shows "find_write st' i = (if i = ar_run_id row then Some w else find_write st i)"
proof -
  have "cw_run_id w \<notin> cw_run_id ` set (delete_where (\<lambda>x. cw_run_id x = ar_run_id row) (cs_writes st))"
    using assms by (auto simp: set_delete_where)
  then show ?thesis
    using assms unfolding find_write_def by (simp add: find_key_insert find_key_delete)
qed

lemma find_write_cong: "cs_writes st' = cs_writes st \<Longrightarrow> find_write st' = find_write st"
  by (simp add: find_write_def fun_eq_iff)

lemma commits_find_write_other:
  assumes "writes_after eff st st' row row' e" and "i \<noteq> ar_run_id row"
  shows "find_write st' i = find_write st i"
  using assms by (cases eff) (auto simp: follows_find_write authorizes_find_write dest: find_write_cong)

lemma generation_snoc: "generation (es @ [e]) = generation es + (if generation_event e then 1 else 0)"
  by (simp add: generation_def)

lemma generation_mono: "v \<le> generation es \<Longrightarrow> v \<le> generation (es @ [e])"
  by (simp add: generation_snoc)

lemma generation_run_events: "calendar_proposal_generation st i None = generation (run_events st i)"
  by (auto simp: calendar_proposal_generation_def generation_def count_where_def run_events_def generation_event_def
      intro!: arg_cong [of _ _ length] filter_cong)

lemma foldl_max_le:
  assumes "list_all (\<lambda>x. f x \<le> (n :: int)) xs" and "a \<le> n"
  shows "foldl max a (map f xs) \<le> n"
  using assms by (induction xs arbitrary: a) auto

lemma prior_proposal_version_le:
  assumes "ledger_ok st" and "find_run st i = Some r"
  shows "prior_proposal_version st i \<le> generation (run_events st i)"
proof -
  have ok: "run_ok (Some r) (run_events st i) (find_write st i) (run_proposals st i)"
    using ledger_okD(5) [OF assms(1), of i] assms(2) by simp
  have "foldl max 0 (map pp_proposal_version (run_proposals st i)) \<le> generation (run_events st i)"
    using ok by (intro foldl_max_le) (auto simp: run_ok_def generation_def)
  moreover have "(case find_write st i of None \<Rightarrow> 0 | Some w \<Rightarrow> cw_proposal_version w) \<le> generation (run_events st i)"
    using ok by (auto simp: run_ok_def write_ok_def generation_def split: option.splits)
  ultimately show ?thesis
    by (simp add: prior_proposal_version_def run_proposals_def)
qed

lemma next_proposal_version_eq:
  "ledger_ok st \<Longrightarrow> find_run st i = Some r \<Longrightarrow> next_proposal_version st i = generation (run_events st i) + 1"
  using prior_proposal_version_le by (fastforce simp: next_proposal_version_def generation_run_events)

lemma same_grant_confirms: "same_grant w w' \<Longrightarrow> confirms w' = confirms w"
  by (auto simp: same_grant_def confirms_def fun_eq_iff)

lemma write_ok_after:
  assumes ok: "run_ok (Some row) es (find_write st (ar_run_id row)) ps" and ps: "ps = run_proposals st (ar_run_id row)"
    and mv: "moves st st' row row' e" and wa: "writes_after eff st st' row row' e"
  shows "write_ok row' (es @ [e]) (find_write st' (ar_run_id row))"
proof (cases eff)
  case Keeps
  then have "find_write st' (ar_run_id row) = find_write st (ar_run_id row)" "status_of_state (ar_state row) = W_cancelled"
    "status_of_state (ar_state row') = W_cancelled" "\<not> write_state (ar_state row')"
    using wa by (auto simp: status_of_state_cancelled dest: find_write_cong)
  then show ?thesis
    using ok by (auto simp: run_ok_def write_ok_def generation_snoc split: option.splits)
next
  case (Follows w w')
  then have "find_write st (ar_run_id row) = Some w" "same_grant w w'" "cw_status w' = status_of_state (ar_state row')"
    "find_write st' (ar_run_id row) = Some w'"
    using wa follows_find_write [of w w'] by auto
  then show ?thesis
    using ok by (auto simp: run_ok_def write_ok_def same_grant_confirms generation_snoc)
      (auto simp: same_grant_def)
next
  case (Authorizes w)
  then have w: "find_write st' (ar_run_id row) = Some w" and c: "cw_status w = W_authorized" "ar_state row' = R_write_authorized"
    "confirms w e"
    and p: "exists_where (\<lambda>p. pp_run_id p = ar_run_id row \<and> pp_proposal_version p = cw_proposal_version w) (cs_proposals st)"
    using wa authorizes_find_write [of w] by auto
  from p ok have "cw_proposal_version w \<le> generation es"
    by (auto simp: exists_where_iff run_ok_def ps run_proposals_def list_all_iff)
  with w c show ?thesis
    by (simp add: write_ok_def generation_snoc)
qed

lemma run_proposals_after:
  assumes "proposals_after st st' run_id e"
  shows "run_proposals st' i = run_proposals st i \<or> run_proposals st' i = []
     \<or> i = run_id \<and> (\<exists>p. pp_proposal_version p = next_proposal_version st run_id \<and> generation_event e
          \<and> run_proposals st' i = run_proposals st i @ [p])"
  using assms unfolding proposals_after_def run_proposals_def delete_where_def
  by (elim disjE exE conjE) (auto simp: filter_empty_conv intro: filter_cong)

lemma run_proposals_other:
  assumes "proposals_after st st' run_id e" and "i \<noteq> run_id"
  shows "run_proposals st' i = run_proposals st i"
  using assms unfolding proposals_after_def run_proposals_def delete_where_def
  by (elim disjE exE conjE) (auto intro: filter_cong)


lemma update_where_keys:
  "(\<And>r. P r \<Longrightarrow> k (f r) = k r) \<Longrightarrow> distinct (map k rows) \<Longrightarrow> distinct (map k (update_where P f rows))"
  by (simp add: map_update_where)

lemma distinct_snoc_key:
  "distinct (map k rows) \<Longrightarrow> k row \<notin> k ` set rows \<Longrightarrow> distinct (map k (rows @ [row]))"
  by simp

lemma commits_keys_ok:
  assumes ok: "keys_ok st" and mv: "moves st st' row row' e" and wa: "writes_after eff st st' row row' e"
  shows "keys_ok st'"
proof -
  have runs: "distinct (map ar_run_id (cs_runs st'))" "list_all automation_run_check (cs_runs st')"
    "list_all automation_event_check (cs_events st')"
    using ok mv by (auto simp: keys_ok_def moves_def set_update_where list_all_iff intro: update_where_keys)
  have "distinct (map cw_run_id (cs_writes st')) \<and> distinct (map cw_transaction_id (cs_writes st'))
     \<and> list_all automation_write_check (cs_writes st')"
  proof (cases eff)
    case (Follows w w')
    have key: "cw_run_id w' = cw_run_id w" "cw_transaction_id w' = cw_transaction_id w"
      and w: "w \<in> set (cs_writes st)" "cw_run_id w = ar_run_id row"
      using wa Follows by (auto simp: same_grant_def dest: find_write_id)
    have tx: "cw_transaction_id w' = cw_transaction_id x" if "x \<in> set (cs_writes st)" "cw_run_id x = ar_run_id row" for x
      using that key w ok distinct_key_eq [of cw_run_id "cs_writes st" x w] by (auto simp: keys_ok_def)
    have "map cw_transaction_id (cs_writes st') = map cw_transaction_id (cs_writes st)"
      using wa Follows tx by (auto simp: update_where_def)
    moreover have "map cw_run_id (cs_writes st') = map cw_run_id (cs_writes st)"
      using wa Follows key w by (auto simp: update_where_def)
    ultimately show ?thesis
      using ok wa Follows by (auto simp: keys_ok_def set_update_where list_all_iff)
  next
    case (Authorizes w)
    then show ?thesis
      using ok wa by (auto simp: keys_ok_def distinct_delete_where set_delete_where list_all_iff)
  qed (use ok wa in \<open>auto simp: keys_ok_def\<close>)
  with runs show ?thesis by (simp add: keys_ok_def)
qed

theorem commits_ledger_ok:
  assumes ok: "ledger_ok st" and c: "commits st st' row row' e"
  shows "ledger_ok st'"
proof -
  obtain eff where mv: "moves st st' row row' e" and wa: "writes_after eff st st' row row' e"
    and pa: "proposals_after st st' (ar_run_id row) e" and xo: "extractions_ok st'"
    using c ledger_okD(4) [OF ok] by (auto simp: commits_def)
  have "run_ok (find_run st' i) (run_events st' i) (find_write st' i) (run_proposals st' i)" for i
  proof (cases "i = ar_run_id row")
    case False
    then show ?thesis
      using ledger_okD(5) [OF ok, of i] mv wa pa
      by (simp add: moves_find_run moves_run_events commits_find_write_other run_proposals_other)
  next
    case True
    have row: "find_run st (ar_run_id row) = Some row" using mv by (simp add: moves_def)
    have old: "run_ok (Some row) (run_events st i) (find_write st i) (run_proposals st i)"
      using ledger_okD(5) [OF ok, of i] row True by simp
    have "list_all (\<lambda>p. pp_proposal_version p \<le> generation (run_events st i @ [e])) (run_proposals st i)"
      using old by (auto simp: run_ok_def list_all_iff generation_mono)
    then have "list_all (\<lambda>p. pp_proposal_version p \<le> generation (run_events st i @ [e])) (run_proposals st' i)"
      using run_proposals_after [OF pa, of i] next_proposal_version_eq [OF ok row] True
      by (auto simp: generation_snoc)
    moreover have "write_ok row' (run_events st i @ [e]) (find_write st' i)"
      using write_ok_after [OF _ _ mv wa] old True by simp
    moreover have "replay (run_events st i @ [e]) = Some (Some (ar_state row', ar_state_version row'))"
      using old mv by (simp add: run_ok_def moves_def)
    ultimately show ?thesis
      using mv True by (simp add: moves_find_run moves_run_events run_ok_def)
  qed
  then show ?thesis
    using commits_keys_ok [OF _ mv wa] ok xo by (simp add: ledger_ok_def)
qed

lemma quiet_ledger_ok:
  assumes ok: "ledger_ok st" and q: "quiet st st'"
  shows "ledger_ok st'"
proof -
  have eq: "find_run st' = find_run st" "run_events st' = run_events st" "find_write st' = find_write st"
    using q by (simp_all add: quiet_def find_run_def run_events_def find_write_def fun_eq_iff)
  have "run_ok (find_run st' i) (run_events st' i) (find_write st' i) (run_proposals st' i)" for i
  proof -
    have "set (run_proposals st' i) \<subseteq> set (run_proposals st i)"
      using q by (auto simp: quiet_def run_proposals_def delete_where_def)
    then show ?thesis
      using ledger_okD(5) [OF ok, of i] unfolding eq run_ok_def list_all_iff
      by (cases "find_run st i") (auto dest!: subsetD)
  qed
  then show ?thesis
    using ok q by (auto simp: ledger_ok_def keys_ok_def quiet_def)
qed

section \<open>The statements of a transition\<close>

lemma keyed_update:
  assumes "distinct (map k rows)" and "row \<in> set rows" and "k row = i" and "\<And>r. P r \<Longrightarrow> k r = i"
    and "count_where P rows = 1"
  shows "P row \<and> update_where P f rows = update_where (\<lambda>r. k r = i) (\<lambda>_. f row) rows"
proof -
  have only: "r = row" if "r \<in> set rows" "k r = i" for r
    using distinct_key_eq [OF assms(1) that(1) assms(2)] that assms(3) by simp
  obtain r where "r \<in> set rows" "P r"
    using count_where_key_1_iff [OF assms(1,4)] assms(5) by blast
  with only assms(4) have "P row" by metis
  moreover have "(if P r then f r else r) = (if k r = i then f row else r)" if "r \<in> set rows" for r
    using only [OF that] assms(3,4) \<open>P row\<close> by auto
  ultimately show ?thesis by (simp add: update_where_def)
qed

lemma update_run_row:
  assumes "update_run msg P f st = Inr st'" and "distinct (map ar_run_id (cs_runs st))"
    and "find_run st i = Some row" and "\<And>r. P r \<Longrightarrow> ar_run_id r = i"
  shows "st' = st\<lparr>cs_runs := update_where (\<lambda>r. ar_run_id r = i) (\<lambda>_. f row) (cs_runs st)\<rparr>
     \<and> P row \<and> automation_run_check (f row)"
proof -
  have row: "row \<in> set (cs_runs st)" "ar_run_id row = i" using find_run_id [OF assms(3)] by auto
  have "count_where P (cs_runs st) = 1" using assms(1) by (auto simp: update_run_Inr)
  from keyed_update [where k = ar_run_id and f = f, OF assms(2) row(1,2) assms(4) this] assms(1) row
  show ?thesis by (auto simp: update_run_Inr)
qed

lemma update_write_row:
  assumes "update_write msg P f st = Inr st'" and "distinct (map cw_run_id (cs_writes st))"
    and "find_write st i = Some w" and "\<And>r. P r \<Longrightarrow> cw_run_id r = i"
  shows "st' = st\<lparr>cs_writes := update_where (\<lambda>r. cw_run_id r = i) (\<lambda>_. f w) (cs_writes st)\<rparr>
     \<and> P w \<and> automation_write_check (f w)"
proof -
  have row: "w \<in> set (cs_writes st)" "cw_run_id w = i" using find_write_id [OF assms(3)] by auto
  have "count_where P (cs_writes st) = 1" using assms(1) by (auto simp: update_write_Inr)
  from keyed_update [where k = cw_run_id and f = f, OF assms(2) row(1,2) assms(4) this] assms(1) row
  show ?thesis by (auto simp: update_write_Inr)
qed

text \<open>\<open>UPDATE automation_runs\<close> followed by the event, after whatever the operation did to the other tables.\<close>

lemma transition_moves:
  assumes run: "find_run st i = Some cur" and ok: "distinct (map ar_run_id (cs_runs st))"
    and same: "cs_runs st1 = cs_runs st" "cs_events st1 = cs_events st"
    and u: "update_run msg P f st1 = Inr st2" and P: "\<And>r. P r \<Longrightarrow> ar_run_id r = i"
    and a: "append_automation_event eid row (Some s) next v failure note now st2 = Inr st3"
    and row: "ar_run_id row = i" "s = ar_state cur"
    and f: "ar_run_id (f cur) = ar_run_id cur" "ar_state (f cur) = next" "ar_state_version (f cur) = v"
    and v: "v = ar_state_version cur + 1" and edge: "lifecycle_edge (ar_state cur) next"
  shows "moves st st3 cur (f cur) (event_row eid row (Some s) next v failure note now)
     \<and> cs_writes st3 = cs_writes st1 \<and> cs_proposals st3 = cs_proposals st1 \<and> cs_extractions st3 = cs_extractions st1
     \<and> P cur"
proof -
  have id: "ar_run_id cur = i" using find_run_id [OF run] by simp
  have row1: "find_run st1 i = Some cur" using run same by (simp add: find_run_def)
  have "st2 = st1\<lparr>cs_runs := update_where (\<lambda>r. ar_run_id r = i) (\<lambda>_. f cur) (cs_runs st1)\<rparr>
     \<and> P cur \<and> automation_run_check (f cur)"
    using update_run_row [OF u _ row1 P] ok same by simp
  moreover have "st3 = st2\<lparr>cs_events := cs_events st2 @ [event_row eid row (Some s) next v failure note now]\<rparr>"
    and chk: "automation_event_check (event_row eid row (Some s) next v failure note now)"
    using a by (simp_all add: append_automation_event_Inr)
  ultimately show ?thesis
    using id run same f v edge row chk by (simp add: moves_def) (simp add: event_row_def)
qed

lemma record_transition_moves:
  assumes rt: "record_transition race unreadable P f eid row s next v failure note now st1 = Inr (st', r)"
    and run: "find_run st i = Some row" and ok: "ledger_ok st"
    and same: "cs_runs st1 = cs_runs st" "cs_events st1 = cs_events st"
    and P: "\<And>r. P r \<Longrightarrow> ar_run_id r = i" and s: "s = ar_state row"
    and f: "ar_run_id (f row) = ar_run_id row" "ar_state (f row) = next" "ar_state_version (f row) = v"
    and v: "v = ar_state_version row + 1" and edge: "lifecycle_edge (ar_state row) next"
  shows "moves st st' row (f row) (event_row eid row (Some s) next v failure note now)"
    "cs_writes st' = cs_writes st1" "cs_proposals st' = cs_proposals st1" "cs_extractions st' = cs_extractions st1"
    "r = f row" "P row"
proof -
  obtain st2 where u: "update_run race P f st1 = Inr st2"
    and a: "append_automation_event eid row (Some s) next v failure note now st2 = Inr st'"
    and r: "find_run st' (ar_run_id row) = Some r"
    using rt by (auto simp: record_transition_def andThen_Inr the_row_Inr)
  have "ar_run_id row = i" using find_run_id [OF run] by simp
  note m = transition_moves [OF run ledger_okD(1) [OF ok] same u P a this s f v edge]
  show "moves st st' row (f row) (event_row eid row (Some s) next v failure note now)"
    "cs_writes st' = cs_writes st1" "cs_proposals st' = cs_proposals st1" "cs_extractions st' = cs_extractions st1" "P row"
    using m s by simp_all
  show "r = f row" using moves_find_run [of st st' row "f row"] m r by (metis option.inject)
qed

lemmas op_Inr = andThen_Inr require_Inr the_row_Inr

section \<open>Extraction payloads\<close>

lemma extractions_ok_cong: "cs_extractions st' = cs_extractions st \<Longrightarrow> extractions_ok st \<Longrightarrow> extractions_ok st'"
  by (simp add: extractions_ok_def)

lemma extractions_ok_delete:
  "cs_extractions st' = delete_where P (cs_extractions st) \<Longrightarrow> extractions_ok st \<Longrightarrow> extractions_ok st'"
  by (auto simp: extractions_ok_def distinct_delete_where list_all_iff set_delete_where)

lemma extractions_ok_update:
  assumes "update_extraction msg P f st = Inr st'" and "extractions_ok st"
    and "\<And>p. xp_payload_id (f p) = xp_payload_id p \<and> xp_run_id (f p) = xp_run_id p \<and> xp_attempt_no (f p) = xp_attempt_no p"
  shows "extractions_ok st'"
  using assms
  by (auto simp: extractions_ok_def update_extraction_Inr list_all_iff set_update_where intro!: update_where_keys)

lemma extractions_ok_insert:
  "insert_extraction p st = Inr st' \<Longrightarrow> extractions_ok st \<Longrightarrow> extractions_ok st'"
  by (fastforce simp: insert_extraction_def extractions_ok_def exists_where_iff list_all_iff split: if_splits)

lemma insert_extraction_frame:
  "insert_extraction p st = Inr st' \<Longrightarrow> cs_runs st' = cs_runs st \<and> cs_events st' = cs_events st
     \<and> cs_writes st' = cs_writes st \<and> cs_proposals st' = cs_proposals st"
  by (auto simp: insert_extraction_def split: if_splits)

lemma update_extraction_frame:
  "update_extraction msg P f st = Inr st' \<Longrightarrow> cs_runs st' = cs_runs st \<and> cs_events st' = cs_events st
     \<and> cs_writes st' = cs_writes st \<and> cs_proposals st' = cs_proposals st"
  by (auto simp: update_extraction_Inr)

section \<open>Every operation commits once or is quiet\<close>

lemma commitsI_keeps:
  assumes "moves st st' row row' e" and "cs_writes st' = cs_writes st" and "cs_proposals st' = cs_proposals st"
    and "\<not> write_state (ar_state row)" and "\<not> write_state (ar_state row')"
    and "extractions_ok st \<Longrightarrow> extractions_ok st'"
  shows "commits st st' row row' e"
proof -
  have "writes_after Keeps st st' row row' e" using assms by simp
  then show ?thesis using assms unfolding commits_def proposals_after_def by blast
qed

text \<open>A commit for run \<open>run_id\<close> at version \<open>v\<close>, after which the run is \<open>r\<close>.\<close>

definition commits_at :: "calendar_store \<Rightarrow> calendar_store \<Rightarrow> pystr \<Rightarrow> int \<Rightarrow> run_state \<Rightarrow> automation_run \<Rightarrow> bool" where
  "commits_at st st' run_id v s r \<longleftrightarrow>
     (\<exists>row e. commits st st' row r e \<and> ar_run_id row = run_id \<and> ar_state_version row = v \<and> ar_state row = s)"

lemma record_transition_keeps:
  assumes rt: "record_transition race unreadable P f eid row s next v failure note now st1 = Inr (st', r)"
    and run: "find_run st i = Some row" and ok: "ledger_ok st"
    and same: "cs_runs st1 = cs_runs st" "cs_events st1 = cs_events st" "cs_writes st1 = cs_writes st"
      "cs_proposals st1 = cs_proposals st" "extractions_ok st1"
    and P: "\<And>r. P r \<Longrightarrow> ar_run_id r = i" and s: "s = ar_state row"
    and f: "ar_run_id (f row) = ar_run_id row" "ar_state (f row) = next" "ar_state_version (f row) = v"
    and v: "ar_state_version row = w" "v = w + 1" and edge: "lifecycle_edge (ar_state row) next"
    and quietly: "\<not> write_state (ar_state row)" "\<not> write_state next"
  shows "commits_at st st' i w s r \<and> ar_state r = next"
proof -
  have "v = ar_state_version row + 1" using v by simp
  note m = record_transition_moves [OF rt run ok same(1,2) P s f this edge]
  have "commits st st' row (f row) (event_row eid row (Some s) next v failure note now)"
    using commitsI_keeps [OF m(1)] m(2-4) same(3-5) quietly f(2) extractions_ok_cong [OF m(4)] by simp
  then show ?thesis
    using m(5) f(2) s v(1) find_run_id [OF run] unfolding commits_at_def by blast
qed

lemma record_failure_commits:
  assumes "record_automation_extraction_failure env eid now run_id expected x st = Inr (st', r)" and "ledger_ok st"
  shows "commits_at st st' run_id expected R_extracting r
     \<and> ar_state r = (if xf_retryable x then R_extracting else R_manual_review)"
  using assms unfolding record_automation_extraction_failure_def Let_def op_Inr
  apply (elim exE conjE)
  apply (rule record_transition_keeps, assumption, assumption, assumption)
  apply (auto dest!: update_extraction_frame)[4]
  apply (erule extractions_ok_update, erule ledger_okD, simp)
  apply (auto simp: run_at_def write_state_def handed_off_def)
  done

lemma extraction_outcome_states:
  assumes "opt_all (\<lambda>s. s \<in> {R_proposing, R_manual_review, R_ambiguous}) (xs_accepted_state x)"
  shows "fst (extraction_outcome x attempt) \<in> {R_proposing, R_manual_review, R_ambiguous, R_extracting}"
    "lifecycle_edge R_extracting (fst (extraction_outcome x attempt))"
    "\<not> write_state (fst (extraction_outcome x attempt))"
    "fst (extraction_outcome x attempt) = R_extracting \<Longrightarrow> attempt = 1"
  using assms by (auto simp: extraction_outcome_def write_state_def handed_off_def split: option.splits if_splits)

lemma record_extraction_commits:
  assumes "record_automation_extraction env eid now run_id expected x st = Inr (st', r)" and "ledger_ok st"
  shows "\<exists>s' \<in> {R_proposing, R_manual_review, R_ambiguous, R_extracting}.
     commits_at st st' run_id expected R_extracting r \<and> ar_state r = s'"
  using assms unfolding record_automation_extraction_def op_Inr case_prod_beta
  apply (elim exE conjE)
  apply (rule bexI, rule record_transition_keeps, assumption, assumption, assumption)
  apply (auto dest!: update_extraction_frame)[4]
  apply (erule extractions_ok_update, erule ledger_okD, simp)
  apply (erule extraction_outcome_states(1,3) | 
      simp add: run_at_def extraction_outcome_states(2) write_state_def handed_off_def del: lifecycle_edge.simps; fail)+
  done

lemma to_review_commits:
  assumes "transition_automation_to_review eid now run_id expected next code st = Inr (st', r)" and "ledger_ok st"
  shows "\<exists>s \<in> {R_detected, R_extracting, R_proposing}. commits_at st st' run_id expected s r \<and> ar_state r = next"
  using assms unfolding transition_automation_to_review_def Let_def op_Inr
  apply (elim exE conjE)
  apply (rule_tac x = "ar_state xa" in bexI, rule record_transition_keeps, assumption, assumption, assumption)
  apply (auto)[4]
  apply (auto simp: run_at_def write_state_def handed_off_def dest: ledger_okD intro: extractions_ok_delete)
  done

lemma insert_proposal_Inr:
  "insert_proposal p st = Inr st' \<longleftrightarrow> st' = st\<lparr>cs_proposals := cs_proposals st @ [p]\<rparr> \<and> automation_proposal_check p
     \<and> \<not> exists_where (\<lambda>x. pp_payload_id x = pp_payload_id p
           \<or> pp_run_id x = pp_run_id p \<and> pp_proposal_version x = pp_proposal_version p) (cs_proposals st)"
  by (auto simp: insert_proposal_def)

lemma record_transition_proposal:
  assumes rt: "record_transition race unreadable P f eid row R_proposing next v failure note now st1 = Inr (st', r)"
    and run: "find_run st i = Some row" and ok: "ledger_ok st"
    and ins: "insert_proposal p st = Inr st1" and p: "pp_run_id p = i" "pp_proposal_version p = next_proposal_version st i"
    and P: "\<And>r. P r \<Longrightarrow> ar_run_id r = i" and s: "R_proposing = ar_state row"
    and f: "ar_run_id (f row) = ar_run_id row" "ar_state (f row) = next" "ar_state_version (f row) = v"
    and v: "ar_state_version row = w" "v = w + 1" and n: "next \<in> {R_awaiting_confirmation, R_manual_review}"
  shows "commits_at st st' i w R_proposing r \<and> ar_state r = next"
proof -
  have v': "v = ar_state_version row + 1" using v by simp
  have st1: "st1 = st\<lparr>cs_proposals := cs_proposals st @ [p]\<rparr>" using ins by (simp add: insert_proposal_Inr)
  have e: "lifecycle_edge (ar_state row) next" using n s [symmetric] by auto
  have q: "\<not> write_state (ar_state row)" "\<not> write_state (ar_state (f row))"
    using n f(2) s [symmetric] by (auto simp: write_state_def handed_off_def)
  let ?e = "event_row eid row (Some R_proposing) next v failure note now"
  have m: "moves st st' row (f row) ?e" "cs_writes st' = cs_writes st" "cs_proposals st' = cs_proposals st @ [p]"
    "cs_extractions st' = cs_extractions st" "r = f row"
    using record_transition_moves [OF rt run ok _ _ P s f v' e] st1 by simp_all
  have "writes_after Keeps st st' row (f row) ?e" using m q by simp
  moreover have "proposals_after st st' (ar_run_id row) ?e"
    using m(3) p n find_run_id [OF run] by (auto simp: proposals_after_def generation_event_def event_row_def)
  ultimately have "commits st st' row (f row) ?e"
    using m extractions_ok_cong unfolding commits_def by blast
  then show ?thesis
    using m(5) f(2) s v(1) find_run_id [OF run] unfolding commits_at_def by metis
qed

lemma record_proposal_commits:
  assumes "record_automation_proposal env te pid eid now run_id expected p st = Inr (st', r)" and "ledger_ok st"
  shows "commits_at st st' run_id expected R_proposing r
     \<and> ar_state r = (if proposal_accepted p then R_awaiting_confirmation else R_manual_review)"
  using assms unfolding record_automation_proposal_def Let_def op_Inr case_prod_beta
  apply (elim exE conjE)
  apply (rule record_transition_proposal, assumption)
  apply (simp split: option.splits if_splits; fail)
  apply assumption
  apply assumption
  apply (auto simp: proposal_row_def run_at_def split: option.splits if_splits)
  done

lemma record_transition_follows:
  assumes rt: "record_transition race unreadable P f eid row s next v failure note now st1 = Inr (st', r)"
    and run: "find_run st i = Some row" and ok: "ledger_ok st"
    and w: "find_write st i = Some x"
    and u: "update_write race' Q g st = Inr st1" and Q: "\<And>x. Q x \<Longrightarrow> cw_run_id x = i"
    and g: "same_grant x (g x)" "cw_status (g x) = status_of_state next"
    and P: "\<And>r. P r \<Longrightarrow> ar_run_id r = i" and s: "s = ar_state row"
    and f: "ar_run_id (f row) = ar_run_id row" "ar_state (f row) = next" "ar_state_version (f row) = v"
    and v: "ar_state_version row = k" "v = k + 1" and edge: "lifecycle_edge (ar_state row) next"
  shows "commits_at st st' i k s r \<and> ar_state r = next \<and> find_write st' i = Some (g x)"
proof -
  have id: "ar_run_id row = i" using find_run_id [OF run] by simp
  have v': "v = ar_state_version row + 1" using v by simp
  have st1: "st1 = st\<lparr>cs_writes := update_where (\<lambda>y. cw_run_id y = i) (\<lambda>_. g x) (cs_writes st)\<rparr>"
    and chk: "automation_write_check (g x)"
    using update_write_row [OF u ledger_okD(2) [OF ok] w Q] by simp_all
  let ?e = "event_row eid row (Some s) next v failure note now"
  have m: "moves st st' row (f row) ?e" "cs_writes st' = cs_writes st1" "cs_proposals st' = cs_proposals st"
    "cs_extractions st' = cs_extractions st" "r = f row"
    using record_transition_moves [OF rt run ok _ _ P s f v' edge] st1 by simp_all
  have wa: "writes_after (Follows x (g x)) st st' row (f row) ?e" using m(2) st1 chk g w id f(2) by simp
  have "commits st st' row (f row) ?e"
    using m extractions_ok_cong wa unfolding commits_def proposals_after_def by blast
  then show ?thesis
    using m(5) f(2) s v(1) id follows_find_write [OF wa] unfolding commits_at_def by (metis (no_types))
qed

lemma write_transition_edge: "write_transition_allowed s s' \<Longrightarrow> lifecycle_edge s s' \<and> handed_off s \<and> handed_off s'"
  by (cases s) (auto simp: handed_off_def)

lemma transition_write_commits:
  assumes "transition_automation_calendar_write eid now run_id expected s' code g st = Inr (st', r)" and "ledger_ok st"
  shows "\<exists>s. write_transition_allowed s s' \<and> commits_at st st' run_id expected s r \<and> ar_state r = s'
     \<and> (\<exists>w. find_write st' run_id = Some w \<and> cw_graph_event_id w = g)"
  using assms unfolding transition_automation_calendar_write_def op_Inr
  apply (elim exE conjE)
  apply (frule record_transition_follows, assumption, assumption, assumption, assumption)
  apply (auto simp: same_grant_def run_at_def dest: write_transition_edge)
  done

lemma update_run_exists:
  assumes "update_run msg P f st = Inr st'" and "distinct (map ar_run_id (cs_runs st))" and "\<And>r. P r \<Longrightarrow> ar_run_id r = i"
  shows "\<exists>cur. find_run st i = Some cur \<and> P cur"
proof -
  obtain cur where "cur \<in> set (cs_runs st)" "P cur"
    using count_where_key_1_iff [OF assms(2,3)] assms(1) by (auto simp: update_run_Inr)
  then show ?thesis
    using find_key_distinct [OF assms(2)] assms(3) by (auto simp: find_run_def)
qed

lemma cancel_moves:
  assumes u: "update_run msg (run_at i s v) (cancelled_run c (v + 1) now) st1 = Inr st2"
    and a: "append_automation_event eid row (Some s) R_source_unavailable (v + 1) failure note now st2 = Inr st3"
    and ok: "ledger_ok st" and same: "cs_runs st1 = cs_runs st" "cs_events st1 = cs_events st"
    and row: "ar_run_id row = i" and edge: "lifecycle_edge s R_source_unavailable"
  obtains cur e where "moves st st3 cur (cancelled_run c (v + 1) now cur) e" "ar_run_id cur = i" "ar_state cur = s"
    "ar_state_version cur = v" "cs_writes st3 = cs_writes st1" "cs_proposals st3 = cs_proposals st1"
    "cs_extractions st3 = cs_extractions st1"
    "e = event_row eid row (Some s) R_source_unavailable (v + 1) failure note now"
proof -
  have "\<exists>cur. find_run st1 i = Some cur \<and> run_at i s v cur"
    by (rule update_run_exists [OF u]) (use ledger_okD(1) [OF ok] same in \<open>auto simp: run_at_def\<close>)
  then obtain cur where cur: "find_run st i = Some cur" "run_at i s v cur"
    using same by (auto simp: find_run_def)
  show ?thesis
    by (rule that [of cur])
      (use transition_moves [OF cur(1) ledger_okD(1) [OF ok] same u _ a row] cur(2) edge
        in \<open>auto simp: run_at_def cancelled_run_def\<close>)
qed

definition cancellable :: "cause \<Rightarrow> run_state \<Rightarrow> bool" where
  "cancellable c s \<longleftrightarrow> s \<in> CALENDAR_PENDING_STATES \<union> {R_write_authorized}
     \<or> c = Cause_thread_unfollowed \<and> s \<in> CALENDAR_REVIEW_STATES"

lemma cancellable_edge: "cancellable c s \<Longrightarrow> lifecycle_edge s R_source_unavailable \<and> \<not> handed_off s"
  by (auto simp: cancellable_def CALENDAR_PENDING_STATES_def CALENDAR_REVIEW_STATES_def handed_off_def)

lemma cancel_commits:
  assumes op: "cancel_automation_source eid now c row tx st = Inr (st', b)" and ok: "ledger_ok st"
  shows "if b then cancellable c (ar_state row) \<and> (\<exists>cur. commits_at st st' (ar_run_id row) (ar_state_version row) (ar_state row)
       (cancelled_run c (ar_state_version row + 1) now cur)) else quiet st st'"
proof (cases "cancellable c (ar_state row)")
  case False
  then have "st' = drop_payloads (ar_run_id row) st" "\<not> b"
    using op by (auto simp: cancel_automation_source_def cancellable_def Let_def)
  then show ?thesis
    by (auto simp: quiet_def drop_payloads_def intro: extractions_ok_delete)
next
  case True
  let ?i = "ar_run_id row" and ?v = "ar_state_version row" and ?s = "ar_state row"
  let ?st0 = "drop_payloads ?i st"
  obtain st1 st2 note1 where
    w: "(if ?s = R_write_authorized
            then update_write ''Automation source cleanup lost its write-state race''
              (\<lambda>w. cw_run_id w = ?i \<and> cw_status w = W_authorized)
              (\<lambda>w. w\<lparr>cw_status := W_cancelled, cw_failure_code := Some (cause_text c), cw_updated_at := now\<rparr>) ?st0
            else Inr ?st0) = Inr st1"
    and u: "update_run ''Automation source cleanup lost its expected-state race'' (run_at ?i ?s ?v)
        (cancelled_run c (?v + 1) now) st1 = Inr st2"
    and a: "append_automation_event eid row (Some ?s) R_source_unavailable (?v + 1) (Some (cause_text c)) note1 now st2 = Inr st'"
    and b
    using op True unfolding cancel_automation_source_def Let_def cancellable_def by (auto simp: op_Inr)
  have fr: "cs_runs st1 = cs_runs st" "cs_events st1 = cs_events st"
    "cs_proposals st1 = delete_where (\<lambda>p. pp_run_id p = ?i) (cs_proposals st)"
    "cs_extractions st1 = delete_where (\<lambda>p. xp_run_id p = ?i) (cs_extractions st)"
    using w by (auto simp: drop_payloads_def update_write_Inr split: if_splits)
  obtain cur e where m: "moves st st' cur (cancelled_run c (?v + 1) now cur) e" "ar_run_id cur = ?i" "ar_state cur = ?s"
    "ar_state_version cur = ?v" "cs_writes st' = cs_writes st1" "cs_proposals st' = cs_proposals st1"
    "cs_extractions st' = cs_extractions st1"
    using cancel_moves [OF u a ok fr(1,2)] cancellable_edge [OF True] by metis
  have "\<exists>eff. writes_after eff st st' cur (cancelled_run c (?v + 1) now cur) e"
  proof (cases "?s = R_write_authorized")
    case auth: True
    obtain x where x: "find_write st ?i = Some x"
      using ledger_okD(5) [OF ok, of ?i] m(1-3) auth
      by (auto simp: moves_def run_ok_def write_ok_def write_state_def split: option.splits)
    have x0: "find_write ?st0 ?i = Some x" using x by (simp add: find_write_def drop_payloads_def)
    let ?x' = "x\<lparr>cw_status := W_cancelled, cw_failure_code := Some (cause_text c), cw_updated_at := now\<rparr>"
    have "st1 = ?st0\<lparr>cs_writes := update_where (\<lambda>y. cw_run_id y = ?i) (\<lambda>_. ?x') (cs_writes ?st0)\<rparr>"
      "automation_write_check ?x'"
      using update_write_row [OF w [unfolded if_P [OF auth]] _ x0] ledger_okD(2) [OF ok] by (simp_all add: drop_payloads_def)
    then have "writes_after (Follows x ?x') st st' cur (cancelled_run c (?v + 1) now cur) e"
      using m x by (simp add: same_grant_def cancelled_run_def drop_payloads_def)
    then show ?thesis by blast
  next
    case False
    then have "writes_after Keeps st st' cur (cancelled_run c (?v + 1) now cur) e"
      using w m cancellable_edge [OF True] by (auto simp: drop_payloads_def write_state_def handed_off_def cancelled_run_def)
    then show ?thesis by blast
  qed
  then have "commits st st' cur (cancelled_run c (?v + 1) now cur) e"
    using m fr extractions_ok_delete unfolding commits_def proposals_after_def by (metis (no_types))
  then show ?thesis
    using True m \<open>b\<close> unfolding commits_at_def by auto
qed

lemma preparation_states:
  "scheduling_preparation_available env st r \<Longrightarrow> ar_state r \<in> {R_detected, R_extracting, R_source_unavailable}"
  by (auto simp: scheduling_preparation_available_def)

lemma reserve_new_commits:
  assumes op: "reserve_new_extraction pid rid eid now run_id expected x row attempt st = Inr (st', p)" and ok: "ledger_ok st"
    and run: "find_run st run_id = Some row" and s: "ar_state row \<in> {R_detected, R_extracting, R_source_unavailable}"
    and v: "ar_state_version row = expected"
  shows "commits_at st st' run_id expected (ar_state row) (extracting_run pid x (expected + 1) now row)"
proof -
  obtain st1 st2 where ins: "insert_extraction (reserved_payload pid run_id rid attempt x now) st = Inr st1"
    and u: "update_run ''Automation extraction lost its expected-state race'' (run_at run_id (ar_state row) expected)
       (extracting_run pid x (expected + 1) now) st1 = Inr st2"
    and a: "append_automation_event eid row (Some (ar_state row)) R_extracting (expected + 1) None
       (no_note\<lparr>en_payload_id := Some pid\<rparr>) now st2 = Inr st'"
    using op by (auto simp: reserve_new_extraction_def Let_def op_Inr)
  note fr = insert_extraction_frame [OF ins]
  have id: "ar_run_id row = run_id" using find_run_id [OF run] by simp
  have m: "moves st st' row (extracting_run pid x (expected + 1) now row)
      (event_row eid row (Some (ar_state row)) R_extracting (expected + 1) None (no_note\<lparr>en_payload_id := Some pid\<rparr>) now)
     \<and> cs_writes st' = cs_writes st1 \<and> cs_proposals st' = cs_proposals st1 \<and> cs_extractions st' = cs_extractions st1
     \<and> run_at run_id (ar_state row) expected row"
    by (rule transition_moves [OF run ledger_okD(1) [OF ok] _ _ u _ a id])
      (use fr s v in \<open>auto simp: run_at_def extracting_run_def\<close>)
  have "commits st st' row (extracting_run pid x (expected + 1) now row)
      (event_row eid row (Some (ar_state row)) R_extracting (expected + 1) None (no_note\<lparr>en_payload_id := Some pid\<rparr>) now)"
    by (rule commitsI_keeps [OF conjunct1 [OF m]])
      (use m fr s extractions_ok_insert [OF ins] in
        \<open>auto simp: extracting_run_def write_state_def handed_off_def extractions_ok_def\<close>)
  then show ?thesis using id v unfolding commits_at_def by blast
qed

lemma reserve_commits:
  assumes op: "reserve_automation_extraction env pid rid eid now run_id expected x st = Inr (st', p)" and ok: "ledger_ok st"
  shows "st' = st \<or> (\<exists>s r. s \<in> {R_detected, R_extracting, R_source_unavailable}
     \<and> commits_at st st' run_id expected s r \<and> ar_state r = R_extracting)"
proof -
  obtain row where run: "find_run st run_id = Some row" and v: "ar_state_version row = expected"
    and s: "ar_state row \<in> {R_detected, R_extracting, R_source_unavailable}"
    and r: "st' = st \<or> (\<exists>attempt. reserve_new_extraction pid rid eid now run_id expected x row attempt st = Inr (st', p))"
    using op unfolding reserve_automation_extraction_def Let_def op_Inr
    by (elim exE conjE) (auto simp: op_Inr dest!: preparation_states split: if_splits)
  from r show ?thesis
  proof (elim disjE exE)
    fix attempt
    assume "reserve_new_extraction pid rid eid now run_id expected x row attempt st = Inr (st', p)"
    from reserve_new_commits [OF this ok run s v] s show ?thesis
      by (intro disjI2 exI conjI) (auto simp: extracting_run_def)
  qed simp
qed

lemma begin_commits:
  assumes op: "begin_automation_calendar_write env eid now run_id expected st = Inr (st', out)" and ok: "ledger_ok st"
  shows "(case out of
      Run r \<Rightarrow> commits_at st st' run_id expected R_write_authorized r \<and> ar_state r = R_writing
    | Cancelled _ _ \<Rightarrow> st' = st \<or> quiet st st' \<or> (\<exists>r. commits_at st st' run_id expected R_write_authorized r \<and> ar_state r = R_source_unavailable))"
proof -
  obtain row co where run: "find_run st run_id = Some row" and c: "cancelled_calendar_admission st row expected None = Inr co"
    using op unfolding begin_automation_calendar_write_def op_Inr by (auto split: option.splits)
  have id: "ar_run_id row = run_id" using find_run_id [OF run] by simp
  show ?thesis
  proof (cases co)
    case (Some out')
    then show ?thesis
      using op c run unfolding begin_automation_calendar_write_def op_Inr
      by (auto simp: cancelled_calendar_admission_def cancelled_outcome_def op_Inr split: option.splits if_splits)
  next
    case None
    then obtain w where w: "find_write st run_id = Some w" and st: "ar_state row = R_write_authorized" "ar_state_version row = expected"
      and rest: "(\<exists>st1 b c1. cancel_automation_source eid now Cause_source_unavailable row (Some (cw_transaction_id w)) st = Inr (st', b)
            \<and> cancelled_calendar_admission st' row expected None = Inr (Some out))
         \<or> (\<exists>st1 r. update_write ''Automation write lost its expected-state race''
                (\<lambda>x. cw_run_id x = run_id \<and> cw_status x = W_authorized)
                (\<lambda>x. x\<lparr>cw_status := W_writing, cw_submitted_at := Some now, cw_failure_code := None,
                       cw_updated_at := now\<rparr>) st = Inr st1
             \<and> record_transition ''Automation write lost its expected-state race''
                ''Automation write transition was not readable'' (run_at run_id R_write_authorized expected)
                (\<lambda>r. r\<lparr>ar_state := R_writing, ar_state_version := expected + 1, ar_failure_code := None,
                       ar_review_notified_at := None, ar_updated_at := now\<rparr>)
                eid row R_write_authorized R_writing (expected + 1) None
                (no_note\<lparr>en_payload_id := ar_current_payload_id row, en_payload_sha256 := ar_current_payload_sha256 row,
                          en_transaction_id := Some (cw_transaction_id w)\<rparr>) now st1 = Inr (st', r) \<and> out = Run r)"
      using op c run unfolding begin_automation_calendar_write_def op_Inr by (auto simp: op_Inr split: if_splits)
    from rest show ?thesis
    proof (elim disjE exE conjE, goal_cases)
      case (1 b)
      have "out = Run r \<Longrightarrow> False" for r
        using 1(2) by (auto simp: cancelled_calendar_admission_def cancelled_outcome_def op_Inr split: option.splits if_splits)
      then show ?thesis
        using cancel_commits [OF 1(1) ok] id st by (cases out) (auto split: if_splits simp: cancelled_run_def)
    next
      case (2 st1 r)
      show ?thesis
        using record_transition_follows [OF 2(2) run ok w 2(1), where k = expected] 2(3) st
        by (auto simp: same_grant_def run_at_def)
    qed
  qed
qed

end
