(* ===== verification/Calendar_History.thy ===== *)
theory Calendar_History
  imports Calendar_Ledger
begin

text \<open>
  The operations of the scheduling automation as one step function, over which histories run: the
  decision, admission and purge on the invariant, then \<open>calendar_op\<close>, a datatype of every operation
  that changes the tables, with the scheduler's passes and an arbitrary change of the mail store.
\<close>

section \<open>Decision\<close>

lemma insert_write_Inr:
  "insert_write w st = Inr st' \<longleftrightarrow> st' = st\<lparr>cs_writes := cs_writes st @ [w]\<rparr> \<and> automation_write_check w
     \<and> \<not> exists_where (\<lambda>x. cw_run_id x = cw_run_id w \<or> cw_transaction_id x = cw_transaction_id w) (cs_writes st)"
  by (auto simp: insert_write_def)

lemma replace_cancelled_Inr:
  assumes op: "replace_cancelled_write w st = Inr st'" and d: "distinct (map cw_run_id (cs_writes st))"
  shows "st' = st\<lparr>cs_writes := delete_where (\<lambda>x. cw_run_id x = cw_run_id w) (cs_writes st) @ [w]\<rparr>
     \<and> automation_write_check w
     \<and> cw_transaction_id w \<notin> cw_transaction_id ` set (delete_where (\<lambda>x. cw_run_id x = cw_run_id w) (cs_writes st))"
proof (cases "find_write st (cw_run_id w)")
  case None
  then have "delete_where (\<lambda>x. cw_run_id x = cw_run_id w) (cs_writes st) = cs_writes st"
    by (auto simp: find_write_def find_key_None delete_where_def filter_id_conv image_iff)
  then show ?thesis
    using op None by (auto simp: replace_cancelled_write_def Let_def insert_write_Inr exists_where_iff)
next
  case (Some x)
  then have x: "x \<in> set (cs_writes st)" "cw_run_id x = cw_run_id w" by (auto dest: find_write_id)
  let ?P = "\<lambda>x. cw_run_id x = cw_run_id w \<and> cw_status x = W_cancelled"
  have c: "count_where ?P (cs_writes st) = 1"
    using op Some by (simp add: replace_cancelled_write_def Let_def op_Inr)
  have "cw_status x = W_cancelled"
    using keyed_update [where k = cw_run_id and P = ?P, OF d x _ c] by simp
  then have "?P y \<longleftrightarrow> cw_run_id y = cw_run_id w" if "y \<in> set (cs_writes st)" for y
    using distinct_key_eq [OF d that x(1)] x(2) by auto
  then have "delete_where ?P (cs_writes st) = delete_where (\<lambda>x. cw_run_id x = cw_run_id w) (cs_writes st)"
    unfolding delete_where_def by (intro filter_cong) auto
  then show ?thesis
    using op Some by (auto simp: replace_cancelled_write_def Let_def op_Inr insert_write_Inr exists_where_iff)
qed

lemma finish_decision_keeps:
  assumes op: "finish_decision eid now row proposal s' failure pid digest dec tx st = Inr (st', out)" and ok: "ledger_ok st"
    and run: "find_run st i = Some row" and s: "ar_state row = R_awaiting_confirmation" and n: "s' \<in> {R_declined, R_proposing}"
  shows "\<exists>r. out = Run r \<and> commits_at st st' i (ar_state_version row) R_awaiting_confirmation r \<and> ar_state r = s'"
proof -
  let ?v = "ar_state_version row + 1" and ?f = "decided_run s' (ar_state_version row + 1) failure pid digest now"
  obtain r where rt: "record_transition ''Automation proposal decision lost its expected-state race''
          ''Automation proposal decision was not readable''
          (\<lambda>r. run_at i R_awaiting_confirmation (ar_state_version row) r \<and> ar_current_payload_id r = Some (pp_payload_id proposal)
             \<and> ar_current_payload_sha256 r = Some (pp_proposal_sha256 proposal)) ?f
          eid row R_awaiting_confirmation s' ?v failure
          (no_note\<lparr>en_payload_id := Some (pp_payload_id proposal), en_payload_sha256 := Some (pp_proposal_sha256 proposal),
             en_decision := dec, en_transaction_id := tx\<rparr>) now st = Inr (st', r)" and out: "out = Run r"
    using op find_run_id [OF run] unfolding finish_decision_def Let_def op_Inr case_prod_beta by auto
  have "commits_at st st' i (ar_state_version row) R_awaiting_confirmation r \<and> ar_state r = s'"
    by (rule record_transition_keeps [OF rt run ok])
      (use s n ledger_okD(4) [OF ok] in \<open>auto simp: run_at_def decided_run_def write_state_def handed_off_def\<close>)
  with out show ?thesis by blast
qed

lemma finish_decision_authorizes:
  assumes op: "finish_decision eid now row proposal R_write_authorized None pid digest (Some Confirmed) (Some tx) st1 = Inr (st', out)"
    and ok: "ledger_ok st" and run: "find_run st i = Some row" and s: "ar_state row = R_awaiting_confirmation"
    and p: "proposal \<in> set (cs_proposals st)" "pp_run_id proposal = i"
    and w: "replace_cancelled_write (authorized_write tx row proposal start end tz now) st = Inr st1"
  shows "\<exists>r. out = Run r \<and> commits_at st st' i (ar_state_version row) R_awaiting_confirmation r \<and> ar_state r = R_write_authorized
     \<and> find_write st' i = Some (authorized_write tx row proposal start end tz now) \<and> cs_proposals st' = cs_proposals st"
proof -
  let ?w = "authorized_write tx row proposal start end tz now" and ?v = "ar_state_version row + 1"
  let ?e = "event_row eid row (Some R_awaiting_confirmation) R_write_authorized ?v None
     (no_note\<lparr>en_payload_id := Some (pp_payload_id proposal), en_payload_sha256 := Some (pp_proposal_sha256 proposal),
        en_decision := Some Confirmed, en_transaction_id := Some tx\<rparr>) now"
  have id: "ar_run_id row = i" using find_run_id [OF run] by simp
  have wid: "cw_run_id ?w = i" by (simp add: authorized_write_def id)
  note st1 = replace_cancelled_Inr [OF w ledger_okD(2) [OF ok], unfolded wid]
  let ?f = "decided_run R_write_authorized ?v None pid digest now"
  obtain r where rt: "record_transition ''Automation proposal decision lost its expected-state race''
          ''Automation proposal decision was not readable''
          (\<lambda>r. run_at i R_awaiting_confirmation (ar_state_version row) r \<and> ar_current_payload_id r = Some (pp_payload_id proposal)
             \<and> ar_current_payload_sha256 r = Some (pp_proposal_sha256 proposal)) ?f
          eid row R_awaiting_confirmation R_write_authorized ?v None
          (no_note\<lparr>en_payload_id := Some (pp_payload_id proposal), en_payload_sha256 := Some (pp_proposal_sha256 proposal),
             en_decision := Some Confirmed, en_transaction_id := Some tx\<rparr>) now st1 = Inr (st', r)" and out: "out = Run r"
    using op unfolding finish_decision_def Let_def op_Inr case_prod_beta id by auto
  have m: "moves st st' row (?f row) ?e" "cs_writes st' = cs_writes st1" "cs_proposals st' = cs_proposals st1"
    "cs_extractions st' = cs_extractions st1" "r = ?f row"
    using record_transition_moves [OF rt run ok] st1 s by (auto simp: run_at_def decided_run_def)
  have wa: "writes_after (Authorizes ?w) st st' row (?f row) ?e"
    using st1 m(2) id p by (auto simp: authorized_write_def confirms_def event_row_def decided_run_def exists_where_iff no_note_def)
  have "commits st st' row (?f row) ?e"
    using m st1 wa extractions_ok_cong unfolding commits_def proposals_after_def by (metis (no_types, lifting) calendar_store.select_convs(3,4) calendar_store.update_convs(5) calendar_store.surjective)
  then show ?thesis
    using out m(3,5) st1 id s authorizes_find_write [OF wa] unfolding commits_at_def by (auto simp: decided_run_def)
qed

text \<open>What must hold for a decision to authorize a write.\<close>

definition consented ::
  "timeenv \<Rightarrow> pystr \<Rightarrow> instant \<Rightarrow> pystr \<Rightarrow> int \<Rightarrow> pystr \<Rightarrow> bool \<Rightarrow> calendar_store \<Rightarrow> automation_run
     \<Rightarrow> automation_proposal_payload \<Rightarrow> automation_calendar_write \<Rightarrow> bool" where
  "consented te tx now run_id version digest write_authorized st row proposal w \<longleftrightarrow>
     write_authorized \<and> calendar_run_live now row
     \<and> proposal \<in> set (cs_proposals st) \<and> pp_run_id proposal = run_id \<and> pp_proposal_version proposal = version
     \<and> pp_proposal_sha256 proposal = digest \<and> pp_status proposal = Proposal_accepted
     \<and> (\<exists>start end tz expires s t. pp_start proposal = Some start \<and> pp_end proposal = Some end
          \<and> pp_timezone proposal = Some tz \<and> pp_expires_at proposal = Some expires
          \<and> fromisoformat te start = Some s \<and> now < as_utc te s \<and> iso_utc te expires = Some t \<and> now < t
          \<and> w = authorized_write tx row proposal start end tz now)"

lemma confirm_commits:
  assumes op: "confirm_proposal te tx eid now auth row proposal st = Inr (st', out)" and ok: "ledger_ok st"
    and run: "find_run st run_id = Some row" and s: "ar_state row = R_awaiting_confirmation"
    and p: "proposal \<in> set (cs_proposals st)" "pp_run_id proposal = run_id" "pp_status proposal = Proposal_accepted"
  shows "\<exists>r. out = Run r \<and> commits_at st st' run_id (ar_state_version row) R_awaiting_confirmation r
     \<and> (ar_state r = R_proposing
        \<or> ar_state r = R_write_authorized
          \<and> (\<exists>w. consented te tx now run_id (pp_proposal_version proposal) (pp_proposal_sha256 proposal) auth st row proposal w
               \<and> find_write st' run_id = Some w \<and> cs_proposals st' = cs_proposals st))"
proof -
  from op obtain start fin tz ex a t where
    d: "pp_start proposal = Some start" "pp_end proposal = Some fin" "pp_timezone proposal = Some tz"
      "pp_expires_at proposal = Some ex" "fromisoformat te start = Some a" "iso_utc te ex = Some t"
    by (auto simp: confirm_proposal_def op_Inr split: option.splits)
  show ?thesis
  proof (cases "\<not> calendar_run_live now row \<or> t \<le> now \<or> as_utc te a \<le> now")
    case True
    then obtain pid digest where
      "finish_decision eid now row proposal R_proposing (Some (lit ''proposal_expired'')) pid digest None None st
         = Inr (st', out)"
      using op d by (auto simp: confirm_proposal_def op_Inr split: option.splits)
    from finish_decision_keeps [OF this ok run s] show ?thesis by auto
  next
    case False
    then obtain st1 where auth and
      w: "replace_cancelled_write (authorized_write tx row proposal start fin tz now) st = Inr st1" and
      f: "finish_decision eid now row proposal R_write_authorized None (pp_payload_id proposal)
         (pp_proposal_sha256 proposal) (Some Confirmed) (Some tx) st1 = Inr (st', out)"
      using op d by (auto simp: confirm_proposal_def op_Inr split: option.splits)
    from finish_decision_authorizes [OF f ok run s p(1,2) w] False d p \<open>auth\<close> show ?thesis
      by (cases a) (auto simp: consented_def)
  qed
qed

lemma find_proposal:
  assumes "List.find (\<lambda>p. pp_run_id p = i \<and> pp_proposal_version p = v \<and> pp_proposal_sha256 p = d) ps = Some proposal"
  shows "proposal \<in> set ps" "pp_run_id proposal = i" "pp_proposal_version proposal = v" "pp_proposal_sha256 proposal = d"
  using assms by (auto simp: find_Some_iff)

lemma decide_commits:
  assumes op: "decide_automation_proposal te tx eid now run_id expected version digest dec auth st = Inr (st', out)"
    and ok: "ledger_ok st"
  shows "st' = st \<or> (\<exists>row r. out = Run r \<and> find_run st run_id = Some row \<and> commits_at st st' run_id expected R_awaiting_confirmation r
     \<and> (ar_state r \<in> {R_declined, R_proposing}
        \<or> ar_state r = R_write_authorized \<and> dec = Confirm
          \<and> (\<exists>proposal w. consented te tx now run_id version digest auth st row proposal w \<and> find_write st' run_id = Some w
               \<and> cs_proposals st' = cs_proposals st)))"
proof (cases "st' = st")
  case False
  from op False obtain row proposal where run: "find_run st run_id = Some row"
    and p: "List.find (\<lambda>p. pp_run_id p = run_id \<and> pp_proposal_version p = version \<and> pp_proposal_sha256 p = digest)
        (cs_proposals st) = Some proposal"
    and s: "ar_state row = R_awaiting_confirmation" "ar_state_version row = expected" "pp_status proposal = Proposal_accepted"
    and rest: "(case dec of
         Decline \<Rightarrow> finish_decision eid now row proposal R_declined None (pp_payload_id proposal) digest
           (Some Declined_by_user) None st
       | Confirm \<Rightarrow> confirm_proposal te tx eid now auth row proposal st) = Inr (st', out)"
    unfolding decide_automation_proposal_def by (auto simp: op_Inr split: option.splits if_splits)
  show ?thesis
  proof (cases dec)
    case Decline
    then show ?thesis
      using finish_decision_keeps [OF _ ok run s(1)] rest run s(2) by fastforce
  next
    case Confirm
    then show ?thesis
      using confirm_commits [OF _ ok run s(1) find_proposal(1,2) [OF p] s(3)] find_proposal(3,4) [OF p] rest run s(2)
      by (auto simp: Confirm) blast
  qed
qed simp

section \<open>Admission and purge\<close>

definition admits :: "calendar_store \<Rightarrow> calendar_store \<Rightarrow> automation_run \<Rightarrow> bool" where
  "admits st st' r \<longleftrightarrow> find_run st (ar_run_id r) = None \<and> ar_state r = R_detected \<and> ar_state_version r = 1
     \<and> automation_run_check r \<and> cs_runs st' = cs_runs st @ [r]
     \<and> (\<exists>e. cs_events st' = cs_events st @ [e] \<and> automation_event_check e \<and> ae_run_id e = ar_run_id r \<and> ae_previous_state e = None
          \<and> ae_next_state e = R_detected \<and> ae_state_version e = 1)
     \<and> cs_writes st' = cs_writes st \<and> cs_proposals st' = cs_proposals st \<and> cs_extractions st' = cs_extractions st"

lemma admit_admits:
  assumes "admit_scheduling_automation env run_id eid a st = Inr st'"
  shows "st' = st \<or> (\<exists>r. admits st st' r \<and> ar_run_id r = run_id)"
proof (cases "st' = st")
  case False
  then obtain key where "st' = st\<lparr>cs_runs := cs_runs st @ [admitted_run run_id key a],
      cs_identities := cs_identities st @ [\<lparr>rs_run_id = run_id, rs_mailbox_identity_key = am_mailbox_identity_key a\<rparr>],
      cs_events := cs_events st @ [event_row eid (admitted_run run_id key a) None R_detected 1 None no_note (am_created_at a)]\<rparr>"
    "automation_event_check (event_row eid (admitted_run run_id key a) None R_detected 1 None no_note (am_created_at a))"
    "automation_run_check (admitted_run run_id key a)" "ar_run_id (admitted_run run_id key a) \<notin> ar_run_id ` set (cs_runs st)"
    using assms by (auto simp: admit_scheduling_automation_def Let_def op_Inr checked_insert_Inr append_automation_event_Inr
        split: if_splits)
  then have "admits st st' (admitted_run run_id key a)"
    by (auto simp: admits_def find_run_def find_key_None) (simp_all add: admitted_run_def event_row_def)
  then show ?thesis by (auto simp: admitted_run_def)
qed simp

lemma find_run_append: "cs_runs st' = cs_runs st @ [r] \<Longrightarrow> find_run st (ar_run_id r) = None \<Longrightarrow>
    find_run st' i = (if i = ar_run_id r then Some r else find_run st i)"
  by (auto simp: find_run_def find_append_rows split: option.splits)

lemma admits_ledger_ok:
  assumes ok: "ledger_ok st" and a: "admits st st' r"
  shows "ledger_ok st'"
proof -
  obtain e where e: "cs_events st' = cs_events st @ [e]" "ae_run_id e = ar_run_id r" "ae_previous_state e = None"
    "ae_next_state e = R_detected" "ae_state_version e = 1"
    using a by (auto simp: admits_def)
  have fresh: "find_run st (ar_run_id r) = None" using a by (simp add: admits_def)
  have fr: "find_run st' i = (if i = ar_run_id r then Some r else find_run st i)" for i
    using find_run_append [OF _ fresh] a by (simp add: admits_def)
  have ev: "run_events st' i = run_events st i @ (if i = ar_run_id r then [e] else [])" for i
    using e by (auto simp: run_events_def)
  have wr: "find_write st' i = find_write st i" "run_proposals st' i = run_proposals st i" for i
    using a by (simp_all add: admits_def find_write_def run_proposals_def)
  have "run_ok (find_run st' i) (run_events st' i) (find_write st' i) (run_proposals st' i)" for i
    using ledger_okD(5) [OF ok, of i] fresh a e
    by (cases "i = ar_run_id r") (auto simp: fr ev wr run_ok_def write_ok_def admits_def replay_def write_state_def handed_off_def)
  moreover have "keys_ok st'"
    using ok a fresh by (auto simp: ledger_ok_def keys_ok_def admits_def find_run_def find_key_None)
  moreover have "extractions_ok st'" using ok a by (simp add: ledger_ok_def admits_def extractions_ok_def)
  ultimately show ?thesis by (simp add: ledger_ok_def)
qed

lemma find_key_delete_where:
  "List.find (\<lambda>r. k r = a) (delete_where (\<lambda>r. G (k r)) rows) = (if G a then None else List.find (\<lambda>r. k r = a) rows)"
  by (induction rows) (auto simp: delete_where_def)

lemma filter_key_delete_where:
  "filter (\<lambda>r. k r = a) (delete_where (\<lambda>r. G (k r)) rows) = (if G a then [] else filter (\<lambda>r. k r = a) rows)"
  by (induction rows) (auto simp: delete_where_def)

lemma purge_views:
  fixes now st
  defines "gone \<equiv> \<lambda>i. i \<in> ar_run_id ` set (filter (expired_run now) (cs_runs st))"
  shows "find_run (purge_expired_automation_tombstones now st) i = (if gone i then None else find_run st i)"
    "run_events (purge_expired_automation_tombstones now st) i = (if gone i then [] else run_events st i)"
    "find_write (purge_expired_automation_tombstones now st) i = (if gone i then None else find_write st i)"
    "run_proposals (purge_expired_automation_tombstones now st) i = (if gone i then [] else run_proposals st i)"
  unfolding gone_def purge_expired_automation_tombstones_def Let_def find_run_def run_events_def find_write_def run_proposals_def
  by (simp_all add: find_key_delete_where [where G = "\<lambda>i. i \<in> ar_run_id ` {x \<in> set (cs_runs st). expired_run now x}"]
      filter_key_delete_where [where G = "\<lambda>i. i \<in> ar_run_id ` {x \<in> set (cs_runs st). expired_run now x}"])

lemma purge_ledger_ok:
  assumes "ledger_ok st"
  shows "ledger_ok (purge_expired_automation_tombstones now st)"
proof -
  have "run_ok (find_run (purge_expired_automation_tombstones now st) i) (run_events (purge_expired_automation_tombstones now st) i)
     (find_write (purge_expired_automation_tombstones now st) i) (run_proposals (purge_expired_automation_tombstones now st) i)" for i
    using ledger_okD(5) [OF assms, of i] by (simp add: purge_views run_ok_def)
  moreover have "keys_ok (purge_expired_automation_tombstones now st)"
    using assms by (auto simp: ledger_ok_def keys_ok_def purge_expired_automation_tombstones_def Let_def
        distinct_delete_where list_all_iff set_delete_where)
  moreover have "extractions_ok (purge_expired_automation_tombstones now st)"
    using extractions_ok_delete [OF _ ledger_okD(4) [OF assms]]
    by (simp add: purge_expired_automation_tombstones_def Let_def)
  ultimately show ?thesis by (simp add: ledger_ok_def)
qed

section \<open>Steps\<close>

inductive advance :: "calendar_store \<Rightarrow> calendar_store \<Rightarrow> bool" where
  advance_quiet: "quiet st st' \<Longrightarrow> advance st st'"
| advance_commits: "commits st st' row row' e \<Longrightarrow> advance st st'"
| advance_admits: "admits st st' r \<Longrightarrow> advance st st'"

lemma commits_at_advance: "commits_at st st' i v s r \<Longrightarrow> advance st st'"
  by (auto simp: commits_at_def intro: advance_commits)

lemma advance_ledger_ok: "advance st st' \<Longrightarrow> ledger_ok st \<Longrightarrow> ledger_ok st'"
  by (induction rule: advance.induct) (blast intro: quiet_ledger_ok commits_ledger_ok admits_ledger_ok)+

definition status_of :: "calendar_store \<Rightarrow> pystr \<Rightarrow> (run_state \<times> int) option" where
  "status_of st i = map_option (\<lambda>r. (ar_state r, ar_state_version r)) (find_run st i)"

text \<open>The abstract life of one run id.\<close>

inductive lifecycle :: "(run_state \<times> int) option \<Rightarrow> (run_state \<times> int) option \<Rightarrow> bool" where
  life_admitted: "lifecycle None (Some (R_detected, 1))"
| life_moved: "lifecycle_edge s s' \<Longrightarrow> lifecycle (Some (s, v)) (Some (s', v + 1))"
| life_purged: "s \<notin> {R_writing, R_reconciling} \<Longrightarrow> lifecycle (Some (s, v)) None"

lemma commits_status:
  assumes "commits st st' row row' e"
  shows "status_of st' i = status_of st i \<or> lifecycle (status_of st i) (status_of st' i) \<and> i = ar_run_id row"
proof -
  have m: "moves st st' row row' e" using assms by (simp add: commits_def)
  show ?thesis
  proof (cases "i = ar_run_id row")
    case True
    then have "status_of st i = Some (ar_state row, ar_state_version row)"
      "status_of st' i = Some (ar_state row', ar_state_version row + 1)" "lifecycle_edge (ar_state row) (ar_state row')"
      using m moves_find_run [OF m] by (auto simp: status_of_def moves_def)
    then show ?thesis using True by (simp add: life_moved)
  qed (simp add: status_of_def moves_find_run [OF m])
qed

lemma advance_status:
  assumes "advance st st'"
  shows "status_of st' i = status_of st i \<or> lifecycle (status_of st i) (status_of st' i)"
  using assms
proof cases
  case advance_quiet
  then show ?thesis by (simp add: quiet_def status_of_def find_run_def)
next
  case (advance_commits row row' e)
  then show ?thesis using commits_status by blast
next
  case (advance_admits r)
  then show ?thesis
    using find_run_append [of st' st r i] by (auto simp: admits_def status_of_def life_admitted)
qed

lemma commits_handed_off:
  assumes c: "commits st st' row row' e" and ok: "ledger_ok st" and w: "find_write st i = Some w"
    and h: "find_run st i = Some r" "handed_off (ar_state r)"
  shows "\<exists>r' w'. find_run st' i = Some r' \<and> handed_off (ar_state r') \<and> find_write st' i = Some w' \<and> same_grant w w'"
proof -
  obtain eff where m: "moves st st' row row' e" and wa: "writes_after eff st st' row row' e" using c by (auto simp: commits_def)
  show ?thesis
  proof (cases "i = ar_run_id row")
    case True
    then have r: "r = row" and edge: "lifecycle_edge (ar_state row) (ar_state row')" using h m by (auto simp: moves_def)
    then have h': "handed_off (ar_state row')" using h handed_off_edge by blast
    show ?thesis
      using wa w h h' True r follows_find_write [of _ _ st st' row row' e] edge
      by (cases eff) (auto simp: moves_find_run [OF m] write_state_def handed_off_def)
  qed (use w h wa in \<open>auto simp: moves_find_run [OF m] commits_find_write_other same_grant_def\<close>)
qed

lemma advance_handed_off:
  assumes a: "advance st st'" and ok: "ledger_ok st" and w: "find_write st i = Some w"
    and h: "find_run st i = Some r" "handed_off (ar_state r)"
  shows "\<exists>r' w'. find_run st' i = Some r' \<and> handed_off (ar_state r') \<and> find_write st' i = Some w' \<and> same_grant w w'"
  using a
proof cases
  case advance_quiet
  then show ?thesis using w h by (simp add: quiet_def find_run_def find_write_def same_grant_def)
next
  case (advance_commits row row' e)
  then show ?thesis using commits_handed_off [OF _ ok w h] by blast
next
  case (advance_admits x)
  then show ?thesis
    using find_run_append [of st' st x i] w h by (auto simp: admits_def find_write_def same_grant_def)
qed

section \<open>Passes\<close>

definition advances :: "calendar_store \<Rightarrow> calendar_store \<Rightarrow> bool" where
  "advances = advance\<^sup>*\<^sup>*"

lemma advances_refl [simp]: "advances st st"
  by (simp add: advances_def)

lemma advances_trans: "advances st st1 \<Longrightarrow> advances st1 st2 \<Longrightarrow> advances st st2"
  by (simp add: advances_def)

lemma advances_step: "advance st st1 \<Longrightarrow> advances st st1"
  by (simp add: advances_def)

lemma advances_ledger_ok: "advances st st' \<Longrightarrow> ledger_ok st \<Longrightarrow> ledger_ok st'"
  unfolding advances_def by (induction rule: rtranclp_induct) (auto intro: advance_ledger_ok)

lemma advances_status: "advances st st' \<Longrightarrow> lifecycle\<^sup>*\<^sup>* (status_of st i) (status_of st' i)"
  unfolding advances_def by (induction rule: rtranclp_induct) (use advance_status in \<open>metis rtranclp.simps\<close>)+

text \<open>The event of write \<open>tx\<close> may have been created: the run is past the handoff of that write.\<close>

definition handed_over :: "calendar_store \<Rightarrow> pystr \<times> pystr \<Rightarrow> bool" where
  "handed_over st = (\<lambda>(i, tx). \<exists>r w. find_run st i = Some r \<and> handed_off (ar_state r) \<and> find_write st i = Some w
     \<and> cw_transaction_id w = tx)"

definition past_handoff :: "calendar_store \<Rightarrow> pystr \<Rightarrow> bool" where
  "past_handoff st i = (case find_run st i of None \<Rightarrow> False | Some r \<Rightarrow> handed_off (ar_state r))"

lemma past_handoff_write:
  "ledger_ok st \<Longrightarrow> find_run st i = Some r \<Longrightarrow> handed_off (ar_state r) \<Longrightarrow> \<exists>w. find_write st i = Some w"
  using ledger_okD(5) [of st i] by (auto simp: run_ok_def write_ok_def write_state_def split: option.splits)

lemma advance_handed_over: "advance st st' \<Longrightarrow> ledger_ok st \<Longrightarrow> handed_over st x \<Longrightarrow> handed_over st' x"
  by (cases x) (auto simp: handed_over_def same_grant_def dest: advance_handed_off)

lemma advances_handed_over: "advances st st' \<Longrightarrow> ledger_ok st \<Longrightarrow> handed_over st x \<Longrightarrow> handed_over st' x"
  unfolding advances_def
proof (induction rule: rtranclp_induct)
  case (step y z)
  then show ?case using advance_handed_over advances_ledger_ok [of st y] by (auto simp: advances_def)
qed

lemma past_handoff_iff: "ledger_ok st \<Longrightarrow> past_handoff st i \<longleftrightarrow> (\<exists>tx. handed_over st (i, tx))"
  using past_handoff_write by (fastforce simp: past_handoff_def handed_over_def split: option.splits)

lemma advances_past_handoff: "advances st st' \<Longrightarrow> ledger_ok st \<Longrightarrow> past_handoff st i \<Longrightarrow> past_handoff st' i"
  using past_handoff_iff advances_handed_over advances_ledger_ok by blast

text \<open>The pair a pass works on may be old, but not wrong at the version it was read.\<close>

definition work_ok :: "calendar_store \<Rightarrow> calendar_write_work \<Rightarrow> bool" where
  "work_ok st k \<longleftrightarrow> (\<exists>r. find_run st (ar_run_id (ww_run k)) = Some r \<and> ar_state_version (ww_run k) \<le> ar_state_version r
     \<and> (ar_state_version r = ar_state_version (ww_run k) \<longrightarrow> find_write st (ar_run_id (ww_run k)) = Some (ww_write k)))"

lemma advance_work_ok:
  assumes "advance st st'" and "work_ok st k"
  shows "work_ok st' k"
  using assms
proof cases
  case advance_quiet
  then show ?thesis using assms(2) by (auto simp: quiet_def work_ok_def find_run_def find_write_def)
next
  case (advance_commits row row' e)
  then obtain eff where m: "moves st st' row row' e" and wa: "writes_after eff st st' row row' e" by (auto simp: commits_def)
  then show ?thesis
    using assms(2) commits_find_write_other [OF wa, of "ar_run_id (ww_run k)"]
    by (auto simp: work_ok_def moves_find_run [OF m]) (auto simp: moves_def)
next
  case (advance_admits r)
  then show ?thesis
    using assms(2) find_run_append [of st' st r] by (auto simp: work_ok_def admits_def find_write_def)
qed

lemma advances_work_ok: "advances st st' \<Longrightarrow> work_ok st k \<Longrightarrow> work_ok st' k"
  unfolding advances_def by (induction rule: rtranclp_induct) (auto intro: advance_work_ok)

lemma transition_write_advance:
  "transition_automation_calendar_write eid now i v s code g st = Inr (st', r) \<Longrightarrow> ledger_ok st \<Longrightarrow> advance st st'"
  by (auto dest!: transition_write_commits intro: commits_at_advance)

lemma finish_write_advances:
  "finish_write g i v out calls st = (st', calls', eo) \<Longrightarrow> ledger_ok st \<Longrightarrow> advances st st' \<and> calls' = calls"
  by (auto simp: finish_write_def intro: advances_step transition_write_advance split: prod.splits sum.splits)

lemma begin_advance:
  "begin_automation_calendar_write env eid now i v st = Inr (st', out) \<Longrightarrow> ledger_ok st \<Longrightarrow> advance st st'"
  by (drule (1) begin_commits)
    (auto intro: commits_at_advance advance_quiet advance_quiet [OF quiet_refl] split: run_or_cancelled.splits)

lemma commits_at_after:
  "commits_at st st' i v s r \<Longrightarrow> \<exists>row. find_run st i = Some row \<and> ar_state row = s \<and> ar_state_version row = v
     \<and> find_run st' i = Some r \<and> ar_state_version r = v + 1"
  by (auto simp: commits_at_def commits_def moves_find_run) (auto simp: moves_def)

lemma begin_run_handed_over:
  assumes "begin_automation_calendar_write env eid now i v st = Inr (st', Run r)" and ok: "ledger_ok st"
  shows "\<not> past_handoff st i" "find_write st i = Some w \<Longrightarrow> handed_over st' (i, cw_transaction_id w)"
proof -
  have c: "commits_at st st' i v R_write_authorized r" "ar_state r = R_writing" using begin_commits [OF assms] by auto
  note a = commits_at_after [OF c(1)]
  show "\<not> past_handoff st i" using a by (auto simp: past_handoff_def handed_off_def)
  assume w: "find_write st i = Some w"
  obtain row e eff where m: "moves st st' row r e" "ar_run_id row = i" "ar_state row = R_write_authorized"
    and wa: "writes_after eff st st' row r e"
    using c(1) by (auto simp: commits_at_def commits_def)
  then obtain w' where "find_write st' i = Some w'" "same_grant w w'"
    using w c(2) follows_find_write [of _ _ st st' row r e] by (cases eff) (auto simp: write_state_def)
  then show "handed_over st' (i, cw_transaction_id w)"
    using a c(2) by (auto simp: handed_over_def handed_off_def same_grant_def)
qed

lemma submit_write_calls:
  assumes "submit_write env g k current st = (st', calls, eo)" and ok: "ledger_ok st"
    and w: "find_write st (ar_run_id current) = Some (ww_write k)"
  shows "advances st st' \<and> (calls = [] \<or> calls = [(ar_run_id current, cw_transaction_id (ww_write k))]
     \<and> \<not> past_handoff st (ar_run_id current) \<and> handed_over st' (ar_run_id current, cw_transaction_id (ww_write k)))"
proof (cases "begin_automation_calendar_write env (fst (gr_ev g (ar_run_id current))) (gr_now g) (ar_run_id current)
      (ar_state_version current) st")
  case (Inl e)
  then show ?thesis using assms(1) by (cases e) (auto simp: submit_write_def)
next
  case (Inr res)
  obtain st1 out where res: "res = (st1, out)" by (cases res)
  note b = Inr [unfolded res]
  have a1: "advances st st1" using begin_advance [OF b ok] advances_step by blast
  note ok1 = advances_ledger_ok [OF a1 ok]
  show ?thesis
  proof (cases out)
    case (Cancelled r o')
    then show ?thesis using assms(1) b a1 by (simp add: submit_write_def)
  next
    case (Run r)
    note h = begin_run_handed_over [OF b [unfolded Run] ok]
    show ?thesis
      using assms(1) b Run h(1) advances_trans [OF a1] advances_handed_over [OF _ ok1 h(2) [OF w]]
      by (auto simp: submit_write_def Let_def dest!: finish_write_advances [OF _ ok1] split: option.splits)
  qed
qed

lemma process_item_calls:
  assumes p: "process_write_item env g k st = (st', calls, eo)" and ok: "ledger_ok st" and k: "work_ok st k"
  shows "advances st st' \<and> (calls = [] \<or> (\<exists>i tx. calls = [(i, tx)] \<and> \<not> past_handoff st i \<and> handed_over st' (i, tx)))"
proof -
  let ?i = "ar_run_id (ww_run k)"
  obtain r where r: "find_run st ?i = Some r"
    and w: "ar_state_version r = ar_state_version (ww_run k) \<Longrightarrow> find_write st ?i = Some (ww_write k)"
    using k by (auto simp: work_ok_def)
  have id: "ar_run_id r = ?i" using find_run_id [OF r] by simp
  consider "st' = st" "calls = []" | "interrupted_write g r st = (st', calls, eo)"
    | "submit_write env g k r st = (st', calls, eo)" "ar_state_version r = ar_state_version (ww_run k)"
    | "reconcile_write g k r st = (st', calls, eo)"
    using p r by (auto simp: process_write_item_def split: if_splits)
  then show ?thesis
  proof cases
    case 1
    then show ?thesis by simp
  next
    case 2
    then show ?thesis
      using ok by (auto simp: interrupted_write_def intro: advances_step transition_write_advance split: sum.splits if_splits prod.splits)
  next
    case 3
    then show ?thesis using submit_write_calls [OF 3(1) ok] w id by auto
  next
    case 4
    show ?thesis
    proof (cases "transition_automation_calendar_write (fst (gr_ev g (ar_run_id r))) (gr_now g) (ar_run_id r) (ar_state_version r)
          R_reconciling None None st")
      case (Inl e)
      then show ?thesis using 4 by (auto simp: reconcile_write_def Let_def split: if_splits)
    next
      case (Inr res)
      obtain st1 r1 where res: "res = (st1, r1)" by (cases res)
      have a1: "advances st st1" using transition_write_advance [OF Inr [unfolded res] ok] advances_step by blast
      show ?thesis
        using 4 Inr res advances_trans [OF a1]
        by (auto simp: reconcile_write_def Let_def dest!: finish_write_advances [OF _ advances_ledger_ok [OF a1 ok]])
    qed
  qed
qed

lemma process_items_calls:
  assumes "process_write_items env g ks st = (st', calls, eo)" and "ledger_ok st" and "\<And>k. k \<in> set ks \<Longrightarrow> work_ok st k"
  shows "advances st st' \<and> distinct (map fst calls) \<and> (\<forall>x\<in>set calls. \<not> past_handoff st (fst x) \<and> handed_over st' x)"
  using assms
proof (induction ks arbitrary: st calls)
  case (Cons k ks)
  obtain st1 calls1 eo1 where item: "process_write_item env g k st = (st1, calls1, eo1)" by (metis prod_cases3)
  have a: "advances st st1"
    and c: "calls1 = [] \<or> (\<exists>i tx. calls1 = [(i, tx)] \<and> \<not> past_handoff st i \<and> handed_over st1 (i, tx))"
    using process_item_calls [OF item Cons.prems(2)] Cons.prems(3) by auto
  note ok1 = advances_ledger_ok [OF a Cons.prems(2)]
  show ?case
  proof (cases eo1)
    case (Some e)
    then show ?thesis using Cons.prems(1) item a c by auto
  next
    case None
    then obtain calls2 where rest: "process_write_items env g ks st1 = (st', calls2, eo)" and calls: "calls = calls1 @ calls2"
      using Cons.prems(1) item by (auto split: prod.splits)
    have ih: "advances st1 st'" "distinct (map fst calls2)" "\<And>x. x \<in> set calls2 \<Longrightarrow> \<not> past_handoff st1 (fst x) \<and> handed_over st' x"
      using Cons.IH [OF rest ok1] Cons.prems(3) advances_work_ok [OF a] by auto
    have "past_handoff st1 (fst x) \<and> handed_over st' x \<and> \<not> past_handoff st (fst x)" if "x \<in> set calls1" for x
      using that c ok1 ih(1) past_handoff_iff [OF ok1] advances_handed_over [OF ih(1) ok1] by auto
    moreover have "\<not> past_handoff st (fst x)" if "x \<in> set calls2" for x
      using ih(3) [OF that] advances_past_handoff [OF a Cons.prems(2)] by blast
    moreover have "distinct (map fst calls1)" using c by auto
    ultimately show ?thesis
      using advances_trans [OF a ih(1)] ih(2,3) calls by (auto simp: image_iff) (metis fst_conv)+
  qed
qed simp

lemma pending_work_ok:
  assumes ok: "ledger_ok st" and p: "pending_automation_calendar_writes limit ri now st = Inr ks" and k: "k \<in> set ks"
  shows "work_ok st k"
proof -
  have "ww_run k \<in> set (cs_runs st)" "ww_write k \<in> set (cs_writes st)" "cw_run_id (ww_write k) = ar_run_id (ww_run k)"
    using p k by (auto simp: pending_automation_calendar_writes_def op_Inr dest!: in_set_takeD split: if_splits)
  then have "find_run st (ar_run_id (ww_run k)) = Some (ww_run k)" "find_write st (ar_run_id (ww_run k)) = Some (ww_write k)"
    using find_key_distinct [OF ledger_okD(1) [OF ok]] find_key_distinct [OF ledger_okD(2) [OF ok], of "ww_write k"]
    by (auto simp: find_run_def find_write_def)
  then show ?thesis by (simp add: work_ok_def)
qed

lemma pass_calls:
  assumes "process_scheduling_writes env g ri limit st = (st', calls, eo)" and ok: "ledger_ok st"
  shows "advances st st' \<and> distinct (map fst calls) \<and> (\<forall>x\<in>set calls. \<not> past_handoff st (fst x) \<and> handed_over st' x)"
  using assms process_items_calls [OF _ ok] pending_work_ok [OF ok]
  by (auto simp: process_scheduling_writes_def split: sum.splits)

section \<open>Histories\<close>

text \<open>
  One call of a store operation each, with its arguments: fresh ids, the clock, the run and the
  version the caller expects. \<open>Mail_changes\<close> replaces the mail tables by any others.
\<close>

datatype calendar_op =
    Admit pystr pystr admission
  | Reserve pystr pystr pystr instant pystr int extraction_request
  | Fail_extraction pystr instant pystr int extraction_failure
  | Record_extraction pystr instant pystr int extraction_result
  | Review pystr instant pystr int run_state pystr
  | Propose pystr pystr instant pystr int new_proposal
  | Decide pystr pystr instant pystr int int pystr decision_word bool
  | Begin_write pystr instant pystr int
  | Settle_write pystr instant pystr int run_state "pystr option" "pystr option"
  | Cancel_sources "pystr \<Rightarrow> pystr" instant cause "pystr list list"
  | Purge instant
  | Mail_changes sources
  | Write_pass graph "pystr option" nat

definition stored :: "err + calendar_store \<times> 'a \<Rightarrow> err + calendar_store" where
  "stored = map_sum id fst"

lemma stored_Inr: "stored r = Inr st' \<longleftrightarrow> (\<exists>x. r = Inr (st', x))"
  by (cases r) (auto simp: stored_def)

fun exec_calendar :: "pyenv \<Rightarrow> timeenv \<Rightarrow> calendar_store \<Rightarrow> calendar_op \<Rightarrow> err + calendar_store" where
  "exec_calendar env te st (Admit run_id eid a) = admit_scheduling_automation env run_id eid a st"
| "exec_calendar env te st (Reserve pid rid eid now run_id v x) =
     stored (reserve_automation_extraction env pid rid eid now run_id v x st)"
| "exec_calendar env te st (Fail_extraction eid now run_id v x) =
     stored (record_automation_extraction_failure env eid now run_id v x st)"
| "exec_calendar env te st (Record_extraction eid now run_id v x) =
     stored (record_automation_extraction env eid now run_id v x st)"
| "exec_calendar env te st (Review eid now run_id v s code) =
     stored (transition_automation_to_review eid now run_id v s code st)"
| "exec_calendar env te st (Propose pid eid now run_id v p) =
     stored (record_automation_proposal env te pid eid now run_id v p st)"
| "exec_calendar env te st (Decide tx eid now run_id v version digest dec auth) =
     stored (decide_automation_proposal te tx eid now run_id v version digest dec auth st)"
| "exec_calendar env te st (Begin_write eid now run_id v) =
     stored (begin_automation_calendar_write env eid now run_id v st)"
| "exec_calendar env te st (Settle_write eid now run_id v s code g) =
     stored (transition_automation_calendar_write eid now run_id v s code g st)"
| "exec_calendar env te st (Cancel_sources fresh now c ids) = stored (cancel_chunks env fresh now c ids st)"
| "exec_calendar env te st (Purge now) = Inr (purge_expired_automation_tombstones now st)"
| "exec_calendar env te st (Mail_changes so) = Inr (st\<lparr>cs_sources := so\<rparr>)"
| "exec_calendar env te st (Write_pass g run_id limit) = Inr (fst (process_scheduling_writes env g run_id limit st))"

fun is_purge :: "calendar_op \<Rightarrow> bool" where
  "is_purge (Purge now) = True"
| "is_purge _ = False"

lemma cancel_rows_advances:
  "cancel_rows fresh now c rows st = Inr (st', n) \<Longrightarrow> ledger_ok st \<Longrightarrow> advances st st'"
proof (induction rows arbitrary: st n)
  case (Cons x rows)
  obtain row tx where x: "x = (row, tx)" by (cases x)
  obtain st1 b m where c1: "cancel_automation_source (fresh (ar_run_id row)) now c row tx st = Inr (st1, b)"
    and r: "cancel_rows fresh now c rows st1 = Inr (st', m)"
    using Cons.prems(1) x by (auto simp: andThen_Inr)
  have a: "advance st st1"
    using cancel_commits [OF c1 Cons.prems(2)] by (auto intro: commits_at_advance advance_quiet split: if_splits)
  show ?case
    using Cons.IH [OF r advance_ledger_ok [OF a Cons.prems(2)]] advances_trans [OF advances_step [OF a]] by blast
qed simp

lemma cancel_chunks_advances:
  "cancel_chunks env fresh now c ids st = Inr (st', n) \<Longrightarrow> ledger_ok st \<Longrightarrow> advances st st'"
proof (induction ids arbitrary: st n)
  case (Cons x ids)
  obtain st1 k m where c1: "cancel_rows fresh now c (bound_rows env x st) st = Inr (st1, k)"
    and r: "cancel_chunks env fresh now c ids st1 = Inr (st', m)"
    using Cons.prems(1) by (auto simp: andThen_Inr)
  note a = cancel_rows_advances [OF c1 Cons.prems(2)]
  show ?case
    using Cons.IH [OF r advances_ledger_ok [OF a Cons.prems(2)]] advances_trans [OF a] by blast
qed simp

lemma reserve_advances:
  "reserve_automation_extraction env pid rid eid now run_id v x st = Inr (st', p) \<Longrightarrow> ledger_ok st \<Longrightarrow> advances st st'"
  by (drule (1) reserve_commits) (auto intro: advances_step commits_at_advance)

lemma decide_advances:
  "decide_automation_proposal te tx eid now run_id v version digest dec auth st = Inr (st', out) \<Longrightarrow> ledger_ok st
     \<Longrightarrow> advances st st'"
  by (drule (1) decide_commits) (auto intro: advances_step commits_at_advance)

lemma exec_advances:
  assumes op: "exec_calendar env te st op = Inr st'" and ok: "ledger_ok st" and np: "\<not> is_purge op"
  shows "advances st st'"
proof (cases op)
  case (Admit run_id eid a)
  then show ?thesis using op admit_admits [of env run_id eid a st st'] by (auto intro: advances_step advance_admits)
next
  case (Reserve pid rid eid now run_id v x)
  then show ?thesis using op reserve_advances [OF _ ok] by (auto simp: stored_Inr)
next
  case (Fail_extraction eid now run_id v x)
  then show ?thesis
    using op ok by (auto simp: stored_Inr dest!: record_failure_commits intro: advances_step commits_at_advance)
next
  case (Record_extraction eid now run_id v x)
  then show ?thesis
    using op ok by (auto simp: stored_Inr dest!: record_extraction_commits intro: advances_step commits_at_advance)
next
  case (Review eid now run_id v s code)
  then show ?thesis
    using op ok by (auto simp: stored_Inr dest!: to_review_commits intro: advances_step commits_at_advance)
next
  case (Propose pid eid now run_id v p)
  then show ?thesis
    using op ok by (auto simp: stored_Inr dest!: record_proposal_commits intro: advances_step commits_at_advance)
next
  case (Decide tx eid now run_id v version digest dec auth)
  then show ?thesis using op decide_advances [OF _ ok] by (auto simp: stored_Inr)
next
  case (Begin_write eid now run_id v)
  then show ?thesis using op begin_advance [OF _ ok] by (auto simp: stored_Inr intro: advances_step)
next
  case (Settle_write eid now run_id v s code g)
  then show ?thesis using op transition_write_advance [OF _ ok] by (auto simp: stored_Inr intro: advances_step)
next
  case (Cancel_sources fresh now c ids)
  then show ?thesis using op cancel_chunks_advances [OF _ ok] by (auto simp: stored_Inr)
next
  case (Mail_changes so)
  then show ?thesis using op by (auto simp: quiet_def extractions_ok_def intro!: advances_step advance_quiet)
next
  case (Write_pass g run_id limit)
  then obtain calls eo where "process_scheduling_writes env g run_id limit st = (st', calls, eo)"
    using op by (cases "process_scheduling_writes env g run_id limit st") auto
  then show ?thesis using pass_calls [OF _ ok] by blast
qed (use np in simp)

abbreviation step_calendar :: "pyenv \<Rightarrow> timeenv \<Rightarrow> calendar_store \<Rightarrow> calendar_op \<Rightarrow> calendar_store" where
  "step_calendar env te \<equiv> committed (exec_calendar env te)"

lemma step_advances: "ledger_ok st \<Longrightarrow> \<not> is_purge op \<Longrightarrow> advances st (step_calendar env te st op)"
  by (auto simp: committed_def intro: exec_advances split: sum.splits)

lemma step_ledger_ok: "ledger_ok st \<Longrightarrow> ledger_ok (step_calendar env te st op)"
proof (cases "is_purge op")
  case True
  then show "ledger_ok st \<Longrightarrow> ?thesis" by (cases op) (auto simp: committed_def purge_ledger_ok)
qed (blast intro: step_advances advances_ledger_ok)

lemma history_ledger_ok: "ledger_ok st \<Longrightarrow> ledger_ok (foldl (step_calendar env te) st ops)"
  by (induction ops arbitrary: st) (auto intro: step_ledger_ok)

text \<open>The handoffs of a step: the run whose write may be sent to Graph from here on.\<close>

fun handoffs :: "pyenv \<Rightarrow> timeenv \<Rightarrow> calendar_store \<Rightarrow> calendar_op \<Rightarrow> (pystr \<times> pystr) list" where
  "handoffs env te st (Begin_write eid now run_id v) =
     (case (begin_automation_calendar_write env eid now run_id v st, find_write st run_id) of
        (Inr (_, Run _), Some w) \<Rightarrow> [(run_id, cw_transaction_id w)]
      | _ \<Rightarrow> [])"
| "handoffs env te st (Write_pass g run_id limit) = fst (snd (process_scheduling_writes env g run_id limit st))"
| "handoffs env te st _ = []"

lemma handoffs_sound:
  assumes ok: "ledger_ok st"
  shows "distinct (map fst (handoffs env te st op))
     \<and> (\<forall>x\<in>set (handoffs env te st op). \<not> past_handoff st (fst x) \<and> handed_over (step_calendar env te st op) x)"
proof (cases op)
  case (Write_pass g run_id limit)
  obtain st' calls eo where p: "process_scheduling_writes env g run_id limit st = (st', calls, eo)" by (metis prod_cases3)
  show ?thesis using pass_calls [OF p ok] by (simp add: Write_pass p committed_def)
next
  case (Begin_write eid now run_id v)
  then show ?thesis
    by (auto simp: committed_def stored_def dest: begin_run_handed_over(1) [OF _ ok] begin_run_handed_over(2) [OF _ ok]
        split: sum.splits prod.splits run_or_cancelled.splits option.splits)
qed auto

interpretation handoff_log:
  once_log "step_calendar env te" "\<lambda>st op. map fst (handoffs env te st op)" "\<lambda>op. \<not> is_purge op" past_handoff ledger_ok
  for env te
proof
  fix st op i
  assume ok: "ledger_ok st"
  show ok': "ledger_ok (step_calendar env te st op)" using step_ledger_ok [OF ok] .
  show "distinct (map fst (handoffs env te st op))" using handoffs_sound [OF ok] by blast
  show "i \<in> set (map fst (handoffs env te st op)) \<Longrightarrow> \<not> past_handoff st i" using handoffs_sound [OF ok] by auto
  show "i \<in> set (map fst (handoffs env te st op)) \<Longrightarrow> past_handoff (step_calendar env te st op) i"
    using handoffs_sound [OF ok, of env te op] past_handoff_iff [OF ok'] by force
  show "\<not> is_purge op \<Longrightarrow> past_handoff st i \<Longrightarrow> past_handoff (step_calendar env te st op) i"
    using advances_past_handoff [OF step_advances [OF ok] ok] .
qed

end
