(* ===== verification/Calendar_Proofs.thy ===== *)
theory Calendar_Proofs
  imports Calendar_History
begin

text \<open>
  The properties of the scheduling automation. A history starts in the empty tables and runs any
  sequence of operations, in any order and with any arguments, with the mail store changing under
  it; an operation that raises leaves the store as it was.
\<close>

definition history :: "pyenv \<Rightarrow> timeenv \<Rightarrow> sources \<Rightarrow> calendar_op list \<Rightarrow> calendar_store" where
  "history env te so ops = foldl (step_calendar env te) (empty_store so) ops"

lemma history_ok: "ledger_ok (history env te so ops)"
  by (simp add: history_def history_ledger_ok ledger_ok_empty)

lemma history_snoc: "history env te so (ops @ [op]) = step_calendar env te (history env te so ops) op"
  by (simp add: history_def)

section \<open>Sample stores\<close>

definition digest_env :: pyenv where
  "digest_env = ascii_env\<lparr>sha256 := \<lambda>_. replicate 64 97\<rparr>"

definition an_uuid :: "nat \<Rightarrow> pystr" where "an_uuid c = replicate 36 c"

lemma an_uuid_simps [simp]: "length (an_uuid c) = 36" "an_uuid c \<noteq> []" "an_uuid c = an_uuid d \<longleftrightarrow> c = d"
  by (auto simp: an_uuid_def replicate_eq_replicate)

definition sample_time :: timeenv where
  "sample_time = \<lparr>fromisoformat = (\<lambda>s. if s = [115] then Some (2000, Some 0) else if s = [101] then Some (3000, Some 0) else None),
     zone_offset = (\<lambda>z. Some (\<lambda>t. 0)), local_offset = (\<lambda>t. 0)\<rparr>"

definition sample_message :: source_row where
  "sample_message = \<lparr>mg_message_id = Some [49], mg_provider = [109], mg_account_id = [97],
     mg_mailbox_identity_key = Some (replicate 64 107), mg_provider_message_id = [49], sr_logical_of = None,
     sr_thread_key = None, sr_sender = [120], sr_sender_name = None, sr_subject = [115], sr_received_at = [116]\<rparr>"

definition sample_sources :: sources where
  "sample_sources = \<lparr>so_messages = [sample_message], so_accounts = [], so_follows = [], so_removal = None\<rparr>"

definition sample_run :: "run_state \<Rightarrow> int \<Rightarrow> automation_run" where
  "sample_run s v = \<lparr>ar_run_id = an_uuid 48, ar_provider = [109], ar_account_id = [97],
     ar_calendar_principal_key = replicate 64 112, ar_source_message_key = replicate 64 97,
     ar_automation_id = SCHEDULING_AUTOMATION_ID, ar_automation_version = 1, ar_extraction_schema_version = 1,
     ar_state = s, ar_state_version = v, ar_failure_code = None, ar_source_content_sha256 = Some (replicate 64 99),
     ar_extraction_context_at = Some [99], ar_extraction_timezone = Some [122], ar_extraction_body_char_limit = Some 10,
     ar_current_payload_id = Some (an_uuid 54), ar_current_payload_sha256 = Some (replicate 64 97),
     ar_review_notified_at = None, ar_expires_at = Aware 1000000, ar_created_at = 1, ar_updated_at = 1\<rparr>"

text \<open>The log of a run that went through the states \<open>ss\<close>.\<close>

fun path_events :: "nat \<Rightarrow> run_state option \<Rightarrow> run_state list \<Rightarrow> automation_event list" where
  "path_events n previous [] = []"
| "path_events n previous (s # ss) =
     event_row (an_uuid (100 + n)) (sample_run s 0) previous s (int n + 1) None
       (if s = R_write_authorized
        then no_note\<lparr>en_decision := Some Confirmed, en_transaction_id := Some (an_uuid 56),
               en_payload_sha256 := Some (replicate 64 97)\<rparr> else no_note) 1
     # path_events (Suc n) (Some s) ss"

definition sample_extraction :: automation_extraction_payload where
  "sample_extraction = \<lparr>xp_payload_id = an_uuid 50, xp_run_id = an_uuid 48, xp_attempt_no = 1, xp_request_id = an_uuid 51,
     xp_status = X_accepted, xp_source_content_sha256 = replicate 64 99, xp_context_at = [99], xp_timezone = [122],
     xp_body_char_limit = 10, xp_organizer_address = [111], xp_failure_count = 0, xp_next_retry_at = None,
     xp_last_error_code = None, xp_result_sha256 = Some (replicate 64 97), xp_result_json = Some [123, 125],
     xp_violations_json = Some (lit ''[]''), xp_created_at = 2, xp_completed_at = Some 3\<rparr>"

definition sample_proposal :: automation_proposal_payload where
  "sample_proposal = \<lparr>pp_payload_id = an_uuid 54, pp_run_id = an_uuid 48, pp_proposal_version = 1,
     pp_status = Proposal_accepted, pp_request_sha256 = replicate 64 97, pp_proposal_sha256 = replicate 64 97,
     pp_subject = [115], pp_attendees_json = [91, 93], pp_start = Some [115], pp_end = Some [101], pp_timezone = Some [122],
     pp_suggestion_reason = Some [114], pp_empty_reason = None, pp_observed_at = 4, pp_expires_at = Some (Aware 2000),
     pp_created_at = 4\<rparr>"

definition sample_write :: "write_status \<Rightarrow> automation_calendar_write" where
  "sample_write s = \<lparr>cw_run_id = an_uuid 48, cw_transaction_id = an_uuid 56, cw_proposal_version = 1,
     cw_proposal_sha256 = replicate 64 97, cw_calendar_principal_key = replicate 64 112, cw_calendar_id = lit ''primary'',
     cw_start = [115], cw_end = [101], cw_timezone = [122], cw_status = s, cw_graph_event_id = None,
     cw_failure_code = None, cw_confirmed_at = 5, cw_submitted_at = None, cw_completed_at = None, cw_updated_at = 5\<rparr>"

definition sample_calendar :: "run_state list \<Rightarrow> automation_calendar_write list \<Rightarrow> calendar_store" where
  "sample_calendar ss ws = \<lparr>cs_runs = [sample_run (last ss) (int (length ss))], cs_events = path_events 0 None ss,
     cs_extractions = [sample_extraction], cs_proposals = [sample_proposal], cs_writes = ws,
     cs_identities = [\<lparr>rs_run_id = an_uuid 48, rs_mailbox_identity_key = replicate 64 107\<rparr>], cs_sources = sample_sources\<rparr>"

definition sample_awaiting :: calendar_store where
  "sample_awaiting = sample_calendar [R_detected, R_extracting, R_proposing, R_awaiting_confirmation] []"

definition sample_unresolved :: calendar_store where
  "sample_unresolved = sample_calendar [R_detected, R_extracting, R_proposing, R_awaiting_confirmation, R_write_authorized,
     R_writing, R_unresolved] [sample_write W_unresolved]"

lemmas sample_views = find_run_def find_write_def run_events_def run_proposals_def

lemma sample_run_simps [simp]:
  "ar_run_id (sample_run s v) = an_uuid 48" "ar_state (sample_run s v) = s" "ar_state_version (sample_run s v) = v"
  "ar_current_payload_id (sample_run s v) = Some (an_uuid 54)"
  "ar_current_payload_sha256 (sample_run s v) = Some (replicate 64 97)" "ar_expires_at (sample_run s v) = Aware 1000000"
  by (simp_all add: sample_run_def)

lemma sample_write_simps [simp]:
  "cw_run_id (sample_write w) = an_uuid 48" "cw_status (sample_write w) = w" "cw_transaction_id (sample_write w) = an_uuid 56"
  "cw_proposal_version (sample_write w) = 1" "cw_proposal_sha256 (sample_write w) = replicate 64 97"
  by (simp_all add: sample_write_def)

lemma sample_texts: "within_utf8_bytes [115] 64" "within_utf8_bytes [101] 64" "within_utf8_bytes [122] 128"
  by code_simp+

lemma sample_checks:
  "s \<noteq> R_detected \<Longrightarrow> 1 \<le> v \<Longrightarrow> automation_run_check (sample_run s v)" "automation_extraction_check sample_extraction"
  "w \<noteq> W_completed \<Longrightarrow> automation_write_check (sample_write w)"
  by (auto simp: automation_run_check_def sample_run_def SCHEDULING_AUTOMATION_ID_def automation_extraction_check_def
      sample_extraction_def automation_write_check_def sample_write_def utf8_at_most_def sample_texts)

lemma ledger_ok_one:
  assumes "keys_ok st" and "extractions_ok st"
    and "\<And>i. i \<noteq> k \<Longrightarrow> find_run st i = None \<and> run_events st i = [] \<and> find_write st i = None \<and> run_proposals st i = []"
    and "run_ok (find_run st k) (run_events st k) (find_write st k) (run_proposals st k)"
  shows "ledger_ok st"
proof -
  have "run_ok (find_run st i) (run_events st i) (find_write st i) (run_proposals st i)" for i
    using assms(3) [of i] assms(4) by (cases "i = k") (auto simp: run_ok_def)
  then show ?thesis using assms(1,2) by (simp add: ledger_ok_def)
qed

lemma sample_awaiting_ok: "ledger_ok sample_awaiting"
  by (rule ledger_ok_one [of _ "an_uuid 48"])
    (auto simp: sample_awaiting_def sample_calendar_def keys_ok_def extractions_ok_def sample_checks sample_views
      run_ok_def write_ok_def replay_def write_state_def handed_off_def generation_def generation_event_def
      sample_run_def [of _ 0] event_row_def no_note_def automation_event_check_def SCHEDULING_AUTOMATION_ID_def sample_proposal_def)

lemma sample_unresolved_ok: "ledger_ok sample_unresolved"
  by (rule ledger_ok_one [of _ "an_uuid 48"])
    (auto simp: sample_unresolved_def sample_calendar_def keys_ok_def extractions_ok_def sample_checks sample_views
      run_ok_def write_ok_def replay_def write_state_def handed_off_def generation_def generation_event_def
      sample_run_def [of _ 0] event_row_def no_note_def automation_event_check_def SCHEDULING_AUTOMATION_ID_def sample_proposal_def confirms_def)

definition sample_detected :: calendar_store where
  "sample_detected = (sample_calendar [R_detected] [])\<lparr>cs_extractions := [], cs_proposals := []\<rparr>"

lemma sample_detected_ok: "ledger_ok sample_detected"
  by (rule ledger_ok_one [of _ "an_uuid 48"])
    (auto simp: sample_detected_def sample_calendar_def keys_ok_def extractions_ok_def sample_views
      run_ok_def write_ok_def replay_def write_state_def handed_off_def automation_run_check_def sample_run_def
      event_row_def no_note_def automation_event_check_def SCHEDULING_AUTOMATION_ID_def)

section \<open>The log and the life of a run\<close>

text \<open>
  C4: Event sourcing: after any history the append-only log of a run, replayed through the
  lifecycle machine from nothing, is legal at every event and ends in exactly the state and version
  that the run's row holds; a run that was never admitted or was purged has an empty log.
\<close>

theorem calendar_log_replays:
  "replay (run_events (history env te so ops) i) = Some (status_of (history env te so ops) i)"
  using ledger_okD(5) [OF history_ok [of env te so ops], of i]
  by (auto simp: run_ok_def status_of_def split: option.splits)

lemma purge_status:
  "status_of (purge_expired_automation_tombstones now st) i = status_of st i
     \<or> lifecycle (status_of st i) (status_of (purge_expired_automation_tombstones now st) i)" if "ledger_ok st"
proof (cases "i \<in> ar_run_id ` set (filter (expired_run now) (cs_runs st))")
  case True
  then obtain r where r: "r \<in> set (cs_runs st)" "expired_run now r" "i = ar_run_id r" by auto
  then have "find_run st i = Some r"
    using find_key_distinct [OF ledger_okD(1) [OF that]] by (simp add: find_run_def)
  then have "lifecycle (status_of st i) None"
    using r(2) by (auto simp: status_of_def expired_run_def intro: life_purged)
  then show ?thesis
    using True by (simp add: status_of_def [of "purge_expired_automation_tombstones now st"] purge_views)
qed (simp add: status_of_def purge_views)

lemma step_status:
  assumes ok: "ledger_ok st"
  shows "lifecycle\<^sup>*\<^sup>* (status_of st i) (status_of (step_calendar env te st op) i)"
proof (cases "is_purge op")
  case True
  then obtain now where "op = Purge now" by (cases op) auto
  then show ?thesis using purge_status [OF ok, of now i] by (auto simp: committed_def)
qed (simp add: advances_status step_advances ok)


section \<open>The calendar event\<close>

definition requested :: "pyenv \<Rightarrow> timeenv \<Rightarrow> sources \<Rightarrow> calendar_op list \<Rightarrow> (pystr \<times> pystr) list" where
  "requested env te so ops = effect_trace (step_calendar env te) (handoffs env te) (empty_store so) ops"

text \<open>
  C3: Until its tombstone is purged, a run is handed to Microsoft Graph at most once: over any
  history of operations and scheduler passes, with crashes between the handoff and the outcome,
  retries, interrupted and reconciled writes, no run occurs twice among the requests to create an event.
\<close>

theorem calendar_event_requested_once:
  assumes "list_all (\<lambda>op. \<not> is_purge op) ops"
  shows "distinct (map fst (requested env te so ops))"
  using handoff_log.trace_distinct [where env = env and te = te, OF ledger_ok_empty assms, of so]
  by (simp add: requested_def map_effect_trace)

theorem calendar_event_requested_once_witness:
  "distinct (map fst (requested digest_env sample_time sample_sources
     [Begin_write (an_uuid 57) 5 (an_uuid 48) 5, Mail_changes sample_sources, Begin_write (an_uuid 58) 6 (an_uuid 48) 5]))"
  using calendar_event_requested_once [of "[Begin_write (an_uuid 57) 5 (an_uuid 48) 5, Mail_changes sample_sources,
    Begin_write (an_uuid 58) 6 (an_uuid 48) 5]" digest_env sample_time sample_sources] by simp

text \<open>
  C6: Nothing is written to the calendar without consent: whatever an operation hands to Graph in
  a reachable state, the log holds the owner's confirmation of that run with that transaction id,
  made while the run awaited confirmation, and the digest confirmed there is the digest of the
  proposal in the write ledger.
\<close>

theorem calendar_write_needs_consent:
  "list_all (\<lambda>(i, tx). \<exists>w e. find_write (history env te so (ops @ [op])) i = Some w \<and> cw_transaction_id w = tx
       \<and> e \<in> set (run_events (history env te so (ops @ [op])) i) \<and> confirms w e)
     (handoffs env te (history env te so ops) op)"
proof -
  let ?st = "history env te so (ops @ [op])"
  have "\<exists>w e. find_write ?st i = Some w \<and> cw_transaction_id w = tx \<and> e \<in> set (run_events ?st i) \<and> confirms w e"
    if h: "handed_over ?st (i, tx)" for i tx
  proof -
    obtain r w where "find_run ?st i = Some r" "find_write ?st i = Some w" "cw_transaction_id w = tx"
      using h by (auto simp: handed_over_def)
    then show ?thesis
      using ledger_okD(5) [OF history_ok [of env te so "ops @ [op]"], of i]
      by (auto simp: run_ok_def write_ok_def list_ex_iff)
  qed
  then show ?thesis
    using handoffs_sound [OF history_ok [of env te so ops], of env te op] unfolding history_snoc [symmetric]
    by (auto simp: list_all_iff)
qed

section \<open>Decisions\<close>


definition sample_decided :: "bool \<Rightarrow> err + calendar_store \<times> run_or_cancelled" where
  "sample_decided auth = decide_automation_proposal sample_time (an_uuid 56) (an_uuid 57) 5 (an_uuid 48) 4 1 (replicate 64 97)
     Confirm auth sample_awaiting"

definition authorized_answer :: "err + calendar_store \<times> run_or_cancelled \<Rightarrow> bool" where
  "authorized_answer a = (case a of Inr (st, Run r) \<Rightarrow> ar_state r = R_write_authorized \<and> length (cs_events st) = 5 | _ \<Rightarrow> False)"

lemma sample_decided_authorized: "authorized_answer (sample_decided True)"
  by code_simp

lemma sample_decided_cases:
  obtains st' r where "decide_automation_proposal sample_time (an_uuid 56) (an_uuid 57) 5 (an_uuid 48) 4 1 (replicate 64 97)
     Confirm True sample_awaiting = Inr (st', Run r)" "ar_state r = R_write_authorized" "st' \<noteq> sample_awaiting"
proof -
  obtain st' r where "sample_decided True = Inr (st', Run r)" "ar_state r = R_write_authorized" "length (cs_events st') = 5"
    using sample_decided_authorized by (auto simp: authorized_answer_def split: sum.splits prod.splits run_or_cancelled.splits)
  moreover have "length (cs_events sample_awaiting) = 4" by code_simp
  ultimately have "st' \<noteq> sample_awaiting" by auto
  with \<open>sample_decided True = _\<close> \<open>ar_state r = _\<close> show ?thesis using that [of st' r] by (simp add: sample_decided_def)
qed


lemma replay_event_None: "replay_event x e \<noteq> Some None"
  by (cases "(x, e)" rule: replay_event.cases) auto

lemma replay_empty: "replay es = Some None \<Longrightarrow> es = []"
  by (cases es rule: rev_cases) (auto simp: replay_event_None)

lemma replay_versions: "replay es = Some (Some (s, v)) \<Longrightarrow> e \<in> set es \<Longrightarrow> ae_state_version e \<le> v"
proof (induction es arbitrary: s v rule: rev_induct)
  case (snoc x es)
  consider "replay es = None" | "es = []" | s0 v0 where "replay es = Some (Some (s0, v0))"
    using replay_empty by (metis not_None_eq surj_pair)
  then show ?case
  proof cases
    case (3 s0 v0)
    then show ?thesis using snoc.IH [OF 3] snoc.prems by (fastforce split: if_splits)
  qed (use snoc.prems in \<open>auto simp: replay_def split: if_splits\<close>)
qed simp

lemma no_future_cancellation:
  assumes ok: "ledger_ok st" and "find_run st i = Some r" and "ar_state_version r \<le> v"
  shows "cancellation_event st i v sha = None"
proof -
  have "ae_state_version c \<noteq> v + 1" if "c \<in> set (cs_events st)" "ae_run_id c = i" for c
    using ledger_okD(5) [OF ok, of i] assms(2,3) that replay_versions [of "run_events st i" _ _ c]
    by (auto simp: run_ok_def run_events_def)
  then have "[c. a \<leftarrow> cs_events st, ae_run_id a = i \<and> ae_state_version a = v \<and> (sha = None \<or> ae_payload_sha256 a = sha),
       c \<leftarrow> cs_events st, confirmed_then_cancelled a c] = []"
    by (auto simp: confirmed_then_cancelled_def)
  then show ?thesis unfolding cancellation_event_def by (simp only: list.case)
qed

lemma confirmed_again:
  assumes run: "find_run st i = Some r" and none: "cancelled_calendar_admission st r (expected + 1) (Some (digest, version)) = Inr None"
    and p: "List.find (\<lambda>p. pp_run_id p = i \<and> pp_proposal_version p = version \<and> pp_proposal_sha256 p = digest) (cs_proposals st) = Some proposal"
    and w: "find_write st i = Some w" "cw_proposal_version w = version" "cw_proposal_sha256 w = digest" "cw_status w \<noteq> W_cancelled"
    and args: "1 \<le> expected" "1 \<le> version" "length digest = 64"
  shows "decide_automation_proposal te tx eid now i expected version digest Confirm auth st = Inr (st, Run r)"
  using assms by (simp add: decide_automation_proposal_def replayed_confirmation_def)

lemma cancelled_admission_Cancelled:
  "cancelled_calendar_admission st row v ident = Inr (Some c) \<Longrightarrow> \<exists>a b. c = Cancelled a b"
  by (auto simp: cancelled_calendar_admission_def cancelled_outcome_def op_Inr split: option.splits if_splits)

lemma decide_confirm_cases:
  assumes "decide_automation_proposal te tx eid now i expected version digest Confirm auth st = Inr (st', Run r)"
  obtains row proposal replayed where "find_run st i = Some row"
    "1 \<le> expected" "1 \<le> version" "length digest = 64"
    "cancelled_calendar_admission st row (expected + 1) (Some (digest, version)) = Inr None"
    "List.find (\<lambda>p. pp_run_id p = i \<and> pp_proposal_version p = version \<and> pp_proposal_sha256 p = digest)
        (cs_proposals st) = Some proposal"
    "replayed_confirmation row version digest (find_write st i) = Inr replayed"
    "replayed \<Longrightarrow> st' = st \<and> r = row"
    "\<not> replayed \<Longrightarrow> ar_state row = R_awaiting_confirmation \<and> ar_state_version row = expected
        \<and> pp_status proposal = Proposal_accepted
        \<and> confirm_proposal te tx eid now auth row proposal st = Inr (st', Run r)"
proof -
  obtain row co where row: "find_run st i = Some row" and args: "1 \<le> expected" "1 \<le> version" "length digest = 64"
    and co: "cancelled_calendar_admission st row (expected + 1) (Some (digest, version)) = Inr co"
    and rest: "decide_automation_proposal te tx eid now i expected version digest Confirm auth st = Inr (st', Run r)"
    using assms by (auto simp: decide_automation_proposal_def op_Inr)
  have None: "co = None"
  proof (cases co)
    case (Some c)
    then show ?thesis
      using rest row args co cancelled_admission_Cancelled [of st row] by (fastforce simp: decide_automation_proposal_def)
  qed simp
  from rest row args co obtain proposal replayed where
    "List.find (\<lambda>p. pp_run_id p = i \<and> pp_proposal_version p = version \<and> pp_proposal_sha256 p = digest)
        (cs_proposals st) = Some proposal"
    "replayed_confirmation row version digest (find_write st i) = Inr replayed"
    "(if replayed then Inr (st, Run row)
      else andThen (require (ar_state row = R_awaiting_confirmation \<and> ar_state_version row = expected
             \<and> ar_current_payload_id row = Some (pp_payload_id proposal)
             \<and> ar_current_payload_sha256 row = Some digest \<and> pp_status proposal = Proposal_accepted)
          (RuntimeError ''Automation proposal decision lost its expected-state race'')) (\<lambda>_.
            confirm_proposal te tx eid now auth row proposal st)) = Inr (st', Run r)"
    unfolding None decide_automation_proposal_def by (auto simp: andThen_Inr the_row_Inr cong: if_cong)
  then show ?thesis
    using row args co None by (intro that [of row proposal replayed]) (auto simp: op_Inr split: if_splits)
qed

text \<open>
  C8: Confirming is idempotent: after a confirmation has authorized the write, the same
  confirmation again, at any later time, with or without a write authorization and with whatever
  fresh ids, changes nothing and answers with the same run; no second write is authorized.
\<close>

theorem confirmation_idempotent:
  assumes ok: "ledger_ok st"
    and op: "decide_automation_proposal te tx eid now run_id expected version digest Confirm auth st = Inr (st', Run r)"
    and s: "ar_state r = R_write_authorized"
  shows "decide_automation_proposal te2 tx2 eid2 now2 run_id expected version digest Confirm auth2 st' = Inr (st', Run r)"
proof -
  obtain row proposal replayed where run: "find_run st run_id = Some row"
    and args: "1 \<le> expected" "1 \<le> version" "length digest = 64"
    and c: "cancelled_calendar_admission st row (expected + 1) (Some (digest, version)) = Inr None"
    and p: "List.find (\<lambda>p. pp_run_id p = run_id \<and> pp_proposal_version p = version \<and> pp_proposal_sha256 p = digest)
        (cs_proposals st) = Some proposal"
    and rep: "replayed_confirmation row version digest (find_write st run_id) = Inr replayed"
    and same: "replayed \<Longrightarrow> st' = st \<and> r = row"
    and go: "\<not> replayed \<Longrightarrow> ar_state row = R_awaiting_confirmation \<and> ar_state_version row = expected
        \<and> pp_status proposal = Proposal_accepted
        \<and> confirm_proposal te tx eid now auth row proposal st = Inr (st', Run r)"
    by (rule decide_confirm_cases [OF op], rule that)
  show ?thesis
  proof (cases replayed)
    case True
    then obtain w where "find_write st run_id = Some w" "cw_proposal_version w = version" "cw_proposal_sha256 w = digest"
      "cw_status w \<noteq> W_cancelled"
      using rep by (auto simp: replayed_confirmation_def split: option.splits if_splits)
    then show ?thesis using confirmed_again [OF run c p _ _ _ _ args] same [OF True] by blast
  next
    case False
    note q = find_proposal [OF p]
    have cp: "confirm_proposal te tx eid now auth row proposal st = Inr (st', Run r)" and g: "ar_state row = R_awaiting_confirmation"
      "ar_state_version row = expected" "pp_status proposal = Proposal_accepted"
      using go [OF False] by auto
    obtain w where k: "commits_at st st' run_id expected R_awaiting_confirmation r"
      and w: "consented te tx now run_id version digest auth st row proposal w" "find_write st' run_id = Some w"
        "cs_proposals st' = cs_proposals st"
      using confirm_commits [OF cp ok run g(1) q(1,2) g(3)] g(2) q(3,4) s by auto
    have ok': "ledger_ok st'" using k commits_ledger_ok [OF ok] by (auto simp: commits_at_def)
    have r: "find_run st' run_id = Some r" "ar_state_version r = expected + 1" using commits_at_after [OF k] by auto
    have "cancelled_calendar_admission st' r (expected + 1) (Some (digest, version)) = Inr None"
      using no_future_cancellation [OF ok' r(1)] r(2) find_run_id [OF r(1)] by (simp add: cancelled_calendar_admission_def)
    moreover have "cw_proposal_version w = version" "cw_proposal_sha256 w = digest" "cw_status w \<noteq> W_cancelled"
      using w(1) by (auto simp: consented_def authorized_write_def)
    ultimately show ?thesis
      using confirmed_again [OF r(1) _ _ w(2) _ _ _ args] p w(3) by simp
  qed
qed

theorem confirmation_idempotent_witness:
  "\<exists>st' r. decide_automation_proposal sample_time (an_uuid 58) (an_uuid 59) 9000 (an_uuid 48) 4 1 (replicate 64 97)
     Confirm False st' = Inr (st', Run r) \<and> ar_state r = R_write_authorized"
  by (rule sample_decided_cases) (use confirmation_idempotent [OF sample_awaiting_ok] in blast)

section \<open>The extraction loop\<close>

definition rejected_first :: "calendar_store \<Rightarrow> pystr \<Rightarrow> bool" where
  "rejected_first st i \<longleftrightarrow> (\<exists>p\<in>set (cs_extractions st). xp_run_id p = i \<and> xp_attempt_no p = 1 \<and> xp_status p \<noteq> X_reserved)"

lemma record_transition_extractions:
  "record_transition race unreadable P f eid row s s' v failure note1 now st = Inr (st', r) \<Longrightarrow>
     cs_extractions st' = cs_extractions st"
  by (auto simp: record_transition_def op_Inr update_run_Inr append_automation_event_Inr)

lemma record_transition_state:
  assumes "record_transition race unreadable P f eid row s s' v failure note1 now st = Inr (st', r)"
    and "find_run st i = Some row" and "\<And>r. P r \<Longrightarrow> ar_run_id r = i" and "distinct (map ar_run_id (cs_runs st))"
    and "ar_run_id (f row) = ar_run_id row"
  shows "r = f row"
proof -
  obtain st1 where u: "update_run race P f st = Inr st1" and r: "find_run st1 (ar_run_id row) = Some r"
    using assms(1) by (auto simp: record_transition_def op_Inr append_automation_event_Inr find_run_def)
  have id: "ar_run_id row = i" using find_run_id [OF assms(2)] by simp
  have "find_run st1 i = map_option (\<lambda>r. if ar_run_id r = i then f row else r) (find_run st i)"
    using update_run_row [OF u assms(4,2,3)] assms(5) id unfolding find_run_def by (simp add: find_key_update)
  then show ?thesis using r assms(2) id by simp
qed

lemma record_again:
  assumes op: "record_automation_extraction env eid now i v x st = Inr (st', r)" and s: "ar_state r = R_extracting" and ok: "ledger_ok st"
  shows "\<exists>p\<in>set (cs_extractions st). xp_run_id p = i \<and> xp_attempt_no p = 1 \<and> xp_status p = X_reserved" "rejected_first st' i"
proof -
  obtain row p vj st1 note1 where run: "find_run st i = Some row" and p: "find_extraction st (xs_payload_id x) = Some p"
      "xp_run_id p = i" "xp_status p = X_reserved"
    and acc: "opt_all (\<lambda>s. s \<in> {R_proposing, R_manual_review, R_ambiguous}) (xs_accepted_state x)"
    and u: "update_extraction ''Automation extraction payload was not reserved''
          (\<lambda>p. xp_payload_id p = xs_payload_id x \<and> xp_run_id p = i \<and> xp_status p = X_reserved)
          (\<lambda>q. q\<lparr>xp_status := snd (snd (extraction_outcome x (xp_attempt_no p))), xp_result_sha256 := Some (xs_result_sha256 x),
                 xp_result_json := Some (xs_result_json x), xp_violations_json := Some vj,
                 xp_next_retry_at := None, xp_completed_at := Some now\<rparr>) st = Inr st1"
    and rt: "record_transition ''Automation extraction completion lost its expected-state race''
        ''Automation extraction result was not readable''
        (\<lambda>r. run_at i R_extracting v r \<and> ar_current_payload_id r = Some (xs_payload_id x))
        (\<lambda>r. r\<lparr>ar_state := fst (extraction_outcome x (xp_attempt_no p)), ar_state_version := v + 1,
               ar_failure_code := fst (snd (extraction_outcome x (xp_attempt_no p))),
               ar_current_payload_sha256 := Some (xs_result_sha256 x), ar_review_notified_at := None,
               ar_updated_at := now\<rparr>)
        eid row R_extracting (fst (extraction_outcome x (xp_attempt_no p))) (v + 1)
        (fst (snd (extraction_outcome x (xp_attempt_no p)))) note1 now st1 = Inr (st', r)"
    using op unfolding record_automation_extraction_def op_Inr case_prod_beta by blast
  have run1: "find_run st1 i = Some row" "distinct (map ar_run_id (cs_runs st1))"
    using run ledger_okD(1) [OF ok] update_extraction_frame [OF u] by (simp_all add: find_run_def)
  have "ar_state r = fst (extraction_outcome x (xp_attempt_no p))"
    using record_transition_state [OF rt run1(1) _ run1(2)] by (simp add: run_at_def)
  then have one: "xp_attempt_no p = 1" "fst (extraction_outcome x (xp_attempt_no p)) = R_extracting"
    using s extraction_outcome_states(4) [OF acc] by auto
  then have rej: "snd (snd (extraction_outcome x (xp_attempt_no p))) = X_rejected"
    using acc by (auto simp: extraction_outcome_def split: option.splits)
  have mem: "p \<in> set (cs_extractions st)" "xp_payload_id p = xs_payload_id x"
    using p(1) by (auto simp: find_extraction_def dest: find_key_Some)
  then show "\<exists>p\<in>set (cs_extractions st). xp_run_id p = i \<and> xp_attempt_no p = 1 \<and> xp_status p = X_reserved"
    using p one by blast
  let ?f = "\<lambda>q. q\<lparr>xp_status := X_rejected, xp_result_sha256 := Some (xs_result_sha256 x),
      xp_result_json := Some (xs_result_json x), xp_violations_json := Some vj, xp_next_retry_at := None, xp_completed_at := Some now\<rparr>"
  have "?f p \<in> set (cs_extractions st1)"
    using u [unfolded rej] mem p by (auto simp: update_extraction_Inr intro!: update_where_mem)
  then have "?f p \<in> set (cs_extractions st')" using record_transition_extractions [OF rt] by simp
  then show "rejected_first st' i"
    unfolding rejected_first_def by (rule bexI [rotated]) (simp add: p one)
qed

lemma reserve_keeps_extractions:
  assumes "reserve_automation_extraction env pid rid eid now i v x st = Inr (st', p)"
  shows "set (cs_extractions st) \<subseteq> set (cs_extractions st')"
proof -
  have "st' = st \<or> (\<exists>row attempt. reserve_new_extraction pid rid eid now i v x row attempt st = Inr (st', p))"
    using assms unfolding reserve_automation_extraction_def Let_def op_Inr
    by (elim exE conjE) (auto simp: op_Inr split: if_splits)
  then show ?thesis
    by (auto simp: reserve_new_extraction_def Let_def op_Inr insert_extraction_def update_run_Inr
        append_automation_event_Inr split: if_splits)
qed

lemma turn_again:
  assumes t: "extraction_turn env x ids answer current st = Inr (Turn_again st' cur)" and ok: "ledger_ok st"
  shows "ledger_ok st'" "rejected_first st' (ar_run_id current)" "\<not> rejected_first st (ar_run_id current)"
    "ar_run_id cur = ar_run_id current"
proof -
  let ?i = "ar_run_id current"
  obtain st1 p v res where r: "reserve_automation_extraction env (ti_payload ids) (ti_request ids) (ti_event ids) (ti_now ids) ?i
      (ar_state_version current) x st = Inr (st1, p)"
    and rec: "record_automation_extraction env (ti_event2 ids) (ti_now ids) ?i v res st1 = Inr (st', cur)"
    and s: "ar_state cur = R_extracting"
    using t unfolding extraction_turn_def Let_def
    by (auto simp: andThen_Inr split: sum.splits prod.splits option.splits if_splits err.splits)
  note ok1 = advances_ledger_ok [OF reserve_advances [OF r ok] ok]
  have c: "commits_at st1 st' ?i v R_extracting cur" using record_extraction_commits [OF rec ok1] by auto
  show "ledger_ok st'" using c commits_ledger_ok [OF ok1] by (auto simp: commits_at_def)
  show "rejected_first st' ?i" by (rule record_again(2) [OF rec s ok1])
  show "ar_run_id cur = ?i" using commits_at_after [OF c] find_run_id by blast
  obtain q where q: "q \<in> set (cs_extractions st1)" "xp_run_id q = ?i" "xp_attempt_no q = 1" "xp_status q = X_reserved"
    using record_again(1) [OF rec s ok1] by blast
  show "\<not> rejected_first st ?i"
  proof
    assume "rejected_first st ?i"
    then obtain p' where "p' \<in> set (cs_extractions st1)" "xp_run_id p' = ?i" "xp_attempt_no p' = 1" "xp_status p' \<noteq> X_reserved"
      using reserve_keeps_extractions [OF r] by (auto simp: rejected_first_def)
    then show False
      using q distinct_key_eq [of "\<lambda>p. (xp_run_id p, xp_attempt_no p)" "cs_extractions st1" p' q] ledger_okD(4) [OF ok1]
      by (auto simp: extractions_ok_def)
  qed
qed

text \<open>
  C10: The extraction loop of a scheduling run ends after at most two turns, whatever the model
  answers and whatever the run has been through: the second answer that fails validation sends the
  run to review, so no run can keep asking the model.
\<close>

theorem extraction_loop_ends:
  assumes "ledger_ok st"
  shows "\<exists>res. extraction_loop 2 env x ids answers n current st = Some res"
proof -
  have "extraction_turn env x ids2 answer2 cur st' \<noteq> Inr (Turn_again st2 cur2)"
    if "extraction_turn env x ids1 answer1 current st = Inr (Turn_again st' cur)" for ids1 answer1 st' cur ids2 answer2 st2 cur2
    using turn_again [OF that assms] turn_again(3) [of env x ids2 answer2 cur st' st2 cur2] by auto
  then show ?thesis
    by (auto simp: numeral_2_eq_2 split: sum.splits turn_result.splits)
qed

theorem extraction_loop_ends_witness:
  "\<exists>res. extraction_loop 2 digest_env \<lparr>xr_source_content_sha256 = replicate 64 99, xr_context_at = [99], xr_timezone = [122],
       xr_body_char_limit = 10, xr_organizer_address = [111]\<rparr>
     (\<lambda>n. \<lparr>ti_payload = an_uuid (60 + n), ti_request = an_uuid (70 + n), ti_event = an_uuid (80 + n), ti_event2 = an_uuid (90 + n), ti_now = 5\<rparr>)
     (\<lambda>n. Extracted (replicate 64 97) [123, 125] [([99], [112])] New_meeting) 0 (sample_run R_detected 1) sample_detected = Some res"
  by (rule extraction_loop_ends [OF sample_detected_ok])

section \<open>A source problem that cannot be stored\<close>

text \<open>
  C11: Moving a run to \<open>source_unavailable\<close> with any other failure code always raises: the CHECK of
  \<open>automation_runs\<close> admits only \<open>source_unavailable\<close> there. \<open>process_scheduling_automations\<close> does
  exactly this with \<open>mailbox_identity_unverified\<close>, so the scheduling pass ends in an exception
  and the run stays where it was, to fail the next pass again.
\<close>

theorem source_problem_code_raises:
  assumes ok: "ledger_ok st" and run: "find_run st i = Some r" and s: "ar_state r \<in> {R_detected, R_extracting}"
    and code: "code \<noteq> lit ''source_unavailable''"
  shows "transition_source_problem eid now i R_source_unavailable code st = Inl (IntegrityError ''automation_runs'')"
proof -
  have id: "ar_run_id r = i" "r \<in> set (cs_runs st)" using find_run_id [OF run] by auto
  let ?P = "run_at i (ar_state r) (ar_state_version r)"
  have "?P r" using id by (simp add: run_at_def)
  then have "count_where ?P (cs_runs st) = 1"
    using count_where_key_1_iff [OF ledger_okD(1) [OF ok], of ?P i] id by (auto simp: run_at_def)
  moreover have "exists_where (\<lambda>x. ?P x \<and> \<not> automation_run_check (x\<lparr>ar_state := R_source_unavailable,
      ar_state_version := ar_state_version r + 1, ar_failure_code := Some code, ar_review_notified_at := None, ar_updated_at := now\<rparr>)) (cs_runs st)"
    using id \<open>?P r\<close> code by (auto simp: exists_where_iff automation_run_check_def)
  ultimately show ?thesis
    using run s by (auto simp: transition_source_problem_def transition_automation_to_review_def Let_def record_transition_def
        update_run_def checked_update_def)
qed

theorem source_problem_code_raises_witness:
  "transition_source_problem (an_uuid 99) 5 (an_uuid 48) R_source_unavailable (lit ''mailbox_identity_unverified'') sample_detected
     = Inl (IntegrityError ''automation_runs'')"
  by (rule source_problem_code_raises [OF sample_detected_ok, of _ "sample_run R_detected 1"])
    (simp_all add: sample_detected_def sample_calendar_def find_run_def)

section \<open>Proposal versions\<close>

text \<open>
  The version a new proposal of a run gets is one more than the number of proposals its log
  records, also after payloads and cancelled writes were deleted: a version is never used again
  for another proposal while the run exists.
\<close>

theorem proposal_versions_count_the_log:
  assumes "ledger_ok st" and "find_run st i = Some r"
  shows "next_proposal_version st i = calendar_proposal_generation st i None + 1
     \<and> list_all (\<lambda>p. pp_proposal_version p < next_proposal_version st i) (run_proposals st i)"
  using next_proposal_version_eq [OF assms] generation_run_events [of st i] ledger_okD(5) [OF assms(1), of i] assms(2)
  by (auto simp: run_ok_def list_all_iff)

theorem proposal_versions_count_the_log_witness:
  "next_proposal_version sample_awaiting (an_uuid 48) = calendar_proposal_generation sample_awaiting (an_uuid 48) None + 1"
  using proposal_versions_count_the_log [OF sample_awaiting_ok, of "an_uuid 48" "sample_run R_awaiting_confirmation 4"]
  by (simp add: sample_awaiting_def sample_calendar_def find_run_def)

section \<open>Reconciliation\<close>

definition fresh_event :: "calendar_store \<Rightarrow> pystr \<Rightarrow> bool" where
  "fresh_event st eid \<longleftrightarrow> length eid = 36 \<and> \<not> exists_where (\<lambda>e. ae_event_id e = eid) (cs_events st)"

lemma run_event_versions:
  assumes ok: "ledger_ok st" and run: "find_run st i = Some r" and e: "e \<in> set (cs_events st)" "ae_run_id e = i"
  shows "ae_state_version e \<le> ar_state_version r \<and> ae_sequence_no e < ar_state_version r"
proof -
  have "ae_state_version e \<le> ar_state_version r"
    using ledger_okD(5) [OF ok, of i] run e replay_versions [of "run_events st i" _ _ e] by (auto simp: run_ok_def run_events_def)
  moreover have "ae_state_version e = ae_sequence_no e + 1"
    using ok e(1) by (auto simp: ledger_ok_def keys_ok_def list_all_iff automation_event_check_def)
  ultimately show ?thesis by simp
qed

lemma append_event_ok:
  assumes ok: "ledger_ok st" and run: "find_run st i = Some r" and st: "cs_events st1 = cs_events st" and fresh: "fresh_event st eid"
    and chk: "automation_event_check (event_row eid r p s' (ar_state_version r + 1) code note1 now)"
  shows "is_ok (append_automation_event eid r p s' (ar_state_version r + 1) code note1 now st1)"
proof -
  have "ar_run_id r = i" using find_run_id [OF run] by simp
  then show ?thesis
    using run_event_versions [OF ok run] fresh chk st
    by (force simp: append_automation_event_def Let_def exists_where_iff fresh_event_def event_row_def)
qed

lemma checked_rows:
  assumes "ledger_ok st"
  shows "find_run st i = Some r \<Longrightarrow> automation_run_check r" "find_write st i = Some w \<Longrightarrow> automation_write_check w"
  using assms by (auto simp: ledger_ok_def keys_ok_def list_all_iff dest: find_run_id find_write_id)

lemma settle_write_ok:
  assumes ok: "ledger_ok st" and run: "find_run st i = Some r" and w: "find_write st i = Some w"
    and allowed: "write_transition_allowed (ar_state r) s'" and out: "check_write_outcome s' code g = Inr failure"
    and fresh: "fresh_event st eid"
  shows "\<exists>st' r'. transition_automation_calendar_write eid now i (ar_state_version r) s' code g st = Inr (st', r')"
proof -
  let ?g = "\<lambda>x. x\<lparr>cw_status := status_of_state s', cw_graph_event_id := g, cw_failure_code := failure,
      cw_completed_at := (if s' = R_completed then Some now else None), cw_updated_at := now\<rparr>"
  let ?f = "\<lambda>r'. r'\<lparr>ar_state := s', ar_state_version := ar_state_version r + 1, ar_failure_code := failure,
      ar_review_notified_at := None, ar_updated_at := now\<rparr>"
  let ?Q = "\<lambda>x. cw_run_id x = i \<and> cw_status x = cw_status w" and ?P = "run_at i (ar_state r) (ar_state_version r)"
  have ids: "ar_run_id r = i" "r \<in> set (cs_runs st)" "cw_run_id w = i" "w \<in> set (cs_writes st)"
    using find_run_id [OF run] find_write_id [OF w] by auto
  have s': "s' \<in> {R_completed, R_failed, R_unresolved, R_reconciling}"
    using allowed by (cases "ar_state r") auto
  have cw: "count_where ?Q (cs_writes st) = 1"
    using count_where_key_1_iff [OF ledger_okD(2) [OF ok], of ?Q i] ids by auto
  have cr: "count_where ?P (cs_runs st) = 1"
    using count_where_key_1_iff [OF ledger_okD(1) [OF ok], of ?P i] ids by (auto simp: run_at_def)
  have wc: "automation_write_check (?g x)" if "automation_write_check x" for x
    using that out s' by (auto simp: automation_write_check_def check_write_outcome_def utf8_at_most_def split: if_splits option.splits)
  have rc: "automation_run_check (?f x)" if "automation_run_check x" for x
    using that s' checked_rows(1) [OF ok run] by (auto simp: automation_run_check_def)
  have u1: "update_write msg ?Q ?g st = Inr (st\<lparr>cs_writes := update_where ?Q ?g (cs_writes st)\<rparr>)" for msg
    using cw wc ok by (auto simp: update_write_Inr ledger_ok_def keys_ok_def list_all_iff)
  let ?st1 = "st\<lparr>cs_writes := update_where ?Q ?g (cs_writes st)\<rparr>"
  have u2: "update_run msg ?P ?f ?st1 = Inr (?st1\<lparr>cs_runs := update_where ?P ?f (cs_runs st)\<rparr>)" for msg
    using cr rc ok by (auto simp: update_run_Inr ledger_ok_def keys_ok_def list_all_iff)
  let ?note = "no_note\<lparr>en_payload_id := ar_current_payload_id r, en_payload_sha256 := ar_current_payload_sha256 r,
      en_transaction_id := Some (cw_transaction_id w), en_graph_event_id := g\<rparr>"
  have "automation_event_check (event_row eid r (Some (ar_state r)) s' (ar_state_version r + 1) failure ?note now)"
    using checked_rows(1) [OF ok run] checked_rows(2) [OF ok w] ids s' fresh out
    by (auto simp: automation_event_check_def event_row_def no_note_def automation_run_check_def automation_write_check_def
        fresh_event_def check_write_outcome_def utf8_at_most_def split: if_splits option.splits)
  from append_event_ok [OF ok run _ fresh this, of "?st1\<lparr>cs_runs := update_where ?P ?f (cs_runs st)\<rparr>"]
  obtain st2 where a: "append_automation_event eid r (Some (ar_state r)) s' (ar_state_version r + 1) failure ?note now
      (?st1\<lparr>cs_runs := update_where ?P ?f (cs_runs st)\<rparr>) = Inr st2"
    by (auto simp: is_ok_iff)
  have "find_run st2 i = map_option (\<lambda>x. if ?P x then ?f x else x) (find_run st i)"
    using a unfolding append_automation_event_Inr find_run_def by (simp add: find_key_update run_at_def)
  then show ?thesis
    using run w allowed out u1 u2 a ids by (simp add: transition_automation_calendar_write_def record_transition_def)
qed

text \<open>
  C9: An unresolved write is not lost: when Graph finds the event of its transaction, one turn of
  the scheduler completes the run. It makes no request to create an event, moves the run through
  \<open>reconciling\<close> to \<open>completed\<close>, two versions on, and keeps the event's id under the same transaction.
\<close>

theorem reconciliation_completes:
  assumes ok: "ledger_ok st" and run: "find_run st i = Some r" and s: "ar_state r = R_unresolved" and w: "find_write st i = Some w"
    and k: "ww_run k = r" "ww_write k = w" and access: "gr_access g r"
    and found: "gr_find g (cw_transaction_id w) = Found ev" "ev \<noteq> []" "within_utf8_bytes ev 512"
    and ids: "gr_ev g i = (e1, e2)" "e1 \<noteq> e2" "fresh_event st e1" "fresh_event st e2"
  shows "\<exists>st' w'. process_write_item env g k st = (st', [], None)
     \<and> status_of st' i = Some (R_completed, ar_state_version r + 2)
     \<and> find_write st' i = Some w' \<and> cw_transaction_id w' = cw_transaction_id w \<and> cw_graph_event_id w' = Some ev"
proof -
  have id: "ar_run_id r = i" using find_run_id [OF run] by simp
  have "write_transition_allowed (ar_state r) R_reconciling" "check_write_outcome R_reconciling None None = Inr None"
    using s by (simp_all add: check_write_outcome_def)
  from settle_write_ok [OF ok run w this ids(3), of "gr_now g"] obtain st1 r1 where
    t1: "transition_automation_calendar_write e1 (gr_now g) i (ar_state_version r) R_reconciling None None st = Inr (st1, r1)" by blast
  obtain s1 where c1: "commits_at st st1 i (ar_state_version r) s1 r1" and r1: "ar_state r1 = R_reconciling"
    using transition_write_commits [OF t1 ok] by auto
  have ok1: "ledger_ok st1" using c1 commits_ledger_ok [OF ok] by (auto simp: commits_at_def)
  have run1: "find_run st1 i = Some r1" "ar_state_version r1 = ar_state_version r + 1" using commits_at_after [OF c1] by auto
  have ev1: "\<exists>e. cs_events st1 = cs_events st @ [e] \<and> ae_event_id e = e1"
    using t1 unfolding transition_automation_calendar_write_def record_transition_def op_Inr
    by (auto simp: op_Inr update_write_Inr update_run_Inr append_automation_event_Inr event_row_def)
  obtain w1 where w1: "find_write st1 i = Some w1" "cw_transaction_id w1 = cw_transaction_id w"
    using advance_handed_off [OF commits_at_advance [OF c1] ok w run] s by (auto simp: handed_off_def same_grant_def)
  have "fresh_event st1 e2" using ev1 ids by (auto simp: fresh_event_def exists_where_iff)
  moreover have "write_transition_allowed (ar_state r1) R_completed" "check_write_outcome R_completed None (Some ev) = Inr None"
    using r1 found by (simp_all add: check_write_outcome_def)
  ultimately obtain st2 r2 where
    t2: "transition_automation_calendar_write e2 (gr_now g) i (ar_state_version r1) R_completed None (Some ev) st1 = Inr (st2, r2)"
    using settle_write_ok [OF ok1 run1(1) w1(1)] by blast
  obtain s2 w2 where c2: "commits_at st1 st2 i (ar_state_version r1) s2 r2" and r2: "ar_state r2 = R_completed"
    and w2: "find_write st2 i = Some w2" "cw_graph_event_id w2 = Some ev"
    using transition_write_commits [OF t2 ok1] by auto
  have tx: "cw_transaction_id w2 = cw_transaction_id w"
    using advance_handed_off [OF commits_at_advance [OF c2] ok1 w1(1) run1(1)] r1 w1(2) w2(1) by (auto simp: handed_off_def same_grant_def)
  have "process_write_item env g k st = (st2, [], None)"
    using run s k access found(1) ids(1) t1 t2 id
    by (simp add: process_write_item_def reconcile_write_def finish_write_def Let_def)
  moreover have "status_of st2 i = Some (R_completed, ar_state_version r + 2)"
    using commits_at_after [OF c2] r2 run1(2) by (auto simp: status_of_def)
  ultimately show ?thesis using w2 tx by blast
qed

definition sample_graph :: graph where
  "sample_graph = \<lparr>gr_access = (\<lambda>r. True), gr_create = (\<lambda>tx. Create_error), gr_find = (\<lambda>tx. Found [103]),
     gr_ev = (\<lambda>i. (an_uuid 65, an_uuid 66)), gr_now = 6\<rparr>"

theorem reconciliation_completes_witness:
  "\<exists>st' w'. process_write_item digest_env sample_graph
       \<lparr>ww_run = sample_run R_unresolved 7, ww_proposal = None, ww_write = sample_write W_unresolved\<rparr> sample_unresolved = (st', [], None)
     \<and> status_of st' (an_uuid 48) = Some (R_completed, 9)
     \<and> find_write st' (an_uuid 48) = Some w' \<and> cw_transaction_id w' = an_uuid 56 \<and> cw_graph_event_id w' = Some [103]"
proof -
  have "within_utf8_bytes [103] 512" by code_simp
  then show ?thesis
    using reconciliation_completes [OF sample_unresolved_ok, of "an_uuid 48" "sample_run R_unresolved 7" "sample_write W_unresolved"
        "\<lparr>ww_run = sample_run R_unresolved 7, ww_proposal = None, ww_write = sample_write W_unresolved\<rparr>" sample_graph "[103]"
        "an_uuid 65" "an_uuid 66" digest_env]
    by (simp add: sample_graph_def sample_unresolved_def sample_calendar_def find_run_def find_write_def fresh_event_def
        exists_where_def event_row_def)
qed

end
