(* ===== verification/Json_Parse.thy ===== *)
theory Json_Parse
  imports Json
begin

text \<open>
  \<open>json.loads\<close> on bytes, as the standard library's C scanner reads them, and its round trip with
  \<open>json.dumps\<close>. A failure is \<open>None\<close> (\<open>JSONDecodeError\<close> or \<open>UnicodeDecodeError\<close>). The parser's fuel
  is the length of the text, which bounds its nesting; the interpreter's recursion limit and its
  limit on the digits of an integer are not modelled.
\<close>

section \<open>Text of a document\<close>

text \<open>\<open>bytes.decode("utf-8", "surrogatepass")\<close>\<close>

fun utf8_decode_pass :: "bytes \<Rightarrow> pystr option" where
  "utf8_decode_pass [] = Some []"
| "utf8_decode_pass (b # bs) =
     (case utf8_sequence b bs of
        Some (c, n) \<Rightarrow> map_option (Cons c) (utf8_decode_pass (drop n bs))
      | None \<Rightarrow>
          (case bs of
             c1 # c2 # rest \<Rightarrow>
               if b = 237 \<and> 160 \<le> c1 \<and> c1 < 192 \<and> continuation c2
               then map_option (Cons (53248 + (c1 - 128) * 64 + (c2 - 128))) (utf8_decode_pass rest) else None
           | _ \<Rightarrow> None))"

text \<open>
  \<open>json.detect_encoding\<close> answers \<open>utf-8\<close>: neither a byte order mark nor a zero among the first two
  bytes says otherwise.
\<close>

definition plain_utf8 :: "bytes \<Rightarrow> bool" where
  "plain_utf8 bs \<longleftrightarrow>
     take 3 bs \<noteq> [239, 187, 191] \<and> take 2 bs \<noteq> [255, 254] \<and> take 2 bs \<noteq> [254, 255] \<and> take 4 bs \<noteq> [0, 0, 254, 255]
     \<and> (4 \<le> length bs \<or> length bs = 2 \<longrightarrow> 0 \<notin> set (take 2 bs))"

section \<open>Scanner\<close>

definition is_ws :: "nat \<Rightarrow> bool" where
  "is_ws c \<longleftrightarrow> c = 32 \<or> c = 9 \<or> c = 10 \<or> c = 13"

definition skip_ws :: "pystr \<Rightarrow> pystr" where
  "skip_ws = dropWhile is_ws"

definition hex_value :: "nat \<Rightarrow> nat option" where
  "hex_value c =
     (if 48 \<le> c \<and> c \<le> 57 then Some (c - 48) else if 97 \<le> c \<and> c \<le> 102 then Some (c - 87)
      else if 65 \<le> c \<and> c \<le> 70 then Some (c - 55) else None)"

definition hex4_value :: "nat \<Rightarrow> nat \<Rightarrow> nat \<Rightarrow> nat \<Rightarrow> nat option" where
  "hex4_value a b c d =
     (case (hex_value a, hex_value b, hex_value c, hex_value d) of
        (Some w, Some x, Some y, Some z) \<Rightarrow> Some (((w * 16 + x) * 16 + y) * 16 + z)
      | _ \<Rightarrow> None)"

definition short_escape :: "nat \<Rightarrow> nat option" where
  "short_escape e =
     (if e = 34 \<or> e = 92 \<or> e = 47 then Some e else if e = 98 then Some 8 else if e = 102 then Some 12
      else if e = 110 then Some 10 else if e = 114 then Some 13 else if e = 116 then Some 9 else None)"

definition high_surrogate :: "nat \<Rightarrow> bool" where "high_surrogate u \<longleftrightarrow> 55296 \<le> u \<and> u < 56320"

definition low_surrogate :: "nat \<Rightarrow> bool" where "low_surrogate u \<longleftrightarrow> 56320 \<le> u \<and> u < 57344"

definition with_char :: "nat \<Rightarrow> (pystr \<times> pystr) option \<Rightarrow> (pystr \<times> pystr) option" where
  "with_char c r = map_option (\<lambda>(s, rest). (c # s, rest)) r"

text \<open>The text after an opening quote: the string and what follows its closing quote.\<close>

fun parse_string :: "pystr \<Rightarrow> (pystr \<times> pystr) option" where
  "parse_string [] = None"
| "parse_string (c # cs) =
     (if c = 34 then Some ([], cs)
      else if c < 32 then None
      else if c \<noteq> 92 then with_char c (parse_string cs)
      else
        (case cs of
           [] \<Rightarrow> None
         | e # cs1 \<Rightarrow>
             if e \<noteq> 117 then (case short_escape e of None \<Rightarrow> None | Some x \<Rightarrow> with_char x (parse_string cs1))
             else
               (case cs1 of
                  h1 # h2 # h3 # h4 # cs2 \<Rightarrow>
                    (case hex4_value h1 h2 h3 h4 of
                       None \<Rightarrow> None
                     | Some u \<Rightarrow>
                         (case cs2 of
                            b # v # l1 # l2 # l3 # l4 # cs3 \<Rightarrow>
                              if high_surrogate u \<and> b = 92 \<and> v = 117 then
                                (case hex4_value l1 l2 l3 l4 of
                                   None \<Rightarrow> None
                                 | Some l \<Rightarrow>
                                     if low_surrogate l
                                     then with_char (65536 + (u - 55296) * 1024 + (l - 56320)) (parse_string cs3)
                                     else with_char u (parse_string cs2))
                              else with_char u (parse_string cs2)
                          | _ \<Rightarrow> with_char u (parse_string cs2)))
                | _ \<Rightarrow> None)))"

declare parse_string.simps(2) [simp del]

definition is_digit :: "nat \<Rightarrow> bool" where "is_digit c \<longleftrightarrow> 48 \<le> c \<and> c \<le> 57"

definition decimal_value :: "pystr \<Rightarrow> nat" where
  "decimal_value ds = foldl (\<lambda>n c. n * 10 + (c - 48)) 0 ds"

text \<open>The fraction and the exponent after the integer part, with what follows.\<close>

definition number_tail :: "pystr \<Rightarrow> pystr \<times> pystr" where
  "number_tail s =
     (let (frac, s1) = (case s of
            p # d # _ \<Rightarrow> if p = 46 \<and> is_digit d
              then (46 # takeWhile is_digit (tl s), dropWhile is_digit (tl s)) else ([], s)
          | _ \<Rightarrow> ([], s)) in
      (case s1 of
         e # s2 \<Rightarrow>
           if e = 101 \<or> e = 69 then
             (let sign = takeWhile (\<lambda>c. c = 43 \<or> c = 45) (take 1 s2); s3 = drop (length sign) s2 in
              if takeWhile is_digit s3 \<noteq> []
              then (frac @ e # sign @ takeWhile is_digit s3, dropWhile is_digit s3) else (frac, s1))
           else (frac, s1)
       | [] \<Rightarrow> (frac, s1)))"

text \<open>A number without its sign; \<open>sign\<close> is \<open>[]\<close> or the minus that was read.\<close>

definition parse_number :: "pystr \<Rightarrow> pystr \<Rightarrow> (json \<times> pystr) option" where
  "parse_number sign s =
     (case s of
        [] \<Rightarrow> None
      | c # cs \<Rightarrow>
          if \<not> is_digit c then None
          else
            (let (ds, s1) = (if c = 48 then ([48], cs) else (takeWhile is_digit s, dropWhile is_digit s));
                 (tail, rest) = number_tail s1 in
             Some (if tail = [] then JInt (if sign = [] then int (decimal_value ds) else - int (decimal_value ds))
                   else JFloat (sign @ ds @ tail), rest)))"

definition dict_of_pairs :: "(pystr \<times> json) list \<Rightarrow> (pystr \<times> json) list" where
  "dict_of_pairs ps = foldl (\<lambda>d (k, v). dict_put k v d) [] ps"

text \<open>The literals, among them the three that are not JSON.\<close>

definition literals :: "(pystr \<times> json) list" where
  "literals = [(lit ''null'', JNull), (lit ''true'', JBool True), (lit ''false'', JBool False),
     (lit ''NaN'', JFloat (lit ''NaN'')), (lit ''Infinity'', JFloat (lit ''Infinity'')),
     (lit ''-Infinity'', JFloat (lit ''-Infinity''))]"

fun parse_literal :: "(pystr \<times> json) list \<Rightarrow> pystr \<Rightarrow> (json \<times> pystr) option" where
  "parse_literal [] s = None"
| "parse_literal ((w, v) # ls) s =
     (if take (length w) s = w then Some (v, drop (length w) s) else parse_literal ls s)"

definition parse_scalar :: "pystr \<Rightarrow> (json \<times> pystr) option" where
  "parse_scalar s =
     (case parse_literal literals s of
        Some r \<Rightarrow> Some r
      | None \<Rightarrow>
          (case s of
             [] \<Rightarrow> None
           | c # cs \<Rightarrow>
               if c = 34 then map_option (\<lambda>(t, rest). (JStr t, rest)) (parse_string cs)
               else if c = 45 then parse_number [45] cs else parse_number [] s))"

text \<open>
  \<open>parse_items\<close> reads from the first element of an array to its bracket, \<open>parse_pairs\<close> from the first
  key of an object to its brace.
\<close>

fun parse_value :: "nat \<Rightarrow> pystr \<Rightarrow> (json \<times> pystr) option"
  and parse_items :: "nat \<Rightarrow> pystr \<Rightarrow> (json list \<times> pystr) option"
  and parse_pairs :: "nat \<Rightarrow> pystr \<Rightarrow> ((pystr \<times> json) list \<times> pystr) option" where
  "parse_value 0 s = None"
| "parse_value (Suc n) s =
     (case s of
        [] \<Rightarrow> None
      | c # cs \<Rightarrow>
          if c = 91 then
            (if take 1 (skip_ws cs) = [93] then Some (JList [], tl (skip_ws cs))
             else map_option (\<lambda>(vs, rest). (JList vs, rest)) (parse_items n (skip_ws cs)))
          else if c = 123 then
            (if take 1 (skip_ws cs) = [125] then Some (JObj [], tl (skip_ws cs))
             else map_option (\<lambda>(ps, rest). (JObj (dict_of_pairs ps), rest)) (parse_pairs n (skip_ws cs)))
          else parse_scalar s)"
| "parse_items 0 s = None"
| "parse_items (Suc n) s =
     (case parse_value n s of
        None \<Rightarrow> None
      | Some (v, s1) \<Rightarrow>
          (case skip_ws s1 of
             [] \<Rightarrow> None
           | c # s2 \<Rightarrow>
               if c = 93 then Some ([v], s2)
               else if c = 44 then map_option (\<lambda>(vs, rest). (v # vs, rest)) (parse_items n (skip_ws s2)) else None))"
| "parse_pairs 0 s = None"
| "parse_pairs (Suc n) s =
     (case s of
        [] \<Rightarrow> None
      | q # cs \<Rightarrow>
          if q \<noteq> 34 then None
          else
            (case parse_string cs of
               None \<Rightarrow> None
             | Some (k, s1) \<Rightarrow>
                 (case skip_ws s1 of
                    [] \<Rightarrow> None
                  | c # s2 \<Rightarrow>
                      if c \<noteq> 58 then None
                      else
                        (case parse_value n (skip_ws s2) of
                           None \<Rightarrow> None
                         | Some (v, s3) \<Rightarrow>
                             (case skip_ws s3 of
                                [] \<Rightarrow> None
                              | e # s4 \<Rightarrow>
                                  if e = 125 then Some ([(k, v)], s4)
                                  else if e = 44
                                  then map_option (\<lambda>(ps, rest). ((k, v) # ps, rest)) (parse_pairs n (skip_ws s4))
                                  else None)))))"

definition loads_text :: "pystr \<Rightarrow> json option" where
  "loads_text s =
     (case parse_value (Suc (length s)) (skip_ws s) of
        None \<Rightarrow> None
      | Some (v, rest) \<Rightarrow> if skip_ws rest = [] then Some v else None)"

text \<open>\<open>wide\<close> decodes the documents that are not plain UTF-8.\<close>

definition loads :: "(bytes \<Rightarrow> pystr option) \<Rightarrow> bytes \<Rightarrow> json option" where
  "loads wide bs =
     (case (if plain_utf8 bs then utf8_decode_pass bs else wide bs) of
        None \<Rightarrow> None
      | Some s \<Rightarrow> loads_text s)"

section \<open>Printing and parsing\<close>

text \<open>What a document becomes on its way through the canonical text: the items of its objects sorted.\<close>

fun canon :: "json \<Rightarrow> json" where
  "canon (JList xs) = JList (map canon xs)"
| "canon (JObj items) = JObj (sort_key fst (map (\<lambda>(k, v). (k, canon v)) items))"
| "canon v = v"

text \<open>Documents without floats and with distinct keys.\<close>

fun json_ok :: "json \<Rightarrow> bool" where
  "json_ok (JList xs) = list_all json_ok xs"
| "json_ok (JObj items) = (distinct (map fst items) \<and> list_all (\<lambda>(k, v). json_ok v) items)"
| "json_ok (JFloat t) = False"
| "json_ok v = True"

lemma parse_string_plain: "32 \<le> c \<Longrightarrow> c \<noteq> 34 \<Longrightarrow> c \<noteq> 92 \<Longrightarrow> parse_string (c # t) = with_char c (parse_string t)"
  by (simp add: parse_string.simps)

lemma hex_value_digit: "n < 16 \<Longrightarrow> hex_value (hex_digit n) = Some n"
  by (auto simp: hex_value_def hex_digit_def)

lemma parse_string_unicode:
  assumes "hex4_value a b c d = Some u" and "\<not> high_surrogate u"
  shows "parse_string (92 # 117 # a # b # c # d # t) = with_char u (parse_string t)"
  using assms by (auto simp: parse_string.simps(2) [of 92] split: list.splits)

lemma parse_string_short:
  "short_escape e = Some x \<Longrightarrow> e \<noteq> 117 \<Longrightarrow> parse_string (92 # e # t) = with_char x (parse_string t)"
  by (simp add: parse_string.simps(2) [of 92])

lemma hex4_value_small: "c < 65536 \<Longrightarrow> hex4_value (hex_digit (c div 4096 mod 16)) (hex_digit (c div 256 mod 16))
    (hex_digit (c div 16 mod 16)) (hex_digit (c mod 16)) = Some c"
proof -
  assume c: "c < 65536"
  have m: "c div 4096 mod 16 = c div 4096" using c by simp
  moreover have "c div 256 = c div 16 div 16" "c div 4096 = c div 16 div 16 div 16" by (simp_all add: div_mult2_eq [symmetric])
  ultimately have "((c div 4096 mod 16 * 16 + c div 256 mod 16) * 16 + c div 16 mod 16) * 16 + c mod 16 = c"
    using div_mult_mod_eq [of c 16] div_mult_mod_eq [of "c div 16" 16] div_mult_mod_eq [of "c div 16 div 16" 16] by simp
  then show ?thesis
    using m hex_value_digit [of "c div 4096"] c by (simp add: hex4_value_def hex_value_digit)
qed

lemma parse_string_escape: "parse_string (escape_char False c @ t) = with_char c (parse_string t)"
proof (cases "c < 32")
  case True
  then have h: "parse_string (hex4 c @ t) = with_char c (parse_string t)"
    using parse_string_unicode [OF hex4_value_small [of c]] by (simp add: hex4_def high_surrogate_def)
  show ?thesis
    using True h by (auto simp: escape_char_def parse_string_short short_escape_def)
next
  case False
  then show ?thesis
    by (auto simp: escape_char_def parse_string_plain parse_string_short short_escape_def)
qed

lemma parse_string_dumps: "parse_string (concat (map (escape_char False) s) @ 34 # rest) = Some (s, rest)"
  by (induction s) (simp_all add: parse_string.simps(2) [of 34] parse_string_escape with_char_def)

lemma nat_digits_simps: "n < 10 \<Longrightarrow> nat_digits n = [48 + n]" "10 \<le> n \<Longrightarrow> nat_digits n = nat_digits (n div 10) @ [48 + n mod 10]"
  by (simp_all add: nat_digits.simps [of n])

lemma nat_digits_are_digits: "list_all is_digit (nat_digits n) \<and> nat_digits n \<noteq> []"
proof (induction n rule: nat_digits.induct)
  case (1 n)
  then show ?case
    by (cases "n < 10") (auto simp: nat_digits_simps is_digit_def)
qed

lemma decimal_value_snoc: "decimal_value (ds @ [c]) = decimal_value ds * 10 + (c - 48)"
  by (simp add: decimal_value_def)

lemma decimal_value_nat_digits: "decimal_value (nat_digits n) = n"
proof (induction n rule: nat_digits.induct)
  case (1 n)
  then show ?case
    by (cases "n < 10") (simp_all add: nat_digits_simps decimal_value_snoc, simp add: decimal_value_def)
qed

lemma nat_digits_hd: "0 < n \<Longrightarrow> hd (nat_digits n) \<noteq> 48"
proof (induction n rule: nat_digits.induct)
  case (1 n)
  then show ?case
    using nat_digits_are_digits [of "n div 10"] by (cases "n < 10") (auto simp: nat_digits_simps hd_append)
qed

definition ends_value :: "pystr \<Rightarrow> bool" where
  "ends_value rest \<longleftrightarrow> rest = [] \<or> hd rest \<in> {44, 93, 125}"

lemma number_tail_end: "ends_value rest \<Longrightarrow> number_tail rest = ([], rest)"
  by (cases rest) (auto simp: number_tail_def ends_value_def Let_def split: list.splits)

lemma parse_number_digits:
  assumes "ends_value rest"
  shows "parse_number sign (nat_digits n @ rest) = Some (JInt (if sign = [] then int n else - int n), rest)"
proof -
  have ds: "list_all is_digit (nat_digits n)" "nat_digits n \<noteq> []" using nat_digits_are_digits by auto
  have r: "rest = [] \<or> \<not> is_digit (hd rest)" using assms by (auto simp: ends_value_def is_digit_def)
  obtain c cs where n: "nat_digits n = c # cs" using ds(2) by (cases "nat_digits n") auto
  have tw: "takeWhile is_digit (nat_digits n @ rest) = nat_digits n" "dropWhile is_digit (nat_digits n @ rest) = rest"
    using ds(1) r by (cases rest; auto simp: list_all_iff)+
  have z: "c = 48 \<Longrightarrow> n = 0 \<and> cs = []"
    using nat_digits_hd [of n] n by (cases "n = 0") (auto simp: nat_digits_simps)
  show ?thesis
    using ds(1) tw z n decimal_value_nat_digits [of n] number_tail_end [OF assms]
    by (auto simp: parse_number_def Let_def decimal_value_def split: prod.splits)
qed

lemma insort_key_map: "insort_key f (g x) (map g xs) = map g (insort_key (\<lambda>x. f (g x)) x xs)"
  by (induction xs) auto

lemma sort_key_map: "sort_key f (map g xs) = map g (sort_key (\<lambda>x. f (g x)) xs)"
  by (induction xs) (simp_all add: insort_key_map)

text \<open>The printed items of an object, in the order of their keys.\<close>

definition sorted_items :: "(pystr \<times> json) list \<Rightarrow> (pystr \<times> json) list" where
  "sorted_items items = sort_key fst items"

lemma set_sorted_items [simp]: "set (sorted_items items) = set items"
  by (simp add: sorted_items_def)

lemma sorted_items_Nil [simp]: "sorted_items items = [] \<longleftrightarrow> items = []"
  by (metis set_sorted_items set_empty)

definition print_pair :: "pystr \<times> json \<Rightarrow> pystr" where
  "print_pair = (\<lambda>(k, v). dumps_str False k @ [58] @ dumps False True v)"

lemma print_pair_apply: "print_pair (k, v) = dumps_str False k @ [58] @ dumps False True v"
  by (simp add: print_pair_def)

lemma dumps_object: "dumps False True (JObj items) = 123 # comma_join (map print_pair (sorted_items items)) @ [125]"
proof -
  have "sort_key fst (map (\<lambda>(k, v). (k, dumps False True v)) items)
      = map (\<lambda>(k, v). (k, dumps False True v)) (sorted_items items)"
    by (simp add: sort_key_map sorted_items_def comp_def case_prod_beta)
  moreover have "(\<lambda>(k, t). dumps_str False k @ [58] @ t) \<circ> (\<lambda>(k, v). (k, dumps False True v)) = print_pair"
    by (auto simp: print_pair_def fun_eq_iff)
  ultimately show ?thesis by (simp add: lit_def Let_def)
qed

lemma canon_object: "canon (JObj items) = JObj (map (\<lambda>(k, v). (k, canon v)) (sorted_items items))"
  by (simp add: sort_key_map sorted_items_def comp_def case_prod_beta)

lemma dumps_list: "dumps False True (JList xs) = 91 # comma_join (map (dumps False True) xs) @ [93]"
  by (simp add: lit_def)

definition starts_value :: "pystr \<Rightarrow> bool" where
  "starts_value s \<longleftrightarrow> s \<noteq> [] \<and> \<not> is_ws (hd s) \<and> hd s \<noteq> 93 \<and> hd s \<noteq> 125"

lemma nat_digits_start: "starts_value (nat_digits n)"
  using nat_digits_are_digits [of n] by (cases "nat_digits n") (auto simp: starts_value_def is_digit_def is_ws_def)

lemma dumps_start: "json_ok v \<Longrightarrow> starts_value (dumps False True v)"
proof (cases v)
  case (JInt i)
  then show ?thesis using nat_digits_start by (auto simp: int_digits_def) (simp add: starts_value_def is_ws_def)
qed (auto simp: starts_value_def lit_def is_ws_def dumps_str_def Let_def)

lemma print_pair_start: "starts_value (print_pair p)"
  by (cases p) (simp add: print_pair_def dumps_str_def starts_value_def is_ws_def)

lemma skip_ws_start: "starts_value s \<Longrightarrow> skip_ws (s @ rest) = s @ rest"
  by (cases s) (auto simp: starts_value_def skip_ws_def)

lemma comma_join_Cons: "comma_join (p # ps) = (if ps = [] then p else p @ 44 # comma_join ps)"
  by (cases ps) (auto simp: comma_join_def)

lemma comma_join_start: "ps \<noteq> [] \<Longrightarrow> list_all starts_value ps \<Longrightarrow> starts_value (comma_join ps)"
  by (cases ps) (auto simp: comma_join_Cons starts_value_def)

lemma parse_scalar_int: "ends_value rest \<Longrightarrow> parse_scalar (int_digits i @ rest) = Some (JInt i, rest)"
proof -
  assume e: "ends_value rest"
  obtain c cs where n: "nat_digits (nat \<bar>i\<bar>) = c # cs" and c: "48 \<le> c" "c \<le> 57"
    using nat_digits_are_digits [of "nat \<bar>i\<bar>"] by (cases "nat_digits (nat \<bar>i\<bar>)") (auto simp: is_digit_def)
  show ?thesis
    using parse_number_digits [OF e, of "[]" "nat i"] parse_number_digits [OF e, of "[45]" "nat (- i)"] n c
    by (cases "i < 0") (auto simp: parse_scalar_def int_digits_def literals_def lit_def)
qed

lemma parse_scalar_dumps:
  assumes "ends_value rest" and "json_ok v" and "\<And>xs. v \<noteq> JList xs" and "\<And>items. v \<noteq> JObj items"
  shows "parse_scalar (dumps False True v @ rest) = Some (v, rest)"
proof (cases v)
  case (JStr s)
  then show ?thesis using parse_string_dumps [of s rest] by (simp add: parse_scalar_def dumps_str_def literals_def lit_def)
qed (use assms parse_scalar_int in \<open>auto simp: parse_scalar_def literals_def lit_def\<close>)

lemma skip_ws_nonspace: "\<not> is_ws c \<Longrightarrow> skip_ws (c # s) = c # s"
  by (simp add: skip_ws_def)

lemma punctuation [simp]: "\<not> is_ws 44" "\<not> is_ws 93" "\<not> is_ws 125" "\<not> is_ws 58"
  by (simp_all add: is_ws_def)

lemma parse_items_dumps:
  assumes "\<And>x n rest. x \<in> set xs \<Longrightarrow> ends_value rest \<Longrightarrow> length (dumps False True x) \<le> n \<Longrightarrow>
      parse_value n (dumps False True x @ rest) = Some (canon x, rest)"
    and "list_all json_ok xs" and "xs \<noteq> []" and "length (comma_join (map (dumps False True) xs)) < n"
  shows "parse_items n (comma_join (map (dumps False True) xs) @ 93 # rest) = Some (map canon xs, rest)"
  using assms
proof (induction xs arbitrary: n)
  case (Cons x xs)
  obtain m where n: "n = Suc m" using Cons.prems(4) by (cases n) auto
  have l: "length (dumps False True x) \<le> m" using Cons.prems(4) n by (auto simp: comma_join_Cons split: if_splits)
  have v: "parse_value m (dumps False True x @ c # s) = Some (canon x, c # s)" if "c = 44 \<or> c = 93" for c s
    using Cons.prems(1) [of x "c # s" m] l that by (auto simp: ends_value_def)
  show ?case
  proof (cases xs)
    case Nil
    then show ?thesis using v n by (simp add: comma_join_Cons skip_ws_nonspace)
  next
    case (Cons y ys)
    have ne: "dumps False True x \<noteq> []" using Cons.prems(2) dumps_start [of x] by (auto simp: starts_value_def)
    have ih: "parse_items m (comma_join (map (dumps False True) xs) @ 93 # rest) = Some (map canon xs, rest)"
      using Cons.IH [of m] Cons.prems Cons n ne by (auto simp: comma_join_Cons [of "dumps False True x"])
    have "starts_value (comma_join (map (dumps False True) xs))"
      using Cons.prems(2) Cons by (intro comma_join_start) (auto simp: list_all_iff dumps_start)
    then show ?thesis
      using v n ih Cons by (simp add: comma_join_Cons [of "dumps False True x"] skip_ws_nonspace skip_ws_start)
  qed
qed simp

lemma parse_pairs_dumps:
  assumes "\<And>k v n rest. (k, v) \<in> set ps \<Longrightarrow> ends_value rest \<Longrightarrow> length (dumps False True v) \<le> n \<Longrightarrow>
      parse_value n (dumps False True v @ rest) = Some (canon v, rest)"
    and "list_all (\<lambda>(k, v). json_ok v) ps" and "ps \<noteq> []" and "length (comma_join (map print_pair ps)) < n"
  shows "parse_pairs n (comma_join (map print_pair ps) @ 125 # rest) = Some (map (\<lambda>(k, v). (k, canon v)) ps, rest)"
  using assms
proof (induction ps arbitrary: n)
  case (Cons p ps)
  obtain k w where p: "p = (k, w)" by (cases p)
  obtain m where n: "n = Suc m" using Cons.prems(4) by (cases n) auto
  have l: "length (dumps False True w) \<le> m"
    using Cons.prems(4) n p by (auto simp: comma_join_Cons print_pair_def split: if_splits)
  have v: "parse_value m (dumps False True w @ c # s) = Some (canon w, c # s)" if "c = 44 \<or> c = 125" for c s
    using Cons.prems(1) [of k w "c # s" m] l p that by (auto simp: ends_value_def)
  have key: "parse_string (concat (map (escape_char False) k) @ 34 # t) = Some (k, t)" for t
    by (rule parse_string_dumps)
  have w: "skip_ws (dumps False True w @ t) = dumps False True w @ t" for t
    using Cons.prems(2) p by (auto intro: skip_ws_start dumps_start)
  show ?case
  proof (cases ps)
    case Nil
    then show ?thesis
      using v n p key w by (simp add: comma_join_Cons print_pair_def dumps_str_def skip_ws_nonspace)
  next
    case (Cons q qs)
    have "print_pair p \<noteq> []" using print_pair_start [of p] by (simp add: starts_value_def)
    then have "length (comma_join (map print_pair ps)) < m"
      using Cons.prems(4) n Cons by (auto simp: comma_join_Cons [of "print_pair p"])
    then have ih: "parse_pairs m (comma_join (map print_pair ps) @ 125 # rest) = Some (map (\<lambda>(k, v). (k, canon v)) ps, rest)"
      using Cons.prems(1,2) Cons by (intro Cons.IH) auto
    have "starts_value (comma_join (map print_pair ps))"
      using Cons by (intro comma_join_start) (auto simp: list_all_iff print_pair_start)
    then have ws: "skip_ws (comma_join (map print_pair ps) @ 125 # rest) = comma_join (map print_pair ps) @ 125 # rest"
      by (rule skip_ws_start)
    have "ps \<noteq> []" using Cons by simp
    then have t: "comma_join (map print_pair (p # ps)) @ 125 # rest
        = 34 # concat (map (escape_char False) k) @ 34 # 58 # dumps False True w @ 44 # comma_join (map print_pair ps) @ 125 # rest"
      by (simp add: comma_join_Cons p print_pair_apply dumps_str_def)
    show ?thesis
      unfolding t n using v ih p key w ws by (simp add: skip_ws_nonspace)
  qed
qed simp

lemma dict_put_new: "k \<notin> fst ` set d \<Longrightarrow> dict_put k v d = d @ [(k, v)]"
  by (induction d) auto

lemma dict_of_pairs_distinct: "distinct (map fst ps) \<Longrightarrow> dict_of_pairs ps = ps"
proof -
  have "distinct (map fst (d @ ps)) \<Longrightarrow> foldl (\<lambda>d (k, v). dict_put k v d) d ps = d @ ps" for d
    by (induction ps arbitrary: d) (auto simp: dict_put_new)
  from this [of "[]"] show "distinct (map fst ps) \<Longrightarrow> ?thesis" by (simp add: dict_of_pairs_def)
qed

lemma distinct_sorted_items: "distinct (map fst items) \<Longrightarrow> distinct (map fst (sorted_items items))"
  unfolding sorted_items_def by (metis distinct_map distinct_sort set_sort)

lemma scalar_start:
  assumes "json_ok v" and "\<And>xs. v \<noteq> JList xs" and "\<And>items. v \<noteq> JObj items"
  shows "\<exists>c cs. dumps False True v = c # cs \<and> c \<noteq> 91 \<and> c \<noteq> 123"
proof (cases v)
  case (JInt i)
  then show ?thesis
    using nat_digits_are_digits [of "nat \<bar>i\<bar>"]
    by (cases "nat_digits (nat \<bar>i\<bar>)") (auto simp: int_digits_def is_digit_def)
qed (use assms in \<open>auto simp: lit_def dumps_str_def\<close>)

lemma parse_value_scalar:
  assumes "json_ok v" and "\<And>xs. v \<noteq> JList xs" and "\<And>items. v \<noteq> JObj items" and "ends_value rest"
    and "length (dumps False True v) \<le> n"
  shows "parse_value n (dumps False True v @ rest) = Some (v, rest)"
proof -
  obtain c cs where c: "dumps False True v = c # cs" "c \<noteq> 91" "c \<noteq> 123" using scalar_start [OF assms(1-3)] by blast
  then obtain m where "n = Suc m" using assms(5) by (cases n) auto
  then show ?thesis using c parse_scalar_dumps [OF assms(4,1-3)] by simp
qed

lemma parse_value_dumps:
  "json_ok v \<Longrightarrow> ends_value rest \<Longrightarrow> length (dumps False True v) \<le> n \<Longrightarrow>
     parse_value n (dumps False True v @ rest) = Some (canon v, rest)"
proof (induction v arbitrary: n rest)
  case (JList xs)
  then obtain m where n: "n = Suc m" by (cases n) (auto simp: lit_def)
  show ?case
  proof (cases xs)
    case Nil
    then show ?thesis using n by (simp add: lit_def comma_join_def skip_ws_nonspace)
  next
    case (Cons y ys)
    have s: "starts_value (comma_join (map (dumps False True) xs))"
      using JList.prems(1) Cons by (intro comma_join_start) (auto simp: list_all_iff dumps_start)
    have "length (comma_join (map (dumps False True) xs)) < m"
      using JList.prems(3) n by (simp add: dumps_list del: dumps.simps)
    then have "parse_items m (comma_join (map (dumps False True) xs) @ 93 # rest) = Some (map canon xs, rest)"
      using JList Cons by (intro parse_items_dumps) (auto simp: list_all_iff)
    moreover have "take 1 (comma_join (map (dumps False True) xs) @ 93 # rest) \<noteq> [93]"
      using s by (cases "comma_join (map (dumps False True) xs)") (auto simp: starts_value_def)
    ultimately show ?thesis
      using n s by (simp add: dumps_list skip_ws_start del: dumps.simps)
  qed
next
  case (JObj items)
  then obtain m where n: "n = Suc m" by (cases n) (auto simp: dumps_object simp del: dumps.simps)
  show ?case
  proof (cases "items = []")
    case True
    then show ?thesis using n by (simp add: lit_def comma_join_def skip_ws_nonspace)
  next
    case False
    let ?ps = "sorted_items items"
    have s: "starts_value (comma_join (map print_pair ?ps))"
      using False by (intro comma_join_start) (auto simp: list_all_iff print_pair_start)
    have "length (comma_join (map print_pair ?ps)) < m"
      using JObj.prems(3) n by (simp add: dumps_object del: dumps.simps)
    then have p: "parse_pairs m (comma_join (map print_pair ?ps) @ 125 # rest) = Some (map (\<lambda>(k, v). (k, canon v)) ?ps, rest)"
      using JObj False by (intro parse_pairs_dumps) (auto simp: list_all_iff)
    have "dict_of_pairs (map (\<lambda>(k, v). (k, canon v)) ?ps) = map (\<lambda>(k, v). (k, canon v)) ?ps"
      using distinct_sorted_items [of items] JObj.prems(1)
      by (intro dict_of_pairs_distinct) (simp add: comp_def case_prod_beta)
    moreover have "take 1 (comma_join (map print_pair ?ps) @ 125 # rest) \<noteq> [125]"
      using s by (cases "comma_join (map print_pair ?ps)") (auto simp: starts_value_def)
    ultimately show ?thesis
      using n s p by (simp add: dumps_object canon_object skip_ws_start del: dumps.simps canon.simps)
  qed
qed (simp_all add: parse_value_scalar del: dumps.simps)

section \<open>Documents as bytes\<close>

lemma skip_ws_Nil [simp]: "skip_ws [] = []"
  by (simp add: skip_ws_def)

lemma loads_text_dumps:
  assumes "json_ok v"
  shows "loads_text (dumps False True v) = Some (canon v)"
proof -
  have "parse_value (Suc (length (dumps False True v))) (dumps False True v @ []) = Some (canon v, [])"
    by (rule parse_value_dumps) (simp_all add: assms ends_value_def)
  then show ?thesis
    using skip_ws_start [OF dumps_start [OF assms], of "[]"] by (simp add: loads_text_def)
qed

lemma utf8_decode_pass_char:
  assumes "utf8_char c = Some bs"
  shows "utf8_decode_pass (bs @ rest) = map_option (Cons c) (utf8_decode_pass rest)"
proof -
  from utf8_char_length [OF assms] obtain b bs' where bs: "bs = b # bs'" by (cases bs) auto
  with utf8_sequence_char [OF assms, of rest] show ?thesis by simp
qed

lemma utf8_decode_pass_encode: "utf8_encode s = Some bs \<Longrightarrow> utf8_decode_pass bs = Some s"
  by (induction s arbitrary: bs) (auto simp: utf8_decode_pass_char split: option.splits)

lemma comma_join_chars: "c \<in> set (comma_join ps) \<Longrightarrow> c = 44 \<or> (\<exists>p\<in>set ps. c \<in> set p)"
  by (induction ps) (auto simp: comma_join_Cons comma_join_def split: if_splits)

lemma escape_char_nonzero: "x \<in> set (escape_char False c) \<Longrightarrow> 0 < x"
  by (auto simp: escape_char_def hex4_def hex_digit_def split: if_splits)

lemma dumps_str_nonzero: "x \<in> set (dumps_str False s) \<Longrightarrow> 0 < x"
  by (auto simp: dumps_str_def dest: escape_char_nonzero)

lemma nat_digits_nonzero: "x \<in> set (nat_digits n) \<Longrightarrow> 0 < x"
  using nat_digits_are_digits [of n] by (auto simp: list_all_iff is_digit_def)

lemma int_digits_nonzero: "x \<in> set (int_digits i) \<Longrightarrow> 0 < x"
  by (auto simp: int_digits_def nat_digits_nonzero split: if_splits)

lemma dumps_nonzero: "json_ok v \<Longrightarrow> c \<in> set (dumps False True v) \<Longrightarrow> 0 < c"
proof (induction v arbitrary: c)
  case (JList xs)
  then show ?case by (auto simp: dumps_list list_all_iff dest!: comma_join_chars simp del: dumps.simps)
next
  case (JObj items)
  from JObj.prems(2) consider "c = 123 \<or> c = 125 \<or> c = 44 \<or> c = 58"
    | k w where "(k, w) \<in> set items" "c \<in> set (dumps_str False k) \<or> c \<in> set (dumps False True w)"
    by (auto simp: dumps_object print_pair_def dest!: comma_join_chars simp del: dumps.simps)
  then show ?case
  proof cases
    case (2 k w)
    then have "json_ok w" using JObj.prems(1) by (auto simp: list_all_iff)
    with 2 show ?thesis using JObj.IH [of "(k, w)" w c] dumps_str_nonzero by auto
  qed auto
qed (auto simp: lit_def dest: int_digits_nonzero dumps_str_nonzero split: if_splits)

lemma utf8_char_nonzero: "utf8_char c = Some bs \<Longrightarrow> 0 < c \<Longrightarrow> 0 \<notin> set bs"
  by (auto simp: utf8_char_def split: if_splits)

lemma utf8_encode_nonzero: "utf8_encode s = Some bs \<Longrightarrow> \<forall>c\<in>set s. 0 < c \<Longrightarrow> 0 \<notin> set bs"
  by (induction s arbitrary: bs) (auto dest: utf8_char_nonzero split: option.splits)

lemma dumps_hd_ascii: "json_ok v \<Longrightarrow> hd (dumps False True v) < 128"
proof (cases v)
  case (JInt i)
  then show ?thesis
    using nat_digits_are_digits [of "nat \<bar>i\<bar>"] by (cases "nat_digits (nat \<bar>i\<bar>)") (auto simp: int_digits_def is_digit_def)
qed (auto simp: lit_def dumps_str_def Let_def)

lemma plain_utf8_dumps:
  assumes ok: "json_ok v" and e: "utf8_encode (dumps False True v) = Some bs"
  shows "plain_utf8 bs"
proof -
  obtain c cs where d: "dumps False True v = c # cs" "c < 128"
    using dumps_start [OF ok] dumps_hd_ascii [OF ok] by (cases "dumps False True v") (auto simp: starts_value_def)
  then obtain bs' where bs: "bs = c # bs'" using e by (auto simp: utf8_char_def split: option.splits)
  have "0 \<notin> set bs" using utf8_encode_nonzero [OF e] dumps_nonzero [OF ok] by blast
  then have "c \<noteq> 0" "0 \<notin> set (take 2 bs)" using bs by (auto dest: in_set_takeD)
  then show ?thesis using bs d(2) by (auto simp: plain_utf8_def)
qed

text \<open>
  JSON round trip: reading back the canonical bytes of a document without floats and with distinct
  keys gives the document, with the items of its objects in the order of their keys. No escape,
  nesting, number or non-ASCII character is lost.
\<close>

lemma loads_canonical:
  assumes "json_ok v" and "dumps_utf8 False True v = Inr bs"
  shows "loads wide bs = Some (canon v)"
proof -
  have e: "utf8_encode (dumps False True v) = Some bs" using assms(2) by (simp add: dumps_utf8_def split: option.splits)
  show ?thesis
    using plain_utf8_dumps [OF assms(1) e] utf8_decode_pass_encode [OF e] loads_text_dumps [OF assms(1)]
    by (simp add: loads_def)
qed

end
