(* ===== verification/Rule_Store.thy ===== *)
theory Rule_Store
  imports Rule_Match Json_Parse
begin

text \<open>
  The store of automation rules in \<open>db.py\<close>: a row per rule, an immutable version for every accepted
  change, and a revision of the whole set. A definition is kept as its canonical bytes and read
  back through \<open>json.loads\<close> and the rule parser; only definitions that survive this with the same
  digest and the same bytes are matched.

  \<open>shape\<close> is what pydantic makes of a decoded document (see \<open>Rules\<close>), \<open>wide\<close> the decoders of other
  encodings than UTF-8 (see \<open>Json_Parse\<close>). The capability a rule was built from is a type of the
  Connect package: an argument carries what validating and encoding it gave.
\<close>

section \<open>Tables\<close>

record rule_row =
  rr_rule_id :: pystr
  rr_current_version :: int
  rr_enabled :: bool
  rr_system :: bool
  rr_deleted :: bool
  rr_created_at :: instant
  rr_updated_at :: instant

datatype version_kind = V_definition | V_deleted

record rule_version =
  rv_rule_id :: pystr
  rv_version :: int
  rv_kind :: version_kind
  rv_definition_json :: "bytes option"
  rv_definition_sha256 :: "pystr option"
  rv_enabled :: bool
  rv_scope_mailbox_identity_key :: "pystr option"
  rv_global_revision :: int
  rv_accepted_at :: instant

record rule_selection =
  rl_rule_id :: pystr
  rl_version :: int
  rl_selection_json :: pystr

record rule_store =
  ru_rules :: "rule_row list"
  ru_versions :: "rule_version list"
  ru_selections :: "rule_selection list"
  ru_revision :: "int option"
  ru_accounts :: "(pystr \<times> pystr \<times> pystr option) list"

definition rule_row_check :: "rule_row \<Rightarrow> bool" where
  "rule_row_check r \<longleftrightarrow> length (rr_rule_id r) = 36 \<and> 1 \<le> rr_current_version r"

definition rule_version_check :: "rule_version \<Rightarrow> bool" where
  "rule_version_check v \<longleftrightarrow> length (rv_rule_id v) = 36 \<and> 1 \<le> rv_version v
     \<and> (case rv_kind v of
          V_deleted \<Rightarrow> rv_definition_json v = None \<and> rv_definition_sha256 v = None
        | V_definition \<Rightarrow> rv_definition_json v \<noteq> None \<and> rv_definition_sha256 v \<noteq> None
            \<and> opt_all (\<lambda>b. 1 \<le> length b \<and> length b \<le> 16384) (rv_definition_json v)
            \<and> opt_all (\<lambda>s. length s = 64) (rv_definition_sha256 v))
     \<and> opt_all (\<lambda>s. length s = 64) (rv_scope_mailbox_identity_key v) \<and> 1 \<le> rv_global_revision v"

definition find_rule :: "rule_store \<Rightarrow> pystr \<Rightarrow> rule_row option" where
  "find_rule st rule_id = List.find (\<lambda>r. rr_rule_id r = rule_id) (ru_rules st)"

definition find_version :: "rule_store \<Rightarrow> pystr \<Rightarrow> int \<Rightarrow> rule_version option" where
  "find_version st rule_id n = List.find (\<lambda>v. rv_rule_id v = rule_id \<and> rv_version v = n) (ru_versions st)"

text \<open>The unique keys of \<open>automation_rule_versions\<close>: rule with version, and the global revision.\<close>

definition insert_version :: "rule_version \<Rightarrow> rule_store \<Rightarrow> err + rule_store" where
  "insert_version v st =
     (if \<not> rule_version_check v
         \<or> exists_where (\<lambda>x. rv_rule_id x = rv_rule_id v \<and> rv_version x = rv_version v
              \<or> rv_global_revision x = rv_global_revision v) (ru_versions st)
      then Inl (IntegrityError ''automation_rule_versions'')
      else Inr (st\<lparr>ru_versions := ru_versions st @ [v]\<rparr>))"

definition insert_selection :: "rule_selection \<Rightarrow> rule_store \<Rightarrow> err + rule_store" where
  "insert_selection s st =
     (if \<not> (2 \<le> length (rl_selection_json s) \<and> length (rl_selection_json s) \<le> 65536)
         \<or> exists_where (\<lambda>x. rl_rule_id x = rl_rule_id s \<and> rl_version x = rl_version s) (ru_selections st)
         \<or> \<not> exists_where (\<lambda>v. rv_rule_id v = rl_rule_id s \<and> rv_version v = rl_version s) (ru_versions st)
      then Inl (IntegrityError ''automation_rule_selections'')
      else Inr (st\<lparr>ru_selections := ru_selections st @ [s]\<rparr>))"

section \<open>Reading a stored definition\<close>

definition stored_definition ::
  "pyenv \<Rightarrow> (json \<Rightarrow> rule_definition option) \<Rightarrow> (bytes \<Rightarrow> pystr option) \<Rightarrow> rule_version \<Rightarrow> err + rule_definition" where
  "stored_definition env shape wide v =
     andThen (the_row TypeError (rv_definition_json v)) (\<lambda>encoded.
     andThen (require (Some (sha256 env encoded) = rv_definition_sha256 v)
         (RuleValidationError ''stored definition digest does not match'')) (\<lambda>_.
     andThen (the_row (ValueError ''JSONDecodeError'') (loads wide encoded)) (\<lambda>decoded.
     andThen (parse_rule_definition env shape decoded) (\<lambda>parsed.
     andThen (canonical_rule_definition parsed) (\<lambda>canonical.
     andThen (require (canonical = encoded) (RuleValidationError ''stored definition is not canonical'')) (\<lambda>_.
     Inr parsed))))))"

record rule_detail =
  rd_rule_id :: pystr
  rd_version :: int
  rd_enabled :: bool
  rd_system :: bool
  rd_definition :: "err + rule_definition"
  rd_created_at :: instant
  rd_updated_at :: instant
  rd_selection :: "pystr option"

text \<open>\<open>rd_definition\<close> is the definition of a valid rule, or why it is invalid.\<close>

definition automation_rule_detail ::
  "pyenv \<Rightarrow> (json \<Rightarrow> rule_definition option) \<Rightarrow> (bytes \<Rightarrow> pystr option) \<Rightarrow> rule_store \<Rightarrow> rule_row \<Rightarrow> rule_version \<Rightarrow> rule_detail" where
  "automation_rule_detail env shape wide st r v =
     \<lparr>rd_rule_id = rr_rule_id r, rd_version = rr_current_version r, rd_enabled = rr_enabled r, rd_system = rr_system r,
      rd_definition =
        (if rv_kind v \<noteq> V_definition then Inl (RuleValidationError ''current rule version is not a definition'')
         else stored_definition env shape wide v),
      rd_created_at = rr_created_at r, rd_updated_at = rr_updated_at r,
      rd_selection = map_option rl_selection_json
        (List.find (\<lambda>s. rl_rule_id s = rv_rule_id v \<and> rl_version s = rv_version v) (ru_selections st))\<rparr>"

definition automation_rule ::
  "pyenv \<Rightarrow> (json \<Rightarrow> rule_definition option) \<Rightarrow> (bytes \<Rightarrow> pystr option) \<Rightarrow> rule_store \<Rightarrow> pystr \<Rightarrow> err + rule_detail" where
  "automation_rule env shape wide st rule_id =
     (case find_rule st rule_id of
        None \<Rightarrow> Inl AutomationRuleNotFound
      | Some r \<Rightarrow>
          if rr_deleted r then Inl AutomationRuleNotFound
          else (case find_version st rule_id (rr_current_version r) of
                  None \<Rightarrow> Inl AutomationRuleNotFound
                | Some v \<Rightarrow> Inr (automation_rule_detail env shape wide st r v)))"

text \<open>A rule with the version it points at, in the order of \<open>created_at\<close> and id.\<close>

definition current_rows :: "rule_store \<Rightarrow> (rule_row \<times> rule_version) list" where
  "current_rows st =
     sort_key (\<lambda>(r, v). (rr_created_at r, rr_rule_id r))
       [(r, v). r \<leftarrow> ru_rules st, v \<leftarrow> ru_versions st,
          rv_rule_id v = rr_rule_id r \<and> rv_version v = rr_current_version r]"

definition automation_rules_snapshot ::
  "pyenv \<Rightarrow> (json \<Rightarrow> rule_definition option) \<Rightarrow> (bytes \<Rightarrow> pystr option) \<Rightarrow> rule_store \<Rightarrow> err + int \<times> rule_detail list" where
  "automation_rules_snapshot env shape wide st =
     andThen (the_row (RuntimeError ''automation rule-set authority is missing'') (ru_revision st)) (\<lambda>revision.
     Inr (revision, map (\<lambda>(r, v). automation_rule_detail env shape wide st r v)
       (filter (\<lambda>(r, v). \<not> rr_deleted r) (current_rows st))))"

definition current_match_rules ::
  "pyenv \<Rightarrow> (json \<Rightarrow> rule_definition option) \<Rightarrow> (bytes \<Rightarrow> pystr option) \<Rightarrow> rule_store \<Rightarrow> match_rule list" where
  "current_match_rules env shape wide st =
     [\<lparr>mr_rule_id = rr_rule_id r, mr_version = rr_current_version r,
       mr_scope_mailbox_identity_key = rv_scope_mailbox_identity_key v, mr_definition = d\<rparr>.
        (r, v) \<leftarrow> current_rows st, \<not> rr_deleted r \<and> rr_enabled r \<and> rv_kind v = V_definition,
        d \<leftarrow> (case stored_definition env shape wide v of Inl _ \<Rightarrow> [] | Inr d \<Rightarrow> [d])]"

section \<open>Changing the rules\<close>

definition next_automation_rules_revision :: "rule_store \<Rightarrow> err + rule_store \<times> int" where
  "next_automation_rules_revision st =
     andThen (the_row (RuntimeError ''automation rule-set authority is missing'') (ru_revision st)) (\<lambda>current.
     Inr (st\<lparr>ru_revision := Some (current + 1)\<rparr>, current + 1))"

definition automation_rule_scope_identity :: "rule_store \<Rightarrow> rule_definition \<Rightarrow> pystr option \<Rightarrow> err + pystr option" where
  "automation_rule_scope_identity st d expected =
     (case scope_account_id (rule_scope d) of
        None \<Rightarrow> andThen (require (expected = None)
            (ValueError ''mailbox identity is only valid for account-scoped rules'')) (\<lambda>_. Inr None)
      | Some account \<Rightarrow>
          andThen (the_row MailboxIdentityChanged expected) (\<lambda>key.
          (case List.find (\<lambda>(p, a, k). Some p = scope_provider (rule_scope d) \<and> a = account) (ru_accounts st) of
             None \<Rightarrow> Inl MailboxIdentityChanged
           | Some (p, a, k) \<Rightarrow> if k = Some key then Inr (Some key) else Inl MailboxIdentityChanged)))"

definition live_rule_count :: "rule_store \<Rightarrow> nat" where
  "live_rule_count st = count_where (\<lambda>r. \<not> rr_deleted r) (ru_rules st)"

definition require_automation_rule_create_capacity :: "rule_store \<Rightarrow> err + unit" where
  "require_automation_rule_create_capacity st =
     require (live_rule_count st < MAX_AUTOMATION_RULES) AutomationRuleLimitExceeded"

definition new_rule_row :: "pystr \<Rightarrow> instant \<Rightarrow> rule_row" where
  "new_rule_row rule_id now =
     \<lparr>rr_rule_id = rule_id, rr_current_version = 1, rr_enabled = True, rr_system = False, rr_deleted = False,
      rr_created_at = now, rr_updated_at = now\<rparr>"

definition rule_at :: "pystr \<Rightarrow> int \<Rightarrow> rule_row \<Rightarrow> bool" where
  "rule_at rule_id n r \<longleftrightarrow> rr_rule_id r = rule_id \<and> rr_current_version r = n \<and> \<not> rr_deleted r"

definition update_rule :: "pystr \<Rightarrow> int \<Rightarrow> (rule_row \<Rightarrow> rule_row) \<Rightarrow> rule_store \<Rightarrow> err + rule_store" where
  "update_rule rule_id n f st =
     andThen (checked_update rule_row_check ''automation_rules'' (rule_at rule_id n) f (ru_rules st)) (\<lambda>rows.
     andThen (require (count_where (rule_at rule_id n) (ru_rules st) = 1) AutomationRuleStale) (\<lambda>_.
     Inr (st\<lparr>ru_rules := rows\<rparr>)))"

text \<open>The row of a new rule, or the next version of an existing one: the version and its \<open>enabled\<close>.\<close>

definition advance_rule :: "pystr \<Rightarrow> int option \<Rightarrow> instant \<Rightarrow> rule_store \<Rightarrow> err + rule_store \<times> int \<times> bool \<times> int" where
  "advance_rule identity expected now st =
     (case find_rule st identity of
        None \<Rightarrow>
          andThen (require (expected = None) AutomationRuleNotFound) (\<lambda>_.
          andThen (require (live_rule_count st < MAX_AUTOMATION_RULES) AutomationRuleLimitExceeded) (\<lambda>_.
          andThen (next_automation_rules_revision st) (\<lambda>(st, revision).
          andThen (checked_insert rule_row_check rr_rule_id ''automation_rules'' (new_rule_row identity now) (ru_rules st)) (\<lambda>rows.
          Inr (st\<lparr>ru_rules := rows\<rparr>, 1, True, revision)))))
      | Some r \<Rightarrow>
          andThen (require (\<not> rr_deleted r) AutomationRuleNotFound) (\<lambda>_.
          andThen (require (expected = Some (rr_current_version r)) AutomationRuleStale) (\<lambda>_.
          andThen (require (\<not> rr_system r) AutomationRuleSystemProtected) (\<lambda>_.
          andThen (next_automation_rules_revision st) (\<lambda>(st, revision).
          andThen (update_rule identity (rr_current_version r)
              (\<lambda>x. x\<lparr>rr_current_version := rr_current_version r + 1, rr_updated_at := now\<rparr>) st) (\<lambda>st.
          Inr (st, rr_current_version r + 1, rr_enabled r, revision)))))))"

definition put_automation_rule ::
  "pyenv \<Rightarrow> (json \<Rightarrow> rule_definition option) \<Rightarrow> (bytes \<Rightarrow> pystr option) \<Rightarrow> pystr \<Rightarrow> instant \<Rightarrow> json \<Rightarrow> pystr option
     \<Rightarrow> int option \<Rightarrow> pystr option \<Rightarrow> (err + pystr) option \<Rightarrow> rule_store \<Rightarrow> err + rule_store \<times> (err + rule_detail)" where
  "put_automation_rule env shape wide fresh now definition rule_id expected expected_identity selection st =
     andThen (parse_rule_definition env shape definition) (\<lambda>parsed.
     andThen (canonical_rule_definition parsed) (\<lambda>encoded.
     (let identity = (case rule_id of Some i \<Rightarrow> if i = [] then fresh else i | None \<Rightarrow> fresh) in
      andThen (require (valid_uuid_v4 identity) (ValueError ''automation rule id must be a lower-case UUIDv4'')) (\<lambda>_.
      andThen (automation_rule_scope_identity st parsed expected_identity) (\<lambda>scope_identity.
      andThen (advance_rule identity expected now st) (\<lambda>(st, version, enabled, revision).
      andThen (insert_version
          \<lparr>rv_rule_id = identity, rv_version = version, rv_kind = V_definition, rv_definition_json = Some encoded,
           rv_definition_sha256 = Some (sha256 env encoded), rv_enabled = enabled,
           rv_scope_mailbox_identity_key = scope_identity, rv_global_revision = revision, rv_accepted_at = now\<rparr> st) (\<lambda>st.
      andThen (case selection of
           None \<Rightarrow> Inr st
         | Some s \<Rightarrow> andThen s (\<lambda>text. insert_selection
             \<lparr>rl_rule_id = identity, rl_version = version, rl_selection_json = text\<rparr> st)) (\<lambda>st.
      Inr (st, automation_rule env shape wide st identity)))))))))"

definition copy_selection :: "pystr \<Rightarrow> int \<Rightarrow> int \<Rightarrow> rule_store \<Rightarrow> err + rule_store" where
  "copy_selection rule_id from_version to_version st =
     (case List.find (\<lambda>s. rl_rule_id s = rule_id \<and> rl_version s = from_version) (ru_selections st) of
        None \<Rightarrow> Inr st
      | Some s \<Rightarrow> insert_selection (s\<lparr>rl_version := to_version\<rparr>) st)"

definition set_automation_rule_enabled ::
  "pyenv \<Rightarrow> (json \<Rightarrow> rule_definition option) \<Rightarrow> (bytes \<Rightarrow> pystr option) \<Rightarrow> instant \<Rightarrow> pystr \<Rightarrow> int \<Rightarrow> bool \<Rightarrow> rule_store
     \<Rightarrow> err + rule_store \<times> (err + rule_detail)" where
  "set_automation_rule_enabled env shape wide now rule_id expected enabled st =
     (case (case find_rule st rule_id of
              None \<Rightarrow> None
            | Some r \<Rightarrow> map_option (Pair r) (find_version st rule_id (rr_current_version r))) of
        None \<Rightarrow> Inl AutomationRuleNotFound
      | Some (r, v) \<Rightarrow>
          andThen (require (\<not> rr_deleted r) AutomationRuleNotFound) (\<lambda>_.
          andThen (require (expected = rr_current_version r) AutomationRuleStale) (\<lambda>_.
          andThen (require (\<not> rr_system r) AutomationRuleSystemProtected) (\<lambda>_.
          andThen (require (rv_kind v = V_definition) (RuntimeError ''live automation rule is not a definition'')) (\<lambda>_.
          andThen (stored_definition env shape wide v) (\<lambda>_.
          if rr_enabled r = enabled then Inr (st, Inr (automation_rule_detail env shape wide st r v))
          else
            andThen (next_automation_rules_revision st) (\<lambda>(st, revision).
            andThen (update_rule rule_id expected
                (\<lambda>x. x\<lparr>rr_current_version := expected + 1, rr_enabled := enabled, rr_updated_at := now\<rparr>) st) (\<lambda>st.
            andThen (insert_version
                (v\<lparr>rv_version := expected + 1, rv_enabled := enabled, rv_global_revision := revision, rv_accepted_at := now\<rparr>) st) (\<lambda>st.
            andThen (copy_selection rule_id expected (expected + 1) st) (\<lambda>st.
            Inr (st, automation_rule env shape wide st rule_id)))))))))))"

definition delete_automation_rule :: "instant \<Rightarrow> pystr \<Rightarrow> int \<Rightarrow> rule_store \<Rightarrow> err + rule_store \<times> int" where
  "delete_automation_rule now rule_id expected st =
     andThen (the_row AutomationRuleNotFound (find_rule st rule_id)) (\<lambda>r.
     andThen (require (\<not> rr_deleted r) AutomationRuleNotFound) (\<lambda>_.
     andThen (require (expected = rr_current_version r) AutomationRuleStale) (\<lambda>_.
     andThen (require (\<not> rr_system r) AutomationRuleSystemProtected) (\<lambda>_.
     andThen (next_automation_rules_revision st) (\<lambda>(st, revision).
     andThen (update_rule rule_id expected
         (\<lambda>x. x\<lparr>rr_current_version := expected + 1, rr_enabled := False, rr_deleted := True, rr_updated_at := now\<rparr>) st) (\<lambda>st.
     andThen (insert_version
         \<lparr>rv_rule_id = rule_id, rv_version = expected + 1, rv_kind = V_deleted, rv_definition_json = None,
          rv_definition_sha256 = None, rv_enabled = False, rv_scope_mailbox_identity_key = None,
          rv_global_revision = revision, rv_accepted_at = now\<rparr> st) (\<lambda>st.
     Inr (st, expected + 1))))))))"

end
