(* ===== verification/Analysis.thy ===== *)
theory Analysis
  imports Rule_Store Calendar_Runs Fires
begin

text \<open>
  The life of a captured message in \<open>db.py\<close>: it is pending until the local model has analysed it,
  failures are retried with a growing delay or paused, a completed analysis is stored in one
  transaction with the automation fires its attachments match and the scheduling run it starts,
  and a delivered result is summarized.

  The store combines the tables of the components this transaction touches: the rules, the Connect
  tables with their removal state, and the scheduling tables. The messages are kept once, in
  \<open>an_messages\<close>; the eligibility rule of \<open>removal.py\<close> reads them through \<open>connect_view\<close>. The columns
  \<open>next_retry_at\<close> and \<open>analysis_at\<close> are always written by the program and are instants.
\<close>

section \<open>Tables\<close>

datatype message_status = M_pending | M_analyzed | M_summarized | M_skipped

text \<open>What the model returns (\<open>Analysis.model_dump()\<close>); the confidence is a float and is only stored.\<close>

record analysis_result =
  rs_category :: pystr
  rs_priority :: pystr
  rs_summary :: pystr
  rs_action_required :: bool
  rs_suggested_action :: "pystr option"
  rs_deadline_text :: "pystr option"
  rs_deadline_iso :: "pystr option"
  rs_confidence :: json

record analysis_request =
  aq_request_id :: pystr
  aq_context_at :: pystr
  aq_body_char_limit :: int

record analysis_row = source_row +
  me_discovered_at :: iso
  me_status :: message_status
  me_analysis_at :: "instant option"
  me_attempts :: int
  me_next_retry_at :: "instant option"
  me_request_id :: "pystr option"
  me_context_at :: "pystr option"
  me_body_char_limit :: "int option"
  me_retryable :: "bool option"
  me_error_code :: "pystr option"
  me_retry_after_seconds :: "int option"
  me_fallback_notified_at :: "instant option"
  me_notified_at :: "instant option"
  me_result :: "analysis_result option"
  me_body_chars :: "int option"
  me_body_source_chars :: "int option"
  me_rules_revision :: "int option"
  me_rules_error :: "pystr option"
  me_last_error :: "pystr option"

record analysis_store =
  an_messages :: "analysis_row list"
  an_attachments :: "(pystr \<times> attachment_descriptor) list"
  an_rules :: rule_store
  an_connect :: store
  an_calendar :: calendar_store

definition connect_view :: "analysis_store \<Rightarrow> store" where
  "connect_view st = (an_connect st)\<lparr>st_messages := map message_row.truncate (an_messages st),
     st_attachments := map (\<lambda>(m, a). (m, part_id a)) (an_attachments st)\<rparr>"

definition find_message :: "analysis_store \<Rightarrow> pystr \<Rightarrow> analysis_row option" where
  "find_message st message_id = List.find (\<lambda>m. mg_message_id m = Some message_id) (an_messages st)"

definition update_message :: "(analysis_row \<Rightarrow> bool) \<Rightarrow> (analysis_row \<Rightarrow> analysis_row) \<Rightarrow> analysis_store \<Rightarrow> analysis_store" where
  "update_message P f st = st\<lparr>an_messages := update_where P f (an_messages st)\<rparr>"

definition is_message :: "pystr \<Rightarrow> analysis_row \<Rightarrow> bool" where
  "is_message message_id m \<longleftrightarrow> mg_message_id m = Some message_id"

text \<open>\<open>removal.CONTENT.message_available\<close>, and the rows of the view \<open>logical_messages\<close> it leaves readable.\<close>

definition message_content_available :: "analysis_store \<Rightarrow> pystr \<Rightarrow> bool" where
  "message_content_available st message_id = content_available (connect_view st) message_id"

definition readable_messages :: "analysis_store \<Rightarrow> analysis_row list" where
  "readable_messages st =
     filter (\<lambda>m. sr_logical_of m = None
       \<and> (case st_removal (an_connect st) of
            None \<Rightarrow> True
          | Some rm \<Rightarrow> available False rm (message_row.truncate m) \<and> available True rm (message_row.truncate m)))
       (an_messages st)"

section \<open>Queues\<close>

text \<open>\<open>provider\<close> and \<open>account_id\<close> narrow the queue to one mailbox; they come together or not at all.\<close>

definition due :: "instant \<Rightarrow> analysis_row \<Rightarrow> bool" where
  "due now m \<longleftrightarrow> opt_all (\<lambda>t. t \<le> now) (me_next_retry_at m)"

definition workable :: "analysis_row \<Rightarrow> bool" where
  "workable m \<longleftrightarrow> me_status m = M_pending \<and> (case me_retryable m of None \<Rightarrow> True | Some r \<Rightarrow> r)"

definition pending ::
  "instant \<Rightarrow> nat \<Rightarrow> pystr option \<Rightarrow> pystr option \<Rightarrow> analysis_store \<Rightarrow> err + analysis_row list" where
  "pending now limit provider account_id st =
     andThen (require ((provider = None) = (account_id = None))
         (ValueError ''provider and account_id must be supplied together'')) (\<lambda>_.
     Inr (take limit (sort_key sr_received_at (filter (\<lambda>m. workable m \<and> due now m
       \<and> opt_all (\<lambda>p. mg_provider m = p) provider \<and> opt_all (\<lambda>a. mg_account_id m = a) account_id)
       (readable_messages st)))))"

definition pending_delivery :: "instant \<Rightarrow> nat \<Rightarrow> analysis_store \<Rightarrow> analysis_row list" where
  "pending_delivery now limit st =
     take limit (sort_key sr_received_at (filter (\<lambda>m. me_status m = M_analyzed \<and> due now m) (readable_messages st)))"

definition has_current_pending_mailbox_work :: "pystr \<Rightarrow> pystr \<Rightarrow> pystr \<Rightarrow> analysis_store \<Rightarrow> err + bool" where
  "has_current_pending_mailbox_work provider account_id identity st =
     andThen (require_mailbox_identity_key identity) (\<lambda>_.
     Inr (list_ex (\<lambda>m. workable m \<and> mg_provider m = provider \<and> mg_account_id m = account_id
         \<and> mg_mailbox_identity_key m = Some identity
         \<and> list_ex (\<lambda>(p, a, k). p = mg_provider m \<and> a = mg_account_id m \<and> k = mg_mailbox_identity_key m)
             (ru_accounts (an_rules st))) (readable_messages st)))"

section \<open>Requests and failures\<close>

definition clear_request :: "analysis_row \<Rightarrow> analysis_row" where
  "clear_request m = m\<lparr>me_request_id := None, me_context_at := None, me_body_char_limit := None,
     me_retryable := None, me_error_code := None, me_retry_after_seconds := None\<rparr>"

text \<open>\<open>request_id\<close> is the fresh UUID, \<open>context_at\<close> the current time as text with its offset.\<close>

definition reserve_analysis_request ::
  "pystr \<Rightarrow> pystr \<Rightarrow> pystr \<Rightarrow> int \<Rightarrow> analysis_store \<Rightarrow> err + analysis_store \<times> analysis_request" where
  "reserve_analysis_request request_id context_at message_id body_char_limit st =
     andThen (require (1 \<le> body_char_limit) (ValueError ''body_char_limit must be positive'')) (\<lambda>_.
     andThen (require (message_content_available st message_id) KeyError) (\<lambda>_.
     andThen (the_row KeyError (find_message st message_id)) (\<lambda>row.
     andThen (require (me_status row = M_pending)
         (RuntimeError ''Analysis request can only be reserved for a pending message'')) (\<lambda>_.
     case (me_request_id row, me_context_at row, me_body_char_limit row) of
       (None, None, None) \<Rightarrow>
         Inr (update_message (\<lambda>m. is_message message_id m \<and> me_status m = M_pending)
             (\<lambda>m. m\<lparr>me_request_id := Some request_id, me_context_at := Some context_at,
                     me_body_char_limit := Some body_char_limit\<rparr>) st,
           \<lparr>aq_request_id = request_id, aq_context_at = context_at, aq_body_char_limit = body_char_limit\<rparr>)
     | (Some r, Some c, Some l) \<Rightarrow> Inr (st, \<lparr>aq_request_id = r, aq_context_at = c, aq_body_char_limit = l\<rparr>)
     | _ \<Rightarrow> Inl (RuntimeError ''Pending message has incomplete analysis request state'')))))"

definition retry_delays_minutes :: "int list" where
  "retry_delays_minutes = [5, 15, 60, 360, 1440]"

text \<open>
  \<open>delays[min(attempts, 4)]\<close>; a negative index counts from the end, and below \<open>-5\<close> it raises. The
  callers pass the stored count, which is never negative.
\<close>

definition backoff :: "int \<Rightarrow> err + int" where
  "backoff attempts =
     (let i = min attempts 4 in
      if - 5 \<le> i then Inr (seconds (60 * retry_delays_minutes ! nat (if i < 0 then i + 5 else i)))
      else Inl (ValueError ''IndexError''))"

definition record_failure :: "instant \<Rightarrow> pystr \<Rightarrow> pystr \<Rightarrow> int \<Rightarrow> analysis_store \<Rightarrow> err + analysis_store" where
  "record_failure now message_id error attempts st =
     andThen (backoff attempts) (\<lambda>delay.
     Inr (update_message (is_message message_id)
       (\<lambda>m. m\<lparr>me_attempts := me_attempts m + 1, me_next_retry_at := Some (now + delay),
               me_last_error := Some (take 500 error)\<rparr>) st))"

definition record_analysis_failure ::
  "instant \<Rightarrow> pystr \<Rightarrow> pystr \<Rightarrow> int \<Rightarrow> bool \<Rightarrow> pystr option \<Rightarrow> int option \<Rightarrow> analysis_store \<Rightarrow> err + analysis_store" where
  "record_analysis_failure now message_id error attempts retryable error_code retry_after st =
     andThen (require (opt_all (\<lambda>s. 1 \<le> s) retry_after) (ValueError ''retry_after_seconds must be positive'')) (\<lambda>_.
     andThen (if \<not> retryable then Inr None
              else (case retry_after of
                      None \<Rightarrow> andThen (backoff attempts) (\<lambda>delay. Inr (Some (now + delay)))
                    | Some s \<Rightarrow> Inr (Some (now + seconds s)))) (\<lambda>next_retry.
     (let target = (\<lambda>m. is_message message_id m \<and> me_status m = M_pending) in
      andThen (require (count_where target (an_messages st) = 1)
          (RuntimeError ''Analysis failure target is no longer pending'')) (\<lambda>_.
      Inr (update_message target
        (\<lambda>m. m\<lparr>me_attempts := me_attempts m + 1, me_next_retry_at := next_retry,
                me_last_error := Some (take 500 error), me_retryable := Some retryable,
                me_error_code := error_code, me_retry_after_seconds := retry_after\<rparr>) st)))))"

definition requeue_analysis :: "pystr \<Rightarrow> analysis_store \<Rightarrow> err + analysis_store" where
  "requeue_analysis message_id st =
     andThen (the_row KeyError (find_message st message_id)) (\<lambda>row.
     andThen (require (me_status row = M_pending \<and> me_retryable row = Some False)
         (RuntimeError ''Message does not have a permanently paused analysis'')) (\<lambda>_.
     Inr (update_message (is_message message_id)
       (\<lambda>m. (clear_request m)\<lparr>me_attempts := 0, me_next_retry_at := None\<rparr>) st)))"

definition mark_fallback_notified :: "instant \<Rightarrow> pystr \<Rightarrow> analysis_store \<Rightarrow> analysis_store" where
  "mark_fallback_notified now message_id st =
     (if \<not> message_content_available st message_id then st
      else update_message (is_message message_id) (\<lambda>m. m\<lparr>me_fallback_notified_at := Some now\<rparr>) st)"

definition mark_skipped :: "pystr \<Rightarrow> analysis_store \<Rightarrow> analysis_store" where
  "mark_skipped message_id st =
     update_message (is_message message_id)
       (\<lambda>m. (clear_request m)\<lparr>me_status := M_skipped, me_next_retry_at := None,
               me_last_error := Some (lit ''message unavailable (skipped)'')\<rparr>) st"

text \<open>
  The update of \<open>_requeue_if_skipped\<close>, when a copy of a skipped message appears. The binding of
  rows without a mailbox identity that may follow it is part of \<open>Capture\<close>.
\<close>

definition requeue_skipped :: "pystr \<Rightarrow> analysis_store \<Rightarrow> analysis_store" where
  "requeue_skipped message_id st =
     update_message (\<lambda>m. is_message message_id m \<and> me_status m = M_skipped)
       (\<lambda>m. m\<lparr>me_status := M_pending, me_attempts := 0, me_next_retry_at := None, me_last_error := None\<rparr>) st"

definition mark_delivery_complete :: "instant \<Rightarrow> pystr \<Rightarrow> bool \<Rightarrow> analysis_store \<Rightarrow> analysis_store" where
  "mark_delivery_complete now message_id notified st =
     (if \<not> message_content_available st message_id then st
      else update_message (is_message message_id)
        (\<lambda>m. m\<lparr>me_status := M_summarized, me_next_retry_at := None, me_last_error := None,
                me_notified_at := (if notified then Some now else None)\<rparr>) st)"

section \<open>Attachments\<close>

text \<open>\<open>executemany\<close> stops at the first row that violates a constraint.\<close>

definition attachment_check :: "attachment_descriptor \<Rightarrow> bool" where
  "attachment_check a \<longleftrightarrow> 0 \<le> byte_size a \<and> 0 \<le> position a"

fun insert_attachments ::
  "pystr \<Rightarrow> pystr option \<Rightarrow> attachment_descriptor list \<Rightarrow> (pystr \<times> attachment_descriptor) list
     \<Rightarrow> err + (pystr \<times> attachment_descriptor) list" where
  "insert_attachments message_id source [] rows = Inr rows"
| "insert_attachments message_id source (a # as) rows =
     (if \<not> attachment_check a
         \<or> list_ex (\<lambda>(m, b). m = message_id \<and> (part_id b = part_id a \<or> position b = position a)) rows
      then Inl (IntegrityError ''message_attachments'')
      else insert_attachments message_id source as
        (rows @ [(message_id, a\<lparr>source_provider_message_id := source\<rparr>)]))"

definition replace_attachments ::
  "pystr \<Rightarrow> attachment_descriptor list \<Rightarrow> pystr option \<Rightarrow> analysis_store \<Rightarrow> err + analysis_store" where
  "replace_attachments message_id items source st =
     andThen (the_row KeyError (find_message st message_id)) (\<lambda>_.
     andThen (insert_attachments message_id source items
         (filter (\<lambda>(m, a). m \<noteq> message_id) (an_attachments st))) (\<lambda>rows.
     Inr (st\<lparr>an_attachments := rows\<rparr>)))"

definition message_attachments :: "analysis_store \<Rightarrow> pystr \<Rightarrow> attachment_descriptor list" where
  "message_attachments st message_id =
     sort_key (\<lambda>a. (position a, part_id a))
       (map (\<lambda>(m, a). a\<lparr>source_provider_message_id := None\<rparr>)
         (filter (\<lambda>(m, a). m = message_id) (an_attachments st)))"

section \<open>Completing an analysis\<close>

definition facts_of :: "pystr \<Rightarrow> analysis_result \<Rightarrow> analysis_row \<Rightarrow> message_facts" where
  "facts_of identity result m =
     \<lparr>msg_provider = mg_provider m, msg_account_id = mg_account_id m, msg_mailbox_identity_key = identity,
      msg_sender = sr_sender m, msg_sender_name = sr_sender_name m, msg_subject = sr_subject m,
      msg_result = (\<lambda>f. case f of
         F_category \<Rightarrow> Some (VStr (rs_category result))
       | F_priority \<Rightarrow> Some (VStr (rs_priority result))
       | F_action_required \<Rightarrow> Some (VBool (rs_action_required result))
       | _ \<Rightarrow> None)\<rparr>"

text \<open>The rules that match, or the error that is stored in their place; any other error is raised.\<close>

definition evaluate_rules ::
  "pyenv \<Rightarrow> match_rule list \<Rightarrow> message_facts \<Rightarrow> attachment_descriptor list \<Rightarrow> err + matched_fire list option" where
  "evaluate_rules env rules m attachments =
     (if MAX_AUTOMATION_ATTACHMENTS < length attachments then Inr None
      else (case match_rules env rules m attachments of
              Inr matched \<Rightarrow> Inr (Some matched)
            | Inl (AutomationFanoutLimit _) \<Rightarrow> Inr None
            | Inl e \<Rightarrow> Inl e))"

definition new_fire :: "pystr \<Rightarrow> pystr \<Rightarrow> pystr \<Rightarrow> instant \<Rightarrow> matched_fire \<Rightarrow> automation_fire" where
  "new_fire fire_id event_id message_id now f =
     \<lparr>af_fire_id = fire_id, af_event_id = event_id, af_rule_id = mf_rule_id f, af_rule_version = mf_rule_version f,
      af_message_id = message_id, af_part_id = mf_part_id f, af_state = Pending_dispatch, af_state_version = 1,
      af_reason = None, af_current_attempt_no = 1, af_job_id = None, af_prepared_identity_sha256 = None,
      af_prepared_identity_json = None, af_confirmed = False, af_pending_since = Some (Aware now),
      af_authorized_pending_seconds = 0, af_created_at = now, af_updated_at = now\<rparr>"

definition same_match :: "automation_fire \<Rightarrow> automation_fire \<Rightarrow> bool" where
  "same_match f g \<longleftrightarrow> af_message_id f = af_message_id g \<and> af_part_id f = af_part_id g
     \<and> af_rule_id f = af_rule_id g \<and> af_rule_version f = af_rule_version g"

text \<open>The insert into \<open>automation_fires\<close> with its trigger and unique keys.\<close>

definition insert_fire :: "automation_fire \<Rightarrow> analysis_store \<Rightarrow> err + analysis_store" where
  "insert_fire f st =
     andThen (require (list_ex (\<lambda>v. rv_rule_id v = af_rule_id f \<and> rv_version v = af_rule_version f
           \<and> rv_kind v = V_definition) (ru_versions (an_rules st))
         \<and> list_ex (\<lambda>(m, a). m = af_message_id f \<and> part_id a = af_part_id f) (an_attachments st))
         (IntegrityError ''automation fire source is invalid'')) (\<lambda>_.
     andThen (require (\<not> exists_where (same_match f) (st_fires (an_connect st)))
         (IntegrityError ''UNIQUE constraint failed: automation_fires'')) (\<lambda>_.
     andThen (checked_insert automation_fire_check af_fire_id ''automation_fires'' f (st_fires (an_connect st))) (\<lambda>rows.
     Inr (st\<lparr>an_connect := (an_connect st)\<lparr>st_fires := rows\<rparr>\<rparr>))))"

definition fire_source_check :: "fire_source_identity \<Rightarrow> bool" where
  "fire_source_check s \<longleftrightarrow> length (fs_fire_id s) = 36 \<and> fs_provider s \<noteq> [] \<and> fs_account_id s \<noteq> []
     \<and> length (fs_mailbox_identity_key s) = 64 \<and> list_all is_hex (fs_mailbox_identity_key s) \<and> fs_message_id s \<noteq> []"

definition insert_fire_source :: "fire_source_identity \<Rightarrow> analysis_store \<Rightarrow> err + analysis_store" where
  "insert_fire_source s st =
     andThen (checked_insert fire_source_check fs_fire_id ''automation_fire_source_identities'' s
         (st_fire_sources (an_connect st))) (\<lambda>rows.
     Inr (st\<lparr>an_connect := (an_connect st)\<lparr>st_fire_sources := rows\<rparr>\<rparr>))"

text \<open>\<open>fresh i\<close> are the two UUIDs of the \<open>i\<close>-th fire: its own and that of its first attempt.\<close>

fun insert_matched ::
  "(nat \<Rightarrow> pystr \<times> pystr) \<Rightarrow> nat \<Rightarrow> pystr \<Rightarrow> pystr \<Rightarrow> pystr \<Rightarrow> instant \<Rightarrow> analysis_row \<Rightarrow> matched_fire list
     \<Rightarrow> analysis_store \<Rightarrow> err + analysis_store" where
  "insert_matched fresh i event_id message_id identity now row [] st = Inr st"
| "insert_matched fresh i event_id message_id identity now row (f # fs) st =
     andThen (insert_fire (new_fire (fst (fresh i)) event_id message_id now f) st) (\<lambda>st.
     andThen (insert_fire_source \<lparr>fs_fire_id = fst (fresh i), fs_message_id = message_id, fs_part_id = mf_part_id f,
         fs_provider = mg_provider row, fs_account_id = mg_account_id row, fs_mailbox_identity_key = identity\<rparr> st) (\<lambda>st.
     andThen (insert_attempt \<lparr>at_fire_id = fst (fresh i), at_attempt_no = 1, at_dispatch_request_id = snd (fresh i),
         at_job_id = None, at_created_at = now\<rparr> (an_connect st)) (\<lambda>connect.
     insert_matched fresh (Suc i) event_id message_id identity now row fs (st\<lparr>an_connect := connect\<rparr>))))"

definition automation_expiry :: "iso \<Rightarrow> instant \<Rightarrow> iso" where
  "automation_expiry observed_at admitted_at =
     Aware (min (case observed_at of Aware t \<Rightarrow> t | _ \<Rightarrow> admitted_at) admitted_at + seconds (3650 * 86400))"

definition body_counts_ok :: "int option \<Rightarrow> int option \<Rightarrow> bool" where
  "body_counts_ok chars source_chars \<longleftrightarrow>
     (case (chars, source_chars) of (None, None) \<Rightarrow> True | (Some c, Some s) \<Rightarrow> c \<le> s | _ \<Rightarrow> False)"

record completion =
  co_result :: analysis_result
  co_mailbox_identity_key :: pystr
  co_body_chars :: "int option"
  co_body_source_chars :: "int option"
  co_principal_key :: "pystr option"

definition analyzed_row :: "instant \<Rightarrow> int \<Rightarrow> pystr option \<Rightarrow> completion \<Rightarrow> analysis_row \<Rightarrow> analysis_row" where
  "analyzed_row now revision evaluation_error c m =
     (clear_request m)\<lparr>me_status := M_analyzed, me_analysis_at := Some now, me_attempts := 0, me_next_retry_at := None,
       me_last_error := None, me_result := Some (co_result c), me_body_chars := co_body_chars c,
       me_body_source_chars := co_body_source_chars c, me_rules_revision := Some revision,
       me_rules_error := evaluation_error\<rparr>"

definition require_current_identity :: "pystr \<Rightarrow> analysis_row \<Rightarrow> analysis_store \<Rightarrow> err + unit" where
  "require_current_identity identity row st =
     (case List.find (\<lambda>(p, a, k). p = mg_provider row \<and> a = mg_account_id row) (ru_accounts (an_rules st)) of
        None \<Rightarrow> Inl MailboxIdentityChanged
      | Some (p, a, k) \<Rightarrow> require (k = Some identity \<and> mg_mailbox_identity_key row = Some identity) MailboxIdentityChanged)"

definition complete_row ::
  "instant \<Rightarrow> int \<Rightarrow> pystr option \<Rightarrow> completion \<Rightarrow> pystr \<Rightarrow> analysis_store \<Rightarrow> err + analysis_store" where
  "complete_row now revision evaluation_error c message_id st =
     (let target = (\<lambda>m. is_message message_id m \<and> me_status m = M_pending) in
      andThen (require (count_where target (an_messages st) = 0 \<or> body_counts_ok (co_body_chars c) (co_body_source_chars c))
          (IntegrityError ''message body counts are inconsistent'')) (\<lambda>_.
      andThen (require (count_where target (an_messages st) = 1)
          (RuntimeError ''Analysis completion lost its expected-state race'')) (\<lambda>_.
      Inr (update_message target (analyzed_row now revision evaluation_error c) st))))"

text \<open>The fires of a completed analysis and the scheduling run; \<open>run_id\<close> and \<open>run_event\<close> are fresh UUIDs.\<close>

definition insert_fires ::
  "pyenv \<Rightarrow> (nat \<Rightarrow> pystr \<times> pystr) \<Rightarrow> instant \<Rightarrow> pystr \<Rightarrow> completion \<Rightarrow> analysis_row \<Rightarrow> matched_fire list option
     \<Rightarrow> analysis_store \<Rightarrow> err + analysis_store" where
  "insert_fires env fresh now message_id c row matched st =
     (case matched of
        None \<Rightarrow> Inr st
      | Some fires \<Rightarrow>
          andThen (the_row UnicodeError (message_source_key env (mg_provider row) (mg_account_id row)
              (mg_provider_message_id row) (Some (co_mailbox_identity_key c)))) (\<lambda>event_id.
          insert_matched fresh 0 event_id message_id (co_mailbox_identity_key c) now row fires st))"

definition admit_scheduling ::
  "pyenv \<Rightarrow> pystr \<Rightarrow> pystr \<Rightarrow> instant \<Rightarrow> completion \<Rightarrow> analysis_row \<Rightarrow> analysis_store \<Rightarrow> err + analysis_store" where
  "admit_scheduling env run_id run_event now c row st =
     (case co_principal_key c of
        None \<Rightarrow> Inr st
      | Some owner_key \<Rightarrow>
          if rs_category (co_result c) \<noteq> lit ''scheduling'' then Inr st
          else
            andThen (admit_scheduling_automation env run_id run_event
                \<lparr>am_provider = mg_provider row, am_account_id = mg_account_id row,
                 am_calendar_principal_key = owner_key, am_provider_message_id = mg_provider_message_id row,
                 am_mailbox_identity_key = co_mailbox_identity_key c, am_created_at = now,
                 am_expires_at = automation_expiry (me_discovered_at row) now\<rparr> (an_calendar st)) (\<lambda>calendar.
            Inr (st\<lparr>an_calendar := calendar\<rparr>)))"

definition mark_analyzed ::
  "pyenv \<Rightarrow> (json \<Rightarrow> rule_definition option) \<Rightarrow> (bytes \<Rightarrow> pystr option) \<Rightarrow> (nat \<Rightarrow> pystr \<times> pystr) \<Rightarrow> pystr \<Rightarrow> pystr
     \<Rightarrow> instant \<Rightarrow> pystr \<Rightarrow> completion \<Rightarrow> analysis_store \<Rightarrow> err + analysis_store" where
  "mark_analyzed env shape wide fresh run_id run_event now message_id c st =
     andThen (require_mailbox_identity_key (co_mailbox_identity_key c)) (\<lambda>_.
     andThen (require (opt_all (\<lambda>k. length k = 64) (co_principal_key c))
         (ValueError ''scheduling automation principal key must be a 64-character string'')) (\<lambda>_.
     andThen (require (message_content_available st message_id) KeyError) (\<lambda>_.
     andThen (the_row KeyError (find_message st message_id)) (\<lambda>row.
     andThen (require (me_status row = M_pending)
         (RuntimeError ''Analysis can only complete for a pending message'')) (\<lambda>_.
     andThen (require_current_identity (co_mailbox_identity_key c) row st) (\<lambda>_.
     andThen (the_row (RuntimeError ''automation rule-set authority is missing'') (ru_revision (an_rules st))) (\<lambda>revision.
     andThen (evaluate_rules env (current_match_rules env shape wide (an_rules st))
         (facts_of (co_mailbox_identity_key c) (co_result c) row) (message_attachments st message_id)) (\<lambda>matched.
     andThen (complete_row now revision (if matched = None then Some (lit ''automation_fanout_limit'') else None) c message_id st) (\<lambda>st.
     andThen (insert_fires env fresh now message_id c row matched st) (\<lambda>st.
     admit_scheduling env run_id run_event now c row st))))))))))"

end
