(* ===== verification/Notifications.thy ===== *)
theory Notifications
  imports Analysis
begin

text \<open>
  \<open>notifications.py\<close>: a notification goes to the desktop and, when a topic is configured, to the ntfy
  push service, each channel on its own. The answers of the two channels and of the two eligibility
  checks are inputs; what is sent is returned as a list of effects. Then the queue of notification
  intents in \<open>db.py\<close> and its acknowledgement.
\<close>

section \<open>Delivery\<close>

datatype push =
    Desktop pystr pystr pystr \<comment> \<open>urgency, title, body\<close>
  | Ntfy pystr pystr pystr pystr int \<comment> \<open>topic, url, title, body, priority\<close>

record channel_result =
  ch_attempted :: bool
  ch_delivered :: bool
  ch_error :: "pystr option"

record delivery_result =
  dr_desktop :: channel_result
  dr_ntfy :: channel_result

definition channel_ok :: "channel_result \<Rightarrow> bool" where
  "channel_ok c \<longleftrightarrow> ch_attempted c \<and> ch_delivered c"

definition delivered :: "delivery_result \<Rightarrow> bool" where
  "delivered r \<longleftrightarrow> channel_ok (dr_desktop r) \<or> channel_ok (dr_ntfy r)"

definition failures :: "delivery_result \<Rightarrow> pystr list" where
  "failures r =
     [n @ lit '': '' @ e. (n, c) \<leftarrow> [(lit ''desktop'', dr_desktop r), (lit ''ntfy'', dr_ntfy r)],
        ch_attempted c \<and> \<not> ch_delivered c, e \<leftarrow> (case ch_error c of None \<Rightarrow> [] | Some e \<Rightarrow> if e = [] then [] else [e])]"

definition join_with :: "pystr \<Rightarrow> pystr list \<Rightarrow> pystr" where
  "join_with sep ps = (case ps of [] \<Rightarrow> [] | p # rest \<Rightarrow> p @ concat (map (\<lambda>q. sep @ q) rest))"

definition not_attempted :: channel_result where
  "not_attempted = \<lparr>ch_attempted = False, ch_delivered = False, ch_error = None\<rparr>"

definition channel_answer :: "pystr option \<Rightarrow> channel_result" where
  "channel_answer failure = \<lparr>ch_attempted = True, ch_delivered = (failure = None), ch_error = failure\<rparr>"

record notify_config =
  nc_enabled :: bool
  nc_ntfy_topic :: "pystr option"
  nc_ntfy_url :: pystr
  nc_acknowledged :: bool
  nc_sender_names :: "(pystr \<times> pystr option) list"

text \<open>\<open>ntfy_topic\<close> as a condition: neither \<open>None\<close> nor empty.\<close>

definition topic_of :: "notify_config \<Rightarrow> pystr option" where
  "topic_of c = (case nc_ntfy_topic c of None \<Rightarrow> None | Some t \<Rightarrow> if t = [] then None else Some t)"

text \<open>
  What a channel answers: \<open>None\<close> for success or the text of its error. \<open>an_before\<close> and \<open>an_push\<close> are
  the answers of the two calls of \<open>source_start\<close>. In a dry run the channels print and succeed.
\<close>

record channel_answers =
  an_before :: bool
  an_push :: bool
  an_desktop :: "pystr option"
  an_ntfy :: "pystr option"

definition deliver ::
  "notify_config \<Rightarrow> bool \<Rightarrow> channel_answers \<Rightarrow> pystr \<Rightarrow> pystr \<Rightarrow> pystr \<Rightarrow> int \<Rightarrow> push list \<times> (pystr + delivery_result)" where
  "deliver c dry_run a title body urgency priority =
     (if \<not> an_before a then ([], Inr \<lparr>dr_desktop = not_attempted, dr_ntfy = not_attempted\<rparr>)
      else if topic_of c \<noteq> None \<and> \<not> nc_acknowledged c
      then ([], Inl (lit ''ntfy content disclosure must be acknowledged before delivery''))
      else
        (let desktop = channel_answer (if dry_run then None else an_desktop a);
             suppressed = (topic_of c \<noteq> None \<and> \<not> an_push a);
             ntfy = (if topic_of c = None \<or> suppressed then not_attempted
                     else channel_answer (if dry_run then None else an_ntfy a));
             r = \<lparr>dr_desktop = desktop, dr_ntfy = ntfy\<rparr>;
             sent = (if dry_run then [] else Desktop urgency title body #
               (case topic_of c of
                  None \<Rightarrow> []
                | Some t \<Rightarrow> if suppressed then [] else [Ntfy t (nc_ntfy_url c) title body priority])) in
         (sent, if \<not> delivered r \<and> \<not> suppressed then Inl (join_with (lit ''; '') (failures r)) else Inr r)))"

definition PARTIAL_SUMMARY_NOTE :: pystr where
  "PARTIAL_SUMMARY_NOTE = lit ''Summary covers only the beginning of a long email.''"

definition ntfy_priority :: "pystr \<Rightarrow> int" where
  "ntfy_priority p = (if p = lit ''urgent'' then 5 else if p = lit ''high'' then 4
     else if p = lit ''normal'' then 3 else if p = lit ''low'' then 2 else 3)"

definition title_of :: "pystr \<Rightarrow> pystr \<Rightarrow> pystr" where
  "title_of label subject = label @ lit '': '' @ subject"

definition optional_line :: "string \<Rightarrow> pystr option \<Rightarrow> pystr list" where
  "optional_line prefix value = (case value of None \<Rightarrow> [] | Some v \<Rightarrow> if v = [] then [] else [lit prefix @ v])"

definition analysis_body :: "analysis_result \<Rightarrow> bool \<Rightarrow> pystr" where
  "analysis_body r partial_summary =
     join_with [10] ([rs_summary r] @ optional_line ''Next: '' (rs_suggested_action r)
       @ optional_line ''Deadline: '' (rs_deadline_iso r) @ (if partial_summary then [PARTIAL_SUMMARY_NOTE] else []))"

definition send_analysis ::
  "notify_config \<Rightarrow> bool \<Rightarrow> channel_answers \<Rightarrow> pystr \<Rightarrow> pystr \<Rightarrow> analysis_result \<Rightarrow> bool \<Rightarrow> push list \<times> (pystr + delivery_result)" where
  "send_analysis c dry_run a label subject r partial_summary =
     deliver c dry_run a (title_of label subject) (analysis_body r partial_summary)
       (if rs_priority r = lit ''urgent'' then lit ''critical'' else lit ''normal'') (ntfy_priority (rs_priority r))"

definition send_fallback ::
  "notify_config \<Rightarrow> bool \<Rightarrow> channel_answers \<Rightarrow> pystr \<Rightarrow> pystr \<Rightarrow> push list \<times> (pystr + delivery_result)" where
  "send_fallback c dry_run a label subject =
     deliver c dry_run a (title_of label subject)
       (lit ''A watched email arrived. Local summary unavailable; it will be retried.'') (lit ''normal'') 3"

definition send_review ::
  "notify_config \<Rightarrow> bool \<Rightarrow> channel_answers \<Rightarrow> pystr \<Rightarrow> pystr \<Rightarrow> pystr \<Rightarrow> push list \<times> (pystr + delivery_result)" where
  "send_review c dry_run a label subject body =
     deliver c dry_run a (title_of label subject) body (lit ''normal'') 3"

definition sender_label :: "notify_config \<Rightarrow> pystr \<Rightarrow> pystr option \<Rightarrow> pystr" where
  "sender_label c sender sender_name =
     (case map_of (nc_sender_names c) sender of
        Some (Some n) \<Rightarrow> if n \<noteq> [] then n else (case sender_name of Some m \<Rightarrow> if m \<noteq> [] then m else sender | None \<Rightarrow> sender)
      | _ \<Rightarrow> (case sender_name of Some m \<Rightarrow> if m \<noteq> [] then m else sender | None \<Rightarrow> sender))"

section \<open>Intents\<close>

text \<open>\<open>isoformat\<close> prints a time as the stored text; \<open>py_int\<close> is \<open>int(text)\<close>, or the error.\<close>

record textenv =
  isoformat :: "instant \<Rightarrow> pystr"
  py_int :: "pystr \<Rightarrow> int option"

record notification_intent =
  ni_subject_type :: pystr
  ni_subject_id :: pystr
  ni_revision :: pystr
  ni_message_id :: pystr
  ni_kind :: pystr
  ni_sender :: pystr
  ni_sender_name :: "pystr option"
  ni_subject :: pystr
  ni_analysis_at :: "pystr option"
  ni_priority :: "pystr option"
  ni_summary :: "pystr option"
  ni_suggested_action :: "pystr option"
  ni_deadline_iso :: "pystr option"
  ni_last_error :: "pystr option"
  ni_body_chars :: "int option"
  ni_body_source_chars :: "int option"
  ni_sort_at :: pystr

definition wants_notification :: "analysis_row \<Rightarrow> bool" where
  "wants_notification m \<longleftrightarrow>
     me_status m = M_analyzed \<and> me_notified_at m = None
     \<or> me_status m = M_pending \<and> me_last_error m \<noteq> None \<and> me_fallback_notified_at m = None"

definition message_intent :: "textenv \<Rightarrow> analysis_row \<Rightarrow> notification_intent" where
  "message_intent tx m =
     \<lparr>ni_subject_type = lit ''message'', ni_subject_id = (case mg_message_id m of Some i \<Rightarrow> i | None \<Rightarrow> []),
      ni_revision = (case me_analysis_at m of Some t \<Rightarrow> isoformat tx t | None \<Rightarrow> lit ''fallback''),
      ni_message_id = (case mg_message_id m of Some i \<Rightarrow> i | None \<Rightarrow> []),
      ni_kind = (if me_status m = M_analyzed then lit ''analysis'' else lit ''fallback''),
      ni_sender = sr_sender m, ni_sender_name = sr_sender_name m, ni_subject = sr_subject m,
      ni_analysis_at = map_option (isoformat tx) (me_analysis_at m),
      ni_priority = map_option rs_priority (me_result m), ni_summary = map_option rs_summary (me_result m),
      ni_suggested_action = (case me_result m of None \<Rightarrow> None | Some r \<Rightarrow> rs_suggested_action r),
      ni_deadline_iso = (case me_result m of None \<Rightarrow> None | Some r \<Rightarrow> rs_deadline_iso r),
      ni_last_error = me_last_error m, ni_body_chars = me_body_chars m, ni_body_source_chars = me_body_source_chars m,
      ni_sort_at = sr_received_at m\<rparr>"

definition review_summary :: "pystr option \<Rightarrow> pystr" where
  "review_summary failure_code =
     (if failure_code = Some (lit ''validation_rejected'') then lit ''A scheduling mention could not be validated safely.''
      else if failure_code = Some (lit ''reschedule_not_supported'') then lit ''A reschedule request needs manual review.''
      else if failure_code = Some (lit ''cancellation_not_supported'') then lit ''A cancellation request needs manual review.''
      else if failure_code = Some (lit ''source_unavailable'') then lit ''The scheduling source is no longer available for review.''
      else if failure_code = Some (lit ''source_changed'') then lit ''The scheduling source changed before extraction completed.''
      else if failure_code = Some (lit ''source_invalid'') then lit ''The scheduling source could not be processed safely.''
      else lit ''A scheduling mention needs manual review.'')"

text \<open>The scheduling tables with the messages and removals of this store.\<close>

definition calendar_view :: "analysis_store \<Rightarrow> calendar_store" where
  "calendar_view st = (an_calendar st)\<lparr>cs_sources := (cs_sources (an_calendar st))
     \<lparr>so_messages := map source_row.truncate (an_messages st), so_removal := st_removal (an_connect st)\<rparr>\<rparr>"

definition run_of_a_child_row :: "pyenv \<Rightarrow> analysis_store \<Rightarrow> automation_run \<Rightarrow> bool" where
  "run_of_a_child_row env st r \<longleftrightarrow>
     list_ex (\<lambda>m. sr_logical_of m \<noteq> None \<and> mg_provider m = ar_provider r \<and> mg_account_id m = ar_account_id r
       \<and> message_source_key env (mg_provider m) (mg_account_id m) (mg_provider_message_id m) (mg_mailbox_identity_key m)
         = Some (ar_source_message_key r)) (an_messages st)"

definition wants_review :: "pyenv \<Rightarrow> analysis_store \<Rightarrow> automation_run \<Rightarrow> bool" where
  "wants_review env st r \<longleftrightarrow> ar_state r \<in> {R_ambiguous, R_manual_review, R_source_unavailable}
     \<and> ar_review_notified_at r = None \<and> \<not> run_of_a_child_row env st r
     \<and> automation_source_available_row env True (calendar_view st) r"

definition review_intent :: "textenv \<Rightarrow> automation_run \<Rightarrow> source_row option \<Rightarrow> notification_intent" where
  "review_intent tx r m =
     \<lparr>ni_subject_type = lit ''automation_run'', ni_subject_id = ar_run_id r, ni_revision = int_digits (ar_state_version r),
      ni_message_id = ar_run_id r, ni_kind = lit ''automation_review'',
      ni_sender = (case m of Some x \<Rightarrow> sr_sender x | None \<Rightarrow> lit ''Email Watcher''),
      ni_sender_name = (case m of Some x \<Rightarrow> sr_sender_name x | None \<Rightarrow> None),
      ni_subject = (case m of Some x \<Rightarrow> sr_subject x | None \<Rightarrow> lit ''Scheduling request''),
      ni_analysis_at = Some (isoformat tx (ar_updated_at r)), ni_priority = Some (lit ''normal''),
      ni_summary = Some (review_summary (ar_failure_code r)), ni_suggested_action = None, ni_deadline_iso = None,
      ni_last_error = ar_failure_code r, ni_body_chars = None, ni_body_source_chars = None,
      ni_sort_at = isoformat tx (ar_updated_at r)\<rparr>"

text \<open>The left join with the messages of the run's source: one intent per message, or one without.\<close>

definition review_intents :: "pyenv \<Rightarrow> textenv \<Rightarrow> analysis_store \<Rightarrow> automation_run \<Rightarrow> notification_intent list" where
  "review_intents env tx st r =
     (case filter (automation_message_binding env (calendar_view st) r) (so_messages (cs_sources (calendar_view st))) of
        [] \<Rightarrow> [review_intent tx r None]
      | ms \<Rightarrow> map (\<lambda>m. review_intent tx r (Some m)) ms)"

definition all_intents :: "pyenv \<Rightarrow> textenv \<Rightarrow> analysis_store \<Rightarrow> notification_intent list" where
  "all_intents env tx st =
     map (message_intent tx) (filter wants_notification (readable_messages st))
     @ concat (map (review_intents env tx st) (filter (wants_review env st) (cs_runs (an_calendar st))))"

definition notification_intents ::
  "pyenv \<Rightarrow> textenv \<Rightarrow> nat \<Rightarrow> pystr option \<Rightarrow> analysis_store \<Rightarrow> notification_intent list" where
  "notification_intents env tx limit kind st =
     take limit (sort_key ni_sort_at (filter (\<lambda>i. opt_all (\<lambda>k. ni_kind i = k) kind) (all_intents env tx st)))"

definition notification_intent_count :: "pyenv \<Rightarrow> analysis_store \<Rightarrow> nat" where
  "notification_intent_count env st =
     count_where wants_notification (readable_messages st) + count_where (wants_review env st) (cs_runs (an_calendar st))"

section \<open>Acknowledgement\<close>

datatype acknowledgement = Acknowledged | Already_acknowledged

definition or_text :: "pystr option \<Rightarrow> pystr option \<Rightarrow> pystr option" where
  "or_text a b = (case a of None \<Rightarrow> b | Some s \<Rightarrow> if s = [] then b else Some s)"

definition check_subject :: "pystr \<Rightarrow> pystr option \<Rightarrow> pystr option \<Rightarrow> pystr option \<Rightarrow> err + unit" where
  "check_subject message_id subject_type subject_id revision =
     (if subject_type = None \<and> subject_id = None \<and> revision = None then Inr ()
      else
        andThen (require (or_text subject_type None \<noteq> None \<and> or_text subject_id None \<noteq> None \<and> revision \<noteq> None)
            (ValueError ''Notification subject identity must be complete'')) (\<lambda>_.
        require (Some message_id = subject_id)
            (ValueError ''Notification compatibility identity does not match its subject'')))"

definition acknowledge_review ::
  "pyenv \<Rightarrow> instant \<Rightarrow> pystr \<Rightarrow> int \<Rightarrow> analysis_store \<Rightarrow> err + analysis_store \<times> acknowledgement" where
  "acknowledge_review env now run_id state_version st =
     andThen (require (automation_source_available env (calendar_view st) run_id) KeyError) (\<lambda>_.
     andThen (the_row KeyError (find_run (an_calendar st) run_id)) (\<lambda>row.
     andThen (require (ar_state_version row = state_version
           \<and> ar_state row \<in> {R_ambiguous, R_manual_review, R_source_unavailable})
         (RuntimeError ''Automation notification intent is no longer current'')) (\<lambda>_.
     if ar_review_notified_at row \<noteq> None then Inr (st, Already_acknowledged)
     else
       andThen (update_run ''Automation notification acknowledgement lost its race''
           (\<lambda>r. ar_run_id r = run_id \<and> ar_state_version r = state_version \<and> ar_review_notified_at r = None)
           (\<lambda>r. r\<lparr>ar_review_notified_at := Some now\<rparr>) (an_calendar st)) (\<lambda>calendar.
       Inr (st\<lparr>an_calendar := calendar\<rparr>, Acknowledged)))))"

definition acknowledge_message ::
  "textenv \<Rightarrow> instant \<Rightarrow> pystr \<Rightarrow> pystr \<Rightarrow> pystr option \<Rightarrow> analysis_store \<Rightarrow> err + analysis_store \<times> acknowledgement" where
  "acknowledge_message tx now message_id kind analysis_at st =
     andThen (require (message_content_available st message_id) KeyError) (\<lambda>_.
     andThen (the_row KeyError (find_message st message_id)) (\<lambda>row.
     if kind = lit ''fallback'' then
       (if me_fallback_notified_at row \<noteq> None then Inr (st, Already_acknowledged)
        else
          andThen (require (me_status row = M_pending \<and> me_last_error row \<noteq> None)
              (RuntimeError ''Fallback notification intent is no longer current'')) (\<lambda>_.
          Inr (update_message (is_message message_id) (\<lambda>m. m\<lparr>me_fallback_notified_at := Some now\<rparr>) st, Acknowledged)))
     else
       andThen (require (map_option (isoformat tx) (me_analysis_at row) = analysis_at)
           (RuntimeError ''Analysis notification intent is no longer current'')) (\<lambda>_.
       if me_status row = M_summarized \<and> me_notified_at row \<noteq> None then Inr (st, Already_acknowledged)
       else
         andThen (require (me_status row = M_analyzed)
             (RuntimeError ''Analysis notification intent is no longer current'')) (\<lambda>_.
         Inr (update_message (is_message message_id)
             (\<lambda>m. m\<lparr>me_status := M_summarized, me_next_retry_at := None, me_last_error := None,
                     me_notified_at := Some now\<rparr>) st, Acknowledged)))))"

definition acknowledge_notification ::
  "pyenv \<Rightarrow> textenv \<Rightarrow> instant \<Rightarrow> pystr \<Rightarrow> pystr \<Rightarrow> pystr option \<Rightarrow> pystr option \<Rightarrow> pystr option \<Rightarrow> pystr option
     \<Rightarrow> analysis_store \<Rightarrow> err + analysis_store \<times> acknowledgement" where
  "acknowledge_notification env tx now message_id kind analysis_at subject_type subject_id revision st =
     andThen (require (kind \<in> {lit ''analysis'', lit ''fallback'', lit ''automation_review''})
         (ValueError ''Notification kind is not supported'')) (\<lambda>_.
     andThen (check_subject message_id subject_type subject_id revision) (\<lambda>_.
     if kind = lit ''automation_review'' then
       andThen (require (subject_type \<in> {None, Some (lit ''automation_run'')})
           (ValueError ''Automation notification subject is invalid'')) (\<lambda>_.
       andThen (the_row (ValueError ''Automation notification revision is invalid'')
           (py_int tx (case or_text revision analysis_at of None \<Rightarrow> [] | Some s \<Rightarrow> s))) (\<lambda>state_version.
       acknowledge_review env now (case or_text subject_id None of None \<Rightarrow> message_id | Some i \<Rightarrow> i) state_version st))
     else
       andThen (require (kind = lit ''analysis'' \<longrightarrow> or_text analysis_at None \<noteq> None)
           (ValueError ''analysis_at is required for an analysis notification'')) (\<lambda>_.
       acknowledge_message tx now message_id kind analysis_at st)))"

end
