(* ===== verification/Analysis_Service.thy ===== *)
theory Analysis_Service
  imports Notifications
begin

text \<open>
  The analysis pass of \<open>service.py\<close>: \<open>_process_pending\<close> with \<open>_send_fallback\<close>, \<open>_deliver_analysis\<close> and
  \<open>_deliver_automation_review_intent\<close>. It delivers what is waiting, then takes every pending message
  of the mailbox through reservation, fetch, model and completion.

  The mailbox, the model and the notification channels are inputs: \<open>world\<close> says for every message
  what they answer. The pass returns the store, the effects it had in order and its two counters.
  An error of a store operation ends the pass where it happens, after the transactions before it.
  Time stands still while one message is handled. In a dry run nothing is written.
\<close>

section \<open>Inputs and effects\<close>

datatype content_answer =
    Content "pystr option" "attachment_descriptor list" int int
      \<comment> \<open>the copy that served it, the attachments, the length of the body and of its source\<close>
  | Message_unavailable
  | Message_invalid pystr pystr \<comment> \<open>text and code\<close>

datatype model_answer =
    Answered analysis_result
  | Output_rejected pystr pystr pystr \<comment> \<open>text, code and request id\<close>
  | Gateway_failed pystr bool "pystr option" "int option" \<comment> \<open>text, retryable, code and delay\<close>
  | Model_failed pystr

datatype send_kind = Send_fallback | Send_analysis | Send_review

record world =
  wo_now :: "pystr \<Rightarrow> instant"
  wo_request_id :: "pystr \<Rightarrow> pystr"
  wo_context_at :: "pystr \<Rightarrow> pystr"
  wo_content :: "pystr \<Rightarrow> int \<Rightarrow> content_answer"
  wo_model :: "pystr \<Rightarrow> pystr option \<Rightarrow> model_answer"
  wo_channels :: "send_kind \<Rightarrow> pystr \<Rightarrow> channel_answers"
  wo_within :: "pystr \<Rightarrow> bool"
  wo_principal :: "pystr \<Rightarrow> pystr option"
  wo_fire_ids :: "pystr \<Rightarrow> nat \<Rightarrow> pystr \<times> pystr"
  wo_run_id :: "pystr \<Rightarrow> pystr"
  wo_run_event :: "pystr \<Rightarrow> pystr"

record pass_config =
  pc_notify :: notify_config
  pc_body_char_limit :: int
  pc_provider :: pystr
  pc_account_id :: pystr
  pc_mailbox_identity_key :: pystr
  pc_dry_run :: bool
  pc_deliver :: bool

datatype pass_effect =
    Pushed send_kind pystr push
  | Fetched pystr int
  | Model_called pystr "pystr option"
  | Result_acknowledged pystr bool

record pass =
  ps_store :: analysis_store
  ps_effects :: "pass_effect list"
  ps_summarized :: nat
  ps_fallback :: nat

type_synonym outcome = "(err \<times> pass) + pass"

text \<open>A store operation inside the pass.\<close>

definition stored :: "pass \<Rightarrow> err + analysis_store \<Rightarrow> outcome" where
  "stored p r = (case r of Inl e \<Rightarrow> Inl (e, p) | Inr st \<Rightarrow> Inr (p\<lparr>ps_store := st\<rparr>))"

definition observed :: "pass_effect list \<Rightarrow> pass \<Rightarrow> pass" where
  "observed es p = p\<lparr>ps_effects := ps_effects p @ es\<rparr>"

text \<open>What the senders read of a pending message, an analysed message or an intent.\<close>

record notice =
  nt_message_id :: pystr
  nt_sender :: pystr
  nt_sender_name :: "pystr option"
  nt_subject :: pystr
  nt_fallback_notified :: bool

definition notice_of :: "analysis_row \<Rightarrow> notice" where
  "notice_of m = \<lparr>nt_message_id = (case mg_message_id m of Some i \<Rightarrow> i | None \<Rightarrow> []), nt_sender = sr_sender m,
     nt_sender_name = sr_sender_name m, nt_subject = sr_subject m,
     nt_fallback_notified = (me_fallback_notified_at m \<noteq> None)\<rparr>"

definition notice_of_intent :: "notification_intent \<Rightarrow> notice" where
  "notice_of_intent i = \<lparr>nt_message_id = ni_message_id i, nt_sender = ni_sender i, nt_sender_name = ni_sender_name i,
     nt_subject = ni_subject i, nt_fallback_notified = False\<rparr>"

text \<open>The answers of the channels; \<open>source_start\<close> asks the store.\<close>

definition answers_for :: "world \<Rightarrow> send_kind \<Rightarrow> pystr \<Rightarrow> bool \<Rightarrow> channel_answers" where
  "answers_for w kind message_id eligible =
     (wo_channels w kind message_id)\<lparr>an_before := eligible, an_push := eligible\<rparr>"

section \<open>Sending\<close>

definition send_fallback_for :: "pass_config \<Rightarrow> world \<Rightarrow> notice \<Rightarrow> pass \<Rightarrow> pass \<times> nat" where
  "send_fallback_for c w n p =
     (if \<not> nc_enabled (pc_notify c) \<or> nt_fallback_notified n then (p, 0)
      else
        (let (sent, result) = send_fallback (pc_notify c) (pc_dry_run c)
               (answers_for w Send_fallback (nt_message_id n) (message_content_available (ps_store p) (nt_message_id n)))
               (sender_label (pc_notify c) (nt_sender n) (nt_sender_name n)) (nt_subject n);
             p = observed (map (Pushed Send_fallback (nt_message_id n)) sent) p in
         case result of
           Inl _ \<Rightarrow> (p, 0)
         | Inr r \<Rightarrow>
             if \<not> delivered r then (p, 0)
             else if pc_dry_run c then (p, 1)
             else (p\<lparr>ps_store := mark_fallback_notified (wo_now w (nt_message_id n)) (nt_message_id n) (ps_store p)\<rparr>, 1)))"

text \<open>\<open>with suppress(KeyError)\<close>: an accepted removal may have taken the run.\<close>

definition acknowledge_intent ::
  "pyenv \<Rightarrow> textenv \<Rightarrow> world \<Rightarrow> notification_intent \<Rightarrow> pass \<Rightarrow> outcome" where
  "acknowledge_intent env tx w i p =
     (case acknowledge_notification env tx (wo_now w (ni_subject_id i)) (ni_message_id i) (ni_kind i)
        (ni_analysis_at i) (Some (ni_subject_type i)) (Some (ni_subject_id i)) (Some (ni_revision i)) (ps_store p) of
        Inl e \<Rightarrow> if e = KeyError then Inr p else Inl (e, p)
      | Inr (st, _) \<Rightarrow> Inr (p\<lparr>ps_store := st\<rparr>))"

definition deliver_automation_review ::
  "pyenv \<Rightarrow> textenv \<Rightarrow> pass_config \<Rightarrow> world \<Rightarrow> notification_intent \<Rightarrow> pass \<Rightarrow> outcome" where
  "deliver_automation_review env tx c w i p =
     (if \<not> nc_enabled (pc_notify c) then Inr p
      else
        (let (sent, result) = send_review (pc_notify c) (pc_dry_run c)
               (answers_for w Send_review (ni_subject_id i)
                 (automation_source_available env (calendar_view (ps_store p)) (ni_subject_id i)))
               (sender_label (pc_notify c) (ni_sender i) (ni_sender_name i)) (ni_subject i)
               (case or_text (ni_summary i) None of None \<Rightarrow> lit ''A scheduling mention needs manual review.'' | Some s \<Rightarrow> s);
             p = observed (map (Pushed Send_review (ni_subject_id i)) sent) p in
         case result of
           Inl _ \<Rightarrow> Inr p
         | Inr r \<Rightarrow>
             if \<not> delivered r \<or> pc_dry_run c then Inr p
             else acknowledge_intent env tx w i p))"

definition complete_delivery :: "pass_config \<Rightarrow> world \<Rightarrow> pystr \<Rightarrow> bool \<Rightarrow> pass \<Rightarrow> pass" where
  "complete_delivery c w message_id notified p =
     (if pc_dry_run c then p
      else p\<lparr>ps_store := mark_delivery_complete (wo_now w message_id) message_id notified (ps_store p)\<rparr>)"

text \<open>\<open>attempts\<close> is the count the retry delay is computed from.\<close>

definition delivery_failed :: "pass_config \<Rightarrow> world \<Rightarrow> notice \<Rightarrow> int \<Rightarrow> pystr \<Rightarrow> pass \<Rightarrow> outcome" where
  "delivery_failed c w n attempts failure p =
     (let (p, k) = send_fallback_for c w n p in
      andThen (if pc_dry_run c then Inr p
               else stored p (record_failure (wo_now w (nt_message_id n)) (nt_message_id n) failure attempts (ps_store p)))
        (\<lambda>p. Inr (p\<lparr>ps_fallback := ps_fallback p + k\<rparr>)))"

definition deliver_analysis ::
  "pass_config \<Rightarrow> world \<Rightarrow> notice \<Rightarrow> analysis_result \<Rightarrow> int \<Rightarrow> bool \<Rightarrow> pass \<Rightarrow> outcome" where
  "deliver_analysis c w n r attempts partial_summary p =
     (if \<not> nc_enabled (pc_notify c) then Inr (complete_delivery c w (nt_message_id n) False p)
      else
        (let (sent, result) = send_analysis (pc_notify c) (pc_dry_run c)
               (answers_for w Send_analysis (nt_message_id n) (message_content_available (ps_store p) (nt_message_id n)))
               (sender_label (pc_notify c) (nt_sender n) (nt_sender_name n)) (nt_subject n) r partial_summary;
             p = observed (map (Pushed Send_analysis (nt_message_id n)) sent) p in
         case result of
           Inl failure \<Rightarrow> delivery_failed c w n attempts failure p
         | Inr d \<Rightarrow>
             if \<not> delivered d then Inr p else Inr (complete_delivery c w (nt_message_id n) True p)))"

definition body_was_truncated :: "int option \<Rightarrow> int option \<Rightarrow> bool option" where
  "body_was_truncated chars source_chars =
     (case (chars, source_chars) of (Some c, Some s) \<Rightarrow> Some (c < s) | _ \<Rightarrow> None)"

text \<open>
  \<open>_stored_analysis\<close>: the analysis as it was stored. A row without one cannot be validated by the
  \<open>Analysis\<close> model; such rows are not analysed.
\<close>

definition stored_analysis :: "analysis_row \<Rightarrow> err + analysis_result" where
  "stored_analysis m = the_row (ValueError ''Analysis'') (me_result m)"

section \<open>One message\<close>

definition note_failure ::
  "pass_config \<Rightarrow> world \<Rightarrow> analysis_row \<Rightarrow> pystr \<Rightarrow> pystr \<Rightarrow> bool \<Rightarrow> pystr option \<Rightarrow> int option \<Rightarrow> pass \<Rightarrow> outcome" where
  "note_failure c w m message_id error retryable code retry_after p =
     (if pc_dry_run c then Inr p
      else stored p (record_analysis_failure (wo_now w message_id) message_id error (me_attempts m) retryable code retry_after (ps_store p)))"

text \<open>The fallback notification of a handled failure, then the failure itself.\<close>

definition failed_message ::
  "pass_config \<Rightarrow> world \<Rightarrow> analysis_row \<Rightarrow> pystr \<Rightarrow> pystr \<Rightarrow> bool \<Rightarrow> pystr option \<Rightarrow> int option \<Rightarrow> pass \<Rightarrow> outcome" where
  "failed_message c w m message_id error retryable code retry_after p =
     (let (p, k) = (if pc_deliver c then send_fallback_for c w (notice_of m) p else (p, 0)) in
      note_failure c w m message_id error retryable code retry_after (p\<lparr>ps_fallback := ps_fallback p + k\<rparr>))"

definition completion_of :: "pass_config \<Rightarrow> world \<Rightarrow> pystr \<Rightarrow> analysis_result \<Rightarrow> int \<Rightarrow> int \<Rightarrow> completion" where
  "completion_of c w message_id r chars source_chars =
     \<lparr>co_result = r, co_mailbox_identity_key = pc_mailbox_identity_key c, co_body_chars = Some chars,
      co_body_source_chars = Some source_chars,
      co_principal_key = (if rs_category r = lit ''scheduling'' then wo_principal w message_id else None)\<rparr>"

definition analyzed_message ::
  "pyenv \<Rightarrow> (json \<Rightarrow> rule_definition option) \<Rightarrow> (bytes \<Rightarrow> pystr option) \<Rightarrow> pass_config \<Rightarrow> world \<Rightarrow> analysis_row \<Rightarrow> pystr
     \<Rightarrow> pystr option \<Rightarrow> analysis_result \<Rightarrow> int \<Rightarrow> int \<Rightarrow> pass \<Rightarrow> outcome" where
  "analyzed_message env shape wide c w m message_id request_id r chars source_chars p =
     andThen (if pc_dry_run c then Inr p
       else
         andThen (stored p (mark_analyzed env shape wide (wo_fire_ids w message_id) (wo_run_id w message_id)
             (wo_run_event w message_id) (wo_now w message_id) message_id
             (completion_of c w message_id r chars source_chars) (ps_store p))) (\<lambda>p.
         Inr (observed (case request_id of None \<Rightarrow> [] | Some q \<Rightarrow> [Result_acknowledged q True]) p))) (\<lambda>p.
     (let p = p\<lparr>ps_summarized := ps_summarized p + 1\<rparr> in
      if pc_deliver c
      then deliver_analysis c w (notice_of m) r 0 (body_was_truncated (Some chars) (Some source_chars) = Some True) p
      else if \<not> nc_enabled (pc_notify c) then Inr (complete_delivery c w message_id False p) else Inr p))"

definition reserve_request ::
  "pass_config \<Rightarrow> world \<Rightarrow> pystr \<Rightarrow> pass \<Rightarrow> (err \<times> pass) + pass \<times> pystr option \<times> int" where
  "reserve_request c w message_id p =
     (if pc_dry_run c then Inr (p, None, pc_body_char_limit c)
      else (case reserve_analysis_request (wo_request_id w message_id) (wo_context_at w message_id) message_id
               (pc_body_char_limit c) (ps_store p) of
              Inl e \<Rightarrow> Inl (e, p)
            | Inr (st, q) \<Rightarrow> Inr (p\<lparr>ps_store := st\<rparr>, Some (aq_request_id q), aq_body_char_limit q)))"

definition ask_model ::
  "pyenv \<Rightarrow> (json \<Rightarrow> rule_definition option) \<Rightarrow> (bytes \<Rightarrow> pystr option) \<Rightarrow> pass_config \<Rightarrow> world \<Rightarrow> analysis_row \<Rightarrow> pystr
     \<Rightarrow> pystr option \<Rightarrow> int \<Rightarrow> int \<Rightarrow> pass \<Rightarrow> outcome" where
  "ask_model env shape wide c w m message_id request_id chars source_chars p =
     (let p = observed [Model_called message_id request_id] p in
      case wo_model w message_id request_id of
        Answered r \<Rightarrow> analyzed_message env shape wide c w m message_id request_id r chars source_chars p
      | Output_rejected error code rejected \<Rightarrow>
          andThen (failed_message c w m message_id error False (Some code) None p) (\<lambda>p.
          Inr (if pc_dry_run c then p else observed [Result_acknowledged rejected False] p))
      | Gateway_failed error retryable code retry_after \<Rightarrow>
          failed_message c w m message_id error retryable code retry_after p
      | Model_failed error \<Rightarrow> failed_message c w m message_id error True None None p)"

definition process_message ::
  "pyenv \<Rightarrow> (json \<Rightarrow> rule_definition option) \<Rightarrow> (bytes \<Rightarrow> pystr option) \<Rightarrow> pass_config \<Rightarrow> world \<Rightarrow> analysis_row \<Rightarrow> pass
     \<Rightarrow> outcome" where
  "process_message env shape wide c w m p =
     (let message_id = (case mg_message_id m of Some i \<Rightarrow> i | None \<Rightarrow> []) in
      if mg_mailbox_identity_key m \<noteq> Some (pc_mailbox_identity_key c)
      then note_failure c w m message_id (lit ''Message mailbox identity could not be verified'') False
             (Some (lit ''mailbox_identity_unverified'')) None p
      else
        andThen (reserve_request c w message_id p) (\<lambda>(p, request_id, limit).
        (let p = observed [Fetched message_id limit] p in
         case wo_content w message_id limit of
           Message_unavailable \<Rightarrow>
             Inr (if pc_dry_run c then p else p\<lparr>ps_store := mark_skipped message_id (ps_store p)\<rparr>)
         | Message_invalid error code \<Rightarrow> failed_message c w m message_id error False (Some code) None p
         | Content served_by attachments chars source_chars \<Rightarrow>
             andThen (if pc_dry_run c then Inr p
                      else stored p (replace_attachments message_id attachments served_by (ps_store p)))
               (ask_model env shape wide c w m message_id request_id chars source_chars))))"

section \<open>The pass\<close>

fun each :: "('a \<Rightarrow> pass \<Rightarrow> outcome) \<Rightarrow> 'a list \<Rightarrow> pass \<Rightarrow> outcome" where
  "each f [] p = Inr p"
| "each f (x # xs) p = andThen (f x p) (each f xs)"

definition send_waiting_fallback :: "pass_config \<Rightarrow> world \<Rightarrow> notification_intent \<Rightarrow> pass \<Rightarrow> outcome" where
  "send_waiting_fallback c w i p =
     (let (p, k) = send_fallback_for c w (notice_of_intent i) p in Inr (p\<lparr>ps_fallback := ps_fallback p + k\<rparr>))"

definition deliver_waiting :: "pass_config \<Rightarrow> world \<Rightarrow> analysis_row \<Rightarrow> pass \<Rightarrow> outcome" where
  "deliver_waiting c w m p =
     (let message_id = (case mg_message_id m of Some i \<Rightarrow> i | None \<Rightarrow> []) in
      if \<not> wo_within w message_id then Inr p
      else if pc_deliver c then
        (case stored_analysis m of
           Inl e \<Rightarrow> Inl (e, p)
         | Inr r \<Rightarrow> deliver_analysis c w (notice_of m) r (me_attempts m)
             (body_was_truncated (me_body_chars m) (me_body_source_chars m) = Some True) p)
      else if \<not> nc_enabled (pc_notify c) then Inr (complete_delivery c w message_id False p) else Inr p)"

text \<open>\<open>extra\<close> are the previews of a dry run, which are not stored; the clock at the start is \<open>now\<close>.\<close>

definition process_pending ::
  "pyenv \<Rightarrow> textenv \<Rightarrow> (json \<Rightarrow> rule_definition option) \<Rightarrow> (bytes \<Rightarrow> pystr option) \<Rightarrow> pass_config \<Rightarrow> world \<Rightarrow> instant
     \<Rightarrow> analysis_row list \<Rightarrow> analysis_store \<Rightarrow> outcome" where
  "process_pending env tx shape wide c w now extra st =
     (let p = \<lparr>ps_store = st, ps_effects = [], ps_summarized = 0, ps_fallback = 0\<rparr> in
      andThen (if \<not> pc_deliver c then Inr p
        else
          andThen (each (send_waiting_fallback c w) (notification_intents env tx 25 (Some (lit ''fallback'')) (ps_store p)) p) (\<lambda>p.
          each (deliver_automation_review env tx c w)
            (notification_intents env tx 25 (Some (lit ''automation_review'')) (ps_store p)) p)) (\<lambda>p.
      andThen (each (deliver_waiting c w) (pending_delivery now 25 (ps_store p)) p) (\<lambda>p.
      (case pending now 25 (Some (pc_provider c)) (Some (pc_account_id c)) (ps_store p) of
         Inl e \<Rightarrow> Inl (e, p)
       | Inr queue \<Rightarrow>
           each (process_message env shape wide c w)
             (filter (\<lambda>m. wo_within w (case mg_message_id m of Some i \<Rightarrow> i | None \<Rightarrow> [])) queue @ extra) p))))"

end
