(* ===== verification/Analysis_Pass.thy ===== *)
theory Analysis_Pass
  imports Analysis_Service
begin

text \<open>
  Reasoning about a whole analysis pass from its elementary steps. \<open>pass_steps\<close> is the interface: a
  reflexive and transitive relation between the states of a pass that every elementary step
  respects. Then it relates the start of the pass to every point where the pass can end, errors
  included. Properties of the pass are interpretations of this locale.
\<close>

definition message_key :: "analysis_row \<Rightarrow> pystr" where
  "message_key m = (case mg_message_id m of Some i \<Rightarrow> i | None \<Rightarrow> [])"

definition start :: "analysis_store \<Rightarrow> pass" where
  "start st = \<lparr>ps_store = st, ps_effects = [], ps_summarized = 0, ps_fallback = 0\<rparr>"

fun final :: "outcome \<Rightarrow> pass" where
  "final (Inl (e, p)) = p"
| "final (Inr p) = p"

lemma answers_before: "an_before (answers_for w kind i eligible) = eligible"
  by (simp add: answers_for_def)

lemma observed_store [simp]: "ps_store (observed es p) = ps_store p"
  by (simp add: observed_def)

lemma observed_Nil [simp]: "observed [] p = p"
  by (simp add: observed_def)

text \<open>The request a pending message has reserved.\<close>

definition request_of :: "analysis_row \<Rightarrow> analysis_request option" where
  "request_of m =
     (case (me_request_id m, me_context_at m, me_body_char_limit m) of
        (Some r, Some x, Some l) \<Rightarrow> Some \<lparr>aq_request_id = r, aq_context_at = x, aq_body_char_limit = l\<rparr>
      | _ \<Rightarrow> None)"

definition current_request :: "analysis_store \<Rightarrow> pystr \<Rightarrow> analysis_request option" where
  "current_request st message_id =
     Option.bind (find_message st message_id) (\<lambda>m. if me_status m = M_pending then request_of m else None)"

text \<open>What a message is fetched and analysed with: the reserved request, or nothing in a dry run.\<close>

definition attempt :: "pass_config \<Rightarrow> analysis_store \<Rightarrow> pystr \<Rightarrow> pystr option \<Rightarrow> int \<Rightarrow> bool" where
  "attempt c st message_id request limit \<longleftrightarrow>
     (if pc_dry_run c then request = None
      else opt_all (\<lambda>q. request = Some (aq_request_id q) \<and> limit = aq_body_char_limit q) (current_request st message_id)
        \<and> current_request st message_id \<noteq> None)"

lemma find_message_update:
  assumes "\<And>m. mg_message_id (f m) = mg_message_id m"
  shows "find_message (update_message P f st) message_id = map_option (\<lambda>m. if P m then f m else m) (find_message st message_id)"
  unfolding find_message_def update_message_def
  using find_key_update [where k = mg_message_id and f = f and P = P and a = "Some message_id" and rows = "an_messages st"] assms
  by simp

lemma find_message_id: "find_message st message_id = Some m \<Longrightarrow> mg_message_id m = Some message_id"
  unfolding find_message_def using find_key_Some by fastforce

lemma find_message_cong: "an_messages st' = an_messages st \<Longrightarrow> find_message st' message_id = find_message st message_id"
  by (simp add: find_message_def)

lemma reserve_current:
  assumes "reserve_analysis_request request_id context_at i limit st = Inr (st', q)"
  shows "current_request st' i = Some q"
  using assms
  by (auto simp: reserve_analysis_request_def res_splits current_request_def request_of_def find_message_update
      is_message_def dest: find_message_id split: option.splits)

lemma replace_attachments_messages:
  "replace_attachments i attachments served_by st = Inr st' \<Longrightarrow> an_messages st' = an_messages st"
  by (auto simp: replace_attachments_def res_splits)

lemma attempt_cong: "an_messages st' = an_messages st \<Longrightarrow> attempt c st' i request limit = attempt c st i request limit"
  by (simp add: attempt_def current_request_def find_message_cong [of st' st])

text \<open>\<open>worked i\<close>: the messages that this pass may take up for analysis.\<close>

locale pass_steps =
  fixes c :: pass_config and R :: "pass \<Rightarrow> pass \<Rightarrow> bool" and worked :: "pystr \<Rightarrow> bool"
  assumes R_refl: "R p p" and R_trans: "R p p' \<Longrightarrow> R p' p'' \<Longrightarrow> R p p''"
    and R_summarized: "R p (p\<lparr>ps_summarized := k\<rparr>)" and R_fallback: "R p (p\<lparr>ps_fallback := k\<rparr>)"
    and R_pushed: "nc_enabled (pc_notify c) \<Longrightarrow>
      (kind \<noteq> Send_review \<Longrightarrow> an_before answers = message_content_available (ps_store p) i) \<Longrightarrow>
      R p (observed (map (Pushed kind i) (fst (deliver (pc_notify c) (pc_dry_run c) answers title body priority tags))) p)"
    and R_fetched: "worked i \<Longrightarrow> attempt c (ps_store p) i request limit \<Longrightarrow> R p (observed [Fetched i limit] p)"
    and R_called: "worked i \<Longrightarrow> attempt c (ps_store p) i request limit \<Longrightarrow> R p (observed [Model_called i request] p)"
    and R_acknowledged: "\<not> pc_dry_run c \<Longrightarrow> R p (observed [Result_acknowledged request_id accepted] p)"
    and R_fallback_notified: "\<not> pc_dry_run c \<Longrightarrow> R p (p\<lparr>ps_store := mark_fallback_notified now i (ps_store p)\<rparr>)"
    and R_complete: "\<not> pc_dry_run c \<Longrightarrow> R p (p\<lparr>ps_store := mark_delivery_complete now i notified (ps_store p)\<rparr>)"
    and R_failure: "\<not> pc_dry_run c \<Longrightarrow>
      record_failure now i error attempts (ps_store p) = Inr st \<Longrightarrow> R p (p\<lparr>ps_store := st\<rparr>)"
    and R_review: "\<not> pc_dry_run c \<Longrightarrow>
      acknowledge_notification env tx now i intent_kind analysis_at subject_type subject_id revision (ps_store p) = Inr (st, ack) \<Longrightarrow>
      R p (p\<lparr>ps_store := st\<rparr>)"
    and R_reserve: "\<not> pc_dry_run c \<Longrightarrow> worked i \<Longrightarrow>
      reserve_analysis_request request_id context_at i limit (ps_store p) = Inr (st, reserved) \<Longrightarrow> R p (p\<lparr>ps_store := st\<rparr>)"
    and R_analysis_failure: "\<not> pc_dry_run c \<Longrightarrow> worked i \<Longrightarrow>
      record_analysis_failure now i error attempts retryable code retry_after (ps_store p) = Inr st \<Longrightarrow> R p (p\<lparr>ps_store := st\<rparr>)"
    and R_skipped: "\<not> pc_dry_run c \<Longrightarrow> worked i \<Longrightarrow> R p (p\<lparr>ps_store := mark_skipped i (ps_store p)\<rparr>)"
    and R_attachments: "\<not> pc_dry_run c \<Longrightarrow> worked i \<Longrightarrow>
      replace_attachments i attachments served_by (ps_store p) = Inr st \<Longrightarrow> R p (p\<lparr>ps_store := st\<rparr>)"
    and R_analyzed: "\<not> pc_dry_run c \<Longrightarrow> worked i \<Longrightarrow>
      mark_analyzed env shape wide fresh run_id run_event now i completion (ps_store p) = Inr st \<Longrightarrow> R p (p\<lparr>ps_store := st\<rparr>)"
begin

lemma stored_step: "(\<And>st. r = Inr st \<Longrightarrow> R p (p\<lparr>ps_store := st\<rparr>)) \<Longrightarrow> R p (final (stored p r))"
  by (auto simp: stored_def R_refl split: sum.splits)

lemma andThen_step:
  assumes "R p (final r)" and "\<And>q. r = Inr q \<Longrightarrow> R q (final (f q))"
  shows "R p (final (andThen r f))"
proof (cases r)
  case (Inl x)
  then show ?thesis using assms(1) by simp
next
  case (Inr q)
  then show ?thesis using assms R_trans by auto
qed

lemma each_step:
  assumes "\<And>x p. x \<in> set xs \<Longrightarrow> R p (final (f x p))"
  shows "R p (final (each f xs p))"
  using assms
proof (induction xs arbitrary: p)
  case Nil
  then show ?case by (simp add: R_refl)
next
  case (Cons x xs)
  then show ?case by (simp add: andThen_step)
qed

lemmas senders = send_fallback_def send_analysis_def send_review_def

lemma send_fallback_step: "R p (fst (send_fallback_for c w n p))"
proof (cases "nc_enabled (pc_notify c)")
  case True
  obtain sent result where d: "send_fallback (pc_notify c) (pc_dry_run c)
       (answers_for w Send_fallback (nt_message_id n) (message_content_available (ps_store p) (nt_message_id n)))
       (sender_label (pc_notify c) (nt_sender n) (nt_sender_name n)) (nt_subject n) = (sent, result)"
    by (metis prod.exhaust)
  then have sent: "R p (observed (map (Pushed Send_fallback (nt_message_id n)) sent) p)"
    using R_pushed [OF True, of Send_fallback] by (metis fst_conv senders(1) answers_before)
  then show ?thesis
    using d R_trans [OF sent R_fallback_notified]
    by (auto simp: send_fallback_for_def Let_def R_refl split: sum.splits)
qed (simp add: send_fallback_for_def R_refl)

lemma complete_delivery_step: "R p (complete_delivery c w i b p)"
  by (simp add: complete_delivery_def R_refl R_complete)

lemma acknowledge_intent_step: "\<not> pc_dry_run c \<Longrightarrow> R p (final (acknowledge_intent env tx w i p))"
  by (auto simp: acknowledge_intent_def R_refl intro: R_review split: sum.splits)

lemma review_step: "R p (final (deliver_automation_review env tx c w i p))"
proof (cases "nc_enabled (pc_notify c)")
  case True
  let ?body = "case or_text (ni_summary i) None of None \<Rightarrow> lit ''A scheduling mention needs manual review.'' | Some s \<Rightarrow> s"
  obtain sent result where d: "send_review (pc_notify c) (pc_dry_run c)
       (answers_for w Send_review (ni_subject_id i)
         (automation_source_available env (calendar_view (ps_store p)) (ni_subject_id i)))
       (sender_label (pc_notify c) (ni_sender i) (ni_sender_name i)) (ni_subject i) ?body = (sent, result)"
    by (metis prod.exhaust)
  then have sent: "R p (observed (map (Pushed Send_review (ni_subject_id i)) sent) p)"
    using R_pushed [OF True, of Send_review] by (metis fst_conv senders(3))
  then show ?thesis
    using d True R_trans [OF sent acknowledge_intent_step]
    by (auto simp: deliver_automation_review_def Let_def split: sum.splits)
qed (simp add: deliver_automation_review_def R_refl)

lemma delivery_failed_step: "R p (final (delivery_failed c w n a e p))"
proof -
  have "R p (fst (send_fallback_for c w n p))" by (rule send_fallback_step)
  moreover have "R q (final (andThen (if pc_dry_run c then Inr q
      else stored q (record_failure (wo_now w (nt_message_id n)) (nt_message_id n) e a (ps_store q)))
      (\<lambda>p. Inr (p\<lparr>ps_fallback := ps_fallback p + k\<rparr>))))" for q k
    by (rule andThen_step) (auto intro: stored_step R_failure R_refl R_fallback)
  ultimately show ?thesis using R_trans by (simp add: delivery_failed_def case_prod_beta)
qed

lemma deliver_analysis_step: "R p (final (deliver_analysis c w n r a b p))"
proof (cases "nc_enabled (pc_notify c)")
  case True
  obtain sent result where d: "send_analysis (pc_notify c) (pc_dry_run c)
       (answers_for w Send_analysis (nt_message_id n) (message_content_available (ps_store p) (nt_message_id n)))
       (sender_label (pc_notify c) (nt_sender n) (nt_sender_name n)) (nt_subject n) r b = (sent, result)"
    by (metis prod.exhaust)
  then have sent: "R p (observed (map (Pushed Send_analysis (nt_message_id n)) sent) p)"
    using R_pushed [OF True, of Send_analysis] by (metis fst_conv senders(2) answers_before)
  then show ?thesis
    using d True R_trans [OF sent delivery_failed_step] R_trans [OF sent complete_delivery_step]
    by (auto simp: deliver_analysis_def Let_def split: sum.splits)
qed (simp add: deliver_analysis_def complete_delivery_step)

lemma note_failure_step: "worked i \<Longrightarrow> R p (final (note_failure c w m i e b code s p))"
  by (auto simp: note_failure_def R_refl intro!: stored_step R_analysis_failure)

lemma failed_message_step: "worked i \<Longrightarrow> R p (final (failed_message c w m i e b code s p))"
proof -
  assume i: "worked i"
  let ?q = "if pc_deliver c then send_fallback_for c w (notice_of m) p else (p, 0)"
  have "R p (fst ?q)" by (simp add: send_fallback_step R_refl)
  then have "R p ((fst ?q)\<lparr>ps_fallback := ps_fallback (fst ?q) + snd ?q\<rparr>)" using R_trans R_fallback by blast
  then show ?thesis
    using R_trans [OF _ note_failure_step [OF i]] unfolding failed_message_def Let_def case_prod_beta by blast
qed

lemma analyzed_message_step:
  "worked i \<Longrightarrow> R p (final (analyzed_message env shape wide c w m i q r a b p))"
  unfolding analyzed_message_def
proof (rule andThen_step)
  assume i: "worked i"
  show "R p (final (if pc_dry_run c then Inr p
       else
         andThen (stored p (mark_analyzed env shape wide (wo_fire_ids w i) (wo_run_id w i)
             (wo_run_event w i) (wo_now w i) i (completion_of c w i r a b) (ps_store p))) (\<lambda>p.
         Inr (observed (case q of None \<Rightarrow> [] | Some q \<Rightarrow> [Result_acknowledged q True]) p))))"
  proof (cases "pc_dry_run c")
    case False
    have ack: "R p' (observed (case q of None \<Rightarrow> [] | Some q \<Rightarrow> [Result_acknowledged q True]) p')" for p'
      by (cases q) (simp_all add: R_acknowledged [OF False] R_refl)
    show ?thesis using False ack by (auto intro!: andThen_step stored_step R_analyzed [OF False i])
  qed (simp add: R_refl)
next
  fix p' show "R p' (final (let p = p'\<lparr>ps_summarized := ps_summarized p' + 1\<rparr> in
      if pc_deliver c
      then deliver_analysis c w (notice_of m) r 0 (body_was_truncated (Some a) (Some b) = Some True) p
      else if \<not> nc_enabled (pc_notify c) then Inr (complete_delivery c w i False p) else Inr p))"
    using R_trans [OF R_summarized deliver_analysis_step] R_trans [OF R_summarized complete_delivery_step] R_summarized
    by (simp add: Let_def)
qed

lemma ask_model_step:
  assumes i: "worked i" and attempt: "attempt c (ps_store p) i q limit"
  shows "R p (final (ask_model env shape wide c w m i q a b p))"
proof -
  let ?p = "observed [Model_called i q] p"
  have "R ?p (final (case wo_model w i q of
        Answered r \<Rightarrow> analyzed_message env shape wide c w m i q r a b ?p
      | Output_rejected error code rejected \<Rightarrow>
          andThen (failed_message c w m i error False (Some code) None ?p) (\<lambda>p.
          Inr (if pc_dry_run c then p else observed [Result_acknowledged rejected False] p))
      | Gateway_failed error retryable code retry_after \<Rightarrow> failed_message c w m i error retryable code retry_after ?p
      | Model_failed error \<Rightarrow> failed_message c w m i error True None None ?p))"
    using i by (auto intro!: analyzed_message_step failed_message_step andThen_step R_refl R_acknowledged split: model_answer.splits)
  then show ?thesis using R_trans [OF R_called [OF i attempt]] unfolding ask_model_def Let_def by blast
qed

lemma reserve_request_attempt:
  "reserve_request c w i p = Inr (p', q, limit) \<Longrightarrow> attempt c (ps_store p') i q limit"
  by (auto simp: reserve_request_def attempt_def dest!: reserve_current split: if_splits sum.splits)

lemma process_message_step:
  assumes "worked (message_key m)"
  shows "R p (final (process_message env shape wide c w m p))"
proof (cases "mg_mailbox_identity_key m = Some (pc_mailbox_identity_key c)")
  case False
  then show ?thesis using note_failure_step [OF assms] by (simp add: process_message_def message_key_def Let_def)
next
  case True
  let ?i = "message_key m"
  show ?thesis
  proof (cases "reserve_request c w ?i p")
    case (Inl x)
    then have "final (Inl x) = p" by (auto simp: reserve_request_def split: if_splits sum.splits)
    then show ?thesis using True Inl by (simp add: process_message_def message_key_def [symmetric] R_refl)
  next
    case (Inr x)
    obtain p' q n where x: "x = (p', q, n)" by (metis prod.exhaust)
    let ?p = "observed [Fetched ?i n] p'"
    have "R p p'"
      using Inr x by (auto simp: reserve_request_def R_refl intro: R_reserve [OF _ assms] split: if_splits sum.splits)
    moreover have attempt: "attempt c (ps_store p') ?i q n" using reserve_request_attempt Inr x by blast
    ultimately have p: "R p ?p" using R_trans R_fetched [OF assms] by blast
    have "R ?p (final (case wo_content w ?i n of
           Message_unavailable \<Rightarrow> Inr (if pc_dry_run c then ?p else ?p\<lparr>ps_store := mark_skipped ?i (ps_store ?p)\<rparr>)
         | Message_invalid error code \<Rightarrow> failed_message c w m ?i error False (Some code) None ?p
         | Content served_by attachments chars source_chars \<Rightarrow>
             andThen (if pc_dry_run c then Inr ?p
                      else stored ?p (replace_attachments ?i attachments served_by (ps_store ?p)))
               (ask_model env shape wide c w m ?i q chars source_chars)))"
    proof (cases "wo_content w ?i n")
      case (Content served_by attachments chars source_chars)
      have "R ?p (final (andThen (if pc_dry_run c then Inr ?p
               else stored ?p (replace_attachments ?i attachments served_by (ps_store ?p)))
             (ask_model env shape wide c w m ?i q chars source_chars)))" (is "R _ (final (andThen ?stored _))")
      proof (rule andThen_step)
        show "R ?p (final ?stored)" using R_refl R_attachments [OF _ assms, where p = ?p] by (simp add: stored_step)
        fix p'' assume "?stored = Inr p''"
        then have "an_messages (ps_store p'') = an_messages (ps_store p')"
          by (auto simp: stored_def dest: replace_attachments_messages split: if_splits sum.splits)
        from attempt_cong [OF this] show "R p'' (final (ask_model env shape wide c w m ?i q chars source_chars p''))"
          using ask_model_step [OF assms] attempt by blast
      qed
      then show ?thesis using Content by simp
    qed (use assms R_skipped [OF _ assms, of ?p] failed_message_step R_refl in auto)
    from R_trans [OF p this] show ?thesis
      using True Inr x by (simp add: process_message_def message_key_def [symmetric] Let_def)
  qed
qed

lemma waiting_step: "R p (final (deliver_waiting c w m p))"
  by (auto simp: deliver_waiting_def Let_def complete_delivery_step deliver_analysis_step R_refl split: sum.splits)

lemma waiting_fallback_step: "R p (final (send_waiting_fallback c w i p))"
  using R_trans [OF send_fallback_step R_fallback] by (simp add: send_waiting_fallback_def case_prod_beta Let_def)

theorem process_pending_step:
  assumes "\<And>q queue m. R (start st) q \<Longrightarrow>
      pending now 25 (Some (pc_provider c)) (Some (pc_account_id c)) (ps_store q) = Inr queue \<Longrightarrow>
      m \<in> set queue \<union> set extra \<Longrightarrow> worked (message_key m)"
  shows "R (start st) (final (process_pending env tx shape wide c w now extra st))"
  unfolding process_pending_def Let_def start_def [symmetric]
proof (intro andThen_step)
  show first: "R (start st) (final (if \<not> pc_deliver c then Inr (start st)
        else
          andThen (each (send_waiting_fallback c w) (notification_intents env tx 25 (Some (lit ''fallback'')) (ps_store (start st))) (start st)) (\<lambda>p.
          each (deliver_automation_review env tx c w)
            (notification_intents env tx 25 (Some (lit ''automation_review'')) (ps_store p)) p)))"
    by (auto simp: R_refl intro!: andThen_step each_step waiting_fallback_step review_step)
  fix p assume p: "(if \<not> pc_deliver c then Inr (start st)
        else
          andThen (each (send_waiting_fallback c w) (notification_intents env tx 25 (Some (lit ''fallback'')) (ps_store (start st))) (start st)) (\<lambda>p.
          each (deliver_automation_review env tx c w)
            (notification_intents env tx 25 (Some (lit ''automation_review'')) (ps_store p)) p)) = Inr p"
  show second: "R p (final (each (deliver_waiting c w) (pending_delivery now 25 (ps_store p)) p))"
    by (intro each_step waiting_step)
  fix q assume q: "each (deliver_waiting c w) (pending_delivery now 25 (ps_store p)) p = Inr q"
  have all: "R (start st) q" using R_trans first second unfolding p q final.simps .
  show "R q (final (case pending now 25 (Some (pc_provider c)) (Some (pc_account_id c)) (ps_store q) of
         Inl e \<Rightarrow> Inl (e, q)
       | Inr queue \<Rightarrow>
           each (process_message env shape wide c w)
             (filter (\<lambda>m. wo_within w (case mg_message_id m of Some i \<Rightarrow> i | None \<Rightarrow> [])) queue @ extra) q))"
  proof (cases "pending now 25 (Some (pc_provider c)) (Some (pc_account_id c)) (ps_store q)")
    case (Inr queue)
    have "worked (message_key m)"
      if "m \<in> set (filter (\<lambda>m. wo_within w (case mg_message_id m of Some i \<Rightarrow> i | None \<Rightarrow> [])) queue @ extra)" for m
      using assms [OF all Inr] that by auto
    then show ?thesis using Inr by (auto intro!: each_step process_message_step)
  qed (simp add: R_refl)
qed

end

end
