(* ===== verification/Rule_Store_Proofs.thy ===== *)
theory Rule_Store_Proofs
  imports Rule_Store Interfaces
begin

text \<open>
  What the rule store promises over every history of its operations: the invariant that ties rule
  rows, versions and revisions together, that a stored rule is read back and matched as the
  definition that was put, and that a deleted rule stays deleted.
\<close>

section \<open>A definition through its canonical bytes\<close>

text \<open>A dictionary has no order of its own; the canonical bytes keep the parameters by name.\<close>

definition sorted_parameters :: "rule_definition \<Rightarrow> rule_definition" where
  "sorted_parameters d =
     d\<lparr>rule_action := (rule_action d)\<lparr>parameters := sort_key fst (parameters (rule_action d))\<rparr>\<rparr>"

lemma json_ok_operand: "json_ok (operand_json x)"
  by (cases x) (simp_all add: list_all_iff)

lemma json_ok_opt: "json_ok (opt_json x)"
  by (cases x) (simp_all add: opt_json_def)

lemma json_ok_model_dump:
  assumes "distinct (map fst (parameters (rule_action d)))"
  shows "json_ok (model_dump d)"
proof -
  have "map fst (map (\<lambda>(k, v). (k, operand_json v)) (parameters (rule_action d))) = map fst (parameters (rule_action d))"
    by (simp add: comp_def case_prod_beta)
  then have "json_ok (JObj (map (\<lambda>(k, v). (k, operand_json v)) (parameters (rule_action d))))"
    using assms json_ok_operand by (simp add: list_all_iff case_prod_beta del: map_map)
  then have "json_ok (action_json (rule_action d))" by (simp add: action_json_def)
  moreover have "list_all json_ok (map condition_json (conditions d))"
    by (simp add: list_all_iff condition_json_def json_ok_operand)
  ultimately show ?thesis by (simp add: model_dump_def json_ok_opt)
qed

lemma validate_sorted_parameters:
  "validate_rule_definition env (sorted_parameters d) = validate_rule_definition env d"
proof -
  have action: "validate_action (rule_action (sorted_parameters d)) = validate_action (rule_action d)"
    by (simp add: validate_action_def sorted_parameters_def list_ex_iff)
  have fields: "rule_name (sorted_parameters d) = rule_name d" "rule_scope (sorted_parameters d) = rule_scope d"
    "conditions (sorted_parameters d) = conditions d"
    by (simp_all add: sorted_parameters_def)
  show ?thesis unfolding validate_rule_definition_def action fields by (rule refl)
qed

lemma dumps_sorted_parameters:
  "dumps False True (JObj (map (\<lambda>(k, v). (k, operand_json v)) (sort_key fst ps)))
     = dumps False True (JObj (map (\<lambda>(k, v). (k, operand_json v)) ps))"
proof -
  have "sort_key fst (sort_key fst ps) = sort_key fst ps" by (rule sort_key_id_if_sorted) simp
  then show ?thesis by (simp add: dumps_object sorted_items_def sort_key_map comp_def case_prod_beta del: dumps.simps)
qed

lemma canonical_sorted_parameters:
  "canonical_rule_definition (sorted_parameters d) = canonical_rule_definition d"
proof -
  have "dumps False True (model_dump (sorted_parameters d)) = dumps False True (model_dump d)"
    using dumps_sorted_parameters [of "parameters (rule_action d)"]
    by (simp add: model_dump_def action_json_def sorted_parameters_def)
  then show ?thesis by (simp add: canonical_rule_definition_def dumps_utf8_def)
qed

lemma canonical_rule_definition_Inr:
  "canonical_rule_definition d = Inr encoded \<Longrightarrow> dumps_utf8 False True (model_dump d) = Inr encoded"
  by (auto simp: canonical_rule_definition_def res_splits)

lemma parse_rule_definition_Inr:
  "parse_rule_definition env shape value = Inr d \<longleftrightarrow>
     (\<exists>items. value = JObj items) \<and> shape value = Some d \<and> validate_rule_definition env d = Inr ()"
  by (auto simp: parse_rule_definition_def split: json.splits option.splits sum.splits)

lemma canon_model_dump_object: "\<exists>items. canon (model_dump d) = JObj items"
  by (simp add: model_dump_def)

lemma stored_definition_reads:
  assumes "validate_rule_definition env d = Inr ()" and "canonical_rule_definition d = Inr encoded"
    and "distinct (map fst (parameters (rule_action d)))"
    and "shape (canon (model_dump d)) = Some (sorted_parameters d)"
    and "rv_definition_json v = Some encoded" and "rv_definition_sha256 v = Some (sha256 env encoded)"
  shows "stored_definition env shape wide v = Inr (sorted_parameters d)"
proof -
  have "loads wide encoded = Some (canon (model_dump d))"
    using loads_canonical [OF json_ok_model_dump [OF assms(3)] canonical_rule_definition_Inr [OF assms(2)]] .
  moreover have "parse_rule_definition env shape (canon (model_dump d)) = Inr (sorted_parameters d)"
    using assms(1,4) canon_model_dump_object [of d] by (simp add: parse_rule_definition_Inr validate_sorted_parameters)
  ultimately show ?thesis
    using assms(2,5,6) by (simp add: stored_definition_def canonical_sorted_parameters)
qed

section \<open>The invariant of the tables\<close>

text \<open>The versions of a rule, in the order they were accepted.\<close>

definition versions_of :: "rule_store \<Rightarrow> pystr \<Rightarrow> rule_version list" where
  "versions_of st rule_id = filter (\<lambda>v. rv_rule_id v = rule_id) (ru_versions st)"

text \<open>
  A rule's versions are numbered from 1 without a gap up to the one its row points at; the row says
  what that version says, and only it may be a deletion.
\<close>

definition row_agrees :: "rule_store \<Rightarrow> rule_row \<Rightarrow> bool" where
  "row_agrees st r \<longleftrightarrow>
     map rv_version (versions_of st (rr_rule_id r)) = [1..rr_current_version r] \<and> 1 \<le> rr_current_version r
     \<and> (let newest = List.last (versions_of st (rr_rule_id r)) in
          rr_enabled r = rv_enabled newest \<and> rr_deleted r = (rv_kind newest = V_deleted))
     \<and> list_all (\<lambda>v. rv_kind v = V_definition) (butlast (versions_of st (rr_rule_id r)))"

definition rule_store_ok :: "rule_store \<Rightarrow> bool" where
  "rule_store_ok st \<longleftrightarrow>
     distinct (map rr_rule_id (ru_rules st)) \<and> list_all (row_agrees st) (ru_rules st)
     \<and> list_all (\<lambda>v. rv_rule_id v \<in> rr_rule_id ` set (ru_rules st)) (ru_versions st)
     \<and> ru_revision st = Some (int (length (ru_versions st)))
     \<and> map rv_global_revision (ru_versions st) = [1..int (length (ru_versions st))]
     \<and> live_rule_count st \<le> MAX_AUTOMATION_RULES"

text \<open>
  Every change of the rules is one step of this form: a version \<open>v\<close> is accepted for a rule, whose
  row is new or moves to it.
\<close>

definition version_row :: "rule_version \<Rightarrow> rule_row \<Rightarrow> bool" where
  "version_row v r \<longleftrightarrow> rr_rule_id r = rv_rule_id v \<and> rr_current_version r = rv_version v
     \<and> rr_enabled r = rv_enabled v \<and> rr_deleted r = (rv_kind v = V_deleted)"

definition accepts :: "rule_store \<Rightarrow> rule_version \<Rightarrow> rule_store \<Rightarrow> bool" where
  "accepts st v st' \<longleftrightarrow>
     ru_versions st' = ru_versions st @ [v] \<and> ru_revision st = Some (rv_global_revision v - 1)
     \<and> ru_revision st' = Some (rv_global_revision v)
     \<and> (case find_rule st (rv_rule_id v) of
          None \<Rightarrow> rv_version v = 1 \<and> live_rule_count st < MAX_AUTOMATION_RULES
            \<and> (\<exists>r. version_row v r \<and> ru_rules st' = ru_rules st @ [r])
        | Some r \<Rightarrow> \<not> rr_deleted r \<and> rv_version v = rr_current_version r + 1
            \<and> (\<exists>r'. version_row v r'
                 \<and> ru_rules st' = map (\<lambda>x. if rr_rule_id x = rv_rule_id v then r' else x) (ru_rules st)))"

lemma find_rule_Some: "find_rule st rule_id = Some r \<Longrightarrow> r \<in> set (ru_rules st) \<and> rr_rule_id r = rule_id"
  unfolding find_rule_def by (rule find_key_Some)

lemma find_rule_None: "find_rule st rule_id = None \<longleftrightarrow> rule_id \<notin> rr_rule_id ` set (ru_rules st)"
  by (simp add: find_rule_def find_key_None)

lemma versions_of_accepts:
  "ru_versions st' = ru_versions st @ [v] \<Longrightarrow>
     versions_of st' rule_id = (if rule_id = rv_rule_id v then versions_of st rule_id @ [v] else versions_of st rule_id)"
  by (auto simp: versions_of_def)

lemma row_agrees_other:
  "ru_versions st' = ru_versions st @ [v] \<Longrightarrow> rr_rule_id r \<noteq> rv_rule_id v \<Longrightarrow> row_agrees st' r \<longleftrightarrow> row_agrees st r"
  by (simp add: row_agrees_def versions_of_accepts)

lemma row_agrees_first:
  assumes "rule_store_ok st" and "ru_versions st' = ru_versions st @ [v]" and "find_rule st (rv_rule_id v) = None"
    and "rv_version v = 1" and "version_row v r"
  shows "row_agrees st' r"
proof -
  have "versions_of st (rv_rule_id v) = []"
    using assms(1,3) unfolding versions_of_def rule_store_ok_def find_rule_None list_all_iff filter_empty_conv by metis
  then show ?thesis
    using assms(2,4,5) by (simp add: row_agrees_def version_row_def versions_of_accepts Let_def)
qed

lemma row_agrees_step:
  assumes "row_agrees st r" and "\<not> rr_deleted r" and "rr_rule_id r = rv_rule_id v"
    and "ru_versions st' = ru_versions st @ [v]" and "rv_version v = rr_current_version r + 1" and "version_row v r'"
  shows "row_agrees st' r'"
proof -
  let ?vs = "versions_of st (rv_rule_id v)"
  have r: "map rv_version ?vs = [1..rr_current_version r]" "1 \<le> rr_current_version r"
    "rv_kind (List.last ?vs) = V_definition" "list_all (\<lambda>v. rv_kind v = V_definition) (butlast ?vs)"
    using assms(1-3) version_kind.exhaust by (auto simp: row_agrees_def Let_def)
  have "?vs \<noteq> []" using r(1,2) by auto
  then have "list_all (\<lambda>v. rv_kind v = V_definition) (butlast ?vs @ [List.last ?vs])"
    using r(3,4) unfolding list_all_append by simp
  then have "list_all (\<lambda>v. rv_kind v = V_definition) ?vs"
    using \<open>?vs \<noteq> []\<close> by simp
  moreover have "[1..rr_current_version r] @ [rr_current_version r + 1] = [1..rr_current_version r + 1]"
    using r(2) upto_rec2 [of 1 "rr_current_version r + 1"] by simp
  ultimately show ?thesis
    using r assms(4-6) by (simp add: row_agrees_def version_row_def versions_of_accepts Let_def)
qed

lemma count_where_map_le:
  "\<forall>x\<in>set xs. P (f x) \<longrightarrow> P x \<Longrightarrow> count_where P (map f xs) \<le> count_where P xs"
  by (induction xs) (auto simp: count_where_def)

lemma accepts_rows:
  assumes ok: "rule_store_ok st" and acc: "accepts st v st'"
  shows "rr_rule_id ` set (ru_rules st') = insert (rv_rule_id v) (rr_rule_id ` set (ru_rules st))
    \<and> distinct (map rr_rule_id (ru_rules st')) \<and> live_rule_count st' \<le> MAX_AUTOMATION_RULES
    \<and> list_all (row_agrees st') (ru_rules st')"
proof (cases "find_rule st (rv_rule_id v)")
  case None
  with acc obtain r where r: "version_row v r" "ru_rules st' = ru_rules st @ [r]"
    and v: "rv_version v = 1" "live_rule_count st < MAX_AUTOMATION_RULES" "ru_versions st' = ru_versions st @ [v]"
    by (auto simp: accepts_def)
  have new: "rv_rule_id v \<notin> rr_rule_id ` set (ru_rules st)" using None by (simp add: find_rule_None)
  have "row_agrees st' x" if "x \<in> set (ru_rules st)" for x
    using that new ok row_agrees_other [OF v(3), of x] by (metis rule_store_ok_def list_all_iff imageI)
  moreover have "live_rule_count st' \<le> live_rule_count st + 1"
    by (simp add: live_rule_count_def r(2) count_where_def)
  ultimately show ?thesis
    using new ok r v(2) row_agrees_first [OF ok v(3) None v(1) r(1)]
    by (auto simp: rule_store_ok_def version_row_def list_all_iff)
next
  case (Some r)
  with acc obtain r' where r': "version_row v r'"
      "ru_rules st' = map (\<lambda>x. if rr_rule_id x = rv_rule_id v then r' else x) (ru_rules st)"
    and v: "rv_version v = rr_current_version r + 1" "ru_versions st' = ru_versions st @ [v]" "\<not> rr_deleted r"
    by (auto simp: accepts_def)
  have r: "r \<in> set (ru_rules st)" "rr_rule_id r = rv_rule_id v" using find_rule_Some [OF Some] by auto
  have d: "distinct (map rr_rule_id (ru_rules st))" and agree: "\<forall>x\<in>set (ru_rules st). row_agrees st x"
    using ok by (simp_all add: rule_store_ok_def list_all_iff)
  have only: "x = r" if "x \<in> set (ru_rules st)" "rr_rule_id x = rv_rule_id v" for x
    using distinct_key_eq [OF d that(1) r(1)] that(2) r(2) by simp
  have ids: "map rr_rule_id (ru_rules st') = map rr_rule_id (ru_rules st)"
    using r' by (auto simp: version_row_def)
  then have "rr_rule_id ` set (ru_rules st') = rr_rule_id ` set (ru_rules st)" by (metis list.set_map)
  moreover have "rv_rule_id v \<in> rr_rule_id ` set (ru_rules st)" using r by force
  moreover have "live_rule_count st' \<le> live_rule_count st"
    unfolding live_rule_count_def r'(2) using only v(3) by (intro count_where_map_le) auto
  moreover have "row_agrees st' r'"
    using row_agrees_step [OF _ v(3) r(2) v(2) v(1) r'(1)] agree r(1) by blast
  moreover have "row_agrees st' x" if "x \<in> set (ru_rules st)" "rr_rule_id x \<noteq> rv_rule_id v" for x
    using agree that row_agrees_other [OF v(2) that(2)] by blast
  then have "list_all (row_agrees st') (ru_rules st')"
    using \<open>row_agrees st' r'\<close> by (auto simp: r'(2) list_all_iff)
  ultimately show ?thesis
    using d ids ok by (simp add: rule_store_ok_def insert_absorb)
qed

lemma accepts_ok:
  assumes ok: "rule_store_ok st" and acc: "accepts st v st'"
  shows "rule_store_ok st'"
proof -
  have vs: "ru_versions st' = ru_versions st @ [v]" "ru_revision st = Some (rv_global_revision v - 1)"
    "ru_revision st' = Some (rv_global_revision v)"
    using acc by (simp_all add: accepts_def)
  have n: "rv_global_revision v = int (length (ru_versions st)) + 1" using vs(2) ok by (simp add: rule_store_ok_def)
  have "[1..int (length (ru_versions st))] @ [int (length (ru_versions st)) + 1] = [1..int (length (ru_versions st)) + 1]"
    using upto_rec2 [of 1 "int (length (ru_versions st)) + 1"] by simp
  then show ?thesis
    using accepts_rows [OF ok acc] ok vs n by (auto simp: rule_store_ok_def list_all_iff add.commute)
qed

section \<open>Every operation accepts one version\<close>

definition rule_identity :: "pystr \<Rightarrow> pystr option \<Rightarrow> pystr" where
  "rule_identity fresh rule_id = (case rule_id of Some i \<Rightarrow> if i = [] then fresh else i | None \<Rightarrow> fresh)"

lemma next_revision_Inr:
  "next_automation_rules_revision st = Inr (st1, n) \<longleftrightarrow>
     ru_revision st = Some (n - 1) \<and> st1 = st\<lparr>ru_revision := Some n\<rparr>"
  by (auto simp: next_automation_rules_revision_def res_splits)

lemma update_rule_Inr:
  "update_rule rule_id n f st = Inr st' \<Longrightarrow> st' = st\<lparr>ru_rules := update_where (rule_at rule_id n) f (ru_rules st)\<rparr>"
  by (auto simp: update_rule_def res_splits)

lemma insert_version_Inr: "insert_version v st = Inr st' \<Longrightarrow> st' = st\<lparr>ru_versions := ru_versions st @ [v]\<rparr>"
  by (simp add: insert_version_def split: if_splits)

lemma insert_selection_Inr: "insert_selection s st = Inr st' \<Longrightarrow> \<exists>xs. st' = st\<lparr>ru_selections := xs\<rparr>"
  by (auto simp: insert_selection_def split: if_splits)

lemma copy_selection_Inr: "copy_selection rule_id m n st = Inr st' \<Longrightarrow> \<exists>xs. st' = st\<lparr>ru_selections := xs\<rparr>"
  by (cases st) (auto simp: copy_selection_def dest: insert_selection_Inr split: option.splits)

lemma update_where_rule:
  assumes "rule_store_ok st" and "find_rule st rule_id = Some r" and "\<not> rr_deleted r"
  shows "update_where (rule_at rule_id (rr_current_version r)) f (ru_rules st)
     = map (\<lambda>x. if rr_rule_id x = rule_id then f r else x) (ru_rules st)"
proof -
  have r: "r \<in> set (ru_rules st)" "rr_rule_id r = rule_id" using find_rule_Some [OF assms(2)] by auto
  have d: "distinct (map rr_rule_id (ru_rules st))" using assms(1) by (simp add: rule_store_ok_def)
  have "x = r" if "x \<in> set (ru_rules st)" "rr_rule_id x = rule_id" for x
    using distinct_key_eq [OF d that(1) r(1)] that(2) r(2) by simp
  then show ?thesis using assms(3) r(2) by (auto simp: update_where_def rule_at_def)
qed

text \<open>A row that moves and the version that says so, as all three operations write them.\<close>

lemma accepts_move:
  assumes ok: "rule_store_ok st" and r: "find_rule st (rv_rule_id v) = Some r" "\<not> rr_deleted r"
    and rev: "next_automation_rules_revision st = Inr (st1, rv_global_revision v)"
    and upd: "update_rule (rv_rule_id v) (rr_current_version r) f st1 = Inr st2"
    and ins: "insert_version v st2 = Inr st3"
    and v: "rv_version v = rr_current_version r + 1" "version_row v (f r)"
  shows "accepts st v (st3\<lparr>ru_selections := xs\<rparr>)"
proof -
  have st1: "ru_revision st = Some (rv_global_revision v - 1)" "st1 = st\<lparr>ru_revision := Some (rv_global_revision v)\<rparr>"
    using rev by (simp_all add: next_revision_Inr)
  then have st2: "st2 = st\<lparr>ru_revision := Some (rv_global_revision v),
      ru_rules := map (\<lambda>x. if rr_rule_id x = rv_rule_id v then f r else x) (ru_rules st)\<rparr>"
    using update_rule_Inr [OF upd] update_where_rule [OF ok r] by simp
  have "st3 = st2\<lparr>ru_versions := ru_versions st2 @ [v]\<rparr>" using insert_version_Inr [OF ins] .
  then show ?thesis using st1(1) st2 r v by (auto simp: accepts_def)
qed

lemma scope_identity_Inr: "automation_rule_scope_identity st d expected = Inr key \<Longrightarrow> key = expected"
  by (auto simp: automation_rule_scope_identity_def res_splits split: option.splits if_splits)

lemma put_automation_rule_accepts:
  assumes ok: "rule_store_ok st"
    and put: "put_automation_rule env shape wide fresh now definition rule_id expected identity selection st = Inr (st', detail)"
  shows "\<exists>d encoded v. parse_rule_definition env shape definition = Inr d \<and> canonical_rule_definition d = Inr encoded
    \<and> accepts st v st' \<and> rv_rule_id v = rule_identity fresh rule_id \<and> rv_kind v = V_definition
    \<and> rv_definition_json v = Some encoded \<and> rv_definition_sha256 v = Some (sha256 env encoded)
    \<and> rv_scope_mailbox_identity_key v = identity
    \<and> detail = automation_rule env shape wide st' (rule_identity fresh rule_id)"
proof -
  let ?i = "rule_identity fresh rule_id"
  from put obtain d encoded key st2 version enabled revision st3 v where
    d: "parse_rule_definition env shape definition = Inr d" "canonical_rule_definition d = Inr encoded"
    and key: "automation_rule_scope_identity st d identity = Inr key"
    and adv: "advance_rule ?i expected now st = Inr (st2, version, enabled, revision)"
    and v: "v = \<lparr>rv_rule_id = ?i, rv_version = version, rv_kind = V_definition, rv_definition_json = Some encoded,
           rv_definition_sha256 = Some (sha256 env encoded), rv_enabled = enabled,
           rv_scope_mailbox_identity_key = key, rv_global_revision = revision, rv_accepted_at = now\<rparr>"
    and ins: "insert_version v st2 = Inr st3"
    and sel: "(case selection of
           None \<Rightarrow> Inr st3
         | Some s \<Rightarrow> andThen s (\<lambda>text. insert_selection
             \<lparr>rl_rule_id = ?i, rl_version = version, rl_selection_json = text\<rparr> st3)) = Inr st'"
    and detail: "detail = automation_rule env shape wide st' ?i"
    unfolding put_automation_rule_def Let_def res_splits rule_identity_def [symmetric] by (elim exE conjE) (auto split: prod.splits simp: res_splits)
  obtain xs where xs: "st' = st3\<lparr>ru_selections := xs\<rparr>"
    using sel by (cases st3) (auto simp: res_splits dest!: insert_selection_Inr split: option.splits)
  have "accepts st v (st3\<lparr>ru_selections := xs\<rparr>)"
  proof (cases "find_rule st ?i")
    case None
    then show ?thesis
      using adv insert_version_Inr [OF ins]
      by (auto simp: advance_rule_def next_revision_Inr res_splits accepts_def v version_row_def new_rule_row_def)
  next
    case (Some r)
    from adv Some obtain st1 where "\<not> rr_deleted r" "next_automation_rules_revision st = Inr (st1, revision)"
      "update_rule ?i (rr_current_version r) (\<lambda>x. x\<lparr>rr_current_version := rr_current_version r + 1, rr_updated_at := now\<rparr>) st1 = Inr st2"
      "version = rr_current_version r + 1" "enabled = rr_enabled r"
      by (auto simp: advance_rule_def res_splits)
    then show ?thesis
      using accepts_move [OF ok, of v r st1 _ st2 st3 xs] Some find_rule_Some [OF Some] ins
      by (simp add: v version_row_def)
  qed
  then show ?thesis using d v xs detail scope_identity_Inr [OF key] by auto
qed

lemma set_automation_rule_enabled_accepts:
  assumes ok: "rule_store_ok st"
    and set: "set_automation_rule_enabled env shape wide now rule_id expected enabled st = Inr (st', detail)"
  shows "st' = st \<or> (\<exists>v. accepts st v st')"
proof -
  from set obtain r w where r: "find_rule st rule_id = Some r" "find_version st rule_id (rr_current_version r) = Some w"
    by (auto simp: set_automation_rule_enabled_def split: option.splits)
  have w: "rv_rule_id w = rule_id" "rr_rule_id r = rule_id"
    using r find_rule_Some by (auto simp: find_version_def find_Some_iff)
  show ?thesis
  proof (cases "rr_enabled r = enabled")
    case True
    then show ?thesis using set r by (auto simp: set_automation_rule_enabled_def res_splits)
  next
    case False
    let ?v = "\<lambda>n. w\<lparr>rv_version := expected + 1, rv_enabled := enabled, rv_global_revision := n, rv_accepted_at := now\<rparr>"
    from False set r obtain st1 n st2 st3 where
      live: "\<not> rr_deleted r" "expected = rr_current_version r" "rv_kind w = V_definition"
      and steps: "next_automation_rules_revision st = Inr (st1, n)"
        "update_rule rule_id expected (\<lambda>x. x\<lparr>rr_current_version := expected + 1, rr_enabled := enabled, rr_updated_at := now\<rparr>) st1 = Inr st2"
        "insert_version (?v n) st2 = Inr st3" "copy_selection rule_id expected (expected + 1) st3 = Inr st'"
      by (auto simp: set_automation_rule_enabled_def res_splits)
    obtain xs where "st' = st3\<lparr>ru_selections := xs\<rparr>" using copy_selection_Inr [OF steps(4)] by blast
    moreover have "accepts st (?v n) (st3\<lparr>ru_selections := xs\<rparr>)"
      using accepts_move [OF ok, of "?v n" r st1 _ st2 st3 xs] r live steps w by (simp add: version_row_def)
    ultimately show ?thesis by blast
  qed
qed

lemma delete_automation_rule_accepts:
  assumes ok: "rule_store_ok st" and del: "delete_automation_rule now rule_id expected st = Inr (st', n)"
  shows "\<exists>v. accepts st v st' \<and> rv_rule_id v = rule_id \<and> rv_kind v = V_deleted"
proof -
  let ?v = "\<lambda>m. \<lparr>rv_rule_id = rule_id, rv_version = expected + 1, rv_kind = V_deleted, rv_definition_json = None,
          rv_definition_sha256 = None, rv_enabled = False, rv_scope_mailbox_identity_key = None,
          rv_global_revision = m, rv_accepted_at = now\<rparr>"
  from del obtain r st1 m st2 where r: "find_rule st rule_id = Some r" "\<not> rr_deleted r" "expected = rr_current_version r"
    and steps: "next_automation_rules_revision st = Inr (st1, m)"
      "update_rule rule_id expected
         (\<lambda>x. x\<lparr>rr_current_version := expected + 1, rr_enabled := False, rr_deleted := True, rr_updated_at := now\<rparr>) st1 = Inr st2"
      "insert_version (?v m) st2 = Inr st'"
    by (auto simp: delete_automation_rule_def res_splits)
  have "accepts st (?v m) (st'\<lparr>ru_selections := ru_selections st'\<rparr>)"
    using accepts_move [OF ok, of "?v m" r st1 _ st2 st' "ru_selections st'"] r steps find_rule_Some [OF r(1)] by (simp add: version_row_def)
  then show ?thesis by (auto intro: exI [of _ "?v m"])
qed

section \<open>Histories\<close>

text \<open>
  The operations on the rules, in any order and with any arguments; \<open>Accounts\<close> is whatever the rest
  of the program does to the mailbox table between them.
\<close>

datatype rule_op =
    Put_rule pystr instant json "pystr option" "int option" "pystr option" "(err + pystr) option"
  | Enable_rule instant pystr int bool
  | Delete_rule instant pystr int
  | Accounts "(pystr \<times> pystr \<times> pystr option) list"

fun exec_rule ::
  "pyenv \<Rightarrow> (json \<Rightarrow> rule_definition option) \<Rightarrow> (bytes \<Rightarrow> pystr option) \<Rightarrow> rule_store \<Rightarrow> rule_op \<Rightarrow> err + rule_store" where
  "exec_rule env shape wide st (Put_rule fresh now definition rule_id expected identity selection) =
     map_sum id fst (put_automation_rule env shape wide fresh now definition rule_id expected identity selection st)"
| "exec_rule env shape wide st (Enable_rule now rule_id expected enabled) =
     map_sum id fst (set_automation_rule_enabled env shape wide now rule_id expected enabled st)"
| "exec_rule env shape wide st (Delete_rule now rule_id expected) =
     map_sum id fst (delete_automation_rule now rule_id expected st)"
| "exec_rule env shape wide st (Accounts rows) = Inr (st\<lparr>ru_accounts := rows\<rparr>)"

text \<open>The tables as the schema creates them.\<close>

definition no_rules :: rule_store where
  "no_rules = \<lparr>ru_rules = [], ru_versions = [], ru_selections = [], ru_revision = Some 0, ru_accounts = []\<rparr>"

definition rule_history ::
  "pyenv \<Rightarrow> (json \<Rightarrow> rule_definition option) \<Rightarrow> (bytes \<Rightarrow> pystr option) \<Rightarrow> rule_op list \<Rightarrow> rule_store" where
  "rule_history env shape wide ops = foldl (committed (exec_rule env shape wide)) no_rules ops"

lemma exec_rule_accepts:
  assumes "rule_store_ok st" and "exec_rule env shape wide st op = Inr st'"
  shows "(\<exists>rows. st' = st\<lparr>ru_accounts := rows\<rparr>) \<or> (\<exists>v. accepts st v st')"
proof (cases op)
  case Put_rule
  then show ?thesis using assms put_automation_rule_accepts by (fastforce simp: map_sum_fst_Inr)
next
  case (Enable_rule now rule_id expected enabled)
  then obtain detail where "set_automation_rule_enabled env shape wide now rule_id expected enabled st = Inr (st', detail)"
    using assms(2) by (auto simp: map_sum_fst_Inr)
  moreover have "st = st\<lparr>ru_accounts := ru_accounts st\<rparr>" by simp
  ultimately show ?thesis using set_automation_rule_enabled_accepts [OF assms(1)] by metis
next
  case Delete_rule
  then show ?thesis using assms delete_automation_rule_accepts by (fastforce simp: map_sum_fst_Inr)
qed (use assms in auto)

lemma rule_store_ok_accounts [simp]: "rule_store_ok (st\<lparr>ru_accounts := rows\<rparr>) = rule_store_ok st"
proof -
  have "row_agrees (st\<lparr>ru_accounts := rows\<rparr>) = row_agrees st" by (simp add: row_agrees_def versions_of_def fun_eq_iff)
  then show ?thesis by (simp add: rule_store_ok_def live_rule_count_def)
qed

lemma rule_store_ok_empty: "rule_store_ok no_rules"
  by (simp add: no_rules_def rule_store_ok_def live_rule_count_def count_where_def)

lemma rule_store_ok_step: "rule_store_ok st \<Longrightarrow> rule_store_ok (committed (exec_rule env shape wide) st op)"
  using exec_rule_accepts [of st env shape wide op] by (auto simp: committed_def intro: accepts_ok split: sum.splits)

lemma rule_store_ok_run: "rule_store_ok st \<Longrightarrow> rule_store_ok (foldl (committed (exec_rule env shape wide)) st ops)"
  by (induction ops arbitrary: st) (simp_all add: rule_store_ok_step)

text \<open>
  C16: rule store invariant: after any history of rule operations, successful or not, rule ids are
  unique, the versions of each rule are numbered 1, 2, ... up to the one its row points at, the row
  repeats what that version says, a deletion is the last version of its rule, the global revisions
  are 1, 2, ... in the order of acceptance and the stored revision is the number of accepted
  changes, and there are never more than 100 live rules.
\<close>

theorem rule_history_ok: "rule_store_ok (rule_history env shape wide ops)"
  using rule_store_ok_run [OF rule_store_ok_empty] by (simp add: rule_history_def)

lemma rule_history_store_ok: "rule_store_ok (rule_history env shape wide ops)"
  using rule_store_ok_run [OF rule_store_ok_empty] by (simp add: rule_history_def)

section \<open>What is read after a change\<close>

lemma accepts_current:
  assumes ok: "rule_store_ok st" and acc: "accepts st v st'"
  shows "\<exists>r. find_rule st' (rv_rule_id v) = Some r \<and> version_row v r"
proof -
  obtain r where r: "r \<in> set (ru_rules st')" "version_row v r"
    using acc by (auto simp: accepts_def find_rule_def find_Some_iff image_iff split: option.splits) (metis nth_mem)+
  then have "rr_rule_id r = rv_rule_id v" by (simp add: version_row_def)
  moreover have "distinct (map rr_rule_id (ru_rules st'))" using accepts_rows [OF ok acc] by blast
  ultimately show ?thesis using r find_key_distinct [of rr_rule_id "ru_rules st'" r] by (auto simp: find_rule_def)
qed

text \<open>A version is found by its rule and its number.\<close>

lemma version_unique:
  assumes ok: "rule_store_ok st" and v: "v \<in> set (ru_versions st)" and w: "w \<in> set (ru_versions st)"
    and eq: "rv_rule_id w = rv_rule_id v" "rv_version w = rv_version v"
  shows "w = v"
proof -
  obtain r where r: "r \<in> set (ru_rules st)" "rr_rule_id r = rv_rule_id v"
    using ok v unfolding rule_store_ok_def list_all_iff by (metis imageE)
  then have "map rv_version (versions_of st (rv_rule_id v)) = [1..rr_current_version r]"
    using ok by (auto simp: rule_store_ok_def list_all_iff row_agrees_def)
  then have "distinct (map rv_version (versions_of st (rv_rule_id v)))" by simp
  then show ?thesis using distinct_key_eq [of rv_version "versions_of st (rv_rule_id v)" w v] v w eq
    by (simp add: versions_of_def)
qed

lemma find_version_current:
  assumes ok: "rule_store_ok st" and v: "v \<in> set (ru_versions st)"
  shows "find_version st (rv_rule_id v) (rv_version v) = Some v"
proof -
  have "find_version st (rv_rule_id v) (rv_version v) \<noteq> None"
    using v by (auto simp: find_version_def find_None_iff)
  then obtain w where w: "find_version st (rv_rule_id v) (rv_version v) = Some w" by blast
  then have "w \<in> set (ru_versions st)" "rv_rule_id w = rv_rule_id v" "rv_version w = rv_version v"
    by (auto simp: find_version_def find_Some_iff)
  then show ?thesis using version_unique [OF ok v] w by simp
qed

lemma current_rows_iff:
  "(r, v) \<in> set (current_rows st) \<longleftrightarrow> r \<in> set (ru_rules st) \<and> v \<in> set (ru_versions st)
     \<and> rv_rule_id v = rr_rule_id r \<and> rv_version v = rr_current_version r"
  by (auto simp: current_rows_def)

lemma current_match_rules_iff:
  "m \<in> set (current_match_rules env shape wide st) \<longleftrightarrow>
     (\<exists>r v d. r \<in> set (ru_rules st) \<and> v \<in> set (ru_versions st) \<and> rv_rule_id v = rr_rule_id r
        \<and> rv_version v = rr_current_version r \<and> \<not> rr_deleted r \<and> rr_enabled r \<and> rv_kind v = V_definition
        \<and> stored_definition env shape wide v = Inr d
        \<and> m = \<lparr>mr_rule_id = rr_rule_id r, mr_version = rr_current_version r,
               mr_scope_mailbox_identity_key = rv_scope_mailbox_identity_key v, mr_definition = d\<rparr>)"
  (is "_ \<longleftrightarrow> ?rhs")
proof
  assume "m \<in> set (current_match_rules env shape wide st)"
  then obtain r v d where "(r, v) \<in> set (current_rows st)" "\<not> rr_deleted r" "rr_enabled r" "rv_kind v = V_definition"
    "stored_definition env shape wide v = Inr d"
    "m = \<lparr>mr_rule_id = rr_rule_id r, mr_version = rr_current_version r,
        mr_scope_mailbox_identity_key = rv_scope_mailbox_identity_key v, mr_definition = d\<rparr>"
    by (auto simp: current_match_rules_def split: sum.splits)
  then show ?rhs unfolding current_rows_iff by blast
next
  assume ?rhs
  then obtain r v d where "(r, v) \<in> set (current_rows st)" and "\<not> rr_deleted r" "rr_enabled r" "rv_kind v = V_definition"
    "stored_definition env shape wide v = Inr d"
    "m = \<lparr>mr_rule_id = rr_rule_id r, mr_version = rr_current_version r,
        mr_scope_mailbox_identity_key = rv_scope_mailbox_identity_key v, mr_definition = d\<rparr>"
    unfolding current_rows_iff by blast
  then show "m \<in> set (current_match_rules env shape wide st)"
    by (fastforce simp: current_match_rules_def)
qed

lemma put_rule_read_back:
  assumes ok: "rule_store_ok st"
    and put: "put_automation_rule env shape wide fresh now definition rule_id expected identity selection st = Inr (st', detail)"
    and d: "shape definition = Some d" "distinct (map fst (parameters (rule_action d)))"
      "shape (canon (model_dump d)) = Some (sorted_parameters d)"
  obtains r v where "find_rule st' (rule_identity fresh rule_id) = Some r"
    "detail = Inr (automation_rule_detail env shape wide st' r v)"
    "\<not> rr_deleted r" "v \<in> set (ru_versions st')" "rv_rule_id v = rule_identity fresh rule_id" "rv_kind v = V_definition"
    "rr_rule_id r = rule_identity fresh rule_id" "rv_version v = rr_current_version r"
    "rv_scope_mailbox_identity_key v = identity" "stored_definition env shape wide v = Inr (sorted_parameters d)"
proof -
  from put_automation_rule_accepts [OF ok put] d(1) obtain encoded v where
    valid: "validate_rule_definition env d = Inr ()" "canonical_rule_definition d = Inr encoded"
    and v: "accepts st v st'" "rv_rule_id v = rule_identity fresh rule_id" "rv_kind v = V_definition"
      "rv_definition_json v = Some encoded" "rv_definition_sha256 v = Some (sha256 env encoded)"
      "rv_scope_mailbox_identity_key v = identity"
    and detail: "detail = automation_rule env shape wide st' (rule_identity fresh rule_id)"
    by (auto simp: parse_rule_definition_Inr)
  obtain r where r: "find_rule st' (rv_rule_id v) = Some r" "version_row v r" using accepts_current [OF ok v(1)] by blast
  have mem: "v \<in> set (ru_versions st')" using v(1) by (simp add: accepts_def)
  have fields: "rr_rule_id r = rv_rule_id v" "rr_current_version r = rv_version v" "\<not> rr_deleted r"
    using r(2) v(3) by (simp_all add: version_row_def)
  have "detail = Inr (automation_rule_detail env shape wide st' r v)"
    using detail r(1) fields find_version_current [OF accepts_ok [OF ok v(1)] mem] v(2)
    by (simp add: automation_rule_def)
  moreover have "stored_definition env shape wide v = Inr (sorted_parameters d)"
    by (rule stored_definition_reads) (fact valid d(2,3) v(4,5))+
  ultimately show ?thesis
    using r(1) mem fields v(2,3,6) by (intro that [of r v]) simp_all
qed

lemma matched_versions:
  assumes ok: "rule_store_ok st" and r: "find_rule st rule_id = Some r" and v: "v \<in> set (ru_versions st)"
    and cur: "rv_rule_id v = rule_id" "rv_version v = rr_current_version r"
    and live: "\<not> rr_deleted r" "rv_kind v = V_definition" "stored_definition env shape wide v = Inr d"
  shows "{m \<in> set (current_match_rules env shape wide st). mr_rule_id m = rule_id}
    = (if rr_enabled r then {\<lparr>mr_rule_id = rule_id, mr_version = rr_current_version r,
         mr_scope_mailbox_identity_key = rv_scope_mailbox_identity_key v, mr_definition = d\<rparr>} else {})"
proof -
  have r': "r \<in> set (ru_rules st)" "rr_rule_id r = rule_id" using find_rule_Some [OF r] by auto
  have dist: "distinct (map rr_rule_id (ru_rules st))" using ok by (simp add: rule_store_ok_def)
  have one: "x = r" if "x \<in> set (ru_rules st)" "rr_rule_id x = rule_id" for x
    using distinct_key_eq [OF dist that(1) r'(1)] that(2) r'(2) by simp
  have two: "w = v" if "w \<in> set (ru_versions st)" "rv_rule_id w = rule_id" "rv_version w = rr_current_version r" for w
    using version_unique [OF ok v that(1)] that(2,3) cur by simp
  define n where "n = \<lparr>mr_rule_id = rule_id, mr_version = rr_current_version r,
         mr_scope_mailbox_identity_key = rv_scope_mailbox_identity_key v, mr_definition = d\<rparr>"
  have only: "m = n \<and> rr_enabled r"
    if matched: "m \<in> set (current_match_rules env shape wide st)" and m: "mr_rule_id m = rule_id" for m
  proof -
    from matched obtain x w e where x: "x \<in> set (ru_rules st)" "w \<in> set (ru_versions st)" "rv_rule_id w = rr_rule_id x"
      "rv_version w = rr_current_version x" "rr_enabled x" "stored_definition env shape wide w = Inr e"
      "m = \<lparr>mr_rule_id = rr_rule_id x, mr_version = rr_current_version x,
         mr_scope_mailbox_identity_key = rv_scope_mailbox_identity_key w, mr_definition = e\<rparr>"
      unfolding current_match_rules_iff by blast
    moreover have "x = r" using one x(1,7) m by simp
    moreover have "w = v" using two x(2,3,4) \<open>x = r\<close> r'(2) by simp
    ultimately show ?thesis using r'(2) live(3) by (simp add: n_def)
  qed
  have "n \<in> set (current_match_rules env shape wide st)" if "rr_enabled r"
    unfolding current_match_rules_iff using r' v cur live that
    by (intro exI [of _ r] exI [of _ v] exI [of _ d]) (simp add: n_def)
  moreover have "mr_rule_id n = rule_id" by (simp add: n_def)
  ultimately show ?thesis using only unfolding n_def [symmetric] by (auto split: if_splits)
qed

text \<open>
  C15: what is put is what is matched: when a definition is accepted into a store that some history
  of operations reached, reading the rule gives that definition (its parameters by name), and if
  the rule is enabled the matcher gets it, with the confirmed mailbox identity and the version just
  accepted, and gets no other version of this rule. The JSON text in between, the digest and the
  canonical check reject nothing that was accepted. Assumed of pydantic: it reads the sorted
  document of the definition as that definition.
\<close>

theorem put_rule_is_matched:
  assumes "st = rule_history env shape wide ops"
    and "put_automation_rule env shape wide fresh now definition rule_id expected identity selection st = Inr (st', detail)"
    and "shape definition = Some d" and "distinct (map fst (parameters (rule_action d)))"
    and "shape (canon (model_dump d)) = Some (sorted_parameters d)"
  shows "\<exists>r. detail = Inr r \<and> rd_rule_id r = rule_identity fresh rule_id \<and> rd_definition r = Inr (sorted_parameters d)
    \<and> {m \<in> set (current_match_rules env shape wide st'). mr_rule_id m = rd_rule_id r}
      = (if rd_enabled r then {\<lparr>mr_rule_id = rd_rule_id r, mr_version = rd_version r,
           mr_scope_mailbox_identity_key = identity, mr_definition = sorted_parameters d\<rparr>} else {})"
proof -
  have ok: "rule_store_ok st" "rule_store_ok st'"
    using rule_history_store_ok put_automation_rule_accepts [OF _ assms(2)] accepts_ok assms(1) by blast+
  from put_rule_read_back [OF ok(1) assms(2-5)] obtain r v where
    r: "find_rule st' (rule_identity fresh rule_id) = Some r" "detail = Inr (automation_rule_detail env shape wide st' r v)"
      "\<not> rr_deleted r" "rr_rule_id r = rule_identity fresh rule_id" "rv_version v = rr_current_version r"
    and v: "v \<in> set (ru_versions st')" "rv_rule_id v = rule_identity fresh rule_id" "rv_kind v = V_definition"
      "rv_scope_mailbox_identity_key v = identity" "stored_definition env shape wide v = Inr (sorted_parameters d)" .
  from matched_versions [OF ok(2) r(1) v(1,2) r(5,3) v(3,5)] r v show ?thesis
    by (simp add: automation_rule_detail_def)
qed

section \<open>Deletion is final\<close>

lemma deleted_step:
  assumes ok: "rule_store_ok st" and del: "find_rule st rule_id = Some r" "rr_deleted r"
    and "exec_rule env shape wide st op = Inr st'"
  shows "find_rule st' rule_id = Some r"
  using exec_rule_accepts [OF ok assms(4)]
proof (elim disjE exE)
  fix rows assume "st' = st\<lparr>ru_accounts := rows\<rparr>"
  then show ?thesis using del(1) by (simp add: find_rule_def)
next
  fix v assume acc: "accepts st v st'"
  then have "rule_id \<noteq> rv_rule_id v" using del by (auto simp: accepts_def)
  moreover obtain xs where "ru_rules st' = ru_rules st @ xs
      \<or> (\<exists>r'. rr_rule_id r' = rv_rule_id v
            \<and> ru_rules st' = update_where (\<lambda>x. rr_rule_id x = rv_rule_id v) (\<lambda>_. r') (ru_rules st))"
    using acc by (fastforce simp: accepts_def version_row_def update_where_def split: option.splits)
  ultimately show ?thesis
    using del(1) find_key_update [where k = rr_rule_id and P = "\<lambda>x. rr_rule_id x = rv_rule_id v" and rows = "ru_rules st" and a = rule_id]
      find_rule_Some [OF del(1)]
    by (auto simp: find_rule_def find_append_rows)
qed

lemma deleted_run:
  "rule_store_ok st \<Longrightarrow> find_rule st rule_id = Some r \<Longrightarrow> rr_deleted r \<Longrightarrow>
     find_rule (foldl (committed (exec_rule env shape wide)) st ops) rule_id = Some r"
proof (induction ops arbitrary: st)
  case (Cons op ops)
  have "find_rule (committed (exec_rule env shape wide) st op) rule_id = Some r"
    using deleted_step [OF Cons.prems] Cons.prems(2) by (auto simp: committed_def split: sum.splits)
  then show ?case using Cons.IH [OF rule_store_ok_step [OF Cons.prems(1)]] Cons.prems(3) by simp
qed simp

lemma deleted_unmatched:
  assumes ok: "rule_store_ok st" and r: "find_rule st rule_id = Some r" "rr_deleted r"
  shows "rule_id \<notin> mr_rule_id ` set (current_match_rules env shape wide st)"
proof
  assume "rule_id \<in> mr_rule_id ` set (current_match_rules env shape wide st)"
  then obtain x where x: "x \<in> set (ru_rules st)" "rr_rule_id x = rule_id" "\<not> rr_deleted x"
    by (auto simp: current_match_rules_iff)
  moreover have "distinct (map rr_rule_id (ru_rules st))" using ok by (simp add: rule_store_ok_def)
  ultimately have "x = r" using distinct_key_eq [of rr_rule_id "ru_rules st" x r] find_rule_Some [OF r(1)] by simp
  with r(2) x(3) show False by simp
qed

text \<open>
  C17: deletion is final: once a rule of a reachable store has been deleted, then after any further
  operations, a put or an enable of the same id among them, the rule cannot be read and the matcher
  never gets it.
\<close>

theorem deleted_rule_never_matches:
  assumes "delete_automation_rule now rule_id n (rule_history env shape wide ops) = Inr (st, m)"
    and "st' = foldl (committed (exec_rule env shape wide)) st later"
  shows "automation_rule env shape wide st' rule_id = Inl AutomationRuleNotFound
    \<and> rule_id \<notin> mr_rule_id ` set (current_match_rules env shape wide st')"
proof -
  note ok = rule_history_store_ok [of env shape wide ops]
  obtain v where v: "accepts (rule_history env shape wide ops) v st" "rv_rule_id v = rule_id" "rv_kind v = V_deleted"
    using delete_automation_rule_accepts [OF ok assms(1)] by blast
  obtain r where r: "find_rule st rule_id = Some r" "rr_deleted r"
    using accepts_current [OF ok v(1)] v(2,3) by (auto simp: version_row_def)
  have "find_rule st' rule_id = Some r" using deleted_run [OF accepts_ok [OF ok v(1)] r] assms(2) by simp
  moreover have "rule_store_ok st'" using rule_store_ok_run [OF accepts_ok [OF ok v(1)]] assms(2) by simp
  ultimately show ?thesis using deleted_unmatched r(2) by (simp add: automation_rule_def)
qed

section \<open>Examples\<close>

definition digest_env :: pyenv where
  "digest_env = ascii_env\<lparr>sha256 := (\<lambda>_. replicate 64 97)\<rparr>"

definition sample_definition :: rule_definition where
  "sample_definition = (mr_definition sample_rule)\<lparr>rule_action := (rule_action (mr_definition sample_rule))
     \<lparr>parameters := [(lit ''b'', VInt (- 1)), (lit ''a'', VStr [34])]\<rparr>\<rparr>"

definition sample_shape :: "json \<Rightarrow> rule_definition option" where
  "sample_shape value = Some (if value = JObj [] then sample_definition else sorted_parameters sample_definition)"

definition sample_id :: pystr where
  "sample_id = lit ''00000000-0000-4000-8000-000000000000''"

definition sample_put :: rule_op where
  "sample_put = Put_rule sample_id 5 (JObj []) None None None None"

definition sample_put_result :: "err + rule_store \<times> (err + rule_detail)" where
  "sample_put_result = put_automation_rule digest_env sample_shape (\<lambda>_. None) sample_id 5 (JObj []) None None None None no_rules"

lemma utf8_encode_small: "list_all (\<lambda>c. c < 128) s \<Longrightarrow> utf8_encode s = Some s"
  by (induction s) (simp_all add: utf8_char_def)

lemmas sample_simps = model_dump_def sample_definition_def sample_rule_def action_json_def condition_json_def lit_def
  dumps_str_def escape_char_def comma_join_def opt_json_def int_digits_def nat_digits.simps

lemma sample_canonical: "\<exists>encoded. canonical_rule_definition sample_definition = Inr encoded \<and> 1 \<le> length encoded \<and> length encoded \<le> 1000"
proof -
  let ?s = "dumps False True (model_dump sample_definition)"
  have "list_all (\<lambda>c. c < 128) ?s" by (simp add: sample_simps)
  moreover have "length ?s \<le> 1000" by (simp add: sample_simps)
  moreover have "1 \<le> length ?s" by (simp add: model_dump_def lit_def)
  ultimately show ?thesis
    by (auto simp: canonical_rule_definition_def dumps_utf8_def utf8_encode_small MAX_RULE_DEFINITION_BYTES_def require_def)
qed

lemma sample_valid: "validate_rule_definition digest_env sample_definition = Inr ()"
  using sample_uuid
  by (simp add: sample_definition_def sample_rule_def validate_rule_definition_def validate_scope_def
      MAX_CONDITIONS_def MAX_PARAMETERS_def validate_operand_def validate_action_def
      media_type_pattern_def media_type_char_def lower_alnum_def identifier_pattern_def
      capability_version_pattern_def app_version_pattern_def digit_def Let_def ascii_env_def digest_env_def
      lit_def [of "''a/b''"] lit_def [of "''*.p''"] lit_def [of "''r''"] lit_def [of "''c''"]
      lit_def [of "''a''"] lit_def [of "''b''"]
      lit_def [of "''p''"] lit_def [of "''1.0''"] lit_def [of "''1.0.0''"])

lemma sample_id_valid: "valid_uuid_v4 sample_id"
  by (simp add: sample_id_def sample_uuid)

text \<open>The rule as a put into empty tables leaves it.\<close>

lemma sample_put_effect:
  "\<exists>st detail. sample_put_result = Inr (st, detail)
     \<and> ru_rules st = [new_rule_row sample_id 5]"
proof -
  obtain encoded where e: "canonical_rule_definition sample_definition = Inr encoded" "1 \<le> length encoded" "length encoded \<le> 1000"
    using sample_canonical by blast
  have p: "parse_rule_definition digest_env sample_shape (JObj []) = Inr sample_definition"
    by (simp add: parse_rule_definition_Inr sample_valid sample_shape_def)
  have n: "sha256 digest_env encoded = replicate 64 97" "length sample_id = 36" "sample_id \<noteq> []"
    using valid_uuid_v4_length [OF sample_id_valid] by (auto simp: digest_env_def)
  have s: "scope_account_id (rule_scope sample_definition) = None" by (simp add: sample_definition_def sample_rule_def)
  show ?thesis
    using e p n s sample_id_valid
    by (simp add: sample_put_result_def put_automation_rule_def advance_rule_def find_rule_def no_rules_def
        live_rule_count_def count_where_def MAX_AUTOMATION_RULES_def next_automation_rules_revision_def checked_insert_def
        rule_row_check_def new_rule_row_def insert_version_def rule_version_check_def exists_where_def automation_rule_scope_identity_def)
qed

theorem put_rule_is_matched_witness:
  "\<exists>st r. sample_put_result = Inr (st, Inr r) \<and> rd_definition r = Inr (sorted_parameters sample_definition)
     \<and> sample_id \<in> mr_rule_id ` set (current_match_rules digest_env sample_shape (\<lambda>_. None) st)"
proof -
  obtain st detail where p: "sample_put_result = Inr (st, detail)" and rows: "ru_rules st = [new_rule_row sample_id 5]"
    using sample_put_effect by blast
  have id: "rule_identity sample_id None = sample_id" by (simp add: rule_identity_def)
  have d: "sample_shape (JObj []) = Some sample_definition" by (simp add: sample_shape_def)
  have k: "distinct (map fst (parameters (rule_action sample_definition)))"
    by (simp add: sample_definition_def)
  have c: "sample_shape (canon (model_dump sample_definition)) = Some (sorted_parameters sample_definition)"
    by (simp add: sample_shape_def model_dump_def)
  have h: "no_rules = rule_history digest_env sample_shape (\<lambda>_. None) []" by (simp add: rule_history_def)
  from put_rule_is_matched [OF h p [unfolded sample_put_result_def] d k c] obtain r where
    r: "detail = Inr r" "rd_rule_id r = sample_id" "rd_definition r = Inr (sorted_parameters sample_definition)"
      "{m \<in> set (current_match_rules digest_env sample_shape (\<lambda>_. None) st). mr_rule_id m = rd_rule_id r}
      = (if rd_enabled r then {\<lparr>mr_rule_id = rd_rule_id r, mr_version = rd_version r,
           mr_scope_mailbox_identity_key = None, mr_definition = sorted_parameters sample_definition\<rparr>} else {})"
    unfolding id by blast
  have "detail = automation_rule digest_env sample_shape (\<lambda>_. None) st sample_id"
    using p put_automation_rule_accepts [OF rule_store_ok_empty p [unfolded sample_put_result_def]] id by auto
  then have "rd_enabled r"
    using r(1) rows
    by (auto simp: automation_rule_def find_rule_def new_rule_row_def automation_rule_detail_def split: option.splits)
  with r have "\<lparr>mr_rule_id = sample_id, mr_version = rd_version r, mr_scope_mailbox_identity_key = None,
      mr_definition = sorted_parameters sample_definition\<rparr> \<in> set (current_match_rules digest_env sample_shape (\<lambda>_. None) st)"
    by auto
  then show ?thesis using p r(1,3) by force
qed

theorem deleted_rule_never_matches_witness:
  "\<exists>st m. delete_automation_rule 7 sample_id 1 (rule_history digest_env sample_shape (\<lambda>_. None) [sample_put]) = Inr (st, m)
     \<and> automation_rule digest_env sample_shape (\<lambda>_. None)
         (foldl (committed (exec_rule digest_env sample_shape (\<lambda>_. None))) st [sample_put]) sample_id = Inl AutomationRuleNotFound"
proof -
  obtain st detail where p: "sample_put_result = Inr (st, detail)" and rows: "ru_rules st = [new_rule_row sample_id 5]"
    using sample_put_effect by blast
  have run: "rule_history digest_env sample_shape (\<lambda>_. None) [sample_put] = st"
    using p by (simp add: rule_history_def committed_def sample_put_def sample_put_result_def)
  obtain v where v: "accepts no_rules v st"
    using put_automation_rule_accepts [OF rule_store_ok_empty p [unfolded sample_put_result_def]] by blast
  have n: "length sample_id = 36" using valid_uuid_v4_length [OF sample_id_valid] .
  have "accepts no_rules v st \<Longrightarrow> ru_versions st = [v] \<and> ru_revision st = Some 1 \<and> rv_version v = 1 \<and> rv_global_revision v = 1"
    by (simp add: accepts_def no_rules_def find_rule_def)
  with v rows n have "is_ok (delete_automation_rule 7 sample_id 1 st)"
    by (simp add: delete_automation_rule_def find_rule_def new_rule_row_def next_automation_rules_revision_def update_rule_def
        checked_update_def exists_where_def rule_at_def rule_row_check_def count_where_def insert_version_def rule_version_check_def
        update_where_def)
  then obtain st' m where d: "delete_automation_rule 7 sample_id 1 (rule_history digest_env sample_shape (\<lambda>_. None) [sample_put]) = Inr (st', m)"
    using run is_ok_pair by metis
  with deleted_rule_never_matches [OF d refl, of "[sample_put]"] show ?thesis by blast
qed

end
