(* ===== verification/Analysis_Proofs.thy ===== *)
theory Analysis_Proofs
  imports Analysis_Pass Rule_Store_Proofs
begin

text \<open>
  What the analysis component promises: a completed analysis is stored together with exactly the
  fires its attachments match, requests are repeated unchanged until they are settled, what has been
  analysed or paused is not read again, and no notification leaves without consent.
\<close>

section \<open>Rules on an analysed message\<close>

lemma current_match_rules_valid: "r \<in> set (current_match_rules env shape wide st) \<Longrightarrow> valid_rule env r"
  by (auto simp: current_match_rules_iff valid_rule_def stored_definition_def res_splits parse_rule_definition_Inr)

lemma facts_complete: "result_complete (facts_of identity result m)"
  by (simp add: result_complete_def facts_of_def)

definition expected_of ::
  "pyenv \<Rightarrow> (json \<Rightarrow> rule_definition option) \<Rightarrow> (bytes \<Rightarrow> pystr option) \<Rightarrow> completion \<Rightarrow> pystr \<Rightarrow> analysis_row
     \<Rightarrow> analysis_store \<Rightarrow> matched_fire list" where
  "expected_of env shape wide c message_id row st =
     expected_fires env (current_match_rules env shape wide (an_rules st))
       (facts_of (co_mailbox_identity_key c) (co_result c) row) (message_attachments st message_id)"

definition within_limits :: "attachment_descriptor list \<Rightarrow> matched_fire list \<Rightarrow> bool" where
  "within_limits attachments fires \<longleftrightarrow> length attachments \<le> MAX_AUTOMATION_ATTACHMENTS
     \<and> length fires \<le> MAX_AUTOMATION_FIRES_PER_MESSAGE"

lemma evaluate_stored_rules:
  "evaluate_rules env (current_match_rules env shape wide rs) (facts_of identity result m) attachments =
     Inr (let fires = expected_fires env (current_match_rules env shape wide rs) (facts_of identity result m) attachments in
          if within_limits attachments fires then Some fires else None)"
proof -
  let ?rules = "current_match_rules env shape wide rs" and ?m = "facts_of identity result m"
  have "\<forall>r\<in>set ?rules. valid_rule env r" using current_match_rules_valid by blast
  from match_rule_loop_eq [OF this facts_complete, of "[]"] show ?thesis
    by (auto simp: evaluate_rules_def match_rules_def expected_fires_def within_limits_def Let_def)
qed


section \<open>Completing an analysis\<close>

lemma update_message_frame [simp]:
  "an_attachments (update_message P f st) = an_attachments st" "an_rules (update_message P f st) = an_rules st"
  "an_connect (update_message P f st) = an_connect st" "an_calendar (update_message P f st) = an_calendar st"
  by (simp_all add: update_message_def)

lemma clear_request_simps [simp]:
  "mg_message_id (clear_request m) = mg_message_id m" "me_status (clear_request m) = me_status m"
  by (simp_all add: clear_request_def)

lemma analyzed_row_simps [simp]:
  "mg_message_id (analyzed_row now revision e c m) = mg_message_id m" "me_status (analyzed_row now revision e c m) = M_analyzed"
  by (simp_all add: analyzed_row_def)

definition new_fires ::
  "(nat \<Rightarrow> pystr \<times> pystr) \<Rightarrow> nat \<Rightarrow> pystr \<Rightarrow> pystr \<Rightarrow> instant \<Rightarrow> matched_fire list \<Rightarrow> automation_fire list" where
  "new_fires fresh n key message_id now fires =
     map (\<lambda>(i, f). new_fire (fst (fresh i)) key message_id now f) (enumerate n fires)"

definition first_attempts :: "(nat \<Rightarrow> pystr \<times> pystr) \<Rightarrow> nat \<Rightarrow> instant \<Rightarrow> matched_fire list \<Rightarrow> fire_attempt list" where
  "first_attempts fresh n now fires =
     map (\<lambda>(i, f). \<lparr>at_fire_id = fst (fresh i), at_attempt_no = 1, at_dispatch_request_id = snd (fresh i),
        at_job_id = None, at_created_at = now\<rparr>) (enumerate n fires)"

definition new_sources ::
  "(nat \<Rightarrow> pystr \<times> pystr) \<Rightarrow> nat \<Rightarrow> pystr \<Rightarrow> pystr \<Rightarrow> analysis_row \<Rightarrow> matched_fire list \<Rightarrow> fire_source_identity list" where
  "new_sources fresh n message_id identity row fires =
     map (\<lambda>(i, f). \<lparr>fs_fire_id = fst (fresh i), fs_message_id = message_id, fs_part_id = mf_part_id f,
        fs_provider = mg_provider row, fs_account_id = mg_account_id row, fs_mailbox_identity_key = identity\<rparr>) (enumerate n fires)"

lemma insert_fire_Inr:
  "insert_fire f st = Inr st' \<Longrightarrow> st' = st\<lparr>an_connect := (an_connect st)\<lparr>st_fires := st_fires (an_connect st) @ [f]\<rparr>\<rparr>"
  by (auto simp: insert_fire_def res_splits)

lemma insert_fire_source_Inr:
  "insert_fire_source s st = Inr st' \<Longrightarrow>
     st' = st\<lparr>an_connect := (an_connect st)\<lparr>st_fire_sources := st_fire_sources (an_connect st) @ [s]\<rparr>\<rparr>"
  by (auto simp: insert_fire_source_def res_splits)

lemma insert_attempt_Inr: "insert_attempt a st = Inr st' \<Longrightarrow> st' = st\<lparr>st_attempts := st_attempts st @ [a]\<rparr>"
  by (auto simp: insert_attempt_def res_splits)

lemma insert_matched_effect:
  assumes "insert_matched fresh n key message_id identity now row fires st = Inr st'"
  shows "st' = st\<lparr>an_connect := (an_connect st)
     \<lparr>st_fires := st_fires (an_connect st) @ new_fires fresh n key message_id now fires,
      st_attempts := st_attempts (an_connect st) @ first_attempts fresh n now fires,
      st_fire_sources := st_fire_sources (an_connect st) @ new_sources fresh n message_id identity row fires\<rparr>\<rparr>"
  using assms
proof (induction fires arbitrary: n st)
  case Nil
  then show ?case by (simp add: new_fires_def first_attempts_def new_sources_def)
next
  case (Cons f fires)
  from Cons.prems obtain st1 st2 connect where
    "insert_fire (new_fire (fst (fresh n)) key message_id now f) st = Inr st1"
    "insert_fire_source \<lparr>fs_fire_id = fst (fresh n), fs_message_id = message_id, fs_part_id = mf_part_id f,
         fs_provider = mg_provider row, fs_account_id = mg_account_id row, fs_mailbox_identity_key = identity\<rparr> st1 = Inr st2"
    "insert_attempt \<lparr>at_fire_id = fst (fresh n), at_attempt_no = 1, at_dispatch_request_id = snd (fresh n),
         at_job_id = None, at_created_at = now\<rparr> (an_connect st2) = Inr connect"
    and rest: "insert_matched fresh (Suc n) key message_id identity now row fires (st2\<lparr>an_connect := connect\<rparr>) = Inr st'"
    by (auto simp: res_splits)
  note steps = insert_fire_Inr [OF this(1)] insert_fire_source_Inr [OF this(2)] insert_attempt_Inr [OF this(3)]
  show ?case using Cons.IH [OF rest] steps by (simp add: new_fires_def first_attempts_def new_sources_def)
qed

definition settled_evaluation :: "attachment_descriptor list \<Rightarrow> matched_fire list \<Rightarrow> matched_fire list \<times> pystr option" where
  "settled_evaluation attachments expected =
     (if within_limits attachments expected then (expected, None) else ([], Some (lit ''automation_fanout_limit'')))"

lemma complete_row_Inr:
  assumes "complete_row now revision e c message_id st = Inr st'" and "find_message st message_id = Some row"
    and "me_status row = M_pending"
  shows "st' = update_message (\<lambda>m. is_message message_id m \<and> me_status m = M_pending) (analyzed_row now revision e c) st
    \<and> find_message st' message_id = Some (analyzed_row now revision e c row)"
  using assms find_message_id [OF assms(2)]
  by (auto simp: complete_row_def Let_def res_splits find_message_update is_message_def)

lemma admit_scheduling_frame:
  "admit_scheduling env run_id run_event now c row st = Inr st' \<Longrightarrow> \<exists>calendar. st' = st\<lparr>an_calendar := calendar\<rparr>"
  by (cases st) (auto simp: admit_scheduling_def res_splits split: option.splits if_splits)

lemma mark_analyzed_stages:
  assumes "mark_analyzed env shape wide fresh run_id run_event now message_id c st = Inr st'"
  obtains row revision st1 st2 where "find_message st message_id = Some row" "me_status row = M_pending"
    "mg_mailbox_identity_key row = Some (co_mailbox_identity_key c)"
    "ru_revision (an_rules st) = Some revision"
    "complete_row now revision (snd (settled_evaluation (message_attachments st message_id)
       (expected_of env shape wide c message_id row st))) c message_id st = Inr st1"
    "insert_fires env fresh now message_id c row (if within_limits (message_attachments st message_id)
       (expected_of env shape wide c message_id row st) then Some (expected_of env shape wide c message_id row st) else None) st1 = Inr st2"
    "admit_scheduling env run_id run_event now c row st2 = Inr st'"
  using assms that
  by (auto simp: mark_analyzed_def res_splits evaluate_stored_rules settled_evaluation_def expected_of_def Let_def
      require_current_identity_def split: if_splits option.splits)


section \<open>Rows under the operations\<close>

definition finished_row :: "analysis_row \<Rightarrow> bool" where
  "finished_row m \<longleftrightarrow> me_status m \<in> {M_analyzed, M_summarized}"

lemma finished_not_workable: "finished_row m \<Longrightarrow> \<not> workable m"
  by (auto simp: finished_row_def workable_def)

text \<open>The row of \<open>k\<close> is not woken: what is not workable stays so, and what is finished stays finished.\<close>

definition row_keeps :: "pystr \<Rightarrow> analysis_row \<Rightarrow> analysis_row \<Rightarrow> bool" where
  "row_keeps k m m' \<longleftrightarrow> mg_message_id m' = mg_message_id m
     \<and> (mg_message_id m = Some k \<longrightarrow> (\<not> workable m \<longrightarrow> \<not> workable m') \<and> (finished_row m \<longrightarrow> finished_row m'))"

definition keeps :: "pystr \<Rightarrow> analysis_store \<Rightarrow> analysis_store \<Rightarrow> bool" where
  "keeps k st st' \<longleftrightarrow> list_all2 (row_keeps k) (an_messages st) (an_messages st')"

lemma row_keeps_refl [simp]: "row_keeps k m m"
  by (simp add: row_keeps_def)

lemma keeps_refl [simp]: "keeps k st st"
  by (simp add: keeps_def list_all2_refl)

lemma keeps_trans: "keeps k st st' \<Longrightarrow> keeps k st' st'' \<Longrightarrow> keeps k st st''"
  unfolding keeps_def by (rule list_all2_trans) (auto simp: row_keeps_def)

lemma keeps_same: "an_messages st' = an_messages st \<Longrightarrow> keeps k st st'"
  by (simp add: keeps_def list_all2_refl)

lemma keeps_ids: "keeps k st st' \<Longrightarrow> map mg_message_id (an_messages st') = map mg_message_id (an_messages st)"
  unfolding keeps_def by (induction rule: list_all2_induct) (auto simp: row_keeps_def)

lemma keeps_update: "(\<And>m. P m \<Longrightarrow> row_keeps k m (f m)) \<Longrightarrow> keeps k st (update_message P f st)"
  by (auto simp: keeps_def update_message_def update_where_def list.rel_map list.rel_refl_strong)

lemma keeps_update_other:
  "i \<noteq> k \<Longrightarrow> (\<And>m. P m \<Longrightarrow> is_message i m) \<Longrightarrow> (\<And>m. mg_message_id (f m) = mg_message_id m) \<Longrightarrow> keeps k st (update_message P f st)"
  by (rule keeps_update) (auto simp: row_keeps_def is_message_def)

lemma keeps_find:
  assumes "keeps k st st'" and "find_message st k = Some m"
  shows "\<exists>m'. find_message st' k = Some m' \<and> row_keeps k m m'"
  using assms unfolding keeps_def find_message_def
  by (induction rule: list_all2_induct) (auto simp: row_keeps_def split: if_splits)

text \<open>Operations that never wake a row.\<close>

lemma reserve_keeps: "reserve_analysis_request r x i n st = Inr (st', q) \<Longrightarrow> keeps k st st'"
  by (auto simp: reserve_analysis_request_def res_splits row_keeps_def workable_def finished_row_def
      intro!: keeps_update split: option.splits)

lemma fallback_keeps: "keeps k st (mark_fallback_notified now i st)"
  by (auto simp: mark_fallback_notified_def row_keeps_def workable_def finished_row_def intro!: keeps_update)

lemma delivery_complete_keeps: "keeps k st (mark_delivery_complete now i b st)"
  by (auto simp: mark_delivery_complete_def row_keeps_def workable_def finished_row_def intro!: keeps_update)

lemma record_failure_keeps: "record_failure now i e a st = Inr st' \<Longrightarrow> keeps k st st'"
  by (auto simp: record_failure_def res_splits row_keeps_def workable_def finished_row_def intro!: keeps_update)

lemma acknowledge_review_keeps: "acknowledge_review env now i n st = Inr (st', a) \<Longrightarrow> keeps k st st'"
  by (auto simp: acknowledge_review_def res_splits intro!: keeps_same split: if_splits)

lemma acknowledge_message_keeps: "acknowledge_message tx now i kind at st = Inr (st', a) \<Longrightarrow> keeps k st st'"
  by (auto simp: acknowledge_message_def res_splits row_keeps_def workable_def finished_row_def intro!: keeps_update
      split: if_splits)

lemma acknowledge_keeps: "acknowledge_notification env tx now i kind at st_type sid revision st = Inr (st', a) \<Longrightarrow> keeps k st st'"
  by (auto simp: acknowledge_notification_def res_splits split: if_splits
      dest: acknowledge_review_keeps acknowledge_message_keeps)

text \<open>Operations on another message.\<close>

lemma analysis_failure_keeps:
  "record_analysis_failure now i e a retryable code after_s st = Inr st' \<Longrightarrow> i \<noteq> k \<Longrightarrow> keeps k st st'"
  by (auto simp: record_analysis_failure_def res_splits Let_def intro: keeps_update_other)

lemma skipped_keeps: "i \<noteq> k \<Longrightarrow> keeps k st (mark_skipped i st)"
  by (auto simp: mark_skipped_def intro: keeps_update_other)

lemma attachments_keeps: "replace_attachments i as s st = Inr st' \<Longrightarrow> keeps k st st'"
  by (auto simp: replace_attachments_def res_splits intro: keeps_same)

lemma mark_analyzed_messages:
  assumes "mark_analyzed env shape wide fresh run_id run_event now i c st = Inr st'"
  shows "\<exists>e revision. an_messages st' =
    an_messages (update_message (\<lambda>m. is_message i m \<and> me_status m = M_pending) (analyzed_row now revision e c) st)"
proof -
  from mark_analyzed_stages [OF assms] obtain row revision e matched st1 st2 where
    row: "find_message st i = Some row" "me_status row = M_pending" "complete_row now revision e c i st = Inr st1"
    and "insert_fires env fresh now i c row matched st1 = Inr st2" "admit_scheduling env run_id run_event now c row st2 = Inr st'"
    by metis
  then have "an_messages st' = an_messages st1"
    by (auto simp: insert_fires_def res_splits dest!: admit_scheduling_frame insert_matched_effect split: option.splits)
  then show ?thesis using complete_row_Inr [OF row(3,1,2)] by auto
qed

lemma mark_analyzed_keeps:
  assumes "mark_analyzed env shape wide fresh run_id run_event now i c st = Inr st'"
  shows "keeps k st st'"
proof -
  obtain e revision where "an_messages st' =
      an_messages (update_message (\<lambda>m. is_message i m \<and> me_status m = M_pending) (analyzed_row now revision e c) st)"
    using mark_analyzed_messages [OF assms] by blast
  moreover have "keeps k st (update_message (\<lambda>m. is_message i m \<and> me_status m = M_pending) (analyzed_row now revision e c) st)"
    by (rule keeps_update) (auto simp: row_keeps_def workable_def finished_row_def)
  ultimately show ?thesis by (simp add: keeps_def)
qed

lemmas op_keeps = reserve_keeps fallback_keeps delivery_complete_keeps record_failure_keeps acknowledge_keeps
  analysis_failure_keeps skipped_keeps attachments_keeps mark_analyzed_keeps

section \<open>The pass leaves sleeping messages alone\<close>

definition reads :: "pystr \<Rightarrow> pass_effect list \<Rightarrow> bool" where
  "reads k es \<longleftrightarrow> list_ex (\<lambda>e. case e of Fetched i n \<Rightarrow> i = k | Model_called i q \<Rightarrow> i = k | _ \<Rightarrow> False) es"

definition undisturbed :: "pystr \<Rightarrow> pass \<Rightarrow> pass \<Rightarrow> bool" where
  "undisturbed k p p' \<longleftrightarrow> keeps k (ps_store p) (ps_store p') \<and> (\<exists>es. ps_effects p' = ps_effects p @ es \<and> \<not> reads k es)"

lemma reads_simps [simp]: "\<not> reads k []" "reads k (es @ fs) \<longleftrightarrow> reads k es \<or> reads k fs"
  "\<not> reads k (map (Pushed s i) ps)" "reads k [Fetched i n] \<longleftrightarrow> i = k" "reads k [Model_called i q] \<longleftrightarrow> i = k"
  "\<not> reads k [Result_acknowledged r b]"
  by (auto simp: reads_def list_ex_iff)

lemma undisturbed_refl [simp]: "undisturbed k p p"
  by (simp add: undisturbed_def)

lemma undisturbed_trans: "undisturbed k p q \<Longrightarrow> undisturbed k q r \<Longrightarrow> undisturbed k p r"
  unfolding undisturbed_def by (auto intro: keeps_trans)

lemma undisturbed_store: "keeps k (ps_store p) st \<Longrightarrow> undisturbed k p (p\<lparr>ps_store := st\<rparr>)"
  by (simp add: undisturbed_def)

lemma undisturbed_observed: "\<not> reads k es \<Longrightarrow> undisturbed k p (observed es p)"
  by (auto simp: undisturbed_def observed_def)

lemma undisturbed_counters [simp]:
  "undisturbed k p (q\<lparr>ps_summarized := n\<rparr>) = undisturbed k p q" "undisturbed k p (q\<lparr>ps_fallback := n\<rparr>) = undisturbed k p q"
  "undisturbed k (p\<lparr>ps_summarized := n\<rparr>) q = undisturbed k p q" "undisturbed k (p\<lparr>ps_fallback := n\<rparr>) q = undisturbed k p q"
  by (simp_all add: undisturbed_def)

interpretation sleep: pass_steps c "undisturbed k" "\<lambda>i. i \<noteq> k" for c k
  by unfold_locales
    (auto intro: undisturbed_trans undisturbed_observed undisturbed_store op_keeps)

section \<open>Histories of passes\<close>

text \<open>Message ids are a primary key.\<close>

definition messages_ok :: "analysis_store \<Rightarrow> bool" where
  "messages_ok st \<longleftrightarrow> None \<notin> set (map mg_message_id (an_messages st)) \<and> distinct (map mg_message_id (an_messages st))"

lemma queue_workable:
  assumes "messages_ok st" and "pending now n provider account st = Inr queue" and "m \<in> set queue"
  shows "\<exists>i. mg_message_id m = Some i \<and> find_message st i = Some m \<and> workable m"
proof -
  have m: "m \<in> set (an_messages st)" "workable m"
    using assms(2,3) by (auto simp: pending_def res_splits readable_messages_def dest!: in_set_takeD)
  then obtain i where i: "mg_message_id m = Some i"
    using assms(1) by (force simp: messages_ok_def)
  have "find_message st i = Some m"
    using find_key_distinct [of mg_message_id "an_messages st" m] m(1) i assms(1)
    by (simp add: find_message_def messages_ok_def)
  with i m(2) show ?thesis by blast
qed

lemma undisturbed_ok: "undisturbed k p p' \<Longrightarrow> messages_ok (ps_store p') = messages_ok (ps_store p)"
  using keeps_ids [of k "ps_store p" "ps_store p'"] by (simp add: undisturbed_def messages_ok_def del: set_map)

lemma process_pending_undisturbed:
  assumes ok: "messages_ok st" and m: "find_message st k = Some m" "\<not> workable m"
  shows "undisturbed k (start st) (final (process_pending env tx shape wide c w now [] st))"
proof (rule sleep.process_pending_step)
  fix q queue x
  assume all: "undisturbed k (start st) q" and x: "x \<in> set queue \<union> set []"
    and queue: "pending now 25 (Some (pc_provider c)) (Some (pc_account_id c)) (ps_store q) = Inr queue"
  have "messages_ok (ps_store q)" using undisturbed_ok [OF all] ok by (simp add: start_def)
  then obtain i where i: "mg_message_id x = Some i" "find_message (ps_store q) i = Some x" "workable x"
    using queue_workable [OF _ queue] x by auto
  have "keeps k st (ps_store q)" using all by (simp add: undisturbed_def start_def)
  from keeps_find [OF this m(1)] have "i \<noteq> k" using m(2) find_message_id [OF m(1)] i by (auto simp: row_keeps_def)
  then show "message_key x \<noteq> k" using i by (simp add: message_key_def)
qed

text \<open>
  What can happen to the messages, in any order: passes, live or dry, requeues by the user,
  acknowledged notifications, a copy of a skipped message appearing, capture of new messages,
  removal of messages, and any change of the other tables by their components.
\<close>

datatype analysis_op =
    Pass pass_config world instant
  | Requeue pystr
  | Acknowledge instant pystr pystr "pystr option" "pystr option" "pystr option" "pystr option"
  | Copy_found pystr
  | Capture analysis_row
  | Remove pystr
  | Others rule_store store calendar_store

definition capture :: "analysis_row \<Rightarrow> analysis_store \<Rightarrow> analysis_store" where
  "capture m st = (if mg_message_id m = None \<or> mg_message_id m \<in> set (map mg_message_id (an_messages st)) then st
     else st\<lparr>an_messages := an_messages st @ [m]\<rparr>)"

fun exec_analysis ::
  "pyenv \<Rightarrow> textenv \<Rightarrow> (json \<Rightarrow> rule_definition option) \<Rightarrow> (bytes \<Rightarrow> pystr option) \<Rightarrow> analysis_store \<Rightarrow> analysis_op
     \<Rightarrow> analysis_store \<times> pass_effect list" where
  "exec_analysis env tx shape wide st (Pass c w now) =
     (let p = final (process_pending env tx shape wide c w now [] st) in (ps_store p, ps_effects p))"
| "exec_analysis env tx shape wide st (Requeue i) =
     (case requeue_analysis i st of Inl _ \<Rightarrow> st | Inr st' \<Rightarrow> st', [])"
| "exec_analysis env tx shape wide st (Acknowledge now i kind t ty sid revision) =
     (case acknowledge_notification env tx now i kind t ty sid revision st of Inl _ \<Rightarrow> st | Inr (st', _) \<Rightarrow> st', [])"
| "exec_analysis env tx shape wide st (Copy_found i) = (requeue_skipped i st, [])"
| "exec_analysis env tx shape wide st (Capture m) = (capture m st, [])"
| "exec_analysis env tx shape wide st (Remove i) =
     (st\<lparr>an_messages := delete_where (is_message i) (an_messages st)\<rparr>, [])"
| "exec_analysis env tx shape wide st (Others rules connect calendar) =
     (st\<lparr>an_rules := rules, an_connect := connect, an_calendar := calendar\<rparr>, [])"

definition step_analysis ::
  "pyenv \<Rightarrow> textenv \<Rightarrow> (json \<Rightarrow> rule_definition option) \<Rightarrow> (bytes \<Rightarrow> pystr option) \<Rightarrow> analysis_store \<Rightarrow> analysis_op
     \<Rightarrow> analysis_store" where
  "step_analysis env tx shape wide st op = fst (exec_analysis env tx shape wide st op)"

definition analysis_effects ::
  "pyenv \<Rightarrow> textenv \<Rightarrow> (json \<Rightarrow> rule_definition option) \<Rightarrow> (bytes \<Rightarrow> pystr option) \<Rightarrow> analysis_store \<Rightarrow> analysis_op list
     \<Rightarrow> pass_effect list" where
  "analysis_effects env tx shape wide st ops =
     effect_trace (step_analysis env tx shape wide) (\<lambda>st op. snd (exec_analysis env tx shape wide st op)) st ops"

text \<open>The operations that may bring \<open>k\<close> back to work.\<close>

fun wakes :: "pystr \<Rightarrow> analysis_op \<Rightarrow> bool" where
  "wakes k (Requeue i) \<longleftrightarrow> i = k"
| "wakes k (Copy_found i) \<longleftrightarrow> i = k"
| "wakes k _ \<longleftrightarrow> False"

fun removes :: "pystr \<Rightarrow> analysis_op \<Rightarrow> bool" where
  "removes k (Remove i) \<longleftrightarrow> i = k"
| "removes k _ \<longleftrightarrow> False"

definition sleeping :: "pystr \<Rightarrow> analysis_store \<Rightarrow> bool" where
  "sleeping k st \<longleftrightarrow> opt_all (\<lambda>m. \<not> workable m) (find_message st k) \<and> find_message st k \<noteq> None"

definition finished :: "pystr \<Rightarrow> analysis_store \<Rightarrow> bool" where
  "finished k st \<longleftrightarrow> opt_all finished_row (find_message st k) \<and> find_message st k \<noteq> None"

lemma finished_sleeping: "finished k st \<Longrightarrow> sleeping k st"
  by (auto simp: finished_def sleeping_def opt_all_iff dest: finished_not_workable)

lemma keeps_sleeping: "keeps k st st' \<Longrightarrow> sleeping k st \<Longrightarrow> sleeping k st'"
  and keeps_finished: "keeps k st st' \<Longrightarrow> finished k st \<Longrightarrow> finished k st'"
  by (auto simp: sleeping_def finished_def opt_all_iff row_keeps_def dest: find_message_id dest!: keeps_find)

lemma update_message_ok:
  "(\<And>m. mg_message_id (f m) = mg_message_id m) \<Longrightarrow> messages_ok (update_message P f st) = messages_ok st"
  by (simp add: messages_ok_def update_message_def map_update_where del: set_map)

lemma pass_step:
  assumes "messages_ok st" and "sleeping k st"
  shows "messages_ok (ps_store (final (process_pending env tx shape wide c w now [] st)))
    \<and> keeps k st (ps_store (final (process_pending env tx shape wide c w now [] st)))
    \<and> \<not> reads k (ps_effects (final (process_pending env tx shape wide c w now [] st)))"
proof -
  obtain m where "find_message st k = Some m" "\<not> workable m" using assms(2) by (auto simp: sleeping_def)
  from process_pending_undisturbed [OF assms(1) this] show ?thesis
    using undisturbed_ok assms(1) by (fastforce simp: undisturbed_def start_def)
qed

lemma requeue_finished: "finished k st \<Longrightarrow> requeue_analysis k st = Inr st' \<Longrightarrow> False"
  by (auto simp: finished_def requeue_analysis_def res_splits finished_row_def)

lemma requeue_keeps: "i \<noteq> k \<Longrightarrow> requeue_analysis i st = Inr st' \<Longrightarrow> keeps k st st'"
  by (auto simp: requeue_analysis_def res_splits intro: keeps_update_other)

lemma requeue_ok: "requeue_analysis i st = Inr st' \<Longrightarrow> messages_ok st' = messages_ok st"
  by (auto simp: requeue_analysis_def res_splits update_message_ok)

lemma capture_find: "find_message st k = Some m \<Longrightarrow> find_message (capture x st) k = Some m"
  by (simp add: capture_def find_message_def find_append_rows)

lemma capture_ok: "messages_ok st \<Longrightarrow> messages_ok (capture x st)"
  by (auto simp: capture_def messages_ok_def)

lemma remove_find:
  "i \<noteq> k \<Longrightarrow> find_message (st\<lparr>an_messages := delete_where (is_message i) (an_messages st)\<rparr>) k = find_message st k"
  using find_key_delete [of mg_message_id "Some k" "Some i" "an_messages st"] by (simp add: find_message_def is_message_def [abs_def])

lemma remove_ok: "messages_ok st \<Longrightarrow> messages_ok (st\<lparr>an_messages := delete_where (is_message i) (an_messages st)\<rparr>)"
  by (auto simp: messages_ok_def set_delete_where intro: distinct_delete_where)

lemma acknowledge_ok: "acknowledge_notification env tx now i kind t ty sid revision st = Inr (st', a) \<Longrightarrow> messages_ok st' = messages_ok st"
  using keeps_ids [OF acknowledge_keeps] by (fastforce simp: messages_ok_def simp del: set_map)

lemma analysis_step:
  assumes ok: "messages_ok st" and s: "sleeping k st" and r: "\<not> removes k op" and w: "finished k st \<or> \<not> wakes k op"
  shows "messages_ok (step_analysis env tx shape wide st op) \<and> sleeping k (step_analysis env tx shape wide st op)
    \<and> (finished k st \<longrightarrow> finished k (step_analysis env tx shape wide st op))
    \<and> \<not> reads k (snd (exec_analysis env tx shape wide st op))"
proof (cases op)
  case (Pass c w now)
  with pass_step [OF ok s] keeps_sleeping keeps_finished s show ?thesis
    by (fastforce simp: step_analysis_def Let_def)
next
  case (Requeue i)
  show ?thesis
  proof (cases "requeue_analysis i st")
    case (Inr st')
    then have "i \<noteq> k" using w Requeue requeue_finished by auto
    with Requeue Inr requeue_keeps requeue_ok ok s keeps_sleeping keeps_finished show ?thesis
      by (fastforce simp: step_analysis_def)
  qed (use Requeue ok s in \<open>simp add: step_analysis_def\<close>)
next
  case (Acknowledge now i kind t ty sid revision)
  show ?thesis
  proof (cases "acknowledge_notification env tx now i kind t ty sid revision st")
    case (Inr x)
    then obtain st' a where x: "acknowledge_notification env tx now i kind t ty sid revision st = Inr (st', a)" by (cases x) auto
    with Acknowledge acknowledge_keeps [OF x] acknowledge_ok [OF x] ok s keeps_sleeping keeps_finished show ?thesis
      by (fastforce simp: step_analysis_def)
  qed (use Acknowledge ok s in \<open>simp add: step_analysis_def\<close>)
next
  case (Copy_found i)
  obtain m where m: "find_message st k = Some m" using s by (auto simp: sleeping_def)
  have "i = k \<Longrightarrow> finished_row m" using w Copy_found m by (simp add: finished_def)
  then have "find_message (requeue_skipped i st) k = find_message st k"
    using find_message_id [OF m] m
    by (auto simp: requeue_skipped_def find_message_update is_message_def finished_row_def)
  with Copy_found ok s show ?thesis
    by (simp add: step_analysis_def sleeping_def finished_def requeue_skipped_def update_message_ok)
next
  case (Capture m)
  then show ?thesis
    using s capture_ok [OF ok] capture_find [of st k _ m] by (auto simp: step_analysis_def sleeping_def finished_def)
next
  case (Remove i)
  then show ?thesis
    using r s remove_ok [OF ok] remove_find [of i k st] by (simp add: step_analysis_def sleeping_def finished_def)
next
  case (Others rules connect calendar)
  then show ?thesis using ok s by (simp add: step_analysis_def sleeping_def finished_def find_message_def messages_ok_def)
qed


section \<open>Examples\<close>

definition mail_key :: pystr where
  "mail_key = replicate 64 97"

definition mail_message :: "message_status \<Rightarrow> analysis_row" where
  "mail_message s =
     \<lparr>mg_message_id = Some (lit ''m''), mg_provider = lit ''gmail'', mg_account_id = lit ''a'',
      mg_mailbox_identity_key = Some mail_key, mg_provider_message_id = lit ''p'', sr_logical_of = None,
      sr_thread_key = None, sr_sender = lit ''s'', sr_sender_name = None, sr_subject = lit ''t'', sr_received_at = lit ''r'',
      me_discovered_at = Aware 0, me_status = s, me_analysis_at = None, me_attempts = 0, me_next_retry_at = None,
      me_request_id = None, me_context_at = None, me_body_char_limit = None, me_retryable = None, me_error_code = None,
      me_retry_after_seconds = None, me_fallback_notified_at = None, me_notified_at = None, me_result = None,
      me_body_chars = None, me_body_source_chars = None, me_rules_revision = None, me_rules_error = None,
      me_last_error = None\<rparr>"

definition mail_store :: "message_status \<Rightarrow> analysis_store" where
  "mail_store s =
     \<lparr>an_messages = [mail_message s], an_attachments = [],
      an_rules = no_rules\<lparr>ru_accounts := [(lit ''gmail'', lit ''a'', Some mail_key)]\<rparr>,
      an_connect = \<lparr>st_jobs = [], st_dispatch = [], st_fires = [], st_attempts = [], st_confirmations = [],
        st_fire_sources = [], st_messages = [], st_attachments = [], st_removal = None\<rparr>,
      an_calendar = \<lparr>cs_runs = [], cs_events = [], cs_extractions = [], cs_proposals = [], cs_writes = [], cs_identities = [],
        cs_sources = \<lparr>so_messages = [], so_accounts = [], so_follows = [], so_removal = None\<rparr>\<rparr>\<rparr>"

definition mail_result :: analysis_result where
  "mail_result = \<lparr>rs_category = lit ''other'', rs_priority = lit ''low'', rs_summary = lit ''x'', rs_action_required = False,
     rs_suggested_action = None, rs_deadline_text = None, rs_deadline_iso = None, rs_confidence = JNull\<rparr>"

definition mail_completion :: completion where
  "mail_completion = \<lparr>co_result = mail_result, co_mailbox_identity_key = mail_key, co_body_chars = Some 1,
     co_body_source_chars = Some 2, co_principal_key = None\<rparr>"

lemma find_mail [simp]: "find_message (mail_store s) (lit ''m'') = Some (mail_message s)"
  by (simp add: find_message_def mail_store_def mail_message_def)

lemma mail_available: "message_content_available (mail_store s) (lit ''m'')"
  by (simp add: message_content_available_def content_available_def message_available_def connect_view_def mail_store_def
      mail_message_def message_row.truncate_def)

lemma mail_key_ok: "require_mailbox_identity_key mail_key = Inr mail_key"
  by (simp add: require_mailbox_identity_key_def mail_key_def is_hex_def list_ex_iff)

lemma mail_analyzed:
  "\<exists>st. mark_analyzed digest_env sample_shape (\<lambda>_. None) fresh [] [] 7 (lit ''m'') mail_completion (mail_store M_pending) = Inr st"
proof -
  let ?row = "mail_message M_pending" and ?st = "mail_store M_pending"
  have "current_match_rules digest_env sample_shape (\<lambda>_. None) (an_rules ?st) = []"
    by (simp add: current_match_rules_def current_rows_def mail_store_def no_rules_def)
  then have "evaluate_rules digest_env (current_match_rules digest_env sample_shape (\<lambda>_. None) (an_rules ?st))
      (facts_of (co_mailbox_identity_key mail_completion) (co_result mail_completion) ?row) (message_attachments ?st (lit ''m'')) = Inr (Some [])"
    unfolding evaluate_stored_rules by (simp add: expected_fires_def within_limits_def message_attachments_def mail_store_def
        MAX_AUTOMATION_ATTACHMENTS_def MAX_AUTOMATION_FIRES_PER_MESSAGE_def)
  moreover have "me_status ?row = M_pending" "ru_revision (an_rules ?st) = Some 0"
    by (simp_all add: mail_message_def mail_store_def no_rules_def)
  moreover have "require_current_identity (co_mailbox_identity_key mail_completion) ?row ?st = Inr ()"
    by (simp add: require_current_identity_def mail_store_def mail_message_def mail_completion_def)
  moreover have "\<exists>st. complete_row 7 0 None mail_completion (lit ''m'') ?st = Inr st"
    by (simp add: complete_row_def body_counts_ok_def mail_completion_def mail_store_def count_where_def is_message_def mail_message_def)
  moreover have "\<exists>key. message_source_key digest_env (mg_provider ?row) (mg_account_id ?row) (mg_provider_message_id ?row) (Some mail_key) = Some key"
    unfolding message_source_key_def by (subst utf8_encode_small) (simp_all add: mail_message_def mail_key_def lit_def list_all_iff)
  ultimately show ?thesis
    using mail_key_ok mail_available [of M_pending]
    by (auto simp: mark_analyzed_def insert_fires_def admit_scheduling_def mail_completion_def)
qed



end
