(* ===== verification/Analysis_Safety.thy ===== *)
theory Analysis_Safety
  imports Analysis_Proofs
begin

text \<open>
  What leaves the program during an analysis pass: a dry run writes nothing and tells nobody, a
  notification needs consent, nothing of a message under removal is read or shown, and a message is
  analysed under one request until that request is settled. Each is an interpretation of
  \<open>pass_steps\<close>.
\<close>

section \<open>Dry runs\<close>

definition quiet :: "pass_effect \<Rightarrow> bool" where
  "quiet e \<longleftrightarrow> (case e of Fetched i n \<Rightarrow> True | Model_called i q \<Rightarrow> q = None | _ \<Rightarrow> False)"

definition unwritten :: "pass_config \<Rightarrow> pass \<Rightarrow> pass \<Rightarrow> bool" where
  "unwritten c p p' \<longleftrightarrow> (pc_dry_run c \<longrightarrow>
     ps_store p' = ps_store p \<and> (\<exists>es. ps_effects p' = ps_effects p @ es \<and> list_all quiet es))"

lemma dry_deliver [simp]: "fst (deliver c True answers title body urgency priority) = []"
  by (simp add: deliver_def Let_def)

interpretation dry: pass_steps c "unwritten c" "\<lambda>_. True" for c
  by unfold_locales
    (auto simp: unwritten_def observed_def quiet_def attempt_def)

text \<open>
  a dry run is a preview: whatever is pending, whatever the mailbox, the model and the channels
  answer and wherever the pass ends, the store is what it was, no notification is sent and no result
  is acknowledged; the model is asked without a request id.
\<close>

theorem dry_run_writes_nothing:
  assumes "pc_dry_run c"
  shows "ps_store (final (process_pending env tx shape wide c w now extra st)) = st
    \<and> list_all quiet (ps_effects (final (process_pending env tx shape wide c w now extra st)))"
proof -
  have "unwritten c (start st) (final (process_pending env tx shape wide c w now extra st))"
    by (rule dry.process_pending_step) simp
  then show ?thesis using assms by (auto simp: unwritten_def start_def)
qed

section \<open>Disclosure\<close>

text \<open>What \<open>removal.py\<close> decides availability from; no step of a pass changes it.\<close>

definition removal_view :: "analysis_store \<Rightarrow> message_row list \<times> removal_tables option" where
  "removal_view st = (map message_row.truncate (an_messages st), st_removal (an_connect st))"

lemma available_view:
  "message_content_available st i \<longleftrightarrow>
     (case List.find (\<lambda>m. mg_message_id m = Some i) (fst (removal_view st)) of
        None \<Rightarrow> False
      | Some m \<Rightarrow> (case snd (removal_view st) of None \<Rightarrow> True | Some rm \<Rightarrow> available True rm m))"
  by (auto simp: removal_view_def message_content_available_def content_available_def message_available_def connect_view_def
      split: option.splits)

lemma available_of_view: "removal_view st' = removal_view st \<Longrightarrow> message_content_available st' i = message_content_available st i"
  unfolding available_view by (simp only:)

lemma view_ids: "removal_view st' = removal_view st \<Longrightarrow> map mg_message_id (an_messages st') = map mg_message_id (an_messages st)"
  by (auto simp: removal_view_def message_row.truncate_def dest!: arg_cong [where f = "map mg_message_id"] simp: o_def)

lemma view_same: "an_messages st' = an_messages st \<Longrightarrow> st_removal (an_connect st') = st_removal (an_connect st) \<Longrightarrow>
    removal_view st' = removal_view st"
  by (simp add: removal_view_def)

lemma view_update:
  "(\<And>m. message_row.truncate (f m) = message_row.truncate m) \<Longrightarrow> removal_view (update_message P f st) = removal_view st"
  by (simp add: removal_view_def update_message_def map_update_where)

lemma truncate_clear [simp]: "message_row.truncate (clear_request m) = message_row.truncate m"
  by (simp add: clear_request_def message_row.truncate_def)

lemma truncate_analyzed [simp]: "message_row.truncate (analyzed_row now revision e c m) = message_row.truncate m"
  by (simp add: analyzed_row_def clear_request_def message_row.truncate_def)

lemma reserve_view: "reserve_analysis_request r x i n st = Inr (st', q) \<Longrightarrow> removal_view st' = removal_view st"
  by (auto simp: reserve_analysis_request_def res_splits message_row.truncate_def intro!: view_update split: option.splits)

lemma fallback_view: "removal_view (mark_fallback_notified now i st) = removal_view st"
  by (auto simp: mark_fallback_notified_def message_row.truncate_def intro!: view_update)

lemma complete_view: "removal_view (mark_delivery_complete now i b st) = removal_view st"
  by (auto simp: mark_delivery_complete_def message_row.truncate_def intro!: view_update)

lemma failure_view: "record_failure now i e a st = Inr st' \<Longrightarrow> removal_view st' = removal_view st"
  by (auto simp: record_failure_def res_splits message_row.truncate_def intro!: view_update)

lemma analysis_failure_view:
  "record_analysis_failure now i e a retryable code after_s st = Inr st' \<Longrightarrow> removal_view st' = removal_view st"
  by (auto simp: record_analysis_failure_def res_splits Let_def message_row.truncate_def intro!: view_update)

lemma skipped_view: "removal_view (mark_skipped i st) = removal_view st"
  by (auto simp: mark_skipped_def message_row.truncate_def clear_request_def intro!: view_update)

lemma attachments_view: "replace_attachments i as s st = Inr st' \<Longrightarrow> removal_view st' = removal_view st"
  by (auto simp: replace_attachments_def res_splits intro!: view_same)

lemma acknowledge_review_view: "acknowledge_review env now i n st = Inr (st', a) \<Longrightarrow> removal_view st' = removal_view st"
  by (auto simp: acknowledge_review_def res_splits intro!: view_same split: if_splits)

lemma acknowledge_message_view: "acknowledge_message tx now i kind at st = Inr (st', a) \<Longrightarrow> removal_view st' = removal_view st"
  by (auto simp: acknowledge_message_def res_splits message_row.truncate_def intro!: view_update split: if_splits)

lemma acknowledge_view:
  "acknowledge_notification env tx now i kind at st_type sid revision st = Inr (st', a) \<Longrightarrow> removal_view st' = removal_view st"
  by (auto simp: acknowledge_notification_def res_splits split: if_splits
      dest: acknowledge_review_view acknowledge_message_view)

lemma mark_analyzed_removal:
  assumes "mark_analyzed env shape wide fresh run_id run_event now i c st = Inr st'"
  shows "st_removal (an_connect st') = st_removal (an_connect st)"
proof -
  from mark_analyzed_stages [OF assms] obtain row revision e matched st1 st2 where
    row: "find_message st i = Some row" "me_status row = M_pending" "complete_row now revision e c i st = Inr st1"
    and "insert_fires env fresh now i c row matched st1 = Inr st2" "admit_scheduling env run_id run_event now c row st2 = Inr st'"
    by metis
  then have "st_removal (an_connect st') = st_removal (an_connect st1)"
    by (auto simp: insert_fires_def res_splits dest!: admit_scheduling_frame insert_matched_effect split: option.splits)
  then show ?thesis using complete_row_Inr [OF row(3,1,2)] by auto
qed

lemma analyzed_view:
  assumes "mark_analyzed env shape wide fresh run_id run_event now i c st = Inr st'"
  shows "removal_view st' = removal_view st"
proof -
  obtain e revision where "an_messages st' =
      an_messages (update_message (\<lambda>m. is_message i m \<and> me_status m = M_pending) (analyzed_row now revision e c) st)"
    using mark_analyzed_messages [OF assms] by blast
  moreover have "st_removal (an_connect st') = st_removal (an_connect st)" by (rule mark_analyzed_removal [OF assms])
  ultimately have "removal_view st' =
      removal_view (update_message (\<lambda>m. is_message i m \<and> me_status m = M_pending) (analyzed_row now revision e c) st)"
    by (auto intro: view_same)
  then show ?thesis by (simp add: view_update)
qed

lemmas op_view = reserve_view fallback_view complete_view failure_view analysis_failure_view skipped_view
  attachments_view acknowledge_view analyzed_view

definition permitted :: "pass_config \<Rightarrow> analysis_store \<Rightarrow> pass_effect \<Rightarrow> bool" where
  "permitted c st e \<longleftrightarrow>
     (case e of
        Pushed kind i push \<Rightarrow>
          nc_enabled (pc_notify c) \<and> \<not> pc_dry_run c \<and> (kind \<noteq> Send_review \<longrightarrow> message_content_available st i)
          \<and> (topic_of (pc_notify c) \<noteq> None \<longrightarrow> nc_acknowledged (pc_notify c))
          \<and> (case push of
               Desktop urgency title body \<Rightarrow> True
             | Ntfy topic url title body priority \<Rightarrow> topic_of (pc_notify c) = Some topic \<and> url = nc_ntfy_url (pc_notify c))
      | Fetched i n \<Rightarrow> message_content_available st i
      | Model_called i q \<Rightarrow> message_content_available st i
      | Result_acknowledged r b \<Rightarrow> \<not> pc_dry_run c)"

definition disclosed :: "pass_config \<Rightarrow> analysis_store \<Rightarrow> pass \<Rightarrow> pass \<Rightarrow> bool" where
  "disclosed c st p p' \<longleftrightarrow> (removal_view (ps_store p) = removal_view st \<longrightarrow>
     removal_view (ps_store p') = removal_view st
     \<and> (\<exists>es. ps_effects p' = ps_effects p @ es \<and> list_all (permitted c st) es))"

lemma disclosed_counters [simp]:
  "disclosed c st p p" "disclosed c st p (p\<lparr>ps_summarized := k\<rparr>)" "disclosed c st p (p\<lparr>ps_fallback := k\<rparr>)"
  by (simp_all add: disclosed_def)

lemma disclosed_trans: "disclosed c st p p' \<Longrightarrow> disclosed c st p' p'' \<Longrightarrow> disclosed c st p p''"
  by (auto simp: disclosed_def)

lemma disclosed_store: "removal_view st' = removal_view (ps_store p) \<Longrightarrow> disclosed c st p (p\<lparr>ps_store := st'\<rparr>)"
  by (simp add: disclosed_def)

lemma disclosed_observed:
  "(removal_view (ps_store p) = removal_view st \<Longrightarrow> list_all (permitted c st) es) \<Longrightarrow> disclosed c st p (observed es p)"
  by (simp add: disclosed_def observed_def)

lemma deliver_permitted:
  assumes "nc_enabled (pc_notify c)" and "kind \<noteq> Send_review \<longrightarrow> an_before answers = message_content_available st i"
  shows "list_all (permitted c st)
    (map (Pushed kind i) (fst (deliver (pc_notify c) (pc_dry_run c) answers title body urgency priority)))"
  using assms by (auto simp: deliver_def Let_def permitted_def split: option.splits)

interpretation disclosure: pass_steps c "disclosed c st" "message_content_available st" for c st
proof (unfold_locales, goal_cases)
  case (2 p p' p'')
  then show ?case by (rule disclosed_trans)
next
  case (5 kind answers p i title body urgency priority)
  show ?case
  proof (rule disclosed_observed, rule deliver_permitted [OF 5(1)])
    assume "removal_view (ps_store p) = removal_view st"
    from available_of_view [OF this, of i] show "kind \<noteq> Send_review \<longrightarrow> an_before answers = message_content_available st i"
      using 5(2) by simp
  qed
qed (auto intro!: disclosed_store disclosed_observed intro: op_view simp: permitted_def)

lemma find_map_rows: "List.find P (map f xs) = map_option f (List.find (P \<circ> f) xs)"
  by (induction xs) simp_all

lemma readable_available:
  assumes "messages_ok st" and "m \<in> set (readable_messages st)" and "mg_message_id m = Some i"
  shows "message_content_available st i"
proof -
  have "find_message st i = Some m"
    using find_key_distinct [of mg_message_id "an_messages st" m] assms
    by (simp add: find_message_def messages_ok_def readable_messages_def)
  then have "List.find (\<lambda>m. mg_message_id m = Some i) (map message_row.truncate (an_messages st)) = Some (message_row.truncate m)"
    by (simp add: find_map_rows o_def find_message_def message_row.truncate_def)
  then show ?thesis
    using assms(2)
    by (auto simp: available_view removal_view_def readable_messages_def split: option.splits)
qed


section \<open>One request per analysis\<close>

text \<open>While it is pending, message \<open>k\<close> is analysed under \<open>q\<close>.\<close>

definition row_pinned :: "pystr \<Rightarrow> analysis_request \<Rightarrow> analysis_row \<Rightarrow> bool" where
  "row_pinned k q m \<longleftrightarrow> (mg_message_id m = Some k \<longrightarrow> me_status m = M_pending \<longrightarrow> request_of m = Some q)"

definition pinned :: "pystr \<Rightarrow> analysis_request \<Rightarrow> analysis_store \<Rightarrow> bool" where
  "pinned k q st \<longleftrightarrow> list_all (row_pinned k q) (an_messages st) \<and> Some k \<in> set (map mg_message_id (an_messages st))"

lemma pinned_same: "an_messages st' = an_messages st \<Longrightarrow> pinned k q st \<Longrightarrow> pinned k q st'"
  by (simp add: pinned_def)

lemma pinned_update:
  "(\<And>m. P m \<Longrightarrow> row_pinned k q m \<Longrightarrow> row_pinned k q (f m)) \<Longrightarrow> (\<And>m. mg_message_id (f m) = mg_message_id m) \<Longrightarrow> pinned k q st \<Longrightarrow>
     pinned k q (update_message P f st)"
  by (auto simp: pinned_def update_message_def map_update_where simp del: set_map) (auto simp: update_where_def list_all_iff)

lemma find_pinned: "pinned k q st \<Longrightarrow> find_message st k = Some m \<Longrightarrow> row_pinned k q m"
  unfolding pinned_def list_all_iff find_message_def by (auto simp: find_Some_iff)

lemma pinned_attempt:
  "pinned k q st \<Longrightarrow> attempt c st k request limit \<Longrightarrow>
     if pc_dry_run c then request = None else request = Some (aq_request_id q) \<and> limit = aq_body_char_limit q"
  using find_message_id [of st k] find_pinned [of k q st]
  by (auto simp: attempt_def current_request_def row_pinned_def bind_eq_Some_conv opt_all_iff split: if_splits)

lemma reserve_cases:
  assumes "reserve_analysis_request r x i n st = Inr (st', q)"
  obtains "st' = st"
  | m f where "find_message st i = Some m" "me_status m = M_pending" "request_of m = None"
      "st' = update_message (\<lambda>m. is_message i m \<and> me_status m = M_pending) f st" "\<And>m. mg_message_id (f m) = mg_message_id m"
  using assms by (fastforce simp: reserve_analysis_request_def res_splits request_of_def split: option.splits)

lemma reserve_pinned:
  assumes "reserve_analysis_request r x i n st = Inr (st', q')" and "pinned k q st"
  shows "pinned k q st'"
  using assms(1)
proof (cases rule: reserve_cases)
  case (2 m f)
  have "i \<noteq> k" using find_pinned [OF assms(2)] find_message_id 2 by (fastforce simp: row_pinned_def)
  then show ?thesis unfolding 2(4) by (intro pinned_update assms(2)) (auto simp: row_pinned_def is_message_def 2)
qed (use assms in simp)

lemma reserved_pinned:
  assumes "reserve_analysis_request r x k limit st = Inr (st', q)" and "messages_ok st"
  shows "pinned k q st'"
proof -
  have ids: "map mg_message_id (an_messages st') = map mg_message_id (an_messages st)"
    using keeps_ids [OF reserve_keeps [OF assms(1)]] .
  then have ok: "messages_ok st'" using assms(2) by (simp add: messages_ok_def del: set_map)
  obtain m where m: "find_message st' k = Some m" "request_of m = Some q"
    using reserve_current [OF assms(1)] by (auto simp: current_request_def bind_eq_Some_conv split: if_splits)
  then have in_rows: "m \<in> set (an_messages st')" "mg_message_id m = Some k"
    by (auto simp: find_message_def find_Some_iff)
  have "request_of m' = Some q" if "m' \<in> set (an_messages st')" "mg_message_id m' = Some k" for m'
  proof -
    have "m' = m" using ok in_rows that by (auto simp: messages_ok_def distinct_map inj_on_def)
    then show ?thesis using m(2) by simp
  qed
  then show ?thesis using imageI [OF in_rows(1), of mg_message_id] in_rows(2)
    by (simp add: pinned_def row_pinned_def list_all_iff)
qed

lemma fallback_pinned: "pinned k q st \<Longrightarrow> pinned k q (mark_fallback_notified now i st)"
  by (auto simp: mark_fallback_notified_def row_pinned_def request_of_def intro!: pinned_update)

lemma complete_pinned: "pinned k q st \<Longrightarrow> pinned k q (mark_delivery_complete now i b st)"
  by (auto simp: mark_delivery_complete_def row_pinned_def intro!: pinned_update)

lemma failure_pinned: "record_failure now i e a st = Inr st' \<Longrightarrow> pinned k q st \<Longrightarrow> pinned k q st'"
  by (auto simp: record_failure_def res_splits row_pinned_def request_of_def intro!: pinned_update)

lemma analysis_failure_pinned:
  "record_analysis_failure now i e a retryable code after_s st = Inr st' \<Longrightarrow> pinned k q st \<Longrightarrow> pinned k q st'"
  by (auto simp: record_analysis_failure_def res_splits Let_def row_pinned_def request_of_def intro!: pinned_update)

lemma skipped_pinned: "pinned k q st \<Longrightarrow> pinned k q (mark_skipped i st)"
  by (auto simp: mark_skipped_def row_pinned_def intro!: pinned_update)

lemma attachments_pinned: "replace_attachments i as s st = Inr st' \<Longrightarrow> pinned k q st \<Longrightarrow> pinned k q st'"
  by (auto dest: replace_attachments_messages intro: pinned_same)

lemma acknowledge_pinned:
  "acknowledge_notification env tx now i kind at st_type sid revision st = Inr (st', a) \<Longrightarrow> pinned k q st \<Longrightarrow> pinned k q st'"
  by (auto simp: acknowledge_notification_def acknowledge_review_def acknowledge_message_def res_splits
      row_pinned_def request_of_def intro: pinned_same intro!: pinned_update split: if_splits)

lemma analyzed_pinned:
  assumes "mark_analyzed env shape wide fresh run_id run_event now i c st = Inr st'" and "pinned k q st"
  shows "pinned k q st'"
proof -
  obtain e revision where "an_messages st' =
      an_messages (update_message (\<lambda>m. is_message i m \<and> me_status m = M_pending) (analyzed_row now revision e c) st)"
    using mark_analyzed_messages [OF assms(1)] by blast
  then show ?thesis by (rule pinned_same) (auto simp: row_pinned_def intro!: pinned_update assms(2))
qed

lemmas op_pinned = reserve_pinned fallback_pinned complete_pinned failure_pinned analysis_failure_pinned skipped_pinned
  attachments_pinned acknowledge_pinned analyzed_pinned

text \<open>The model is asked about \<open>k\<close> under \<open>q\<close>, or in a dry run under no request.\<close>

definition under :: "pystr \<Rightarrow> analysis_request \<Rightarrow> pass_effect \<Rightarrow> bool" where
  "under k q e \<longleftrightarrow> (case e of Model_called i r \<Rightarrow> i = k \<longrightarrow> r = None \<or> r = Some (aq_request_id q) | _ \<Rightarrow> True)"

definition repeats :: "pystr \<Rightarrow> analysis_request \<Rightarrow> pass \<Rightarrow> pass \<Rightarrow> bool" where
  "repeats k q p p' \<longleftrightarrow> (pinned k q (ps_store p) \<longrightarrow>
     pinned k q (ps_store p') \<and> (\<exists>es. ps_effects p' = ps_effects p @ es \<and> list_all (under k q) es))"

lemma repeats_trans: "repeats k q p p' \<Longrightarrow> repeats k q p' p'' \<Longrightarrow> repeats k q p p''"
  by (auto simp: repeats_def)

lemma repeats_counters [simp]:
  "repeats k q p p" "repeats k q p (p\<lparr>ps_summarized := n\<rparr>)" "repeats k q p (p\<lparr>ps_fallback := n\<rparr>)"
  by (simp_all add: repeats_def)

lemma repeats_store: "(pinned k q (ps_store p) \<Longrightarrow> pinned k q st') \<Longrightarrow> repeats k q p (p\<lparr>ps_store := st'\<rparr>)"
  by (simp add: repeats_def)

lemma repeats_observed: "(pinned k q (ps_store p) \<Longrightarrow> list_all (under k q) es) \<Longrightarrow> repeats k q p (observed es p)"
  by (simp add: repeats_def observed_def)

interpretation request: pass_steps c "repeats k q" "\<lambda>_. True" for c k q
proof (unfold_locales, goal_cases)
  case (2 p p' p'')
  then show ?case by (rule repeats_trans)
next
  case (7 i p r limit)
  show ?case
  proof (rule repeats_observed)
    assume "pinned k q (ps_store p)"
    then show "list_all (under k q) [Model_called i r]"
      using pinned_attempt [of k q "ps_store p" c r limit] 7 by (auto simp: under_def split: if_splits)
  qed
qed (auto intro!: repeats_store repeats_observed intro: op_pinned simp: under_def list_all_iff)

lemma pass_pinned:
  assumes "pinned k q st"
  shows "pinned k q (ps_store (final (process_pending env tx shape wide c w now extra st)))
    \<and> list_all (under k q) (ps_effects (final (process_pending env tx shape wide c w now extra st)))"
proof -
  have "repeats k q (start st) (final (process_pending env tx shape wide c w now extra st))"
    by (rule request.process_pending_step) simp
  then show ?thesis using assms by (auto simp: repeats_def start_def)
qed

lemma pinned_step:
  assumes "pinned k q st" and "\<not> wakes k op" and "\<not> removes k op"
  shows "pinned k q (step_analysis env tx shape wide st op) \<and> list_all (under k q) (snd (exec_analysis env tx shape wide st op))"
proof (cases op)
  case (Requeue i)
  then have "pinned k q st'" if "requeue_analysis i st = Inr st'" for st'
    using assms that by (auto simp: requeue_analysis_def res_splits is_message_def row_pinned_def intro!: pinned_update)
  then show ?thesis using Requeue assms(1) by (auto simp: step_analysis_def split: sum.splits)
next
  case (Acknowledge now i kind t ty sid revision)
  then show ?thesis using assms(1) acknowledge_pinned by (fastforce simp: step_analysis_def split: sum.splits)
next
  case (Copy_found i)
  then show ?thesis using assms
    by (auto simp: step_analysis_def requeue_skipped_def is_message_def row_pinned_def intro!: pinned_update)
next
  case (Capture m)
  then show ?thesis using assms(1) by (auto simp: step_analysis_def capture_def pinned_def row_pinned_def simp del: set_map)
next
  case (Remove i)
  then show ?thesis using assms by (auto simp: step_analysis_def pinned_def list_all_iff delete_where_def is_message_def)
next
  case (Others rules connect calendar)
  then show ?thesis using assms(1) by (simp add: step_analysis_def pinned_def)
qed (use pass_pinned [OF assms(1)] in \<open>simp add: step_analysis_def Let_def\<close>)


section \<open>Examples\<close>

definition mail_config :: "bool \<Rightarrow> pass_config" where
  "mail_config dry = \<lparr>pc_notify = \<lparr>nc_enabled = True, nc_ntfy_topic = Some (lit ''t''), nc_ntfy_url = lit ''u'', nc_acknowledged = True,
       nc_sender_names = []\<rparr>,
     pc_body_char_limit = 10, pc_provider = lit ''gmail'', pc_account_id = lit ''a'', pc_mailbox_identity_key = mail_key,
     pc_dry_run = dry, pc_deliver = True\<rparr>"

definition mail_world :: world where
  "mail_world = \<lparr>wo_now = (\<lambda>_. 7), wo_request_id = (\<lambda>_. lit ''q''), wo_context_at = (\<lambda>_. lit ''c''),
     wo_content = (\<lambda>_ _. Content None [] 1 2), wo_model = (\<lambda>_ _. Model_failed (lit ''e'')),
     wo_channels = (\<lambda>_ _. \<lparr>an_before = True, an_push = True, an_desktop = None, an_ntfy = None\<rparr>),
     wo_within = (\<lambda>_. True), wo_principal = (\<lambda>_. None), wo_fire_ids = (\<lambda>_ _. ([], [])), wo_run_id = (\<lambda>_. []),
     wo_run_event = (\<lambda>_. [])\<rparr>"

abbreviation mail_pass :: "bool \<Rightarrow> outcome" where
  "mail_pass dry \<equiv> process_pending digest_env \<lparr>isoformat = \<lambda>_. [], py_int = \<lambda>_. None\<rparr> sample_shape (\<lambda>_. None)
     (mail_config dry) mail_world 5 [] (mail_store M_pending)"

lemma mail_store_ok: "messages_ok (mail_store s)"
  by (simp add: messages_ok_def mail_store_def mail_message_def)

lemma mail_reserved: "\<exists>st q. reserve_analysis_request (lit ''q'') (lit ''c'') (lit ''m'') 10 (mail_store M_pending) = Inr (st, q)"
  using mail_available [of M_pending] by (simp add: reserve_analysis_request_def mail_message_def)

theorem dry_run_writes_nothing_witness: "pc_dry_run (mail_config True) \<and> ps_store (final (mail_pass True)) = mail_store M_pending"
  using dry_run_writes_nothing [of "mail_config True"] by (simp add: mail_config_def)



end
