(* ===== verification/Capture.thy ===== *)
theory Capture
  imports Analysis Calendar_Writes Admission
begin

text \<open>
  The capture of messages in \<open>db.py\<close>: \<open>_insert_message_in_transaction\<close> behind \<open>add_message\<close>, the
  recorded locations and recipients of a logical message, the thread keys of IMAP messages, and the
  observations of known sources. A logical message is a row with \<open>logical_of\<close> NULL; a second copy of
  it is recorded as a location.

  A row of \<open>messages\<close> extends the columns of \<open>Analysis\<close>. The computation of the tables derived from
  the messages (\<open>thread_follow\<close> and its companions) is not modelled; \<open>thread_follow\<close> itself is a table of
  the store, and so are the sources noted for that computation (\<open>derived_returned_sources\<close>). SQL leaves the order of \<open>SELECT DISTINCT\<close> open; the model takes the order of the rows.
  \<open>GmailLabelStoreError\<close> is a \<open>RuntimeError\<close>.
\<close>

section \<open>Tables\<close>

type_synonym mail_scope = "pystr \<times> pystr \<times> pystr" \<comment> \<open>provider, account and mailbox identity\<close>

record admission_provenance =
  ad_kind :: pystr
  ad_selector_id :: pystr
  ad_display_name :: "pystr option"
  ad_mailbox_identity_key :: pystr
  ad_admitted_at :: pystr

record capture_row = analysis_row +
  cr_thread_id :: "pystr option"
  cr_rfc_message_id :: "pystr option"
  cr_admission :: "admission_provenance option"
  cr_capture_timezone :: "pystr option"

record capture_account =
  ak_provider :: pystr
  ak_account_id :: pystr
  ak_mailbox_identity_key :: "pystr option"
  ak_legacy_identity_key :: "pystr option"
  ak_continuity_proven :: bool

record location_row =
  lo_message_id :: pystr
  lo_scope :: mail_scope
  lo_provider_message_id :: pystr
  lo_location :: location
  lo_recorded_at :: "instant option"
  lo_received_at :: "pystr option"

record source_observation =
  so_message_id :: pystr
  so_scope :: mail_scope
  so_provider_message_id :: pystr
  so_headers_at :: "instant option"
  so_folder_at :: instant
  so_complete :: bool

datatype recipient_field = To_field | Cc_field

record recipient_row =
  rp_message_id :: pystr
  rp_field :: recipient_field
  rp_position :: nat
  rp_address :: pystr

record imap_thread_id =
  ti_scope :: mail_scope
  ti_rfc_id :: pystr
  ti_thread_key :: pystr

record catchup_row =
  ct_scope :: mail_scope
  ct_generation :: int
  ct_thread_key :: pystr
  ct_target :: instant

record watermark_row =
  wm_scope :: mail_scope
  wm_thread_key :: pystr
  wm_synced_through :: instant

record body_row =
  bo_message_id :: pystr
  bo_text :: pystr
  bo_stored_chars :: int
  bo_source_chars :: int
  bo_fetched_at :: instant

datatype body_reason = Source_gone | Outside_folders

record capture_store =
  cp_messages :: "capture_row list"
  cp_accounts :: "capture_account list"
  cp_removal :: "removal_tables option"
  cp_label_selectors :: "(mail_scope \<times> pystr) list"
  cp_label_sets :: "(pystr \<times> pystr \<times> pystr option) list"
  cp_suppressed :: "(pystr \<times> pystr \<times> pystr) list"
  cp_recipients :: "recipient_row list"
  cp_locations :: "location_row list"
  cp_observations :: "source_observation list"
  cp_thread_ids :: "imap_thread_id list"
  cp_aliases :: "(pystr \<times> pystr) list"
  cp_watermarks :: "watermark_row list"
  cp_catchup :: "catchup_row list"
  cp_header_gaps :: "pystr list"
  cp_bodies :: "body_row list"
  cp_body_unavailable :: "(pystr \<times> body_reason) list"
  cp_returned_sources :: "pystr list"
  cp_follows :: "follow_row list"

section \<open>Reading rows\<close>

text \<open>\<open>str(row["message_id"])\<close>\<close>

definition row_id :: "capture_row \<Rightarrow> pystr" where
  "row_id m = (case mg_message_id m of Some i \<Rightarrow> i | None \<Rightarrow> lit ''None'')"

definition find_captured :: "capture_store \<Rightarrow> pystr \<Rightarrow> capture_row option" where
  "find_captured st message_id = List.find (\<lambda>m. mg_message_id m = Some message_id) (cp_messages st)"

definition update_captured :: "(capture_row \<Rightarrow> bool) \<Rightarrow> (capture_row \<Rightarrow> capture_row) \<Rightarrow> capture_store \<Rightarrow> capture_store" where
  "update_captured P f st = st\<lparr>cp_messages := update_where P f (cp_messages st)\<rparr>"

definition find_account :: "capture_store \<Rightarrow> pystr \<Rightarrow> pystr \<Rightarrow> capture_account option" where
  "find_account st provider account_id =
     List.find (\<lambda>a. ak_provider a = provider \<and> ak_account_id a = account_id) (cp_accounts st)"

definition effective_identity :: "capture_store \<Rightarrow> capture_row \<Rightarrow> pystr option" where
  "effective_identity st m =
     (case mg_mailbox_identity_key m of
        Some k \<Rightarrow> Some k
      | None \<Rightarrow>
          (case List.find (\<lambda>a. ak_provider a = mg_provider m \<and> ak_account_id a = mg_account_id m
              \<and> ak_continuity_proven a) (cp_accounts st) of
             Some a \<Rightarrow> ak_legacy_identity_key a
           | None \<Rightarrow> None))"

definition logical_message_rank :: "capture_row \<Rightarrow> nat" where
  "logical_message_rank m =
     (if me_notified_at m \<noteq> None then 0
      else (case me_status m of M_summarized \<Rightarrow> 1 | M_analyzed \<Rightarrow> 2 | M_pending \<Rightarrow> 3 | M_skipped \<Rightarrow> 4))"

text \<open>The two halves of the \<open>UNION ALL\<close>: rows with the identity, then rows without one.\<close>

definition scope_rows :: "capture_store \<Rightarrow> mail_scope \<Rightarrow> (capture_row \<Rightarrow> bool) \<Rightarrow> capture_row list" where
  "scope_rows st scope P =
     (let (provider, account_id, identity) = scope;
          rows = filter (\<lambda>m. mg_provider m = provider \<and> mg_account_id m = account_id \<and> P m) (cp_messages st) in
      filter (\<lambda>m. effective_identity st m = Some identity)
        (filter (\<lambda>m. mg_mailbox_identity_key m = Some identity) rows @ filter (\<lambda>m. mg_mailbox_identity_key m = None) rows))"

definition logical_message_id :: "capture_store \<Rightarrow> mail_scope \<Rightarrow> pystr \<Rightarrow> pystr \<Rightarrow> pystr option" where
  "logical_message_id st scope rfc_message_id other_than =
     (case sort_key (\<lambda>m. (logical_message_rank m, mg_provider_message_id m))
         (scope_rows st scope (\<lambda>m. cr_rfc_message_id m = Some rfc_message_id \<and> sr_logical_of m = None
            \<and> mg_provider_message_id m \<noteq> other_than)) of
        [] \<Rightarrow> None
      | m # _ \<Rightarrow> Some (row_id m))"

definition stored_source_membership :: "capture_store \<Rightarrow> mail_scope \<Rightarrow> pystr \<Rightarrow> pystr list" where
  "stored_source_membership st scope source =
     map (\<lambda>m. case sr_logical_of m of Some l \<Rightarrow> l | None \<Rightarrow> row_id m)
       (scope_rows st scope (\<lambda>m. mg_provider_message_id m = source))
     @ map lo_message_id (filter (\<lambda>l. lo_scope l = scope \<and> lo_provider_message_id l = source) (cp_locations st))"

text \<open>\<open>removal.RECORD\<close>: deletion and clearing, not unfollowing.\<close>

definition record_source_available :: "capture_store \<Rightarrow> pystr option \<Rightarrow> mail_scope \<Rightarrow> pystr \<Rightarrow> bool" where
  "record_source_available st message_id scope source =
     (case cp_removal st of
        None \<Rightarrow> True
      | Some rm \<Rightarrow> available False rm \<lparr>mg_message_id = message_id, mg_provider = fst scope, mg_account_id = fst (snd scope),
          mg_mailbox_identity_key = Some (snd (snd scope)), mg_provider_message_id = source\<rparr>)"

definition record_message_available :: "capture_store \<Rightarrow> pystr \<Rightarrow> bool" where
  "record_message_available st message_id =
     (case find_captured st message_id of
        None \<Rightarrow> False
      | Some m \<Rightarrow> (case cp_removal st of None \<Rightarrow> True | Some rm \<Rightarrow> available False rm (message_row.truncate m)))"

section \<open>Suppression\<close>

definition legacy_message_suppression_key :: "pyenv \<Rightarrow> pystr \<Rightarrow> pystr option" where
  "legacy_message_suppression_key env source = map_option (sha256 env) (utf8_encode source)"

definition legacy_proven :: "capture_account \<Rightarrow> pystr \<Rightarrow> bool" where
  "legacy_proven a identity \<longleftrightarrow> ak_continuity_proven a \<and> ak_legacy_identity_key a = Some identity"

definition suppressed :: "capture_store \<Rightarrow> pystr \<Rightarrow> pystr \<Rightarrow> pystr list \<Rightarrow> bool" where
  "suppressed st provider account_id keys \<longleftrightarrow>
     list_ex (\<lambda>(p, a, k). p = provider \<and> a = account_id \<and> k \<in> set keys) (cp_suppressed st)"

definition has_seen_message ::
  "pyenv \<Rightarrow> pystr \<Rightarrow> pystr \<Rightarrow> pystr \<Rightarrow> pystr option \<Rightarrow> capture_store \<Rightarrow> err + bool" where
  "has_seen_message env source provider account_id identity st =
     andThen (the_row UnicodeError (message_source_key env provider account_id source identity)) (\<lambda>message_key.
     andThen (the_row UnicodeError (legacy_message_suppression_key env source)) (\<lambda>legacy_key.
     case identity of
       Some key \<Rightarrow>
         andThen (the_row UnicodeError (message_source_key env provider account_id source None)) (\<lambda>unscoped_key.
         Inr (stored_source_membership st (provider, account_id, key) source \<noteq> []
           \<or> suppressed st provider account_id [message_key]
           \<or> suppressed st provider account_id [unscoped_key, legacy_key]
             \<and> list_ex (\<lambda>a. ak_provider a = provider \<and> ak_account_id a = account_id \<and> legacy_proven a key) (cp_accounts st)))
     | None \<Rightarrow>
         Inr (list_ex (\<lambda>m. mg_provider m = provider \<and> mg_account_id m = account_id \<and> mg_provider_message_id m = source) (cp_messages st)
           \<or> list_ex (\<lambda>l. fst (lo_scope l) = provider \<and> fst (snd (lo_scope l)) = account_id \<and> lo_provider_message_id l = source)
               (cp_locations st)
           \<or> suppressed st provider account_id [message_key, legacy_key])))"

section \<open>Threads\<close>

definition MAX_THREAD_KEY_BYTES :: nat where
  "MAX_THREAD_KEY_BYTES = 512"

definition provider_thread_key :: "pyenv \<Rightarrow> pystr \<Rightarrow> pystr option \<Rightarrow> err + pystr" where
  "provider_thread_key env fresh thread_id =
     (case thread_id of
        None \<Rightarrow> Inr fresh
      | Some t \<Rightarrow>
          if t = [] then Inr fresh
          else
            andThen (the_row UnicodeError (utf8_encode t)) (\<lambda>encoded.
            Inr (if length encoded \<le> MAX_THREAD_KEY_BYTES then t else lit ''sha256:'' @ sha256 env encoded)))"

text \<open>The first of the smallest elements, as \<open>min(keys, key=rank)\<close> gives it.\<close>

fun first_min :: "('a \<Rightarrow> 'b::linorder) \<Rightarrow> 'a \<Rightarrow> 'a list \<Rightarrow> 'a" where
  "first_min rank x [] = x"
| "first_min rank x (y # ys) = first_min rank (if rank y < rank x then y else x) ys"

text \<open>Distinct elements in the order of their first occurrence.\<close>

definition distinct_values :: "'a list \<Rightarrow> 'a list" where
  "distinct_values xs = rev (remdups (rev xs))"

definition thread_sources :: "capture_store \<Rightarrow> pystr \<Rightarrow> pystr \<Rightarrow> pystr \<Rightarrow> pystr list" where
  "thread_sources st provider account_id key =
     (let rows = filter (\<lambda>m. mg_provider m = provider \<and> mg_account_id m = account_id \<and> sr_thread_key m = Some key) (cp_messages st) in
      map mg_provider_message_id rows
      @ [lo_provider_message_id l. l \<leftarrow> cp_locations st, m \<leftarrow> rows, mg_message_id m = Some (lo_message_id l)])"

definition thread_rank :: "capture_store \<Rightarrow> pystr \<Rightarrow> pystr \<Rightarrow> pystr \<Rightarrow> nat \<times> pystr" where
  "thread_rank st provider account_id key =
     (case thread_sources st provider account_id key of
        [] \<Rightarrow> (1, key)
      | s # ss \<Rightarrow> (0, fold min ss s))"

definition component_keys :: "capture_store \<Rightarrow> mail_scope \<Rightarrow> pystr list \<Rightarrow> pystr list" where
  "component_keys st scope ids =
     distinct_values (map ti_thread_key (filter (\<lambda>t. ti_scope t = scope \<and> ti_rfc_id t \<in> set ids) (cp_thread_ids st)))"

text \<open>\<open>_imap_thread_key\<close> without its cached ranks; \<open>fresh\<close> is a new UUID.\<close>

definition imap_thread_key ::
  "pystr \<Rightarrow> mail_scope \<Rightarrow> pystr list \<Rightarrow> pystr option \<Rightarrow> capture_store \<Rightarrow> pystr \<times> pystr list" where
  "imap_thread_key fresh scope ids existing st =
     (if ids = [] then (case existing of Some e \<Rightarrow> if e = [] then fresh else e | None \<Rightarrow> fresh, [])
      else
        (let found = component_keys st scope ids;
             keys = (case existing of Some e \<Rightarrow> if e \<in> set found then found else found @ [e] | None \<Rightarrow> found) in
         case keys of
           [] \<Rightarrow> (fresh, [])
         | k # ks \<Rightarrow>
             (let survivor = first_min (thread_rank st (fst scope) (fst (snd scope))) k ks in
              (survivor, filter (\<lambda>key. key \<noteq> survivor) keys))))"

definition rekey_catchup :: "mail_scope \<Rightarrow> pystr \<Rightarrow> pystr \<Rightarrow> catchup_row list \<Rightarrow> catchup_row list" where
  "rekey_catchup scope old_key key rows =
     (let moved = filter (\<lambda>c. ct_scope c = scope \<and> ct_thread_key c = old_key) rows;
          put = (\<lambda>c rows.
            if list_ex (\<lambda>r. ct_scope r = scope \<and> ct_generation r = ct_generation c \<and> ct_thread_key r = key) rows
            then update_where (\<lambda>r. ct_scope r = scope \<and> ct_generation r = ct_generation c \<and> ct_thread_key r = key)
              (\<lambda>r. r\<lparr>ct_target := max (ct_target r) (ct_target c)\<rparr>) rows
            else rows @ [c\<lparr>ct_thread_key := key\<rparr>]) in
      delete_where (\<lambda>c. ct_scope c = scope \<and> ct_thread_key c = old_key) (fold put moved rows))"

definition merge_key :: "mail_scope \<Rightarrow> pystr \<Rightarrow> pystr \<Rightarrow> capture_store \<Rightarrow> capture_store" where
  "merge_key scope key old_key st =
     (let provider = fst scope; account_id = fst (snd scope);
          aliases = map (\<lambda>(o', s). (o', if s = old_key then key else s)) (cp_aliases st) in
      st\<lparr>cp_messages := update_where
           (\<lambda>m. mg_provider m = provider \<and> mg_account_id m = account_id \<and> sr_thread_key m = Some old_key)
           (\<lambda>m. m\<lparr>sr_thread_key := Some key\<rparr>) (cp_messages st),
         cp_thread_ids := update_where
           (\<lambda>t. fst (ti_scope t) = provider \<and> fst (snd (ti_scope t)) = account_id \<and> ti_thread_key t = old_key)
           (\<lambda>t. t\<lparr>ti_thread_key := key\<rparr>) (cp_thread_ids st),
         cp_aliases := (if list_ex (\<lambda>(o', s). o' = old_key) aliases
           then map (\<lambda>(o', s). (o', if o' = old_key then key else s)) aliases
           else aliases @ [(old_key, key)])\<rparr>)"

definition register_id :: "mail_scope \<Rightarrow> pystr \<Rightarrow> pystr \<Rightarrow> imap_thread_id list \<Rightarrow> imap_thread_id list" where
  "register_id scope key rfc_id rows =
     (if rfc_id = [] \<or> 998 < length rfc_id \<or> list_ex (\<lambda>t. ti_scope t = scope \<and> ti_rfc_id t = rfc_id) rows then rows
      else rows @ [\<lparr>ti_scope = scope, ti_rfc_id = rfc_id, ti_thread_key = key\<rparr>])"

definition apply_imap_component ::
  "mail_scope \<Rightarrow> pystr \<Rightarrow> pystr list \<Rightarrow> pystr list \<Rightarrow> capture_store \<Rightarrow> capture_store" where
  "apply_imap_component scope key merged ids st =
     (let st = (if merged = [] then st
            else st\<lparr>cp_watermarks := delete_where (\<lambda>w. wm_scope w = scope \<and> wm_thread_key w \<in> set (key # merged)) (cp_watermarks st),
                    cp_catchup := fold (\<lambda>old_key. rekey_catchup scope old_key key) merged (cp_catchup st)\<rparr>);
          st = fold (merge_key scope key) merged st in
      st\<lparr>cp_thread_ids := fold (register_id scope key) ids (cp_thread_ids st)\<rparr>)"

section \<open>Recipients and locations\<close>

definition recipient_rows :: "pystr \<Rightarrow> pystr list \<Rightarrow> pystr list \<Rightarrow> recipient_row list" where
  "recipient_rows message_id to cc =
     map (\<lambda>(i, a). \<lparr>rp_message_id = message_id, rp_field = To_field, rp_position = i, rp_address = a\<rparr>) (enumerate 0 to)
     @ map (\<lambda>(i, a). \<lparr>rp_message_id = message_id, rp_field = Cc_field, rp_position = i, rp_address = a\<rparr>) (enumerate 0 cc)"

text \<open>\<open>INSERT OR IGNORE\<close> passes over a row that violates the CHECK; no row of the message is present yet.\<close>

definition record_recipients :: "pystr \<Rightarrow> pystr list \<Rightarrow> pystr list \<Rightarrow> capture_store \<Rightarrow> capture_store" where
  "record_recipients message_id to cc st =
     (if list_ex (\<lambda>r. rp_message_id r = message_id) (cp_recipients st) then st
      else st\<lparr>cp_recipients := cp_recipients st
        @ filter (\<lambda>r. rp_address r \<noteq> [] \<and> within_utf8_bytes (rp_address r) 512) (recipient_rows message_id to cc)\<rparr>)"

definition is_source :: "mail_scope \<Rightarrow> pystr \<Rightarrow> source_observation \<Rightarrow> bool" where
  "is_source scope source o' \<longleftrightarrow> so_scope o' = scope \<and> so_provider_message_id o' = source"

text \<open>The newest folder observation and the newest header observation of a source.\<close>

definition merge_observation :: "instant \<Rightarrow> bool \<Rightarrow> bool \<Rightarrow> instant option \<times> instant \<times> bool \<Rightarrow> instant option \<times> instant \<times> bool" where
  "merge_observation at complete headers earlier =
     (let (prior_header, prior_at, prior_complete) = earlier;
          header_at = (if headers then Some at else None) in
      (case prior_header of
         None \<Rightarrow> header_at
       | Some h \<Rightarrow> if header_at = None \<or> at < h then Some h else header_at,
       if at < prior_at then prior_at else at,
       if at < prior_at then prior_complete
       else if prior_at = at then complete \<and> prior_complete else complete))"

definition observe :: "instant \<Rightarrow> bool \<Rightarrow> bool \<Rightarrow> source_observation option \<Rightarrow> instant option \<times> instant \<times> bool" where
  "observe at complete headers earlier =
     (case earlier of
        None \<Rightarrow> (if headers then Some at else None, at, complete)
      | Some o' \<Rightarrow> merge_observation at complete headers (so_headers_at o', so_folder_at o', so_complete o'))"

definition put_observation :: "source_observation \<Rightarrow> source_observation list \<Rightarrow> source_observation list" where
  "put_observation o' rows =
     (if list_ex (is_source (so_scope o') (so_provider_message_id o')) rows
      then update_where (is_source (so_scope o') (so_provider_message_id o')) (\<lambda>_. o') rows
      else rows @ [o'])"

definition put_location :: "location_row \<Rightarrow> location_row list \<Rightarrow> location_row list" where
  "put_location l rows =
     (if list_ex (\<lambda>r. lo_scope r = lo_scope l \<and> lo_provider_message_id r = lo_provider_message_id l
          \<and> lo_location r = lo_location l) rows
      then rows else rows @ [l])"

definition located_rows ::
  "pystr \<Rightarrow> mail_scope \<Rightarrow> pystr \<Rightarrow> location set \<Rightarrow> instant option \<Rightarrow> pystr option \<Rightarrow> location_row list \<Rightarrow> location_row list" where
  "located_rows message_id scope source locations recorded_at received_at =
     fold put_location
       (map (\<lambda>l. \<lparr>lo_message_id = message_id, lo_scope = scope, lo_provider_message_id = source, lo_location = l,
                  lo_recorded_at = recorded_at, lo_received_at = received_at\<rparr>)
         (filter (\<lambda>l. l \<in> locations) [Inbox, Sent]))"

definition stamp_rows :: "mail_scope \<Rightarrow> pystr \<Rightarrow> instant option \<Rightarrow> pystr option \<Rightarrow> location_row list \<Rightarrow> location_row list" where
  "stamp_rows scope source recorded_at received_at =
     update_where (\<lambda>l. lo_scope l = scope \<and> lo_provider_message_id l = source)
       (\<lambda>l. l\<lparr>lo_recorded_at := recorded_at,
               lo_received_at := (case received_at of None \<Rightarrow> lo_received_at l | Some r \<Rightarrow> Some r)\<rparr>)"

definition observed_time :: "iso \<Rightarrow> err + instant" where
  "observed_time observed_at =
     (case observed_at of
        Aware t \<Rightarrow> Inr t
      | Naive _ \<Rightarrow> Inl (ValueError ''source observation time requires a timezone'')
      | NotIso \<Rightarrow> Inl (ValueError ''Invalid isoformat string''))"

definition note_returned_source :: "pystr \<Rightarrow> capture_store \<Rightarrow> capture_store" where
  "note_returned_source message_id st =
     (if message_id \<in> set (cp_returned_sources st) then st
      else st\<lparr>cp_returned_sources := cp_returned_sources st @ [message_id]\<rparr>)"

definition record_locations ::
  "pystr \<Rightarrow> mail_scope \<Rightarrow> pystr \<Rightarrow> location set \<Rightarrow> iso \<Rightarrow> bool \<Rightarrow> bool \<Rightarrow> pystr option \<Rightarrow> capture_store
     \<Rightarrow> err + capture_store \<times> nat" where
  "record_locations message_id scope source locations observed_at complete headers received_at st =
     (let st = (if locations = {} then st else note_returned_source message_id st) in
     andThen (require (\<not> headers \<or> locations \<noteq> {}) (ValueError ''header observation requires an admitted location'')) (\<lambda>_.
     andThen (observed_time observed_at) (\<lambda>at.
     (let (header_at, selected_at, settled) = observe at complete headers (List.find (is_source scope source) (cp_observations st));
          recorded_at = (if settled \<and> header_at \<noteq> None then Some selected_at else None);
          rows = located_rows message_id scope source locations recorded_at received_at (cp_locations st) in
      Inr (st\<lparr>cp_observations := put_observation \<lparr>so_message_id = message_id, so_scope = scope, so_provider_message_id = source,
                so_headers_at = header_at, so_folder_at = selected_at, so_complete = settled\<rparr> (cp_observations st),
              cp_locations := stamp_rows scope source recorded_at received_at rows\<rparr>,
           length rows - length (cp_locations st))))))"

section \<open>Skipped messages and rows without an identity\<close>

definition is_row :: "pystr \<Rightarrow> capture_row \<Rightarrow> bool" where
  "is_row message_id m \<longleftrightarrow> mg_message_id m = Some message_id"

definition requeue_row :: "pystr \<Rightarrow> capture_store \<Rightarrow> capture_store" where
  "requeue_row message_id =
     update_captured (\<lambda>m. is_row message_id m \<and> me_status m = M_skipped)
       (\<lambda>m. m\<lparr>me_status := M_pending, me_attempts := 0, me_next_retry_at := None, me_last_error := None\<rparr>)"

definition reparent_bodies :: "pystr \<Rightarrow> pystr \<Rightarrow> capture_store \<Rightarrow> capture_store" where
  "reparent_bodies old new st =
     (let bodies = (if list_ex (\<lambda>b. bo_message_id b = new) (cp_bodies st) then cp_bodies st
            else update_where (\<lambda>b. bo_message_id b = old) (\<lambda>b. b\<lparr>bo_message_id := new\<rparr>) (cp_bodies st));
          unavailable = (if list_ex (\<lambda>u. fst u = new) (cp_body_unavailable st) then cp_body_unavailable st
            else map (\<lambda>(i, r). (if i = old then new else i, r)) (cp_body_unavailable st)) in
      st\<lparr>cp_bodies := bodies,
         cp_body_unavailable := (if list_ex (\<lambda>b. bo_message_id b = new) bodies
           then delete_where (\<lambda>u. fst u = new) unavailable else unavailable)\<rparr>)"

definition reparent_logical_sources :: "pystr \<Rightarrow> pystr \<Rightarrow> capture_store \<Rightarrow> capture_store" where
  "reparent_logical_sources old new st =
     (let st = reparent_bodies old new st;
          st = st\<lparr>cp_locations := update_where (\<lambda>l. lo_message_id l = old) (\<lambda>l. l\<lparr>lo_message_id := new\<rparr>) (cp_locations st),
                  cp_observations := update_where (\<lambda>o'. so_message_id o' = old) (\<lambda>o'. o'\<lparr>so_message_id := new\<rparr>) (cp_observations st)\<rparr>;
          rows = sort_key rp_position (filter (\<lambda>r. rp_message_id r = old) (cp_recipients st)) in
      record_recipients new (map rp_address (filter (\<lambda>r. rp_field r = To_field) rows))
        (map rp_address (filter (\<lambda>r. rp_field r = Cc_field) rows)) st)"

text \<open>
  One row of the loop of \<open>_bind_pending_legacy_identity\<close>. The inner call of \<open>_requeue_if_skipped\<close> binds
  nothing, because the promoted copy has its identity; what is left of it is the update.
\<close>

definition bind_row :: "pystr \<Rightarrow> pystr \<Rightarrow> capture_row \<times> pystr \<Rightarrow> capture_store \<Rightarrow> err + capture_store" where
  "bind_row provider account_id = (\<lambda>(row, identity) st.
     (let root = row_id row in
      case List.find (\<lambda>m. mg_provider m = provider \<and> mg_account_id m = account_id \<and> mg_mailbox_identity_key m = Some identity
          \<and> mg_provider_message_id m = mg_provider_message_id row) (cp_messages st) of
        None \<Rightarrow>
          andThen (require (\<not> list_ex (\<lambda>m. is_row root m \<and> mg_mailbox_identity_key m \<noteq> Some identity \<and> cr_admission m \<noteq> None) (cp_messages st))
              (IntegrityError ''message admission provenance is immutable'')) (\<lambda>_.
          Inr (update_captured (is_row root) (\<lambda>m. m\<lparr>mg_mailbox_identity_key := Some identity\<rparr>) st))
      | Some collision \<Rightarrow>
          andThen (require (sr_logical_of collision = Some root)
              (RuntimeError ''legacy pending source collides outside its logical unit'')) (\<lambda>_.
          (let successor = row_id collision;
               st = update_captured (is_row successor) (\<lambda>m. m\<lparr>sr_logical_of := None\<rparr>) st;
               st = update_captured (\<lambda>m. is_row root m \<or> sr_logical_of m = Some root) (\<lambda>m. m\<lparr>sr_logical_of := Some successor\<rparr>) st in
           Inr (requeue_row successor (reparent_logical_sources root successor st))))))"

fun bind_rows :: "pystr \<Rightarrow> pystr \<Rightarrow> (capture_row \<times> pystr) list \<Rightarrow> capture_store \<Rightarrow> err + capture_store" where
  "bind_rows provider account_id [] st = Inr st"
| "bind_rows provider account_id (r # rs) st = andThen (bind_row provider account_id r st) (bind_rows provider account_id rs)"

definition bind_pending_legacy_identity ::
  "pystr \<Rightarrow> pystr \<Rightarrow> pystr option \<Rightarrow> capture_store \<Rightarrow> err + capture_store" where
  "bind_pending_legacy_identity provider account_id message_id st =
     bind_rows provider account_id
       [(m, k). m \<leftarrow> cp_messages st, mg_provider m = provider \<and> mg_account_id m = account_id \<and> mg_mailbox_identity_key m = None
          \<and> me_status m = M_pending \<and> sr_logical_of m = None \<and> (message_id = None \<or> mg_message_id m = message_id),
        k \<leftarrow> (case effective_identity st m of None \<Rightarrow> [] | Some k \<Rightarrow> [k]),
        Option.bind (find_account st (mg_provider m) (mg_account_id m)) ak_mailbox_identity_key = Some k] st"

definition requeue_if_skipped :: "pystr \<Rightarrow> capture_store \<Rightarrow> err + capture_store" where
  "requeue_if_skipped message_id st =
     (let skipped = filter (\<lambda>m. is_row message_id m \<and> me_status m = M_skipped) (cp_messages st); st = requeue_row message_id st in
      case skipped of
        [] \<Rightarrow> Inr st
      | m # _ \<Rightarrow> bind_pending_legacy_identity (mg_provider m) (mg_account_id m) (Some message_id) st)"

section \<open>Capture\<close>

definition admission_kind_of :: "pystr \<Rightarrow> admission_kind option" where
  "admission_kind_of k =
     (if k = lit ''exact_sender'' then Some Exact_sender
      else if k = lit ''vendor_address'' then Some Vendor_address
      else if k = lit ''vendor_domain'' then Some Vendor_domain
      else if k = lit ''sent_to_vendor'' then Some Sent_to_vendor
      else if k = lit ''thread_follow'' then Some Thread_follow
      else if k = lit ''gmail_user_label'' then Some Gmail_user_label
      else None)"

definition validate_utc_timestamp :: "timeenv \<Rightarrow> pystr \<Rightarrow> err + unit" where
  "validate_utc_timestamp te value =
     require (value \<noteq> [] \<and> within_utf8_bytes value 64
       \<and> (case fromisoformat te value of Some (wall, Some offset) \<Rightarrow> offset = 0 | _ \<Rightarrow> False))
       (ValueError ''must be a UTC ISO-8601 timestamp'')"

text \<open>\<open>re.fullmatch(r"[0-9a-f]{64}", ...)\<close> after a prefix.\<close>

definition prefixed_digest :: "pystr \<Rightarrow> pystr \<Rightarrow> bool" where
  "prefixed_digest prefix value \<longleftrightarrow>
     startswith value prefix \<and> length (drop (length prefix) value) = 64 \<and> list_all is_hex (drop (length prefix) value)"

definition selector_of_kind :: "pyenv \<Rightarrow> admission_kind \<Rightarrow> pystr \<Rightarrow> err + unit" where
  "selector_of_kind env kind selector =
     (case kind of
        Gmail_user_label \<Rightarrow> require (valid_uuid_v4 selector) (ValueError ''gmail label admission selector id is invalid'')
      | Exact_sender \<Rightarrow>
          require (startswith selector (lit ''sender:'')
              \<and> exact_sender_selector_id env (drop (length (lit ''sender:'')) selector) = Inr selector)
            (ValueError ''exact sender admission selector id is invalid'')
      | _ \<Rightarrow>
          require (opt_all (\<lambda>prefix. prefixed_digest (lit prefix) selector) (thread_admission_selector_prefix kind))
            (ValueError ''vendor/thread admission selector id is invalid''))"

definition validate_admission_provenance ::
  "pyenv \<Rightarrow> timeenv \<Rightarrow> admission_provenance \<Rightarrow> pystr \<Rightarrow> err + unit" where
  "validate_admission_provenance env te admission identity =
     andThen (the_row (ValueError ''admission kind is invalid'') (admission_kind_of (ad_kind admission))) (\<lambda>kind.
     andThen (require_bounded_text (ad_selector_id admission) 512) (\<lambda>_.
     andThen (require (opt_all (\<lambda>n. within_utf8_bytes n 1024) (ad_display_name admission)
          \<and> opt_all (\<lambda>n. \<not> has_control_character n) (ad_display_name admission))
         (ValueError ''admission display name is invalid'')) (\<lambda>_.
     andThen (selector_of_kind env kind (ad_selector_id admission)) (\<lambda>_.
     andThen (require_mailbox_identity_key (ad_mailbox_identity_key admission)) (\<lambda>key.
     andThen (require (key = identity) MailboxIdentityChanged) (\<lambda>_.
     validate_utc_timestamp te (ad_admitted_at admission)))))))"

record incoming =
  in_message_id :: pystr
  in_thread_id :: "pystr option"
  in_sender :: pystr
  in_sender_name :: "pystr option"
  in_subject :: pystr
  in_received_at :: pystr
  in_provider :: pystr
  in_account_id :: pystr
  in_provider_message_id :: "pystr option"
  in_mailbox_identity_key :: "pystr option"
  in_admission :: admission_provenance
  in_rfc_message_id :: "pystr option"
  in_reply_ids :: "pystr list"
  in_to :: "pystr list"
  in_cc :: "pystr list"
  in_locations :: "location set"
  in_scope_complete :: bool
  in_capture_timezone :: "pystr option"

definition source_of :: "incoming \<Rightarrow> pystr" where
  "source_of i = (case in_provider_message_id i of None \<Rightarrow> in_message_id i | Some s \<Rightarrow> if s = [] then in_message_id i else s)"

definition normalized :: "pyenv \<Rightarrow> pystr option \<Rightarrow> pystr option" where
  "normalized env value = Option.bind value (normalize_message_id env)"

definition label_granted :: "capture_store \<Rightarrow> mail_scope \<Rightarrow> pystr \<Rightarrow> bool" where
  "label_granted st scope selector \<longleftrightarrow>
     list_ex (\<lambda>(s, i). s = scope \<and> i = selector) (cp_label_selectors st)
     \<and> list_ex (\<lambda>(p, a, k). p = fst scope \<and> a = fst (snd scope) \<and> k = Some (snd (snd scope))) (cp_label_sets st)"

text \<open>The keys under which a source may have been suppressed.\<close>

definition suppression_keys :: "pyenv \<Rightarrow> capture_account \<Rightarrow> mail_scope \<Rightarrow> pystr \<Rightarrow> pystr \<Rightarrow> err + pystr list" where
  "suppression_keys env account scope source message_key =
     (if legacy_proven account (snd (snd scope)) then
        andThen (the_row UnicodeError (message_source_key env (fst scope) (fst (snd scope)) source None)) (\<lambda>unscoped.
        andThen (the_row UnicodeError (legacy_message_suppression_key env source)) (\<lambda>legacy.
        Inr [message_key, unscoped, legacy]))
      else Inr [message_key])"

text \<open>The ids that tie an IMAP message to its thread.\<close>

definition thread_ids_of :: "pyenv \<Rightarrow> pystr option \<Rightarrow> pystr list \<Rightarrow> pystr list" where
  "thread_ids_of env rfc_message_id reply_ids =
     distinct_values (List.map_filter (normalized env) (rfc_message_id # map Some reply_ids))"

definition thread_of :: "pyenv \<Rightarrow> pystr \<Rightarrow> mail_scope \<Rightarrow> pystr option \<Rightarrow> pystr list \<Rightarrow> capture_store \<Rightarrow> err + pystr \<times> pystr list" where
  "thread_of env fresh scope thread_id ids st =
     (if fst scope = lit ''imap'' then Inr (imap_thread_key fresh scope ids None st)
      else andThen (provider_thread_key env fresh thread_id) (\<lambda>key. Inr (key, [])))"

definition new_row :: "incoming \<Rightarrow> instant \<Rightarrow> pystr \<Rightarrow> pystr \<Rightarrow> pystr option \<Rightarrow> capture_row" where
  "new_row i discovered_at identity key rfc_message_id =
     \<lparr>mg_message_id = Some (in_message_id i), mg_provider = in_provider i, mg_account_id = in_account_id i,
      mg_mailbox_identity_key = Some identity, mg_provider_message_id = source_of i, sr_logical_of = None,
      sr_thread_key = Some key, sr_sender = in_sender i, sr_sender_name = in_sender_name i, sr_subject = in_subject i,
      sr_received_at = in_received_at i, me_discovered_at = Aware discovered_at, me_status = M_pending,
      me_analysis_at = None, me_attempts = 0, me_next_retry_at = None, me_request_id = None, me_context_at = None,
      me_body_char_limit = None, me_retryable = None, me_error_code = None, me_retry_after_seconds = None,
      me_fallback_notified_at = None, me_notified_at = None, me_result = None, me_body_chars = None,
      me_body_source_chars = None, me_rules_revision = None, me_rules_error = None, me_last_error = None,
      cr_thread_id = in_thread_id i, cr_rfc_message_id = rfc_message_id, cr_admission = Some (in_admission i),
      cr_capture_timezone = in_capture_timezone i\<rparr>"

text \<open>\<open>INSERT OR IGNORE\<close>: the trigger raises, a duplicate id or source is passed over.\<close>

definition insert_message :: "capture_row \<Rightarrow> capture_store \<Rightarrow> err + capture_store option" where
  "insert_message m st =
     andThen (require (mg_provider m \<noteq> [] \<and> mg_account_id m \<noteq> [] \<and> mg_provider_message_id m \<noteq> [])
         (IntegrityError ''message source identity is required'')) (\<lambda>_.
     Inr (if list_ex (\<lambda>r. mg_message_id r = mg_message_id m
               \<or> mg_provider r = mg_provider m \<and> mg_account_id r = mg_account_id m
                 \<and> mg_mailbox_identity_key r = mg_mailbox_identity_key m \<and> mg_provider_message_id r = mg_provider_message_id m)
             (cp_messages st)
          then None else Some (st\<lparr>cp_messages := cp_messages st @ [m]\<rparr>)))"

text \<open>The method answers whether a row was inserted; the outcome says which way it took.\<close>

datatype capture_outcome = Captured | Second_copy | Already_stored | Suppressed | Under_removal

definition apply_thread :: "mail_scope \<Rightarrow> pystr \<times> pystr list \<Rightarrow> pystr list \<Rightarrow> capture_store \<Rightarrow> capture_store" where
  "apply_thread scope thread ids st =
     (if fst scope = lit ''imap'' then apply_imap_component scope (fst thread) (snd thread) ids st else st)"

definition record_second_copy ::
  "incoming \<Rightarrow> instant \<Rightarrow> mail_scope \<Rightarrow> pystr \<Rightarrow> pystr \<times> pystr list \<Rightarrow> pystr list \<Rightarrow> capture_store \<Rightarrow> err + capture_store" where
  "record_second_copy i discovered_at scope logical_id thread ids st =
     andThen (record_locations logical_id scope (source_of i) (in_locations i) (Aware discovered_at) (in_scope_complete i) True
         (Some (in_received_at i)) st) (\<lambda>(st, _).
     andThen (requeue_if_skipped logical_id (record_recipients logical_id (in_to i) (in_cc i) st)) (\<lambda>st.
     Inr (apply_thread scope thread ids st)))"

definition record_new_message ::
  "incoming \<Rightarrow> instant \<Rightarrow> mail_scope \<Rightarrow> pystr \<times> pystr list \<Rightarrow> pystr option \<Rightarrow> pystr list \<Rightarrow> capture_store
     \<Rightarrow> err + capture_store \<times> capture_outcome" where
  "record_new_message i discovered_at scope thread rfc ids st =
     andThen (insert_message (new_row i discovered_at (snd (snd scope)) (fst thread) rfc) st) (\<lambda>inserted.
     case inserted of
       None \<Rightarrow> Inr (st, Already_stored)
     | Some st \<Rightarrow>
         andThen (record_locations (in_message_id i) scope (source_of i) (in_locations i) (Aware discovered_at) (in_scope_complete i) True
             None (record_recipients (in_message_id i) (in_to i) (in_cc i) (apply_thread scope thread ids st))) (\<lambda>(st, _).
         Inr (st, Captured)))"

definition insert_message_in_transaction ::
  "pyenv \<Rightarrow> timeenv \<Rightarrow> pystr \<Rightarrow> instant \<Rightarrow> incoming \<Rightarrow> capture_store \<Rightarrow> err + capture_store \<times> capture_outcome" where
  "insert_message_in_transaction env te fresh discovered_at i st =
     andThen (the_row (ValueError ''mailbox identity key is required'') (in_mailbox_identity_key i)) (\<lambda>identity.
     andThen (validate_admission_provenance env te (in_admission i) identity) (\<lambda>_.
     (let scope = (in_provider i, in_account_id i, identity); source = source_of i in
      andThen (the_row UnicodeError (message_source_key env (in_provider i) (in_account_id i) source (Some identity))) (\<lambda>message_key.
      andThen (the_row MailboxIdentityChanged (find_account st (in_provider i) (in_account_id i))) (\<lambda>account.
      andThen (require (ak_mailbox_identity_key account = Some identity) MailboxIdentityChanged) (\<lambda>_.
      if \<not> record_source_available st (Some (in_message_id i)) scope source then Inr (st, Under_removal)
      else
        andThen (require (ad_kind (in_admission i) = lit ''gmail_user_label'' \<longrightarrow> label_granted st scope (ad_selector_id (in_admission i)))
            (GmailLabelStoreError ''gmail_recovery_grant_revoked'')) (\<lambda>_.
        andThen (suppression_keys env account scope source message_key) (\<lambda>keys.
        (let rfc = normalized env (in_rfc_message_id i);
             logical_id = Option.bind rfc (\<lambda>r. logical_message_id st scope r source);
             ids = thread_ids_of env rfc (in_reply_ids i) in
         if opt_all (record_message_available st) logical_id then
           andThen (thread_of env fresh scope (in_thread_id i) ids st) (\<lambda>thread.
           andThen (require (in_locations i \<noteq> {}) (ValueError ''a captured message names at least one admitted folder'')) (\<lambda>_.
           if suppressed st (in_provider i) (in_account_id i) keys then Inr (st, Suppressed)
           else
             (case logical_id of
                Some l \<Rightarrow> andThen (record_second_copy i discovered_at scope l thread ids st) (\<lambda>st. Inr (st, Second_copy))
              | None \<Rightarrow> record_new_message i discovered_at scope thread rfc ids st)))
         else Inr (st, Under_removal))))))))))"

definition add_message ::
  "pyenv \<Rightarrow> timeenv \<Rightarrow> pystr \<Rightarrow> instant \<Rightarrow> incoming \<Rightarrow> capture_store \<Rightarrow> err + capture_store \<times> bool" where
  "add_message env te fresh now i st =
     andThen (insert_message_in_transaction env te fresh now i st) (\<lambda>(st, outcome). Inr (st, outcome = Captured))"

section \<open>Observations of known sources\<close>

definition record_message_location ::
  "mail_scope \<Rightarrow> pystr \<Rightarrow> location set \<Rightarrow> pystr list \<Rightarrow> pystr list \<Rightarrow> bool \<Rightarrow> bool \<Rightarrow> instant \<Rightarrow> capture_store
     \<Rightarrow> err + capture_store \<times> nat" where
  "record_message_location scope source locations to cc complete headers now st =
     (case stored_source_membership st scope source of
        [] \<Rightarrow> Inr (st, 0)
      | logical_id # _ \<Rightarrow>
          if \<not> record_message_available st logical_id then Inr (st, 0)
          else
            andThen (record_locations logical_id scope source locations (Aware now) complete headers None st) (\<lambda>(st, recorded).
            andThen ((if locations = {} then Inr else requeue_if_skipped logical_id)
                (if headers then record_recipients logical_id to cc st else st)) (\<lambda>st.
            Inr (st, recorded))))"

record header_metadata =
  hm_message_id :: pystr
  hm_received_at :: pystr
  hm_to :: "pystr list"
  hm_cc :: "pystr list"
  hm_rfc_message_id :: "pystr option"
  hm_reply_ids :: "pystr list"

definition header_ids :: "header_metadata \<Rightarrow> pystr list" where
  "header_ids h = distinct_values (filter (\<lambda>i. i \<noteq> []) ((case hm_rfc_message_id h of None \<Rightarrow> [] | Some i \<Rightarrow> [i]) @ hm_reply_ids h))"

definition join_headers :: "pystr \<Rightarrow> mail_scope \<Rightarrow> pystr \<Rightarrow> header_metadata \<Rightarrow> capture_store \<Rightarrow> capture_store" where
  "join_headers fresh scope logical_id h st =
     (if fst scope \<noteq> lit ''imap'' then st
      else
        (let existing = Option.bind (find_captured st logical_id) sr_thread_key;
             (key, merged) = imap_thread_key fresh scope (header_ids h) existing st;
             st = apply_imap_component scope key merged (header_ids h) st in
         st\<lparr>cp_header_gaps := delete_where (\<lambda>g. g = logical_id) (cp_header_gaps st)\<rparr>))"

definition record_reconcile_headers ::
  "pystr \<Rightarrow> mail_scope \<Rightarrow> header_metadata \<Rightarrow> location set \<Rightarrow> iso \<Rightarrow> bool \<Rightarrow> capture_store \<Rightarrow> err + capture_store" where
  "record_reconcile_headers fresh scope h locations observed_at complete st =
     (case stored_source_membership st scope (hm_message_id h) of
        [] \<Rightarrow> Inr st
      | logical_id # _ \<Rightarrow>
          if \<not> record_message_available st logical_id then Inr st
          else
            andThen (record_locations logical_id scope (hm_message_id h) locations observed_at complete True (Some (hm_received_at h)) st) (\<lambda>(st, _).
            requeue_if_skipped logical_id
              (join_headers fresh scope logical_id h (record_recipients logical_id (hm_to h) (hm_cc h) st))))"

fun clear_stamps :: "mail_scope \<Rightarrow> instant \<Rightarrow> (pystr \<times> pystr) list \<Rightarrow> capture_store \<Rightarrow> err + capture_store" where
  "clear_stamps scope now [] st = Inr st"
| "clear_stamps scope now ((message_id, source) # rows) st =
     andThen (record_locations message_id scope source {} (Aware now) False False None st) (\<lambda>(st, _).
     clear_stamps scope now rows st)"

definition clear_location_stamps :: "mail_scope \<Rightarrow> instant \<Rightarrow> capture_store \<Rightarrow> err + capture_store" where
  "clear_location_stamps scope now st =
     clear_stamps scope now (distinct_values (map (\<lambda>l. (lo_message_id l, lo_provider_message_id l))
       (filter (\<lambda>l. lo_scope l = scope) (cp_locations st)))) st"

end
