(* ===== verification/Capture_Proofs.thy ===== *)
theory Capture_Proofs
  imports Capture
begin

text \<open>
  What capture promises: IMAP threads are the connected components of the ids that messages name, a
  source is captured at most once and only while its guards hold, and the confirmation of a source
  does not depend on the order in which it was observed.
\<close>

section \<open>Connected components\<close>

definition connected :: "'a set list \<Rightarrow> 'a \<Rightarrow> 'a \<Rightarrow> bool" where
  "connected J x y \<longleftrightarrow> (x, y) \<in> (\<Union>C\<in>set J. C \<times> C)\<^sup>+"

lemma connected_clique: "C \<in> set J \<Longrightarrow> x \<in> C \<Longrightarrow> y \<in> C \<Longrightarrow> connected J x y"
  unfolding connected_def by (rule r_into_trancl) auto

lemma connected_trans: "connected J x y \<Longrightarrow> connected J y z \<Longrightarrow> connected J x z"
  unfolding connected_def by (rule trancl_trans)

lemma connected_sym: "connected J x y \<Longrightarrow> connected J y x"
proof -
  have "sym ((\<Union>C\<in>set J. C \<times> C)\<^sup>+)" by (rule sym_trancl) (auto simp: sym_def)
  then show "connected J x y \<Longrightarrow> connected J y x" by (auto simp: connected_def sym_def)
qed

lemma connected_mono: "connected J x y \<Longrightarrow> set J \<subseteq> set J' \<Longrightarrow> connected J' x y"
  unfolding connected_def by (erule trancl_mono) auto

lemma connected_induct [consumes 1, case_names clique step]:
  assumes "connected J x y" and "\<And>C x y. C \<in> set J \<Longrightarrow> x \<in> C \<Longrightarrow> y \<in> C \<Longrightarrow> P x y"
    and "\<And>x y z. P x y \<Longrightarrow> P y z \<Longrightarrow> P x z"
  shows "P x y"
  using assms(1) unfolding connected_def
  by (induction rule: trancl_induct) (blast intro: assms(2,3))+

text \<open>A labelling of the nodes that names the components.\<close>

definition labels :: "('a \<rightharpoonup> 'k) \<Rightarrow> 'a set list \<Rightarrow> bool" where
  "labels f J \<longleftrightarrow> dom f = \<Union> (set J) \<and> (\<forall>x\<in>dom f. \<forall>y\<in>dom f. f x = f y \<longleftrightarrow> connected J x y)"

text \<open>The effect of one join: the labels found in \<open>C\<close> become \<open>k\<close>.\<close>

definition joined :: "'a set \<Rightarrow> 'k \<Rightarrow> ('a \<rightharpoonup> 'k) \<Rightarrow> ('a \<rightharpoonup> 'k)" where
  "joined C k f = (\<lambda>x. if x \<in> C \<or> (\<exists>c\<in>C. f c \<noteq> None \<and> f x = f c) then Some k else f x)"

lemma labels_joined:
  assumes l: "labels f J" and k: "(\<exists>c\<in>C. f c = Some k) \<or> k \<notin> ran f"
  shows "labels (joined C k f) (J @ [C])"
proof -
  let ?J = "J @ [C]" and ?in = "\<lambda>x. x \<in> C \<or> (\<exists>c\<in>C. f c \<noteq> None \<and> f x = f c)"
  have old: "connected J x y" if "f x = f y" "f x \<noteq> None" for x y
    using l that unfolding labels_def by (metis domIff)
  have centre: "connected ?J x c" if x: "?in x" and c: "c \<in> C" for x c
  proof (cases "x \<in> C")
    case True
    then show ?thesis using c connected_clique [of C ?J] by simp
  next
    case False
    then obtain d where "d \<in> C" "f d \<noteq> None" "f x = f d" using x by blast
    then have "connected ?J x d" using old connected_mono [of J x d ?J] by auto
    then show ?thesis using connected_trans connected_clique [of C ?J d c] \<open>d \<in> C\<close> c by fastforce
  qed
  have fk: "?in x" if "f x = Some k" for x using k that by (auto simp: ran_def)
  have only: "joined C k f x = joined C k f y" if "connected ?J x y" for x y
    using that
  proof (induction rule: connected_induct)
    case (clique D x y)
    show ?case
    proof (cases "D = C")
      case True
      then show ?thesis using clique by (simp add: joined_def)
    next
      case False
      then have "D \<in> set J" using clique(1) by simp
      then have "x \<in> dom f" "y \<in> dom f" using l clique(2,3) unfolding labels_def by blast+
      moreover have "connected J x y" using connected_clique \<open>D \<in> set J\<close> clique(2,3) .
      ultimately have eq: "f x = f y" "f x \<noteq> None" using l unfolding labels_def by (blast, blast)
      then have "?in x \<longleftrightarrow> ?in y" by metis
      then show ?thesis unfolding joined_def using eq(1) by (cases "?in y") argo+
    qed
  qed simp
  have conv: "connected ?J x y" if eq: "joined C k f x = joined C k f y" and d: "joined C k f x \<noteq> None" for x y
  proof (cases "?in x")
    case True
    then have y: "?in y" using eq fk by (auto simp: joined_def split: if_splits)
    then obtain c where "c \<in> C" by blast
    then show ?thesis using centre [OF True] centre [OF y] connected_trans connected_sym by metis
  next
    case False
    then have "\<not> ?in y" using eq fk [of x] by (auto simp: joined_def split: if_splits)
    then have "f x = f y" "f x \<noteq> None" using False eq d by (auto simp: joined_def split: if_splits)
    then show ?thesis using old connected_mono [of J x y ?J] by auto
  qed
  have "dom (joined C k f) = \<Union> (set ?J)" using l by (auto simp: labels_def joined_def dom_def)
  then show ?thesis unfolding labels_def using only conv by (metis domIff)
qed

section \<open>Thread keys of stored ids and rows\<close>

datatype thread_node = Id mail_scope pystr | Row pystr

definition id_key :: "imap_thread_id \<Rightarrow> mail_scope \<times> pystr" where
  "id_key t = (ti_scope t, ti_rfc_id t)"

definition id_row :: "capture_store \<Rightarrow> mail_scope \<Rightarrow> pystr \<Rightarrow> imap_thread_id option" where
  "id_row st scope rfc_id = List.find (\<lambda>t. id_key t = (scope, rfc_id)) (cp_thread_ids st)"

fun node_key :: "capture_store \<Rightarrow> thread_node \<Rightarrow> pystr option" where
  "node_key st (Id scope rfc_id) = map_option ti_thread_key (id_row st scope rfc_id)"
| "node_key st (Row i) =
     Option.bind (find_captured st i) (\<lambda>m. if mg_provider m = lit ''imap'' then sr_thread_key m else None)"

definition account_of :: "mail_scope \<Rightarrow> pystr \<times> pystr" where
  "account_of scope = (fst scope, fst (snd scope))"

fun node_account :: "capture_store \<Rightarrow> thread_node \<Rightarrow> (pystr \<times> pystr) option" where
  "node_account st (Id scope rfc_id) = Some (account_of scope)"
| "node_account st (Row i) = map_option (\<lambda>m. (mg_provider m, mg_account_id m)) (find_captured st i)"

definition valid_id :: "pystr \<Rightarrow> bool" where
  "valid_id r \<longleftrightarrow> r \<noteq> [] \<and> length r \<le> 998"

lemma find_captured_update:
  assumes "\<And>m. mg_message_id (f m) = mg_message_id m"
  shows "List.find (\<lambda>m. mg_message_id m = Some i) (update_where P f rows)
    = map_option (\<lambda>m. if P m then f m else m) (List.find (\<lambda>m. mg_message_id m = Some i) rows)"
  by (rule find_key_update) (simp add: assms)

lemma merge_key_node:
  "node_key (merge_key scope key old st) x
     = map_option (\<lambda>k. if k = old \<and> node_account st x = Some (account_of scope) then key else k) (node_key st x)"
proof (cases x)
  case (Id s r)
  have "id_row (merge_key scope key old st) s r
      = map_option (\<lambda>t. if account_of (ti_scope t) = account_of scope \<and> ti_thread_key t = old then t\<lparr>ti_thread_key := key\<rparr> else t) (id_row st s r)"
    unfolding id_row_def merge_key_def Let_def
    by (subst find_key_update [symmetric]) (auto simp: account_of_def id_key_def)
  moreover have "ti_scope t = s" if "id_row st s r = Some t" for t
    using that by (auto simp: id_row_def find_Some_iff id_key_def)
  ultimately show ?thesis using Id by (cases "id_row st s r") auto
next
  case (Row i)
  have "find_captured (merge_key scope key old st) i
      = map_option (\<lambda>m. if (mg_provider m, mg_account_id m) = account_of scope \<and> sr_thread_key m = Some old
          then m\<lparr>sr_thread_key := Some key\<rparr> else m) (find_captured st i)"
    by (simp add: merge_key_def Let_def find_captured_def find_captured_update account_of_def)
  then show ?thesis
  proof (cases "find_captured st i")
    case (Some m)
    then show ?thesis
      using Row \<open>find_captured (merge_key scope key old st) i = _\<close> by (cases "sr_thread_key m") auto
  qed (simp add: Row)
qed

lemma merge_key_account [simp]: "node_account (merge_key scope key old st) x = node_account st x"
  by (cases x) (auto simp: merge_key_def Let_def find_captured_def find_captured_update option.map_comp o_def
      intro!: option.map_cong)

lemma merge_keys_node:
  assumes "key \<notin> set olds"
  shows "node_key (fold (merge_key scope key) olds st) x
     = map_option (\<lambda>k. if k \<in> set olds \<and> node_account st x = Some (account_of scope) then key else k) (node_key st x)"
  using assms
proof (induction olds arbitrary: st)
  case Nil
  then show ?case by (simp add: option.map_ident)
next
  case (Cons old olds)
  then show ?case by (simp add: merge_key_node option.map_comp o_def) (rule option.map_cong, auto)
qed

lemma merge_keys_account: "node_account (fold (merge_key scope key) olds st) x = node_account st x"
  by (induction olds arbitrary: st) simp_all

lemma register_id_find:
  "List.find (\<lambda>t. id_key t = (s, r)) (register_id scope key i rows)
     = (case List.find (\<lambda>t. id_key t = (s, r)) rows of
          Some t \<Rightarrow> Some t
        | None \<Rightarrow> if s = scope \<and> r = i \<and> valid_id i then Some \<lparr>ti_scope = s, ti_rfc_id = r, ti_thread_key = key\<rparr> else None)"
proof -
  have "list_ex (\<lambda>t. ti_scope t = scope \<and> ti_rfc_id t = i) rows \<longleftrightarrow> List.find (\<lambda>t. id_key t = (scope, i)) rows \<noteq> None"
    by (auto simp: find_None_iff list_ex_iff id_key_def)
  moreover have "id_key \<lparr>ti_scope = scope, ti_rfc_id = i, ti_thread_key = key\<rparr> = (scope, i)" by (simp add: id_key_def)
  ultimately show ?thesis by (auto simp: register_id_def find_append_rows valid_id_def split: option.splits)
qed

lemma register_ids_find:
  "List.find (\<lambda>t. id_key t = (s, r)) (fold (register_id scope key) ids rows)
     = (case List.find (\<lambda>t. id_key t = (s, r)) rows of
          Some t \<Rightarrow> Some t
        | None \<Rightarrow> if s = scope \<and> r \<in> set ids \<and> valid_id r then Some \<lparr>ti_scope = s, ti_rfc_id = r, ti_thread_key = key\<rparr> else None)"
  by (induction ids arbitrary: rows) (auto simp: register_id_find split: option.splits)

lemma apply_imap_component_simps:
  "cp_messages (apply_imap_component scope key merged ids st) = cp_messages (fold (merge_key scope key) merged st)"
  "cp_thread_ids (apply_imap_component scope key merged ids st)
     = fold (register_id scope key) ids (cp_thread_ids (fold (merge_key scope key) merged st))"
proof -
  have "merge_key scope key old (st'\<lparr>cp_watermarks := w, cp_catchup := c\<rparr>)
      = (merge_key scope key old st')\<lparr>cp_watermarks := w, cp_catchup := c\<rparr>" for old st' w c
    by (cases st') (simp add: merge_key_def Let_def)
  then have "fold (merge_key scope key) merged (st'\<lparr>cp_watermarks := w, cp_catchup := c\<rparr>)
      = (fold (merge_key scope key) merged st')\<lparr>cp_watermarks := w, cp_catchup := c\<rparr>" for st' w c
    by (induction merged arbitrary: st') simp_all
  then show "cp_messages (apply_imap_component scope key merged ids st) = cp_messages (fold (merge_key scope key) merged st)"
    "cp_thread_ids (apply_imap_component scope key merged ids st)
     = fold (register_id scope key) ids (cp_thread_ids (fold (merge_key scope key) merged st))"
    by (simp_all add: apply_imap_component_def Let_def)
qed

text \<open>Applying a component gives its key to the ids and to everything that had a merged key.\<close>

lemma apply_component_node:
  assumes "key \<notin> set merged"
  shows "node_key (apply_imap_component scope key merged ids st) x =
    (if node_key st x = None then (if x \<in> Id scope ` {r \<in> set ids. valid_id r} then Some key else None)
     else map_option (\<lambda>k. if k \<in> set merged \<and> node_account st x = Some (account_of scope) then key else k) (node_key st x))"
proof (cases x)
  case (Id s r)
  have "node_key (apply_imap_component scope key merged ids st) x =
      (case node_key (fold (merge_key scope key) merged st) x of
         Some k \<Rightarrow> Some k | None \<Rightarrow> if s = scope \<and> r \<in> set ids \<and> valid_id r then Some key else None)"
    using Id by (auto simp: id_row_def apply_imap_component_simps register_ids_find split: option.splits)
  then show ?thesis using Id merge_keys_node [OF assms, of scope st x] by (auto split: option.splits)
next
  case (Row i)
  have "node_key (apply_imap_component scope key merged ids st) x = node_key (fold (merge_key scope key) merged st) x"
    using Row by (simp add: find_captured_def apply_imap_component_simps)
  then show ?thesis using Row merge_keys_node [OF assms, of scope st x] by auto
qed

section \<open>A component as a join\<close>

lemma set_distinct_values [simp]: "set (distinct_values xs) = set xs"
  by (simp add: distinct_values_def)

lemma first_min_in: "first_min rank x xs \<in> set (x # xs)"
  by (induction rank x xs rule: first_min.induct) (auto split: if_splits)

definition id_ok :: "imap_thread_id \<Rightarrow> bool" where
  "id_ok t \<longleftrightarrow> valid_id (ti_rfc_id t) \<and> ti_thread_key t \<noteq> []"

definition unique_ids :: "capture_store \<Rightarrow> bool" where
  "unique_ids st \<longleftrightarrow> distinct (map id_key (cp_thread_ids st)) \<and> list_all id_ok (cp_thread_ids st)"

lemma component_keys_nodes:
  assumes "unique_ids st"
  shows "set (component_keys st scope ids) = {k. \<exists>r\<in>set ids. node_key st (Id scope r) = Some k}"
proof -
  have "id_row st (ti_scope t) (ti_rfc_id t) = Some t" if "t \<in> set (cp_thread_ids st)" for t
    using find_key_distinct [of id_key "cp_thread_ids st" t] assms that by (simp add: unique_ids_def id_row_def id_key_def)
  moreover have "t \<in> set (cp_thread_ids st) \<and> ti_scope t = s \<and> ti_rfc_id t = r" if "id_row st s r = Some t" for t s r
    using that by (auto simp: id_row_def find_Some_iff id_key_def)
  ultimately show ?thesis by (fastforce simp: component_keys_def)
qed

lemma imap_thread_key_cases:
  assumes "imap_thread_key fresh scope ids existing st = (key, merged)" and "unique_ids st" and "existing \<noteq> Some []"
  defines "K \<equiv> {k. \<exists>r\<in>set ids. node_key st (Id scope r) = Some k} \<union> set_option existing"
  shows "key \<notin> set merged" "set merged \<subseteq> K" "K \<subseteq> insert key (set merged)" "key \<in> K \<or> K = {} \<and> key = fresh"
proof -
  define keys where "keys = (case existing of Some e \<Rightarrow> if e \<in> set (component_keys st scope ids)
      then component_keys st scope ids else component_keys st scope ids @ [e] | None \<Rightarrow> component_keys st scope ids)"
  have K: "set keys = K"
    using component_keys_nodes [OF assms(2), of scope ids] by (auto simp: keys_def K_def split: option.splits)
  have "merged = filter (\<lambda>x. x \<noteq> key) keys \<and> (key \<in> set keys \<or> keys = [] \<and> key = fresh)"
  proof (cases "ids = []")
    case True
    then have "component_keys st scope ids = []" by (simp add: component_keys_def distinct_values_def)
    then show ?thesis using True assms(1,3) by (auto simp: imap_thread_key_def keys_def split: option.splits)
  next
    case False
    show ?thesis
    proof (cases keys)
      case Nil
      then show ?thesis using assms(1) False by (simp add: imap_thread_key_def keys_def [symmetric] Let_def)
    next
      case (Cons k ks)
      then have "key = first_min (thread_rank st (fst scope) (fst (snd scope))) k ks" "merged = filter (\<lambda>x. x \<noteq> key) keys"
        using assms(1) False by (auto simp: imap_thread_key_def keys_def [symmetric] Let_def)
      then show ?thesis using first_min_in [of "thread_rank st (fst scope) (fst (snd scope))" k ks] Cons by simp
    qed
  qed
  then show "key \<notin> set merged" "set merged \<subseteq> K" "K \<subseteq> insert key (set merged)" "key \<in> K \<or> K = {} \<and> key = fresh"
    using K by auto
qed

text \<open>Nodes that share a key belong to one account.\<close>

definition one_account :: "capture_store \<Rightarrow> bool" where
  "one_account st \<longleftrightarrow> (\<forall>x y k. node_key st x = Some k \<longrightarrow> node_key st y = Some k \<longrightarrow> node_account st x = node_account st y)"

text \<open>A component as \<open>_imap_thread_key\<close> finds it for the nodes \<open>C\<close>.\<close>

definition component_of ::
  "capture_store \<Rightarrow> mail_scope \<Rightarrow> pystr list \<Rightarrow> thread_node set \<Rightarrow> pystr \<Rightarrow> pystr list \<Rightarrow> bool" where
  "component_of st scope ids C key merged \<longleftrightarrow> Id scope ` {r \<in> set ids. valid_id r} \<subseteq> C
     \<and> (\<forall>c\<in>C. node_key st c \<noteq> None \<longrightarrow> node_account st c = Some (account_of scope))
     \<and> (\<forall>c\<in>C. node_key st c = None \<longrightarrow> c \<in> Id scope ` {r \<in> set ids. valid_id r})
     \<and> key \<notin> set merged \<and> (\<forall>k\<in>set merged. \<exists>c\<in>C. node_key st c = Some k)
     \<and> (\<forall>c\<in>C. \<forall>k. node_key st c = Some k \<longrightarrow> k \<in> insert key (set merged))"

lemma apply_component_joined:
  assumes acc: "one_account st" and comp: "component_of st scope ids C key merged"
  shows "node_key (apply_imap_component scope key merged ids st) = joined C key (node_key st)"
proof -
  define V where "V = Id scope ` {r \<in> set ids. valid_id r}"
  have "V \<subseteq> C" and key: "key \<notin> set merged"
    and C: "\<And>c. c \<in> C \<Longrightarrow> node_key st c \<noteq> None \<Longrightarrow> node_account st c = Some (account_of scope)"
    and new: "\<And>c. c \<in> C \<Longrightarrow> node_key st c = None \<Longrightarrow> c \<in> V"
    and merged: "\<And>k. k \<in> set merged \<Longrightarrow> \<exists>c\<in>C. node_key st c = Some k"
    and keys: "\<And>c k. c \<in> C \<Longrightarrow> node_key st c = Some k \<Longrightarrow> k \<in> insert key (set merged)"
    using comp unfolding component_of_def V_def by blast+
  show ?thesis
  proof (rule ext)
    fix x
    have kind: "node_account st x = Some (account_of scope)" if x: "node_key st x = Some k" and k: "k \<in> set merged" for k
    proof -
      obtain c where c: "c \<in> C" "node_key st c = Some k" using merged [OF k] by blast
      have "node_account st x = node_account st c" using acc x c(2) unfolding one_account_def by blast
      also have "\<dots> = Some (account_of scope)" by (rule C) (use c in auto)
      finally show ?thesis .
    qed
    show "node_key (apply_imap_component scope key merged ids st) x = joined C key (node_key st) x"
    proof (cases "node_key st x")
      case None
      then have "x \<in> C \<longleftrightarrow> x \<in> V" using \<open>V \<subseteq> C\<close> new [of x] by blast
      moreover have "\<not> (\<exists>c\<in>C. node_key st c \<noteq> None \<and> node_key st x = node_key st c)" using None by auto
      ultimately have "joined C key (node_key st) x = (if x \<in> V then Some key else None)"
        unfolding joined_def using None by argo
      then show ?thesis by (simp add: apply_component_node [OF key] None V_def)
    next
      case (Some k)
      then have left: "node_key (apply_imap_component scope key merged ids st) x = Some (if k \<in> set merged then key else k)"
        using kind by (simp add: apply_component_node [OF key])
      show ?thesis
      proof (cases "\<exists>c\<in>C. node_key st c = Some k")
        case True
        then have "(if k \<in> set merged then key else k) = key" using keys by fastforce
        moreover have "joined C key (node_key st) x = Some key"
          using True Some unfolding joined_def by (metis option.distinct(1))
        ultimately show ?thesis using left by simp
      next
        case False
        then have "joined C key (node_key st) x = Some k" "k \<notin> set merged"
          using merged [of k] Some unfolding joined_def by (metis, blast)
        then show ?thesis using left by simp
      qed
    qed
  qed
qed

section \<open>The invariant of captured rows\<close>

definition row_ok :: "capture_row \<Rightarrow> bool" where
  "row_ok m \<longleftrightarrow> mg_message_id m \<noteq> None \<and> mg_mailbox_identity_key m \<noteq> None \<and> sr_logical_of m = None
     \<and> (mg_provider m = lit ''imap'' \<longrightarrow> sr_thread_key m \<noteq> None \<and> sr_thread_key m \<noteq> Some [])"

definition location_ok :: "capture_store \<Rightarrow> location_row \<Rightarrow> bool" where
  "location_ok st l \<longleftrightarrow> node_account st (Row (lo_message_id l)) = Some (account_of (lo_scope l))"

definition captures_ok :: "capture_store \<Rightarrow> bool" where
  "captures_ok st \<longleftrightarrow> unique_ids st \<and> distinct (map mg_message_id (cp_messages st)) \<and> list_all row_ok (cp_messages st)
     \<and> list_all (location_ok st) (cp_locations st) \<and> one_account st"

text \<open>Steps that leave the identity and the thread of every row.\<close>

definition row_view :: "capture_row \<Rightarrow> message_row \<times> pystr option \<times> pystr option" where
  "row_view m = (message_row.truncate m, sr_logical_of m, sr_thread_key m)"

definition same_rows :: "capture_store \<Rightarrow> capture_store \<Rightarrow> bool" where
  "same_rows st st' \<longleftrightarrow> map row_view (cp_messages st') = map row_view (cp_messages st) \<and> cp_thread_ids st' = cp_thread_ids st"

lemma row_view_simps:
  "row_view m = row_view m' \<longleftrightarrow> mg_message_id m = mg_message_id m' \<and> mg_provider m = mg_provider m' \<and> mg_account_id m = mg_account_id m'
     \<and> mg_mailbox_identity_key m = mg_mailbox_identity_key m' \<and> mg_provider_message_id m = mg_provider_message_id m'
     \<and> sr_logical_of m = sr_logical_of m' \<and> sr_thread_key m = sr_thread_key m'"
  by (auto simp: row_view_def message_row.truncate_def)

lemma find_map_view: "List.find P (map f xs) = map_option f (List.find (P \<circ> f) xs)"
  by (induction xs) simp_all

lemma same_rows_find: "same_rows st st' \<Longrightarrow> map_option row_view (find_captured st' i) = map_option row_view (find_captured st i)"
proof -
  have "map_option row_view (find_captured s i) = List.find (\<lambda>v. mg_message_id (fst v) = Some i) (map row_view (cp_messages s))" for s
    by (simp add: find_captured_def find_map_view o_def row_view_def message_row.truncate_def)
  then show "same_rows st st' \<Longrightarrow> ?thesis" by (simp add: same_rows_def)
qed

lemma same_rows_node:
  assumes "same_rows st st'"
  shows "node_key st' = node_key st" "node_account st' = node_account st"
proof -
  have "node_key st' x = node_key st x \<and> node_account st' x = node_account st x" for x
  proof (cases x)
    case (Row i)
    then show ?thesis
      using same_rows_find [OF assms, of i]
      by (cases "find_captured st i"; cases "find_captured st' i") (auto simp: row_view_simps)
  qed (use assms in \<open>simp add: id_row_def same_rows_def\<close>)
  then show "node_key st' = node_key st" "node_account st' = node_account st" by auto
qed

lemma same_rows_refl [simp]: "same_rows st st"
  by (simp add: same_rows_def)

lemma same_rows_trans: "same_rows st st' \<Longrightarrow> same_rows st' st'' \<Longrightarrow> same_rows st st''"
  by (simp add: same_rows_def)

lemma rows_of_view:
  assumes "map row_view rows' = map row_view rows"
  shows "map mg_message_id rows' = map mg_message_id rows" "list_all row_ok rows' = list_all row_ok rows"
proof -
  have "list_all2 (=) (map row_view rows') (map row_view rows)" unfolding assms by (rule list.rel_refl) simp
  then have *: "list_all2 (\<lambda>m' m. row_view m' = row_view m) rows' rows" by (simp only: list.rel_map)
  then show "map mg_message_id rows' = map mg_message_id rows"
    by (induction rule: list_all2_induct) (auto simp: row_view_simps)
  from * show "list_all row_ok rows' = list_all row_ok rows"
    by (induction rule: list_all2_induct) (auto simp: row_view_simps row_ok_def)
qed

lemma captures_ok_same:
  assumes "captures_ok st" and "same_rows st st'" and "\<And>l. l \<in> set (cp_locations st') \<Longrightarrow> location_ok st l"
  shows "captures_ok st'"
proof -
  have rows: "map row_view (cp_messages st') = map row_view (cp_messages st)" "cp_thread_ids st' = cp_thread_ids st"
    using assms(2) by (simp_all add: same_rows_def)
  have "unique_ids st'" "one_account st'"
    using assms(1) unfolding captures_ok_def unique_ids_def one_account_def rows(2) same_rows_node [OF assms(2)] by blast+
  moreover have "distinct (map mg_message_id (cp_messages st'))" "list_all row_ok (cp_messages st')"
    using assms(1) unfolding rows_of_view [OF rows(1)] by (simp_all add: captures_ok_def)
  moreover have "list_all (location_ok st') (cp_locations st')"
    using assms(3) unfolding list_all_iff location_ok_def same_rows_node [OF assms(2)] by blast
  ultimately show ?thesis by (simp add: captures_ok_def)
qed

section \<open>Operations that keep the threads\<close>

lemma record_recipients_frame [simp]:
  "cp_messages (record_recipients i to cc st) = cp_messages st" "cp_thread_ids (record_recipients i to cc st) = cp_thread_ids st"
  "cp_locations (record_recipients i to cc st) = cp_locations st"
  by (simp_all add: record_recipients_def)

lemma put_locations_mem: "l \<in> set (fold put_location new rows) \<Longrightarrow> l \<in> set new \<or> l \<in> set rows"
proof (induction new arbitrary: rows)
  case (Cons a new)
  have "set (put_location a rows) \<subseteq> insert a (set rows)" by (auto simp: put_location_def)
  then show ?case using Cons.IH [of "put_location a rows"] Cons.prems by auto
qed simp

lemma located_rows_mem:
  "l \<in> set (located_rows i scope source locations recorded received rows) \<Longrightarrow> (lo_message_id l, lo_scope l) = (i, scope) \<or> l \<in> set rows"
  unfolding located_rows_def by (drule put_locations_mem) auto

lemma stamp_rows_mem:
  "l \<in> set (stamp_rows scope source recorded received rows) \<Longrightarrow>
     \<exists>l'\<in>set rows. lo_message_id l = lo_message_id l' \<and> lo_scope l = lo_scope l'"
  unfolding stamp_rows_def by (fastforce simp: set_update_where split: if_splits)

lemma note_returned_frame [simp]:
  "cp_messages (note_returned_source i st) = cp_messages st" "cp_thread_ids (note_returned_source i st) = cp_thread_ids st"
  "cp_locations (note_returned_source i st) = cp_locations st" "cp_observations (note_returned_source i st) = cp_observations st"
  by (simp_all add: note_returned_source_def)

lemma record_locations_rows:
  assumes "record_locations i scope source locations at complete headers received st = Inr (st', n)"
  shows "cp_messages st' = cp_messages st" "cp_thread_ids st' = cp_thread_ids st"
    "\<exists>t h f c recorded. observed_time at = Inr t \<and> (\<not> headers \<or> locations \<noteq> {})
       \<and> observe t complete headers (List.find (is_source scope source) (cp_observations st)) = (h, f, c)
       \<and> recorded = (if c \<and> h \<noteq> None then Some f else None)
       \<and> cp_observations st' = put_observation \<lparr>so_message_id = i, so_scope = scope, so_provider_message_id = source,
            so_headers_at = h, so_folder_at = f, so_complete = c\<rparr> (cp_observations st)
       \<and> cp_locations st' = stamp_rows scope source recorded received (located_rows i scope source locations recorded received (cp_locations st))"
proof -
  obtain t where t: "observed_time at = Inr t" "\<not> headers \<or> locations \<noteq> {}" using assms by (auto simp: record_locations_def res_splits Let_def)
  obtain h f c where o: "observe t complete headers (List.find (is_source scope source) (cp_observations st)) = (h, f, c)"
    by (metis prod.exhaust)
  define recorded where "recorded = (if c \<and> h \<noteq> None then Some f else None)"
  have st': "cp_messages st' = cp_messages st" "cp_thread_ids st' = cp_thread_ids st"
      "cp_observations st' = put_observation \<lparr>so_message_id = i, so_scope = scope, so_provider_message_id = source,
                so_headers_at = h, so_folder_at = f, so_complete = c\<rparr> (cp_observations st)"
      "cp_locations st' = stamp_rows scope source recorded received (located_rows i scope source locations recorded received (cp_locations st))"
    using assms t o unfolding record_locations_def recorded_def [symmetric] Let_def
    by (auto simp: andThen_Inr require_Inr recorded_def split: if_splits)
  show "cp_messages st' = cp_messages st" "cp_thread_ids st' = cp_thread_ids st" by (fact st')+
  show "\<exists>t h f c recorded. observed_time at = Inr t \<and> (\<not> headers \<or> locations \<noteq> {})
       \<and> observe t complete headers (List.find (is_source scope source) (cp_observations st)) = (h, f, c)
       \<and> recorded = (if c \<and> h \<noteq> None then Some f else None)
       \<and> cp_observations st' = put_observation \<lparr>so_message_id = i, so_scope = scope, so_provider_message_id = source,
            so_headers_at = h, so_folder_at = f, so_complete = c\<rparr> (cp_observations st)
       \<and> cp_locations st' = stamp_rows scope source recorded received (located_rows i scope source locations recorded received (cp_locations st))"
    using t o st'(3,4) recorded_def by blast
qed

lemma record_locations_located:
  assumes "record_locations i scope source locations at complete headers received st = Inr (st', n)"
  obtains recorded where
    "cp_locations st' = stamp_rows scope source recorded received (located_rows i scope source locations recorded received (cp_locations st))"
  using record_locations_rows(3) [OF assms] that by blast

lemma record_locations_effect:
  assumes "record_locations i scope source locations at complete headers received st = Inr (st', n)"
  shows "cp_messages st' = cp_messages st" "cp_thread_ids st' = cp_thread_ids st"
    "\<And>l. l \<in> set (cp_locations st') \<Longrightarrow> lo_message_id l = i \<and> lo_scope l = scope
      \<or> (\<exists>l'\<in>set (cp_locations st). lo_message_id l = lo_message_id l' \<and> lo_scope l = lo_scope l')"
proof -
  show "cp_messages st' = cp_messages st" "cp_thread_ids st' = cp_thread_ids st" by (fact record_locations_rows [OF assms])+
  fix l assume l: "l \<in> set (cp_locations st')"
  obtain recorded where rows: "cp_locations st' = stamp_rows scope source recorded received
      (located_rows i scope source locations recorded received (cp_locations st))" by (rule record_locations_located [OF assms])
  obtain l' where "l' \<in> set (located_rows i scope source locations recorded received (cp_locations st))"
      "lo_message_id l = lo_message_id l'" "lo_scope l = lo_scope l'"
    using stamp_rows_mem l unfolding rows by blast
  with located_rows_mem [OF this(1)] show "lo_message_id l = i \<and> lo_scope l = scope
      \<or> (\<exists>l'\<in>set (cp_locations st). lo_message_id l = lo_message_id l' \<and> lo_scope l = lo_scope l')" by auto
qed

lemma located_ok:
  assumes "captures_ok st" and "node_account st (Row i) = Some (account_of scope)"
    and r: "record_locations i scope source locations at complete headers received st = Inr (st', n)"
  shows "same_rows st st' \<and> captures_ok st'"
proof -
  note effect = record_locations_effect [OF r]
  have same: "same_rows st st'" by (simp add: same_rows_def effect)
  have "location_ok st l" if "l \<in> set (cp_locations st')" for l
    using effect(3) [OF that] assms(1,2) unfolding captures_ok_def list_all_iff location_ok_def by fastforce
  then show ?thesis using captures_ok_same [OF assms(1) same] same by blast
qed

lemma recipients_ok: "captures_ok st \<Longrightarrow> same_rows st (record_recipients i to cc st) \<and> captures_ok (record_recipients i to cc st)"
proof -
  assume ok: "captures_ok st"
  have same: "same_rows st (record_recipients i to cc st)" by (simp add: same_rows_def)
  moreover have "location_ok st l" if "l \<in> set (cp_locations (record_recipients i to cc st))" for l
    using ok that by (simp add: captures_ok_def list_all_iff)
  ultimately show ?thesis using captures_ok_same [OF ok] by blast
qed

lemma requeue_row_ok: "captures_ok st \<Longrightarrow> same_rows st (requeue_row i st) \<and> captures_ok (requeue_row i st)"
proof -
  assume ok: "captures_ok st"
  have same: "same_rows st (requeue_row i st)"
    by (simp add: same_rows_def requeue_row_def update_captured_def map_update_where row_view_simps)
  moreover have "location_ok st l" if "l \<in> set (cp_locations (requeue_row i st))" for l
    using ok that by (simp add: captures_ok_def list_all_iff requeue_row_def update_captured_def)
  ultimately show ?thesis using captures_ok_same [OF ok] by blast
qed

lemma bind_nothing: "captures_ok st \<Longrightarrow> bind_pending_legacy_identity provider account_id i st = Inr st"
proof -
  assume "captures_ok st"
  then have "\<forall>m\<in>set (cp_messages st). mg_mailbox_identity_key m \<noteq> None" by (simp add: captures_ok_def list_all_iff row_ok_def)
  then have "[(m, k). m \<leftarrow> cp_messages st, mg_provider m = provider \<and> mg_account_id m = account_id \<and> mg_mailbox_identity_key m = None
          \<and> me_status m = M_pending \<and> sr_logical_of m = None \<and> (i = None \<or> mg_message_id m = i),
        k \<leftarrow> (case effective_identity st m of None \<Rightarrow> [] | Some k \<Rightarrow> [k]),
        Option.bind (find_account st (mg_provider m) (mg_account_id m)) ak_mailbox_identity_key = Some k] = []"
    by (auto simp: concat_eq_Nil_conv)
  then show ?thesis unfolding bind_pending_legacy_identity_def by (simp only: bind_rows.simps)
qed

lemma requeue_if_skipped_ok: "captures_ok st \<Longrightarrow> requeue_if_skipped i st = Inr (requeue_row i st)"
  using requeue_row_ok [of st i] by (auto simp: requeue_if_skipped_def Let_def bind_nothing split: list.splits)

lemma membership_account:
  assumes "captures_ok st" and "i \<in> set (stored_source_membership st scope source)"
  shows "node_account st (Row i) = Some (account_of scope)"
proof -
  consider m where "m \<in> set (cp_messages st)" "mg_provider m = fst scope" "mg_account_id m = fst (snd scope)"
      "i = (case sr_logical_of m of Some l \<Rightarrow> l | None \<Rightarrow> row_id m)"
    | l where "l \<in> set (cp_locations st)" "lo_scope l = scope" "i = lo_message_id l"
    using assms(2) by (auto simp: stored_source_membership_def scope_rows_def case_prod_beta Let_def)
  then show ?thesis
  proof cases
    case 1
    then have m: "row_ok m" "distinct (map mg_message_id (cp_messages st))" using assms(1) by (auto simp: captures_ok_def list_all_iff)
    then obtain j where j: "mg_message_id m = Some j" by (auto simp: row_ok_def)
    then have "i = j" using 1(4) m(1) by (simp add: row_ok_def row_id_def)
    then have "find_captured st i = Some m"
      using find_key_distinct [of mg_message_id "cp_messages st" m] m(2) 1(1) j by (simp add: find_captured_def)
    then show ?thesis using 1 by (simp add: account_of_def)
  next
    case 2
    then show ?thesis using assms(1) by (auto simp: captures_ok_def list_all_iff location_ok_def)
  qed
qed

lemma record_message_location_ok:
  assumes ok: "captures_ok st" and "record_message_location scope source locations to cc complete headers now st = Inr (st', n)"
  shows "same_rows st st' \<and> captures_ok st'"
proof (cases "stored_source_membership st scope source")
  case (Cons i rest)
  have account: "node_account st (Row i) = Some (account_of scope)"
    by (rule membership_account [OF ok, of i scope source]) (simp add: Cons)
  show ?thesis
  proof (cases "record_message_available st i")
    case True
    then obtain st1 st2 where st1: "record_locations i scope source locations (Aware now) complete headers None st = Inr (st1, n)"
      and st2: "st2 = (if headers then record_recipients i to cc st1 else st1)"
      and "(if locations = {} then Inr else requeue_if_skipped i) st2 = Inr st'"
      using assms(2) Cons by (auto simp: record_message_location_def res_splits)
    moreover have 1: "same_rows st st1 \<and> captures_ok st1" by (rule located_ok [OF ok account st1])
    moreover then have "same_rows st1 st2 \<and> captures_ok st2" using recipients_ok [of st1 i to cc] by (simp add: st2)
    ultimately have "same_rows st2 st' \<and> captures_ok st'" "same_rows st st2"
      using requeue_if_skipped_ok [of st2 i] requeue_row_ok [of st2 i] same_rows_trans [of st st1 st2]
      by (auto split: if_splits)
    then show ?thesis using same_rows_trans by blast
  qed (use assms Cons in \<open>simp add: record_message_location_def\<close>)
qed (use assms in \<open>simp add: record_message_location_def\<close>)

lemma clear_stamps_ok:
  assumes "captures_ok st" and "\<And>i s. (i, s) \<in> set rows \<Longrightarrow> node_account st (Row i) = Some (account_of scope)"
    and "clear_stamps scope now rows st = Inr st'"
  shows "same_rows st st' \<and> captures_ok st'"
  using assms
proof (induction rows arbitrary: st)
  case (Cons r rows)
  obtain i s where r: "r = (i, s)" by (cases r)
  with Cons.prems(3) obtain st1 n where st1: "record_locations i scope s {} (Aware now) False False None st = Inr (st1, n)"
    and rest: "clear_stamps scope now rows st1 = Inr st'" by (auto simp: res_splits)
  have 1: "same_rows st st1 \<and> captures_ok st1" by (rule located_ok [OF Cons.prems(1) Cons.prems(2) [of i s] st1]) (simp add: r)
  have "same_rows st1 st' \<and> captures_ok st'"
  proof (rule Cons.IH [OF _ _ rest])
    show "node_account st1 (Row i) = Some (account_of scope)" if "(i, s) \<in> set rows" for i s
      using Cons.prems(2) [of i s] that same_rows_node(2) [of st st1] 1 by simp
  qed (use 1 in simp)
  with 1 show ?case using same_rows_trans by blast
qed simp

lemma clear_location_stamps_ok:
  assumes "captures_ok st" and "clear_location_stamps scope now st = Inr st'"
  shows "same_rows st st' \<and> captures_ok st'"
proof (rule clear_stamps_ok [OF assms(1) _ assms(2) [unfolded clear_location_stamps_def]])
  fix i s assume "(i, s) \<in> set (distinct_values (map (\<lambda>l. (lo_message_id l, lo_provider_message_id l))
      (filter (\<lambda>l. lo_scope l = scope) (cp_locations st))))"
  then show "node_account st (Row i) = Some (account_of scope)"
    using assms(1) by (auto simp: captures_ok_def list_all_iff location_ok_def)
qed

section \<open>Joining keeps the invariant\<close>

lemma joined_one_account:
  assumes acc: "one_account st" and C: "\<And>c. c \<in> C \<Longrightarrow> node_account st c = Some (account_of scope)"
    and key: "\<And>x. node_key st x = Some key \<Longrightarrow> node_account st x = Some (account_of scope)"
    and x: "joined C key (node_key st) x = Some k" and y: "joined C key (node_key st) y = Some k"
  shows "node_account st x = node_account st y"
proof -
  have in_account: "node_account st z = Some (account_of scope)" if z: "joined C key (node_key st) z = Some key" for z
  proof (cases "z \<in> C \<or> node_key st z = Some key")
    case False
    then obtain c where c: "c \<in> C" "node_key st c \<noteq> None" "node_key st z = node_key st c"
      using z unfolding joined_def by (metis (mono_tags, lifting))
    then show ?thesis using acc C [OF c(1)] unfolding one_account_def by (metis not_None_eq)
  qed (use C key in blast)
  show ?thesis
  proof (cases "k = key")
    case False
    then have "node_key st x = Some k" "node_key st y = Some k"
      using x y unfolding joined_def by (metis option.inject)+
    then show ?thesis using acc unfolding one_account_def by blast
  qed (use in_account x y in simp)
qed

lemma merge_keys_frame:
  "cp_locations (fold (merge_key scope key) merged st) = cp_locations st"
  "map mg_message_id (cp_messages (fold (merge_key scope key) merged st)) = map mg_message_id (cp_messages st)"
  "map id_key (cp_thread_ids (fold (merge_key scope key) merged st)) = map id_key (cp_thread_ids st)"
proof (induction merged arbitrary: st)
  case (Cons old merged)
  { case 1 show ?case using Cons(1) [of "merge_key scope key old st"] by (simp add: merge_key_def Let_def) }
  { case 2 show ?case using Cons(2) [of "merge_key scope key old st"] by (simp add: merge_key_def Let_def map_update_where) }
  { case 3 show ?case using Cons(3) [of "merge_key scope key old st"]
      by (simp add: merge_key_def Let_def map_update_where id_key_def) }
qed simp_all

lemma merge_keys_rows:
  assumes "key \<noteq> []" and "list_all row_ok (cp_messages st)"
  shows "list_all row_ok (cp_messages (fold (merge_key scope key) merged st))"
  using assms(2)
proof (induction merged arbitrary: st)
  case (Cons old merged)
  have "list_all row_ok (cp_messages (merge_key scope key old st))"
    using Cons.prems assms(1) by (auto simp: merge_key_def Let_def list_all_iff set_update_where row_ok_def)
  from Cons.IH [OF this] show ?case by simp
qed simp

lemma register_ids_distinct: "distinct (map id_key rows) \<Longrightarrow> distinct (map id_key (fold (register_id scope key) ids rows))"
proof (induction ids arbitrary: rows)
  case (Cons i ids)
  have "(scope, i) \<notin> id_key ` set rows" if "\<not> list_ex (\<lambda>t. ti_scope t = scope \<and> ti_rfc_id t = i) rows"
    using that by (auto simp: id_key_def list_ex_iff)
  moreover have "id_key \<lparr>ti_scope = scope, ti_rfc_id = i, ti_thread_key = key\<rparr> = (scope, i)" by (simp add: id_key_def)
  ultimately have "distinct (map id_key (register_id scope key i rows))" using Cons.prems by (auto simp: register_id_def)
  from Cons.IH [OF this] show ?case by simp
qed simp

lemma merge_keys_ids:
  assumes "key \<noteq> []" and "list_all id_ok (cp_thread_ids st)"
  shows "list_all id_ok (cp_thread_ids (fold (merge_key scope key) merged st))"
  using assms(2)
proof (induction merged arbitrary: st)
  case (Cons old merged)
  have "list_all id_ok (cp_thread_ids (merge_key scope key old st))"
    using Cons.prems assms(1) by (auto simp: merge_key_def Let_def list_all_iff set_update_where id_ok_def)
  from Cons.IH [OF this] show ?case by simp
qed simp

lemma register_ids_valid:
  assumes "key \<noteq> []" and "list_all id_ok rows"
  shows "list_all id_ok (fold (register_id scope key) ids rows)"
  using assms(2)
proof (induction ids arbitrary: rows)
  case (Cons i ids)
  have "list_all id_ok (register_id scope key i rows)"
    using Cons.prems assms(1) by (auto simp: register_id_def valid_id_def id_ok_def list_all_iff)
  from Cons.IH [OF this] show ?case by simp
qed simp

lemma apply_component_unique: "key \<noteq> [] \<Longrightarrow> unique_ids st \<Longrightarrow> unique_ids (apply_imap_component scope key merged ids st)"
  by (simp add: unique_ids_def apply_imap_component_simps register_ids_distinct register_ids_valid merge_keys_frame merge_keys_ids)

lemma apply_component_account: "node_account (apply_imap_component scope key merged ids st) = node_account st"
proof (rule ext)
  fix x show "node_account (apply_imap_component scope key merged ids st) x = node_account st x"
    using merge_keys_account [of scope key merged st x] by (cases x) (simp_all add: find_captured_def apply_imap_component_simps)
qed

lemma apply_component_locations: "cp_locations (apply_imap_component scope key merged ids st) = cp_locations st"
  using merge_keys_frame(1) by (simp add: apply_imap_component_def Let_def)

lemma apply_component_ok:
  assumes ok: "captures_ok st" and comp: "component_of st scope ids C key merged" and "key \<noteq> []"
    and C: "\<And>c. c \<in> C \<Longrightarrow> node_account st c = Some (account_of scope)"
    and key: "\<And>x. node_key st x = Some key \<Longrightarrow> node_account st x = Some (account_of scope)"
  shows "captures_ok (apply_imap_component scope key merged ids st)"
proof -
  have acc: "one_account st" using ok by (simp add: captures_ok_def)
  have "one_account (apply_imap_component scope key merged ids st)"
    unfolding one_account_def apply_component_joined [OF acc comp] apply_component_account
    using joined_one_account [OF acc C key] by blast
  moreover have "list_all (location_ok (apply_imap_component scope key merged ids st)) (cp_locations (apply_imap_component scope key merged ids st))"
    using ok unfolding captures_ok_def location_ok_def apply_component_account apply_component_locations by blast
  moreover have "list_all row_ok (cp_messages (apply_imap_component scope key merged ids st))"
    using ok merge_keys_rows [OF \<open>key \<noteq> []\<close>] by (simp add: captures_ok_def apply_imap_component_simps)
  moreover have "unique_ids (apply_imap_component scope key merged ids st)"
    using ok apply_component_unique [OF \<open>key \<noteq> []\<close>] by (simp add: captures_ok_def)
  moreover have "distinct (map mg_message_id (cp_messages (apply_imap_component scope key merged ids st)))"
    using ok by (simp add: captures_ok_def apply_imap_component_simps merge_keys_frame)
  ultimately show ?thesis by (simp add: captures_ok_def)
qed

section \<open>Capturing joins the ids of a message\<close>

lemma normalize_message_id_valid: "normalize_message_id env v = Some r \<Longrightarrow> valid_id r"
  by (auto simp: normalize_message_id_def Let_def valid_id_def MAX_MESSAGE_ID_CHARS_def split: if_splits)

lemma thread_ids_valid: "r \<in> set (thread_ids_of env rfc replies) \<Longrightarrow> valid_id r"
proof -
  assume r: "r \<in> set (thread_ids_of env rfc replies)"
  have "\<exists>y\<in>set xs. f y = Some x" if "x \<in> set (List.map_filter f xs)" for f :: "pystr option \<Rightarrow> pystr option" and x xs
    using that by (induction xs) (auto simp: map_filter_simps split: option.splits)
  from this [of r "normalized env" "rfc # map Some replies"] r obtain y where "normalized env y = Some r"
    by (auto simp: thread_ids_of_def)
  then show "valid_id r" by (auto simp: normalized_def bind_eq_Some_conv dest: normalize_message_id_valid)
qed

definition unused :: "pystr \<Rightarrow> capture_store \<Rightarrow> bool" where
  "unused key st \<longleftrightarrow> key \<noteq> [] \<and> key \<notin> set (map ti_thread_key (cp_thread_ids st)) \<and> Some key \<notin> set (map sr_thread_key (cp_messages st))"

lemma unused_node: "unused key st \<Longrightarrow> node_key st x \<noteq> Some key"
proof (cases x)
  case (Id s r)
  assume u: "unused key st"
  have "t \<in> set (cp_thread_ids st)" if "id_row st s r = Some t" for t using that by (auto simp: id_row_def find_Some_iff)
  then show ?thesis using u Id by (auto simp: unused_def)
next
  case (Row i)
  assume u: "unused key st"
  have "m \<in> set (cp_messages st)" if "find_captured st i = Some m" for m using that by (auto simp: find_captured_def find_Some_iff)
  then show ?thesis using u Row by (auto simp: unused_def bind_eq_Some_conv image_iff split: if_splits) metis
qed

lemma nonempty_keys: "captures_ok st \<Longrightarrow> node_key st x \<noteq> Some []"
proof (cases x)
  case (Id s r)
  assume ok: "captures_ok st"
  have "ti_thread_key t \<noteq> []" if "id_row st s r = Some t" for t
    using that ok by (auto simp: id_row_def find_Some_iff captures_ok_def unique_ids_def list_all_iff id_ok_def)
  then show ?thesis using Id by auto
next
  case (Row i)
  assume ok: "captures_ok st"
  have "row_ok m" if "find_captured st i = Some m" for m
    using that ok by (auto simp: find_captured_def find_Some_iff captures_ok_def list_all_iff)
  then show ?thesis using Row by (auto simp: bind_eq_Some_conv row_ok_def split: if_splits)
qed

text \<open>What \<open>_imap_thread_key\<close> returns is the component of the ids.\<close>

lemma thread_key_component:
  assumes ok: "captures_ok st" and k: "imap_thread_key fresh scope ids existing st = (key, merged)" and u: "unused fresh st"
    and e: "\<And>e. existing = Some e \<Longrightarrow> e \<noteq> [] \<and> node_key st x = Some e \<and> node_account st x = Some (account_of scope)"
  defines "C \<equiv> Id scope ` {r \<in> set ids. valid_id r} \<union> (if existing = None then {} else {x})"
  shows "component_of st scope ids C key merged" "(\<exists>c\<in>C. node_key st c = Some key) \<or> (\<forall>y. node_key st y \<noteq> Some key)" "key \<noteq> []"
    "\<And>c. c \<in> C \<Longrightarrow> node_account st c = Some (account_of scope)"
    "\<And>y. node_key st y = Some key \<Longrightarrow> node_account st y = Some (account_of scope)"
proof -
  have ids: "unique_ids st" and acc: "one_account st" using ok by (simp_all add: captures_ok_def)
  have "existing \<noteq> Some []" using e by blast
  note cases = imap_thread_key_cases [OF k ids this]
  have valid: "valid_id r" if "node_key st (Id scope r) = Some y" for r y
    using that ids by (auto simp: id_row_def find_Some_iff unique_ids_def list_all_iff id_key_def id_ok_def)
  have K: "{k. \<exists>r\<in>set ids. node_key st (Id scope r) = Some k} \<union> set_option existing = {k. \<exists>c\<in>C. node_key st c = Some k}"
    using e valid by (cases existing) (auto simp: C_def simp del: node_key.simps)
  show in_C: "node_account st c = Some (account_of scope)" if "c \<in> C" for c
    using that e by (cases existing) (auto simp: C_def)
  have new: "c \<in> Id scope ` {r \<in> set ids. valid_id r}" if "c \<in> C" "node_key st c = None" for c
    using that e by (cases existing) (auto simp: C_def simp del: node_key.simps)
  show "component_of st scope ids C key merged"
    unfolding component_of_def
  proof (intro conjI ballI allI impI)
    show "Id scope ` {r \<in> set ids. valid_id r} \<subseteq> C" by (simp add: C_def)
    show "\<exists>c\<in>C. node_key st c = Some k" if "k \<in> set merged" for k using cases(2) that unfolding K by blast
    show "k \<in> insert key (set merged)" if "c \<in> C" "node_key st c = Some k" for c k using cases(3) that unfolding K by blast
  qed (use in_C new cases(1) in blast)+
  show known: "(\<exists>c\<in>C. node_key st c = Some key) \<or> (\<forall>y. node_key st y \<noteq> Some key)"
    using cases(4) unused_node [OF u] unfolding K by blast
  show "node_account st y = Some (account_of scope)" if y: "node_key st y = Some key" for y
  proof -
    obtain c where c: "c \<in> C" "node_key st c = Some key" using known y by blast
    have "node_account st y = node_account st c" using acc y c(2) unfolding one_account_def by blast
    then show ?thesis using in_C [OF c(1)] by simp
  qed
  show "key \<noteq> []"
  proof (cases "\<exists>c\<in>C. node_key st c = Some key")
    case True
    then show ?thesis using nonempty_keys [OF ok] by blast
  next
    case False
    then show ?thesis using cases(4) u unfolding K unused_def by blast
  qed
qed

lemma insert_new_row:
  assumes "insert_message m st = Inr (Some st1)" and m: "mg_message_id m = Some j" "sr_thread_key m = Some key"
  shows "st1 = st\<lparr>cp_messages := cp_messages st @ [m]\<rparr>" "find_captured st j = None"
    "node_key st1 = (if mg_provider m = lit ''imap'' then (node_key st)(Row j \<mapsto> key) else node_key st)"
    "node_account st1 = (node_account st)(Row j \<mapsto> (mg_provider m, mg_account_id m))"
proof -
  show st1: "st1 = st\<lparr>cp_messages := cp_messages st @ [m]\<rparr>"
    using assms(1) by (auto simp: insert_message_def res_splits split: if_splits)
  show none: "find_captured st j = None"
    using assms(1) m(1) by (auto simp: insert_message_def res_splits find_captured_def find_None_iff list_ex_iff split: if_splits)
  have find: "find_captured st1 i = (if i = j then Some m else find_captured st i)" for i
    using none m(1) by (auto simp: st1 find_captured_def find_append_rows split: option.splits)
  have "node_key st1 x = (if mg_provider m = lit ''imap'' then (node_key st)(Row j \<mapsto> key) else node_key st) x" for x
    using find none m(2) by (cases x) (auto simp: st1 id_row_def)
  then show "node_key st1 = (if mg_provider m = lit ''imap'' then (node_key st)(Row j \<mapsto> key) else node_key st)" by (rule ext)
  have "node_account st1 x = ((node_account st)(Row j \<mapsto> (mg_provider m, mg_account_id m))) x" for x
    using find none by (cases x) auto
  then show "node_account st1 = (node_account st)(Row j \<mapsto> (mg_provider m, mg_account_id m))" by (rule ext)
qed

lemma insert_new_row_ok:
  assumes ok: "captures_ok st" and ins: "insert_message m st = Inr (Some st1)" and m: "mg_message_id m = Some j" "sr_thread_key m = Some key"
    and row: "row_ok m"
    and key: "\<And>y. mg_provider m = lit ''imap'' \<Longrightarrow> node_key st y = Some key \<Longrightarrow> node_account st y = Some (mg_provider m, mg_account_id m)"
  shows "captures_ok st1"
proof -
  note new = insert_new_row [OF ins m]
  have none: "node_key st (Row j) = None" "node_account st (Row j) = None" using new(2) by simp_all
  have "one_account st1"
    unfolding one_account_def
  proof (intro allI impI)
    fix x y k assume x: "node_key st1 x = Some k" and y: "node_key st1 y = Some k"
    have acc: "node_account st a = node_account st b" if "node_key st a = Some k" "node_key st b = Some k" for a b
      using ok that unfolding captures_ok_def one_account_def by blast
    show "node_account st1 x = node_account st1 y"
      using x y acc [of x y] key [of x] key [of y] none
      by (cases "x = Row j"; cases "y = Row j") (auto simp: new(3,4) simp del: node_key.simps node_account.simps split: if_splits)
  qed
  moreover have "list_all (location_ok st1) (cp_locations st1)"
  proof -
    have "location_ok st1 l" if "location_ok st l" for l
      using that none by (auto simp: location_ok_def new(4) simp del: node_account.simps)
    then show ?thesis using ok by (auto simp: captures_ok_def new(1) list_all_iff)
  qed
  moreover have "Some j \<notin> mg_message_id ` set (cp_messages st)" using new(2) by (auto simp: find_captured_def find_None_iff)
  ultimately show ?thesis using ok row m(1) unfolding captures_ok_def by (auto simp: new(1) unique_ids_def)
qed

lemma joined_added:
  assumes "x \<in> C" and "f x = None"
  shows "joined C key (f(x \<mapsto> key)) = joined C key f"
proof (rule ext)
  fix y
  have "(\<exists>c\<in>C. (f(x \<mapsto> key)) c \<noteq> None \<and> (f(x \<mapsto> key)) y = (f(x \<mapsto> key)) c)
      \<longleftrightarrow> f y = Some key \<or> (\<exists>c\<in>C. f c \<noteq> None \<and> f y = f c)" if "y \<noteq> x"
  proof -
    have split: "(\<exists>c\<in>C. P c) \<longleftrightarrow> P x \<or> (\<exists>c\<in>C - {x}. P c)" for P using assms(1) by blast
    show ?thesis
      unfolding split [of "\<lambda>c. (f(x \<mapsto> key)) c \<noteq> None \<and> (f(x \<mapsto> key)) y = (f(x \<mapsto> key)) c"] split [of "\<lambda>c. f c \<noteq> None \<and> f y = f c"]
      using assms(2) that by auto
  qed
  then show "joined C key (f(x \<mapsto> key)) y = joined C key f y"
    using assms by (cases "y = x") (auto simp: joined_def)
qed

lemma component_of_added:
  assumes "component_of st scope ids C key merged" and "node_key st' = (node_key st)(x \<mapsto> key)"
    and "node_account st' = (node_account st)(x \<mapsto> account_of scope)" and "node_key st x = None"
  shows "component_of st' scope ids (insert x C) key merged"
proof -
  have x: "node_key st' x = Some key" "node_account st' x = Some (account_of scope)" by (simp_all add: assms(2,3))
  have other: "node_key st' c = node_key st c" "node_account st' c = node_account st c" if "c \<noteq> x" for c
    using that by (simp_all add: assms(2,3))
  have "\<exists>c\<in>insert x C. node_key st' c = Some k" if k: "k \<in> set merged" for k
  proof -
    obtain c where c: "c \<in> C" "node_key st c = Some k" using assms(1) k unfolding component_of_def by blast
    then have "c \<noteq> x" using assms(4) by auto
    then have "node_key st' c = Some k" using c(2) other(1) by simp
    then show ?thesis using c(1) by blast
  qed
  moreover have "node_account st' c = Some (account_of scope)" if "c \<in> insert x C" "node_key st' c \<noteq> None" for c
    using that x other [of c] assms(1) unfolding component_of_def by (cases "c = x") auto
  moreover have "c \<in> Id scope ` {r \<in> set ids. valid_id r}" if "c \<in> insert x C" "node_key st' c = None" for c
    using that x other [of c] assms(1) unfolding component_of_def by (cases "c = x") auto
  moreover have "k \<in> insert key (set merged)" if "c \<in> insert x C" "node_key st' c = Some k" for c k
    using that x other [of c] assms(1) unfolding component_of_def by (cases "c = x") auto
  moreover have "Id scope ` {r \<in> set ids. valid_id r} \<subseteq> insert x C" "key \<notin> set merged"
    using assms(1) unfolding component_of_def by blast+
  ultimately show ?thesis unfolding component_of_def by blast
qed

lemma new_message_joins:
  assumes ok: "captures_ok st" and u: "unused fresh st" and scope: "scope = (in_provider i, in_account_id i, identity)" "fst scope = lit ''imap''"
    and thread: "imap_thread_key fresh scope ids None st = (key, merged)" and valid: "\<And>r. r \<in> set ids \<Longrightarrow> valid_id r"
    and rec: "record_new_message i now scope (key, merged) rfc ids st = Inr (st', Captured)"
  defines "C \<equiv> insert (Row (in_message_id i)) (Id scope ` set ids)"
  shows "captures_ok st' \<and> node_key st' = joined C key (node_key st) \<and> ((\<exists>c\<in>C. node_key st c = Some key) \<or> key \<notin> ran (node_key st))"
proof -
  let ?m = "new_row i now identity key rfc" and ?V = "Id scope ` {r \<in> set ids. valid_id r}"
  have V: "?V = Id scope ` set ids" using valid by auto
  have "\<And>e. None = Some e \<Longrightarrow> e \<noteq> [] \<and> node_key st (Row []) = Some e \<and> node_account st (Row []) = Some (account_of scope)" by simp
  note comp = thread_key_component [OF ok thread u this]
  obtain st1 n where ins: "insert_message ?m st = Inr (Some st1)"
    and loc: "record_locations (in_message_id i) scope (source_of i) (in_locations i) (Aware now) (in_scope_complete i) True None
      (record_recipients (in_message_id i) (in_to i) (in_cc i) (apply_imap_component scope key merged ids st1)) = Inr (st', n)"
    using rec scope by (auto simp: record_new_message_def res_splits apply_thread_def split: option.splits)
  have m: "mg_message_id ?m = Some (in_message_id i)" "sr_thread_key ?m = Some key" "mg_provider ?m = lit ''imap''"
    "(mg_provider ?m, mg_account_id ?m) = account_of scope"
    using scope by (simp_all add: new_row_def account_of_def)
  note new = insert_new_row [OF ins m(1,2)]
  have row: "row_ok ?m" using comp(3) by (simp add: row_ok_def new_row_def)
  have ok1: "captures_ok st1" by (rule insert_new_row_ok [OF ok ins m(1,2) row]) (use comp(5) m(4) in simp)
  have nk1: "node_key st1 = (node_key st)(Row (in_message_id i) \<mapsto> key)" using new(3) m(3) by simp
  have na1: "node_account st1 = (node_account st)(Row (in_message_id i) \<mapsto> account_of scope)" using new(4) m(4) by simp
  have fresh_row: "node_key st (Row (in_message_id i)) = None" using new(2) by simp
  have comp1: "component_of st1 scope ids C key merged"
    using component_of_added [OF comp(1) nk1 na1 fresh_row] by (simp add: C_def V)
  have acc1: "one_account st1" using ok1 by (simp add: captures_ok_def)
  let ?st2 = "apply_imap_component scope key merged ids st1"
  have ok2: "captures_ok ?st2"
    by (rule apply_component_ok [OF ok1 comp1 comp(3)])
      (use comp(5) in \<open>auto simp: na1 nk1 C_def simp del: node_key.simps node_account.simps, auto\<close>)
  have nk2: "node_key ?st2 = joined C key (node_key st)"
    unfolding apply_component_joined [OF acc1 comp1] nk1 by (rule joined_added) (use fresh_row in \<open>simp_all add: C_def\<close>)
  have row2: "node_account ?st2 (Row (in_message_id i)) = Some (account_of scope)"
    unfolding apply_component_account na1 by simp
  note rr = recipients_ok [OF ok2, of "in_message_id i" "in_to i" "in_cc i"]
  have "same_rows (record_recipients (in_message_id i) (in_to i) (in_cc i) ?st2) st' \<and> captures_ok st'"
  proof (rule located_ok [OF _ _ loc])
    show "captures_ok (record_recipients (in_message_id i) (in_to i) (in_cc i) ?st2)" using rr by blast
    show "node_account (record_recipients (in_message_id i) (in_to i) (in_cc i) ?st2) (Row (in_message_id i)) = Some (account_of scope)"
      using row2 same_rows_node(2) [OF conjunct1 [OF rr]] by simp
  qed
  moreover from calculation have "node_key st' = joined C key (node_key st)"
    using same_rows_node(1) [of "record_recipients (in_message_id i) (in_to i) (in_cc i) ?st2" st']
      same_rows_node(1) [OF conjunct1 [OF rr]] nk2 by simp
  moreover have "(\<exists>c\<in>C. node_key st c = Some key) \<or> key \<notin> ran (node_key st)"
    using comp(2) unfolding C_def V ran_def by auto
  ultimately show ?thesis by blast
qed

lemma component_of_same:
  assumes "same_rows st st'"
  shows "component_of st' scope ids C key merged = component_of st scope ids C key merged"
  unfolding component_of_def same_rows_node [OF assms] ..

text \<open>A known component applied to a store with the same rows.\<close>

lemma known_message_joins:
  assumes ok: "captures_ok st" and same: "same_rows st st1" and ok1: "captures_ok st1"
    and thread: "imap_thread_key fresh scope ids existing st = (key, merged)" and u: "unused fresh st"
    and e: "\<And>e. existing = Some e \<Longrightarrow> e \<noteq> [] \<and> node_key st x = Some e \<and> node_account st x = Some (account_of scope)"
  defines "C \<equiv> Id scope ` {r \<in> set ids. valid_id r} \<union> (if existing = None then {} else {x})"
  shows "captures_ok (apply_imap_component scope key merged ids st1)
    \<and> node_key (apply_imap_component scope key merged ids st1) = joined C key (node_key st)
    \<and> node_account (apply_imap_component scope key merged ids st1) = node_account st
    \<and> ((\<exists>c\<in>C. node_key st c = Some key) \<or> key \<notin> ran (node_key st))"
proof -
  note comp = thread_key_component [OF ok thread u e, folded C_def]
  have comp1: "component_of st1 scope ids C key merged" using comp(1) component_of_same [OF same] by simp
  have acc1: "one_account st1" using ok1 by (simp add: captures_ok_def)
  have "captures_ok (apply_imap_component scope key merged ids st1)"
    by (rule apply_component_ok [OF ok1 comp1 comp(3)]) (use comp(4,5) same_rows_node [OF same] in simp_all)
  moreover have "node_key (apply_imap_component scope key merged ids st1) = joined C key (node_key st)"
    using apply_component_joined [OF acc1 comp1] same_rows_node(1) [OF same] by simp
  moreover have "node_account (apply_imap_component scope key merged ids st1) = node_account st"
    using apply_component_account same_rows_node(2) [OF same] by simp
  ultimately show ?thesis using comp(2) by (auto simp: ran_def)
qed

lemma row_account:
  assumes ok: "captures_ok st" and m: "m \<in> set (cp_messages st)"
  shows "node_account st (Row (row_id m)) = Some (mg_provider m, mg_account_id m)" "mg_message_id m = Some (row_id m)"
proof -
  obtain j where j: "mg_message_id m = Some j" using assms by (auto simp: captures_ok_def list_all_iff row_ok_def)
  then show id: "mg_message_id m = Some (row_id m)" by (simp add: row_id_def)
  have "find_captured st (row_id m) = Some m"
    using find_key_distinct [of mg_message_id "cp_messages st" m] ok m id by (simp add: captures_ok_def find_captured_def)
  then show "node_account st (Row (row_id m)) = Some (mg_provider m, mg_account_id m)" by simp
qed

lemma logical_account:
  assumes "captures_ok st" and "logical_message_id st scope rfc source = Some l"
  shows "node_account st (Row l) = Some (account_of scope)"
proof -
  let ?rows = "scope_rows st scope (\<lambda>m. cr_rfc_message_id m = Some rfc \<and> sr_logical_of m = None \<and> mg_provider_message_id m \<noteq> source)"
  obtain m ms where ms: "sort_key (\<lambda>m. (logical_message_rank m, mg_provider_message_id m)) ?rows = m # ms" "l = row_id m"
    using assms(2) unfolding logical_message_id_def by (auto split: list.splits)
  have "m \<in> set ?rows" using set_sort [of "\<lambda>m. (logical_message_rank m, mg_provider_message_id m)" ?rows] unfolding ms(1) by auto
  then have "m \<in> set (cp_messages st)" "(mg_provider m, mg_account_id m) = account_of scope"
    by (auto simp: scope_rows_def case_prod_beta Let_def account_of_def)
  then show ?thesis using row_account(1) [OF assms(1), of m] ms(2) by (simp del: node_account.simps)
qed

lemma second_copy_joins:
  assumes ok: "captures_ok st" and u: "unused fresh st" and l: "node_account st (Row l) = Some (account_of scope)"
    and valid: "\<And>r. r \<in> set ids \<Longrightarrow> valid_id r"
    and thread: "fst scope = lit ''imap'' \<Longrightarrow> thread = imap_thread_key fresh scope ids None st"
    and rec: "record_second_copy i now scope l thread ids st = Inr st'"
  shows "captures_ok st' \<and> (if fst scope = lit ''imap''
      then node_key st' = joined (Id scope ` set ids) (fst thread) (node_key st)
        \<and> ((\<exists>c\<in>Id scope ` set ids. node_key st c = Some (fst thread)) \<or> fst thread \<notin> ran (node_key st))
      else node_key st' = node_key st)"
proof -
  obtain st1 n st2 where st1: "record_locations l scope (source_of i) (in_locations i) (Aware now) (in_scope_complete i) True
      (Some (in_received_at i)) st = Inr (st1, n)"
    and st2: "requeue_if_skipped l (record_recipients l (in_to i) (in_cc i) st1) = Inr st2"
    and st': "st' = apply_thread scope thread ids st2"
    using rec by (auto simp: record_second_copy_def res_splits)
  have 1: "same_rows st st1 \<and> captures_ok st1" by (rule located_ok [OF ok l st1])
  have 2: "same_rows st1 (record_recipients l (in_to i) (in_cc i) st1) \<and> captures_ok (record_recipients l (in_to i) (in_cc i) st1)"
    using recipients_ok 1 by blast
  have 3: "same_rows (record_recipients l (in_to i) (in_cc i) st1) st2 \<and> captures_ok st2"
  proof -
    have ok2: "captures_ok (record_recipients l (in_to i) (in_cc i) st1)" using 2 by blast
    have "st2 = requeue_row l (record_recipients l (in_to i) (in_cc i) st1)" using st2 requeue_if_skipped_ok [OF ok2] by simp
    then show ?thesis using requeue_row_ok [OF ok2] by simp
  qed
  have same: "same_rows st st2" using 1 2 3 same_rows_trans by blast
  show ?thesis
  proof (cases "fst scope = lit ''imap''")
    case True
    have V: "Id scope ` {r \<in> set ids. valid_id r} = Id scope ` set ids" using valid by auto
    obtain key merged where k: "thread = (key, merged)" by (cases thread)
    with thread [OF True] have t: "imap_thread_key fresh scope ids None st = (key, merged)" by simp
    have "\<And>e. None = Some e \<Longrightarrow> e \<noteq> [] \<and> node_key st (Row []) = Some e \<and> node_account st (Row []) = Some (account_of scope)" by simp
    from known_message_joins [OF ok same _ t u this] 3 show ?thesis
      using True k V by (simp add: st' apply_thread_def)
  next
    case False
    then show ?thesis using 3 same_rows_node(1) [OF same] by (simp add: st' apply_thread_def)
  qed
qed

lemma plain_message_keeps:
  assumes ok: "captures_ok st" and scope: "scope = (in_provider i, in_account_id i, identity)" "fst scope \<noteq> lit ''imap''"
    and rec: "record_new_message i now scope thread rfc ids st = Inr (st', Captured)"
  shows "captures_ok st' \<and> node_key st' = node_key st"
proof -
  let ?m = "new_row i now identity (fst thread) rfc"
  obtain st1 n where ins: "insert_message ?m st = Inr (Some st1)"
    and loc: "record_locations (in_message_id i) scope (source_of i) (in_locations i) (Aware now) (in_scope_complete i) True None
      (record_recipients (in_message_id i) (in_to i) (in_cc i) st1) = Inr (st', n)"
    using rec scope by (auto simp: record_new_message_def res_splits apply_thread_def split: option.splits)
  have m: "mg_message_id ?m = Some (in_message_id i)" "sr_thread_key ?m = Some (fst thread)" "mg_provider ?m \<noteq> lit ''imap''"
    "(mg_provider ?m, mg_account_id ?m) = account_of scope"
    using scope by (simp_all add: new_row_def account_of_def)
  note new = insert_new_row [OF ins m(1,2)]
  have row: "row_ok ?m" using m(3) by (simp add: row_ok_def new_row_def)
  have ok1: "captures_ok st1" by (rule insert_new_row_ok [OF ok ins m(1,2) row]) (use m(3) in simp)
  note rr = recipients_ok [OF ok1, of "in_message_id i" "in_to i" "in_cc i"]
  have "same_rows (record_recipients (in_message_id i) (in_to i) (in_cc i) st1) st' \<and> captures_ok st'"
  proof (rule located_ok [OF _ _ loc])
    show "captures_ok (record_recipients (in_message_id i) (in_to i) (in_cc i) st1)" using rr by blast
    show "node_account (record_recipients (in_message_id i) (in_to i) (in_cc i) st1) (Row (in_message_id i)) = Some (account_of scope)"
      using new(4) m(4) same_rows_node(2) [OF conjunct1 [OF rr]] by simp
  qed
  moreover from this have "node_key st' = node_key st"
    using same_rows_node(1) [OF conjunct1 [OF rr]] same_rows_node(1) [of "record_recipients (in_message_id i) (in_to i) (in_cc i) st1" st']
      new(3) m(3) by simp
  ultimately show ?thesis by blast
qed

end
