(* ===== verification/Capture_History.thy ===== *)
theory Capture_History
  imports Capture_Proofs Interfaces
begin

text \<open>
  Histories of captures, header observations, location observations and cleared stamps, between
  which accounts, removals, label grants and suppressions may change in any way. The IMAP threads
  they build are the connected components of the ids and rows that were joined.
\<close>

section \<open>Steps as joins\<close>

definition extends :: "('a \<rightharpoonup> 'k) \<Rightarrow> 'a set list \<Rightarrow> ('a \<rightharpoonup> 'k) \<Rightarrow> bool" where
  "extends f J f' \<longleftrightarrow> J = [] \<and> f' = f
     \<or> (\<exists>C k. J = [C] \<and> f' = joined C k f \<and> ((\<exists>c\<in>C. f c = Some k) \<or> k \<notin> ran f))"

lemma extends_Nil [simp]: "extends f [] f' \<longleftrightarrow> f' = f"
  by (auto simp: extends_def)

lemma extends_single: "extends f [C] f' \<longleftrightarrow> (\<exists>k. f' = joined C k f \<and> ((\<exists>c\<in>C. f c = Some k) \<or> k \<notin> ran f))"
  by (auto simp: extends_def)

lemma labels_extends: "labels f J \<Longrightarrow> extends f J' f' \<Longrightarrow> labels f' (J @ J')"
  unfolding extends_def by (auto intro: labels_joined)

lemma unused_same: "same_rows st st' \<Longrightarrow> unused key st' = unused key st"
proof -
  assume s: "same_rows st st'"
  have "map sr_thread_key rows = map (snd \<circ> snd) (map row_view rows)" for rows
    by (simp add: row_view_def)
  then have "map sr_thread_key (cp_messages st') = map sr_thread_key (cp_messages st)" using s unfolding same_rows_def by metis
  then show ?thesis using s by (simp add: unused_def same_rows_def)
qed

section \<open>Headers\<close>

definition header_joins :: "mail_scope \<Rightarrow> header_metadata \<Rightarrow> capture_store \<Rightarrow> thread_node set list" where
  "header_joins scope h st =
     (case stored_source_membership st scope (hm_message_id h) of
        [] \<Rightarrow> []
      | l # _ \<Rightarrow>
          if record_message_available st l \<and> fst scope = lit ''imap''
          then [insert (Row l) (Id scope ` {r \<in> set (header_ids h). valid_id r})] else [])"

lemma imap_row_key:
  assumes "captures_ok st" and "node_account st (Row l) = Some (account_of scope)" and "fst scope = lit ''imap''"
  obtains e where "Option.bind (find_captured st l) sr_thread_key = Some e" "e \<noteq> []" "node_key st (Row l) = Some e"
proof -
  obtain m where m: "find_captured st l = Some m" "mg_provider m = lit ''imap''"
    using assms(2,3) by (auto simp: account_of_def)
  then have "row_ok m" using assms(1) by (auto simp: captures_ok_def list_all_iff find_captured_def find_Some_iff)
  then show thesis using that m by (auto simp: row_ok_def)
qed

lemma join_headers_ok:
  assumes ok: "captures_ok st" and u: "unused fresh st" and l: "node_account st (Row l) = Some (account_of scope)"
  shows "captures_ok (join_headers fresh scope l h st)
    \<and> extends (node_key st) (if fst scope = lit ''imap'' then [insert (Row l) (Id scope ` {r \<in> set (header_ids h). valid_id r})] else [])
        (node_key (join_headers fresh scope l h st))"
proof (cases "fst scope = lit ''imap''")
  case True
  obtain e where e: "Option.bind (find_captured st l) sr_thread_key = Some e" "e \<noteq> []" "node_key st (Row l) = Some e"
    by (rule imap_row_key [OF ok l True])
  obtain key merged where k: "imap_thread_key fresh scope (header_ids h) (Some e) st = (key, merged)" by (metis prod.exhaust)
  let ?st = "apply_imap_component scope key merged (header_ids h) st"
  let ?st' = "?st\<lparr>cp_header_gaps := delete_where (\<lambda>g. g = l) (cp_header_gaps ?st)\<rparr>"
  have st': "join_headers fresh scope l h st = ?st'" using True e(1) k by (simp add: join_headers_def Let_def)
  have "\<And>e'. Some e = Some e' \<Longrightarrow> e' \<noteq> [] \<and> node_key st (Row l) = Some e' \<and> node_account st (Row l) = Some (account_of scope)"
    using e l by simp
  note join = known_message_joins [OF ok same_rows_refl ok k u this]
  have same: "same_rows ?st ?st'" by (simp add: same_rows_def)
  have "list_all (location_ok ?st) (cp_locations ?st)" using conjunct1 [OF join] unfolding captures_ok_def by blast
  moreover have "cp_locations ?st' = cp_locations ?st" by simp
  ultimately have "captures_ok ?st'" using captures_ok_same [OF conjunct1 [OF join] same] unfolding list_all_iff by simp
  moreover have "extends (node_key st) [insert (Row l) (Id scope ` {r \<in> set (header_ids h). valid_id r})] (node_key ?st')"
    unfolding extends_single same_rows_node(1) [OF same] by (rule exI [of _ key]) (use join in simp)
  ultimately show ?thesis using True st' by simp
qed (use ok in \<open>simp add: join_headers_def\<close>)

lemma headers_ok:
  assumes ok: "captures_ok st" and u: "unused fresh st"
    and rec: "record_reconcile_headers fresh scope h locations at complete st = Inr st'"
  shows "captures_ok st' \<and> extends (node_key st) (header_joins scope h st) (node_key st')"
proof (cases "stored_source_membership st scope (hm_message_id h)")
  case (Cons l rest)
  have account: "node_account st (Row l) = Some (account_of scope)"
    by (rule membership_account [OF ok, of l scope "hm_message_id h"]) (simp add: Cons)
  show ?thesis
  proof (cases "record_message_available st l")
    case True
    then obtain st1 n where st1: "record_locations l scope (hm_message_id h) locations at complete True (Some (hm_received_at h)) st = Inr (st1, n)"
      and q: "requeue_if_skipped l (join_headers fresh scope l h (record_recipients l (hm_to h) (hm_cc h) st1)) = Inr st'"
      using rec Cons by (auto simp: record_reconcile_headers_def res_splits)
    let ?st2 = "record_recipients l (hm_to h) (hm_cc h) st1" let ?st3 = "join_headers fresh scope l h ?st2"
    have 1: "same_rows st st1 \<and> captures_ok st1" by (rule located_ok [OF ok account st1])
    have 2: "same_rows st1 ?st2 \<and> captures_ok ?st2" using recipients_ok 1 by blast
    have same: "same_rows st ?st2" using 1 2 same_rows_trans by blast
    have 3: "captures_ok ?st3 \<and> extends (node_key ?st2)
        (if fst scope = lit ''imap'' then [insert (Row l) (Id scope ` {r \<in> set (header_ids h). valid_id r})] else []) (node_key ?st3)"
      by (rule join_headers_ok) (use 2 u unused_same [OF same] account same_rows_node(2) [OF same] in simp_all)
    have st': "st' = requeue_row l ?st3" using q requeue_if_skipped_ok [of ?st3 l] 3 by simp
    have 4: "same_rows ?st3 st' \<and> captures_ok st'" unfolding st' using requeue_row_ok 3 by blast
    then show ?thesis
      using 3 unfolding same_rows_node(1) [OF same] same_rows_node(1) [OF conjunct1 [OF 4]] header_joins_def Cons by (simp add: True)
  qed (use assms Cons in \<open>simp add: record_reconcile_headers_def header_joins_def\<close>)
qed (use assms in \<open>simp add: record_reconcile_headers_def header_joins_def\<close>)

section \<open>Captures\<close>

definition incoming_scope :: "incoming \<Rightarrow> mail_scope" where
  "incoming_scope i = (in_provider i, in_account_id i, case in_mailbox_identity_key i of Some k \<Rightarrow> k | None \<Rightarrow> [])"

definition incoming_rfc :: "pyenv \<Rightarrow> incoming \<Rightarrow> pystr option" where
  "incoming_rfc env i = normalized env (in_rfc_message_id i)"

definition incoming_ids :: "pyenv \<Rightarrow> incoming \<Rightarrow> pystr list" where
  "incoming_ids env i = thread_ids_of env (incoming_rfc env i) (in_reply_ids i)"

definition known_message :: "pyenv \<Rightarrow> incoming \<Rightarrow> capture_store \<Rightarrow> pystr option" where
  "known_message env i st = Option.bind (incoming_rfc env i) (\<lambda>r. logical_message_id st (incoming_scope i) r (source_of i))"

definition capture_joins :: "pyenv \<Rightarrow> incoming \<Rightarrow> capture_outcome \<Rightarrow> thread_node set list" where
  "capture_joins env i outcome =
     (if in_provider i \<noteq> lit ''imap'' then []
      else case outcome of
        Captured \<Rightarrow> [insert (Row (in_message_id i)) (Id (incoming_scope i) ` set (incoming_ids env i))]
      | Second_copy \<Rightarrow> [Id (incoming_scope i) ` set (incoming_ids env i)]
      | _ \<Rightarrow> [])"

text \<open>The guards that \<open>_insert_message_in_transaction\<close> checks before it writes.\<close>

definition capture_allowed :: "pyenv \<Rightarrow> timeenv \<Rightarrow> incoming \<Rightarrow> capture_store \<Rightarrow> bool" where
  "capture_allowed env te i st \<longleftrightarrow>
     in_mailbox_identity_key i \<noteq> None
     \<and> validate_admission_provenance env te (in_admission i) (snd (snd (incoming_scope i))) = Inr ()
     \<and> Option.bind (find_account st (in_provider i) (in_account_id i)) ak_mailbox_identity_key = in_mailbox_identity_key i
     \<and> record_source_available st (Some (in_message_id i)) (incoming_scope i) (source_of i)
     \<and> (ad_kind (in_admission i) = lit ''gmail_user_label'' \<longrightarrow> label_granted st (incoming_scope i) (ad_selector_id (in_admission i)))
     \<and> opt_all (record_message_available st) (known_message env i st)
     \<and> in_locations i \<noteq> {}
     \<and> \<not> list_ex (\<lambda>(p, a, k). p = in_provider i \<and> a = in_account_id i
           \<and> (Some k = message_source_key env p a (source_of i) (in_mailbox_identity_key i)
             \<or> map_option (\<lambda>c. legacy_proven c (snd (snd (incoming_scope i)))) (find_account st p a) = Some True
               \<and> Some k \<in> {message_source_key env p a (source_of i) None, legacy_message_suppression_key env (source_of i)})) (cp_suppressed st)"

lemma capture_recorded:
  assumes "insert_message_in_transaction env te fresh now i st = Inr (st', outcome)"
  shows "outcome \<in> {Already_stored, Suppressed, Under_removal} \<and> st' = st
    \<or> capture_allowed env te i st
      \<and> (\<exists>thread. thread_of env fresh (incoming_scope i) (in_thread_id i) (incoming_ids env i) st = Inr thread
         \<and> (case known_message env i st of
              Some l \<Rightarrow> outcome = Second_copy \<and> record_second_copy i now (incoming_scope i) l thread (incoming_ids env i) st = Inr st'
            | None \<Rightarrow> outcome = Captured
                \<and> record_new_message i now (incoming_scope i) thread (incoming_rfc env i) (incoming_ids env i) st = Inr (st', Captured)))"
proof -
  obtain identity account where id: "in_mailbox_identity_key i = Some identity"
    and valid: "validate_admission_provenance env te (in_admission i) identity = Inr ()"
    and acc: "find_account st (in_provider i) (in_account_id i) = Some account" "ak_mailbox_identity_key account = Some identity"
    using assms by (auto simp: insert_message_in_transaction_def res_splits Let_def)
  have scope: "incoming_scope i = (in_provider i, in_account_id i, identity)" by (simp add: incoming_scope_def id)
  note run = assms [unfolded insert_message_in_transaction_def Let_def] and names = id acc scope known_message_def incoming_rfc_def incoming_ids_def
  show ?thesis
  proof (cases "record_source_available st (Some (in_message_id i)) (incoming_scope i) (source_of i)
      \<and> opt_all (record_message_available st) (known_message env i st)")
    case False
    then show ?thesis using run by (auto simp: names res_splits split: if_splits)
  next
    case True
    obtain mk keys thread where mk: "message_source_key env (in_provider i) (in_account_id i) (source_of i) (Some identity) = Some mk"
      and keys: "suppression_keys env account (incoming_scope i) (source_of i) mk = Inr keys"
      and thread: "thread_of env fresh (incoming_scope i) (in_thread_id i) (incoming_ids env i) st = Inr thread"
      and label: "ad_kind (in_admission i) = lit ''gmail_user_label'' \<longrightarrow> label_granted st (incoming_scope i) (ad_selector_id (in_admission i))"
      and rest: "in_locations i \<noteq> {}" "(if suppressed st (in_provider i) (in_account_id i) keys then Inr (st, Suppressed)
         else case known_message env i st of
           Some l \<Rightarrow> andThen (record_second_copy i now (incoming_scope i) l thread (incoming_ids env i) st) (\<lambda>st. Inr (st, Second_copy))
         | None \<Rightarrow> record_new_message i now (incoming_scope i) thread (incoming_rfc env i) (incoming_ids env i) st) = Inr (st', outcome)"
      using run True unfolding names by (simp only: the_row_Inr andThen_Inr require_Inr names option.inject simp_thms if_True if_False not_True_eq_False) blast
    show ?thesis
    proof (cases "suppressed st (in_provider i) (in_account_id i) keys")
      case False
      have "k \<in> set keys" if "k = mk \<or> legacy_proven account identity \<and> Some k \<in> {message_source_key env (in_provider i) (in_account_id i) (source_of i) None,
          legacy_message_suppression_key env (source_of i)}" for k
        using that keys by (auto simp: suppression_keys_def scope res_splits split: if_splits)
      then have allowed: "capture_allowed env te i st"
        using True id valid acc label rest(1) False mk
        by (auto simp: capture_allowed_def suppressed_def list_ex_iff scope)
      show ?thesis
      proof (cases "known_message env i st")
        case None
        then have new: "record_new_message i now (incoming_scope i) thread (incoming_rfc env i) (incoming_ids env i) st = Inr (st', outcome)"
          using rest False by simp
        then have "outcome = Captured \<or> outcome = Already_stored \<and> st' = st"
          by (auto simp: record_new_message_def res_splits split: option.splits)
        then show ?thesis using allowed thread new None by auto
      qed (use rest False allowed thread in \<open>auto simp: res_splits\<close>)
    qed (use rest in simp)
  qed
qed

lemma capture_step_ok:
  assumes ok: "captures_ok st" and u: "unused fresh st" and run: "insert_message_in_transaction env te fresh now i st = Inr (st', outcome)"
  shows "captures_ok st' \<and> extends (node_key st) (capture_joins env i outcome) (node_key st')"
proof -
  let ?scope = "incoming_scope i" and ?ids = "incoming_ids env i"
  have valid: "valid_id r" if "r \<in> set ?ids" for r using that thread_ids_valid by (simp add: incoming_ids_def)
  have scope: "?scope = (in_provider i, in_account_id i, snd (snd ?scope))" by (simp add: incoming_scope_def)
  then have imap: "fst ?scope = lit ''imap'' \<longleftrightarrow> in_provider i = lit ''imap''" by (metis fst_conv)
  show ?thesis
    using capture_recorded [OF run]
  proof (elim disjE conjE exE)
    assume "outcome \<in> {Already_stored, Suppressed, Under_removal}" "st' = st"
    then show ?thesis using ok by (auto simp: capture_joins_def)
  next
    fix thread
    assume t: "thread_of env fresh ?scope (in_thread_id i) ?ids st = Inr thread"
    then have thread: "fst ?scope = lit ''imap'' \<Longrightarrow> thread = imap_thread_key fresh ?scope ?ids None st" by (simp add: thread_of_def)
    assume way: "case known_message env i st of
        Some l \<Rightarrow> outcome = Second_copy \<and> record_second_copy i now ?scope l thread ?ids st = Inr st'
      | None \<Rightarrow> outcome = Captured \<and> record_new_message i now ?scope thread (incoming_rfc env i) ?ids st = Inr (st', Captured)"
    show ?thesis
    proof (cases "known_message env i st")
      case None
      then have rec: "outcome = Captured" "record_new_message i now ?scope thread (incoming_rfc env i) ?ids st = Inr (st', Captured)"
        using way by simp_all
      show ?thesis
      proof (cases "fst ?scope = lit ''imap''")
        case True
        obtain key merged where k: "thread = (key, merged)" by (cases thread)
        have "imap_thread_key fresh ?scope ?ids None st = (key, merged)" using thread [OF True] k by simp
        from new_message_joins [OF ok u scope True this valid rec(2) [unfolded k]] show ?thesis
          using True rec(1) imap unfolding capture_joins_def by (auto simp: extends_single)
      next
        case False
        then show ?thesis using plain_message_keeps [OF ok scope False rec(2)] rec(1) imap by (simp add: capture_joins_def)
      qed
    next
      case (Some l)
      then have rec: "outcome = Second_copy" "record_second_copy i now ?scope l thread ?ids st = Inr st'" using way by simp_all
      obtain r where "logical_message_id st ?scope r (source_of i) = Some l"
        using Some by (auto simp: known_message_def bind_eq_Some_conv)
      note l = logical_account [OF ok this]
      from second_copy_joins [OF ok u l valid thread rec(2)] show ?thesis
        using rec(1) imap unfolding capture_joins_def by (auto simp: extends_single)
    qed
  qed
qed

section \<open>Histories\<close>

datatype capture_op =
    Add_message pystr instant incoming
  | Record_reconcile_headers pystr mail_scope header_metadata "location set" iso bool
  | Record_message_location mail_scope pystr "location set" "pystr list" "pystr list" bool bool instant
  | Clear_location_stamps mail_scope instant
  | Elsewhere capture_store

text \<open>
  A transaction of another component: accounts, removals, label grants, suppressions and the analysis
  of messages may change, the identity and thread of a message may not, and no location goes away.
\<close>

definition keeps_threads :: "capture_store \<Rightarrow> capture_store \<Rightarrow> bool" where
  "keeps_threads st st' \<longleftrightarrow> same_rows st st' \<and> cp_locations st' = cp_locations st"

fun capture_exec :: "pyenv \<Rightarrow> timeenv \<Rightarrow> capture_store \<Rightarrow> capture_op \<Rightarrow> err + capture_store" where
  "capture_exec env te st (Add_message fresh now i) = map_sum id fst (add_message env te fresh now i st)"
| "capture_exec env te st (Record_reconcile_headers fresh scope h locations at complete) =
     record_reconcile_headers fresh scope h locations at complete st"
| "capture_exec env te st (Record_message_location scope source locations to cc complete headers now) =
     map_sum id fst (record_message_location scope source locations to cc complete headers now st)"
| "capture_exec env te st (Clear_location_stamps scope now) = clear_location_stamps scope now st"
| "capture_exec env te st (Elsewhere st') = Inr (if keeps_threads st st' then st' else st)"

fun joins_of :: "pyenv \<Rightarrow> timeenv \<Rightarrow> capture_store \<Rightarrow> capture_op \<Rightarrow> thread_node set list" where
  "joins_of env te st (Add_message fresh now i) =
     (case insert_message_in_transaction env te fresh now i st of
        Inl _ \<Rightarrow> []
      | Inr (_, outcome) \<Rightarrow> capture_joins env i outcome)"
| "joins_of env te st (Record_reconcile_headers fresh scope h locations at complete) =
     (if is_ok (record_reconcile_headers fresh scope h locations at complete st) then header_joins scope h st else [])"
| "joins_of env te st _ = []"

fun fresh_key :: "capture_store \<Rightarrow> capture_op \<Rightarrow> bool" where
  "fresh_key st (Add_message fresh now i) = unused fresh st"
| "fresh_key st (Record_reconcile_headers fresh scope h locations at complete) = unused fresh st"
| "fresh_key st _ = True"

definition capture_run :: "pyenv \<Rightarrow> timeenv \<Rightarrow> capture_store \<Rightarrow> capture_op list \<Rightarrow> capture_store" where
  "capture_run env te = foldl (committed (capture_exec env te))"

fun history_joins :: "pyenv \<Rightarrow> timeenv \<Rightarrow> capture_store \<Rightarrow> capture_op list \<Rightarrow> thread_node set list" where
  "history_joins env te st [] = []"
| "history_joins env te st (op # ops) = joins_of env te st op @ history_joins env te (committed (capture_exec env te) st op) ops"

text \<open>Every new UUID is a key no row or id has.\<close>

fun fresh_keys :: "pyenv \<Rightarrow> timeenv \<Rightarrow> capture_store \<Rightarrow> capture_op list \<Rightarrow> bool" where
  "fresh_keys env te st [] = True"
| "fresh_keys env te st (op # ops) = (fresh_key st op \<and> fresh_keys env te (committed (capture_exec env te) st op) ops)"

definition no_messages :: "capture_store \<Rightarrow> bool" where
  "no_messages st \<longleftrightarrow> cp_messages st = [] \<and> cp_thread_ids st = [] \<and> cp_locations st = []"

lemma elsewhere_ok: "captures_ok st \<Longrightarrow> keeps_threads st st' \<Longrightarrow> captures_ok st' \<and> node_key st' = node_key st"
  using captures_ok_same [of st st'] same_rows_node(1) [of st st']
  by (auto simp: keeps_threads_def captures_ok_def list_all_iff)

lemma capture_step:
  assumes ok: "captures_ok st" and f: "fresh_key st op"
  shows "captures_ok (committed (capture_exec env te) st op)
    \<and> extends (node_key st) (joins_of env te st op) (node_key (committed (capture_exec env te) st op))"
proof (cases op)
  case (Add_message fresh now i)
  show ?thesis
  proof (cases "insert_message_in_transaction env te fresh now i st")
    case (Inr r)
    obtain st' outcome where r: "r = (st', outcome)" by (cases r)
    then have "committed (capture_exec env te) st op = st'" using Inr Add_message by (simp add: committed_def add_message_def)
    then show ?thesis using capture_step_ok [of st fresh env te now i st' outcome] ok f Add_message Inr r by simp
  qed (use ok Add_message in \<open>simp add: committed_def add_message_def\<close>)
next
  case (Record_reconcile_headers fresh scope h locations at complete)
  show ?thesis
  proof (cases "record_reconcile_headers fresh scope h locations at complete st")
    case (Inr st')
    then show ?thesis
      using headers_ok [OF ok _ Inr] f Record_reconcile_headers by (simp add: committed_def)
  qed (use ok Record_reconcile_headers in \<open>simp add: committed_def\<close>)
next
  case (Record_message_location scope source locations to cc complete headers now)
  show ?thesis
  proof (cases "record_message_location scope source locations to cc complete headers now st")
    case (Inr r)
    obtain st' n where r: "r = (st', n)" by (cases r)
    have same: "same_rows st st' \<and> captures_ok st'" by (rule record_message_location_ok [OF ok]) (use Inr r in simp)
    then show ?thesis using Record_message_location Inr r same_rows_node(1) [OF conjunct1 [OF same]] by (simp add: committed_def)
  qed (use ok Record_message_location in \<open>simp add: committed_def\<close>)
next
  case (Clear_location_stamps scope now)
  show ?thesis
  proof (cases "clear_location_stamps scope now st")
    case (Inr st')
    note same = clear_location_stamps_ok [OF ok Inr]
    then show ?thesis using Clear_location_stamps Inr same_rows_node(1) [OF conjunct1 [OF same]] by (simp add: committed_def)
  qed (use ok Clear_location_stamps in \<open>simp add: committed_def\<close>)
next
  case (Elsewhere st')
  then show ?thesis using ok elsewhere_ok [OF ok, of st'] by (simp add: committed_def)
qed

lemma run_labels:
  assumes "captures_ok st" and "labels (node_key st) J" and "fresh_keys env te st ops"
  shows "captures_ok (capture_run env te st ops) \<and> labels (node_key (capture_run env te st ops)) (J @ history_joins env te st ops)"
  using assms
proof (induction ops arbitrary: st J)
  case Nil
  then show ?case by (simp add: capture_run_def)
next
  case (Cons op ops)
  have f: "fresh_key st op" "fresh_keys env te (committed (capture_exec env te) st op) ops" using Cons.prems(3) by simp_all
  note step = capture_step [OF Cons.prems(1) f(1), of env te]
  from Cons.IH [OF conjunct1 [OF step] labels_extends [OF Cons.prems(2) conjunct2 [OF step]] f(2)]
  show ?case by (simp add: capture_run_def)
qed

lemma no_messages_ok:
  assumes "no_messages st"
  shows "captures_ok st" "labels (node_key st) []"
proof -
  have none: "node_key st x = None" for x
    using assms by (cases x) (simp_all add: no_messages_def id_row_def find_captured_def)
  then show "labels (node_key st) []" by (simp add: labels_def dom_def)
  show "captures_ok st"
    using assms none by (simp add: captures_ok_def no_messages_def unique_ids_def one_account_def)
qed

text \<open>
  C18: The threads of IMAP mail are the connected components of what messages say about each other.
  After any history of captures, header observations, location observations and cleared stamps on a
  store without messages, whatever other components did in between and whichever operations
  raised, the rows and message ids that carry a thread key are those some captured message or recorded
  header has joined, and two of them carry the same key exactly when a chain of such joins
  connects them. A merge therefore leaves no row behind under a key that was given up.
\<close>

theorem imap_threads_are_components:
  assumes "no_messages st" and "fresh_keys env te st ops"
  shows "(node_key (capture_run env te st ops) x \<noteq> None \<longleftrightarrow> x \<in> \<Union> (set (history_joins env te st ops)))
    \<and> (x \<in> \<Union> (set (history_joins env te st ops)) \<longrightarrow> y \<in> \<Union> (set (history_joins env te st ops)) \<longrightarrow>
        (node_key (capture_run env te st ops) x = node_key (capture_run env te st ops) y \<longleftrightarrow> connected (history_joins env te st ops) x y))"
proof -
  have "labels (node_key (capture_run env te st ops)) (history_joins env te st ops)"
    using run_labels [OF no_messages_ok [OF assms(1)] assms(2)] by simp
  then show ?thesis unfolding labels_def by blast
qed

text \<open>Two messages of an IMAP account, and a third that answers both.\<close>

definition sample_key :: pystr where
  "sample_key = replicate 64 97"

definition capture_time :: timeenv where
  "capture_time = \<lparr>fromisoformat = (\<lambda>s. Some (0, Some 0)), zone_offset = (\<lambda>z. Some (\<lambda>t. 0)), local_offset = (\<lambda>t. 0)\<rparr>"

definition sample_incoming :: "pystr \<Rightarrow> pystr \<Rightarrow> pystr list \<Rightarrow> incoming" where
  "sample_incoming i rfc replies =
     \<lparr>in_message_id = i, in_thread_id = None, in_sender = lit ''v@x.co'', in_sender_name = None, in_subject = lit ''s'',
      in_received_at = lit ''t'', in_provider = lit ''imap'', in_account_id = lit ''a'', in_provider_message_id = None,
      in_mailbox_identity_key = Some sample_key,
      in_admission = \<lparr>ad_kind = lit ''vendor_address'', ad_selector_id = lit ''vendor-address:'' @ sample_key, ad_display_name = None,
        ad_mailbox_identity_key = sample_key, ad_admitted_at = lit ''t''\<rparr>,
      in_rfc_message_id = Some rfc, in_reply_ids = replies, in_to = [], in_cc = [], in_locations = {Inbox},
      in_scope_complete = True, in_capture_timezone = None\<rparr>"

definition sample_capture_store :: capture_store where
  "sample_capture_store =
     \<lparr>cp_messages = [], cp_accounts = [\<lparr>ak_provider = lit ''imap'', ak_account_id = lit ''a'', ak_mailbox_identity_key = Some sample_key,
        ak_legacy_identity_key = None, ak_continuity_proven = False\<rparr>], cp_removal = None, cp_label_selectors = [], cp_label_sets = [],
      cp_suppressed = [], cp_recipients = [], cp_locations = [], cp_observations = [], cp_thread_ids = [], cp_aliases = [],
      cp_watermarks = [], cp_catchup = [], cp_header_gaps = [], cp_bodies = [], cp_body_unavailable = [], cp_returned_sources = [], cp_follows = []\<rparr>"

lemma utf8_ascii: "list_all (\<lambda>c. c < 128) s \<Longrightarrow> utf8_encode s = Some s"
  by (induction s) (simp_all add: utf8_char_def)

lemma sample_key_simps [simp]:
  "length sample_key = 64" "list_all P sample_key = P 97" "list_ex P sample_key = P 97" "sample_key \<noteq> []"
  by (simp_all add: sample_key_def list_all_iff list_ex_iff)

lemma ascii_bounded: "list_all (\<lambda>c. c < 128) s \<Longrightarrow> within_utf8_bytes s n \<longleftrightarrow> length s \<le> n"
  by (simp add: within_utf8_bytes_def utf8_size_def utf8_ascii)

lemma sample_admission:
  "validate_admission_provenance ascii_env capture_time (in_admission (sample_incoming i rfc replies)) sample_key = Inr ()"
  by (simp add: validate_admission_provenance_def sample_incoming_def admission_kind_of_def require_bounded_text_def selector_of_kind_def
      prefixed_digest_def require_mailbox_identity_key_def validate_utc_timestamp_def capture_time_def startswith_def
      ascii_bounded opt_all_iff is_hex_def has_control_character_def lit_def)

lemma new_message_captured:
  assumes "insert_message (new_row i now (snd (snd scope)) (fst thread) rfc) st = Inr (Some st1)" and "in_locations i \<noteq> {}"
  shows "\<exists>st'. record_new_message i now scope thread rfc ids st = Inr (st', Captured)"
proof -
  have "\<exists>st' n. record_locations l scope s L (Aware t) c True r st = Inr (st', n)" if "L \<noteq> {}" for l s L t c r st
    using that by (cases "observe t c True (List.find (is_source scope s) (cp_observations st))")
      (simp add: record_locations_def observed_time_def Let_def)
  then obtain st' n where "record_locations (in_message_id i) scope (source_of i) (in_locations i) (Aware now) (in_scope_complete i) True None
      (record_recipients (in_message_id i) (in_to i) (in_cc i) (apply_thread scope thread ids st1)) = Inr (st', n)"
    using assms(2) by blast
  then show ?thesis using assms(1) by (simp add: record_new_message_def)
qed

definition sample_first :: incoming where
  "sample_first = sample_incoming (lit ''1'') (lit ''<a@x>'') []"

lemma sample_captured:
  "\<exists>st. insert_message_in_transaction ascii_env capture_time (lit ''k1'') 1 sample_first sample_capture_store = Inr (st, Captured)"
proof -
  have keys: "message_source_key ascii_env (lit ''imap'') (lit ''a'') (lit ''1'') (Some sample_key)
      = Some (join_nul [lit ''imap'', lit ''a'', sample_key, lit ''1''])"
    by (simp add: message_source_key_def utf8_ascii utf8_char_def ascii_env_def lit_def)
  have rfc: "normalized ascii_env (Some (lit ''<a@x>'')) = Some (lit ''a@x'')" "normalized ascii_env (Some (lit ''a@x'')) = Some (lit ''a@x'')"
    by (simp_all add: normalized_def normalize_message_id_def MAX_MESSAGE_ID_CHARS_def ascii_simps)
  have sample: "in_mailbox_identity_key sample_first = Some sample_key" "in_provider sample_first = lit ''imap''"
    "in_account_id sample_first = lit ''a''" "source_of sample_first = lit ''1''" "in_message_id sample_first = lit ''1''"
    "in_rfc_message_id sample_first = Some (lit ''<a@x>'')" "in_reply_ids sample_first = []" "in_locations sample_first = {Inbox}"
    "ad_kind (in_admission sample_first) \<noteq> lit ''gmail_user_label''"
    by (simp_all add: sample_first_def sample_incoming_def source_of_def)
  have "\<exists>st1. insert_message (new_row sample_first 1 (snd (snd (lit ''imap'', lit ''a'', sample_key))) (fst thread) rfc) sample_capture_store = Inr (Some st1)"
    for thread :: "pystr \<times> pystr list" and rfc
    by (simp add: insert_message_def new_row_def sample sample_capture_store_def)
  then have new: "\<exists>st. record_new_message sample_first 1 (lit ''imap'', lit ''a'', sample_key) thread rfc ids sample_capture_store = Inr (st, Captured)"
    for thread rfc ids using new_message_captured sample(8) by blast
  have none: "cp_messages sample_capture_store = []" "cp_removal sample_capture_store = None" "cp_suppressed sample_capture_store = []"
    "find_account sample_capture_store (lit ''imap'') (lit ''a'') = Some (hd (cp_accounts sample_capture_store))"
    "hd (cp_accounts sample_capture_store) = \<lparr>ak_provider = lit ''imap'', ak_account_id = lit ''a'', ak_mailbox_identity_key = Some sample_key,
        ak_legacy_identity_key = None, ak_continuity_proven = False\<rparr>"
    by (simp_all add: sample_capture_store_def find_account_def)
  show ?thesis
    unfolding insert_message_in_transaction_def
    using sample_admission [of "lit ''1''" "lit ''<a@x>''" "[]", folded sample_first_def]
    by (simp add: Let_def sample keys rfc none record_source_available_def suppression_keys_def legacy_proven_def
        logical_message_id_def scope_rows_def opt_all_iff thread_of_def suppressed_def new)
qed

lemma sample_ids: "incoming_ids ascii_env sample_first = [lit ''a@x'']"
proof -
  have "normalized ascii_env (Some (lit ''<a@x>'')) = Some (lit ''a@x'')" "normalized ascii_env (Some (lit ''a@x'')) = Some (lit ''a@x'')"
    by (simp_all add: normalized_def normalize_message_id_def MAX_MESSAGE_ID_CHARS_def ascii_simps)
  then show ?thesis
    by (simp add: incoming_ids_def incoming_rfc_def thread_ids_of_def sample_first_def sample_incoming_def map_filter_simps distinct_values_def)
qed

definition sample_scope :: mail_scope where
  "sample_scope = (lit ''imap'', lit ''a'', sample_key)"

definition sample_ops :: "capture_op list" where
  "sample_ops = [Add_message (lit ''k1'') 1 sample_first]"

theorem imap_threads_are_components_witness:
  "no_messages sample_capture_store \<and> fresh_keys ascii_env capture_time sample_capture_store sample_ops
    \<and> history_joins ascii_env capture_time sample_capture_store sample_ops = [{Row (lit ''1''), Id sample_scope (lit ''a@x'')}]
    \<and> node_key (capture_run ascii_env capture_time sample_capture_store sample_ops) (Row (lit ''1'')) \<noteq> None
    \<and> node_key (capture_run ascii_env capture_time sample_capture_store sample_ops) (Row (lit ''1''))
        = node_key (capture_run ascii_env capture_time sample_capture_store sample_ops) (Id sample_scope (lit ''a@x''))"
proof -
  have start: "no_messages sample_capture_store" by (simp add: no_messages_def sample_capture_store_def)
  have "unused (lit ''k1'') sample_capture_store" using start by (simp add: unused_def no_messages_def)
  then have fresh: "fresh_keys ascii_env capture_time sample_capture_store sample_ops" by (simp add: sample_ops_def)
  obtain st where "insert_message_in_transaction ascii_env capture_time (lit ''k1'') 1 sample_first sample_capture_store = Inr (st, Captured)"
    using sample_captured by blast
  moreover have "in_provider sample_first = lit ''imap''" "in_message_id sample_first = lit ''1''" "incoming_scope sample_first = sample_scope"
    by (simp_all add: sample_first_def sample_incoming_def incoming_scope_def sample_scope_def)
  ultimately have J: "history_joins ascii_env capture_time sample_capture_store sample_ops = [{Row (lit ''1''), Id sample_scope (lit ''a@x'')}]"
    by (simp add: sample_ops_def capture_joins_def sample_ids)
  note threads = imap_threads_are_components [OF start fresh, unfolded J]
  have "connected [{Row (lit ''1''), Id sample_scope (lit ''a@x'')}] (Row (lit ''1'')) (Id sample_scope (lit ''a@x''))"
    by (rule connected_clique) auto
  moreover have "Row (lit ''1'') \<in> \<Union> (set [{Row (lit ''1''), Id sample_scope (lit ''a@x'')}])"
    "Id sample_scope (lit ''a@x'') \<in> \<Union> (set [{Row (lit ''1''), Id sample_scope (lit ''a@x'')}])" by simp_all
  ultimately show ?thesis using threads by (intro conjI start fresh J) blast+
qed

end
