(* ===== verification/Capture_Safety.thy ===== *)
theory Capture_Safety
  imports Capture_History
begin

text \<open>
  What holds of single captures and of the sources they record: the guards of a capture and the row it
  writes, that a recorded source is recognised from then on, and that the confirmation of a source
  does not depend on the order of its observations.
\<close>

section \<open>The row a capture writes\<close>

definition without_thread :: "capture_row \<Rightarrow> capture_row" where
  "without_thread m = m\<lparr>sr_thread_key := None\<rparr>"

lemma merge_keys_without_thread:
  "map without_thread (cp_messages (fold (merge_key scope key) olds st)) = map without_thread (cp_messages st)"
  by (induction olds arbitrary: st) (simp_all add: merge_key_def Let_def map_update_where without_thread_def)

lemma apply_thread_messages:
  "map without_thread (cp_messages (apply_thread scope thread ids st)) = map without_thread (cp_messages st)"
  "cp_locations (apply_thread scope thread ids st) = cp_locations st"
  by (simp_all add: apply_thread_def apply_imap_component_simps merge_keys_without_thread apply_component_locations)

lemma thread_key_not_merged: "thread_of env fresh scope thread_id ids st = Inr thread \<Longrightarrow> fst thread \<notin> set (snd thread)"
  by (auto simp: thread_of_def imap_thread_key_def Let_def res_splits split: if_splits list.splits)

lemma merge_keys_find:
  assumes "key \<notin> set olds" and "find_captured st i = Some m" and "sr_thread_key m = Some key"
  shows "find_captured (fold (merge_key scope key) olds st) i = Some m"
  using assms
proof (induction olds arbitrary: st)
  case (Cons old olds)
  have "find_captured (merge_key scope key old st) i = Some m"
    using Cons.prems by (auto simp: merge_key_def Let_def find_captured_def find_captured_update)
  then show ?case using Cons.IH [of "merge_key scope key old st"] Cons.prems by simp
qed simp

lemma new_message_row:
  assumes t: "fst thread \<notin> set (snd thread)"
    and rec: "record_new_message i now scope thread rfc ids st = Inr (st', Captured)"
  shows "find_captured st' (in_message_id i) = Some (new_row i now (snd (snd scope)) (fst thread) rfc)"
    "find_captured st (in_message_id i) = None"
    "map without_thread (cp_messages st') = map without_thread (cp_messages st @ [new_row i now (snd (snd scope)) (fst thread) rfc])"
proof -
  let ?m = "new_row i now (snd (snd scope)) (fst thread) rfc"
  obtain st1 n where ins: "insert_message ?m st = Inr (Some st1)"
    and loc: "record_locations (in_message_id i) scope (source_of i) (in_locations i) (Aware now) (in_scope_complete i) True None
      (record_recipients (in_message_id i) (in_to i) (in_cc i) (apply_thread scope thread ids st1)) = Inr (st', n)"
    using rec by (auto simp: record_new_message_def res_splits split: option.splits)
  have m: "mg_message_id ?m = Some (in_message_id i)" "sr_thread_key ?m = Some (fst thread)" by (simp_all add: new_row_def)
  have st1: "st1 = st\<lparr>cp_messages := cp_messages st @ [?m]\<rparr>" using ins by (auto simp: insert_message_def res_splits split: if_splits)
  have st': "cp_messages st' = cp_messages (apply_thread scope thread ids st1)"
    using record_locations_effect(1) [OF loc] by simp
  show none: "find_captured st (in_message_id i) = None"
    using ins m(1) by (auto simp: insert_message_def res_splits find_captured_def find_None_iff list_ex_iff split: if_splits)
  then have "find_captured st1 (in_message_id i) = Some ?m"
    using m(1) by (simp add: st1 find_captured_def find_append_rows)
  then have "find_captured (apply_thread scope thread ids st1) (in_message_id i) = Some ?m"
    using merge_keys_find [OF t _ m(2)] by (simp add: apply_thread_def find_captured_def apply_imap_component_simps)
  then show "find_captured st' (in_message_id i) = Some ?m" by (simp add: find_captured_def st')
  show "map without_thread (cp_messages st') = map without_thread (cp_messages st @ [?m])"
    unfolding st' apply_thread_messages(1) by (simp add: st1)
qed



section \<open>Recorded sources stay recorded\<close>

definition row_source :: "capture_row \<Rightarrow> mail_scope \<times> pystr" where
  "row_source m = ((mg_provider m, mg_account_id m, case mg_mailbox_identity_key m of Some k \<Rightarrow> k | None \<Rightarrow> []), mg_provider_message_id m)"

definition location_source :: "location_row \<Rightarrow> mail_scope \<times> pystr" where
  "location_source l = (lo_scope l, lo_provider_message_id l)"

definition recorded_sources :: "capture_store \<Rightarrow> (mail_scope \<times> pystr) set" where
  "recorded_sources st = row_source ` set (cp_messages st) \<union> location_source ` set (cp_locations st)"

lemma recorded_cases:
  assumes "x \<in> recorded_sources st"
  obtains (row) m where "m \<in> set (cp_messages st)" "x = row_source m"
    | (location) l where "l \<in> set (cp_locations st)" "x = location_source l"
  using assms unfolding recorded_sources_def by blast

lemma recorded_member:
  assumes ok: "captures_ok st" and s: "(scope, source) \<in> recorded_sources st"
  shows "stored_source_membership st scope source \<noteq> []"
  using s
proof (cases rule: recorded_cases)
  case (row m)
  then obtain k where "mg_mailbox_identity_key m = Some k" using ok by (auto simp: captures_ok_def list_all_iff row_ok_def)
  then have "m \<in> set (scope_rows st scope (\<lambda>m. mg_provider_message_id m = source))"
    using row by (auto simp: scope_rows_def row_source_def effective_identity_def)
  then show ?thesis by (auto simp: stored_source_membership_def)
next
  case (location l)
  then show ?thesis by (auto simp: stored_source_membership_def location_source_def filter_empty_conv)
qed

lemma row_sources_view: "map row_view rows' = map row_view rows \<Longrightarrow> map row_source rows' = map row_source rows"
proof -
  have "map row_source rows = map (\<lambda>(m, _). ((mg_provider m, mg_account_id m, case mg_mailbox_identity_key m of Some k \<Rightarrow> k | None \<Rightarrow> []),
      mg_provider_message_id m)) (map row_view rows)" for rows
    by (simp add: row_view_def row_source_def message_row.truncate_def)
  from this [of rows] this [of rows'] show "map row_view rows' = map row_view rows \<Longrightarrow> ?thesis" by simp
qed

lemma row_sources_without_thread: "map without_thread rows' = map without_thread rows \<Longrightarrow> map row_source rows' = map row_source rows"
proof -
  have "map row_source rows = map row_source (map without_thread rows)" for rows
    by (simp add: row_source_def without_thread_def)
  from this [of rows] this [of rows'] show "map without_thread rows' = map without_thread rows \<Longrightarrow> ?thesis" by simp
qed

lemma recorded_mono:
  assumes "set (map row_source (cp_messages st)) \<subseteq> set (map row_source (cp_messages st'))"
    and "location_source ` set (cp_locations st) \<subseteq> location_source ` set (cp_locations st')"
  shows "recorded_sources st \<subseteq> recorded_sources st'"
  using assms by (auto simp: recorded_sources_def)

lemma put_locations_mono: "set rows \<subseteq> set (fold put_location new rows)"
proof (induction new arbitrary: rows)
  case (Cons a new)
  have "set rows \<subseteq> set (put_location a rows)" by (auto simp: put_location_def)
  then show ?case using Cons.IH [of "put_location a rows"] by simp
qed simp

lemma put_location_source: "location_source l \<in> location_source ` set (put_location l rows)"
proof (cases "\<exists>r\<in>set rows. lo_scope r = lo_scope l \<and> lo_provider_message_id r = lo_provider_message_id l \<and> lo_location r = lo_location l")
  case True
  then obtain r where "r \<in> set rows" "location_source l = location_source r" by (auto simp: location_source_def)
  moreover have "set rows \<subseteq> set (put_location l rows)" by (auto simp: put_location_def)
  ultimately show ?thesis by blast
next
  case False
  then have "put_location l rows = rows @ [l]" unfolding put_location_def list_ex_iff by argo
  then show ?thesis by simp
qed

lemma put_locations_source:
  "l \<in> set new \<Longrightarrow> location_source l \<in> location_source ` set (fold put_location new rows)"
proof (induction new arbitrary: rows)
  case (Cons a new)
  show ?case
  proof (cases "l = a")
    case True
    then show ?thesis using put_location_source [of a rows] put_locations_mono [of "put_location a rows" new] by auto
  qed (use Cons in simp)
qed simp

lemma stamp_sources: "location_source ` set (stamp_rows scope source recorded received rows) = location_source ` set rows"
proof -
  have "map location_source (stamp_rows scope source recorded received rows) = map location_source rows"
    unfolding stamp_rows_def by (rule map_update_where) (simp add: location_source_def)
  then show ?thesis by (metis set_map)
qed

lemma record_locations_sources:
  assumes "record_locations i scope source locations at complete headers received st = Inr (st', n)"
  shows "recorded_sources st \<subseteq> recorded_sources st'" "locations \<noteq> {} \<Longrightarrow> (scope, source) \<in> recorded_sources st'"
proof -
  obtain recorded where rows: "cp_locations st' = stamp_rows scope source recorded received
      (located_rows i scope source locations recorded received (cp_locations st))" by (rule record_locations_located [OF assms])
  have "location_source ` set (cp_locations st) \<subseteq> location_source ` set (cp_locations st')"
    unfolding rows stamp_sources located_rows_def by (rule image_mono) (rule put_locations_mono)
  then show "recorded_sources st \<subseteq> recorded_sources st'" by (intro recorded_mono) (simp_all add: record_locations_rows(1) [OF assms])
  assume "locations \<noteq> {}"
  then obtain l where "l \<in> locations" by blast
  then have l: "l \<in> set (filter (\<lambda>l. l \<in> locations) [Inbox, Sent])" by (cases l) simp_all
  let ?row = "\<lambda>l. \<lparr>lo_message_id = i, lo_scope = scope, lo_provider_message_id = source, lo_location = l,
                  lo_recorded_at = recorded, lo_received_at = received\<rparr>"
  have "location_source (?row l) \<in> location_source ` set (fold put_location (map ?row (filter (\<lambda>l. l \<in> locations) [Inbox, Sent])) (cp_locations st))"
    by (rule put_locations_source) (use l in auto)
  then show "(scope, source) \<in> recorded_sources st'"
    unfolding recorded_sources_def rows stamp_sources located_rows_def by (simp add: location_source_def)
qed

lemma recipients_sources [simp]: "recorded_sources (record_recipients i to cc st) = recorded_sources st"
  by (simp add: recorded_sources_def)

lemma requeue_sources [simp]: "recorded_sources (requeue_row i st) = recorded_sources st"
proof -
  have "map row_source (cp_messages (requeue_row i st)) = map row_source (cp_messages st)"
    unfolding requeue_row_def update_captured_def by (simp add: map_update_where row_source_def)
  moreover have "cp_locations (requeue_row i st) = cp_locations st" by (simp add: requeue_row_def update_captured_def)
  ultimately show ?thesis unfolding recorded_sources_def by (metis set_map)
qed

lemma apply_component_sources: "recorded_sources (apply_imap_component scope key merged ids st) = recorded_sources st"
proof -
  have "map row_source (cp_messages (apply_imap_component scope key merged ids st)) = map row_source (cp_messages st)"
    by (rule row_sources_without_thread) (simp add: apply_imap_component_simps merge_keys_without_thread)
  then show ?thesis unfolding recorded_sources_def apply_component_locations by (metis set_map)
qed

lemma thread_sources_kept [simp]:
  "recorded_sources (apply_thread scope thread ids st) = recorded_sources st"
  "recorded_sources (join_headers fresh scope l h st) = recorded_sources st"
proof -
  show "recorded_sources (apply_thread scope thread ids st) = recorded_sources st"
    by (simp add: apply_thread_def apply_component_sources)
  have gaps: "recorded_sources (st\<lparr>cp_header_gaps := g\<rparr>) = recorded_sources st" for st g by (simp add: recorded_sources_def)
  show "recorded_sources (join_headers fresh scope l h st) = recorded_sources st"
    by (simp add: join_headers_def Let_def case_prod_beta gaps apply_component_sources)
qed

section \<open>Every step keeps the recorded sources\<close>

lemma copy_sources:
  assumes ok: "captures_ok st" and l: "node_account st (Row l) = Some (account_of scope)"
    and rec: "record_second_copy i now scope l thread ids st = Inr st'"
  shows "recorded_sources st \<subseteq> recorded_sources st'" "in_locations i \<noteq> {} \<Longrightarrow> (scope, source_of i) \<in> recorded_sources st'"
proof -
  obtain st1 n st2 where st1: "record_locations l scope (source_of i) (in_locations i) (Aware now) (in_scope_complete i) True
      (Some (in_received_at i)) st = Inr (st1, n)"
    and st2: "requeue_if_skipped l (record_recipients l (in_to i) (in_cc i) st1) = Inr st2"
    and st': "st' = apply_thread scope thread ids st2"
    using rec by (auto simp: record_second_copy_def res_splits)
  have "captures_ok (record_recipients l (in_to i) (in_cc i) st1)" using located_ok [OF ok l st1] recipients_ok by blast
  then have "recorded_sources st' = recorded_sources st1" using st2 requeue_if_skipped_ok by (auto simp: st')
  then show "recorded_sources st \<subseteq> recorded_sources st'" "in_locations i \<noteq> {} \<Longrightarrow> (scope, source_of i) \<in> recorded_sources st'"
    using record_locations_sources [OF st1] by simp_all
qed

lemma new_sources:
  assumes "record_new_message i now scope thread rfc ids st = Inr (st', Captured)"
  shows "recorded_sources st \<subseteq> recorded_sources st'" "in_locations i \<noteq> {} \<Longrightarrow> (scope, source_of i) \<in> recorded_sources st'"
proof -
  obtain st1 n where ins: "insert_message (new_row i now (snd (snd scope)) (fst thread) rfc) st = Inr (Some st1)"
    and loc: "record_locations (in_message_id i) scope (source_of i) (in_locations i) (Aware now) (in_scope_complete i) True None
      (record_recipients (in_message_id i) (in_to i) (in_cc i) (apply_thread scope thread ids st1)) = Inr (st', n)"
    using assms by (auto simp: record_new_message_def res_splits split: option.splits)
  have "recorded_sources st \<subseteq> recorded_sources st1"
    using ins by (auto simp: insert_message_def res_splits recorded_sources_def split: if_splits)
  then show "recorded_sources st \<subseteq> recorded_sources st'" "in_locations i \<noteq> {} \<Longrightarrow> (scope, source_of i) \<in> recorded_sources st'"
    using record_locations_sources [OF loc] by auto
qed

lemma capture_sources:
  assumes ok: "captures_ok st" and run: "insert_message_in_transaction env te fresh now i st = Inr (st', outcome)"
  shows "recorded_sources st \<subseteq> recorded_sources st'"
    "outcome \<in> {Captured, Second_copy} \<Longrightarrow> (incoming_scope i, source_of i) \<in> recorded_sources st'"
proof -
  have "recorded_sources st \<subseteq> recorded_sources st' \<and> (outcome \<in> {Captured, Second_copy} \<longrightarrow> (incoming_scope i, source_of i) \<in> recorded_sources st')"
    using capture_recorded [OF run]
  proof (elim disjE conjE exE)
    fix thread
    assume "capture_allowed env te i st"
    then have at: "in_locations i \<noteq> {}" unfolding capture_allowed_def by blast
    assume way: "case known_message env i st of
        Some l \<Rightarrow> outcome = Second_copy \<and> record_second_copy i now (incoming_scope i) l thread (incoming_ids env i) st = Inr st'
      | None \<Rightarrow> outcome = Captured
          \<and> record_new_message i now (incoming_scope i) thread (incoming_rfc env i) (incoming_ids env i) st = Inr (st', Captured)"
    show ?thesis
    proof (cases "known_message env i st")
      case None
      then have "record_new_message i now (incoming_scope i) thread (incoming_rfc env i) (incoming_ids env i) st = Inr (st', Captured)"
        using way by simp
      from new_sources [OF this] at show ?thesis by blast
    next
      case (Some l)
      then obtain r where "logical_message_id st (incoming_scope i) r (source_of i) = Some l"
        by (auto simp: known_message_def bind_eq_Some_conv)
      note l = logical_account [OF ok this]
      have "record_second_copy i now (incoming_scope i) l thread (incoming_ids env i) st = Inr st'" using way Some by simp
      from copy_sources [OF ok l this] at show ?thesis by blast
    qed
  qed auto
  then show "recorded_sources st \<subseteq> recorded_sources st'"
    "outcome \<in> {Captured, Second_copy} \<Longrightarrow> (incoming_scope i, source_of i) \<in> recorded_sources st'" by blast+
qed

lemma headers_sources:
  assumes ok: "captures_ok st" and u: "unused fresh st" and rec: "record_reconcile_headers fresh scope h locations at complete st = Inr st'"
  shows "recorded_sources st \<subseteq> recorded_sources st'"
proof (cases "stored_source_membership st scope (hm_message_id h)")
  case (Cons l rest)
  have l: "node_account st (Row l) = Some (account_of scope)"
    by (rule membership_account [OF ok, of l scope "hm_message_id h"]) (simp add: Cons)
  show ?thesis
  proof (cases "record_message_available st l")
    case True
    then obtain st1 n where st1: "record_locations l scope (hm_message_id h) locations at complete True (Some (hm_received_at h)) st = Inr (st1, n)"
      and q: "requeue_if_skipped l (join_headers fresh scope l h (record_recipients l (hm_to h) (hm_cc h) st1)) = Inr st'"
      using rec Cons by (auto simp: record_reconcile_headers_def res_splits)
    let ?st2 = "record_recipients l (hm_to h) (hm_cc h) st1"
    have 1: "same_rows st st1 \<and> captures_ok st1" by (rule located_ok [OF ok l st1])
    have 2: "same_rows st1 ?st2 \<and> captures_ok ?st2" using recipients_ok 1 by blast
    have same: "same_rows st ?st2" using 1 2 same_rows_trans by blast
    have "captures_ok (join_headers fresh scope l h ?st2)"
      by (rule conjunct1 [OF join_headers_ok]) (use 2 u unused_same [OF same] l same_rows_node(2) [OF same] in simp_all)
    then have "recorded_sources st' = recorded_sources st1" using q requeue_if_skipped_ok by auto
    then show ?thesis using record_locations_sources(1) [OF st1] by simp
  qed (use assms Cons in \<open>simp add: record_reconcile_headers_def\<close>)
qed (use assms in \<open>simp add: record_reconcile_headers_def\<close>)

lemma location_sources_kept:
  assumes ok: "captures_ok st" and rec: "record_message_location scope source locations to cc complete headers now st = Inr (st', n)"
  shows "recorded_sources st \<subseteq> recorded_sources st'"
proof (cases "stored_source_membership st scope source")
  case (Cons l rest)
  have l: "node_account st (Row l) = Some (account_of scope)"
    by (rule membership_account [OF ok, of l scope source]) (simp add: Cons)
  show ?thesis
  proof (cases "record_message_available st l")
    case True
    then obtain st1 st2 where st1: "record_locations l scope source locations (Aware now) complete headers None st = Inr (st1, n)"
      and st2: "st2 = (if headers then record_recipients l to cc st1 else st1)"
      and q: "(if locations = {} then Inr else requeue_if_skipped l) st2 = Inr st'"
      using rec Cons by (auto simp: record_message_location_def res_splits)
    have "captures_ok st2" using located_ok [OF ok l st1] recipients_ok [of st1 l to cc] by (simp add: st2)
    then have "recorded_sources st' = recorded_sources st1" using q requeue_if_skipped_ok by (auto simp: st2 split: if_splits)
    then show ?thesis using record_locations_sources(1) [OF st1] by simp
  qed (use rec Cons in \<open>simp add: record_message_location_def\<close>)
qed (use rec in \<open>simp add: record_message_location_def\<close>)

lemma clear_stamps_sources: "clear_stamps scope now rows st = Inr st' \<Longrightarrow> recorded_sources st \<subseteq> recorded_sources st'"
proof (induction scope now rows st rule: clear_stamps.induct)
  case (2 scope now message_id source rows st)
  then obtain st1 n where st1: "record_locations message_id scope source {} (Aware now) False False None st = Inr (st1, n)"
    and rest: "clear_stamps scope now rows st1 = Inr st'" by (auto simp: res_splits)
  show ?case using record_locations_sources(1) [OF st1] "2.IH" [OF rest] by blast
qed simp

lemma elsewhere_sources: "keeps_threads st st' \<Longrightarrow> recorded_sources st' = recorded_sources st"
proof -
  assume k: "keeps_threads st st'"
  have "map row_source (cp_messages st') = map row_source (cp_messages st)"
    by (rule row_sources_view) (use k in \<open>simp add: keeps_threads_def same_rows_def\<close>)
  then have "row_source ` set (cp_messages st') = row_source ` set (cp_messages st)" by (metis set_map)
  then show ?thesis using k by (simp add: recorded_sources_def keeps_threads_def)
qed

lemma step_sources:
  assumes ok: "captures_ok st" and f: "fresh_key st op"
  shows "recorded_sources st \<subseteq> recorded_sources (committed (capture_exec env te) st op)"
proof (cases "capture_exec env te st op")
  case (Inr st')
  have "recorded_sources st \<subseteq> recorded_sources st'"
  proof (cases op)
    case (Add_message fresh now i)
    then obtain outcome where "insert_message_in_transaction env te fresh now i st = Inr (st', outcome)"
      using Inr by (auto simp: map_sum_fst_Inr add_message_def res_splits)
    then show ?thesis using capture_sources(1) [OF ok] by blast
  next
    case (Record_reconcile_headers fresh scope h locations at complete)
    then show ?thesis using headers_sources [OF ok] f Inr by simp
  next
    case (Record_message_location scope source locations to cc complete headers now)
    then obtain n where "record_message_location scope source locations to cc complete headers now st = Inr (st', n)"
      using Inr by (auto simp: map_sum_fst_Inr)
    then show ?thesis by (rule location_sources_kept [OF ok])
  next
    case (Clear_location_stamps scope now)
    then show ?thesis using clear_stamps_sources Inr by (auto simp: clear_location_stamps_def)
  next
    case (Elsewhere st'')
    then show ?thesis using elsewhere_sources Inr by (auto split: if_splits)
  qed
  then show ?thesis using Inr by (simp add: committed_def)
qed (simp add: committed_def)

lemma run_sources:
  assumes "captures_ok st" and "fresh_keys env te st ops"
  shows "recorded_sources st \<subseteq> recorded_sources (capture_run env te st ops) \<and> captures_ok (capture_run env te st ops)"
  using assms
proof (induction ops arbitrary: st)
  case Nil
  then show ?case by (simp add: capture_run_def)
next
  case (Cons op ops)
  have f: "fresh_key st op" "fresh_keys env te (committed (capture_exec env te) st op) ops" using Cons.prems(2) by simp_all
  note step = step_sources [OF Cons.prems(1) f(1), of env te] conjunct1 [OF capture_step [OF Cons.prems(1) f(1), of env te]]
  from step(1) Cons.IH [OF step(2) f(2)] show ?case by (auto simp: capture_run_def)
qed

section \<open>Recorded sources are recognised\<close>

lemma utf8_append_None: "utf8_encode (s @ t) = None \<longleftrightarrow> utf8_encode s = None \<or> utf8_encode t = None"
  by (induction s) (auto split: option.splits)

lemma utf8_join_nul: "utf8_encode (join_nul xs) = None \<longleftrightarrow> (\<exists>x\<in>set xs. utf8_encode x = None)"
proof (induction xs rule: join_nul.induct)
  case (3 x y ys)
  have "utf8_encode (0 # s) = None \<longleftrightarrow> utf8_encode s = None" for s by (simp add: utf8_char_def split: option.splits)
  then show ?case using 3 by (simp add: utf8_append_None)
qed simp_all

lemma recorded_seen:
  assumes ok: "captures_ok st" and s: "((provider, account_id, key), source) \<in> recorded_sources st"
    and k: "message_source_key env provider account_id source (Some key) \<noteq> None" and id: "identity \<in> {None, Some key}"
  shows "has_seen_message env source provider account_id identity st = Inr True"
proof -
  have parts: "utf8_encode x \<noteq> None" if "x \<in> {provider, account_id, key, source}" for x
    using k that utf8_join_nul [of "[provider, account_id, key, source]"] by (auto simp: message_source_key_def simp del: join_nul.simps)
  then have "utf8_encode (join_nul [provider, account_id, source]) \<noteq> None" "utf8_encode source \<noteq> None"
    unfolding utf8_join_nul by auto
  then obtain a b c where keys: "message_source_key env provider account_id source (Some key) = Some a"
      "message_source_key env provider account_id source None = Some b" "legacy_message_suppression_key env source = Some c"
    using k by (auto simp: message_source_key_def legacy_message_suppression_key_def simp del: join_nul.simps)
  consider (none) "identity = None" | (key) "identity = Some key" using id by blast
  then show ?thesis
  proof cases
    case none
    have "list_ex (\<lambda>m. mg_provider m = provider \<and> mg_account_id m = account_id \<and> mg_provider_message_id m = source) (cp_messages st)
        \<or> list_ex (\<lambda>l. fst (lo_scope l) = provider \<and> fst (snd (lo_scope l)) = account_id \<and> lo_provider_message_id l = source) (cp_locations st)"
      using s
    proof (cases rule: recorded_cases)
      case (location l)
      then have "lo_scope l = (provider, account_id, key)" "lo_provider_message_id l = source" by (simp_all add: location_source_def)
      then show ?thesis using location(1) unfolding list_ex_iff by (intro disjI2 bexI [of _ l]) simp_all
    qed (auto simp: row_source_def list_ex_iff)
    then show ?thesis using none keys by (auto simp: has_seen_message_def)
  next
    case key
    then show ?thesis using keys recorded_member [OF ok s] by (simp add: has_seen_message_def)
  qed
qed



end
