(* ===== verification/Capture_Sightings.thy ===== *)
theory Capture_Sightings
  imports Capture_Proofs Interfaces
begin

text \<open>
  The confirmation of a source. Every sighting of a source in the mailbox merges into one observation,
  whose newest complete folder state stamps the source's locations; the result is that of a
  reference definition over the set of sightings, so their order and their repetitions do not matter.
\<close>

definition confirmation :: "(instant \<times> bool \<times> bool) list \<Rightarrow> instant option \<times> instant \<times> bool" where
  "confirmation seen =
     (let newest = Max (fst ` set seen); headers = fst ` {x \<in> set seen. snd (snd x)} in
      (if headers = {} then None else Some (Max headers), newest, \<forall>x\<in>set seen. fst x = newest \<longrightarrow> fst (snd x)))"

lemma Max_snoc: "S \<noteq> {} \<Longrightarrow> finite S \<Longrightarrow> Max (insert (x :: instant) S) = (if x < Max S then Max S else x)"
  by (simp add: Max_insert max_def)

lemma newest_header:
  "finite H \<Longrightarrow> (if (if headers then insert at H else H) = {} then None else Some (Max (if headers then insert at H else H)))
     = (case if H = {} then None else Some (Max H) of None \<Rightarrow> if headers then Some (at :: instant) else None
        | Some h \<Rightarrow> if (if headers then Some at else None) = None \<or> at < h then Some h else (if headers then Some at else None))"
  using Max_snoc [of H at] by (cases "H = {}") auto

lemma confirmation_single: "confirmation [(at, complete, headers)] = (if headers then Some at else None, at, complete)"
proof -
  have "{x. x = (at, complete, headers) \<and> snd (snd x)} = (if headers then {(at, complete, headers)} else {})" by auto
  then show ?thesis by (simp add: confirmation_def)
qed

lemma confirmation_snoc:
  assumes "seen \<noteq> []"
  shows "confirmation (seen @ [(at, complete, headers)]) = merge_observation at complete headers (confirmation seen)"
proof -
  let ?S = "fst ` set seen" and ?H = "fst ` {x \<in> set seen. snd (snd x)}" and ?x = "(at, complete, headers)"
  have times: "fst ` set (seen @ [?x]) = insert at ?S" by auto
  have "{x \<in> set (seen @ [?x]). snd (snd x)} = (if headers then insert ?x {x \<in> set seen. snd (snd x)} else {x \<in> set seen. snd (snd x)})" by auto
  then have heads: "fst ` {x \<in> set (seen @ [?x]). snd (snd x)} = (if headers then insert at ?H else ?H)" by simp
  have fin: "?S \<noteq> {}" "finite ?S" "finite ?H" using assms by simp_all
  have newest: "Max (insert at ?S) = (if at < Max ?S then Max ?S else at)" by (rule Max_snoc) (use fin in simp_all)
  have le: "fst x \<le> Max ?S" if "x \<in> set seen" for x using that by simp
  have settled: "(\<forall>x\<in>set (seen @ [?x]). fst x = (if at < Max ?S then Max ?S else at) \<longrightarrow> fst (snd x)) \<longleftrightarrow>
      (if at < Max ?S then \<forall>x\<in>set seen. fst x = Max ?S \<longrightarrow> fst (snd x)
       else if Max ?S = at then complete \<and> (\<forall>x\<in>set seen. fst x = Max ?S \<longrightarrow> fst (snd x)) else complete)"
  proof (cases at "Max ?S" rule: linorder_cases)
    case greater
    then have "fst x \<noteq> at" if "x \<in> set seen" for x using le [OF that] by simp
    then show ?thesis using greater by auto
  qed auto
  show ?thesis
    unfolding confirmation_def merge_observation_def Let_def times heads newest settled newest_header [OF fin(3)] by simp
qed

section \<open>Sightings\<close>

record sighting =
  sg_message_id :: pystr
  sg_scope :: mail_scope
  sg_source :: pystr
  sg_locations :: "location set"
  sg_at :: instant
  sg_complete :: bool
  sg_headers :: bool
  sg_received_at :: "pystr option"

definition sight :: "capture_store \<Rightarrow> sighting \<Rightarrow> err + capture_store" where
  "sight st s = map_sum id fst (record_locations (sg_message_id s) (sg_scope s) (sg_source s) (sg_locations s) (Aware (sg_at s))
     (sg_complete s) (sg_headers s) (sg_received_at s) st)"

definition sightings_of :: "mail_scope \<Rightarrow> pystr \<Rightarrow> sighting list \<Rightarrow> (instant \<times> bool \<times> bool) list" where
  "sightings_of scope source ss = map (\<lambda>s. (sg_at s, sg_complete s, sg_headers s))
     (filter (\<lambda>s. sg_scope s = scope \<and> sg_source s = source \<and> (sg_headers s \<longrightarrow> sg_locations s \<noteq> {})) ss)"

definition stamp_of :: "instant option \<times> instant \<times> bool \<Rightarrow> instant option" where
  "stamp_of = (\<lambda>(header_at, folder_at, complete). if complete \<and> header_at \<noteq> None then Some folder_at else None)"

lemma find_update_hit: "P a \<Longrightarrow> List.find P (update_where P (\<lambda>_. a) rows) = (if list_ex P rows then Some a else None)"
  by (induction rows) (auto simp: table_simps)

lemma find_update_miss: "(\<And>r. Q r \<Longrightarrow> \<not> P r) \<Longrightarrow> \<not> P a \<Longrightarrow> List.find P (update_where Q (\<lambda>_. a) rows) = List.find P rows"
  by (induction rows) (auto simp: table_simps)

lemma find_put_observation:
  "List.find (is_source scope source) (put_observation o' rows)
     = (if is_source scope source o' then Some o' else List.find (is_source scope source) rows)"
proof (cases "is_source scope source o'")
  case True
  then have "is_source (so_scope o') (so_provider_message_id o') = is_source scope source" by (auto simp: is_source_def fun_eq_iff)
  then show ?thesis
  proof (cases "list_ex (is_source scope source) rows")
    case False
    then have "List.find (is_source scope source) rows = None" by (simp add: find_None_iff list_ex_iff)
    then show ?thesis using \<open>is_source scope source o'\<close> \<open>_ = is_source scope source\<close> False by (simp add: put_observation_def find_append_rows)
  qed (use True find_update_hit [of "is_source scope source" o' rows] in \<open>simp add: put_observation_def\<close>)
next
  case False
  then have "\<not> is_source scope source r" if "is_source (so_scope o') (so_provider_message_id o') r" for r
    using that by (auto simp: is_source_def)
  from find_update_miss [of "is_source (so_scope o') (so_provider_message_id o')" "is_source scope source", OF this False] show ?thesis
    using False by (auto simp: put_observation_def find_append_rows split: option.splits)
qed

lemma stamp_rows_stamped:
  assumes "l \<in> set (stamp_rows scope source recorded received rows)" and "lo_scope l = scope" "lo_provider_message_id l = source"
  shows "lo_recorded_at l = recorded"
proof -
  let ?P = "\<lambda>l. lo_scope l = scope \<and> lo_provider_message_id l = source"
  obtain r where "l = (if ?P r then r\<lparr>lo_recorded_at := recorded,
      lo_received_at := (case received of None \<Rightarrow> lo_received_at r | Some t \<Rightarrow> Some t)\<rparr> else r)"
    using assms(1) unfolding stamp_rows_def set_update_where by blast
  then show ?thesis using assms(2,3) by (cases "?P r") simp_all
qed

lemma sight_source:
  assumes "sight st s = Inr st'" and "sg_scope s = scope" "sg_source s = source"
  shows "sg_headers s \<longrightarrow> sg_locations s \<noteq> {}"
    "\<exists>o'. List.find (is_source scope source) (cp_observations st') = Some o'
      \<and> (so_headers_at o', so_folder_at o', so_complete o')
        = observe (sg_at s) (sg_complete s) (sg_headers s) (List.find (is_source scope source) (cp_observations st))
      \<and> (\<forall>l\<in>set (cp_locations st'). lo_scope l = scope \<longrightarrow> lo_provider_message_id l = source \<longrightarrow>
          lo_recorded_at l = stamp_of (so_headers_at o', so_folder_at o', so_complete o'))"
proof -
  obtain n where "record_locations (sg_message_id s) scope source (sg_locations s) (Aware (sg_at s)) (sg_complete s) (sg_headers s)
      (sg_received_at s) st = Inr (st', n)"
    using assms by (auto simp: sight_def map_sum_fst_Inr)
  from record_locations_rows(3) [OF this] obtain t h f c recorded where t: "observed_time (Aware (sg_at s)) = Inr t"
    and r: "\<not> sg_headers s \<or> sg_locations s \<noteq> {}" "observe t (sg_complete s) (sg_headers s) (List.find (is_source scope source) (cp_observations st)) = (h, f, c)"
      "recorded = (if c \<and> h \<noteq> None then Some f else None)"
      "cp_observations st' = put_observation \<lparr>so_message_id = sg_message_id s, so_scope = scope, so_provider_message_id = source,
            so_headers_at = h, so_folder_at = f, so_complete = c\<rparr> (cp_observations st)"
      "cp_locations st' = stamp_rows scope source recorded (sg_received_at s)
        (located_rows (sg_message_id s) scope source (sg_locations s) recorded (sg_received_at s) (cp_locations st))"
    by (elim exE conjE) (rule that)
  have t: "t = sg_at s" using t by (simp add: observed_time_def)
  show "sg_headers s \<longrightarrow> sg_locations s \<noteq> {}" using r(1) by blast
  have "lo_recorded_at l = recorded" if "l \<in> set (cp_locations st')" "lo_scope l = scope" "lo_provider_message_id l = source" for l
    using that stamp_rows_stamped unfolding r(5) by blast
  then show "\<exists>o'. List.find (is_source scope source) (cp_observations st') = Some o'
      \<and> (so_headers_at o', so_folder_at o', so_complete o')
        = observe (sg_at s) (sg_complete s) (sg_headers s) (List.find (is_source scope source) (cp_observations st))
      \<and> (\<forall>l\<in>set (cp_locations st'). lo_scope l = scope \<longrightarrow> lo_provider_message_id l = source \<longrightarrow>
          lo_recorded_at l = stamp_of (so_headers_at o', so_folder_at o', so_complete o'))"
    unfolding r(4) find_put_observation by (auto simp: is_source_def r(2) [unfolded t] r(3) stamp_of_def)
qed

lemma sight_other:
  assumes "sight st s = Inr st'" and other: "(sg_scope s, sg_source s) \<noteq> (scope, source)"
  shows "List.find (is_source scope source) (cp_observations st') = List.find (is_source scope source) (cp_observations st)"
    "\<And>l. l \<in> set (cp_locations st') \<Longrightarrow> lo_scope l = scope \<Longrightarrow> lo_provider_message_id l = source \<Longrightarrow> l \<in> set (cp_locations st)"
proof -
  obtain n where "record_locations (sg_message_id s) (sg_scope s) (sg_source s) (sg_locations s) (Aware (sg_at s)) (sg_complete s) (sg_headers s)
      (sg_received_at s) st = Inr (st', n)"
    using assms(1) by (auto simp: sight_def map_sum_fst_Inr)
  from record_locations_rows(3) [OF this] obtain h f c recorded where r:
      "cp_observations st' = put_observation \<lparr>so_message_id = sg_message_id s, so_scope = sg_scope s, so_provider_message_id = sg_source s,
            so_headers_at = h, so_folder_at = f, so_complete = c\<rparr> (cp_observations st)"
      "cp_locations st' = stamp_rows (sg_scope s) (sg_source s) recorded (sg_received_at s)
        (located_rows (sg_message_id s) (sg_scope s) (sg_source s) (sg_locations s) recorded (sg_received_at s) (cp_locations st))"
    by (elim exE conjE) (rule that)
  show "List.find (is_source scope source) (cp_observations st') = List.find (is_source scope source) (cp_observations st)"
    unfolding r(1) find_put_observation using other by (auto simp: is_source_def)
  fix l assume l: "l \<in> set (cp_locations st')" "lo_scope l = scope" "lo_provider_message_id l = source"
  then have "l \<in> set (located_rows (sg_message_id s) (sg_scope s) (sg_source s) (sg_locations s) recorded (sg_received_at s) (cp_locations st))"
    using other unfolding r(2) stamp_rows_def set_update_where by auto
  then show "l \<in> set (cp_locations st)" unfolding located_rows_def using other l(2,3) by (auto dest!: put_locations_mem)
qed

lemma sight_ok: "is_ok (sight st s) \<longleftrightarrow> (sg_headers s \<longrightarrow> sg_locations s \<noteq> {})"
  by (cases "observe (sg_at s) (sg_complete s) (sg_headers s) (List.find (is_source (sg_scope s) (sg_source s)) (cp_observations st))")
    (auto simp: sight_def record_locations_def observed_time_def andThen_def require_def Let_def)

lemma sightings_summary:
  assumes unseen: "List.find (is_source scope source) (cp_observations st) = None"
  shows "case List.find (is_source scope source) (cp_observations (foldl (committed sight) st ss)) of
      None \<Rightarrow> sightings_of scope source ss = []
    | Some o' \<Rightarrow> sightings_of scope source ss \<noteq> []
        \<and> (so_headers_at o', so_folder_at o', so_complete o') = confirmation (sightings_of scope source ss)
        \<and> (\<forall>l\<in>set (cp_locations (foldl (committed sight) st ss)). lo_scope l = scope \<longrightarrow> lo_provider_message_id l = source \<longrightarrow>
            lo_recorded_at l = stamp_of (confirmation (sightings_of scope source ss)))"
proof (induction ss rule: rev_induct)
  case (snoc s ss)
  let ?st = "foldl (committed sight) st ss" and ?seen = "sightings_of scope source ss"
  have run: "foldl (committed sight) st (ss @ [s]) = committed sight ?st s" by simp
  show ?case
  proof (cases "sight ?st s")
    case (Inl e)
    then have "sg_headers s \<and> sg_locations s = {}" using sight_ok [of ?st s] by simp
    then have same: "sightings_of scope source (ss @ [s]) = ?seen" by (simp add: sightings_of_def)
    show ?thesis unfolding run committed_Inl [of sight, OF Inl] same by (rule snoc.IH)
  next
    case (Inr st')
    show ?thesis
    proof (cases "(sg_scope s, sg_source s) = (scope, source)")
      case True
      then have s: "sg_scope s = scope" "sg_source s = source" by simp_all
      note effect = sight_source [OF Inr s]
      have seen: "sightings_of scope source (ss @ [s]) = ?seen @ [(sg_at s, sg_complete s, sg_headers s)]"
        using s effect(1) by (simp add: sightings_of_def)
      have "observe (sg_at s) (sg_complete s) (sg_headers s) (List.find (is_source scope source) (cp_observations ?st))
          = confirmation (sightings_of scope source (ss @ [s]))"
        using snoc.IH unfolding seen
        by (auto simp: observe_def confirmation_single confirmation_snoc split: option.splits)
      then show ?thesis using effect(2) seen unfolding run committed_Inr [of sight, OF Inr] by auto
    next
      case False
      note same = sight_other [OF Inr False]
      have "sightings_of scope source (ss @ [s]) = ?seen" using False by (auto simp: sightings_of_def)
      then show ?thesis using snoc.IH same(2) unfolding run committed_Inr [of sight, OF Inr] same(1) by (auto split: option.splits)
    qed
  qed
qed (simp add: sightings_of_def unseen)

text \<open>
  C32: A source is confirmed by the newest state of its folder, whatever the order of the sightings.
  Take a source not observed before and any sequence of sightings of it and of other sources, some of
  which may raise. If one was recorded, the stored observation is the reference summary of the
  recorded ones: the newest header time, the newest folder time, and whether every sighting at that
  time was complete; and every location of the source carries that time as its stamp if the folder
  was complete and headers were seen, and no stamp otherwise.
\<close>

theorem sightings_confirm:
  assumes unseen: "List.find (is_source scope source) (cp_observations st) = None" and seen: "sightings_of scope source ss \<noteq> []"
  shows "\<exists>o'. List.find (is_source scope source) (cp_observations (foldl (committed sight) st ss)) = Some o'
    \<and> (so_headers_at o', so_folder_at o', so_complete o') = confirmation (sightings_of scope source ss)
    \<and> (\<forall>l\<in>set (cp_locations (foldl (committed sight) st ss)). lo_scope l = scope \<longrightarrow> lo_provider_message_id l = source \<longrightarrow>
        lo_recorded_at l = stamp_of (confirmation (sightings_of scope source ss)))"
  using sightings_summary [OF unseen, of ss] seen by (auto split: option.splits)

definition sample_sightings :: "sighting list" where
  "sample_sightings =
     [\<lparr>sg_message_id = lit ''1'', sg_scope = (lit ''imap'', lit ''a'', lit ''k''), sg_source = lit ''s'', sg_locations = {Inbox}, sg_at = 5,
       sg_complete = True, sg_headers = True, sg_received_at = None\<rparr>,
      \<lparr>sg_message_id = lit ''1'', sg_scope = (lit ''imap'', lit ''a'', lit ''k''), sg_source = lit ''s'', sg_locations = {}, sg_at = 7,
       sg_complete = False, sg_headers = False, sg_received_at = None\<rparr>,
      \<lparr>sg_message_id = lit ''1'', sg_scope = (lit ''imap'', lit ''a'', lit ''k''), sg_source = lit ''s'', sg_locations = {Sent}, sg_at = 6,
       sg_complete = True, sg_headers = True, sg_received_at = None\<rparr>]"

definition no_sightings :: capture_store where
  "no_sightings =
     \<lparr>cp_messages = [], cp_accounts = [], cp_removal = None, cp_label_selectors = [], cp_label_sets = [],
      cp_suppressed = [], cp_recipients = [], cp_locations = [], cp_observations = [], cp_thread_ids = [], cp_aliases = [],
      cp_watermarks = [], cp_catchup = [], cp_header_gaps = [], cp_bodies = [], cp_body_unavailable = [], cp_returned_sources = [], cp_follows = []\<rparr>"

theorem sightings_confirm_witness:
  "sightings_of (lit ''imap'', lit ''a'', lit ''k'') (lit ''s'') sample_sightings = [(5, True, True), (7, False, False), (6, True, True)]
   \<and> (\<exists>o'. List.find (is_source (lit ''imap'', lit ''a'', lit ''k'') (lit ''s'')) (cp_observations (foldl (committed sight) no_sightings sample_sightings)) = Some o'
      \<and> so_headers_at o' = Some 6 \<and> so_folder_at o' = 7 \<and> \<not> so_complete o')"
proof -
  have seen: "sightings_of (lit ''imap'', lit ''a'', lit ''k'') (lit ''s'') sample_sightings = [(5, True, True), (7, False, False), (6, True, True)]"
    by (simp add: sightings_of_def sample_sightings_def)
  have "List.find (is_source (lit ''imap'', lit ''a'', lit ''k'') (lit ''s'')) (cp_observations no_sightings) = None" by (simp add: no_sightings_def)
  from sightings_confirm [OF this, of sample_sightings] seen
  obtain o' where o': "List.find (is_source (lit ''imap'', lit ''a'', lit ''k'') (lit ''s''))
      (cp_observations (foldl (committed sight) no_sightings sample_sightings)) = Some o'"
    "(so_headers_at o', so_folder_at o', so_complete o') = confirmation [(5, True, True), (7, False, False), (6, True, True)]" by auto
  have "confirmation [(5, True, True), (7, False, False), (6, True, True)] = (Some 6, 7, False)"
    using confirmation_snoc [of "[(5, True, True), (7, False, False)]" 6 True True] confirmation_snoc [of "[(5, True, True)]" 7 False False]
    by (simp add: confirmation_single merge_observation_def)
  then show ?thesis using seen o' by auto
qed

end
