(* ===== verification/Bodies.thy ===== *)
theory Bodies
  imports Capture
begin

text \<open>
  The stored bodies of followed messages (\<open>body_state.py\<close>), the logical unit of a message and the
  retention cutoff of \<open>db.py\<close>. A body is kept only while its thread is followed; \<open>thread_follow\<close> is a
  table of the store.
\<close>

definition MAX_STORED_BODY_CHARS :: int where
  "MAX_STORED_BODY_CHARS = 200000"

definition SOURCE_CLEANUP_LOCK_BATCH_SIZE :: nat where
  "SOURCE_CLEANUP_LOCK_BATCH_SIZE = 32"

section \<open>Logical messages\<close>

definition row_available :: "bool \<Rightarrow> capture_store \<Rightarrow> capture_row \<Rightarrow> bool" where
  "row_available include_unfollow st m =
     (case cp_removal st of None \<Rightarrow> True | Some rm \<Rightarrow> available include_unfollow rm (message_row.truncate m))"

text \<open>The view \<open>logical_messages\<close>.\<close>

definition logical_view :: "capture_store \<Rightarrow> capture_row list" where
  "logical_view st = filter (\<lambda>m. sr_logical_of m = None \<and> row_available False st m) (cp_messages st)"

definition content_message_available :: "capture_store \<Rightarrow> pystr \<Rightarrow> bool" where
  "content_message_available st message_id =
     (case find_captured st message_id of None \<Rightarrow> False | Some m \<Rightarrow> row_available True st m)"

definition canonical_id :: "capture_row \<Rightarrow> pystr option" where
  "canonical_id m = (case sr_logical_of m of Some l \<Rightarrow> Some l | None \<Rightarrow> mg_message_id m)"

definition unit_member :: "pystr \<Rightarrow> capture_row \<Rightarrow> bool" where
  "unit_member canonical m \<longleftrightarrow> mg_message_id m = Some canonical \<or> sr_logical_of m = Some canonical"

text \<open>\<open>ORDER BY message_id\<close> puts NULL first.\<close>

definition id_order :: "capture_row \<Rightarrow> nat \<times> pystr" where
  "id_order m = (case mg_message_id m of None \<Rightarrow> (0, []) | Some i \<Rightarrow> (1, i))"

definition unit_rows :: "capture_store \<Rightarrow> pystr list \<Rightarrow> pystr list" where
  "unit_rows st canonicals =
     sort (remdups (map row_id (filter (\<lambda>m. list_ex (\<lambda>c. unit_member c m) canonicals) (cp_messages st))))"

record logical_unit =
  lu_rows :: "pystr list"
  lu_sources :: "(source_identity \<times> pystr) list"

text \<open>A dict comprehension keeps the place of the first and the value of the last occurrence of a key.\<close>

fun put_source :: "source_identity \<Rightarrow> pystr \<Rightarrow> (source_identity \<times> pystr) list \<Rightarrow> (source_identity \<times> pystr) list" where
  "put_source k v [] = [(k, v)]"
| "put_source k v ((k', v') # rest) = (if k = k' then (k, v) # rest else (k', v') # put_source k v rest)"

definition default_source :: "source_identity \<Rightarrow> pystr \<Rightarrow> (source_identity \<times> pystr) list \<Rightarrow> (source_identity \<times> pystr) list" where
  "default_source k v d = (if k \<in> fst ` set d then d else d @ [(k, v)])"

definition logical_unit_of :: "capture_store \<Rightarrow> pystr \<Rightarrow> logical_unit option" where
  "logical_unit_of st message_id =
     map_option (\<lambda>m.
       (let canonical = (case canonical_id m of Some c \<Rightarrow> c | None \<Rightarrow> lit ''None'');
            members = sort_key id_order (filter (unit_member canonical) (cp_messages st));
            own = fold (\<lambda>m. put_source \<lparr>si_provider = mg_provider m, si_account_id = mg_account_id m,
                     si_mailbox_identity_key = mg_mailbox_identity_key m, si_provider_message_id = mg_provider_message_id m\<rparr>
                     (sr_received_at m)) members [];
            located = [(l, m). l \<leftarrow> cp_locations st, lo_message_id l = canonical,
                                m \<leftarrow> cp_messages st, mg_message_id m = Some (lo_message_id l)] in
        \<lparr>lu_rows = map row_id members,
         lu_sources = fold (\<lambda>(l, m). default_source \<lparr>si_provider = mg_provider m, si_account_id = mg_account_id m,
                     si_mailbox_identity_key = Some (snd (snd (lo_scope l))), si_provider_message_id = lo_provider_message_id l\<rparr>
                     (case lo_received_at l of Some r \<Rightarrow> r | None \<Rightarrow> sr_received_at m)) located own\<rparr>))
       (find_captured st message_id)"

section \<open>Retention\<close>

text \<open>\<open>aware_iso_epoch\<close>, in microseconds.\<close>

definition aware_instant :: "timeenv \<Rightarrow> pystr \<Rightarrow> instant option" where
  "aware_instant te value = (case fromisoformat te value of Some (wall, Some offset) \<Rightarrow> Some (wall - offset) | _ \<Rightarrow> None)"

definition iso_instant :: "iso \<Rightarrow> instant option" where
  "iso_instant value = (case value of Aware t \<Rightarrow> Some t | _ \<Rightarrow> None)"

text \<open>
  \<open>frozen\<close> gives the frozen cutoff of an account under Gmail recovery; without \<open>include_recovery\<close> it
  gives none.
\<close>

definition effective_cutoff :: "(mail_scope \<Rightarrow> instant option) \<Rightarrow> instant \<Rightarrow> pystr \<Rightarrow> pystr \<Rightarrow> pystr option \<Rightarrow> instant" where
  "effective_cutoff frozen cutoff provider account_id identity =
     (case Option.bind identity (\<lambda>k. frozen (provider, account_id, k)) of None \<Rightarrow> cutoff | Some c \<Rightarrow> min cutoff c)"

definition row_expired :: "timeenv \<Rightarrow> (mail_scope \<Rightarrow> instant option) \<Rightarrow> instant \<Rightarrow> instant \<Rightarrow> capture_row \<Rightarrow> bool" where
  "row_expired te frozen cutoff now m =
     (case aware_instant te (sr_received_at m) of
        None \<Rightarrow> True
      | Some received \<Rightarrow>
          if now < received
          then (case iso_instant (me_discovered_at m) of None \<Rightarrow> True | Some discovered \<Rightarrow> discovered < cutoff \<or> now < discovered)
          else received < effective_cutoff frozen cutoff (mg_provider m) (mg_account_id m) (mg_mailbox_identity_key m))"

definition copy_within :: "timeenv \<Rightarrow> (mail_scope \<Rightarrow> instant option) \<Rightarrow> instant \<Rightarrow> location_row \<Rightarrow> bool" where
  "copy_within te frozen cutoff l =
     (case Option.bind (lo_received_at l) (aware_instant te) of
        None \<Rightarrow> False
      | Some received \<Rightarrow> effective_cutoff frozen cutoff (fst (lo_scope l)) (fst (snd (lo_scope l))) (Some (snd (snd (lo_scope l)))) \<le> received)"

definition past_cutoff ::
  "timeenv \<Rightarrow> (mail_scope \<Rightarrow> instant option) \<Rightarrow> instant \<Rightarrow> instant \<Rightarrow> capture_store \<Rightarrow> pystr \<Rightarrow> bool" where
  "past_cutoff te frozen cutoff now st canonical \<longleftrightarrow>
     (let rows = filter (\<lambda>m. canonical_id m = Some canonical) (cp_messages st) in
      rows \<noteq> [] \<and> list_all (row_expired te frozen cutoff now) rows
      \<and> \<not> list_ex (\<lambda>l. lo_message_id l = canonical \<and> copy_within te frozen cutoff l) (cp_locations st))"

definition logical_messages_within_cutoff ::
  "timeenv \<Rightarrow> (mail_scope \<Rightarrow> instant option) \<Rightarrow> instant \<Rightarrow> instant \<Rightarrow> pystr list \<Rightarrow> capture_store \<Rightarrow> pystr list" where
  "logical_messages_within_cutoff te frozen cutoff now message_ids st =
     filter (\<lambda>i. case find_captured st i of
               None \<Rightarrow> False
             | Some m \<Rightarrow> opt_all (\<lambda>c. \<not> past_cutoff te frozen cutoff now st c) (canonical_id m)) (remdups message_ids)"

section \<open>Bodies of followed messages\<close>

definition followed_in :: "capture_store \<Rightarrow> (mail_scope \<Rightarrow> bool) \<Rightarrow> capture_row \<Rightarrow> bool" where
  "followed_in st P m \<longleftrightarrow>
     list_ex (\<lambda>f. fo_provider f = mg_provider m \<and> fo_account_id f = mg_account_id m
        \<and> effective_identity st m = Some (fo_mailbox_identity_key f) \<and> sr_thread_key m = Some (fo_thread_key f) \<and> fo_followed f
        \<and> P (fo_provider f, fo_account_id f, fo_mailbox_identity_key f)) (cp_follows st)"

text \<open>The messages whose bodies may be stored.\<close>

definition body_eligible :: "capture_store \<Rightarrow> pystr \<Rightarrow> bool" where
  "body_eligible st message_id \<longleftrightarrow> list_ex (\<lambda>m. mg_message_id m = Some message_id \<and> followed_in st (\<lambda>_. True) m) (logical_view st)"

definition body_pending ::
  "timeenv \<Rightarrow> mail_scope \<Rightarrow> instant \<Rightarrow> instant \<Rightarrow> nat option \<Rightarrow> pystr list \<Rightarrow> capture_store \<Rightarrow> pystr list" where
  "body_pending te scope cutoff now limit exclude st =
     (let rows = filter (\<lambda>m. followed_in st (\<lambda>s. s = scope) m \<and> row_available True st m
              \<and> \<not> list_ex (\<lambda>b. bo_message_id b = row_id m) (cp_bodies st)
              \<and> \<not> list_ex (\<lambda>u. fst u = row_id m) (cp_body_unavailable st)
              \<and> \<not> past_cutoff te (\<lambda>_. None) cutoff now st (row_id m)
              \<and> row_id m \<notin> set exclude) (filter (\<lambda>m. mg_message_id m \<noteq> None) (logical_view st));
          ids = sort (map row_id rows) in
      case limit of None \<Rightarrow> ids | Some n \<Rightarrow> take n ids)"

definition body_sources :: "pystr \<Rightarrow> mail_scope \<Rightarrow> location set \<Rightarrow> capture_store \<Rightarrow> (pystr \<times> instant option) list" where
  "body_sources message_id scope folders st =
     map (\<lambda>s. (s, map_option so_folder_at (List.find (is_source scope s) (cp_observations st))))
       (sort (remdups (map lo_provider_message_id
         (filter (\<lambda>l. lo_message_id l = message_id \<and> lo_scope l = scope \<and> lo_location l \<in> folders) (cp_locations st)))))"

definition body_check :: "body_row \<Rightarrow> bool" where
  "body_check b \<longleftrightarrow> 0 \<le> bo_stored_chars b \<and> bo_stored_chars b \<le> MAX_STORED_BODY_CHARS \<and> bo_stored_chars b \<le> bo_source_chars b"

definition drop_body :: "pystr \<Rightarrow> capture_store \<Rightarrow> capture_store" where
  "drop_body message_id st = st\<lparr>cp_bodies := delete_where (\<lambda>b. bo_message_id b = message_id) (cp_bodies st)\<rparr>"

definition drop_marker :: "pystr \<Rightarrow> capture_store \<Rightarrow> capture_store" where
  "drop_marker message_id st = st\<lparr>cp_body_unavailable := delete_where (\<lambda>u. fst u = message_id) (cp_body_unavailable st)\<rparr>"

text \<open>What a fetch brought: a text with the length of its source, or the reason why there is none.\<close>

definition record_body :: "pystr \<Rightarrow> body_reason + pystr \<times> int \<Rightarrow> instant \<Rightarrow> capture_store \<Rightarrow> err + capture_store" where
  "record_body message_id body fetched_at st =
     (if \<not> content_message_available st message_id \<or> \<not> body_eligible st message_id then Inr st
      else
        case body of
          Inr (text', source_chars) \<Rightarrow>
            (let row = \<lparr>bo_message_id = message_id, bo_text = text', bo_stored_chars = int (length text'),
                        bo_source_chars = source_chars, bo_fetched_at = fetched_at\<rparr>;
                 st = drop_body message_id (drop_marker message_id st) in
             andThen (require (body_check row) (IntegrityError ''CHECK constraint failed: message_bodies'')) (\<lambda>_.
             Inr (st\<lparr>cp_bodies := cp_bodies st @ [row]\<rparr>)))
        | Inl reason \<Rightarrow>
            (let st = drop_marker message_id (drop_body message_id st) in
             Inr (st\<lparr>cp_body_unavailable := cp_body_unavailable st @ [(message_id, reason)]\<rparr>)))"

text \<open>\<open>ready\<close> is \<open>source_locks.protocol_ready\<close>.\<close>

definition cleanup_held :: "bool \<Rightarrow> nat \<Rightarrow> bool" where
  "cleanup_held ready row_count \<longleftrightarrow> \<not> ready \<and> SOURCE_CLEANUP_LOCK_BATCH_SIZE < row_count"

definition body_held :: "bool \<Rightarrow> capture_store \<Rightarrow> pystr \<Rightarrow> bool" where
  "body_held ready st i \<longleftrightarrow>
     list_ex (\<lambda>m. mg_message_id m = Some i \<and> \<not> row_available True st m) (cp_messages st)
     \<or> cleanup_held ready (length (unit_rows st [i]))"

definition recompute_bodies :: "bool \<Rightarrow> capture_store \<Rightarrow> capture_store" where
  "recompute_bodies ready st =
     (let gone = (\<lambda>i. \<not> body_eligible st i \<and> \<not> body_held ready st i) in
      st\<lparr>cp_bodies := delete_where (\<lambda>b. gone (bo_message_id b)) (cp_bodies st),
         cp_body_unavailable := delete_where (\<lambda>u. gone (fst u) \<or> fst u \<in> set (cp_returned_sources st)) (cp_body_unavailable st)\<rparr>)"

datatype body_view =
    Removal_pending
  | Not_followed
  | Mailbox_identity_unavailable
  | Body_pending
  | Body_missing body_reason
  | Body_stored int int "pystr option"

definition project_body :: "pystr \<Rightarrow> pystr option \<Rightarrow> bool \<Rightarrow> bool \<Rightarrow> capture_store \<Rightarrow> err + body_view" where
  "project_body message_id identity thread_followed include_text st =
     andThen (the_row (RuntimeError ''Retained body membership is unavailable'') (logical_unit_of st message_id)) (\<lambda>unit.
     if list_ex (\<lambda>i. \<not> content_message_available st i) (lu_rows unit) then Inr Removal_pending
     else if \<not> thread_followed then Inr Not_followed
     else if identity = None then Inr Mailbox_identity_unavailable
     else
       andThen (require (body_eligible st message_id) (RuntimeError ''Retained body follow state is inconsistent'')) (\<lambda>_.
       case List.find (\<lambda>b. bo_message_id b = message_id) (cp_bodies st) of
         Some b \<Rightarrow>
           andThen (require (0 \<le> bo_stored_chars b \<and> bo_stored_chars b \<le> MAX_STORED_BODY_CHARS \<and> bo_stored_chars b \<le> bo_source_chars b)
               (RuntimeError ''Stored body lengths are invalid'')) (\<lambda>_.
           if include_text then
             andThen (require (int (length (bo_text b)) = bo_stored_chars b) (RuntimeError ''Stored body text is invalid'')) (\<lambda>_.
             Inr (Body_stored (bo_stored_chars b) (bo_source_chars b) (Some (bo_text b))))
           else Inr (Body_stored (bo_stored_chars b) (bo_source_chars b) None))
       | None \<Rightarrow>
           Inr (case List.find (\<lambda>u. fst u = message_id) (cp_body_unavailable st) of
                  None \<Rightarrow> Body_pending
                | Some (_, reason) \<Rightarrow> Body_missing reason)))"

end
