(* ===== verification/Body_Proofs.thy ===== *)
theory Body_Proofs
  imports Bodies Capture_History
begin

text \<open>
  The two body tables stay coherent whatever writes them: a fetch, a recomputation after a thread is
  unfollowed, the merge of two rows of one message, and the trigger on a deleted message. From that,
  what a reader is shown is what the last fetch recorded.
\<close>

section \<open>Coherent body tables\<close>

definition body_row_ok :: "body_row \<Rightarrow> bool" where
  "body_row_ok b \<longleftrightarrow> body_check b \<and> bo_stored_chars b = int (length (bo_text b))"

definition bodies_ok :: "capture_store \<Rightarrow> bool" where
  "bodies_ok st \<longleftrightarrow> list_all body_row_ok (cp_bodies st) \<and> distinct (map bo_message_id (cp_bodies st))
     \<and> distinct (map fst (cp_body_unavailable st)) \<and> bo_message_id ` set (cp_bodies st) \<inter> fst ` set (cp_body_unavailable st) = {}"

lemma bodies_ok_subset:
  "bodies_ok st \<Longrightarrow> cp_bodies st' = delete_where P (cp_bodies st) \<Longrightarrow> cp_body_unavailable st' = delete_where Q (cp_body_unavailable st) \<Longrightarrow> bodies_ok st'"
  unfolding bodies_ok_def by (auto simp: distinct_delete_where set_delete_where list_all_iff)

definition forget_message :: "pystr \<Rightarrow> capture_store \<Rightarrow> capture_store" where
  "forget_message message_id st = drop_marker message_id (drop_body message_id st)"

lemma forget_message_ok: "bodies_ok st \<Longrightarrow> bodies_ok (forget_message i st)"
  by (rule bodies_ok_subset) (simp_all add: forget_message_def drop_marker_def drop_body_def)

lemma recompute_ok: "bodies_ok st \<Longrightarrow> bodies_ok (recompute_bodies ready st)"
  by (rule bodies_ok_subset) (simp_all add: recompute_bodies_def Let_def)

lemma forgotten: "i \<notin> bo_message_id ` set (cp_bodies (forget_message i st))" "i \<notin> fst ` set (cp_body_unavailable (forget_message i st))"
  by (auto simp: forget_message_def drop_marker_def drop_body_def set_delete_where)

text \<open>A fetch forgets what was known and adds one row to one of the two tables.\<close>

lemma record_body_cases:
  assumes "record_body i body at st = Inr st'"
  obtains (ignored) "st' = st" "\<not> (content_message_available st i \<and> body_eligible st i)"
  | (stored) t n where "content_message_available st i" "body_eligible st i" "body = Inr (t, n)"
      "body_row_ok \<lparr>bo_message_id = i, bo_text = t, bo_stored_chars = int (length t), bo_source_chars = n, bo_fetched_at = at\<rparr>"
      "st' = (forget_message i st)\<lparr>cp_bodies := cp_bodies (forget_message i st) @
         [\<lparr>bo_message_id = i, bo_text = t, bo_stored_chars = int (length t), bo_source_chars = n, bo_fetched_at = at\<rparr>]\<rparr>"
  | (marked) reason where "content_message_available st i" "body_eligible st i" "body = Inl reason"
      "st' = (forget_message i st)\<lparr>cp_body_unavailable := cp_body_unavailable (forget_message i st) @ [(i, reason)]\<rparr>"
proof (cases "content_message_available st i \<and> body_eligible st i")
  case False
  then show ?thesis using assms ignored by (auto simp: record_body_def)
next
  case True
  have swap: "drop_body i (drop_marker i st) = forget_message i st" by (simp add: forget_message_def drop_marker_def drop_body_def)
  show ?thesis
  proof (cases body)
    case (Inl reason)
    then show ?thesis using assms True marked by (auto simp: record_body_def forget_message_def Let_def)
  next
    case (Inr p)
    then show ?thesis using assms True stored by (cases p) (auto simp: record_body_def Let_def res_splits swap body_row_ok_def)
  qed
qed

lemma record_body_ok: "bodies_ok st \<Longrightarrow> record_body i body at st = Inr st' \<Longrightarrow> bodies_ok st'"
  by (erule record_body_cases)
    (use forget_message_ok [of st i] forgotten [of i st] in \<open>auto simp: bodies_ok_def\<close>)

definition renamed :: "pystr \<Rightarrow> pystr \<Rightarrow> pystr list \<Rightarrow> pystr list" where
  "renamed old new xs = (if new \<in> set xs then xs else map (\<lambda>x. if x = old then new else x) xs)"

lemma renamed_distinct: "distinct xs \<Longrightarrow> distinct (renamed old new xs)"
  by (auto simp: renamed_def distinct_map inj_on_def)

lemma renamed_mem: "x \<in> set (renamed old new xs) \<Longrightarrow> x \<noteq> new \<Longrightarrow> x \<in> set xs"
  by (auto simp: renamed_def split: if_splits)

lemma reparent_ok:
  assumes "bodies_ok st"
  shows "bodies_ok (reparent_bodies old new st)"
proof -
  note ok = assms [unfolded bodies_ok_def]
  define b where "b = (if list_ex (\<lambda>b. bo_message_id b = new) (cp_bodies st) then cp_bodies st
            else update_where (\<lambda>b. bo_message_id b = old) (\<lambda>b. b\<lparr>bo_message_id := new\<rparr>) (cp_bodies st))"
  define u where "u = (if list_ex (\<lambda>u. fst u = new) (cp_body_unavailable st) then cp_body_unavailable st
            else map (\<lambda>(i, r). (if i = old then new else i, r)) (cp_body_unavailable st))"
  define u' where "u' = (if list_ex (\<lambda>b. bo_message_id b = new) b then delete_where (\<lambda>u. fst u = new) u else u)"
  have b: "map bo_message_id b = renamed old new (map bo_message_id (cp_bodies st))"
    by (auto simp: b_def renamed_def update_where_def list_ex_iff)
  have u: "map fst u = renamed old new (map fst (cp_body_unavailable st))"
    by (auto simp: u_def renamed_def list_ex_iff)
  have "body_row_ok (r\<lparr>bo_message_id := new\<rparr>) \<longleftrightarrow> body_row_ok r" for r by (simp add: body_row_ok_def body_check_def)
  then have "list_all body_row_ok b" using ok by (auto simp: b_def list_all_iff set_update_where)
  moreover have "distinct (map bo_message_id b)" "distinct (map fst u)" unfolding b u using ok by (simp_all add: renamed_distinct)
  moreover have "bo_message_id ` set b \<inter> fst ` set u' = {}"
  proof -
    have "x = new" if "x \<in> bo_message_id ` set b" "x \<in> fst ` set u" for x
      using that b u renamed_mem [of x old new] ok by (metis disjoint_iff set_map)
    note clash = this
    have False if x: "x \<in> bo_message_id ` set b" "x \<in> fst ` set u'" for x
    proof -
      have "fst ` set u' \<subseteq> fst ` set u" by (auto simp: u'_def set_delete_where)
      then have "x = new" using clash x by blast
      then have "list_ex (\<lambda>b. bo_message_id b = new) b" using x(1) by (auto simp: list_ex_iff)
      then show False using x(2) \<open>x = new\<close> by (auto simp: u'_def set_delete_where)
    qed
    then show ?thesis by blast
  qed
  moreover have "distinct (map fst u')" using \<open>distinct (map fst u)\<close> by (simp add: u'_def distinct_delete_where)
  moreover have "reparent_bodies old new st = st\<lparr>cp_bodies := b, cp_body_unavailable := u'\<rparr>"
    by (simp add: reparent_bodies_def Let_def b_def u_def u'_def)
  ultimately show ?thesis unfolding bodies_ok_def by simp
qed

section \<open>Histories and what a reader sees\<close>

datatype body_op =
    Record pystr "body_reason + pystr \<times> int" instant
  | Recompute bool
  | Reparent pystr pystr
  | Deleted pystr
  | Elsewhere "capture_store \<Rightarrow> capture_store"

text \<open>Every other operation of the store leaves the two tables as they are.\<close>

fun body_exec :: "capture_store \<Rightarrow> body_op \<Rightarrow> err + capture_store" where
  "body_exec st (Record i body at) = record_body i body at st"
| "body_exec st (Recompute ready) = Inr (recompute_bodies ready st)"
| "body_exec st (Reparent old new) = Inr (reparent_bodies old new st)"
| "body_exec st (Deleted i) = Inr (forget_message i st)"
| "body_exec st (Elsewhere f) = Inr ((f st)\<lparr>cp_bodies := cp_bodies st, cp_body_unavailable := cp_body_unavailable st\<rparr>)"

abbreviation body_run :: "capture_store \<Rightarrow> body_op list \<Rightarrow> capture_store" where
  "body_run \<equiv> foldl (committed body_exec)"

lemma body_exec_ok: "bodies_ok st \<Longrightarrow> body_exec st op = Inr st' \<Longrightarrow> bodies_ok st'"
proof (cases op)
  case (Elsewhere f)
  assume "bodies_ok st" "body_exec st op = Inr st'"
  moreover from this Elsewhere have "cp_bodies st' = cp_bodies st" "cp_body_unavailable st' = cp_body_unavailable st" by auto
  ultimately show ?thesis unfolding bodies_ok_def by (simp only:)
qed (auto intro: record_body_ok recompute_ok reparent_ok forget_message_ok)

lemma body_run_ok: "bodies_ok st \<Longrightarrow> bodies_ok (body_run st ops)"
  by (induction ops arbitrary: st) (auto simp: committed_def intro: body_exec_ok split: sum.splits)

text \<open>The two tests a projection can still fail: no logical unit, or a follow state the caller has wrong.\<close>

definition projection_errors :: "err set" where
  "projection_errors = {RuntimeError ''Retained body membership is unavailable'', RuntimeError ''Retained body follow state is inconsistent''}"

lemma project_ok:
  assumes "bodies_ok st"
  shows "case project_body i identity followed include_text st of
      Inl e \<Rightarrow> e \<in> projection_errors
    | Inr (Body_stored stored source txt) \<Rightarrow> 0 \<le> stored \<and> stored \<le> MAX_STORED_BODY_CHARS \<and> stored \<le> source
        \<and> txt = (if include_text then map_option bo_text (List.find (\<lambda>b. bo_message_id b = i) (cp_bodies st)) else None)
        \<and> (\<forall>t. txt = Some t \<longrightarrow> int (length t) = stored)
    | Inr _ \<Rightarrow> True"
proof -
  have row: "body_row_ok b" if "List.find (\<lambda>b. bo_message_id b = i) (cp_bodies st) = Some b" for b
    using assms find_key_Some [OF that] by (auto simp: bodies_ok_def list_all_iff)
  then show ?thesis
    by (auto simp: project_body_def andThen_def require_def projection_errors_def body_row_ok_def body_check_def
        split: sum.splits option.splits body_view.splits if_splits elim!: the_row.elims)
qed

lemma project_readable:
  assumes "bodies_ok st" and "logical_unit_of st i = Some u" and "list_all (content_message_available st) (lu_rows u)" and "body_eligible st i"
  shows "\<exists>v. project_body i (Some k) True include_text st = Inr v \<and> v \<noteq> Removal_pending"
proof (cases "List.find (\<lambda>b. bo_message_id b = i) (cp_bodies st)")
  case None
  then show ?thesis using assms(2-4) by (auto simp: project_body_def list_ex_iff list_all_iff split: option.splits)
next
  case (Some b)
  then have "body_row_ok b" using assms(1) find_key_Some [OF Some] by (auto simp: bodies_ok_def list_all_iff)
  then show ?thesis using Some assms(2-4) by (auto simp: project_body_def list_ex_iff list_all_iff body_row_ok_def body_check_def)
qed

text \<open>
  C14: a reader is shown what was stored. Whatever sequence of fetches, recomputations, merges and
  deletions wrote the body tables, reading a body raises only when the message has no logical unit or
  the caller's follow state is wrong, never because the stored row is invalid; a stored body has at most
  200000 characters, no more than its source, and the text has the length that is reported. And once a
  fetch of an eligible message succeeds, the next read, unless the message is held by a removal,
  returns exactly the fetched text with its source length, or the reason why there is none.
\<close>
theorem bodies_read_back:
  assumes "cp_bodies st = []" and "cp_body_unavailable st = []"
  shows "(case project_body i identity followed include_text (body_run st ops) of
        Inl e \<Rightarrow> e \<in> projection_errors
      | Inr (Body_stored stored source txt) \<Rightarrow> 0 \<le> stored \<and> stored \<le> MAX_STORED_BODY_CHARS \<and> stored \<le> source
          \<and> txt = (if include_text then map_option bo_text (List.find (\<lambda>b. bo_message_id b = i) (cp_bodies (body_run st ops))) else None)
          \<and> (\<forall>t. txt = Some t \<longrightarrow> int (length t) = stored)
      | Inr _ \<Rightarrow> True)
    \<and> (\<forall>body at st' v.
         content_message_available (body_run st ops) i \<and> body_eligible (body_run st ops) i
       \<and> record_body i body at (body_run st ops) = Inr st'
       \<and> project_body i (Some k) True True st' = Inr v \<and> v \<noteq> Removal_pending \<longrightarrow>
         v = (case body of Inr (t, n) \<Rightarrow> Body_stored (int (length t)) n (Some t) | Inl reason \<Rightarrow> Body_missing reason))"
proof (intro conjI allI impI)
  have ok: "bodies_ok (body_run st ops)" by (rule body_run_ok) (simp add: bodies_ok_def assms)
  show "case project_body i identity followed include_text (body_run st ops) of
        Inl e \<Rightarrow> e \<in> projection_errors
      | Inr (Body_stored stored source txt) \<Rightarrow> 0 \<le> stored \<and> stored \<le> MAX_STORED_BODY_CHARS \<and> stored \<le> source
          \<and> txt = (if include_text then map_option bo_text (List.find (\<lambda>b. bo_message_id b = i) (cp_bodies (body_run st ops))) else None)
          \<and> (\<forall>t. txt = Some t \<longrightarrow> int (length t) = stored)
      | Inr _ \<Rightarrow> True"
    by (rule project_ok [OF ok])
  fix body at st' v
  assume h: "content_message_available (body_run st ops) i \<and> body_eligible (body_run st ops) i
       \<and> record_body i body at (body_run st ops) = Inr st' \<and> project_body i (Some k) True True st' = Inr v \<and> v \<noteq> Removal_pending"
  then have v: "project_body i (Some k) True True st' = Inr v" "v \<noteq> Removal_pending" by blast+
  from h have "record_body i body at (body_run st ops) = Inr st'" by blast
  then show "v = (case body of Inr (t, n) \<Rightarrow> Body_stored (int (length t)) n (Some t) | Inl reason \<Rightarrow> Body_missing reason)"
  proof (cases rule: record_body_cases)
    case ignored
    then show ?thesis using h by blast
  next
    case (stored t n)
    have "List.find (\<lambda>b. bo_message_id b = i) (cp_bodies st') = Some \<lparr>bo_message_id = i, bo_text = t, bo_stored_chars = int (length t), bo_source_chars = n, bo_fetched_at = at\<rparr>"
      using find_key_insert [of bo_message_id "\<lparr>bo_message_id = i, bo_text = t, bo_stored_chars = int (length t), bo_source_chars = n, bo_fetched_at = at\<rparr>"
          "cp_bodies (forget_message i (body_run st ops))" i] forgotten(1) [of i] stored(5) by simp
    then show ?thesis using v stored(3) by (auto simp: project_body_def res_splits split: if_splits)
  next
    case (marked reason)
    have "List.find (\<lambda>b. bo_message_id b = i) (cp_bodies st') = None" using forgotten(1) [of i "body_run st ops"] marked(4) by (simp add: find_key_None)
    moreover have "List.find (\<lambda>u. fst u = i) (cp_body_unavailable st') = Some (i, reason)"
      using find_key_insert [of fst "(i, reason)" "cp_body_unavailable (forget_message i (body_run st ops))" i] forgotten(2) [of i] marked(4) by simp
    ultimately show ?thesis using v marked(3) by (auto simp: project_body_def res_splits split: if_splits)
  qed
qed

text \<open>One message of a followed thread.\<close>

definition followed_store :: capture_store where
  "followed_store = sample_capture_store\<lparr>
     cp_messages := [new_row (sample_incoming (lit ''1'') (lit ''<a@x>'') []) 1 sample_key (lit ''t'') None],
     cp_follows := [\<lparr>fo_provider = lit ''imap'', fo_account_id = lit ''a'', fo_mailbox_identity_key = sample_key, fo_thread_key = lit ''t'', fo_followed = True\<rparr>]\<rparr>"

definition followed_history :: "body_op list" where
  "followed_history = [Record (lit ''1'') (Inr (lit ''old'', 3)) 1, Record (lit ''1'') (Inl Source_gone) 2, Recompute True]"

lemmas followed_simps = followed_store_def sample_capture_store_def sample_incoming_def new_row_def find_captured_def content_message_available_def
  row_available_def body_eligible_def followed_in_def logical_view_def effective_identity_def lit_def

lemma followed_eligible:
  "cp_messages st = cp_messages followed_store \<Longrightarrow> cp_follows st = cp_follows followed_store \<Longrightarrow> cp_removal st = None
     \<Longrightarrow> content_message_available st (lit ''1'') \<and> body_eligible st (lit ''1'')"
  by (simp add: followed_simps)

lemma body_run_frame:
  assumes "\<And>f. Elsewhere f \<notin> set ops"
  shows "cp_messages (body_run st ops) = cp_messages st \<and> cp_follows (body_run st ops) = cp_follows st \<and> cp_removal (body_run st ops) = cp_removal st"
  using assms
proof (induction ops arbitrary: st)
  case (Cons op ops)
  have "cp_messages (committed body_exec st op) = cp_messages st \<and> cp_follows (committed body_exec st op) = cp_follows st
      \<and> cp_removal (committed body_exec st op) = cp_removal st"
    using Cons.prems [of "\<lambda>st. st"] Cons.prems
    by (cases op) (auto simp: committed_def record_body_def recompute_bodies_def reparent_bodies_def forget_message_def drop_body_def drop_marker_def
        Let_def res_splits split: sum.splits if_splits)
  then show ?case using Cons by simp
qed simp

theorem bodies_read_back_witness:
  "content_message_available (body_run followed_store followed_history) (lit ''1'') \<and> body_eligible (body_run followed_store followed_history) (lit ''1'')
   \<and> (\<exists>st'. record_body (lit ''1'') (Inr (lit ''new'', 9)) 3 (body_run followed_store followed_history) = Inr st'
        \<and> project_body (lit ''1'') (Some sample_key) True True st' = Inr (Body_stored 3 9 (Some (lit ''new''))))"
proof -
  let ?st = "body_run followed_store followed_history"
  have frame: "cp_messages ?st = cp_messages followed_store" "cp_follows ?st = cp_follows followed_store" "cp_removal ?st = None"
    using body_run_frame [of followed_history followed_store] by (auto simp: followed_history_def) (simp add: followed_store_def sample_capture_store_def)
  then have e: "content_message_available ?st (lit ''1'') \<and> body_eligible ?st (lit ''1'')" by (rule followed_eligible)
  then obtain st' where r: "record_body (lit ''1'') (Inr (lit ''new'', 9)) 3 ?st = Inr st'"
    by (simp add: record_body_def Let_def body_check_def MAX_STORED_BODY_CHARS_def lit_def require_def andThen_def)
  then have "cp_messages st' = cp_messages followed_store" "cp_follows st' = cp_follows followed_store" "cp_removal st' = None"
    using frame by (auto elim!: record_body_cases simp: forget_message_def drop_body_def drop_marker_def)
  note frame' = this
  have "bodies_ok followed_store" by (simp add: bodies_ok_def followed_store_def sample_capture_store_def)
  then have ok: "bodies_ok st'" using record_body_ok [OF body_run_ok r] by blast
  have "\<exists>u. logical_unit_of st' (lit ''1'') = Some u \<and> lu_rows u = [lit ''1'']"
    by (simp add: logical_unit_of_def find_captured_def frame' Let_def canonical_id_def unit_member_def row_id_def)
      (simp add: followed_simps canonical_id_def unit_member_def row_id_def)
  then obtain v where v: "project_body (lit ''1'') (Some sample_key) True True st' = Inr v" "v \<noteq> Removal_pending"
    using project_readable [OF ok] followed_eligible [OF frame'] by fastforce
  have empty: "cp_bodies followed_store = []" "cp_body_unavailable followed_store = []" by (simp_all add: followed_store_def sample_capture_store_def)
  have "v = (case Inr (lit ''new'', 9) of Inr (t, n) \<Rightarrow> Body_stored (int (length t)) n (Some t) | Inl reason \<Rightarrow> Body_missing reason)"
    using bodies_read_back [OF empty, where i = "lit ''1''" and ops = followed_history and k = sample_key, THEN conjunct2, rule_format,
        of "Inr (lit ''new'', 9)" 3 st' v] e r v by blast
  then show ?thesis using e r v by (auto simp: lit_def)
qed

end
