(* ===== verification/Reconcile.thy ===== *)
theory Reconcile
  imports Bodies Json
begin

text \<open>
  Coverage of a mailbox and the frozen progress of a reconcile pass (\<open>reconcile_state.py\<close>). Every event
  that can hide messages bumps a generation; a pass certifies the generation it started in, and
  coverage is current while the certified generation is the present one and no other work is left.

  Stored times are written by one function in UTC, so their text compares as the times do. A payload
  is a JSON document the pass reads back; the table keeps it as a value.
\<close>

section \<open>Tables\<close>

record coverage_row =
  cg_scope :: mail_scope
  cg_generation :: int
  cg_entitlement_active :: "bool option"
  cg_retention_days :: "int option"
  cg_sent_folder :: "pystr option"

record reconciled_row =
  rv_scope :: mail_scope
  rv_generation :: int
  rv_recorded_at :: instant

record progress_row =
  pr_scope :: mail_scope
  pr_generation :: int
  pr_started_at :: instant
  pr_retention_days :: int
  pr_version :: int
  pr_payload :: json

datatype pass_phase = Discovery | Sync

datatype item_folder = In_inbox | In_sent | In_all

record item_row =
  it_scope :: mail_scope
  it_generation :: int
  it_phase :: pass_phase
  it_unit :: pystr
  it_source_id :: pystr
  it_native_thread_id :: "pystr option"
  it_received_at :: "pystr option"
  it_folder :: item_folder
  it_done :: bool

record reconcile_store =
  rk_coverage :: "coverage_row list"
  rk_reconciled :: "reconciled_row list"
  rk_progress :: "progress_row list"
  rk_items :: "item_row list"
  rk_capture :: capture_store

definition find_coverage :: "reconcile_store \<Rightarrow> mail_scope \<Rightarrow> coverage_row option" where
  "find_coverage st scope = List.find (\<lambda>g. cg_scope g = scope) (rk_coverage st)"

definition find_reconciled :: "reconcile_store \<Rightarrow> mail_scope \<Rightarrow> reconciled_row option" where
  "find_reconciled st scope = List.find (\<lambda>r. rv_scope r = scope) (rk_reconciled st)"

definition find_progress :: "reconcile_store \<Rightarrow> mail_scope \<Rightarrow> progress_row option" where
  "find_progress st scope = List.find (\<lambda>p. pr_scope p = scope) (rk_progress st)"

section \<open>The generation\<close>

definition ensure_coverage :: "mail_scope \<Rightarrow> reconcile_store \<Rightarrow> reconcile_store" where
  "ensure_coverage scope st =
     (if find_coverage st scope \<noteq> None then st
      else st\<lparr>rk_coverage := rk_coverage st @ [\<lparr>cg_scope = scope, cg_generation = 0, cg_entitlement_active = None,
        cg_retention_days = None, cg_sent_folder = None\<rparr>]\<rparr>)"

definition clear_watermarks :: "mail_scope \<Rightarrow> capture_store \<Rightarrow> capture_store" where
  "clear_watermarks scope st = st\<lparr>cp_watermarks := delete_where (\<lambda>w. wm_scope w = scope) (cp_watermarks st)\<rparr>"

definition update_coverage :: "mail_scope \<Rightarrow> (coverage_row \<Rightarrow> coverage_row) \<Rightarrow> reconcile_store \<Rightarrow> reconcile_store" where
  "update_coverage scope f st = st\<lparr>rk_coverage := update_where (\<lambda>g. cg_scope g = scope) f (rk_coverage st)\<rparr>"

definition bump_coverage_generation :: "mail_scope \<Rightarrow> int \<Rightarrow> bool \<Rightarrow> reconcile_store \<Rightarrow> reconcile_store" where
  "bump_coverage_generation scope amount clear st =
     (let st = update_coverage scope (\<lambda>g. g\<lparr>cg_generation := cg_generation g + amount\<rparr>) (ensure_coverage scope st) in
      if clear then st\<lparr>rk_capture := clear_watermarks scope (rk_capture st)\<rparr> else st)"

definition clear_stamps_of :: "mail_scope \<Rightarrow> instant \<Rightarrow> reconcile_store \<Rightarrow> err + reconcile_store" where
  "clear_stamps_of scope now st =
     andThen (clear_location_stamps scope now (rk_capture st)) (\<lambda>cp. Inr (st\<lparr>rk_capture := cp\<rparr>))"

definition gap :: "mail_scope \<Rightarrow> instant \<Rightarrow> reconcile_store \<Rightarrow> err + reconcile_store" where
  "gap scope now st = clear_stamps_of scope now (bump_coverage_generation scope 1 True st)"

definition observe_settings ::
  "mail_scope \<Rightarrow> bool \<Rightarrow> int \<Rightarrow> pystr option \<Rightarrow> instant \<Rightarrow> reconcile_store \<Rightarrow> err + reconcile_store" where
  "observe_settings scope active retention_days sent_folder now st =
     (let st = ensure_coverage scope st in
      andThen (the_row TypeError (find_coverage st scope)) (\<lambda>old.
      (let sent_folder = (case sent_folder of None \<Rightarrow> cg_sent_folder old | Some f \<Rightarrow> Some f) in
       if (cg_entitlement_active old, cg_retention_days old, cg_sent_folder old) = (Some active, Some retention_days, sent_folder) then Inr st
       else
         (let gapped = (cg_entitlement_active old = Some False \<and> active);
              clear = (gapped \<or> cg_sent_folder old \<noteq> sent_folder
                \<or> (case cg_retention_days old of None \<Rightarrow> False | Some d \<Rightarrow> d < retention_days)) in
          andThen (require (0 < retention_days) (IntegrityError ''CHECK constraint failed: retention_days>0'')) (\<lambda>_.
          (let st = update_coverage scope
                 (\<lambda>g. g\<lparr>cg_entitlement_active := Some active, cg_retention_days := Some retention_days, cg_sent_folder := sent_folder\<rparr>)
                 (bump_coverage_generation scope 1 clear st) in
           if gapped then clear_stamps_of scope now st else Inr st))))))"

text \<open>The accounts whose inputs changed in a transaction, with the number of changes of each.\<close>

definition flush_coverage_inputs :: "(mail_scope \<times> nat) list \<Rightarrow> reconcile_store \<Rightarrow> reconcile_store" where
  "flush_coverage_inputs changed = fold (\<lambda>(scope, amount). bump_coverage_generation scope (int amount) False) changed"

definition needs_discovery :: "mail_scope \<Rightarrow> reconcile_store \<Rightarrow> bool" where
  "needs_discovery scope st =
     (case find_coverage st scope of
        None \<Rightarrow> True
      | Some g \<Rightarrow> map_option rv_generation (find_reconciled st scope) \<noteq> Some (cg_generation g))"

section \<open>A pass\<close>

definition drop_progress :: "mail_scope \<Rightarrow> reconcile_store \<Rightarrow> reconcile_store" where
  "drop_progress scope st = st\<lparr>rk_progress := delete_where (\<lambda>p. pr_scope p = scope) (rk_progress st)\<rparr>"

definition drop_items :: "mail_scope \<Rightarrow> (item_row \<Rightarrow> bool) \<Rightarrow> reconcile_store \<Rightarrow> reconcile_store" where
  "drop_items scope P st = st\<lparr>rk_items := delete_where (\<lambda>i. it_scope i = scope \<and> P i) (rk_items st)\<rparr>"

definition drop_catchup :: "mail_scope \<Rightarrow> (catchup_row \<Rightarrow> bool) \<Rightarrow> reconcile_store \<Rightarrow> reconcile_store" where
  "drop_catchup scope P st =
     st\<lparr>rk_capture := (rk_capture st)\<lparr>cp_catchup := delete_where (\<lambda>c. ct_scope c = scope \<and> P c) (cp_catchup (rk_capture st))\<rparr>\<rparr>"

definition new_progress :: "mail_scope \<Rightarrow> int \<Rightarrow> instant \<Rightarrow> int \<Rightarrow> json \<Rightarrow> progress_row" where
  "new_progress scope generation started_at retention_days payload =
     \<lparr>pr_scope = scope, pr_generation = generation, pr_started_at = started_at, pr_retention_days = retention_days,
      pr_version = 0, pr_payload = payload\<rparr>"

definition insert_progress :: "progress_row \<Rightarrow> reconcile_store \<Rightarrow> err + reconcile_store \<times> progress_row" where
  "insert_progress p st =
     andThen (require (0 < pr_retention_days p) (IntegrityError ''CHECK constraint failed: retention_days>0'')) (\<lambda>_.
     Inr (st\<lparr>rk_progress := rk_progress st @ [p]\<rparr>, p))"

definition load_or_start :: "mail_scope \<Rightarrow> instant \<Rightarrow> int \<Rightarrow> json \<Rightarrow> reconcile_store \<Rightarrow> err + reconcile_store \<times> progress_row" where
  "load_or_start scope now retention_days payload st =
     andThen (the_row TypeError (find_coverage st scope)) (\<lambda>g.
     case find_progress st scope of
       Some p \<Rightarrow>
         if pr_generation p = cg_generation g then Inr (st, p)
         else insert_progress (new_progress scope (cg_generation g) now retention_days payload)
           (drop_catchup scope (\<lambda>_. True) (drop_items scope (\<lambda>_. True) (drop_progress scope st)))
     | None \<Rightarrow> insert_progress (new_progress scope (cg_generation g) now retention_days payload) st)"

definition at_progress :: "mail_scope \<Rightarrow> progress_row \<Rightarrow> progress_row \<Rightarrow> bool" where
  "at_progress scope progress p \<longleftrightarrow>
     pr_scope p = scope \<and> pr_generation p = pr_generation progress \<and> pr_version p = pr_version progress"

definition save_progress :: "mail_scope \<Rightarrow> progress_row \<Rightarrow> reconcile_store \<Rightarrow> err + reconcile_store \<times> progress_row" where
  "save_progress scope progress st =
     andThen (require (count_where (at_progress scope progress) (rk_progress st) = 1)
         (RuntimeError ''reconcile progress changed concurrently'')) (\<lambda>_.
     Inr (st\<lparr>rk_progress := update_where (at_progress scope progress)
            (\<lambda>p. p\<lparr>pr_payload := pr_payload progress, pr_version := pr_version p + 1\<rparr>) (rk_progress st)\<rparr>,
          progress\<lparr>pr_version := pr_version progress + 1\<rparr>))"

definition put_item :: "item_row \<Rightarrow> item_row list \<Rightarrow> item_row list" where
  "put_item i rows =
     (if list_ex (\<lambda>r. it_scope r = it_scope i \<and> it_generation r = it_generation i \<and> it_phase r = it_phase i
          \<and> it_unit r = it_unit i \<and> it_source_id r = it_source_id i) rows
      then rows else rows @ [i])"

definition put_items ::
  "mail_scope \<Rightarrow> progress_row \<Rightarrow> pass_phase \<Rightarrow> pystr \<Rightarrow> (pystr \<times> pystr option \<times> pystr option) list \<Rightarrow> item_folder
     \<Rightarrow> reconcile_store \<Rightarrow> reconcile_store" where
  "put_items scope progress phase unit items folder st =
     st\<lparr>rk_items := fold put_item (map (\<lambda>(source, native, received).
         \<lparr>it_scope = scope, it_generation = pr_generation progress, it_phase = phase, it_unit = unit, it_source_id = source,
          it_native_thread_id = native, it_received_at = received, it_folder = folder, it_done = False\<rparr>) items) (rk_items st)\<rparr>"

definition item_at :: "mail_scope \<Rightarrow> progress_row \<Rightarrow> pass_phase \<Rightarrow> pystr \<Rightarrow> item_row \<Rightarrow> bool" where
  "item_at scope progress phase unit i \<longleftrightarrow>
     it_scope i = scope \<and> it_generation i = pr_generation progress \<and> it_phase i = phase \<and> it_unit i = unit"

definition pending_item :: "mail_scope \<Rightarrow> progress_row \<Rightarrow> pass_phase \<Rightarrow> pystr \<Rightarrow> reconcile_store \<Rightarrow> item_row option" where
  "pending_item scope progress phase unit st =
     (case sort_key it_source_id (filter (\<lambda>i. item_at scope progress phase unit i \<and> \<not> it_done i) (rk_items st)) of
        [] \<Rightarrow> None | i # _ \<Rightarrow> Some i)"

definition finish_item :: "mail_scope \<Rightarrow> progress_row \<Rightarrow> item_row \<Rightarrow> reconcile_store \<Rightarrow> reconcile_store" where
  "finish_item scope progress item st =
     st\<lparr>rk_items := update_where (\<lambda>i. item_at scope progress (it_phase item) (it_unit item) i \<and> it_source_id i = it_source_id item)
       (\<lambda>i. i\<lparr>it_done := True\<rparr>) (rk_items st)\<rparr>"

definition next_interval :: "mail_scope \<Rightarrow> progress_row \<Rightarrow> instant \<Rightarrow> json \<Rightarrow> reconcile_store \<Rightarrow> err + reconcile_store \<times> progress_row" where
  "next_interval scope progress now payload st =
     andThen (require (count_where (at_progress scope progress) (rk_progress st) = 1)
         (RuntimeError ''reconcile progress changed concurrently'')) (\<lambda>_.
     insert_progress (new_progress scope (pr_generation progress) now (pr_retention_days progress) payload)
       (drop_items scope (\<lambda>_. True) (st\<lparr>rk_progress := delete_where (at_progress scope progress) (rk_progress st)\<rparr>)))"

section \<open>Threads and catch-up\<close>

definition follow_at :: "mail_scope \<Rightarrow> pystr \<Rightarrow> follow_row \<Rightarrow> bool" where
  "follow_at scope key f \<longleftrightarrow> (fo_provider f, fo_account_id f, fo_mailbox_identity_key f) = scope \<and> fo_thread_key f = key"

definition is_followed :: "capture_store \<Rightarrow> mail_scope \<Rightarrow> pystr \<Rightarrow> bool" where
  "is_followed st scope key \<longleftrightarrow> list_ex (\<lambda>f. follow_at scope key f \<and> fo_followed f) (cp_follows st)"

definition find_watermark :: "capture_store \<Rightarrow> mail_scope \<Rightarrow> pystr \<Rightarrow> instant option" where
  "find_watermark st scope key =
     map_option wm_synced_through (List.find (\<lambda>w. wm_scope w = scope \<and> wm_thread_key w = key) (cp_watermarks st))"

definition alias_count :: "capture_store \<Rightarrow> pystr \<Rightarrow> nat" where
  "alias_count st key = count_where (\<lambda>(_, survivor). survivor = key) (cp_aliases st)"

definition catchup_targets :: "mail_scope \<Rightarrow> progress_row \<Rightarrow> reconcile_store \<Rightarrow> (pystr \<times> instant) list" where
  "catchup_targets scope progress st =
     map (\<lambda>c. (ct_thread_key c, ct_target c))
       (filter (\<lambda>c. ct_scope c = scope \<and> ct_generation c = pr_generation progress \<and> is_followed (rk_capture st) scope (ct_thread_key c))
         (cp_catchup (rk_capture st)))"

definition catchup_pending :: "mail_scope \<Rightarrow> progress_row \<Rightarrow> reconcile_store \<Rightarrow> bool" where
  "catchup_pending scope progress st \<longleftrightarrow>
     list_ex (\<lambda>(key, target). case find_watermark (rk_capture st) scope key of None \<Rightarrow> True | Some synced \<Rightarrow> synced < target)
       (catchup_targets scope progress st)"

text \<open>Called by the owner of the follow table before its transaction commits.\<close>

definition record_follow_transition :: "mail_scope \<Rightarrow> pystr \<Rightarrow> instant \<Rightarrow> reconcile_store \<Rightarrow> reconcile_store" where
  "record_follow_transition scope key now st =
     (case find_progress st scope of
        None \<Rightarrow> st
      | Some p \<Rightarrow>
          (let rows = cp_catchup (rk_capture st);
               here = (\<lambda>c. ct_scope c = scope \<and> ct_generation c = pr_generation p \<and> ct_thread_key c = key);
               rows = (if list_ex here rows then update_where here (\<lambda>c. c\<lparr>ct_target := max (ct_target c) now\<rparr>) rows
                 else rows @ [\<lparr>ct_scope = scope, ct_generation = pr_generation p, ct_thread_key = key, ct_target = now\<rparr>]) in
           st\<lparr>rk_capture := (rk_capture st)\<lparr>cp_catchup := rows\<rparr>\<rparr>))"

definition reconcile_sources :: "mail_scope \<Rightarrow> pystr \<Rightarrow> capture_store \<Rightarrow> pystr list" where
  "reconcile_sources scope key st =
     sort (remdups
       (map mg_provider_message_id (filter (\<lambda>m. (mg_provider m, mg_account_id m) = (fst scope, fst (snd scope))
            \<and> effective_identity st m = Some (snd (snd scope)) \<and> sr_thread_key m = Some key) (logical_view st))
        @ map lo_provider_message_id (filter (\<lambda>l. lo_scope l = scope
            \<and> Option.bind (find_captured st (lo_message_id l)) sr_thread_key = Some key) (cp_locations st))))"

record thread_state =
  ts_key :: pystr
  ts_native :: "pystr list"
  ts_ids :: "pystr list"
  ts_aliases :: nat
  ts_watermark :: "instant option"

definition reconcile_threads :: "mail_scope \<Rightarrow> capture_store \<Rightarrow> thread_state list" where
  "reconcile_threads scope st =
     map (\<lambda>f.
       (let key = fo_thread_key f in
        \<lparr>ts_key = key,
         ts_native = distinct_values (List.map_filter cr_thread_id
           (filter (\<lambda>m. (mg_provider m, mg_account_id m) = (fst scope, fst (snd scope))
              \<and> effective_identity st m = Some (snd (snd scope)) \<and> sr_thread_key m = Some key) (logical_view st))),
         ts_ids = sort (map ti_rfc_id (filter (\<lambda>t. ti_scope t = scope \<and> ti_thread_key t = key) (cp_thread_ids st))),
         ts_aliases = alias_count st key,
         ts_watermark = find_watermark st scope key\<rparr>))
       (filter (\<lambda>f. (fo_provider f, fo_account_id f, fo_mailbox_identity_key f) = scope \<and> fo_followed f) (cp_follows st))"

definition put_watermark :: "mail_scope \<Rightarrow> pystr \<Rightarrow> instant \<Rightarrow> capture_store \<Rightarrow> capture_store" where
  "put_watermark scope key at st =
     (let here = (\<lambda>w. wm_scope w = scope \<and> wm_thread_key w = key) in
      st\<lparr>cp_watermarks := (if list_ex here (cp_watermarks st)
        then update_where here (\<lambda>w. w\<lparr>wm_synced_through := max (wm_synced_through w) at\<rparr>) (cp_watermarks st)
        else cp_watermarks st @ [\<lparr>wm_scope = scope, wm_thread_key = key, wm_synced_through = at\<rparr>])\<rparr>)"

definition record_watermark :: "mail_scope \<Rightarrow> progress_row \<Rightarrow> thread_state \<Rightarrow> reconcile_store \<Rightarrow> reconcile_store \<times> bool" where
  "record_watermark scope progress thread st =
     (if \<not> is_followed (rk_capture st) scope (ts_key thread) \<or> alias_count (rk_capture st) (ts_key thread) \<noteq> ts_aliases thread
      then (st, False)
      else (st\<lparr>rk_capture := put_watermark scope (ts_key thread) (pr_started_at progress) (rk_capture st)\<rparr>, True))"

section \<open>Certifying coverage\<close>

definition days :: "int \<Rightarrow> instant" where
  "days n = seconds (n * 86400)"

definition put_reconciled :: "reconciled_row \<Rightarrow> reconciled_row list \<Rightarrow> reconciled_row list" where
  "put_reconciled r rows =
     (if list_ex (\<lambda>x. rv_scope x = rv_scope r) rows
      then update_where (\<lambda>x. rv_scope x = rv_scope r \<and> rv_generation x \<le> rv_generation r) (\<lambda>_. r) rows
      else rows @ [r])"

definition complete_pass :: "timeenv \<Rightarrow> mail_scope \<Rightarrow> progress_row \<Rightarrow> instant \<Rightarrow> reconcile_store \<Rightarrow> err + reconcile_store" where
  "complete_pass te scope progress now st =
     andThen (require (\<not> catchup_pending scope progress st) (RuntimeError ''reconcile catch-up remains pending'')) (\<lambda>_.
     andThen (require (map_option (\<lambda>p. (pr_generation p, pr_version p)) (find_progress st scope)
           = Some (pr_generation progress, pr_version progress)) (RuntimeError ''reconcile progress changed concurrently'')) (\<lambda>_.
     andThen (require (body_pending te scope (pr_started_at progress - days (pr_retention_days progress)) (pr_started_at progress)
           (Some 1) [] (rk_capture st) = []) (RuntimeError ''reconcile body work remains pending'')) (\<lambda>_.
     (let st = st\<lparr>rk_reconciled := put_reconciled \<lparr>rv_scope = scope, rv_generation = pr_generation progress, rv_recorded_at = now\<rparr> (rk_reconciled st)\<rparr>;
          st = drop_items scope (\<lambda>i. it_generation i = pr_generation progress) st;
          st = drop_catchup scope (\<lambda>c. ct_generation c = pr_generation progress) st in
      Inr (st\<lparr>rk_progress := delete_where (at_progress scope progress) (rk_progress st)\<rparr>)))))"

definition coverage_current :: "timeenv \<Rightarrow> mail_scope \<Rightarrow> instant \<Rightarrow> int option \<Rightarrow> reconcile_store \<Rightarrow> err + bool" where
  "coverage_current te scope now retention_days st =
     (case find_coverage st scope of
        None \<Rightarrow> Inr False
      | Some g \<Rightarrow>
          if map_option rv_generation (find_reconciled st scope) \<noteq> Some (cg_generation g) then Inr False
          else if find_progress st scope \<noteq> None then Inr False
          else if list_ex (\<lambda>f. (fo_provider f, fo_account_id f, fo_mailbox_identity_key f) = scope \<and> fo_followed f
              \<and> find_watermark (rk_capture st) scope (fo_thread_key f) = None) (cp_follows (rk_capture st)) then Inr False
          else
            andThen (the_row TypeError (case retention_days of Some d \<Rightarrow> Some d | None \<Rightarrow> cg_retention_days g)) (\<lambda>d.
            Inr (body_pending te scope (now - days d) now (Some 1) [] (rk_capture st) = [])))"

end
