(* ===== verification/Reconcile_Proofs.thy ===== *)
theory Reconcile_Proofs
  imports Reconcile Interfaces
begin

text \<open>
  Coverage refines a small machine: a state is the present generation of a mailbox, the generation of
  the pass in progress and the certified generation. From it follows that coverage is certified only
  by a pass that was loaded and completed while nothing that can hide messages happened.
\<close>

section \<open>The machine\<close>

type_synonym cover = "int option \<times> int option \<times> int option"

datatype pass_event = Hidden | Started | Certified | Quiet

inductive cover_step :: "cover \<Rightarrow> pass_event \<Rightarrow> cover \<Rightarrow> bool" where
  hidden: "\<forall>x. g = Some x \<longrightarrow> x < g' \<Longrightarrow> cover_step (g, p, r) Hidden (Some g', p, r)"
| started: "cover_step (Some g, p, r) Started (Some g, Some g, r)"
| certified: "cover_step (g, Some p, r) Certified (g, None, Some (case r of Some q \<Rightarrow> max p q | None \<Rightarrow> p))"
| quiet: "cover_step v Quiet v"

inductive_cases cover_stepE: "cover_step v e v'"

definition cover_ok :: "cover \<Rightarrow> bool" where
  "cover_ok = (\<lambda>(g, p, r). \<forall>x. p = Some x \<or> r = Some x \<longrightarrow> (\<exists>y. g = Some y \<and> x \<le> y))"

lemma cover_step_ok: "cover_step v e v' \<Longrightarrow> cover_ok v \<Longrightarrow> cover_ok v'"
  by (induction rule: cover_step.induct) (auto simp: cover_ok_def split: option.splits)

lemma cover_step_mono: "cover_step v e v' \<Longrightarrow> fst v = Some g \<Longrightarrow> \<exists>g'. fst v' = Some g' \<and> g \<le> g' \<and> (e = Hidden \<longrightarrow> g < g')"
  by (induction rule: cover_step.induct) auto

section \<open>The store as the machine\<close>

definition cover_of :: "reconcile_store \<Rightarrow> mail_scope \<Rightarrow> cover" where
  "cover_of st scope = (map_option cg_generation (find_coverage st scope), map_option pr_generation (find_progress st scope),
     map_option rv_generation (find_reconciled st scope))"

definition one_progress :: "reconcile_store \<Rightarrow> bool" where
  "one_progress st \<longleftrightarrow> distinct (map pr_scope (rk_progress st))"

lemmas cover_simps = cover_of_def find_coverage_def find_progress_def find_reconciled_def

lemma ensure_coverage_cover:
  "cover_of (ensure_coverage scope st) s =
     (if s = scope \<and> fst (cover_of st s) = None then (Some 0, snd (cover_of st s)) else cover_of st s)"
  by (auto simp: cover_simps ensure_coverage_def find_append_rows split: option.splits)

lemma update_coverage_cover:
  assumes "\<And>g. cg_scope (f g) = cg_scope g"
  shows "find_coverage (update_coverage scope f st) s = (if s = scope then map_option f (find_coverage st s) else find_coverage st s)"
proof -
  have "find_coverage (update_coverage scope f st) s = map_option (\<lambda>g. if cg_scope g = scope then f g else g) (find_coverage st s)"
    unfolding find_coverage_def update_coverage_def by (simp add: find_key_update assms)
  moreover have "cg_scope g = s" if "find_coverage st s = Some g" for g using that by (auto simp: find_coverage_def find_Some_iff)
  ultimately show ?thesis by (cases "find_coverage st s") auto
qed

lemma bump_cover:
  "cover_of (bump_coverage_generation scope n clear st) s =
     (if s = scope then (Some (n + (case fst (cover_of st s) of Some g \<Rightarrow> g | None \<Rightarrow> 0)), snd (cover_of st s)) else cover_of st s)"
proof -
  have other: "find_progress (bump_coverage_generation scope n clear st) s = find_progress st s"
    "find_reconciled (bump_coverage_generation scope n clear st) s = find_reconciled st s"
    by (auto simp: bump_coverage_generation_def Let_def update_coverage_def ensure_coverage_def find_progress_def find_reconciled_def)
  have "find_coverage (bump_coverage_generation scope n clear st) s
      = find_coverage (update_coverage scope (\<lambda>g. g\<lparr>cg_generation := cg_generation g + n\<rparr>) (ensure_coverage scope st)) s"
    by (simp add: bump_coverage_generation_def Let_def find_coverage_def)
  then have "map_option cg_generation (find_coverage (bump_coverage_generation scope n clear st) s)
      = (if s = scope then map_option (\<lambda>g. cg_generation g + n) (find_coverage (ensure_coverage scope st) s) else fst (cover_of (ensure_coverage scope st) s))"
    by (simp add: update_coverage_cover cover_of_def option.map_comp o_def)
  moreover have "map_option (\<lambda>g. cg_generation g + n) (find_coverage (ensure_coverage scope st) s) = map_option (\<lambda>g. g + n) (fst (cover_of (ensure_coverage scope st) s))"
    by (simp add: cover_of_def option.map_comp o_def)
  ultimately show ?thesis
    using other ensure_coverage_cover [of scope st s] by (auto simp: cover_of_def split: option.splits)
qed

lemma clear_stamps_cover: "clear_stamps_of scope now st = Inr st' \<Longrightarrow> cover_of st' = cover_of st \<and> rk_progress st' = rk_progress st"
  by (auto simp: clear_stamps_of_def res_splits cover_simps fun_eq_iff)

lemma coverage_untouched: "rk_coverage st' = rk_coverage st \<Longrightarrow> rk_reconciled st' = rk_reconciled st \<Longrightarrow> rk_progress st' = rk_progress st
    \<Longrightarrow> cover_of st' s = cover_of st s"
  by (simp add: cover_simps)

section \<open>The operations\<close>

datatype reconcile_op =
    Gap mail_scope instant
  | Observe mail_scope bool int "pystr option" instant
  | Flush "(mail_scope \<times> nat) list"
  | Load mail_scope instant int json
  | Save mail_scope progress_row
  | Next_interval mail_scope progress_row instant json
  | Put_items mail_scope progress_row pass_phase pystr "(pystr \<times> pystr option \<times> pystr option) list" item_folder
  | Finish_item mail_scope progress_row item_row
  | Record_watermark mail_scope progress_row thread_state
  | Follow mail_scope pystr instant
  | Complete mail_scope progress_row instant
  | Capture "capture_store \<Rightarrow> capture_store"

fun reconcile_exec :: "timeenv \<Rightarrow> reconcile_store \<Rightarrow> reconcile_op \<Rightarrow> err + reconcile_store" where
  "reconcile_exec te st (Gap scope now) = gap scope now st"
| "reconcile_exec te st (Observe scope active d sent now) = observe_settings scope active d sent now st"
| "reconcile_exec te st (Flush changed) = Inr (flush_coverage_inputs changed st)"
| "reconcile_exec te st (Load scope now d payload) = andThen (load_or_start scope now d payload st) (\<lambda>(st, _). Inr st)"
| "reconcile_exec te st (Save scope p) = andThen (save_progress scope p st) (\<lambda>(st, _). Inr st)"
| "reconcile_exec te st (Next_interval scope p now payload) = andThen (next_interval scope p now payload st) (\<lambda>(st, _). Inr st)"
| "reconcile_exec te st (Put_items scope p phase unit items folder) = Inr (put_items scope p phase unit items folder st)"
| "reconcile_exec te st (Finish_item scope p i) = Inr (finish_item scope p i st)"
| "reconcile_exec te st (Record_watermark scope p t) = Inr (fst (record_watermark scope p t st))"
| "reconcile_exec te st (Follow scope key now) = Inr (record_follow_transition scope key now st)"
| "reconcile_exec te st (Complete scope p now) = complete_pass te scope p now st"
| "reconcile_exec te st (Capture f) = Inr (st\<lparr>rk_capture := f (rk_capture st)\<rparr>)"

fun starts :: "reconcile_op \<Rightarrow> mail_scope \<Rightarrow> bool" where
  "starts (Load scope _ _ _) s \<longleftrightarrow> s = scope"
| "starts _ _ \<longleftrightarrow> False"

fun certifies :: "reconcile_op \<Rightarrow> mail_scope \<Rightarrow> bool" where
  "certifies (Complete scope _ _) s \<longleftrightarrow> s = scope"
| "certifies _ _ \<longleftrightarrow> False"

text \<open>A step whose events are among those allowed to the operation.\<close>

definition allowed_event :: "reconcile_op \<Rightarrow> mail_scope \<Rightarrow> pass_event \<Rightarrow> bool" where
  "allowed_event op s e \<longleftrightarrow> (e = Started \<longrightarrow> starts op s) \<and> (e = Certified \<longrightarrow> certifies op s)"

definition refined :: "reconcile_op \<Rightarrow> reconcile_store \<Rightarrow> reconcile_store \<Rightarrow> bool" where
  "refined op st st' \<longleftrightarrow> one_progress st' \<and> (\<forall>s. \<exists>e. allowed_event op s e \<and> cover_step (cover_of st s) e (cover_of st' s))"

lemma grows_step:
  assumes "snd v' = snd v" and "\<And>x. fst v = Some x \<Longrightarrow> \<exists>y \<ge> x. fst v' = Some y"
  shows "\<exists>e. allowed_event op s e \<and> cover_step v e v'"
proof (cases "v' = v")
  case True
  then show ?thesis using cover_step.quiet [of v] by (auto simp: allowed_event_def intro: exI [of _ Quiet])
next
  case False
  obtain g p r where v: "v = (g, p, r)" by (cases v) auto
  obtain g' where v': "v' = (g', p, r)" using assms(1) v by (cases v') auto
  have "cover_step v Hidden v'"
  proof (cases g')
    case None
    then show ?thesis using assms(2) False v v' by (cases g) auto
  next
    case (Some y)
    then have "\<forall>x. g = Some x \<longrightarrow> x < y" using assms(2) False v v' by fastforce
    then show ?thesis using cover_step.hidden [of g y p r] v v' Some by simp
  qed
  then show ?thesis by (auto simp: allowed_event_def intro: exI [of _ Hidden])
qed

lemma refined_grows:
  assumes "one_progress st" and "rk_progress st' = rk_progress st"
    and "\<And>s. snd (cover_of st' s) = snd (cover_of st s)"
    and "\<And>s x. fst (cover_of st s) = Some x \<Longrightarrow> \<exists>y \<ge> x. fst (cover_of st' s) = Some y"
  shows "refined op st st'"
  using assms grows_step [of "cover_of st' s" "cover_of st s" op s for s] unfolding refined_def one_progress_def by auto

lemma refined_same:
  assumes "one_progress st'" and "\<And>s. cover_of st' s = cover_of st s"
  shows "refined op st st'"
  using assms grows_step [of "cover_of st' s" "cover_of st s" op s for s] unfolding refined_def by auto

lemma bump_progress: "rk_progress (bump_coverage_generation scope n clear st) = rk_progress st"
  by (auto simp: bump_coverage_generation_def Let_def update_coverage_def ensure_coverage_def)

lemma gap_refined:
  assumes "one_progress st" and "gap scope now st = Inr st'"
  shows "refined op st st'"
    and "\<exists>g. fst (cover_of st' scope) = Some g \<and> (\<forall>x. fst (cover_of st scope) = Some x \<longrightarrow> x < g)"
proof -
  have e: "cover_of st' = cover_of (bump_coverage_generation scope 1 True st)" "rk_progress st' = rk_progress st"
    using clear_stamps_cover [of scope now "bump_coverage_generation scope 1 True st" st'] assms(2) bump_progress
    unfolding gap_def by auto
  show "refined op st st'" by (rule refined_grows) (auto simp: assms(1) e bump_cover)
  show "\<exists>g. fst (cover_of st' scope) = Some g \<and> (\<forall>x. fst (cover_of st scope) = Some x \<longrightarrow> x < g)" by (simp add: e bump_cover)
qed

lemma flush_refined: "one_progress st \<Longrightarrow> refined op st (flush_coverage_inputs changed st)"
proof -
  assume one: "one_progress st"
  have "rk_progress (flush_coverage_inputs changed st) = rk_progress st
      \<and> snd (cover_of (flush_coverage_inputs changed st) s) = snd (cover_of st s)
      \<and> (fst (cover_of st s) = Some x \<longrightarrow> (\<exists>y \<ge> x. fst (cover_of (flush_coverage_inputs changed st) s) = Some y))" for s x
  proof (induction changed arbitrary: st x)
    case (Cons c cs)
    obtain scope n where c: "c = (scope, n)" by (cases c) auto
    let ?b = "bump_coverage_generation scope (int n) False st"
    have f: "flush_coverage_inputs (c # cs) st = flush_coverage_inputs cs ?b" by (simp add: flush_coverage_inputs_def c)
    have b: "rk_progress ?b = rk_progress st" "snd (cover_of ?b s) = snd (cover_of st s)" by (simp_all add: bump_progress bump_cover)
    have "fst (cover_of st s) = Some x \<Longrightarrow> \<exists>y \<ge> x. fst (cover_of ?b s) = Some y" by (auto simp: bump_cover)
    then show ?case using Cons.IH [of ?b] b unfolding f by (metis order_trans)
  qed (simp add: flush_coverage_inputs_def)
  then show ?thesis using one by (intro refined_grows) blast+
qed

lemma observe_refined:
  assumes one: "one_progress st" and h: "observe_settings scope active d sent now st = Inr st'"
  shows "refined op st st'"
proof -
  let ?e = "ensure_coverage scope st"
  have e: "rk_progress ?e = rk_progress st" "snd (cover_of ?e s) = snd (cover_of st s)"
    "fst (cover_of st s) = Some x \<Longrightarrow> fst (cover_of ?e s) = Some x" for s x
    by (auto simp: ensure_coverage_cover) (simp add: ensure_coverage_def)
  have settled: "refined op st st''" if "rk_progress st'' = rk_progress ?e" "\<And>s. snd (cover_of st'' s) = snd (cover_of ?e s)"
    "\<And>s x. fst (cover_of ?e s) = Some x \<Longrightarrow> \<exists>y \<ge> x. fst (cover_of st'' s) = Some y" for st''
    using that e by (intro refined_grows [OF one]) auto
  define f where "f sent = (\<lambda>g :: coverage_row. g\<lparr>cg_entitlement_active := Some active, cg_retention_days := Some d, cg_sent_folder := sent\<rparr>)" for sent
  have f: "cover_of (update_coverage scope (f x) b) = cover_of b" "rk_progress (update_coverage scope (f x) b) = rk_progress b" for x b
    by (auto simp: fun_eq_iff cover_of_def f_def update_coverage_cover option.map_comp o_def)
      (simp_all add: update_coverage_def find_progress_def find_reconciled_def)
  have "st' = ?e \<or> (\<exists>x clear. let b = update_coverage scope (f x) (bump_coverage_generation scope 1 clear ?e) in
      st' = b \<or> clear_stamps_of scope now b = Inr st')"
    using h by (auto simp: observe_settings_def Let_def res_splits f_def split: if_splits)
  then show ?thesis
  proof (elim disjE exE)
    fix x clear
    assume a: "let b = update_coverage scope (f x) (bump_coverage_generation scope 1 clear ?e) in st' = b \<or> clear_stamps_of scope now b = Inr st'"
    have "cover_of st' = cover_of (bump_coverage_generation scope 1 clear ?e)" "rk_progress st' = rk_progress ?e"
      using a f clear_stamps_cover bump_progress unfolding Let_def by metis+
    then show ?thesis by (intro settled) (auto simp: bump_cover)
  qed (auto intro: settled)
qed

section \<open>Operations on the progress\<close>

lemma progress_find: "one_progress st \<Longrightarrow> p \<in> set (rk_progress st) \<Longrightarrow> find_progress st (pr_scope p) = Some p"
  unfolding one_progress_def find_progress_def by (rule find_key_distinct)

lemma find_progress_mem: "find_progress st scope = Some p \<Longrightarrow> p \<in> set (rk_progress st) \<and> pr_scope p = scope"
  unfolding find_progress_def by (rule find_key_Some)

lemma insert_progress_cover:
  assumes "one_progress st" and "find_progress st (pr_scope p) = None" and "insert_progress p st = Inr (st', q)"
  shows "one_progress st'"
    and "cover_of st' s = (fst (cover_of st s), if s = pr_scope p then Some (pr_generation p) else fst (snd (cover_of st s)), snd (snd (cover_of st s)))"
proof -
  have st': "st' = st\<lparr>rk_progress := rk_progress st @ [p]\<rparr>" using assms(3) by (auto simp: insert_progress_def res_splits)
  have new: "pr_scope p \<notin> pr_scope ` set (rk_progress st)" using assms(2) unfolding find_progress_def by (simp add: find_key_None)
  show "one_progress st'" using assms(1) new by (simp add: st' one_progress_def)
  show "cover_of st' s = (fst (cover_of st s), if s = pr_scope p then Some (pr_generation p) else fst (snd (cover_of st s)), snd (snd (cover_of st s)))"
    using find_key_insert [OF new, of s] by (simp add: st' cover_simps)
qed

lemma drop_progress_cover:
  "one_progress st \<Longrightarrow> one_progress (drop_catchup scope P (drop_items scope Q (drop_progress scope st)))"
  "cover_of (drop_catchup scope P (drop_items scope Q (drop_progress scope st))) s
     = (fst (cover_of st s), if s = scope then None else fst (snd (cover_of st s)), snd (snd (cover_of st s)))"
  by (simp_all add: drop_catchup_def drop_items_def drop_progress_def one_progress_def distinct_delete_where cover_simps find_key_delete)

lemma progress_cover: "find_progress st s = None \<longleftrightarrow> fst (snd (cover_of st s)) = None"
  by (simp add: cover_of_def)

lemma load_refined:
  assumes one: "one_progress st" and h: "load_or_start scope now d payload st = Inr (st', p)"
  shows "refined (Load scope now d payload) st st'"
proof -
  from h obtain g where g: "find_coverage st scope = Some g"
    by (auto simp: load_or_start_def res_splits)
  let ?new = "new_progress scope (cg_generation g) now d payload"
  have at: "pr_scope ?new = scope" "pr_generation ?new = cg_generation g" by (simp_all add: new_progress_def)
  obtain p0 r0 where c: "cover_of st scope = (Some (cg_generation g), p0, r0)" by (simp add: cover_of_def g)
  have step: "refined (Load scope now d payload) st st''"
    if "one_progress st''" "\<And>s. cover_of st'' s = (fst (cover_of st s), if s = scope then Some (cg_generation g) else fst (snd (cover_of st s)), snd (snd (cover_of st s)))" for st''
  proof -
    have "\<exists>e. allowed_event (Load scope now d payload) s e \<and> cover_step (cover_of st s) e (cover_of st'' s)" for s
    proof (cases "s = scope")
      case True
      have "cover_step (cover_of st s) Started (cover_of st'' s)"
        using cover_step.started [of "cg_generation g" p0 r0] True by (simp add: that(2) c)
      then show ?thesis using True by (auto simp: allowed_event_def)
    next
      case False
      then show ?thesis using that(2) [of s] by (intro grows_step) auto
    qed
    then show ?thesis using that(1) by (simp add: refined_def)
  qed
  let ?dropped = "drop_catchup scope (\<lambda>_. True) (drop_items scope (\<lambda>_. True) (drop_progress scope st))"
  have "st' = st \<or> find_progress st scope = None \<and> insert_progress ?new st = Inr (st', p) \<or> insert_progress ?new ?dropped = Inr (st', p)"
    using h g by (auto simp: load_or_start_def res_splits split: option.splits if_splits)
  then show ?thesis
  proof (elim disjE conjE)
    assume "st' = st"
    then show ?thesis using one by (intro refined_same) auto
  next
    assume "find_progress st scope = None" "insert_progress ?new st = Inr (st', p)"
    then show ?thesis using insert_progress_cover [OF one, of ?new st' p] by (intro step) (simp_all add: at)
  next
    assume i: "insert_progress ?new ?dropped = Inr (st', p)"
    have "find_progress ?dropped (pr_scope ?new) = None" by (simp add: progress_cover drop_progress_cover at)
    from insert_progress_cover [OF drop_progress_cover(1) [OF one] this i] show ?thesis
      by (intro step) (simp_all add: at drop_progress_cover)
  qed
qed

lemma save_refined:
  assumes one: "one_progress st" and h: "save_progress scope q st = Inr (st', p)"
  shows "refined op st st'"
proof -
  let ?f = "\<lambda>p. p\<lparr>pr_payload := pr_payload q, pr_version := pr_version p + 1\<rparr>"
  have st': "st' = st\<lparr>rk_progress := update_where (at_progress scope q) ?f (rk_progress st)\<rparr>" using h by (simp add: save_progress_def res_splits)
  have "one_progress st'" using one by (simp add: st' one_progress_def map_update_where)
  moreover have "cover_of st' s = cover_of st s" for s
    by (auto simp: st' cover_simps find_key_update option.map_comp o_def intro: option.map_cong)
  ultimately show ?thesis by (rule refined_same)
qed

text \<open>The row an update names by scope, generation and version is the row of the scope.\<close>

lemma drop_at_progress:
  assumes one: "one_progress st" and p: "find_progress st scope = Some p" "at_progress scope q p"
  shows "one_progress (st\<lparr>rk_progress := delete_where (at_progress scope q) (rk_progress st)\<rparr>)"
    and "cover_of (st\<lparr>rk_progress := delete_where (at_progress scope q) (rk_progress st)\<rparr>) s
      = (fst (cover_of st s), if s = scope then None else fst (snd (cover_of st s)), snd (snd (cover_of st s)))"
proof -
  have "at_progress scope q r \<longleftrightarrow> pr_scope r = scope" if "r \<in> set (rk_progress st)" for r
    using that distinct_key_eq [of pr_scope "rk_progress st" r p] one find_progress_mem [OF p(1)] p(2)
    by (auto simp: one_progress_def at_progress_def)
  then have "delete_where (at_progress scope q) (rk_progress st) = delete_where (\<lambda>r. pr_scope r = scope) (rk_progress st)"
    by (auto simp: delete_where_def intro: filter_cong)
  then have "st\<lparr>rk_progress := delete_where (at_progress scope q) (rk_progress st)\<rparr> = drop_progress scope st"
    by (simp add: drop_progress_def)
  then show "one_progress (st\<lparr>rk_progress := delete_where (at_progress scope q) (rk_progress st)\<rparr>)"
    "cover_of (st\<lparr>rk_progress := delete_where (at_progress scope q) (rk_progress st)\<rparr>) s
      = (fst (cover_of st s), if s = scope then None else fst (snd (cover_of st s)), snd (snd (cover_of st s)))"
    using one by (simp_all add: drop_progress_def one_progress_def distinct_delete_where cover_simps find_key_delete)
qed

lemma at_progress_find:
  assumes "one_progress st" and "count_where (at_progress scope q) (rk_progress st) = 1"
  obtains p where "find_progress st scope = Some p" and "at_progress scope q p"
proof -
  obtain p where p: "p \<in> set (rk_progress st)" "at_progress scope q p"
    using assms(2) count_where_zero_iff [of "at_progress scope q" "rk_progress st"] by auto
  then show ?thesis using progress_find [OF assms(1) p(1)] that by (auto simp: at_progress_def)
qed

lemma drop_items_cover:
  "cover_of (drop_items scope P st) s = cover_of st s" "one_progress (drop_items scope P st) \<longleftrightarrow> one_progress st"
  by (simp_all add: drop_items_def cover_simps one_progress_def)

lemma next_interval_refined:
  assumes one: "one_progress st" and h: "next_interval scope q now payload st = Inr (st', r)"
  shows "refined op st st'"
proof -
  let ?rest = "st\<lparr>rk_progress := delete_where (at_progress scope q) (rk_progress st)\<rparr>"
  let ?new = "new_progress scope (pr_generation q) now (pr_retention_days q) payload"
  from h have "count_where (at_progress scope q) (rk_progress st) = 1" and i: "insert_progress ?new (drop_items scope (\<lambda>_. True) ?rest) = Inr (st', r)"
    by (simp_all add: next_interval_def res_splits)
  then obtain p where p: "find_progress st scope = Some p" "at_progress scope q p" using at_progress_find [OF one] by blast
  note rest = drop_at_progress [OF one p]
  have at: "pr_scope ?new = scope" "pr_generation ?new = pr_generation p" using p(2) by (simp_all add: new_progress_def at_progress_def)
  have "one_progress (drop_items scope (\<lambda>_. True) ?rest)" "find_progress (drop_items scope (\<lambda>_. True) ?rest) (pr_scope ?new) = None"
    using rest by (simp_all add: drop_items_cover progress_cover at)
  note new = insert_progress_cover [OF this i]
  have "cover_of st' s = cover_of st s" for s
    using new(2) [of s] by (simp add: drop_items_cover rest at) (auto simp: cover_of_def p(1))
  then show ?thesis using new(1) by (intro refined_same)
qed

lemma put_reconciled_find:
  "map_option rv_generation (List.find (\<lambda>x. rv_scope x = s) (put_reconciled r rows))
     = (if s = rv_scope r then Some (case List.find (\<lambda>x. rv_scope x = s) rows of Some q \<Rightarrow> max (rv_generation r) (rv_generation q) | None \<Rightarrow> rv_generation r)
        else map_option rv_generation (List.find (\<lambda>x. rv_scope x = s) rows))"
proof (cases "list_ex (\<lambda>x. rv_scope x = rv_scope r) rows")
  case True
  then obtain q where q: "List.find (\<lambda>x. rv_scope x = rv_scope r) rows = Some q"
    by (cases "List.find (\<lambda>x. rv_scope x = rv_scope r) rows") (auto simp: find_None_iff list_ex_iff)
  define P where "P x \<longleftrightarrow> rv_scope x = rv_scope r \<and> rv_generation x \<le> rv_generation r" for x :: reconciled_row
  have put: "put_reconciled r rows = update_where P (\<lambda>_. r) rows" using True by (simp add: put_reconciled_def P_def [abs_def])
  have f: "List.find (\<lambda>x. rv_scope x = s) (update_where P (\<lambda>_. r) rows) = map_option (\<lambda>x. if P x then r else x) (List.find (\<lambda>x. rv_scope x = s) rows)"
    by (rule find_key_update) (simp add: P_def)
  show ?thesis
  proof (cases "List.find (\<lambda>x. rv_scope x = s) rows")
    case None
    then show ?thesis using q by (auto simp: put f)
  next
    case (Some x)
    then have "rv_scope x = s" by (rule find_key_Some [THEN conjunct2])
    then show ?thesis using Some by (auto simp: put f P_def)
  qed
next
  case False
  then have new: "rv_scope r \<notin> rv_scope ` set rows" by (auto simp: list_ex_iff)
  then have "List.find (\<lambda>x. rv_scope x = rv_scope r) rows = None" by (simp add: find_key_None)
  then show ?thesis using False find_key_insert [OF new, of s] by (simp add: put_reconciled_def)
qed

lemma complete_refined:
  assumes one: "one_progress st" and h: "complete_pass te scope q now st = Inr st'"
  shows "refined (Complete scope q now) st st'"
proof -
  from h have "map_option (\<lambda>p. (pr_generation p, pr_version p)) (find_progress st scope) = Some (pr_generation q, pr_version q)"
    by (auto simp: complete_pass_def res_splits)
  then obtain p where p: "find_progress st scope = Some p" "at_progress scope q p"
    using find_progress_mem [of st scope] by (auto simp: at_progress_def)
  let ?rest = "st\<lparr>rk_progress := delete_where (at_progress scope q) (rk_progress st)\<rparr>"
  note rest = drop_at_progress [OF one p]
  have st': "rk_coverage st' = rk_coverage st" "rk_progress st' = rk_progress ?rest"
    "rk_reconciled st' = put_reconciled \<lparr>rv_scope = scope, rv_generation = pr_generation p, rv_recorded_at = now\<rparr> (rk_reconciled st)"
    using h p(2) by (auto simp: complete_pass_def res_splits Let_def drop_items_def drop_catchup_def at_progress_def)
  have c: "fst (cover_of st' s) = fst (cover_of ?rest s)" "fst (snd (cover_of st' s)) = fst (snd (cover_of ?rest s))" for s
    by (simp_all add: cover_simps st')
  have r: "snd (snd (cover_of st' s)) = (if s = scope
      then Some (case snd (snd (cover_of st s)) of Some g \<Rightarrow> max (pr_generation p) g | None \<Rightarrow> pr_generation p) else snd (snd (cover_of st s)))" for s
    using put_reconciled_find [of s "\<lparr>rv_scope = scope, rv_generation = pr_generation p, rv_recorded_at = now\<rparr>" "rk_reconciled st"]
    by (auto simp: cover_simps st' split: option.splits)
  have "\<exists>e. allowed_event (Complete scope q now) s e \<and> cover_step (cover_of st s) e (cover_of st' s)" for s
  proof (cases "s = scope")
    case True
    obtain g r0 where v: "cover_of st s = (g, Some (pr_generation p), r0)" using p(1) True by (simp add: cover_of_def)
    have "cover_of st' s = (g, None, Some (case r0 of Some y \<Rightarrow> max (pr_generation p) y | None \<Rightarrow> pr_generation p))"
      using c [of s] r [of s] rest(2) [of s] True v by (cases "cover_of st' s") simp
    then have "cover_step (cover_of st s) Certified (cover_of st' s)" using cover_step.certified [of g "pr_generation p" r0] v by simp
    then show ?thesis using True by (auto simp: allowed_event_def)
  next
    case False
    then have "cover_of st' s = cover_of st s" using c [of s] r [of s] rest(2) [of s] by (cases "cover_of st' s"; cases "cover_of st s") simp
    then show ?thesis by (intro grows_step) auto
  qed
  moreover have "one_progress st'" using rest(1) st'(2) by (simp add: one_progress_def)
  ultimately show ?thesis by (simp add: refined_def)
qed

lemma reconcile_refines:
  assumes one: "one_progress st" and h: "reconcile_exec te st op = Inr st'"
  shows "refined op st st'"
proof -
  have still: "refined op st st'" if "rk_coverage st' = rk_coverage st" "rk_reconciled st' = rk_reconciled st" "rk_progress st' = rk_progress st"
  proof (rule refined_same)
    show "one_progress st'" using one that(3) by (simp add: one_progress_def)
    show "cover_of st' s = cover_of st s" for s using that by (rule coverage_untouched)
  qed
  show ?thesis
  proof (cases op)
    case (Gap scope now)
    then show ?thesis using gap_refined(1) [OF one] h by simp
  next
    case (Observe scope active d sent now)
    then show ?thesis using observe_refined [OF one] h by simp
  next
    case (Flush changed)
    then show ?thesis using flush_refined [OF one] h by auto
  next
    case (Load scope now d payload)
    then show ?thesis using load_refined [OF one, of scope now d payload st'] h by (auto simp: res_splits)
  next
    case (Save scope q)
    then show ?thesis using save_refined [OF one, of scope q st'] h by (auto simp: res_splits)
  next
    case (Next_interval scope q now payload)
    then show ?thesis using next_interval_refined [OF one, of scope q now payload st'] h by (auto simp: res_splits)
  next
    case (Complete scope q now)
    then show ?thesis using complete_refined [OF one] h by simp
  qed (rule still; use h in \<open>auto simp: put_items_def finish_item_def record_watermark_def record_follow_transition_def Let_def split: option.splits\<close>)+
qed

section \<open>What a certificate means\<close>

text \<open>
  A run whose steps refine the machine: what is certified at the present generation was started and
  completed at that generation, and the generation has not moved since.
\<close>

definition pass_opened :: "('s \<Rightarrow> 'op \<Rightarrow> 'e + 's) \<Rightarrow> ('s \<Rightarrow> cover) \<Rightarrow> ('op \<Rightarrow> bool) \<Rightarrow> 's \<Rightarrow> 'op list \<Rightarrow> int \<Rightarrow> bool" where
  "pass_opened exec view starting s ops g \<longleftrightarrow>
     (\<exists>pre op mid. ops = pre @ op # mid \<and> starting op \<and> is_ok (exec (foldl (committed exec) s pre) op)
        \<and> fst (view (foldl (committed exec) s pre)) = Some g)"

definition pass_closed ::
  "('s \<Rightarrow> 'op \<Rightarrow> 'e + 's) \<Rightarrow> ('s \<Rightarrow> cover) \<Rightarrow> ('op \<Rightarrow> bool) \<Rightarrow> ('op \<Rightarrow> bool) \<Rightarrow> 's \<Rightarrow> 'op list \<Rightarrow> int \<Rightarrow> bool" where
  "pass_closed exec view starting certifying s ops g \<longleftrightarrow>
     (\<exists>before op post. ops = before @ op # post \<and> certifying op \<and> is_ok (exec (foldl (committed exec) s before) op)
        \<and> pass_opened exec view starting s before g)"

locale covered =
  fixes exec :: "'s \<Rightarrow> 'op \<Rightarrow> 'e + 's"
    and view :: "'s \<Rightarrow> cover"
    and starting :: "'op \<Rightarrow> bool"
    and certifying :: "'op \<Rightarrow> bool"
    and invar :: "'s \<Rightarrow> bool"
  assumes exec_invar: "invar s \<Longrightarrow> exec s op = Inr s' \<Longrightarrow> invar s'"
    and exec_step: "invar s \<Longrightarrow> exec s op = Inr s' \<Longrightarrow>
      \<exists>e. (e = Started \<longrightarrow> starting op) \<and> (e = Certified \<longrightarrow> certifying op) \<and> cover_step (view s) e (view s')"
begin

lemma committed_step:
  assumes "invar s"
  obtains (same) "committed exec s op = s"
    | (step) e s' where "exec s op = Inr s'" "committed exec s op = s'" "e = Started \<longrightarrow> starting op" "e = Certified \<longrightarrow> certifying op"
        "cover_step (view s) e (view s')"
proof (cases "exec s op")
  case (Inl x)
  then show ?thesis using same committed_Inl [of exec] by blast
next
  case (Inr s')
  then show ?thesis using exec_step [OF assms Inr] step committed_Inr [of exec, OF Inr] by blast
qed

lemma run_ok: "invar s \<Longrightarrow> cover_ok (view s) \<Longrightarrow> invar (foldl (committed exec) s ops) \<and> cover_ok (view (foldl (committed exec) s ops))"
proof (induction ops arbitrary: s)
  case (Cons op ops)
  have "invar (committed exec s op) \<and> cover_ok (view (committed exec s op))"
    by (rule committed_step [OF Cons.prems(1), of op]) (use Cons.prems exec_invar cover_step_ok in \<open>auto\<close>)
  then show ?case using Cons.IH by simp
qed simp

lemma run_mono: "invar s \<Longrightarrow> fst (view s) = Some g \<Longrightarrow> \<exists>g' \<ge> g. fst (view (foldl (committed exec) s ops)) = Some g'"
proof (induction ops arbitrary: s g)
  case (Cons op ops)
  have "invar (committed exec s op) \<and> (\<exists>g' \<ge> g. fst (view (committed exec s op)) = Some g')"
  proof (rule committed_step [OF Cons.prems(1), of op])
    fix e s' assume "exec s op = Inr s'" "committed exec s op = s'" "cover_step (view s) e (view s')"
    then show ?thesis using cover_step_mono [of "view s" e "view s'" g] exec_invar Cons.prems by auto
  qed (use Cons.prems in auto)
  then obtain g' where "invar (committed exec s op)" "fst (view (committed exec s op)) = Some g'" and g': "g \<le> g'" by blast
  from Cons.IH [OF this(1,2)] obtain g'' where "g' \<le> g''" "fst (view (foldl (committed exec) s (op # ops))) = Some g''" by auto
  with g' show ?case by (intro exI [of _ g'']) simp
qed auto

lemma opened_snoc: "pass_opened exec view starting s ops g \<Longrightarrow> pass_opened exec view starting s (ops @ [op]) g"
  unfolding pass_opened_def by (metis append_Cons append_assoc)

lemma closed_pass_snoc: "pass_closed exec view starting certifying s ops g \<Longrightarrow> pass_closed exec view starting certifying s (ops @ [op]) g"
  unfolding pass_closed_def by (metis append_Cons append_assoc)

lemma run_history:
  assumes "invar s" and "cover_ok (view s)" and "snd (view s) = (None, None)"
  shows "(fst (snd (view (foldl (committed exec) s ops))) = Some g \<and> fst (view (foldl (committed exec) s ops)) = Some g \<longrightarrow> pass_opened exec view starting s ops g)
    \<and> (snd (snd (view (foldl (committed exec) s ops))) = Some g \<and> fst (view (foldl (committed exec) s ops)) = Some g \<longrightarrow> pass_closed exec view starting certifying s ops g)"
proof (induction ops rule: rev_induct)
  case Nil
  then show ?case using assms(3) by simp
next
  case (snoc op ops)
  let ?s = "foldl (committed exec) s ops"
  have ok: "invar ?s" "cover_ok (view ?s)" using run_ok [OF assms(1,2)] by auto
  show ?case
  proof (rule committed_step [OF ok(1), of op])
    assume "committed exec ?s op = ?s"
    then show ?thesis using snoc.IH opened_snoc closed_pass_snoc by simp
  next
    fix e s' assume s': "exec ?s op = Inr s'" "committed exec ?s op = s'" and e: "e = Started \<longrightarrow> starting op" "e = Certified \<longrightarrow> certifying op"
      and step: "cover_step (view ?s) e (view s')"
    have run: "foldl (committed exec) s (ops @ [op]) = s'" using s'(2) by simp
    have acts: "is_ok (exec ?s op)" using s'(1) by simp
    from step show ?thesis
    proof (cases rule: cover_step.cases)
      case (hidden g0 g' p r)
      then show ?thesis using ok(2) run by (auto simp: cover_ok_def)
    next
      case (started g0 p r)
      then have "pass_opened exec view starting s (ops @ [op]) g0" using e(1) acts unfolding pass_opened_def by (intro exI [of _ ops] exI [of _ op] exI [of _ "[]"]) auto
      then show ?thesis using started run snoc.IH closed_pass_snoc by auto
    next
      case (certified g0 p r)
      have "pass_closed exec view starting certifying s (ops @ [op]) g" if "Some (case r of Some q \<Rightarrow> max p q | None \<Rightarrow> p) = Some g" "g0 = Some g"
      proof (cases "p = g")
        case True
        then have "pass_opened exec view starting s ops g" using snoc.IH certified that by auto
        then show ?thesis using certified e(2) acts unfolding pass_closed_def by (intro exI [of _ ops] exI [of _ op] exI [of _ "[]"]) auto
      next
        case False
        then have "r = Some g" using that by (auto split: option.splits simp: max_def split: if_splits)
        then show ?thesis using snoc.IH certified that(2) closed_pass_snoc by auto
      qed
      then show ?thesis using certified run by auto
    next
      case quiet
      then show ?thesis using snoc.IH opened_snoc closed_pass_snoc run by auto
    qed
  qed
qed

end

interpretation cov: covered "reconcile_exec te" "\<lambda>st. cover_of st scope" "\<lambda>op. starts op scope" "\<lambda>op. certifies op scope" one_progress
  for te scope
proof
  show "one_progress st'" if "one_progress st" "reconcile_exec te st op = Inr st'" for st op st'
    using reconcile_refines [OF that] by (simp add: refined_def)
  show "\<exists>e. (e = Started \<longrightarrow> starts op scope) \<and> (e = Certified \<longrightarrow> certifies op scope) \<and> cover_step (cover_of st scope) e (cover_of st' scope)"
    if "one_progress st" "reconcile_exec te st op = Inr st'" for st op st'
    using reconcile_refines [OF that] unfolding refined_def allowed_event_def by blast
qed

abbreviation reconcile_run :: "timeenv \<Rightarrow> reconcile_store \<Rightarrow> reconcile_op list \<Rightarrow> reconcile_store" where
  "reconcile_run te \<equiv> foldl (committed (reconcile_exec te))"

abbreviation generation_of :: "reconcile_store \<Rightarrow> mail_scope \<Rightarrow> int option" where
  "generation_of st scope \<equiv> map_option cg_generation (find_coverage st scope)"

definition no_passes :: "reconcile_store \<Rightarrow> bool" where
  "no_passes st \<longleftrightarrow> rk_coverage st = [] \<and> rk_reconciled st = [] \<and> rk_progress st = []"

lemma no_passes_start:
  assumes "no_passes st"
  shows "one_progress st" "cover_ok (cover_of st scope)" "snd (cover_of st scope) = (None, None)"
  using assms by (simp_all add: no_passes_def one_progress_def cover_ok_def cover_simps)

lemma generation_steady:
  assumes one: "one_progress st" and g: "generation_of (reconcile_run te st pre) scope = Some g" "generation_of (reconcile_run te st (pre @ rest)) scope = Some g"
    and k: "rest = before @ after"
  shows "generation_of (reconcile_run te st (pre @ before)) scope = Some g"
proof -
  let ?a = "reconcile_run te st pre" and ?b = "reconcile_run te st (pre @ before)"
  have one': "one_progress (reconcile_run te st xs)" for xs
    by (induction xs rule: rev_induct) (use one cov.exec_invar in \<open>auto simp: committed_def split: sum.splits\<close>)
  have a: "fst (cover_of ?a scope) = Some g" using g(1) by (simp add: cover_of_def)
  from cov.run_mono [where te = te and ops = before, OF one' a] obtain g' where g': "g \<le> g'" "fst (cover_of ?b scope) = Some g'" by auto
  from cov.run_mono [where te = te and ops = after, OF one' this(2)] g(2) k have "g' \<le> g" by (auto simp: cover_of_def)
  with g' show ?thesis by (simp add: cover_of_def)
qed

lemma no_gap_steady:
  assumes "one_progress st" and "generation_of st scope = Some g" and "gap scope now st = Inr st'"
  shows "generation_of st' scope \<noteq> Some g"
  using gap_refined(2) [OF assms(1,3)] assms(2) by (auto simp: cover_of_def)


definition idle_store :: reconcile_store where
  "idle_store = \<lparr>rk_coverage = [], rk_reconciled = [], rk_progress = [], rk_items = [], rk_capture =
     \<lparr>cp_messages = [], cp_accounts = [], cp_removal = None, cp_label_selectors = [], cp_label_sets = [],
      cp_suppressed = [], cp_recipients = [], cp_locations = [], cp_observations = [], cp_thread_ids = [], cp_aliases = [],
      cp_watermarks = [], cp_catchup = [], cp_header_gaps = [], cp_bodies = [], cp_body_unavailable = [], cp_returned_sources = [], cp_follows = []\<rparr>\<rparr>"

definition idle_time :: timeenv where
  "idle_time = \<lparr>fromisoformat = \<lambda>_. None, zone_offset = \<lambda>_. None, local_offset = \<lambda>_. 0\<rparr>"

definition one_pass :: "mail_scope \<Rightarrow> reconcile_op list" where
  "one_pass scope =
     [Gap scope 1, Load scope 2 30 JNull, Complete scope (new_progress scope 1 2 30 JNull) 3, Gap (fst scope, lit ''other'', snd (snd scope)) 4]"

lemmas pass_simps = reconcile_exec.simps gap_def clear_stamps_of_def clear_location_stamps_def bump_coverage_generation_def ensure_coverage_def
  update_coverage_def find_coverage_def find_reconciled_def find_progress_def clear_watermarks_def load_or_start_def insert_progress_def new_progress_def
  complete_pass_def catchup_pending_def catchup_targets_def put_reconciled_def drop_items_def drop_catchup_def at_progress_def body_pending_def
  needs_discovery_def committed_def distinct_values_def update_where_def delete_where_def Let_def

lemma one_pass_certifies: "\<not> needs_discovery (lit ''imap'', lit ''a'', lit ''k'') (reconcile_run idle_time idle_store (one_pass (lit ''imap'', lit ''a'', lit ''k'')))"
  by (simp add: pass_simps one_pass_def idle_store_def logical_view_def lit_def)


end
