(* ===== verification/Gmail_Labels.thy ===== *)
theory Gmail_Labels
  imports Reconcile Json_Parse
begin

text \<open>
  Mailbox accounts and their identity, and the Gmail labels whose messages are admitted: the selectors of
  an account, their revision, and the last check of them against the labels of the mailbox
  (\<open>Store.register_mail_account\<close> to \<open>Store.gmail_label_selector_is_current\<close> in \<open>db.py\<close>).

  The provider column of the label tables is always \<open>gmail\<close> (a CHECK) and is left out. A write to
  \<open>mail_accounts\<close> that changes an address or an identity makes every known mailbox stale: the temporary
  trigger on the table notes each account, and the notes are flushed before the commit.
\<close>

definition gmail :: pystr where
  "gmail = lit ''gmail''"

definition MAX_GMAIL_LABEL_SELECTORS :: nat where
  "MAX_GMAIL_LABEL_SELECTORS = 100"

definition MAX_GMAIL_LABEL_ID_BYTES :: nat where
  "MAX_GMAIL_LABEL_ID_BYTES = 512"

definition MAX_GMAIL_LABEL_NAME_BYTES :: nat where
  "MAX_GMAIL_LABEL_NAME_BYTES = 1024"

section \<open>Tables\<close>

datatype legacy_status = Legacy_unresolved | Legacy_continuity | Legacy_replacement

record mailbox_account =
  mx_provider :: pystr
  mx_account_id :: pystr
  mx_display_name :: pystr
  mx_address :: "pystr option"
  mx_active :: bool
  mx_created_at :: instant
  mx_updated_at :: instant
  mx_mailbox_identity_key :: "pystr option"
  mx_legacy_status :: legacy_status
  mx_legacy_identity_key :: "pystr option"

record mailbox_cursor =
  mc_provider :: pystr
  mc_account_id :: pystr
  mc_cursor :: pystr
  mc_last_success_at :: instant

record label_set =
  lb_account_id :: pystr
  lb_identity :: pystr
  lb_revision :: int
  lb_created_at :: instant
  lb_updated_at :: instant

record label_row =
  lr_selector_id :: pystr
  lr_account_id :: pystr
  lr_identity :: pystr
  lr_label_id :: pystr
  lr_selected_display_name :: pystr
  lr_created_at :: instant

datatype catalog_state = Catalog_current | Catalog_invalid

datatype label_status = Label_active | Label_deleted | Label_not_user

record validation_set =
  vs_account_id :: pystr
  vs_identity :: pystr
  vs_revision :: int
  vs_validated_at :: instant
  vs_catalog_state :: catalog_state

record label_validation =
  va_selector_id :: pystr
  va_label_id :: pystr
  va_status :: label_status
  va_display_name :: pystr

record validation_row = label_validation +
  va_account_id :: pystr
  va_identity :: pystr
  va_revision :: int

datatype recovery_phase = Collecting | Backoff | Degraded

record recovery_row =
  rs_account_id :: pystr
  rs_identity :: pystr
  rs_revision :: int
  rs_sender_snapshot :: bytes
  rs_selector_snapshot :: bytes
  rs_after :: int
  rs_before :: int
  rs_retention_cutoff :: instant
  rs_cursor :: pystr
  rs_page_token :: "pystr option"
  rs_page :: bytes
  rs_page_loaded :: bool
  rs_next_index :: nat
  rs_page_count :: int
  rs_terminal_count :: int
  rs_invalid_count :: int
  rs_retry_count :: int
  rs_phase :: recovery_phase
  rs_failure_code :: "pystr option"
  rs_next_retry_at :: "pystr option"
  rs_created_at :: instant
  rs_updated_at :: instant
  rs_query_scope :: pystr

record gmail_store =
  gm_accounts :: "mailbox_account list"
  gm_cursors :: "mailbox_cursor list"
  gm_sets :: "label_set list"
  gm_selectors :: "label_row list"
  gm_validation_sets :: "validation_set list"
  gm_validations :: "validation_row list"
  gm_recovery :: "recovery_row list"
  gm_reconcile :: reconcile_store

text \<open>The tables of the capture component, with those it only reads filled in from here.\<close>

definition capture_view :: "gmail_store \<Rightarrow> capture_store" where
  "capture_view st = (rk_capture (gm_reconcile st))\<lparr>
     cp_accounts := map (\<lambda>a. \<lparr>ak_provider = mx_provider a, ak_account_id = mx_account_id a, ak_mailbox_identity_key = mx_mailbox_identity_key a,
       ak_legacy_identity_key = mx_legacy_identity_key a, ak_continuity_proven = (mx_legacy_status a = Legacy_continuity)\<rparr>) (gm_accounts st),
     cp_label_selectors := map (\<lambda>l. ((gmail, lr_account_id l, lr_identity l), lr_selector_id l)) (gm_selectors st),
     cp_label_sets := map (\<lambda>s. (gmail, lb_account_id s, Some (lb_identity s))) (gm_sets st)\<rparr>"

definition with_capture :: "capture_store \<Rightarrow> gmail_store \<Rightarrow> gmail_store" where
  "with_capture cp st = st\<lparr>gm_reconcile := (gm_reconcile st)\<lparr>rk_capture := cp\<rparr>\<rparr>"

section \<open>Accounts\<close>

definition is_account :: "pystr \<Rightarrow> pystr \<Rightarrow> mailbox_account \<Rightarrow> bool" where
  "is_account provider account_id a \<longleftrightarrow> mx_provider a = provider \<and> mx_account_id a = account_id"

definition mail_account :: "gmail_store \<Rightarrow> pystr \<Rightarrow> pystr \<Rightarrow> mailbox_account option" where
  "mail_account st provider account_id = List.find (is_account provider account_id) (gm_accounts st)"

definition note_accounts :: "gmail_store \<Rightarrow> gmail_store" where
  "note_accounts st = st\<lparr>gm_reconcile := flush_coverage_inputs
     (List.map_filter (\<lambda>a. map_option (\<lambda>k. ((mx_provider a, mx_account_id a, k), 1)) (mx_mailbox_identity_key a)) (gm_accounts st))
     (gm_reconcile st)\<rparr>"

definition account_check :: "mailbox_account \<Rightarrow> bool" where
  "account_check a \<longleftrightarrow> mx_provider a \<noteq> [] \<and> mx_account_id a \<noteq> [] \<and> mx_display_name a \<noteq> [] \<and> opt_all (\<lambda>x. x \<noteq> []) (mx_address a)"

definition address_taken :: "mailbox_account list \<Rightarrow> pystr \<Rightarrow> pystr option \<Rightarrow> bool" where
  "address_taken rows provider address \<longleftrightarrow> address \<noteq> None \<and> list_ex (\<lambda>a. mx_provider a = provider \<and> mx_address a = address) rows"

definition register_mail_account ::
  "pystr \<Rightarrow> pystr \<Rightarrow> pystr \<Rightarrow> pystr option \<Rightarrow> bool \<Rightarrow> instant \<Rightarrow> gmail_store \<Rightarrow> err + gmail_store \<times> mailbox_account" where
  "register_mail_account provider account_id display_name address active now st =
     andThen (require (provider \<noteq> [] \<and> account_id \<noteq> [] \<and> display_name \<noteq> [])
         (ValueError ''Mail account identity and display name must be non-empty'')) (\<lambda>_.
     (let rows = (if active then update_where mx_active (\<lambda>a. a\<lparr>mx_active := False, mx_updated_at := now\<rparr>) (gm_accounts st) else gm_accounts st);
          row = \<lparr>mx_provider = provider, mx_account_id = account_id, mx_display_name = display_name, mx_address = address,
            mx_active = active, mx_created_at = now, mx_updated_at = now, mx_mailbox_identity_key = None,
            mx_legacy_status = Legacy_unresolved, mx_legacy_identity_key = None\<rparr> in
      andThen (require (account_check row \<and> \<not> list_ex (is_account provider account_id) rows \<and> \<not> address_taken rows provider address)
          (IntegrityError ''mail_accounts'')) (\<lambda>_.
      Inr (note_accounts (st\<lparr>gm_accounts := rows @ [row]\<rparr>), row))))"

definition update_mail_account_identity ::
  "pystr \<Rightarrow> pystr \<Rightarrow> pystr \<Rightarrow> pystr \<Rightarrow> instant \<Rightarrow> gmail_store \<Rightarrow> err + gmail_store" where
  "update_mail_account_identity provider account_id display_name address now st =
     andThen (the_row KeyError (mail_account st provider account_id)) (\<lambda>old.
     andThen (require (display_name \<noteq> [] \<and> address \<noteq> []
           \<and> \<not> address_taken (filter (\<lambda>a. \<not> is_account provider account_id a) (gm_accounts st)) provider (Some address))
         (IntegrityError ''mail_accounts'')) (\<lambda>_.
     (let st = st\<lparr>gm_accounts := update_where (is_account provider account_id)
            (\<lambda>a. a\<lparr>mx_display_name := display_name, mx_address := Some address, mx_updated_at := now\<rparr>) (gm_accounts st)\<rparr> in
      Inr (if mx_address old = Some address then st else note_accounts st))))"

definition require_mailbox_identity :: "gmail_store \<Rightarrow> pystr \<Rightarrow> pystr \<Rightarrow> pystr \<Rightarrow> err + unit" where
  "require_mailbox_identity st provider account_id key =
     require (list_ex (\<lambda>a. is_account provider account_id a \<and> mx_mailbox_identity_key a = Some key) (gm_accounts st)) MailboxIdentityChanged"

section \<open>Identity of a mailbox\<close>

definition delete_gmail_label_validation :: "pystr \<Rightarrow> gmail_store \<Rightarrow> gmail_store" where
  "delete_gmail_label_validation account_id st =
     st\<lparr>gm_validations := delete_where (\<lambda>v. va_account_id v = account_id) (gm_validations st),
        gm_validation_sets := delete_where (\<lambda>v. vs_account_id v = account_id) (gm_validation_sets st)\<rparr>"

definition find_label_set :: "gmail_store \<Rightarrow> pystr \<Rightarrow> label_set option" where
  "find_label_set st account_id = List.find (\<lambda>s. lb_account_id s = account_id) (gm_sets st)"

definition update_label_set :: "pystr \<Rightarrow> (label_set \<Rightarrow> label_set) \<Rightarrow> gmail_store \<Rightarrow> gmail_store" where
  "update_label_set account_id f st = st\<lparr>gm_sets := update_where (\<lambda>s. lb_account_id s = account_id) f (gm_sets st)\<rparr>"

text \<open>The part of the operation that only a Gmail account has.\<close>

definition reconcile_label_set :: "pystr \<Rightarrow> pystr \<Rightarrow> instant \<Rightarrow> gmail_store \<Rightarrow> err + gmail_store" where
  "reconcile_label_set account_id key now st =
     (case find_label_set st account_id of
        None \<Rightarrow>
          andThen (require (within_utf8_bytes account_id 128) (IntegrityError ''CHECK constraint failed: gmail_label_selector_sets'')) (\<lambda>_.
          Inr (delete_gmail_label_validation account_id (st\<lparr>gm_sets := gm_sets st @
            [\<lparr>lb_account_id = account_id, lb_identity = key, lb_revision = 0, lb_created_at = now, lb_updated_at = now\<rparr>]\<rparr>)))
      | Some s \<Rightarrow>
          if lb_identity s = key then Inr st
          else
            andThen (require (lb_revision s \<noteq> SQLITE_MAX_INTEGER) (GmailLabelStoreError ''gmail_selector_revision_overflow'')) (\<lambda>_.
            (let st = delete_gmail_label_validation account_id
                   (update_label_set account_id (\<lambda>x. x\<lparr>lb_identity := key, lb_revision := lb_revision s + 1, lb_updated_at := now\<rparr>) st) in
             Inr (st\<lparr>gm_recovery := delete_where (\<lambda>r. rs_account_id r = account_id) (gm_recovery st)\<rparr>))))"

definition next_legacy :: "mailbox_account \<Rightarrow> pystr \<Rightarrow> legacy_status option \<Rightarrow> legacy_status \<times> pystr option" where
  "next_legacy a key legacy =
     (let status = (case legacy of Some s \<Rightarrow> s | None \<Rightarrow> mx_legacy_status a) in
      case mx_mailbox_identity_key a of
        Some previous \<Rightarrow> if previous \<noteq> key then (Legacy_replacement, Some previous) else (status, mx_legacy_identity_key a)
      | None \<Rightarrow> (status, if status = Legacy_continuity then Some key else mx_legacy_identity_key a))"

definition reconcile_mailbox_identity ::
  "pystr \<Rightarrow> pystr \<Rightarrow> pystr \<Rightarrow> legacy_status option \<Rightarrow> bool \<Rightarrow> instant \<Rightarrow> gmail_store \<Rightarrow> err + gmail_store" where
  "reconcile_mailbox_identity provider account_id key legacy preserve_cursor now st =
     andThen (require_mailbox_identity_key key) (\<lambda>_.
     andThen (the_row KeyError (mail_account st provider account_id)) (\<lambda>a.
     (let (status, legacy_key) = next_legacy a key legacy;
          changed = (mx_mailbox_identity_key a \<noteq> Some key);
          st = st\<lparr>gm_accounts := update_where (is_account provider account_id)
            (\<lambda>a. a\<lparr>mx_mailbox_identity_key := Some key, mx_legacy_status := status, mx_legacy_identity_key := legacy_key, mx_updated_at := now\<rparr>)
            (gm_accounts st)\<rparr>;
          st = (if changed \<and> \<not> preserve_cursor
            then st\<lparr>gm_cursors := delete_where (\<lambda>c. mc_provider c = provider \<and> mc_account_id c = account_id) (gm_cursors st)\<rparr> else st) in
      andThen (if mx_mailbox_identity_key a = None \<and> status = Legacy_continuity
          then andThen (bind_pending_legacy_identity provider account_id None (capture_view st)) (\<lambda>cp. Inr (with_capture cp st))
          else Inr st) (\<lambda>st.
      andThen (if provider = gmail then reconcile_label_set account_id key now st else Inr st) (\<lambda>st.
      Inr (if changed then note_accounts st else st))))))"

section \<open>Selectors\<close>

definition gmail_label_selectors :: "pystr \<Rightarrow> pystr option \<Rightarrow> gmail_store \<Rightarrow> err + label_row list" where
  "gmail_label_selectors account_id key st =
     andThen (case key of None \<Rightarrow> Inr [] | Some k \<Rightarrow> require_mailbox_identity_key k) (\<lambda>_.
     Inr (sort_key lr_selector_id
       (filter (\<lambda>l. lr_account_id l = account_id \<and> opt_all (\<lambda>k. lr_identity l = k) key) (gm_selectors st))))"

definition selectors_of :: "pystr \<Rightarrow> pystr \<Rightarrow> gmail_store \<Rightarrow> label_row list" where
  "selectors_of account_id key st =
     sort_key lr_selector_id (filter (\<lambda>l. lr_account_id l = account_id \<and> lr_identity l = key) (gm_selectors st))"

definition require_current_gmail_selector_set :: "pystr \<Rightarrow> pystr \<Rightarrow> gmail_store \<Rightarrow> err + label_set" where
  "require_current_gmail_selector_set account_id key st =
     (case find_label_set st account_id of
        Some s \<Rightarrow>
          if lb_identity s = key \<and> list_ex (\<lambda>a. is_account gmail account_id a \<and> mx_mailbox_identity_key a = Some key) (gm_accounts st)
          then Inr s else Inl MailboxIdentityChanged
      | None \<Rightarrow> Inl MailboxIdentityChanged)"

definition gmail_current_label_selectors :: "pystr \<Rightarrow> pystr \<Rightarrow> gmail_store \<Rightarrow> err + label_row list" where
  "gmail_current_label_selectors account_id key st =
     andThen (require_mailbox_identity_key key) (\<lambda>_.
     andThen (require_current_gmail_selector_set account_id key st) (\<lambda>_.
     Inr (selectors_of account_id key st)))"

definition bump_label_revision :: "pystr \<Rightarrow> int \<Rightarrow> instant \<Rightarrow> gmail_store \<Rightarrow> gmail_store" where
  "bump_label_revision account_id revision now st =
     delete_gmail_label_validation account_id
       (update_label_set account_id (\<lambda>s. s\<lparr>lb_revision := revision + 1, lb_updated_at := now\<rparr>) st)"

definition add_gmail_label_selector ::
  "pystr \<Rightarrow> pystr \<Rightarrow> pystr \<Rightarrow> pystr \<Rightarrow> pystr \<Rightarrow> int \<Rightarrow> instant \<Rightarrow> gmail_store \<Rightarrow> err + gmail_store \<times> int \<times> label_row" where
  "add_gmail_label_selector selector_id account_id key label_id display_name expected now st =
     andThen (require_mailbox_identity_key key) (\<lambda>_.
     andThen (require_revision expected) (\<lambda>_.
     andThen (require_bounded_text label_id MAX_GMAIL_LABEL_ID_BYTES) (\<lambda>_.
     andThen (require_bounded_text display_name MAX_GMAIL_LABEL_NAME_BYTES) (\<lambda>_.
     andThen (require_current_gmail_selector_set account_id key st) (\<lambda>s.
     andThen (require (lb_revision s = expected) (GmailLabelStoreError ''stale_revision'')) (\<lambda>_.
     andThen (require (expected \<noteq> SQLITE_MAX_INTEGER) (GmailLabelStoreError ''gmail_selector_revision_overflow'')) (\<lambda>_.
     andThen (require (\<not> list_ex (\<lambda>l. lr_account_id l = account_id \<and> lr_identity l = key \<and> lr_label_id l = label_id) (gm_selectors st))
         (GmailLabelStoreError ''conflict'')) (\<lambda>_.
     andThen (require (count_where (\<lambda>l. lr_account_id l = account_id) (gm_selectors st) < MAX_GMAIL_LABEL_SELECTORS)
         (GmailLabelStoreError ''limit_exceeded'')) (\<lambda>_.
     (let row = \<lparr>lr_selector_id = selector_id, lr_account_id = account_id, lr_identity = key, lr_label_id = label_id,
            lr_selected_display_name = display_name, lr_created_at = now\<rparr> in
      andThen (require (\<not> list_ex (\<lambda>l. lr_selector_id l = selector_id) (gm_selectors st))
          (IntegrityError ''UNIQUE constraint failed: gmail_label_selectors.selector_id'')) (\<lambda>_.
      Inr (bump_label_revision account_id expected now (st\<lparr>gm_selectors := gm_selectors st @ [row]\<rparr>), expected + 1, row))))))))))))"

definition remove_gmail_label_selector :: "pystr \<Rightarrow> pystr \<Rightarrow> pystr \<Rightarrow> int \<Rightarrow> instant \<Rightarrow> gmail_store \<Rightarrow> err + gmail_store \<times> int" where
  "remove_gmail_label_selector account_id key selector_id expected now st =
     andThen (require_mailbox_identity_key key) (\<lambda>_.
     andThen (require (valid_uuid_v4 selector_id) (ValueError ''selector id must be a canonical UUIDv4'')) (\<lambda>_.
     andThen (require_revision expected) (\<lambda>_.
     andThen (require_current_gmail_selector_set account_id key st) (\<lambda>s.
     andThen (require (lb_revision s = expected) (GmailLabelStoreError ''stale_revision'')) (\<lambda>_.
     andThen (require (expected \<noteq> SQLITE_MAX_INTEGER) (GmailLabelStoreError ''gmail_selector_revision_overflow'')) (\<lambda>_.
     (let gone = (\<lambda>l. lr_account_id l = account_id \<and> lr_selector_id l = selector_id) in
      andThen (require (count_where gone (gm_selectors st) = 1) (GmailLabelStoreError ''not_found'')) (\<lambda>_.
      Inr (bump_label_revision account_id expected now (st\<lparr>gm_selectors := delete_where gone (gm_selectors st)\<rparr>), expected + 1)))))))))"

definition gmail_label_selector_is_current :: "pystr \<Rightarrow> pystr \<Rightarrow> pystr \<Rightarrow> pystr \<Rightarrow> gmail_store \<Rightarrow> err + bool" where
  "gmail_label_selector_is_current account_id key selector_id label_id st =
     andThen (require_mailbox_identity_key key) (\<lambda>_.
     Inr (valid_uuid_v4 selector_id
       \<and> list_ex (\<lambda>l. lr_account_id l = account_id \<and> lr_identity l = key \<and> lr_selector_id l = selector_id \<and> lr_label_id l = label_id)
           (gm_selectors st)
       \<and> list_ex (\<lambda>s. lb_account_id s = account_id \<and> lb_identity s = key) (gm_sets st)
       \<and> list_ex (\<lambda>a. is_account gmail account_id a \<and> mx_mailbox_identity_key a = Some key) (gm_accounts st)))"

section \<open>Validation against the labels of the mailbox\<close>

record validation_snapshot = validation_set +
  vn_selectors :: "label_validation list"

definition catalog_of :: "(pystr \<times> pystr \<times> pystr) list \<Rightarrow> err + (pystr \<times> pystr \<times> pystr) list" where
  "catalog_of = foldl (\<lambda>acc (label_id, name, kind).
     andThen acc (\<lambda>labels.
     andThen (require_bounded_text label_id MAX_GMAIL_LABEL_ID_BYTES) (\<lambda>_.
     andThen (require_bounded_text name MAX_GMAIL_LABEL_NAME_BYTES) (\<lambda>_.
     andThen (require (kind \<in> {lit ''user'', lit ''system''}) (ValueError ''gmail label type is invalid'')) (\<lambda>_.
     andThen (require (label_id \<notin> fst ` set labels) (ValueError ''gmail label ids must be unique'')) (\<lambda>_.
     Inr (labels @ [(label_id, name, kind)]))))))) (Inr [])"

definition validate_selector :: "(pystr \<times> pystr \<times> pystr) list \<Rightarrow> (pystr \<times> pystr) list \<Rightarrow> label_row \<Rightarrow> label_validation" where
  "validate_selector labels previous l =
     (let (status, name) = (case map_of labels (lr_label_id l) of
            None \<Rightarrow> (Label_deleted, case map_of previous (lr_selector_id l) of Some n \<Rightarrow> n | None \<Rightarrow> lr_selected_display_name l)
          | Some (name, kind) \<Rightarrow> (if kind = lit ''user'' then Label_active else Label_not_user, name)) in
      \<lparr>va_selector_id = lr_selector_id l, va_label_id = lr_label_id l, va_status = status, va_display_name = name\<rparr>)"

definition persist_gmail_label_validation ::
  "pystr \<Rightarrow> pystr \<Rightarrow> int \<Rightarrow> (pystr \<times> pystr \<times> pystr) list \<Rightarrow> instant \<Rightarrow> gmail_store \<Rightarrow> err + gmail_store \<times> validation_snapshot" where
  "persist_gmail_label_validation account_id key expected catalog now st =
     andThen (require_mailbox_identity_key key) (\<lambda>_.
     andThen (require_revision expected) (\<lambda>_.
     andThen (catalog_of catalog) (\<lambda>labels.
     andThen (require_current_gmail_selector_set account_id key st) (\<lambda>s.
     andThen (require (lb_revision s = expected) (GmailLabelStoreError ''stale_revision'')) (\<lambda>_.
     (let previous = map (\<lambda>v. (va_selector_id v, va_display_name v))
            (filter (\<lambda>v. va_account_id v = account_id \<and> va_identity v = key) (gm_validations st));
          checked = map (validate_selector labels previous) (selectors_of account_id key st);
          head = \<lparr>vs_account_id = account_id, vs_identity = key, vs_revision = expected, vs_validated_at = now,
            vs_catalog_state = Catalog_current\<rparr>;
          st = delete_gmail_label_validation account_id st in
      Inr (st\<lparr>gm_validation_sets := gm_validation_sets st @ [head],
              gm_validations := gm_validations st @
                map (\<lambda>v. label_validation.extend v \<lparr>va_account_id = account_id, va_identity = key, va_revision = expected\<rparr>) checked\<rparr>,
           validation_set.extend head \<lparr>vn_selectors = checked\<rparr>)))))))"

definition persist_gmail_label_invalid_catalog ::
  "pystr \<Rightarrow> pystr \<Rightarrow> int \<Rightarrow> instant \<Rightarrow> gmail_store \<Rightarrow> err + gmail_store \<times> validation_snapshot" where
  "persist_gmail_label_invalid_catalog account_id key expected now st =
     andThen (require_mailbox_identity_key key) (\<lambda>_.
     andThen (require_revision expected) (\<lambda>_.
     andThen (require_current_gmail_selector_set account_id key st) (\<lambda>s.
     andThen (require (lb_revision s = expected) (GmailLabelStoreError ''stale_revision'')) (\<lambda>_.
     (let head = \<lparr>vs_account_id = account_id, vs_identity = key, vs_revision = expected, vs_validated_at = now,
            vs_catalog_state = Catalog_invalid\<rparr>;
          st = delete_gmail_label_validation account_id st in
      Inr (st\<lparr>gm_validation_sets := gm_validation_sets st @ [head]\<rparr>, validation_set.extend head \<lparr>vn_selectors = []\<rparr>))))))"

definition gmail_label_validation_snapshot :: "pystr \<Rightarrow> pystr \<Rightarrow> int \<Rightarrow> gmail_store \<Rightarrow> err + validation_snapshot option" where
  "gmail_label_validation_snapshot account_id key revision st =
     andThen (require_mailbox_identity_key key) (\<lambda>_.
     andThen (require_revision revision) (\<lambda>_.
     Inr (case List.find (\<lambda>v. vs_account_id v = account_id \<and> vs_identity v = key \<and> vs_revision v = revision
              \<and> list_ex (\<lambda>s. lb_account_id s = account_id \<and> lb_identity s = key \<and> lb_revision s = revision) (gm_sets st)
              \<and> list_ex (\<lambda>a. is_account gmail account_id a \<and> mx_mailbox_identity_key a = Some key) (gm_accounts st)) (gm_validation_sets st) of
            None \<Rightarrow> None
          | Some v \<Rightarrow>
              (let rows = sort_key va_selector_id
                     (filter (\<lambda>x. va_account_id x = account_id \<and> va_identity x = key \<and> va_revision x = revision) (gm_validations st)) in
               if vs_catalog_state v = Catalog_current
                  \<and> map (\<lambda>x. (va_selector_id x, va_label_id x)) rows \<noteq> map (\<lambda>l. (lr_selector_id l, lr_label_id l)) (selectors_of account_id key st)
               then None
               else if vs_catalog_state v = Catalog_invalid \<and> rows \<noteq> [] then None
               else Some (validation_set.extend v \<lparr>vn_selectors = map label_validation.truncate rows\<rparr>)))))"

definition invalidate_gmail_label_validation :: "pystr \<Rightarrow> pystr \<Rightarrow> int \<Rightarrow> gmail_store \<Rightarrow> err + gmail_store \<times> bool" where
  "invalidate_gmail_label_validation account_id key revision st =
     andThen (require_mailbox_identity_key key) (\<lambda>_.
     andThen (require_revision revision) (\<lambda>_.
     Inr (if list_ex (\<lambda>v. vs_account_id v = account_id \<and> vs_identity v = key \<and> vs_revision v = revision) (gm_validation_sets st)
       then (delete_gmail_label_validation account_id st, True) else (st, False))))"

end
