(* ===== verification/Gmail_Recovery.thy ===== *)
theory Gmail_Recovery
  imports Gmail_Labels
begin

text \<open>
  Recovery of a Gmail account whose history cursor is too old: the search is frozen with the senders and
  labels of the moment, its pages are listed and drained one message at a time, and only when the last page is
  drained does the account get a new cursor (\<open>encode_gmail_selector_snapshot\<close> to
  \<open>decode_gmail_recovery_page\<close> and \<open>Store.create_gmail_recovery_state\<close> to \<open>Store.complete_gmail_recovery\<close>
  in \<open>db.py\<close>).

  Snapshots and pages are stored as the bytes of canonical JSON and are decoded on every read. A stored object
  with a key twice is refused here by the comparison with the canonical bytes; the source already refuses
  it while parsing, with the text \<open>is invalid\<close>.
\<close>

definition MAX_GMAIL_RECOVERY_SNAPSHOT_BYTES :: nat where
  "MAX_GMAIL_RECOVERY_SNAPSHOT_BYTES = 1048576"

definition MAX_GMAIL_RECOVERY_PAGE_JSON_BYTES :: nat where
  "MAX_GMAIL_RECOVERY_PAGE_JSON_BYTES = 524288"

definition MAX_GMAIL_RECOVERY_PAGE_IDS :: nat where
  "MAX_GMAIL_RECOVERY_PAGE_IDS = 200"

definition MAX_GMAIL_RECOVERY_PAGE_TOKEN_BYTES :: nat where
  "MAX_GMAIL_RECOVERY_PAGE_TOKEN_BYTES = 8192"

definition MAX_GMAIL_RECOVERY_CURSOR_BYTES :: nat where
  "MAX_GMAIL_RECOVERY_CURSOR_BYTES = 4096"

section \<open>Stored JSON\<close>

definition canonical_json_bytes :: "json \<Rightarrow> err + bytes" where
  "canonical_json_bytes v = dumps_utf8 False True v"

text \<open>\<open>bytes.decode("utf-8")\<close>\<close>

fun utf8_decode_strict :: "bytes \<Rightarrow> pystr option" where
  "utf8_decode_strict [] = Some []"
| "utf8_decode_strict (b # bs) =
     (case utf8_sequence b bs of
        Some (c, n) \<Rightarrow> map_option (Cons c) (utf8_decode_strict (drop n bs))
      | None \<Rightarrow> None)"

definition decode_json_bytes :: "string \<Rightarrow> bytes \<Rightarrow> err + json" where
  "decode_json_bytes message bs = the_row (RuntimeError message) (Option.bind (utf8_decode_strict bs) loads_text)"

text \<open>A loop that appends each item to what was accepted before it.\<close>

definition collect :: "('b list \<Rightarrow> 'a \<Rightarrow> err + 'b) \<Rightarrow> 'a list \<Rightarrow> err + 'b list" where
  "collect f = foldl (\<lambda>acc x. andThen acc (\<lambda>ys. andThen (f ys x) (\<lambda>y. Inr (ys @ [y])))) (Inr [])"

record selector_snapshot =
  sn_selector_id :: pystr
  sn_label_id :: pystr
  sn_display_name :: pystr

definition selector_json :: "selector_snapshot \<Rightarrow> json" where
  "selector_json s = JObj [(lit ''selector_id'', JStr (sn_selector_id s)), (lit ''label_id'', JStr (sn_label_id s)),
     (lit ''display_name'', JStr (sn_display_name s))]"

definition check_selector :: "selector_snapshot list \<Rightarrow> selector_snapshot \<Rightarrow> err + selector_snapshot" where
  "check_selector before s =
     andThen (require (valid_uuid_v4 (sn_selector_id s) \<and> sn_selector_id s \<notin> sn_selector_id ` set before)
         (ValueError ''gmail selector snapshot has an invalid selector id'')) (\<lambda>_.
     andThen (require_bounded_text (sn_label_id s) MAX_GMAIL_LABEL_ID_BYTES) (\<lambda>_.
     andThen (require_bounded_text (sn_display_name s) MAX_GMAIL_LABEL_NAME_BYTES) (\<lambda>_. Inr s)))"

definition encode_gmail_selector_snapshot :: "selector_snapshot list \<Rightarrow> err + bytes" where
  "encode_gmail_selector_snapshot selectors =
     andThen (require (length selectors \<le> MAX_GMAIL_LABEL_SELECTORS) (ValueError ''gmail selector snapshot exceeds its item limit'')) (\<lambda>_.
     andThen (collect check_selector selectors) (\<lambda>items.
     andThen (canonical_json_bytes (JList (map selector_json (sort_key sn_selector_id items)))) (\<lambda>encoded.
     andThen (require (length encoded \<le> MAX_GMAIL_RECOVERY_SNAPSHOT_BYTES) (GmailLabelStoreError ''gmail_recovery_snapshot_too_large'')) (\<lambda>_.
     Inr encoded))))"

definition read_selector :: "selector_snapshot list \<Rightarrow> json \<Rightarrow> err + selector_snapshot" where
  "read_selector before item =
     (case item of
        JObj members \<Rightarrow>
          (case (dict_get (lit ''selector_id'') members, dict_get (lit ''label_id'') members, dict_get (lit ''display_name'') members) of
             (Some (JStr i), Some (JStr l), Some (JStr d)) \<Rightarrow>
               if length members = 3 \<and> is_ok (require_bounded_text l MAX_GMAIL_LABEL_ID_BYTES) \<and> is_ok (require_bounded_text d MAX_GMAIL_LABEL_NAME_BYTES)
                  \<and> valid_uuid_v4 i \<and> i \<notin> sn_selector_id ` set before
               then Inr \<lparr>sn_selector_id = i, sn_label_id = l, sn_display_name = d\<rparr>
               else Inl (RuntimeError ''gmail selector snapshot is invalid'')
           | _ \<Rightarrow> Inl (RuntimeError ''gmail selector snapshot is invalid''))
      | _ \<Rightarrow> Inl (RuntimeError ''gmail selector snapshot is invalid''))"

definition decode_gmail_selector_snapshot :: "bytes \<Rightarrow> err + selector_snapshot list" where
  "decode_gmail_selector_snapshot bs =
     andThen (require (length bs \<le> MAX_GMAIL_RECOVERY_SNAPSHOT_BYTES) (RuntimeError ''gmail selector snapshot is invalid'')) (\<lambda>_.
     andThen (decode_json_bytes ''gmail selector snapshot is invalid'' bs) (\<lambda>decoded.
     case decoded of
       JList items \<Rightarrow>
         andThen (require (length items \<le> MAX_GMAIL_LABEL_SELECTORS) (RuntimeError ''gmail selector snapshot is invalid'')) (\<lambda>_.
         andThen (collect read_selector items) (\<lambda>selectors.
         andThen (require (map sn_selector_id selectors = sort (map sn_selector_id selectors) \<and> canonical_json_bytes decoded = Inr bs)
             (RuntimeError ''gmail selector snapshot is not canonical'')) (\<lambda>_.
         Inr selectors)))
     | _ \<Rightarrow> Inl (RuntimeError ''gmail selector snapshot is invalid'')))"

definition good_name :: "pyenv \<Rightarrow> pystr \<Rightarrow> bool" where
  "good_name env name \<longleftrightarrow> strip env name \<noteq> [] \<and> name = strip env name \<and> list_all (isprintable env) name"

definition check_sender :: "pyenv \<Rightarrow> (pystr \<times> pystr option) list \<Rightarrow> pystr \<times> pystr option \<Rightarrow> err + pystr \<times> pystr option" where
  "check_sender env before = (\<lambda>(raw_email, raw_name).
     andThen (normalize_validated_address env raw_email) (\<lambda>email.
     andThen (require (email = raw_email \<and> email \<notin> fst ` set before \<and> opt_all (good_name env) raw_name)
         (ValueError ''gmail sender snapshot is invalid'')) (\<lambda>_.
     Inr (email, raw_name))))"

definition sender_key :: "pystr \<times> pystr option \<Rightarrow> pystr \<times> pystr" where
  "sender_key = (\<lambda>(email, name). (email, case name of None \<Rightarrow> [] | Some n \<Rightarrow> n))"

definition sender_json :: "pystr \<times> pystr option \<Rightarrow> json" where
  "sender_json = (\<lambda>(email, name). JObj [(lit ''email'', JStr email), (lit ''name'', opt_json name)])"

definition encode_gmail_sender_snapshot :: "pyenv \<Rightarrow> (pystr \<times> pystr option) list \<Rightarrow> err + bytes" where
  "encode_gmail_sender_snapshot env senders =
     andThen (collect (check_sender env) senders) (\<lambda>items.
     andThen (canonical_json_bytes (JList (map sender_json (sort_key sender_key items)))) (\<lambda>encoded.
     andThen (require (length encoded \<le> MAX_GMAIL_RECOVERY_SNAPSHOT_BYTES) (GmailLabelStoreError ''gmail_recovery_snapshot_too_large'')) (\<lambda>_.
     Inr encoded)))"

definition read_sender :: "pyenv \<Rightarrow> (pystr \<times> pystr option) list \<Rightarrow> json \<Rightarrow> err + pystr \<times> pystr option" where
  "read_sender env before item =
     (let accept = (\<lambda>email name.
            if normalize_validated_address env email = Inr email \<and> email \<notin> fst ` set before \<and> opt_all (good_name env) name
            then Inr (email, name) else Inl (RuntimeError ''gmail sender snapshot is invalid'')) in
      case item of
        JObj members \<Rightarrow>
          (case (dict_get (lit ''email'') members, dict_get (lit ''name'') members) of
             (Some (JStr email), Some JNull) \<Rightarrow> if length members = 2 then accept email None else Inl (RuntimeError ''gmail sender snapshot is invalid'')
           | (Some (JStr email), Some (JStr name)) \<Rightarrow>
               if length members = 2 then accept email (Some name) else Inl (RuntimeError ''gmail sender snapshot is invalid'')
           | _ \<Rightarrow> Inl (RuntimeError ''gmail sender snapshot is invalid''))
      | _ \<Rightarrow> Inl (RuntimeError ''gmail sender snapshot is invalid''))"

definition decode_gmail_sender_snapshot :: "pyenv \<Rightarrow> bytes \<Rightarrow> err + (pystr \<times> pystr option) list" where
  "decode_gmail_sender_snapshot env bs =
     andThen (require (length bs \<le> MAX_GMAIL_RECOVERY_SNAPSHOT_BYTES) (RuntimeError ''gmail sender snapshot is invalid'')) (\<lambda>_.
     andThen (decode_json_bytes ''gmail sender snapshot is invalid'' bs) (\<lambda>decoded.
     case decoded of
       JList items \<Rightarrow>
         andThen (collect (read_sender env) items) (\<lambda>senders.
         andThen (require (senders = sort_key sender_key senders \<and> canonical_json_bytes decoded = Inr bs)
             (RuntimeError ''gmail sender snapshot is not canonical'')) (\<lambda>_.
         Inr senders))
     | _ \<Rightarrow> Inl (RuntimeError ''gmail sender snapshot is invalid'')))"

definition encode_gmail_recovery_page :: "pystr list \<Rightarrow> err + bytes" where
  "encode_gmail_recovery_page message_ids =
     (let invalid = GmailLabelStoreError ''gmail_recovery_page_invalid'' in
      andThen (require (length message_ids \<le> MAX_GMAIL_RECOVERY_PAGE_IDS
            \<and> list_all (\<lambda>i. is_ok (require_bounded_text i MAX_GMAIL_LABEL_ID_BYTES)) message_ids \<and> distinct message_ids) invalid) (\<lambda>_.
      andThen (dumps_utf8 False False (JList (map JStr message_ids))) (\<lambda>encoded.
      andThen (require (length encoded \<le> MAX_GMAIL_RECOVERY_PAGE_JSON_BYTES) invalid) (\<lambda>_.
      Inr encoded))))"

definition json_strings :: "json list \<Rightarrow> pystr list option" where
  "json_strings items = those (map (\<lambda>v. case v of JStr s \<Rightarrow> Some s | _ \<Rightarrow> None) items)"

definition decode_gmail_recovery_page :: "bytes \<Rightarrow> err + pystr list" where
  "decode_gmail_recovery_page bs =
     andThen (require (length bs \<le> MAX_GMAIL_RECOVERY_PAGE_JSON_BYTES) (RuntimeError ''gmail recovery page is invalid'')) (\<lambda>_.
     andThen (decode_json_bytes ''gmail recovery page is invalid'' bs) (\<lambda>decoded.
     case decoded of
       JList items \<Rightarrow>
         (case json_strings items of
            None \<Rightarrow> Inl (RuntimeError ''gmail recovery page is invalid'')
          | Some ids \<Rightarrow>
              (case encode_gmail_recovery_page ids of
                 Inl _ \<Rightarrow> Inl (RuntimeError ''gmail recovery page is invalid'')
               | Inr encoded \<Rightarrow> andThen (require (encoded = bs) (RuntimeError ''gmail recovery page is not canonical'')) (\<lambda>_. Inr ids)))
     | _ \<Rightarrow> Inl (RuntimeError ''gmail recovery page is invalid'')))"

section \<open>The stored state\<close>

record recovery_state =
  ry_row :: recovery_row
  ry_page_ids :: "pystr list"
  ry_senders :: "(pystr \<times> pystr option) list"
  ry_selectors :: "selector_snapshot list"

text \<open>The retention cutoff is written by \<open>isoformat\<close> in UTC, so its check passes; it is kept as a time.\<close>

definition gmail_recovery_state_of :: "pyenv \<Rightarrow> recovery_row \<Rightarrow> err + recovery_state" where
  "gmail_recovery_state_of env row =
     andThen (decode_gmail_recovery_page (rs_page row)) (\<lambda>ids.
     andThen (require ((rs_page_loaded row \<or> ids = [] \<and> rs_next_index row = 0) \<and> rs_next_index row \<le> length ids)
         (RuntimeError ''gmail recovery page state is invalid'')) (\<lambda>_.
     andThen (require (opt_all (\<lambda>t. within_utf8_bytes t MAX_GMAIL_RECOVERY_PAGE_TOKEN_BYTES) (rs_page_token row))
         (RuntimeError ''gmail recovery page token is invalid'')) (\<lambda>_.
     andThen (decode_gmail_sender_snapshot env (rs_sender_snapshot row)) (\<lambda>senders.
     andThen (decode_gmail_selector_snapshot (rs_selector_snapshot row)) (\<lambda>selectors.
     Inr \<lparr>ry_row = row, ry_page_ids = ids, ry_senders = senders, ry_selectors = selectors\<rparr>)))))"

definition find_recovery :: "gmail_store \<Rightarrow> pystr \<Rightarrow> recovery_row option" where
  "find_recovery st account_id = List.find (\<lambda>r. rs_account_id r = account_id) (gm_recovery st)"

definition gmail_recovery_state :: "pyenv \<Rightarrow> pystr \<Rightarrow> gmail_store \<Rightarrow> err + recovery_state option" where
  "gmail_recovery_state env account_id st =
     (case find_recovery st account_id of
        None \<Rightarrow> Inr None
      | Some row \<Rightarrow> andThen (gmail_recovery_state_of env row) (\<lambda>s. Inr (Some s)))"

definition update_recovery :: "pystr \<Rightarrow> (recovery_row \<Rightarrow> recovery_row) \<Rightarrow> gmail_store \<Rightarrow> gmail_store" where
  "update_recovery account_id f st = st\<lparr>gm_recovery := update_where (\<lambda>r. rs_account_id r = account_id) f (gm_recovery st)\<rparr>"

definition is_active :: "pystr \<Rightarrow> gmail_store \<Rightarrow> bool" where
  "is_active account_id st \<longleftrightarrow> (case mail_account st gmail account_id of None \<Rightarrow> False | Some a \<Rightarrow> mx_active a)"

text \<open>\<open>X'5B5D'\<close>\<close>

definition empty_page :: bytes where
  "empty_page = [91, 93]"

definition create_gmail_recovery_state ::
  "pyenv \<Rightarrow> pystr \<Rightarrow> pystr \<Rightarrow> int \<Rightarrow> (pystr \<times> pystr option) list \<Rightarrow> selector_snapshot list \<Rightarrow> int \<Rightarrow> int \<Rightarrow> pystr
     \<Rightarrow> instant option \<Rightarrow> pystr \<Rightarrow> instant \<Rightarrow> gmail_store \<Rightarrow> err + gmail_store \<times> recovery_state" where
  "create_gmail_recovery_state env account_id key revision senders selectors after before cursor cutoff query_scope now st =
     andThen (require_mailbox_identity_key key) (\<lambda>_.
     andThen (require_revision revision) (\<lambda>_.
     andThen (require (0 \<le> after \<and> after < before \<and> before \<le> SQLITE_MAX_INTEGER) (ValueError ''gmail recovery window is invalid'')) (\<lambda>_.
     andThen (require_bounded_text cursor MAX_GMAIL_RECOVERY_CURSOR_BYTES) (\<lambda>_.
     andThen (require (cutoff = None \<longrightarrow> after < 253402300800) (ValueError ''year is out of range'')) (\<lambda>_.
     (let retention = (case cutoff of Some c \<Rightarrow> c | None \<Rightarrow> seconds after) in
      andThen (require (0 \<le> retention) (ValueError ''gmail recovery retention cutoff is invalid'')) (\<lambda>_.
      andThen (encode_gmail_sender_snapshot env senders) (\<lambda>sender_json.
      andThen (encode_gmail_selector_snapshot selectors) (\<lambda>selector_json.
      andThen (require_current_gmail_selector_set account_id key st) (\<lambda>s.
      andThen (require (is_active account_id st) (GmailLabelStoreError ''account_not_active'')) (\<lambda>_.
      andThen (require (lb_revision s = revision) (GmailLabelStoreError ''stale_revision'')) (\<lambda>_.
      andThen (decode_gmail_selector_snapshot selector_json) (\<lambda>frozen.
      andThen (require (list_all (\<lambda>f. list_ex (\<lambda>l. lr_account_id l = account_id \<and> lr_identity l = key
            \<and> lr_selector_id l = sn_selector_id f \<and> lr_label_id l = sn_label_id f) (gm_selectors st)) frozen)
          (GmailLabelStoreError ''gmail_recovery_grant_revoked'')) (\<lambda>_.
      andThen (require (find_recovery st account_id = None) (GmailLabelStoreError ''conflict'')) (\<lambda>_.
      (let row = \<lparr>rs_account_id = account_id, rs_identity = key, rs_revision = revision, rs_sender_snapshot = sender_json,
             rs_selector_snapshot = selector_json, rs_after = after, rs_before = before, rs_retention_cutoff = retention, rs_cursor = cursor,
             rs_page_token = None, rs_page = empty_page, rs_page_loaded = False, rs_next_index = 0, rs_page_count = 0, rs_terminal_count = 0,
             rs_invalid_count = 0, rs_retry_count = 0, rs_phase = Collecting, rs_failure_code = None, rs_next_retry_at = None,
             rs_created_at = now, rs_updated_at = now, rs_query_scope = query_scope\<rparr> in
       andThen (gmail_recovery_state_of env row) (\<lambda>state.
       Inr (st\<lparr>gm_recovery := gm_recovery st @ [row]\<rparr>, state))))))))))))))))))"

definition require_current_gmail_recovery :: "pyenv \<Rightarrow> pystr \<Rightarrow> pystr \<Rightarrow> gmail_store \<Rightarrow> err + recovery_state" where
  "require_current_gmail_recovery env account_id key st =
     andThen (require_current_gmail_selector_set account_id key st) (\<lambda>_.
     andThen (the_row (GmailLabelStoreError ''not_found'') (find_recovery st account_id)) (\<lambda>row.
     andThen (gmail_recovery_state_of env row) (\<lambda>state.
     andThen (require (rs_identity row = key) MailboxIdentityChanged) (\<lambda>_.
     andThen (require (is_active account_id st) (GmailLabelStoreError ''account_not_active'')) (\<lambda>_.
     Inr state)))))"

text \<open>An update of the row, and the state read back from it.\<close>

definition updated_recovery ::
  "pyenv \<Rightarrow> pystr \<Rightarrow> (recovery_row \<Rightarrow> recovery_row) \<Rightarrow> gmail_store \<Rightarrow> err + gmail_store \<times> recovery_state" where
  "updated_recovery env account_id f st =
     (let st = update_recovery account_id f st in
      andThen (the_row (AssertionError ''updated'') (find_recovery st account_id)) (\<lambda>row.
      andThen (gmail_recovery_state_of env row) (\<lambda>state.
      Inr (st, state))))"

definition store_gmail_recovery_page ::
  "pyenv \<Rightarrow> pystr \<Rightarrow> pystr \<Rightarrow> pystr list \<Rightarrow> pystr option \<Rightarrow> instant \<Rightarrow> gmail_store \<Rightarrow> err + gmail_store \<times> recovery_state" where
  "store_gmail_recovery_page env account_id key message_ids token now st =
     andThen (require_mailbox_identity_key key) (\<lambda>_.
     andThen (encode_gmail_recovery_page message_ids) (\<lambda>page.
     andThen (case token of None \<Rightarrow> Inr [] | Some t \<Rightarrow> require_bounded_text t MAX_GMAIL_RECOVERY_PAGE_TOKEN_BYTES) (\<lambda>_.
     andThen (require_current_gmail_recovery env account_id key st) (\<lambda>state.
     andThen (require (\<not> rs_page_loaded (ry_row state)) (GmailLabelStoreError ''gmail_recovery_page_already_loaded'')) (\<lambda>_.
     andThen (require (rs_page_count (ry_row state) \<noteq> SQLITE_MAX_INTEGER) (GmailLabelStoreError ''gmail_recovery_counter_overflow'')) (\<lambda>_.
     updated_recovery env account_id (\<lambda>r. r\<lparr>rs_page_token := token, rs_page := page, rs_page_loaded := True, rs_next_index := 0,
       rs_page_count := rs_page_count r + 1, rs_retry_count := 0, rs_phase := Collecting, rs_failure_code := None,
       rs_next_retry_at := None, rs_updated_at := now\<rparr>) st))))))"

definition finish_gmail_recovery_page :: "pyenv \<Rightarrow> pystr \<Rightarrow> pystr \<Rightarrow> instant \<Rightarrow> gmail_store \<Rightarrow> err + gmail_store \<times> bool" where
  "finish_gmail_recovery_page env account_id key now st =
     andThen (require_mailbox_identity_key key) (\<lambda>_.
     andThen (require_current_gmail_recovery env account_id key st) (\<lambda>state.
     andThen (require (rs_page_loaded (ry_row state) \<and> rs_next_index (ry_row state) = length (ry_page_ids state))
         (GmailLabelStoreError ''gmail_recovery_page_not_drained'')) (\<lambda>_.
     Inr (if rs_page_token (ry_row state) = None then (st, True)
       else (update_recovery account_id (\<lambda>r. r\<lparr>rs_page := empty_page, rs_page_loaded := False, rs_next_index := 0, rs_updated_at := now\<rparr>) st, False)))))"

definition record_gmail_recovery_backoff ::
  "pyenv \<Rightarrow> timeenv \<Rightarrow> pystr \<Rightarrow> pystr \<Rightarrow> pystr \<Rightarrow> pystr \<Rightarrow> bool \<Rightarrow> instant \<Rightarrow> gmail_store \<Rightarrow> err + gmail_store \<times> recovery_state" where
  "record_gmail_recovery_backoff env te account_id key failure_code next_retry_at degraded now st =
     andThen (require (failure_code \<in> {lit ''gmail_recovery_provider_unavailable'', lit ''gmail_recovery_page_invalid''})
         (ValueError ''gmail recovery failure code is invalid'')) (\<lambda>_.
     andThen (require_mailbox_identity_key key) (\<lambda>_.
     andThen (validate_utc_timestamp te next_retry_at) (\<lambda>_.
     andThen (require_current_gmail_recovery env account_id key st) (\<lambda>state.
     updated_recovery env account_id (\<lambda>r. r\<lparr>rs_retry_count := min 31 (rs_retry_count (ry_row state) + 1),
       rs_phase := (if degraded then Degraded else Backoff), rs_failure_code := Some failure_code,
       rs_next_retry_at := Some next_retry_at, rs_updated_at := now\<rparr>) st))))"

definition record_gmail_recovery_invalid_page_token ::
  "pyenv \<Rightarrow> timeenv \<Rightarrow> pystr \<Rightarrow> pystr \<Rightarrow> pystr \<Rightarrow> instant \<Rightarrow> gmail_store \<Rightarrow> err + gmail_store \<times> recovery_state" where
  "record_gmail_recovery_invalid_page_token env te account_id key next_retry_at now st =
     andThen (require_mailbox_identity_key key) (\<lambda>_.
     andThen (validate_utc_timestamp te next_retry_at) (\<lambda>_.
     andThen (require_current_gmail_recovery env account_id key st) (\<lambda>state.
     andThen (require (rs_invalid_count (ry_row state) \<noteq> SQLITE_MAX_INTEGER) (GmailLabelStoreError ''gmail_recovery_counter_overflow'')) (\<lambda>_.
     (let invalid_count = rs_invalid_count (ry_row state) + 1 in
      updated_recovery env account_id (\<lambda>r. r\<lparr>rs_page_token := None, rs_page := empty_page, rs_page_loaded := False, rs_next_index := 0,
        rs_invalid_count := invalid_count, rs_retry_count := min 31 (rs_retry_count (ry_row state) + 1),
        rs_phase := (if 5 \<le> invalid_count then Degraded else Backoff),
        rs_failure_code := Some (lit ''gmail_recovery_page_token_invalid''),
        rs_next_retry_at := Some next_retry_at, rs_updated_at := now\<rparr>) st)))))"

definition clear_gmail_recovery_backoff :: "pyenv \<Rightarrow> pystr \<Rightarrow> pystr \<Rightarrow> instant \<Rightarrow> gmail_store \<Rightarrow> err + gmail_store \<times> recovery_state" where
  "clear_gmail_recovery_backoff env account_id key now st =
     andThen (require_mailbox_identity_key key) (\<lambda>_.
     andThen (require_current_gmail_recovery env account_id key st) (\<lambda>_.
     updated_recovery env account_id (\<lambda>r. r\<lparr>rs_phase := Collecting, rs_failure_code := None, rs_next_retry_at := None,
       rs_updated_at := now\<rparr>) st))"

definition restart_gmail_recovery_page ::
  "pyenv \<Rightarrow> pystr \<Rightarrow> pystr \<Rightarrow> pystr \<Rightarrow> instant \<Rightarrow> gmail_store \<Rightarrow> err + gmail_store \<times> recovery_state" where
  "restart_gmail_recovery_page env account_id key query_scope now st =
     andThen (require_mailbox_identity_key key) (\<lambda>_.
     andThen (require_current_gmail_recovery env account_id key st) (\<lambda>_.
     updated_recovery env account_id (\<lambda>r. r\<lparr>rs_page_token := None, rs_page := empty_page, rs_page_loaded := False, rs_next_index := 0,
       rs_query_scope := query_scope, rs_updated_at := now\<rparr>) st))"

section \<open>One candidate\<close>

record recovery_message =
  gr_message_id :: pystr
  gr_thread_id :: "pystr option"
  gr_sender :: pystr
  gr_sender_name :: "pystr option"
  gr_subject :: pystr
  gr_received_at :: pystr
  gr_rfc_message_id :: "pystr option"
  gr_reply_ids :: "pystr list"
  gr_to :: "pystr list"
  gr_cc :: "pystr list"
  gr_locations :: "location set"
  gr_capture_timezone :: "pystr option"
  gr_scope_complete :: bool

definition recovered :: "pystr \<Rightarrow> pystr \<Rightarrow> pystr \<Rightarrow> recovery_message \<Rightarrow> admission_provenance \<Rightarrow> incoming" where
  "recovered account_id key source m admission =
     \<lparr>in_message_id = gr_message_id m, in_thread_id = gr_thread_id m, in_sender = gr_sender m, in_sender_name = gr_sender_name m,
      in_subject = gr_subject m, in_received_at = gr_received_at m, in_provider = gmail, in_account_id = account_id,
      in_provider_message_id = Some source, in_mailbox_identity_key = Some key, in_admission = admission,
      in_rfc_message_id = gr_rfc_message_id m, in_reply_ids = gr_reply_ids m, in_to = gr_to m, in_cc = gr_cc m,
      in_locations = gr_locations m, in_scope_complete = gr_scope_complete m, in_capture_timezone = gr_capture_timezone m\<rparr>"

definition matching_selectors :: "pystr \<Rightarrow> pystr \<Rightarrow> selector_snapshot list \<Rightarrow> pystr set \<Rightarrow> gmail_store \<Rightarrow> pystr list" where
  "matching_selectors account_id key frozen labels st =
     map lr_selector_id (filter (\<lambda>l. list_ex (\<lambda>f. sn_selector_id f = lr_selector_id l \<and> sn_label_id f = lr_label_id l) frozen
         \<and> lr_label_id l \<in> labels) (selectors_of account_id key st))"

definition recovery_granted ::
  "pystr \<Rightarrow> pystr \<Rightarrow> recovery_state \<Rightarrow> admission_provenance \<Rightarrow> pystr set \<Rightarrow> gmail_store \<Rightarrow> bool" where
  "recovery_granted account_id key state admission labels st =
     (if ad_kind admission = lit ''gmail_user_label'' then
        (case List.find (\<lambda>f. sn_selector_id f = ad_selector_id admission) (ry_selectors state) of
           None \<Rightarrow> False
         | Some f \<Rightarrow>
             (case sort (matching_selectors account_id key (ry_selectors state) labels st) of
                [] \<Rightarrow> False
              | winning # _ \<Rightarrow> winning = ad_selector_id admission \<and> Some (sn_display_name f) = ad_display_name admission))
      else
        (let address = (if startswith (ad_selector_id admission) (lit ''sender:'')
               then drop (length (lit ''sender:'')) (ad_selector_id admission) else []) in
         case List.find (\<lambda>s. fst s = address) (ry_senders state) of
           None \<Rightarrow> False
         | Some s \<Rightarrow> snd s = ad_display_name admission))"

definition capture_admitted ::
  "pyenv \<Rightarrow> timeenv \<Rightarrow> pystr \<Rightarrow> pystr \<Rightarrow> pystr \<Rightarrow> pystr \<Rightarrow> (recovery_message \<times> admission_provenance \<times> pystr set) option \<Rightarrow> recovery_state
     \<Rightarrow> instant \<Rightarrow> gmail_store \<Rightarrow> err + gmail_store \<times> bool" where
  "capture_admitted env te fresh account_id key source found state now st =
     (case found of
        None \<Rightarrow> Inr (st, False)
      | Some (m, admission, labels) \<Rightarrow>
          andThen (validate_admission_provenance env te admission key) (\<lambda>_.
          andThen (require (recovery_granted account_id key state admission labels st) (GmailLabelStoreError ''gmail_recovery_grant_revoked'')) (\<lambda>_.
          andThen (insert_message_in_transaction env te fresh now (recovered account_id key source m admission) (capture_view st)) (\<lambda>(cp, outcome).
          Inr (with_capture cp st, outcome = Captured)))))"

definition finish_gmail_recovery_candidate ::
  "pyenv \<Rightarrow> timeenv \<Rightarrow> pystr \<Rightarrow> pystr \<Rightarrow> pystr \<Rightarrow> pystr \<Rightarrow> (recovery_message \<times> admission_provenance \<times> pystr set) option \<Rightarrow> instant
     \<Rightarrow> gmail_store \<Rightarrow> err + gmail_store \<times> bool" where
  "finish_gmail_recovery_candidate env te fresh account_id key source found now st =
     andThen (require_mailbox_identity_key key) (\<lambda>_.
     andThen (require_bounded_text source MAX_GMAIL_LABEL_ID_BYTES) (\<lambda>_.
     andThen (require (opt_all (\<lambda>(m, _, _). gr_locations m \<noteq> {}) found)
         (ValueError ''admitted recovery metadata must name an admitted folder'')) (\<lambda>_.
     andThen (require_current_gmail_recovery env account_id key st) (\<lambda>state.
     andThen (require (rs_page_loaded (ry_row state) \<and> rs_next_index (ry_row state) < length (ry_page_ids state)
           \<and> ry_page_ids state ! rs_next_index (ry_row state) = source) (GmailLabelStoreError ''gmail_recovery_candidate_mismatch'')) (\<lambda>_.
     andThen (require (rs_terminal_count (ry_row state) \<noteq> SQLITE_MAX_INTEGER) (GmailLabelStoreError ''gmail_recovery_counter_overflow'')) (\<lambda>_.
     andThen (capture_admitted env te fresh account_id key source found state now st) (\<lambda>(st, inserted).
     Inr (update_recovery account_id (\<lambda>r. r\<lparr>rs_next_index := rs_next_index r + 1, rs_terminal_count := rs_terminal_count r + 1,
            rs_retry_count := 0, rs_phase := Collecting, rs_failure_code := None, rs_next_retry_at := None, rs_updated_at := now\<rparr>) st,
          inserted))))))))"

definition put_cursor :: "mailbox_cursor \<Rightarrow> mailbox_cursor list \<Rightarrow> mailbox_cursor list" where
  "put_cursor c rows =
     (let here = (\<lambda>r. mc_provider r = mc_provider c \<and> mc_account_id r = mc_account_id c) in
      if list_ex here rows then update_where here (\<lambda>_. c) rows else rows @ [c])"

definition complete_gmail_recovery :: "pyenv \<Rightarrow> pystr \<Rightarrow> pystr \<Rightarrow> instant \<Rightarrow> gmail_store \<Rightarrow> err + gmail_store \<times> pystr" where
  "complete_gmail_recovery env account_id key now st =
     andThen (require_mailbox_identity_key key) (\<lambda>_.
     andThen (require_current_gmail_recovery env account_id key st) (\<lambda>state.
     (let row = ry_row state in
      andThen (require (rs_page_loaded row \<and> rs_page_token row = None \<and> rs_next_index row = length (ry_page_ids state))
          (GmailLabelStoreError ''gmail_recovery_page_not_drained'')) (\<lambda>_.
      (let st = st\<lparr>gm_cursors := put_cursor \<lparr>mc_provider = gmail, mc_account_id = account_id, mc_cursor = rs_cursor row,
             mc_last_success_at = rs_created_at row\<rparr> (gm_cursors st),
             gm_recovery := delete_where (\<lambda>r. rs_account_id r = account_id \<and> rs_identity r = key) (gm_recovery st)\<rparr> in
       andThen (gap (gmail, account_id, key) now (gm_reconcile st)) (\<lambda>rk.
       Inr (st\<lparr>gm_reconcile := rk\<rparr>, rs_cursor row)))))))"

end
