(* ===== verification/Gmail_Codec.thy ===== *)
theory Gmail_Codec
  imports Gmail_Recovery
begin

text \<open>
  The stored snapshots and pages of a recovery are read back as they were written: each decoder undoes its
  encoder, up to the order of the items, and never raises on what the encoder wrote.
\<close>

section \<open>Canonical bytes\<close>

lemma utf8_decode_strict_char:
  assumes "utf8_char c = Some bs"
  shows "utf8_decode_strict (bs @ rest) = map_option (Cons c) (utf8_decode_strict rest)"
proof -
  from utf8_char_length [OF assms] obtain b bs' where bs: "bs = b # bs'" by (cases bs) auto
  with utf8_sequence_char [OF assms, of rest] show ?thesis by simp
qed

lemma utf8_decode_strict_encode: "utf8_encode s = Some bs \<Longrightarrow> utf8_decode_strict bs = Some s"
  by (induction s arbitrary: bs) (auto simp: utf8_decode_strict_char split: option.splits)

lemma decode_canonical:
  assumes "json_ok v" and "canonical_json_bytes v = Inr bs"
  shows "decode_json_bytes message bs = Inr (canon v)"
proof -
  have "utf8_encode (dumps False True v) = Some bs" using assms(2) by (simp add: canonical_json_bytes_def dumps_utf8_def split: option.splits)
  from utf8_decode_strict_encode [OF this] show ?thesis using loads_text_dumps [OF assms(1)] by (simp add: decode_json_bytes_def)
qed

lemma sorted_items_again: "sorted_items (map (\<lambda>(k, v). (k, f v)) (sorted_items items)) = map (\<lambda>(k, v). (k, f v)) (sorted_items items)"
proof -
  have "sorted (map fst (map (\<lambda>(k, v). (k, f v)) (sorted_items items)))"
    by (simp add: sorted_items_def comp_def case_prod_beta)
  then show ?thesis by (simp add: sorted_items_def sort_key_id_if_sorted)
qed

lemma dumps_canon: "dumps False True (canon v) = dumps False True v"
proof (induction v)
  case (JList xs)
  then have "map (dumps False True) (map canon xs) = map (dumps False True) xs" by simp
  then show ?case unfolding canon.simps dumps_list by (simp only:)
next
  case (JObj items)
  have "print_pair (k, canon v) = print_pair (k, v)" if "(k, v) \<in> set (sorted_items items)" for k v
    using that JObj by (auto simp: print_pair_apply snds.intros)
  then have "map print_pair (map (\<lambda>(k, v). (k, canon v)) (sorted_items items)) = map print_pair (sorted_items items)" by (auto simp: map_eq_conv)
  then show ?case by (simp only: canon_object dumps_object sorted_items_again)
qed simp_all

lemma canonical_canon: "canonical_json_bytes (canon v) = canonical_json_bytes v"
  by (simp add: canonical_json_bytes_def dumps_utf8_def dumps_canon)

section \<open>Loops\<close>

lemma collect_Nil [simp]: "collect f [] = Inr []"
  by (simp add: collect_def)

lemma collect_snoc: "collect f (xs @ [x]) = andThen (collect f xs) (\<lambda>ys. andThen (f ys x) (\<lambda>y. Inr (ys @ [y])))"
  by (simp add: collect_def)

text \<open>A check that passes its item on, and a reader that undoes a printer.\<close>

lemma collect_check:
  assumes "\<And>before x y. f before x = Inr y \<longleftrightarrow> y = x \<and> good x \<and> key x \<notin> key ` set before"
  shows "collect f xs = Inr ys \<longleftrightarrow> ys = xs \<and> list_all good xs \<and> distinct (map key xs)"
proof (induction xs arbitrary: ys rule: rev_induct)
  case (snoc x xs)
  then show ?case by (auto simp: collect_snoc res_splits assms)
qed auto

lemma collect_read:
  assumes "\<And>before x. good x \<Longrightarrow> key x \<notin> key ` set before \<Longrightarrow> f before (p x) = Inr x"
    and "list_all good xs" and "distinct (map key xs)"
  shows "collect f (map p xs) = Inr xs"
  using assms(2,3)
proof (induction xs rule: rev_induct)
  case (snoc x xs)
  then show ?case using assms(1) [of x xs] by (simp add: collect_snoc)
qed simp

section \<open>Selectors\<close>

definition selector_ok :: "selector_snapshot \<Rightarrow> bool" where
  "selector_ok s \<longleftrightarrow> valid_uuid_v4 (sn_selector_id s) \<and> is_ok (require_bounded_text (sn_label_id s) MAX_GMAIL_LABEL_ID_BYTES)
     \<and> is_ok (require_bounded_text (sn_display_name s) MAX_GMAIL_LABEL_NAME_BYTES)"

lemma check_selector_Inr: "check_selector before s = Inr y \<longleftrightarrow> y = s \<and> selector_ok s \<and> sn_selector_id s \<notin> sn_selector_id ` set before"
  by (auto simp: check_selector_def res_splits selector_ok_def is_ok_iff)

lemma canon_selector: "canon (selector_json s) = JObj [(lit ''display_name'', JStr (sn_display_name s)),
    (lit ''label_id'', JStr (sn_label_id s)), (lit ''selector_id'', JStr (sn_selector_id s))]"
  by (simp add: selector_json_def lit_def)

lemma read_selector_canon:
  "selector_ok s \<Longrightarrow> sn_selector_id s \<notin> sn_selector_id ` set before \<Longrightarrow> read_selector before (canon (selector_json s)) = Inr s"
  by (simp add: canon_selector read_selector_def selector_ok_def)

lemma selector_json_ok: "json_ok (JList (map selector_json xs))"
  by (simp add: selector_json_def list_all_iff)

lemma selector_snapshot_roundtrip:
  assumes "encode_gmail_selector_snapshot xs = Inr bs"
  shows "decode_gmail_selector_snapshot bs = Inr (sort_key sn_selector_id xs)"
proof -
  let ?s = "sort_key sn_selector_id xs"
  have enc: "length xs \<le> MAX_GMAIL_LABEL_SELECTORS" "list_all selector_ok xs" "distinct (map sn_selector_id xs)"
    "canonical_json_bytes (JList (map selector_json ?s)) = Inr bs" "length bs \<le> MAX_GMAIL_RECOVERY_SNAPSHOT_BYTES"
    using assms collect_check [of check_selector selector_ok sn_selector_id, OF check_selector_Inr]
    by (auto simp: encode_gmail_selector_snapshot_def res_splits)
  have d: "decode_json_bytes message bs = Inr (JList (map (\<lambda>x. canon (selector_json x)) ?s))" for message
    using decode_canonical [OF selector_json_ok enc(4)] by (simp add: comp_def)
  have "list_all selector_ok ?s" "distinct (map sn_selector_id ?s)" using enc(2,3) by (auto simp: list_all_iff distinct_map)
  then have c: "collect read_selector (map (\<lambda>x. canon (selector_json x)) ?s) = Inr ?s"
    by (intro collect_read [of selector_ok sn_selector_id]) (auto intro: read_selector_canon)
  have b: "canonical_json_bytes (JList (map (\<lambda>x. canon (selector_json x)) ?s)) = Inr bs"
    using canonical_canon [of "JList (map selector_json ?s)"] enc(4) by (simp add: comp_def)
  have s: "map sn_selector_id ?s = sort (map sn_selector_id ?s)" by (simp add: sort_key_id_if_sorted)
  show ?thesis using enc(1,5) b s by (simp add: decode_gmail_selector_snapshot_def d c)
qed

section \<open>Senders\<close>

definition sender_ok :: "pyenv \<Rightarrow> pystr \<times> pystr option \<Rightarrow> bool" where
  "sender_ok env x \<longleftrightarrow> normalize_validated_address env (fst x) = Inr (fst x) \<and> opt_all (good_name env) (snd x)"

lemma check_sender_Inr: "check_sender env before x = Inr y \<longleftrightarrow> y = x \<and> sender_ok env x \<and> fst x \<notin> fst ` set before"
  by (cases x) (auto simp: check_sender_def res_splits sender_ok_def)

lemma canon_sender: "canon (sender_json x) = JObj [(lit ''email'', JStr (fst x)), (lit ''name'', opt_json (snd x))]"
  by (cases x; cases "snd x") (simp_all add: sender_json_def opt_json_def lit_def)

lemma read_sender_canon:
  "sender_ok env x \<Longrightarrow> fst x \<notin> fst ` set before \<Longrightarrow> read_sender env before (canon (sender_json x)) = Inr x"
  by (cases x; cases "snd x") (simp_all add: canon_sender read_sender_def sender_ok_def opt_json_def Let_def)

lemma sender_json_ok: "json_ok (JList (map sender_json xs))"
  by (auto simp: sender_json_def opt_json_def list_all_iff split: option.splits)

lemma sender_snapshot_roundtrip:
  assumes "encode_gmail_sender_snapshot env xs = Inr bs"
  shows "decode_gmail_sender_snapshot env bs = Inr (sort_key sender_key xs)"
proof -
  let ?s = "sort_key sender_key xs"
  have enc: "list_all (sender_ok env) xs" "distinct (map fst xs)"
    "canonical_json_bytes (JList (map sender_json ?s)) = Inr bs" "length bs \<le> MAX_GMAIL_RECOVERY_SNAPSHOT_BYTES"
    using assms collect_check [of "check_sender env" "sender_ok env" fst, OF check_sender_Inr]
    by (auto simp: encode_gmail_sender_snapshot_def res_splits)
  have d: "decode_json_bytes message bs = Inr (JList (map (\<lambda>x. canon (sender_json x)) ?s))" for message
    using decode_canonical [OF sender_json_ok enc(3)] by (simp add: comp_def)
  have "list_all (sender_ok env) ?s" "distinct (map fst ?s)" using enc(1,2) by (auto simp: list_all_iff distinct_map)
  then have c: "collect (read_sender env) (map (\<lambda>x. canon (sender_json x)) ?s) = Inr ?s"
    by (intro collect_read [of "sender_ok env" fst]) (auto intro: read_sender_canon)
  have b: "canonical_json_bytes (JList (map (\<lambda>x. canon (sender_json x)) ?s)) = Inr bs"
    using canonical_canon [of "JList (map sender_json ?s)"] enc(3) by (simp add: comp_def)
  have s: "?s = sort_key sender_key ?s" by (simp add: sort_key_id_if_sorted)
  show ?thesis using enc(4) b s by (simp add: decode_gmail_sender_snapshot_def d c)
qed

section \<open>Pages\<close>

lemma json_strings_map: "json_strings (map JStr ids) = Some ids"
  by (induction ids) (auto simp: json_strings_def)

lemma recovery_page_roundtrip:
  assumes "encode_gmail_recovery_page ids = Inr bs"
  shows "decode_gmail_recovery_page bs = Inr ids"
proof -
  have "dumps False False (JList (map JStr ids)) = dumps False True (JList (map JStr ids))" by (simp add: comp_def)
  then have "canonical_json_bytes (JList (map JStr ids)) = Inr bs" "length bs \<le> MAX_GMAIL_RECOVERY_PAGE_JSON_BYTES"
    using assms by (auto simp: encode_gmail_recovery_page_def Let_def res_splits canonical_json_bytes_def dumps_utf8_def)
  moreover have "json_ok (JList (map JStr ids))" by (simp add: list_all_iff)
  moreover have "canon (JList (map JStr ids)) = JList (map JStr ids)" by (simp add: comp_def)
  ultimately have "decode_json_bytes m bs = Inr (JList (map JStr ids))" "length bs \<le> MAX_GMAIL_RECOVERY_PAGE_JSON_BYTES" for m
    using decode_canonical by metis+
  then show ?thesis using assms by (simp add: decode_gmail_recovery_page_def json_strings_map)
qed

lemma empty_page_decodes [simp]: "decode_gmail_recovery_page empty_page = Inr []"
  by (rule recovery_page_roundtrip)
    (simp add: encode_gmail_recovery_page_def empty_page_def dumps_utf8_def comma_join_def lit_def utf8_char_def
      MAX_GMAIL_RECOVERY_PAGE_IDS_def MAX_GMAIL_RECOVERY_PAGE_JSON_BYTES_def require_def)

end
