(* ===== verification/Gmail_Service.thy ===== *)
theory Gmail_Service
  imports Gmail_Recovery Notifications
begin

text \<open>
  The part of \<open>service.py\<close> that starts a recovery and works it off: \<open>_run_gmail_recovery\<close> with its helpers, and
  the start of a recovery in \<open>_check_active\<close>. What Gmail answers and what the clock says in each round of
  the loop is an input, a \<open>turn\<close>; a run ends when the inputs do, as it does at its deadline. Every store
  call is a transaction of its own, so an exception leaves what was committed before it.
\<close>

section \<open>What Gmail answers\<close>

datatype page_answer =
    Page "pystr list" "pystr option"
  | Page_token_invalid
  | Page_malformed
  | Page_rejected err
  | Page_unavailable

datatype metadata_answer =
    Metadata message_metadata
  | Metadata_gone
  | Metadata_rejected err
  | Metadata_unavailable

record turn =
  tn_in_time :: bool
  tn_time_left :: bool
  tn_page :: page_answer
  tn_metadata :: metadata_answer
  tn_observed_at :: instant
  tn_fresh :: pystr

record recovery_run =
  rn_account_id :: pystr
  rn_key :: pystr
  rn_checked_at :: instant
  rn_folders :: "location set"
  rn_admission_senders :: "pystr set"
  rn_sender_names :: "pystr \<rightharpoonup> pystr"
  rn_timezone :: pystr

section \<open>Helpers\<close>

definition minutes :: "int \<Rightarrow> instant" where
  "minutes n = seconds (60 * n)"

definition retry_due :: "timeenv \<Rightarrow> pystr option \<Rightarrow> instant \<Rightarrow> bool" where
  "retry_due te next_retry_at now =
     (case next_retry_at of
        None \<Rightarrow> True
      | Some t \<Rightarrow> (case fromisoformat te t of None \<Rightarrow> False | Some parsed \<Rightarrow> as_utc te parsed \<le> now))"

definition record_recovery_backoff ::
  "pyenv \<Rightarrow> timeenv \<Rightarrow> textenv \<Rightarrow> recovery_run \<Rightarrow> recovery_state \<Rightarrow> pystr \<Rightarrow> gmail_store \<Rightarrow> err + gmail_store" where
  "record_recovery_backoff env te tx r state failure_code st =
     (let delay = min 15 (2 ^ nat (min (rs_retry_count (ry_row state)) 4)) in
      andThen (record_gmail_recovery_backoff env te (rn_account_id r) (rn_key r) failure_code
          (isoformat tx (rn_checked_at r + minutes delay)) False (rn_checked_at r) st) (\<lambda>(st, _). Inr st))"

definition current_recovery_grants ::
  "recovery_run \<Rightarrow> recovery_state \<Rightarrow> gmail_store \<Rightarrow> err + (pystr \<rightharpoonup> pystr option) \<times> label_selector list" where
  "current_recovery_grants r state st =
     andThen (gmail_current_label_selectors (rn_account_id r) (rn_key r) st) (\<lambda>current.
     Inr (\<lambda>address. if address \<in> rn_admission_senders r then map_of (ry_senders state) address else None,
          List.map_filter (\<lambda>l. case List.find (\<lambda>f. sn_selector_id f = lr_selector_id l) (ry_selectors state) of
              None \<Rightarrow> None
            | Some f \<Rightarrow> if lr_label_id l \<noteq> sn_label_id f then None
                else Some \<lparr>ls_selector_id = lr_selector_id l, ls_provider = gmail, ls_account_id = rn_account_id r,
                  ls_mailbox_identity_key = rn_key r, ls_label_id = lr_label_id l, ls_selected_display_name = sn_display_name f\<rparr>) current))"

definition received_at_or_none :: "iso \<Rightarrow> instant \<Rightarrow> instant option" where
  "received_at_or_none value observed_at = (case value of Aware t \<Rightarrow> Some (min t observed_at) | _ \<Rightarrow> None)"

definition copy_received_within_cutoff :: "message_metadata \<Rightarrow> instant \<Rightarrow> instant \<Rightarrow> instant option" where
  "copy_received_within_cutoff md checked_at cutoff =
     (case received_at_or_none (md_received_at md) checked_at of
        None \<Rightarrow> None
      | Some t \<Rightarrow> if t < cutoff then None else Some t)"

fun kind_name :: "admission_kind \<Rightarrow> pystr" where
  "kind_name Exact_sender = lit ''exact_sender''"
| "kind_name Vendor_address = lit ''vendor_address''"
| "kind_name Vendor_domain = lit ''vendor_domain''"
| "kind_name Sent_to_vendor = lit ''sent_to_vendor''"
| "kind_name Thread_follow = lit ''thread_follow''"
| "kind_name Gmail_user_label = lit ''gmail_user_label''"

definition provenance :: "textenv \<Rightarrow> admission_decision \<Rightarrow> admission_provenance" where
  "provenance tx d = \<lparr>admission_provenance.ad_kind = kind_name (admission_decision.ad_kind d),
     ad_selector_id = admission_decision.ad_selector_id d, ad_display_name = admission_decision.ad_display_name d,
     ad_mailbox_identity_key = admission_decision.ad_mailbox_identity_key d,
     ad_admitted_at = isoformat tx (admission_decision.ad_admitted_at d)\<rparr>"

definition recovery_context :: "recovery_run \<Rightarrow> (pystr \<rightharpoonup> pystr option) \<Rightarrow> label_selector list \<Rightarrow> admission_context" where
  "recovery_context r senders labels =
     \<lparr>ac_provider = gmail, ac_account_id = rn_account_id r, ac_mailbox_identity_key = rn_key r, ac_exact_senders = senders,
      ac_label_selectors = labels, ac_admitted_at = rn_checked_at r, ac_folders = rn_folders r, ac_vendor_index = None,
      ac_followed_thread = None, ac_followed_thread_lookup = None, ac_gated_allowed = False\<rparr>"

definition recovered_message :: "textenv \<Rightarrow> recovery_run \<Rightarrow> pystr \<Rightarrow> message_metadata \<Rightarrow> instant \<Rightarrow> recovery_message" where
  "recovered_message tx r message_id md received_at =
     \<lparr>gr_message_id = message_id, gr_thread_id = md_thread_id md, gr_sender = md_sender md,
      gr_sender_name = (case md_sender_name md of Some n \<Rightarrow> if n = [] then rn_sender_names r (md_sender md) else Some n
        | None \<Rightarrow> rn_sender_names r (md_sender md)),
      gr_subject = md_subject md, gr_received_at = isoformat tx received_at, gr_rfc_message_id = md_rfc_message_id md,
      gr_reply_ids = md_reply_ids md, gr_to = md_to md, gr_cc = md_cc md, gr_locations = admitted_locations md (rn_folders r),
      gr_capture_timezone = Some (rn_timezone r), gr_scope_complete = scope_complete (rn_folders r)\<rparr>"

section \<open>A round of the loop\<close>

text \<open>
  \<open>Next n k\<close>: the loop goes on with \<open>n\<close> more finished candidates and \<open>k\<close> more captured messages.
  \<open>Ended c\<close>: the run returns, and \<open>c\<close> says whether the recovery is complete.
\<close>

datatype turn_result = Next nat nat | Ended bool | Raised err

definition then_next :: "nat \<Rightarrow> gmail_store \<Rightarrow> err + gmail_store \<times> bool \<Rightarrow> gmail_store \<times> turn_result" where
  "then_next n st result = (case result of Inl e \<Rightarrow> (st, Raised e) | Inr (st', inserted) \<Rightarrow> (st', Next n (if inserted then 1 else 0)))"

definition then_stop :: "gmail_store \<Rightarrow> err + gmail_store \<Rightarrow> gmail_store \<times> turn_result" where
  "then_stop st result = (case result of Inl e \<Rightarrow> (st, Raised e) | Inr st' \<Rightarrow> (st', Ended False))"

definition capture_candidate ::
  "pyenv \<Rightarrow> timeenv \<Rightarrow> textenv \<Rightarrow> recovery_run \<Rightarrow> turn \<Rightarrow> pystr \<Rightarrow> message_metadata \<Rightarrow> recovery_state \<Rightarrow> gmail_store
     \<Rightarrow> err + gmail_store \<times> bool" where
  "capture_candidate env te tx r t source md state st =
     andThen (require (md_message_id md = source) (RuntimeError ''Mailbox metadata identity did not match the recovery page'')) (\<lambda>_.
     andThen (current_recovery_grants r state st) (\<lambda>(senders, labels).
     andThen (match_mailbox_admission env (recovery_context r senders labels) md) (\<lambda>admission.
     case (admission, copy_received_within_cutoff md (rn_checked_at r) (rs_retention_cutoff (ry_row state))) of
       (Some d, Some received_at) \<Rightarrow>
         andThen (scoped_message_id env gmail (rn_account_id r) source (Some (rn_key r))) (\<lambda>message_id.
         finish_gmail_recovery_candidate env te (tn_fresh t) (rn_account_id r) (rn_key r) source
           (Some (recovered_message tx r message_id md received_at, provenance tx d, md_labels md)) (tn_observed_at t) st)
     | _ \<Rightarrow> finish_gmail_recovery_candidate env te (tn_fresh t) (rn_account_id r) (rn_key r) source None (rn_checked_at r) st)))"

definition recovery_candidate ::
  "pyenv \<Rightarrow> timeenv \<Rightarrow> textenv \<Rightarrow> recovery_run \<Rightarrow> turn \<Rightarrow> pystr \<Rightarrow> recovery_state \<Rightarrow> gmail_store \<Rightarrow> gmail_store \<times> turn_result" where
  "recovery_candidate env te tx r t source state st =
     (let scope = (gmail, rn_account_id r, rn_key r);
          terminal = finish_gmail_recovery_candidate env te (tn_fresh t) (rn_account_id r) (rn_key r) source None (rn_checked_at r) in
      case has_seen_message env source gmail (rn_account_id r) (Some (rn_key r)) (capture_view st) of
        Inl e \<Rightarrow> (st, Raised e)
      | Inr True \<Rightarrow>
          (case record_message_location scope source {} [] [] False False (tn_observed_at t) (capture_view st) of
             Inl e \<Rightarrow> (st, Raised e)
           | Inr (cp, _) \<Rightarrow> (let st = with_capture cp st in then_next 1 st (terminal st)))
      | Inr False \<Rightarrow>
          if \<not> tn_time_left t then (st, Ended False)
          else
            (case tn_metadata t of
               Metadata_gone \<Rightarrow> then_next 1 st (terminal st)
             | Metadata_rejected e \<Rightarrow> (st, Raised e)
             | Metadata_unavailable \<Rightarrow>
                 then_stop st (record_recovery_backoff env te tx r state (lit ''gmail_recovery_provider_unavailable'') st)
             | Metadata md \<Rightarrow> then_next 1 st (capture_candidate env te tx r t source md state st)))"

definition drain_page ::
  "pyenv \<Rightarrow> timeenv \<Rightarrow> textenv \<Rightarrow> recovery_run \<Rightarrow> turn \<Rightarrow> recovery_state \<Rightarrow> gmail_store \<Rightarrow> gmail_store \<times> turn_result" where
  "drain_page env te tx r t state st =
     (if rs_next_index (ry_row state) = length (ry_page_ids state) then
        (case finish_gmail_recovery_page env (rn_account_id r) (rn_key r) (rn_checked_at r) st of
           Inl e \<Rightarrow> (st, Raised e)
         | Inr (st', False) \<Rightarrow> (st', Next 0 0)
         | Inr (st', True) \<Rightarrow>
             (case complete_gmail_recovery env (rn_account_id r) (rn_key r) (rn_checked_at r) st' of
                Inl e \<Rightarrow> (st', Raised e)
              | Inr (st'', _) \<Rightarrow> (st'', Ended True)))
      else recovery_candidate env te tx r t (ry_page_ids state ! rs_next_index (ry_row state)) state st)"

definition token_delay :: "int \<Rightarrow> int" where
  "token_delay invalid_count = (if invalid_count \<le> 4 then 2 ^ nat (invalid_count - 1) else 60)"

definition recovery_turn ::
  "pyenv \<Rightarrow> timeenv \<Rightarrow> textenv \<Rightarrow> recovery_run \<Rightarrow> turn \<Rightarrow> gmail_store \<Rightarrow> gmail_store \<times> turn_result" where
  "recovery_turn env te tx r t st =
     (case gmail_recovery_state env (rn_account_id r) st of
        Inl e \<Rightarrow> (st, Raised e)
      | Inr None \<Rightarrow> (st, Ended True)
      | Inr (Some state) \<Rightarrow>
          if rs_page_loaded (ry_row state) then drain_page env te tx r t state st
          else if \<not> tn_time_left t then (st, Ended False)
          else
            (case tn_page t of
               Page ids token \<Rightarrow>
                 (case store_gmail_recovery_page env (rn_account_id r) (rn_key r) ids token (rn_checked_at r) st of
                    Inl e \<Rightarrow> (st, Raised e)
                  | Inr (st', state') \<Rightarrow> drain_page env te tx r t state' st')
             | Page_token_invalid \<Rightarrow>
                 then_stop st (andThen (record_gmail_recovery_invalid_page_token env te (rn_account_id r) (rn_key r)
                     (isoformat tx (rn_checked_at r + minutes (token_delay (rs_invalid_count (ry_row state) + 1)))) (rn_checked_at r) st)
                   (\<lambda>(st, _). Inr st))
             | Page_malformed \<Rightarrow> then_stop st (record_recovery_backoff env te tx r state (lit ''gmail_recovery_page_invalid'') st)
             | Page_rejected e \<Rightarrow> (st, Raised e)
             | Page_unavailable \<Rightarrow>
                 then_stop st (record_recovery_backoff env te tx r state (lit ''gmail_recovery_provider_unavailable'') st)))"

fun recovery_loop ::
  "pyenv \<Rightarrow> timeenv \<Rightarrow> textenv \<Rightarrow> recovery_run \<Rightarrow> turn list \<Rightarrow> nat \<Rightarrow> nat \<Rightarrow> gmail_store \<Rightarrow> gmail_store \<times> (err + nat \<times> bool)" where
  "recovery_loop env te tx r [] terminal added st = (st, Inr (added, False))"
| "recovery_loop env te tx r (t # ts) terminal added st =
     (if 200 \<le> terminal \<or> \<not> tn_in_time t then (st, Inr (added, False))
      else
        (case recovery_turn env te tx r t st of
           (st, Next n k) \<Rightarrow> recovery_loop env te tx r ts (terminal + n) (added + k) st
         | (st, Ended c) \<Rightarrow> (st, Inr (added, c))
         | (st, Raised e) \<Rightarrow> (st, Inl e)))"

fun location_name :: "location \<Rightarrow> pystr" where
  "location_name Inbox = lit ''inbox''"
| "location_name Sent = lit ''sent''"

definition scope_key :: "location set \<Rightarrow> pystr" where
  "scope_key folders = folder_scope_key (map location_name (filter (\<lambda>l. l \<in> folders) [Inbox, Sent]))"

definition run_gmail_recovery ::
  "pyenv \<Rightarrow> timeenv \<Rightarrow> textenv \<Rightarrow> recovery_run \<Rightarrow> turn list \<Rightarrow> gmail_store \<Rightarrow> gmail_store \<times> (err + nat \<times> bool)" where
  "run_gmail_recovery env te tx r turns st =
     (case gmail_recovery_state env (rn_account_id r) st of
        Inl e \<Rightarrow> (st, Inl e)
      | Inr None \<Rightarrow> (st, Inl (RuntimeError ''Gmail recovery state was not initialized''))
      | Inr (Some state) \<Rightarrow>
          (case (if rs_query_scope (ry_row state) = scope_key (rn_folders r) then Inr (st, state)
                 else restart_gmail_recovery_page env (rn_account_id r) (rn_key r) (scope_key (rn_folders r)) (rn_checked_at r) st) of
             Inl e \<Rightarrow> (st, Inl e)
           | Inr (st, state) \<Rightarrow>
               if \<not> retry_due te (rs_next_retry_at (ry_row state)) (rn_checked_at r) then (st, Inr (0, False))
               else recovery_loop env te tx r turns 0 0 st))"

section \<open>Starting a recovery\<close>

text \<open>\<open>is_digits\<close> is \<open>str.isdigit\<close>; \<open>senders\<close> are the items of \<open>admission_sender_names\<close>.\<close>

definition start_gmail_recovery ::
  "pyenv \<Rightarrow> (pystr \<Rightarrow> bool) \<Rightarrow> pystr \<Rightarrow> pystr \<Rightarrow> (pystr \<times> pystr option) list \<Rightarrow> label_row list \<Rightarrow> instant \<Rightarrow> pystr \<Rightarrow> instant
     \<Rightarrow> int \<Rightarrow> location set \<Rightarrow> gmail_store \<Rightarrow> err + gmail_store \<times> recovery_state" where
  "start_gmail_recovery env is_digits account_id key senders labels last_success cursor sampled_at retention_days folders st =
     andThen (the_row MailboxIdentityChanged (find_label_set st account_id)) (\<lambda>s.
     andThen (require (is_digits cursor) (RuntimeError ''Gmail returned an invalid replacement history cursor'')) (\<lambda>_.
     (let cutoff = sampled_at - days retention_days;
          since = max (last_success - minutes 5) cutoff;
          after = - ((- since) div 1000000) - 1;
          before = sampled_at div 1000000 + 1 in
      andThen (require (0 \<le> after \<and> after < before) (RuntimeError ''Gmail recovery window is invalid'')) (\<lambda>_.
      create_gmail_recovery_state env account_id key (lb_revision s) (sort_key fst senders)
        (map (\<lambda>l. \<lparr>sn_selector_id = lr_selector_id l, sn_label_id = lr_label_id l, sn_display_name = lr_selected_display_name l\<rparr>) labels)
        after before cursor (Some cutoff) (scope_key folders) sampled_at st))))"

end
