(* ===== verification/Gmail_Proofs.thy ===== *)
theory Gmail_Proofs
  imports Gmail_Codec Gmail_Service Reconcile_Proofs Capture_History
begin

text \<open>
  Histories of the label and recovery operations. A log of the pages a recovery was given and of the
  candidates it finished is kept beside the store; the stored page is at every moment what is left of
  that log, so a recovery that completes has finished everything Gmail listed. The revision of an
  account's label selectors is an instance of the locale \<open>versioned\<close>.
\<close>

section \<open>Operations\<close>

datatype gmail_op =
    Register pystr pystr pystr "pystr option" bool instant
  | Rename_account pystr pystr pystr pystr instant
  | Identify pystr pystr pystr "legacy_status option" bool instant
  | Add_label pystr pystr pystr pystr pystr int instant
  | Remove_label pystr pystr pystr int instant
  | Validate pystr pystr int "(pystr \<times> pystr \<times> pystr) list" instant
  | Validate_invalid pystr pystr int instant
  | Invalidate pystr pystr int
  | Create pystr pystr int "(pystr \<times> pystr option) list" "selector_snapshot list" int int pystr "instant option" pystr instant
  | Store_page pystr pystr "pystr list" "pystr option" instant
  | Finish_page pystr pystr instant
  | Record_backoff pystr pystr pystr pystr bool instant
  | Token_invalid pystr pystr pystr instant
  | Clear_backoff pystr pystr instant
  | Restart pystr pystr pystr instant
  | Candidate pystr pystr pystr pystr "(recovery_message \<times> admission_provenance \<times> pystr set) option" instant
  | Complete_recovery pystr pystr instant
  | Reconciled "reconcile_store \<Rightarrow> reconcile_store"

fun gmail_exec :: "pyenv \<Rightarrow> timeenv \<Rightarrow> gmail_store \<Rightarrow> gmail_op \<Rightarrow> err + gmail_store" where
  "gmail_exec env te st (Register provider a name address active now) = andThen (register_mail_account provider a name address active now st) (\<lambda>(st, _). Inr st)"
| "gmail_exec env te st (Rename_account provider a name address now) = update_mail_account_identity provider a name address now st"
| "gmail_exec env te st (Identify provider a key legacy preserve now) = reconcile_mailbox_identity provider a key legacy preserve now st"
| "gmail_exec env te st (Add_label i a key label name expected now) = andThen (add_gmail_label_selector i a key label name expected now st) (\<lambda>(st, _). Inr st)"
| "gmail_exec env te st (Remove_label a key i expected now) = andThen (remove_gmail_label_selector a key i expected now st) (\<lambda>(st, _). Inr st)"
| "gmail_exec env te st (Validate a key expected catalog now) = andThen (persist_gmail_label_validation a key expected catalog now st) (\<lambda>(st, _). Inr st)"
| "gmail_exec env te st (Validate_invalid a key expected now) = andThen (persist_gmail_label_invalid_catalog a key expected now st) (\<lambda>(st, _). Inr st)"
| "gmail_exec env te st (Invalidate a key revision) = andThen (invalidate_gmail_label_validation a key revision st) (\<lambda>(st, _). Inr st)"
| "gmail_exec env te st (Create a key revision senders selectors lower upper cursor cutoff scope now) =
     andThen (create_gmail_recovery_state env a key revision senders selectors lower upper cursor cutoff scope now st) (\<lambda>(st, _). Inr st)"
| "gmail_exec env te st (Store_page a key ids token now) = andThen (store_gmail_recovery_page env a key ids token now st) (\<lambda>(st, _). Inr st)"
| "gmail_exec env te st (Finish_page a key now) = andThen (finish_gmail_recovery_page env a key now st) (\<lambda>(st, _). Inr st)"
| "gmail_exec env te st (Record_backoff a key code at degraded now) =
     andThen (record_gmail_recovery_backoff env te a key code at degraded now st) (\<lambda>(st, _). Inr st)"
| "gmail_exec env te st (Token_invalid a key at now) = andThen (record_gmail_recovery_invalid_page_token env te a key at now st) (\<lambda>(st, _). Inr st)"
| "gmail_exec env te st (Clear_backoff a key now) = andThen (clear_gmail_recovery_backoff env a key now st) (\<lambda>(st, _). Inr st)"
| "gmail_exec env te st (Restart a key scope now) = andThen (restart_gmail_recovery_page env a key scope now st) (\<lambda>(st, _). Inr st)"
| "gmail_exec env te st (Candidate fresh a key source found now) =
     andThen (finish_gmail_recovery_candidate env te fresh a key source found now st) (\<lambda>(st, _). Inr st)"
| "gmail_exec env te st (Complete_recovery a key now) = andThen (complete_gmail_recovery env a key now st) (\<lambda>(st, _). Inr st)"
| "gmail_exec env te st (Reconciled f) = Inr (st\<lparr>gm_reconcile := f (gm_reconcile st)\<rparr>)"

abbreviation gmail_run :: "pyenv \<Rightarrow> timeenv \<Rightarrow> gmail_store \<Rightarrow> gmail_op list \<Rightarrow> gmail_store" where
  "gmail_run env te \<equiv> foldl (committed (gmail_exec env te))"

section \<open>The log of a recovery\<close>

text \<open>The pages given since the search of the account last started over, what was finished since, and the cursor it was created with.\<close>

record recovery_log =
  rg_pages :: "(pystr list \<times> pystr option) list"
  rg_finished :: "pystr list"
  rg_cursor :: pystr

fun log_step :: "pystr \<Rightarrow> recovery_log \<Rightarrow> gmail_op \<Rightarrow> recovery_log" where
  "log_step a g (Create b _ _ _ _ _ _ cursor _ _ _) = (if b = a then \<lparr>rg_pages = [], rg_finished = [], rg_cursor = cursor\<rparr> else g)"
| "log_step a g (Store_page b _ ids token _) = (if b = a then g\<lparr>rg_pages := rg_pages g @ [(ids, token)]\<rparr> else g)"
| "log_step a g (Candidate _ b _ source _ _) = (if b = a then g\<lparr>rg_finished := rg_finished g @ [source]\<rparr> else g)"
| "log_step a g (Token_invalid b _ _ _) = (if b = a then g\<lparr>rg_pages := [], rg_finished := []\<rparr> else g)"
| "log_step a g (Restart b _ _ _) = (if b = a then g\<lparr>rg_pages := [], rg_finished := []\<rparr> else g)"
| "log_step a g _ = g"

text \<open>An operation that raises leaves the log as it is.\<close>

definition logged_step :: "pyenv \<Rightarrow> timeenv \<Rightarrow> pystr \<Rightarrow> gmail_store \<times> recovery_log \<Rightarrow> gmail_op \<Rightarrow> gmail_store \<times> recovery_log" where
  "logged_step env te a = (\<lambda>(st, g) op. case gmail_exec env te st op of Inl _ \<Rightarrow> (st, g) | Inr st' \<Rightarrow> (st', log_step a g op))"

definition recovery_log_of :: "pyenv \<Rightarrow> timeenv \<Rightarrow> pystr \<Rightarrow> gmail_store \<Rightarrow> gmail_op list \<Rightarrow> recovery_log" where
  "recovery_log_of env te a st ops = snd (foldl (logged_step env te a) (st, \<lparr>rg_pages = [], rg_finished = [], rg_cursor = []\<rparr>) ops)"

lemma logged_run: "fst (foldl (logged_step env te a) (st, g) ops) = gmail_run env te st ops"
  by (induction ops arbitrary: st g) (auto simp: logged_step_def committed_def split: sum.splits)

section \<open>The stored page is the rest of the log\<close>

definition page_left :: "recovery_row \<Rightarrow> pystr list \<Rightarrow> recovery_log \<Rightarrow> bool" where
  "page_left r ids g \<longleftrightarrow> decode_gmail_recovery_page (rs_page r) = Inr ids
     \<and> rs_next_index r \<le> length ids \<and> (rs_page_loaded r \<or> ids = [] \<and> rs_next_index r = 0)
     \<and> concat (map fst (rg_pages g)) = rg_finished g @ drop (rs_next_index r) ids
     \<and> rs_page_token r = (if rg_pages g = [] then None else snd (last (rg_pages g)))
     \<and> (\<forall>p\<in>set (butlast (rg_pages g)). snd p \<noteq> None)
     \<and> (if rs_page_loaded r then rg_pages g \<noteq> [] else rg_pages g \<noteq> [] \<longrightarrow> rs_page_token r \<noteq> None)
     \<and> rs_cursor r = rg_cursor g"

definition follows_log :: "pystr \<Rightarrow> gmail_store \<Rightarrow> recovery_log \<Rightarrow> bool" where
  "follows_log a st g \<longleftrightarrow> distinct (map rs_account_id (gm_recovery st))
     \<and> (\<forall>r. find_recovery st a = Some r \<longrightarrow> (\<exists>ids. page_left r ids g))"

lemma follows_log_same: "gm_recovery st' = gm_recovery st \<Longrightarrow> follows_log a st g \<Longrightarrow> follows_log a st' g"
  by (simp add: follows_log_def find_recovery_def)

lemma update_recovery_find:
  "(\<And>r. rs_account_id (f r) = rs_account_id r) \<Longrightarrow>
     find_recovery (update_recovery b f st) a = (if a = b then map_option f (find_recovery st a) else find_recovery st a)"
proof -
  assume keeps: "\<And>r. rs_account_id (f r) = rs_account_id r"
  have "find_recovery (update_recovery b f st) a = map_option (\<lambda>r. if rs_account_id r = b then f r else r) (find_recovery st a)"
    unfolding find_recovery_def update_recovery_def by (simp add: find_key_update keeps)
  moreover have "rs_account_id r = a" if "find_recovery st a = Some r" for r
    using that unfolding find_recovery_def by (rule find_key_Some [THEN conjunct2])
  ultimately show ?thesis by (cases "find_recovery st a") auto
qed

text \<open>An update of the row of one account: what it must do to the rows of the account the log is about.\<close>

lemma update_recovery_follows:
  assumes "follows_log a st g" and "\<And>r. rs_account_id (f r) = rs_account_id r"
    and "\<And>r ids. b = a \<Longrightarrow> find_recovery st a = Some r \<Longrightarrow> page_left r ids g \<Longrightarrow> \<exists>ids'. page_left (f r) ids' g'"
    and "b \<noteq> a \<Longrightarrow> g' = g"
  shows "follows_log a (update_recovery b f st) g'"
proof -
  have "distinct (map rs_account_id (gm_recovery (update_recovery b f st)))"
    using assms(1,2) by (simp add: follows_log_def update_recovery_def map_update_where)
  moreover have "\<exists>ids. page_left r ids g'" if "find_recovery (update_recovery b f st) a = Some r" for r
    using that assms update_recovery_find [of f b st a] by (auto simp: follows_log_def split: if_splits)
  ultimately show ?thesis by (simp add: follows_log_def)
qed

lemma updated_recovery_Inr: "updated_recovery env a f st = Inr (st', s) \<Longrightarrow> st' = update_recovery a f st"
  by (auto simp: updated_recovery_def Let_def res_splits)

lemma current_recovery:
  assumes "require_current_gmail_recovery env a key st = Inr s"
  shows "find_recovery st a = Some (ry_row s)" "decode_gmail_recovery_page (rs_page (ry_row s)) = Inr (ry_page_ids s)" "rs_identity (ry_row s) = key"
  using assms by (auto simp: require_current_gmail_recovery_def gmail_recovery_state_of_def res_splits)

lemma page_left_ids: "page_left r ids g \<Longrightarrow> decode_gmail_recovery_page (rs_page r) = Inr ids' \<Longrightarrow> ids' = ids"
  by (simp add: page_left_def)

section \<open>Every operation keeps it\<close>

lemma delete_recovery_follows:
  "follows_log a st g \<Longrightarrow> gm_recovery st' = delete_where P (gm_recovery st) \<Longrightarrow> follows_log a st' g"
proof -
  assume f: "follows_log a st g" and d: "gm_recovery st' = delete_where P (gm_recovery st)"
  have "find_recovery st a = Some r" if "find_recovery st' a = Some r" for r
  proof -
    have "r \<in> set (gm_recovery st)" "rs_account_id r = a"
      using that find_key_Some [of rs_account_id a "gm_recovery st'" r] by (auto simp: find_recovery_def d set_delete_where)
    then show ?thesis using find_key_distinct [of rs_account_id "gm_recovery st" r] f by (simp add: follows_log_def find_recovery_def)
  qed
  then show ?thesis using f by (simp add: follows_log_def d distinct_delete_where)
qed

lemma note_accounts_recovery [simp]: "gm_recovery (note_accounts st) = gm_recovery st"
  by (simp add: note_accounts_def)

lemma bump_label_recovery [simp]: "gm_recovery (bump_label_revision b n now st) = gm_recovery st" "gm_recovery (delete_gmail_label_validation b st) = gm_recovery st"
  by (simp_all add: bump_label_revision_def delete_gmail_label_validation_def update_label_set_def)

lemma reconcile_label_set_recovery:
  "reconcile_label_set b key now st = Inr st' \<Longrightarrow> \<exists>P. gm_recovery st' = delete_where P (gm_recovery st)"
proof -
  assume h: "reconcile_label_set b key now st = Inr st'"
  have none: "delete_where (\<lambda>_. False) rows = rows" for rows :: "recovery_row list" by (simp add: delete_where_def)
  have "gm_recovery st' = gm_recovery st \<or> gm_recovery st' = delete_where (\<lambda>r. rs_account_id r = b) (gm_recovery st)"
    using h by (auto simp: reconcile_label_set_def Let_def res_splits update_label_set_def split: option.splits if_splits)
  then show ?thesis using none by metis
qed

lemma identify_recovery:
  assumes "reconcile_mailbox_identity provider b key legacy preserve now st = Inr st'"
  shows "\<exists>P. gm_recovery st' = delete_where P (gm_recovery st)"
proof -
  have none: "\<exists>P. gm_recovery st = delete_where P (gm_recovery st)" by (rule exI [of _ "\<lambda>_. False"]) (simp add: delete_where_def)
  have bind: "gm_recovery st2 = gm_recovery st1"
    if "(if c then andThen (bind_pending_legacy_identity provider b None (capture_view st1)) (\<lambda>cp. Inr (with_capture cp st1)) else Inr st1) = Inr st2" for c st1 st2
    using that by (auto simp: res_splits with_capture_def split: if_splits)
  have label: "\<exists>P. gm_recovery st2 = delete_where P (gm_recovery st)"
    if "(if provider = gmail then reconcile_label_set b key now st1 else Inr st1) = Inr st2" "gm_recovery st1 = gm_recovery st" for st1 st2
    using that reconcile_label_set_recovery [of b key now st1 st2] none by (auto split: if_splits)
  from assms show ?thesis
    unfolding reconcile_mailbox_identity_def Let_def andThen_Inr split_beta
    by (elim exE conjE) (drule bind, drule label, auto split: if_splits)
qed

lemma create_follows:
  assumes f: "follows_log a st g" and h: "create_gmail_recovery_state env b key revision senders selectors lower upper cursor cutoff scope now st = Inr (st', s)"
  shows "follows_log a st' (log_step a g (Create b key revision senders selectors lower upper cursor cutoff scope now))"
proof -
  obtain row where st': "st' = st\<lparr>gm_recovery := gm_recovery st @ [row]\<rparr>" and row: "rs_account_id row = b" "rs_page row = empty_page" "rs_next_index row = 0"
    "\<not> rs_page_loaded row" "rs_page_token row = None" "rs_cursor row = cursor" and none: "find_recovery st b = None"
    using h by (auto simp: create_gmail_recovery_state_def Let_def res_splits)
  have new: "rs_account_id row \<notin> rs_account_id ` set (gm_recovery st)" using none row(1) by (simp add: find_recovery_def find_key_None)
  have find: "find_recovery st' a = (if a = b then Some row else find_recovery st a)"
    using find_key_insert [OF new, of a] row(1) by (simp add: find_recovery_def st')
  have "page_left row [] \<lparr>rg_pages = [], rg_finished = [], rg_cursor = cursor\<rparr>" using row by (simp add: page_left_def)
  moreover have "distinct (map rs_account_id (gm_recovery st'))" using f new by (auto simp: st' follows_log_def)
  ultimately show ?thesis using f find by (auto simp: follows_log_def)
qed

lemma started_over:
  assumes f: "follows_log a st g"
    and "\<And>r. rs_account_id (F r) = rs_account_id r \<and> rs_page (F r) = empty_page \<and> rs_next_index (F r) = 0 \<and> \<not> rs_page_loaded (F r)
      \<and> rs_page_token (F r) = None \<and> rs_cursor (F r) = rs_cursor r"
  shows "follows_log a (update_recovery b F st) (if b = a then g\<lparr>rg_pages := [], rg_finished := []\<rparr> else g)"
  using assms by (intro update_recovery_follows [OF f]) (auto simp: page_left_def)

lemma page_kept:
  assumes f: "follows_log a st g"
    and "\<And>r. rs_account_id (F r) = rs_account_id r \<and> rs_page (F r) = rs_page r \<and> rs_next_index (F r) = rs_next_index r \<and> rs_page_loaded (F r) = rs_page_loaded r
      \<and> rs_page_token (F r) = rs_page_token r \<and> rs_cursor (F r) = rs_cursor r"
  shows "follows_log a (update_recovery b F st) g"
  using assms by (intro update_recovery_follows [OF f]) (auto simp: page_left_def)

lemma store_page_follows:
  assumes f: "follows_log a st g" and h: "store_gmail_recovery_page env b key ids token now st = Inr (st', s)"
  shows "follows_log a st' (log_step a g (Store_page b key ids token now))"
proof -
  obtain page s0 where page: "encode_gmail_recovery_page ids = Inr page" and s0: "require_current_gmail_recovery env b key st = Inr s0"
    and unloaded: "\<not> rs_page_loaded (ry_row s0)"
    and st': "st' = update_recovery b (\<lambda>r. r\<lparr>rs_page_token := token, rs_page := page, rs_page_loaded := True, rs_next_index := 0,
       rs_page_count := rs_page_count r + 1, rs_retry_count := 0, rs_phase := Collecting, rs_failure_code := None,
       rs_next_retry_at := None, rs_updated_at := now\<rparr>) st"
    using h updated_recovery_Inr by (fastforce simp: store_gmail_recovery_page_def res_splits)
  have left: "page_left (r\<lparr>rs_page_token := token, rs_page := page, rs_page_loaded := True, rs_next_index := 0,
       rs_page_count := rs_page_count r + 1, rs_retry_count := 0, rs_phase := Collecting, rs_failure_code := None,
       rs_next_retry_at := None, rs_updated_at := now\<rparr>) ids (g\<lparr>rg_pages := rg_pages g @ [(ids, token)]\<rparr>)"
    if "page_left r ids' g" "\<not> rs_page_loaded r" for r ids'
    using that recovery_page_roundtrip [OF page] by (cases "rg_pages g" rule: rev_cases) (auto simp: page_left_def butlast_append)
  show ?thesis unfolding st'
    using left unloaded current_recovery(1) [OF s0] by (intro update_recovery_follows [OF f]) auto
qed

lemma finish_page_follows:
  assumes f: "follows_log a st g" and h: "finish_gmail_recovery_page env b key now st = Inr (st', last_page)"
  shows "follows_log a st' g"
proof -
  obtain s0 where s0: "require_current_gmail_recovery env b key st = Inr s0" and drained: "rs_page_loaded (ry_row s0)" "rs_next_index (ry_row s0) = length (ry_page_ids s0)"
    and st': "st' = st \<or> rs_page_token (ry_row s0) \<noteq> None
      \<and> st' = update_recovery b (\<lambda>r. r\<lparr>rs_page := empty_page, rs_page_loaded := False, rs_next_index := 0, rs_updated_at := now\<rparr>) st"
    using h by (auto simp: finish_gmail_recovery_page_def res_splits split: if_splits)
  note row = current_recovery [OF s0]
  from st' show ?thesis
  proof (elim disjE conjE)
    assume tok: "rs_page_token (ry_row s0) \<noteq> None"
    have left: "\<exists>ids'. page_left ((ry_row s0)\<lparr>rs_page := empty_page, rs_page_loaded := False, rs_next_index := 0, rs_updated_at := now\<rparr>) ids' g"
      if "page_left (ry_row s0) ids g" for ids
      using that page_left_ids [OF that] row(2) drained tok by (intro exI [of _ "[]"]) (auto simp: page_left_def)
    show "st' = update_recovery b (\<lambda>r. r\<lparr>rs_page := empty_page, rs_page_loaded := False, rs_next_index := 0, rs_updated_at := now\<rparr>) st \<Longrightarrow> ?thesis"
      using left row(1) by (auto intro!: update_recovery_follows [OF f])
  qed (use f in simp)
qed

lemma token_invalid_follows:
  assumes f: "follows_log a st g" and h: "record_gmail_recovery_invalid_page_token env te b key at now st = Inr (st', s)"
  shows "follows_log a st' (if b = a then g\<lparr>rg_pages := [], rg_finished := []\<rparr> else g)"
  using h [unfolded record_gmail_recovery_invalid_page_token_def Let_def andThen_Inr require_Inr]
  by (elim exE conjE) (drule updated_recovery_Inr, simp only:, rule started_over [OF f], simp)

lemma restart_follows:
  assumes f: "follows_log a st g" and h: "restart_gmail_recovery_page env b key scope now st = Inr (st', s)"
  shows "follows_log a st' (if b = a then g\<lparr>rg_pages := [], rg_finished := []\<rparr> else g)"
  using h [unfolded restart_gmail_recovery_page_def andThen_Inr require_Inr]
  by (elim exE conjE) (drule updated_recovery_Inr, simp only:, rule started_over [OF f], simp)

lemma capture_admitted_frame:
  assumes "capture_admitted env te fresh b key source found s now st = Inr p"
  shows "gm_recovery (fst p) = gm_recovery st" "gm_sets (fst p) = gm_sets st"
  using assms by (auto simp: capture_admitted_def res_splits with_capture_def split: option.splits prod.splits)

lemma candidate_follows:
  assumes f: "follows_log a st g" and h: "finish_gmail_recovery_candidate env te fresh b key source found now st = Inr (st', inserted)"
  shows "follows_log a st' (log_step a g (Candidate fresh b key source found now))"
proof -
  obtain s0 st1 where s0: "require_current_gmail_recovery env b key st = Inr s0" and same: "gm_recovery st1 = gm_recovery st"
    and nth: "rs_page_loaded (ry_row s0)" "rs_next_index (ry_row s0) < length (ry_page_ids s0)" "ry_page_ids s0 ! rs_next_index (ry_row s0) = source"
    and st': "st' = update_recovery b (\<lambda>r. r\<lparr>rs_next_index := rs_next_index r + 1, rs_terminal_count := rs_terminal_count r + 1,
            rs_retry_count := 0, rs_phase := Collecting, rs_failure_code := None, rs_next_retry_at := None, rs_updated_at := now\<rparr>) st1"
  proof -
    from h [unfolded finish_gmail_recovery_candidate_def andThen_Inr require_Inr] show thesis
      by (elim exE conjE) (rule that, assumption, erule capture_admitted_frame(1), assumption+, simp add: split_beta)
  qed
  note row = current_recovery [OF s0]
  have left: "\<exists>ids'. page_left ((ry_row s0)\<lparr>rs_next_index := rs_next_index (ry_row s0) + 1, rs_terminal_count := rs_terminal_count (ry_row s0) + 1,
      rs_retry_count := 0, rs_phase := Collecting, rs_failure_code := None, rs_next_retry_at := None, rs_updated_at := now\<rparr>)
      ids' (g\<lparr>rg_finished := rg_finished g @ [source]\<rparr>)" if "page_left (ry_row s0) ids g" for ids
    using that page_left_ids [OF that] row(2) nth Cons_nth_drop_Suc [of "rs_next_index (ry_row s0)" ids]
    by (intro exI [of _ ids]) (auto simp: page_left_def)
  have "find_recovery st1 a = find_recovery st a" using same by (simp add: find_recovery_def)
  then show ?thesis unfolding st'
    using left row(1) by (auto intro!: update_recovery_follows [OF follows_log_same [OF same f]])
qed

lemma gmail_step_follows:
  assumes f: "follows_log a st g" and h: "gmail_exec env te st op = Inr st'"
  shows "follows_log a st' (log_step a g op)"
proof -
  have same: "follows_log a st' g" if "gm_recovery st' = gm_recovery st" using that f by (rule follows_log_same)
  show ?thesis
  proof (cases op)
    case (Register provider b name address active now)
    then show ?thesis using same h by (auto simp: register_mail_account_def Let_def res_splits)
  next
    case (Rename_account provider b name address now)
    then show ?thesis using same h by (auto simp: update_mail_account_identity_def Let_def res_splits)
  next
    case (Identify provider b key legacy preserve now)
    then show ?thesis using identify_recovery delete_recovery_follows [OF f] h by fastforce
  next
    case (Add_label i b key label name expected now)
    then show ?thesis using same h by (auto simp: add_gmail_label_selector_def Let_def res_splits)
  next
    case (Remove_label b key i expected now)
    then show ?thesis using same h by (auto simp: remove_gmail_label_selector_def Let_def res_splits)
  next
    case (Validate b key expected catalog now)
    then show ?thesis using same h by (auto simp: persist_gmail_label_validation_def Let_def res_splits)
  next
    case (Validate_invalid b key expected now)
    then show ?thesis using same h by (auto simp: persist_gmail_label_invalid_catalog_def Let_def res_splits)
  next
    case (Invalidate b key revision)
    then show ?thesis using same h by (auto simp: invalidate_gmail_label_validation_def res_splits split: if_splits)
  next
    case (Create b key revision senders selectors lower upper cursor cutoff scope now)
    then show ?thesis using create_follows [OF f, of env b key revision senders selectors lower upper cursor cutoff scope now st'] h by (auto simp: res_splits)
  next
    case (Store_page b key ids token now)
    then show ?thesis using store_page_follows [OF f, of env b key ids token now st'] h by (auto simp: res_splits)
  next
    case (Finish_page b key now)
    then show ?thesis using finish_page_follows [OF f, of env b key now st'] h by (auto simp: res_splits)
  next
    case (Record_backoff b key code at degraded now)
    then show ?thesis using h updated_recovery_Inr by (auto simp: record_gmail_recovery_backoff_def res_splits intro!: page_kept [OF f] dest!: updated_recovery_Inr)
  next
    case (Token_invalid b key at now)
    then show ?thesis using token_invalid_follows [OF f, of env te b key at now st'] h by (auto simp: res_splits)
  next
    case (Clear_backoff b key now)
    then show ?thesis using h by (auto simp: clear_gmail_recovery_backoff_def res_splits dest!: updated_recovery_Inr intro!: page_kept [OF f])
  next
    case (Restart b key scope now)
    then show ?thesis using restart_follows [OF f, of env b key scope now st'] h by (auto simp: res_splits)
  next
    case (Candidate fresh b key source found now)
    then show ?thesis using candidate_follows [OF f, of env te fresh b key source found now st'] h by (auto simp: res_splits)
  next
    case (Complete_recovery b key now)
    then show ?thesis using h delete_recovery_follows [OF f] by (auto simp: complete_gmail_recovery_def Let_def res_splits)
  next
    case (Reconciled F)
    then show ?thesis using same h by auto
  qed
qed

lemma gmail_run_follows:
  "follows_log a st g \<Longrightarrow> follows_log a (fst (foldl (logged_step env te a) (st, g) ops)) (snd (foldl (logged_step env te a) (st, g) ops))"
  by (induction ops arbitrary: st g) (auto simp: logged_step_def intro: gmail_step_follows split: sum.splits)

section \<open>A recovery that completes\<close>

definition find_cursor :: "gmail_store \<Rightarrow> pystr \<Rightarrow> pystr \<Rightarrow> mailbox_cursor option" where
  "find_cursor st provider a = List.find (\<lambda>c. mc_provider c = provider \<and> mc_account_id c = a) (gm_cursors st)"

lemma put_cursor_find: "List.find (\<lambda>r. mc_provider r = mc_provider c \<and> mc_account_id r = mc_account_id c) (put_cursor c rows) = Some c"
proof -
  have key: "(mc_provider r = mc_provider c \<and> mc_account_id r = mc_account_id c) = ((mc_provider r, mc_account_id r) = (mc_provider c, mc_account_id c))" for r
    by simp
  show ?thesis unfolding put_cursor_def Let_def key by (induction rows) (auto simp: update_where_def)
qed

lemma complete_recovery_Inr:
  assumes "complete_gmail_recovery env a key now st = Inr (st', c)"
  obtains s rk where "require_current_gmail_recovery env a key st = Inr s"
    "rs_page_loaded (ry_row s)" "rs_page_token (ry_row s) = None" "rs_next_index (ry_row s) = length (ry_page_ids s)" "c = rs_cursor (ry_row s)"
    "gap (gmail, a, key) now (gm_reconcile st) = Inr rk"
    "st' = st\<lparr>gm_cursors := put_cursor \<lparr>mc_provider = gmail, mc_account_id = a, mc_cursor = c, mc_last_success_at = rs_created_at (ry_row s)\<rparr> (gm_cursors st),
       gm_recovery := delete_where (\<lambda>r. rs_account_id r = a \<and> rs_identity r = key) (gm_recovery st), gm_reconcile := rk\<rparr>"
  using assms by (auto simp: complete_gmail_recovery_def Let_def res_splits)

lemma gap_generation:
  assumes "gap scope now st = Inr st'"
  shows "generation_of st' scope = Some (1 + (case generation_of st scope of Some g \<Rightarrow> g | None \<Rightarrow> 0))"
proof -
  have "cover_of st' = cover_of (bump_coverage_generation scope 1 True st)" using clear_stamps_cover assms unfolding gap_def by blast
  then have "fst (cover_of st' scope) = fst (cover_of (bump_coverage_generation scope 1 True st) scope)" by simp
  then show ?thesis by (simp add: bump_cover) (simp add: cover_of_def)
qed

text \<open>
  C12: an account gets its new history cursor only when nothing Gmail listed is left. In every history of the
  operations on labels, accounts and recoveries, a recovery that completes was given pages that end with
  one without a continuation, every earlier one having had one, and since the search last started over the
  messages it finished are exactly the messages on those pages, one by one and in their order. The cursor is
  the one taken when the recovery was created, the recovery is gone, and the coverage generation of the
  mailbox moves up, so that discovery looks at the mailbox again.
\<close>
theorem recovery_drains_pages:
  assumes "gm_recovery st = []" and h: "complete_gmail_recovery env a key now (gmail_run env te st ops) = Inr (st', c)"
  shows "rg_pages (recovery_log_of env te a st ops) \<noteq> []
    \<and> snd (last (rg_pages (recovery_log_of env te a st ops))) = None
    \<and> (\<forall>p\<in>set (butlast (rg_pages (recovery_log_of env te a st ops))). snd p \<noteq> None)
    \<and> concat (map fst (rg_pages (recovery_log_of env te a st ops))) = rg_finished (recovery_log_of env te a st ops)
    \<and> c = rg_cursor (recovery_log_of env te a st ops)
    \<and> map_option mc_cursor (find_cursor st' gmail a) = Some c
    \<and> find_recovery st' a = None
    \<and> generation_of (gm_reconcile st') (gmail, a, key)
        = Some (1 + (case generation_of (gm_reconcile (gmail_run env te st ops)) (gmail, a, key) of Some g \<Rightarrow> g | None \<Rightarrow> 0))"
proof -
  let ?st = "gmail_run env te st ops" and ?g = "recovery_log_of env te a st ops"
  have "follows_log a st \<lparr>rg_pages = [], rg_finished = [], rg_cursor = []\<rparr>" using assms(1) by (simp add: follows_log_def find_recovery_def)
  then have f: "follows_log a ?st ?g" using gmail_run_follows [of a st _ env te ops] by (simp add: logged_run recovery_log_of_def)
  from h obtain s rk where s: "require_current_gmail_recovery env a key ?st = Inr s" and drained: "rs_page_loaded (ry_row s)" "rs_page_token (ry_row s) = None"
    "rs_next_index (ry_row s) = length (ry_page_ids s)" and c: "c = rs_cursor (ry_row s)" and rk: "gap (gmail, a, key) now (gm_reconcile ?st) = Inr rk"
    and st': "st' = ?st\<lparr>gm_cursors := put_cursor \<lparr>mc_provider = gmail, mc_account_id = a, mc_cursor = c, mc_last_success_at = rs_created_at (ry_row s)\<rparr> (gm_cursors ?st),
       gm_recovery := delete_where (\<lambda>r. rs_account_id r = a \<and> rs_identity r = key) (gm_recovery ?st), gm_reconcile := rk\<rparr>"
    by (rule complete_recovery_Inr)
  note row = current_recovery [OF s]
  obtain ids where left: "page_left (ry_row s) ids ?g" using f row(1) by (auto simp: follows_log_def)
  then have ids: "ids = ry_page_ids s" using page_left_ids row(2) by metis
  have log: "rg_pages ?g \<noteq> []" "snd (last (rg_pages ?g)) = None" "\<forall>p\<in>set (butlast (rg_pages ?g)). snd p \<noteq> None"
    "concat (map fst (rg_pages ?g)) = rg_finished ?g" "c = rg_cursor ?g"
    using left drained ids c by (auto simp: page_left_def)
  have cursor: "map_option mc_cursor (find_cursor st' gmail a) = Some c"
    using put_cursor_find [of "\<lparr>mc_provider = gmail, mc_account_id = a, mc_cursor = c, mc_last_success_at = rs_created_at (ry_row s)\<rparr>" "gm_cursors ?st"]
    by (simp add: find_cursor_def st')
  have gone: "find_recovery st' a = None"
  proof -
    have "rs_identity r = key" if "r \<in> set (gm_recovery ?st)" "rs_account_id r = a" for r
      using that find_key_distinct [of rs_account_id "gm_recovery ?st" r] f row(1,3) by (auto simp: follows_log_def find_recovery_def)
    then show ?thesis by (auto simp: find_recovery_def st' find_None_iff set_delete_where)
  qed
  have "gm_reconcile st' = rk" by (simp add: st')
  then show ?thesis using log cursor gone gap_generation [OF rk] by blast
qed

text \<open>One account, a recovery of two pages with one message on the first.\<close>

definition sample_gmail :: gmail_store where
  "sample_gmail = \<lparr>gm_accounts = [\<lparr>mx_provider = gmail, mx_account_id = lit ''a'', mx_display_name = lit ''n'', mx_address = None, mx_active = True,
       mx_created_at = 0, mx_updated_at = 0, mx_mailbox_identity_key = Some sample_key, mx_legacy_status = Legacy_unresolved, mx_legacy_identity_key = None\<rparr>],
     gm_cursors = [], gm_sets = [\<lparr>lb_account_id = lit ''a'', lb_identity = sample_key, lb_revision = 0, lb_created_at = 0, lb_updated_at = 0\<rparr>],
     gm_selectors = [], gm_validation_sets = [], gm_validations = [], gm_recovery = [], gm_reconcile = idle_store\<rparr>"

definition sample_recovery :: "gmail_op list" where
  "sample_recovery = [Create (lit ''a'') sample_key 0 [] [] 1 2 (lit ''9'') (Some 0) [] 5, Store_page (lit ''a'') sample_key [lit ''m''] (Some (lit ''t'')) 6,
     Candidate (lit ''k'') (lit ''a'') sample_key (lit ''m'') None 7, Finish_page (lit ''a'') sample_key 8, Store_page (lit ''a'') sample_key [] None 9]"

definition sample_row :: "bytes \<Rightarrow> bool \<Rightarrow> nat \<Rightarrow> pystr option \<Rightarrow> int \<Rightarrow> int \<Rightarrow> instant \<Rightarrow> recovery_row" where
  "sample_row page loaded i token pages finished at =
     \<lparr>rs_account_id = lit ''a'', rs_identity = sample_key, rs_revision = 0, rs_sender_snapshot = empty_page, rs_selector_snapshot = empty_page,
      rs_after = 1, rs_before = 2, rs_retention_cutoff = 0, rs_cursor = lit ''9'', rs_page_token = token, rs_page = page, rs_page_loaded = loaded,
      rs_next_index = i, rs_page_count = pages, rs_terminal_count = finished, rs_invalid_count = 0, rs_retry_count = 0, rs_phase = Collecting,
      rs_failure_code = None, rs_next_retry_at = None, rs_created_at = 5, rs_updated_at = at, rs_query_scope = []\<rparr>"

definition sample_page :: bytes where
  "sample_page = [91, 34, 109, 34, 93]"

lemma sample_page_encodes:
  "encode_gmail_recovery_page [lit ''m''] = Inr sample_page" "encode_gmail_recovery_page [] = Inr empty_page"
  by (simp_all add: encode_gmail_recovery_page_def empty_page_def sample_page_def dumps_utf8_def dumps_str_def escape_char_def comma_join_def lit_def utf8_char_def
      MAX_GMAIL_RECOVERY_PAGE_IDS_def MAX_GMAIL_RECOVERY_PAGE_JSON_BYTES_def MAX_GMAIL_LABEL_ID_BYTES_def require_def require_bounded_text_def
      within_utf8_bytes_def utf8_size_def has_control_character_def)

lemma sample_page_decodes: "decode_gmail_recovery_page sample_page = Inr [lit ''m'']"
  by (rule recovery_page_roundtrip [OF sample_page_encodes(1)])

lemma empty_snapshots:
  "encode_gmail_sender_snapshot ascii_env [] = Inr empty_page" "encode_gmail_selector_snapshot [] = Inr empty_page"
  by (simp_all add: encode_gmail_sender_snapshot_def encode_gmail_selector_snapshot_def canonical_json_bytes_def dumps_utf8_def comma_join_def lit_def utf8_char_def
      empty_page_def require_def MAX_GMAIL_RECOVERY_SNAPSHOT_BYTES_def)

lemma empty_snapshots_decode:
  "decode_gmail_sender_snapshot ascii_env empty_page = Inr []" "decode_gmail_selector_snapshot empty_page = Inr []"
  using sender_snapshot_roundtrip [OF empty_snapshots(1)] selector_snapshot_roundtrip [OF empty_snapshots(2)] by simp_all

lemma sample_state:
  assumes "decode_gmail_recovery_page page = Inr ids" and "i \<le> length ids" and "loaded \<or> ids = [] \<and> i = 0" and "token \<in> {None, Some (lit ''t'')}"
  shows "gmail_recovery_state_of ascii_env (sample_row page loaded i token pages finished at)
    = Inr \<lparr>ry_row = sample_row page loaded i token pages finished at, ry_page_ids = ids, ry_senders = [], ry_selectors = []\<rparr>"
proof -
  have "opt_all (\<lambda>t. within_utf8_bytes t MAX_GMAIL_RECOVERY_PAGE_TOKEN_BYTES) token"
    using assms(4) by (auto simp: within_utf8_bytes_def utf8_size_def utf8_char_def lit_def MAX_GMAIL_RECOVERY_PAGE_TOKEN_BYTES_def)
  then show ?thesis using assms(1-3) by (simp add: gmail_recovery_state_of_def sample_row_def empty_snapshots_decode)
qed

abbreviation at_row :: "recovery_row \<Rightarrow> gmail_store" where
  "at_row r \<equiv> sample_gmail\<lparr>gm_recovery := [r]\<rparr>"

lemma sample_guards [simp]:
  "require_mailbox_identity_key sample_key = Inr sample_key"
  "require_current_gmail_selector_set (lit ''a'') sample_key (sample_gmail\<lparr>gm_recovery := rs\<rparr>)
     = Inr \<lparr>lb_account_id = lit ''a'', lb_identity = sample_key, lb_revision = 0, lb_created_at = 0, lb_updated_at = 0\<rparr>"
  "require_current_gmail_selector_set (lit ''a'') sample_key sample_gmail
     = Inr \<lparr>lb_account_id = lit ''a'', lb_identity = sample_key, lb_revision = 0, lb_created_at = 0, lb_updated_at = 0\<rparr>"
  "is_active (lit ''a'') (sample_gmail\<lparr>gm_recovery := rs\<rparr>)" "is_active (lit ''a'') sample_gmail"
  "require_bounded_text (lit ''t'') MAX_GMAIL_RECOVERY_PAGE_TOKEN_BYTES = Inr (lit ''t'')"
  "require_bounded_text (lit ''m'') MAX_GMAIL_LABEL_ID_BYTES = Inr (lit ''m'')"
  "require_bounded_text (lit ''9'') MAX_GMAIL_RECOVERY_CURSOR_BYTES = Inr (lit ''9'')"
  by (simp_all add: require_mailbox_identity_key_def is_hex_def require_current_gmail_selector_set_def find_label_set_def sample_gmail_def is_account_def is_active_def mail_account_def
      require_bounded_text_def within_utf8_bytes_def utf8_size_def utf8_char_def has_control_character_def lit_def
      MAX_GMAIL_RECOVERY_PAGE_TOKEN_BYTES_def MAX_GMAIL_LABEL_ID_BYTES_def MAX_GMAIL_RECOVERY_CURSOR_BYTES_def)

lemma sample_current:
  assumes "decode_gmail_recovery_page page = Inr ids" and "i \<le> length ids" and "loaded \<or> ids = [] \<and> i = 0" and "token \<in> {None, Some (lit ''t'')}"
  shows "require_current_gmail_recovery ascii_env (lit ''a'') sample_key (at_row (sample_row page loaded i token pages finished at))
    = Inr \<lparr>ry_row = sample_row page loaded i token pages finished at, ry_page_ids = ids, ry_senders = [], ry_selectors = []\<rparr>"
  using sample_state [OF assms, of pages finished at]
  by (simp add: require_current_gmail_recovery_def find_recovery_def) (simp add: sample_row_def)

lemma sample_updated:
  assumes "F (sample_row page loaded i token pages finished at) = sample_row page' loaded' i' token' pages' finished' at'"
    and "decode_gmail_recovery_page page' = Inr ids" and "i' \<le> length ids" and "loaded' \<or> ids = [] \<and> i' = 0" and "token' \<in> {None, Some (lit ''t'')}"
  shows "update_recovery (lit ''a'') F (at_row (sample_row page loaded i token pages finished at)) = at_row (sample_row page' loaded' i' token' pages' finished' at')"
    "\<exists>s. updated_recovery ascii_env (lit ''a'') F (at_row (sample_row page loaded i token pages finished at))
       = Inr (at_row (sample_row page' loaded' i' token' pages' finished' at'), s)"
proof -
  have a: "rs_account_id (sample_row p l j t n m d) = lit ''a''" for p l j t n m d by (simp add: sample_row_def)
  show u: "update_recovery (lit ''a'') F (at_row (sample_row page loaded i token pages finished at)) = at_row (sample_row page' loaded' i' token' pages' finished' at')"
    by (simp add: update_recovery_def update_where_def a assms(1))
  show "\<exists>s. updated_recovery ascii_env (lit ''a'') F (at_row (sample_row page loaded i token pages finished at))
       = Inr (at_row (sample_row page' loaded' i' token' pages' finished' at'), s)"
    unfolding updated_recovery_def Let_def u by (simp add: find_recovery_def a sample_state [OF assms(2-5)])
qed

lemma sample_create: "gmail_exec ascii_env idle_time sample_gmail (Create (lit ''a'') sample_key 0 [] [] 1 2 (lit ''9'') (Some 0) [] 5)
    = Inr (at_row (sample_row empty_page False 0 None 0 0 5))"
  using sample_state [of empty_page "[]" 0 False None 0 0 5]
  by (simp add: create_gmail_recovery_state_def Let_def empty_snapshots empty_snapshots_decode require_revision_def SQLITE_MAX_INTEGER_def find_recovery_def
      sample_row_def) (simp add: sample_gmail_def)

lemma sample_store:
  assumes "encode_gmail_recovery_page ids = Inr page'" and "token \<in> {None, Some (lit ''t'')}" and "token' \<in> {None, Some (lit ''t'')}" and "pages = 0 \<or> pages = 1"
  shows "gmail_exec ascii_env idle_time (at_row (sample_row empty_page False 0 token pages finished at)) (Store_page (lit ''a'') sample_key ids token' now)
    = Inr (at_row (sample_row page' True 0 token' (pages + 1) finished now))"
proof -
  let ?F = "\<lambda>r. r\<lparr>rs_page_token := token', rs_page := page', rs_page_loaded := True, rs_next_index := 0, rs_page_count := rs_page_count r + 1,
    rs_retry_count := 0, rs_phase := Collecting, rs_failure_code := None, rs_next_retry_at := None, rs_updated_at := now\<rparr>"
  have "?F (sample_row empty_page False 0 token pages finished at) = sample_row page' True 0 token' (pages + 1) finished now" by (simp add: sample_row_def)
  from sample_updated(2) [of ?F, OF this recovery_page_roundtrip [OF assms(1)]] assms(3)
  obtain s where s: "updated_recovery ascii_env (lit ''a'') ?F (at_row (sample_row empty_page False 0 token pages finished at))
    = Inr (at_row (sample_row page' True 0 token' (pages + 1) finished now), s)" by auto
  have t: "(case token' of None \<Rightarrow> Inr [] | Some t \<Rightarrow> require_bounded_text t MAX_GMAIL_RECOVERY_PAGE_TOKEN_BYTES) = Inr (case token' of None \<Rightarrow> [] | Some t \<Rightarrow> t)"
    using assms(3) by auto
  have fields: "\<not> rs_page_loaded (sample_row empty_page False 0 token pages finished at)" "rs_page_count (sample_row empty_page False 0 token pages finished at) = pages"
    by (simp_all add: sample_row_def)
  have max: "pages \<noteq> SQLITE_MAX_INTEGER" using assms(4) by (auto simp: SQLITE_MAX_INTEGER_def)
  show ?thesis
    using assms(2) max by (simp add: store_gmail_recovery_page_def assms(1) t sample_current [of empty_page "[]" 0 False token] fields require_def s)
qed

lemma sample_candidate:
  "gmail_exec ascii_env idle_time (at_row (sample_row sample_page True 0 (Some (lit ''t'')) 1 0 6)) (Candidate (lit ''k'') (lit ''a'') sample_key (lit ''m'') None 7)
    = Inr (at_row (sample_row sample_page True 1 (Some (lit ''t'')) 1 1 7))"
  using sample_current [OF sample_page_decodes, of 0 True "Some (lit ''t'')" 1 0 6]
    sample_updated(1) [of "\<lambda>r. r\<lparr>rs_next_index := rs_next_index r + 1, rs_terminal_count := rs_terminal_count r + 1,
            rs_retry_count := 0, rs_phase := Collecting, rs_failure_code := None, rs_next_retry_at := None, rs_updated_at := 7\<rparr>"
      sample_page True 0 "Some (lit ''t'')" 1 0 6 sample_page True 1 "Some (lit ''t'')" 1 1 7, OF _ sample_page_decodes]
  by (simp add: finish_gmail_recovery_candidate_def capture_admitted_def require_def) (simp add: sample_row_def SQLITE_MAX_INTEGER_def)

lemma sample_finish:
  "gmail_exec ascii_env idle_time (at_row (sample_row sample_page True 1 (Some (lit ''t'')) 1 1 7)) (Finish_page (lit ''a'') sample_key 8)
    = Inr (at_row (sample_row empty_page False 0 (Some (lit ''t'')) 1 1 8))"
  using sample_current [OF sample_page_decodes, of 1 True "Some (lit ''t'')" 1 1 7]
    sample_updated(1) [of "\<lambda>r. r\<lparr>rs_page := empty_page, rs_page_loaded := False, rs_next_index := 0, rs_updated_at := 8\<rparr>"
      sample_page True 1 "Some (lit ''t'')" 1 1 7 empty_page False 0 "Some (lit ''t'')" 1 1 8, OF _ empty_page_decodes]
  by (simp add: finish_gmail_recovery_page_def require_def) (simp add: sample_row_def)

lemma sample_recovery_run: "gmail_run ascii_env idle_time sample_gmail sample_recovery = at_row (sample_row empty_page True 0 None 2 1 9)"
  using sample_create sample_store [OF sample_page_encodes(1), of None "Some (lit ''t'')" 0 0 5 6] sample_candidate sample_finish
    sample_store [OF sample_page_encodes(2), of "Some (lit ''t'')" None 1 1 8 9]
  by (simp add: sample_recovery_def committed_def del: gmail_exec.simps)

lemma sample_completes:
  "\<exists>st'. complete_gmail_recovery ascii_env (lit ''a'') sample_key 10 (gmail_run ascii_env idle_time sample_gmail sample_recovery) = Inr (st', lit ''9'')"
  unfolding sample_recovery_run complete_gmail_recovery_def
  using sample_current [OF empty_page_decodes, of 0 True None 2 1 9]
  by (simp add: require_def) (simp add: sample_row_def sample_gmail_def idle_store_def pass_simps)

theorem recovery_drains_pages_witness:
  "gm_recovery sample_gmail = []
   \<and> (\<exists>st'. complete_gmail_recovery ascii_env (lit ''a'') sample_key 10 (gmail_run ascii_env idle_time sample_gmail sample_recovery) = Inr (st', lit ''9'')
       \<and> map_option mc_cursor (find_cursor st' gmail (lit ''a'')) = Some (lit ''9'')
       \<and> concat (map fst (rg_pages (recovery_log_of ascii_env idle_time (lit ''a'') sample_gmail sample_recovery)))
           = rg_finished (recovery_log_of ascii_env idle_time (lit ''a'') sample_gmail sample_recovery))"
proof -
  have start: "gm_recovery sample_gmail = []" by (simp add: sample_gmail_def)
  from sample_completes obtain st' where c: "complete_gmail_recovery ascii_env (lit ''a'') sample_key 10 (gmail_run ascii_env idle_time sample_gmail sample_recovery) = Inr (st', lit ''9'')"
    by blast
  from recovery_drains_pages [OF start c] start c show ?thesis by blast
qed

section \<open>The revision of the label selectors\<close>

definition label_revision :: "gmail_store \<Rightarrow> pystr \<Rightarrow> int option" where
  "label_revision st a = map_option lb_revision (find_label_set st a)"

fun label_target :: "gmail_op \<Rightarrow> pystr" where
  "label_target (Add_label _ a _ _ _ _ _) = a"
| "label_target (Remove_label a _ _ _ _) = a"
| "label_target _ = []"

fun label_expected :: "gmail_op \<Rightarrow> int option" where
  "label_expected (Add_label _ _ _ _ _ expected _) = Some expected"
| "label_expected (Remove_label _ _ _ expected _) = Some expected"
| "label_expected _ = None"

lemma label_revision_same: "gm_sets st' = gm_sets st \<Longrightarrow> label_revision st' = label_revision st"
  by (simp add: label_revision_def find_label_set_def fun_eq_iff)

lemma update_label_revision:
  assumes "\<And>s. lb_account_id (f s) = lb_account_id s \<and> lb_revision (f s) = n"
  shows "label_revision (update_label_set b f st) a = (if a = b then map_option (\<lambda>_. n) (label_revision st a) else label_revision st a)"
proof -
  have "find_label_set (update_label_set b f st) a = map_option (\<lambda>s. if lb_account_id s = b then f s else s) (find_label_set st a)"
    unfolding find_label_set_def update_label_set_def by (simp add: find_key_update assms)
  moreover have "lb_account_id s = a" if "find_label_set st a = Some s" for s
    using that unfolding find_label_set_def by (rule find_key_Some [THEN conjunct2])
  ultimately show ?thesis using assms by (cases "find_label_set st a") (auto simp: label_revision_def)
qed

lemma note_accounts_sets [simp]: "gm_sets (note_accounts st) = gm_sets st"
  by (simp add: note_accounts_def)

lemma delete_validation_sets [simp]: "gm_sets (delete_gmail_label_validation b st) = gm_sets st"
  by (simp add: delete_gmail_label_validation_def)

lemma bumped_revision:
  "label_revision (bump_label_revision b n now st) a = (if a = b then map_option (\<lambda>_. n + 1) (label_revision st a) else label_revision st a)"
proof -
  have "label_revision (bump_label_revision b n now st) a = label_revision (update_label_set b (\<lambda>s. s\<lparr>lb_revision := n + 1, lb_updated_at := now\<rparr>) st) a"
    unfolding bump_label_revision_def by (simp add: label_revision_same [OF delete_validation_sets])
  then show ?thesis by (simp add: update_label_revision)
qed

lemma current_set: "require_current_gmail_selector_set b key st = Inr s \<Longrightarrow> label_revision st b = Some (lb_revision s)"
  by (auto simp: require_current_gmail_selector_set_def label_revision_def split: option.splits if_splits)

lemma reconcile_label_revision:
  assumes "reconcile_label_set b key now st = Inr st'" and "label_revision st a = Some v"
  shows "\<exists>w \<ge> v. label_revision st' a = Some w"
proof (cases "find_label_set st b")
  case None
  then obtain row where "gm_sets st' = gm_sets st @ [row]" "lb_account_id row = b"
    using assms(1) by (auto simp: reconcile_label_set_def res_splits)
  then show ?thesis using assms(2) by (auto simp: label_revision_def find_label_set_def find_append_rows)
next
  case (Some s)
  show ?thesis
  proof (cases "lb_identity s = key")
    case True
    then show ?thesis using assms Some by (auto simp: reconcile_label_set_def)
  next
    case False
    then have "gm_sets st' = gm_sets (update_label_set b (\<lambda>x. x\<lparr>lb_identity := key, lb_revision := lb_revision s + 1, lb_updated_at := now\<rparr>) st)"
      using assms(1) Some by (auto simp: reconcile_label_set_def Let_def res_splits)
    from label_revision_same [OF this] show ?thesis using assms(2) Some by (auto simp: update_label_revision) (simp add: label_revision_def)
  qed
qed

lemma identify_label_revision:
  assumes "reconcile_mailbox_identity provider b key legacy preserve now st = Inr st'" and "label_revision st a = Some v"
  shows "\<exists>w \<ge> v. label_revision st' a = Some w"
proof -
  have bind: "gm_sets st2 = gm_sets st1"
    if "(if c then andThen (bind_pending_legacy_identity provider b None (capture_view st1)) (\<lambda>cp. Inr (with_capture cp st1)) else Inr st1) = Inr st2" for c st1 st2
    using that by (auto simp: res_splits with_capture_def split: if_splits)
  have label: "\<exists>w \<ge> v. label_revision st2 a = Some w"
    if "(if provider = gmail then reconcile_label_set b key now st1 else Inr st1) = Inr st2" "gm_sets st1 = gm_sets st" for st1 st2
    using that reconcile_label_revision [of b key now st1 st2 a v] label_revision_same [OF that(2)] assms(2) by (auto split: if_splits)
  have noted: "label_revision (if c then note_accounts st2 else st2) a = label_revision st2 a" for c st2
    using label_revision_same [OF note_accounts_sets] by simp
  from assms(1) show ?thesis
    unfolding reconcile_mailbox_identity_def Let_def andThen_Inr split_beta
    by (elim exE conjE) (drule bind, drule label, auto simp: noted)
qed

lemma update_recovery_sets [simp]: "gm_sets (update_recovery b f st) = gm_sets st"
  by (simp add: update_recovery_def)

lemma candidate_sets: "finish_gmail_recovery_candidate env te fresh b key source found now st = Inr p \<Longrightarrow> gm_sets (fst p) = gm_sets st"
  unfolding finish_gmail_recovery_candidate_def andThen_Inr by (elim exE conjE) (drule capture_admitted_frame(2), auto)

lemma bumped_selectors: "label_revision (bump_label_revision b n now (st\<lparr>gm_selectors := rows\<rparr>)) a
    = (if a = b then map_option (\<lambda>_. n + 1) (label_revision st a) else label_revision st a)"
  by (simp add: bumped_revision) (simp add: label_revision_def find_label_set_def)

lemma add_label_revision:
  assumes "add_gmail_label_selector i b key label name expected now st = Inr (st', p)"
  shows "label_revision st b = Some expected" "label_revision st' a = (if a = b then Some (expected + 1) else label_revision st a)"
proof -
  show r: "label_revision st b = Some expected" using assms current_set by (auto simp: add_gmail_label_selector_def Let_def res_splits)
  show "label_revision st' a = (if a = b then Some (expected + 1) else label_revision st a)"
    using assms r by (auto simp: add_gmail_label_selector_def Let_def res_splits bumped_selectors)
qed

lemma remove_label_revision:
  assumes "remove_gmail_label_selector b key i expected now st = Inr (st', p)"
  shows "label_revision st b = Some expected" "label_revision st' a = (if a = b then Some (expected + 1) else label_revision st a)"
proof -
  show r: "label_revision st b = Some expected" using assms current_set by (auto simp: remove_gmail_label_selector_def Let_def res_splits)
  show "label_revision st' a = (if a = b then Some (expected + 1) else label_revision st a)"
    using assms r by (auto simp: remove_gmail_label_selector_def Let_def res_splits bumped_selectors)
qed

text \<open>Only these two operations and a change of identity touch the revisions.\<close>

lemma other_revisions:
  assumes "gmail_exec env te st op = Inr st'" and "label_expected op = None" and "\<And>provider b key legacy preserve now. op \<noteq> Identify provider b key legacy preserve now"
  shows "gm_sets st' = gm_sets st"
proof (cases op)
  case (Identify provider b key legacy preserve now)
  then show ?thesis using assms(3) by blast
next
  case (Register provider b name address active now)
  then show ?thesis using assms by (auto simp: register_mail_account_def Let_def res_splits)
next
  case (Rename_account provider b name address now)
  then show ?thesis using assms by (auto simp: update_mail_account_identity_def Let_def res_splits)
next
  case (Validate b key expected catalog now)
  then show ?thesis using assms by (auto simp: persist_gmail_label_validation_def Let_def res_splits)
next
  case (Validate_invalid b key expected now)
  then show ?thesis using assms by (auto simp: persist_gmail_label_invalid_catalog_def Let_def res_splits)
next
  case (Invalidate b key revision)
  then show ?thesis using assms by (auto simp: invalidate_gmail_label_validation_def res_splits split: if_splits)
next
  case (Create b key revision senders selectors lower upper cursor cutoff scope now)
  then show ?thesis using assms by (auto simp: create_gmail_recovery_state_def Let_def res_splits)
next
  case (Store_page b key ids token now)
  then show ?thesis using assms by (auto simp: store_gmail_recovery_page_def res_splits dest!: updated_recovery_Inr)
next
  case (Finish_page b key now)
  then show ?thesis using assms by (auto simp: finish_gmail_recovery_page_def res_splits split: if_splits)
next
  case (Record_backoff b key code at degraded now)
  then show ?thesis using assms by (auto simp: record_gmail_recovery_backoff_def res_splits dest!: updated_recovery_Inr)
next
  case (Token_invalid b key at now)
  then show ?thesis using assms by (auto simp: record_gmail_recovery_invalid_page_token_def Let_def res_splits dest!: updated_recovery_Inr)
next
  case (Clear_backoff b key now)
  then show ?thesis using assms by (auto simp: clear_gmail_recovery_backoff_def res_splits dest!: updated_recovery_Inr)
next
  case (Restart b key scope now)
  then show ?thesis using assms by (auto simp: restart_gmail_recovery_page_def res_splits dest!: updated_recovery_Inr)
next
  case (Candidate fresh b key source found now)
  then show ?thesis using assms candidate_sets by (fastforce simp: res_splits)
next
  case (Complete_recovery b key now)
  then show ?thesis using assms by (auto simp: complete_gmail_recovery_def Let_def res_splits)
qed (use assms in auto)

interpretation labels: versioned label_revision "gmail_exec env te" label_target label_expected "\<lambda>_. True"
  for env te
proof
  fix st op st'
  assume h: "gmail_exec env te st op = Inr st'"
  show "label_revision st (label_target op) = Some v" if "label_expected op = Some v" for v
    using that h add_label_revision(1) remove_label_revision(1) by (cases op) (auto simp: res_splits)
  show "\<exists>w > v. label_revision st' (label_target op) = Some w" if "label_expected op = Some v" for v
    using that h add_label_revision(2) remove_label_revision(2) by (cases op) (auto simp: res_splits)
  show "\<exists>w \<ge> v. label_revision st' k = Some w" if k: "label_revision st k = Some v" for k v
  proof (cases op)
    case (Identify provider b key legacy preserve now)
    then show ?thesis using identify_label_revision [OF _ k] h by auto
  next
    case (Add_label i b key label name expected now)
    then obtain p where p: "add_gmail_label_selector i b key label name expected now st = Inr (st', p)" using h by (auto simp: res_splits)
    show ?thesis using add_label_revision [OF p] k by auto
  next
    case (Remove_label b key i expected now)
    then obtain p where p: "remove_gmail_label_selector b key i expected now st = Inr (st', p)" using h by (auto simp: res_splits)
    show ?thesis using remove_label_revision [OF p] k by auto
  qed (use label_revision_same [OF other_revisions [OF h]] k in auto)
qed auto

text \<open>
  C31: a revision of an account's label selectors is used for one change. Of two changes of the selectors that name
  the same revision of an account at most one succeeds, whatever operations run in between, by
  whomever, on accounts, identities, labels and recoveries; and the one that succeeds forgets the
  last check of the labels, which was made for the revision it leaves behind.
\<close>
theorem label_revision_spent_once:
  assumes "gmail_exec env te st op1 = Inr st'" and "label_expected op1 = Some v" and "label_expected op2 = Some v" and "label_target op2 = label_target op1"
  shows "\<not> is_ok (gmail_exec env te (gmail_run env te st' ops) op2)
    \<and> (\<forall>s \<in> set (gm_validation_sets st'). vs_account_id s \<noteq> label_target op1)
    \<and> (\<forall>s \<in> set (gm_validations st'). va_account_id s \<noteq> label_target op1)"
proof -
  have "\<not> is_ok (gmail_exec env te (gmail_run env te st' ops) op2)" using labels.version_spent_once [OF _ assms] by simp
  moreover have "(\<forall>s \<in> set (gm_validation_sets st'). vs_account_id s \<noteq> label_target op1) \<and> (\<forall>s \<in> set (gm_validations st'). va_account_id s \<noteq> label_target op1)"
    using assms(1,2) by (cases op1)
      (auto simp: res_splits add_gmail_label_selector_def remove_gmail_label_selector_def Let_def bump_label_revision_def delete_gmail_label_validation_def set_delete_where)
  ultimately show ?thesis by blast
qed

definition sample_label :: gmail_op where
  "sample_label = Add_label (lit ''i'') (lit ''a'') sample_key (lit ''m'') (lit ''m'') 0 1"

lemma sample_label_added: "is_ok (gmail_exec ascii_env idle_time sample_gmail sample_label)"
proof -
  have m: "require_bounded_text (lit ''m'') MAX_GMAIL_LABEL_NAME_BYTES = Inr (lit ''m'')"
    by (simp add: require_bounded_text_def within_utf8_bytes_def utf8_size_def utf8_char_def has_control_character_def lit_def MAX_GMAIL_LABEL_NAME_BYTES_def)
  have none: "gm_selectors sample_gmail = []" by (simp add: sample_gmail_def)
  show ?thesis
    by (simp add: sample_label_def add_gmail_label_selector_def m none require_revision_def SQLITE_MAX_INTEGER_def require_def count_where_def
        MAX_GMAIL_LABEL_SELECTORS_def Let_def)
qed

theorem label_revision_spent_once_witness:
  "\<exists>st'. gmail_exec ascii_env idle_time sample_gmail sample_label = Inr st' \<and> label_expected sample_label = Some 0
     \<and> \<not> is_ok (gmail_exec ascii_env idle_time (gmail_run ascii_env idle_time st' sample_recovery) sample_label)"
proof -
  obtain st' where h: "gmail_exec ascii_env idle_time sample_gmail sample_label = Inr st'" using sample_label_added by (auto simp: is_ok_iff)
  have e: "label_expected sample_label = Some 0" by (simp add: sample_label_def)
  show ?thesis using label_revision_spent_once [OF h e e refl, of sample_recovery] h e by blast
qed

section \<open>Names the snapshot refuses\<close>

lemma strip_last: "strip env s = s \<Longrightarrow> s \<noteq> [] \<Longrightarrow> \<not> isspace env (last s)"
proof -
  assume s: "strip env s = s" "s \<noteq> []"
  let ?t = "dropWhile (isspace env) (rev (dropWhile (isspace env) s))"
  have "rev ?t = s" using s(1) by (simp add: strip_def)
  then have "?t = rev s" by (metis rev_rev_ident)
  moreover have "?t \<noteq> []" using calculation s(2) by simp
  ultimately show ?thesis using hd_dropWhile [of "isspace env" "rev (dropWhile (isspace env) s)"] by (simp add: hd_rev)
qed

lemma encoded_senders_ok: "encode_gmail_sender_snapshot env senders = Inr bs \<Longrightarrow> list_all (sender_ok env) senders"
  using collect_check [of "check_sender env" "sender_ok env" fst, OF check_sender_Inr] by (auto simp: encode_gmail_sender_snapshot_def res_splits)

text \<open>
  C35: a long sender name can make recovery impossible. The configuration accepts a stripped, printable sender name of
  any length, and for admission the name is cut to 1024 bytes. When the cut ends in white space, the snapshot
  of the senders refuses the name, so a recovery of the account can never be started: every attempt to
  do so with such a sender raises.
\<close>
theorem cut_name_blocks_recovery:
  assumes "(address, Some name) \<in> set configured" and "admission_sender_display_name (Some name) = Some shortened" and "shortened \<noteq> []" and "isspace env (last shortened)"
  shows "\<not> is_ok (start_gmail_recovery env is_digits a key (map (\<lambda>(e, n). (e, admission_sender_display_name n)) configured)
     selected last_success cursor sampled_at retention_days folders st)"
proof
  let ?senders = "map (\<lambda>(e, n). (e, admission_sender_display_name n)) configured"
  assume "is_ok (start_gmail_recovery env is_digits a key ?senders selected last_success cursor sampled_at retention_days folders st)"
  then obtain bs where "encode_gmail_sender_snapshot env (sort_key fst ?senders) = Inr bs"
    by (auto simp: is_ok_iff start_gmail_recovery_def create_gmail_recovery_state_def Let_def res_splits)
  moreover have "(address, Some shortened) \<in> set (sort_key fst ?senders)" using assms(1,2) by force
  ultimately have "sender_ok env (address, Some shortened)" using encoded_senders_ok by (auto simp: list_all_iff)
  then show False using strip_last [of env shortened] assms(3,4) by (auto simp: sender_ok_def good_name_def)
qed

definition long_name :: pystr where
  "long_name = 97 # replicate 1022 97 @ [32, 98]"

lemma long_name_cut: "admission_sender_display_name (Some long_name) = Some (97 # replicate 1022 97 @ [32])"
proof -
  have e: "utf8_encode long_name = Some long_name" by (rule utf8_ascii) (simp add: long_name_def list_all_iff)
  have "utf8_encode (97 # replicate 1022 97 @ [32]) = Some (97 # replicate 1022 97 @ [32])" by (rule utf8_ascii) (simp add: list_all_iff)
  then have d: "utf8_decode_ignore (97 # replicate 1022 97 @ [32]) = 97 # replicate 1022 97 @ [32]" by (rule utf8_decode_encode)
  have t: "take 1024 long_name = 97 # replicate 1022 97 @ [32]" by (simp add: long_name_def)
  have "length long_name = 1025" by (simp add: long_name_def)
  then show ?thesis by (simp add: admission_sender_display_name_def MAX_SENDER_NAME_BYTES_def e t d del: utf8_decode_ignore.simps utf8_encode.simps)
qed

theorem cut_name_blocks_recovery_witness:
  "good_name ascii_env long_name
   \<and> \<not> is_ok (start_gmail_recovery ascii_env (\<lambda>_. True) (lit ''a'') sample_key (map (\<lambda>(e, n). (e, admission_sender_display_name n)) [(lit ''v@x.co'', Some long_name)])
     [] 0 (lit ''9'') 0 30 {Inbox} sample_gmail)"
proof -
  have "good_name ascii_env long_name" by (simp add: good_name_def long_name_def strip_def ascii_env_def list_all_iff)
  moreover have "\<not> is_ok (start_gmail_recovery ascii_env (\<lambda>_. True) (lit ''a'') sample_key (map (\<lambda>(e, n). (e, admission_sender_display_name n)) [(lit ''v@x.co'', Some long_name)])
     [] 0 (lit ''9'') 0 30 {Inbox} sample_gmail)"
    by (rule cut_name_blocks_recovery [OF _ long_name_cut]) (simp_all add: ascii_env_def)
  ultimately show ?thesis by blast
qed

end
