(* ===== verification/Spec2Isabelle.thy ===== *)
theory Spec2Isabelle
  imports Rule_Match Admission Outbound Queue_Proofs Calendar_Proofs Analysis_Safety Capture_Safety Capture_Sightings
    Body_Proofs Reconcile_Proofs Gmail_Proofs
begin

text \<open>
  \<^bold>\<open>A verified model of the EOM email watcher\<close>

  The program watches mailboxes, admits the messages its owner asked for, has a local model analyse
  them, matches automation rules on their attachments, and hands matched attachments to other local
  applications through the Connect protocol. Messages that ask for a meeting start a scheduling run,
  which proposes a time and, when the owner confirms it, creates a calendar event. It keeps everything in one SQLite database
  (\<open>db.py\<close>); each store method runs in one \<open>BEGIN IMMEDIATE\<close> transaction, so an operation is modelled
  as a function from the store to an error or a new store, and an error leaves the store as it was.

  \<^bold>\<open>Theories.\<close> Paths are relative to \<open>src/src/eom_email_watcher/\<close>.

  \<^item> \<open>Prelude\<close>: results, rows and timestamps; shared lemmas on tables.
  \<^item> \<open>Text\<close>: UTF-8 written out, \<open>text.py\<close> and the validators at the head of \<open>db.py\<close>.
  \<^item> \<open>Addresses\<close>: the pure functions of \<open>mailbox.py\<close> and the address functions of \<open>config.py\<close>.
  \<^item> \<open>Glob\<close>, \<open>Json\<close>, \<open>Json_Parse\<close>: \<open>fnmatch.fnmatchcase\<close>, \<open>json.dumps\<close> and \<open>json.loads\<close> of the standard
    library, with the round trip of the last two.
  \<^item> \<open>Rules\<close>, \<open>Rule_Match\<close>: \<open>automation/rules.py\<close>, the validated rule model and the matcher.
  \<^item> \<open>Rule_Store\<close>, \<open>Rule_Store_Proofs\<close>: the stored rules of \<open>db.py\<close>, with their versions and revisions.
  \<^item> \<open>Admission\<close>: \<open>thread_state.py\<close> and \<open>match_mailbox_admission\<close> of \<open>service.py\<close> with its helpers.
  \<^item> \<open>Interfaces\<close>: the locales \<open>once_guard\<close> (an attempt on a key is followed by another only after
    a release of the key), \<open>once_log\<close> (the same for steps with several effects, over the log of all
    effects) and \<open>versioned\<close> (an operation that names a version spends it).
  \<^item> \<open>Outbound\<close>: \<open>outbound.py\<close>, the two outbound tables and the two commands of \<open>cli.py\<close>.
  \<^item> \<open>Connect_Store\<close>: the rows and CHECK constraints of the Connect tables and of automation fires,
    the triggers on them, and the removal eligibility of \<open>removal.py\<close> that they consult.
  \<^item> \<open>Fires\<close>: the operations on stored automation fires.
  \<^item> \<open>Connect_Queue\<close>, \<open>Queue_Proofs\<close>: the provider queue: lanes, wakeups, expiry, claim, deferral,
    creation, resubmission, reported transitions.
  \<^item> \<open>Calendar_Store\<close>, \<open>Calendar_Runs\<close>, \<open>Calendar_Writes\<close>: the tables of the scheduling automation and the
    store methods on them: admission, extraction, review, proposal, decision, write, cancellation, purge.
  \<^item> \<open>Calendar_Service\<close>: the extraction loop and the write pass of \<open>service.py\<close> and the queries they poll.
  \<^item> \<open>Calendar_Ledger\<close>, \<open>Calendar_History\<close>: the invariant of those tables, every operation as one commit
    along the lifecycle of a run, and histories of operations; \<open>Calendar_Proofs\<close>: the properties.
  \<^item> \<open>Analysis\<close>: the analysis columns of \<open>messages\<close> and the store methods on them, from \<open>pending\<close> and
    \<open>reserve_analysis_request\<close> to \<open>mark_analyzed\<close>, which stores the result, the matched fires and the
    scheduling run in one transaction. \<open>Notifications\<close>: \<open>notifications.py\<close>, the notification intents
    and their acknowledgement. \<open>Analysis_Service\<close>: \<open>_process_pending\<close> of \<open>service.py\<close> with its helpers.
  \<^item> \<open>Analysis_Pass\<close>: the locale \<open>pass_steps\<close>: a relation that every elementary step of a pass respects
    relates its start to every point where it can end. \<open>Analysis_Proofs\<close>, \<open>Analysis_Safety\<close>: four
    interpretations of it and the properties.
  \<^item> \<open>Capture\<close>: the capture of messages in \<open>db.py\<close>: \<open>_insert_message_in_transaction\<close> with the guards it
    consults, copies, recipients, locations and source observations, the thread keys of IMAP mail
    (\<open>_imap_thread_key\<close>, \<open>_apply_imap_component\<close>) and \<open>has_seen_message\<close>. \<open>Capture_Proofs\<close>: its
    invariant and every step as one join of nodes; \<open>Capture_History\<close>, \<open>Capture_Safety\<close>,
    \<open>Capture_Sightings\<close>: the properties.
  \<^item> \<open>Bodies\<close>, \<open>Body_Proofs\<close>: \<open>body_state.py\<close>, the stored bodies of followed messages, with the logical unit
    of a message and the retention cutoff of \<open>db.py\<close>.
  \<^item> \<open>Reconcile\<close>, \<open>Reconcile_Proofs\<close>: \<open>reconcile_state.py\<close>, the coverage generation of a mailbox and the
    frozen progress of a reconcile pass. The locale \<open>covered\<close> is the machine of generations that the
    operations refine.
  \<^item> \<open>Gmail_Labels\<close>: mailbox accounts and their identity, and the label selectors of a Gmail account with their
    revision and their validation. \<open>Gmail_Recovery\<close>: the recovery of the interval lost when Gmail forgets a
    history cursor: its row, the codecs of the snapshots and pages it stores, and the store methods from
    \<open>create_gmail_recovery_state\<close> to \<open>complete_gmail_recovery\<close>. \<open>Gmail_Service\<close>: \<open>_run_gmail_recovery\<close> of
    \<open>service.py\<close> with its helpers and the start of a recovery in \<open>_check_active\<close>. \<open>Gmail_Codec\<close>: what is
    stored of a recovery is read back as it was written; \<open>Gmail_Proofs\<close>: the properties.

  \<^bold>\<open>Correspondence.\<close> A table is the list of its rows in rowid order and a row a \<open>record\<close> with the
  columns the modelled code reads or writes. An \<open>UPDATE\<close> is \<open>checked_update\<close>, which fails with
  \<open>IntegrityError\<close> when a new row violates a constraint; an \<open>INSERT\<close> is \<open>checked_insert\<close>. A raise
  is \<open>Inl\<close> with the exception and its text. Text is a list of code points; Python integers are \<open>int\<close>
  (unbounded, as in Python; SQLite's 64 bit limit enters where \<open>_require_revision\<close> checks it).
  Timestamps the program writes are \<open>instant\<close>s (microseconds since the epoch); a column that is
  parsed again is an \<open>iso\<close> value, which may lack its zone or be malformed, so that the branches for
  these are reached. The clock, fresh UUIDs and the clock of SQL triggers are arguments; a theorem
  about histories that rests on a UUID being new says so (\<open>fresh_keys\<close>).

  \<^bold>\<open>Parameters.\<close> \<open>pyenv\<close> carries the parts of the standard library that rest on tables or on
  cryptography (Unicode case folding and classes, the header parsers, IDNA, SHA-256). Gmail's
  answers are inputs of the outbound commands. The answers of the \<open>connect_automate\<close> package, of
  the request and result codecs and of the certificate validation are arguments of
  \<open>create_connect_job\<close> and \<open>transition_connect_job\<close>; the theorems hold for every answer.
  \<open>timeenv\<close> carries \<open>datetime.fromisoformat\<close> and the time zones. What Microsoft Graph and the local model
  answer in a scheduling pass, and whether a write authorization is stored, are inputs too. \<open>world\<close> is
  what the mailbox, the model, the notification channels and the retention cutoff answer during an
  analysis pass, \<open>textenv\<close> the text of a stored timestamp and \<open>int()\<close> of a text. A \<open>turn\<close> is what Gmail
  answers and what the clock says in one round of a recovery.

  \<^bold>\<open>What is shown.\<close> A lane of the queue has at most one job in flight and dispatches are separated
  by settlements (\<open>Queue_Proofs\<close>, from \<open>once_guard\<close>); a provider's acceptance is never undone;
  expiry and order of service are exact. A fire moves along its table, spends each version once
  (from \<open>versioned\<close>), is retried at most once and only after a harmless failure, is confirmed only by
  its user, and survives the removal of its source when the provider may have its work. A month is
  mailed at most once between two operator releases (again from \<open>once_guard\<close>). Admission is sound and,
  without the gated class, exact; it is independent of the order of selectors. The rule matcher
  equals a declarative list of matches; a rule that was put is matched as the definition that was put
  until it is changed, disabled or deleted, deletion is final, and versions and revisions count the
  changes. For the scheduling automation, over every history of
  operations: the event log replays to the rows (the log is the abstract state, the rows refine it);
  a run moves only along its lifecycle; it is handed to Graph at most once (from \<open>once_log\<close>) and only after its owner
  confirmed that proposal, unexpired, with that digest; confirming is idempotent; an unresolved write
  completes when Graph finds its event; and a source problem that the service reports with the code
  \<open>mailbox_identity_unverified\<close> always raises, which is a fault of the program. A completed analysis
  adds exactly the fires that the stored rules declare for the attachments of its message, and
  evaluating stored rules never raises. Over a pass nothing is pushed without consent, about a message
  under removal or in a dry run, and a dry run writes nothing; over every history of passes and other
  operations a message is analysed under one request until that is settled, and what is settled is
  not read again. A capture writes only past all its guards, and what it writes is recognised from
  then on; after every history of captures the keys of IMAP threads name the connected components
  of the ids that messages mention; the confirmation of a source is a function of the set of its
  sightings. A body is read back as it was fetched, and a mailbox counts as covered only after a
  pass that was loaded and completed in the present generation. A recovery of Gmail history is
  completed only when every page from the first to the last was listed and each listed message was finished, in
  that order; a revision of the label selectors is spent by one change (from \<open>versioned\<close>); and a sender name
  whose cut for admission ends in white space makes it impossible to start a recovery, which is a fault
  of the program.

  All functions are total. The recursions are structural or over lists, except \<open>chunks\<close>, which has a
  measure, the JSON parser, whose fuel is the length of the text (\<open>loads_canonical\<close> shows that it reads
  every document the program prints), and the extraction loop, which has fuel: \<open>extraction_loop_ends\<close>
  proves that 2 is enough.

  \<^bold>\<open>Not modelled.\<close> Calendar grants and the certificate ledger, whose rows are built by codecs of other
  packages; the tables that temporary triggers derive from messages, and the reads over them; the
  one-off migrations; planning and running a removal, the paging of \<open>reconcile.py\<close>
  through a remote mailbox, and the preview of a recovery in a dry run. Left out because they are effects of the operating
  system or of services: network adapters, HTTP routing, process locks, file permissions and
  installation.
\<close>

end
